(* ===== verification/Prelude.thy ===== *)
theory Prelude
  imports Main "HOL-Library.Word"
begin

text \<open>
  Shared vocabulary of the development: the machine types of the C code, the
  string routines of the C library the sources call (\<open>strchr\<close>, \<open>strrchr\<close>,
  \<open>strstr\<close>, \<open>atoi\<close>, the \<open>%d\<close> and \<open>%u\<close> conversions of \<open>printf\<close>), and the
  generic lemmas on lists that several components use.  A C string is the list
  of its characters up to, and without, the terminating zero byte.
\<close>

unbundle bit_operations_syntax

type_synonym byte = "8 word"
type_synonym u16 = "16 word"
type_synonym u32 = "32 word"
type_synonym u64 = "64 word"
type_synonym ptr = nat

named_theorems cstr_simps \<open>rewriting of the C string routines\<close>
named_theorems frame_simps \<open>parts of a state an operation leaves alone\<close>

section \<open>Characters\<close>

definition chr_code :: "char \<Rightarrow> nat" where
  "chr_code c = of_char c"

definition is_digit :: "char \<Rightarrow> bool" where
  "is_digit c \<longleftrightarrow> 48 \<le> chr_code c \<and> chr_code c \<le> 57"

definition is_space :: "char \<Rightarrow> bool" where
  "is_space c \<longleftrightarrow> chr_code c = 32 \<or> (9 \<le> chr_code c \<and> chr_code c \<le> 13)"

definition digit_val :: "char \<Rightarrow> nat" where
  "digit_val c = chr_code c - 48"

definition digit_chr :: "nat \<Rightarrow> char" where
  "digit_chr d = char_of (48 + d)"

lemma chr_code_digit_chr [simp]: "d < 10 \<Longrightarrow> chr_code (digit_chr d) = 48 + d"
  by (simp add: chr_code_def digit_chr_def)

lemma is_digit_digit_chr [simp]: "d < 10 \<Longrightarrow> is_digit (digit_chr d)"
  by (simp add: is_digit_def)

lemma digit_val_digit_chr [simp]: "d < 10 \<Longrightarrow> digit_val (digit_chr d) = d"
  by (simp add: digit_val_def)

lemma is_space_digit_chr [simp]: "d < 10 \<Longrightarrow> \<not> is_space (digit_chr d)"
  by (simp add: is_space_def)

lemma digit_chr_neq_sign [simp]:
  assumes "d < 10"
  shows "digit_chr d \<noteq> CHR ''-''" "digit_chr d \<noteq> CHR ''+''"
        "digit_chr d \<noteq> CHR ''.''" "digit_chr d \<noteq> CHR ''/''" "digit_chr d \<noteq> CHR ''|''"
  using assms chr_code_digit_chr [OF assms] by (auto simp: chr_code_def)

section \<open>Searching a string\<close>

text \<open>The result is the index the returned pointer stands for, \<open>None\<close> for \<open>NULL\<close>.\<close>

primrec strchr :: "string \<Rightarrow> char \<Rightarrow> nat option" where
  "strchr [] c = None"
| "strchr (x # xs) c = (if x = c then Some 0 else map_option Suc (strchr xs c))"

definition strrchr :: "string \<Rightarrow> char \<Rightarrow> nat option" where
  "strrchr s c = map_option (\<lambda>i. length s - 1 - i) (strchr (rev s) c)"

primrec strstr :: "string \<Rightarrow> string \<Rightarrow> nat option" where
  "strstr [] p = (if p = [] then Some 0 else None)"
| "strstr (x # xs) p =
     (if take (length p) (x # xs) = p then Some 0 else map_option Suc (strstr xs p))"

lemma strchr_None [cstr_simps]: "strchr s c = None \<longleftrightarrow> c \<notin> set s"
  by (induction s) auto

lemma strchr_Some_less: "strchr s c = Some i \<Longrightarrow> i < length s"
  by (induction s arbitrary: i) (auto split: if_splits)

lemma strchr_append [cstr_simps]: "c \<notin> set s \<Longrightarrow> strchr (s @ c # t) c = Some (length s)"
  by (induction s) auto

lemma strchr_SomeD:
  "strchr s c = Some i \<Longrightarrow> i < length s \<and> s ! i = c \<and> c \<notin> set (take i s)"
proof (induction s arbitrary: i)
  case Nil
  then show ?case by simp
next
  case (Cons x xs)
  then show ?case by (cases i) (auto split: if_splits)
qed

lemma strrchr_None [cstr_simps]: "strrchr s c = None \<longleftrightarrow> c \<notin> set s"
  by (simp add: strrchr_def strchr_None)

lemma strrchr_append [cstr_simps]: "c \<notin> set t \<Longrightarrow> strrchr (s @ c # t) c = Some (length s)"
  using strchr_append [of c "rev t" "rev s"] by (simp add: strrchr_def)

lemma strrchr_Some_less: "strrchr s c = Some i \<Longrightarrow> i < length s"
  by (auto simp: strrchr_def dest: strchr_Some_less)

section \<open>Reading and printing decimals\<close>

primrec digits_val :: "string \<Rightarrow> nat \<Rightarrow> nat" where
  "digits_val [] acc = acc"
| "digits_val (c # cs) acc =
     (if is_digit c then digits_val cs (10 * acc + digit_val c) else acc)"

text \<open>C's \<open>%\<close> truncates towards zero.\<close>

definition crem :: "int \<Rightarrow> int \<Rightarrow> int" where
  "crem a b = (if a < 0 then - ((- a) mod b) else a mod b)"

lemma crem_bounds: "0 < b \<Longrightarrow> crem a b < b \<and> - b < crem a b"
  by (simp add: crem_def pos_mod_bound) (smt (verit) pos_mod_bound pos_mod_sign)

text \<open>\<open>atoi\<close> on a value that fits; the sources only read ports, directory numbers and ids.\<close>

definition atoi :: "string \<Rightarrow> int" where
  "atoi s = (case dropWhile is_space s of
       [] \<Rightarrow> 0
     | c # cs \<Rightarrow> if c = CHR ''-'' then - int (digits_val cs 0)
                 else if c = CHR ''+'' then int (digits_val cs 0)
                 else int (digits_val (c # cs) 0))"

fun show_nat :: "nat \<Rightarrow> string" where
  "show_nat n = (if n < 10 then [digit_chr n] else show_nat (n div 10) @ [digit_chr (n mod 10)])"

declare show_nat.simps [simp del]

definition show_int :: "int \<Rightarrow> string" where
  "show_int i = (if i < 0 then CHR ''-'' # show_nat (nat (- i)) else show_nat (nat i))"

definition no_digit_first :: "string \<Rightarrow> bool" where
  "no_digit_first s \<longleftrightarrow> (case s of [] \<Rightarrow> True | c # _ \<Rightarrow> \<not> is_digit c)"

lemma no_digit_first_Nil [simp]: "no_digit_first []"
  by (simp add: no_digit_first_def)

lemma no_digit_first_Cons [simp]: "no_digit_first (c # s) \<longleftrightarrow> \<not> is_digit c"
  by (simp add: no_digit_first_def)

lemma digits_val_stop: "no_digit_first s \<Longrightarrow> digits_val s acc = acc"
  by (cases s) auto

lemma show_nat_digits: "\<forall>c \<in> set (show_nat n). is_digit c"
proof (induction n rule: show_nat.induct)
  case (1 n)
  then show ?case by (cases "n < 10") (auto simp: show_nat.simps [of n])
qed

lemma show_nat_nonempty [simp]: "show_nat n \<noteq> []"
  by (simp add: show_nat.simps [of n])

lemma digits_val_append:
  "\<forall>c \<in> set s. is_digit c \<Longrightarrow> digits_val (s @ t) acc = digits_val t (digits_val s acc)"
  by (induction s arbitrary: acc) auto

lemma digits_val_show_nat: "no_digit_first t \<Longrightarrow> digits_val (show_nat n @ t) 0 = n"
proof -
  have "digits_val (show_nat n) 0 = n"
  proof (induction n rule: show_nat.induct)
    case (1 n)
    show ?case
    proof (cases "n < 10")
      case True
      then show ?thesis by (simp add: show_nat.simps [of n])
    next
      case False
      then have "digits_val (show_nat (n div 10)) 0 = n div 10" by (rule "1.IH")
      with False show ?thesis
        by (simp add: show_nat.simps [of n] digits_val_append show_nat_digits)
    qed
  qed
  then show "no_digit_first t \<Longrightarrow> digits_val (show_nat n @ t) 0 = n"
    by (simp add: digits_val_append show_nat_digits digits_val_stop)
qed

lemma show_nat_hd: obtains d ds where "show_nat n = digit_chr d # ds" "d < 10"
proof -
  have "\<exists>d ds. show_nat n = digit_chr d # ds \<and> d < 10"
  proof (induction n rule: show_nat.induct)
    case (1 n)
    then show ?case by (cases "n < 10") (auto simp: show_nat.simps [of n])
  qed
  with that show ?thesis by blast
qed

lemma atoi_show_nat: "no_digit_first t \<Longrightarrow> atoi (show_nat n @ t) = int n"
proof -
  assume t: "no_digit_first t"
  obtain d ds where d: "show_nat n = digit_chr d # ds" "d < 10" by (rule show_nat_hd)
  with digits_val_show_nat [OF t, of n] show ?thesis
    by (simp add: atoi_def del: digits_val.simps)
qed

lemma show_nat_notin: "\<not> is_digit c \<Longrightarrow> c \<notin> set (show_nat n)"
  using show_nat_digits by blast

section \<open>Bits of a byte\<close>

lemma byte_bit_high [simp]:
  "\<not> bit (a :: byte) (8 + n)" "\<not> bit (a :: byte) (16 + n)" "\<not> bit (a :: byte) (24 + n)"
  by (auto dest: bit_imp_le_length)

section \<open>Lists of pointers\<close>

lemma removeAll_notin: "x \<notin> set xs \<Longrightarrow> removeAll x xs = xs"
  by (induction xs) auto

lemma removeAll_distinct_split:
  "distinct (xs @ x # ys) \<Longrightarrow> removeAll x (xs @ x # ys) = xs @ ys"
  by (simp add: removeAll_notin)

lemma length_removeAll_distinct:
  "distinct xs \<Longrightarrow> x \<in> set xs \<Longrightarrow> length (removeAll x xs) = length xs - 1"
  by (metis distinct_remove1_removeAll length_remove1)

lemma take_append_exact: "length xs = n \<Longrightarrow> take n (xs @ ys) = xs"
  by simp

lemma drop_append_exact: "length xs = n \<Longrightarrow> drop n (xs @ ys) = ys"
  by simp

end
