(* ===== verification/ListHead.thy ===== *)
theory ListHead
  imports Prelude
begin

text \<open>
  \<open>src/lib/list.h\<close>: the intrusive doubly linked ring the whole program keeps its
  objects in.  A heap gives every \<open>list_head\<close> address its \<open>next\<close> and \<open>prev\<close>
  pointers; every function of the header is translated to a heap update, in the
  order of its assignments.  \<open>ring h p xs\<close> says that the list with head \<open>p\<close> holds
  exactly \<open>xs\<close>; the refinement lemmas show what each function does to \<open>xs\<close>, and the
  iteration macro is shown to visit each element once although the body unlinks it.
  The locale \<open>list_family\<close> is the interface the other components use.
\<close>

record list_heap =
  nextp :: "ptr \<Rightarrow> ptr"
  prevp :: "ptr \<Rightarrow> ptr"

definition set_next :: "ptr \<Rightarrow> ptr \<Rightarrow> list_heap \<Rightarrow> list_heap" where
  "set_next p v h = h\<lparr>nextp := (nextp h)(p := v)\<rparr>"

definition set_prev :: "ptr \<Rightarrow> ptr \<Rightarrow> list_heap \<Rightarrow> list_heap" where
  "set_prev p v h = h\<lparr>prevp := (prevp h)(p := v)\<rparr>"

definition INIT_LIST_HEAD :: "ptr \<Rightarrow> list_heap \<Rightarrow> list_heap" where
  "INIT_LIST_HEAD p h = set_prev p p (set_next p p h)"

definition list_add_between :: "ptr \<Rightarrow> ptr \<Rightarrow> ptr \<Rightarrow> list_heap \<Rightarrow> list_heap" where
  "list_add_between new1 prev next0 h =
     (let h = set_prev next0 new1 h;
          h = set_next new1 next0 h;
          h = set_prev new1 prev h
      in set_next prev new1 h)"

definition list_add_head :: "ptr \<Rightarrow> ptr \<Rightarrow> list_heap \<Rightarrow> list_heap" where
  "list_add_head new1 head h = list_add_between new1 head (nextp h head) h"

definition list_add_tail :: "ptr \<Rightarrow> ptr \<Rightarrow> list_heap \<Rightarrow> list_heap" where
  "list_add_tail new1 head h = list_add_between new1 (prevp h head) head h"

definition list_del_between :: "ptr \<Rightarrow> ptr \<Rightarrow> list_heap \<Rightarrow> list_heap" where
  "list_del_between prev next0 h = set_next prev next0 (set_prev next0 prev h)"

text \<open>\<open>list_del\<close> leaves null pointers (address 0) in the entry.\<close>

definition list_del :: "ptr \<Rightarrow> list_heap \<Rightarrow> list_heap" where
  "list_del entry h =
     (let h = list_del_between (prevp h entry) (nextp h entry) h
      in set_prev entry 0 (set_next entry 0 h))"

definition list_del_init :: "ptr \<Rightarrow> list_heap \<Rightarrow> list_heap" where
  "list_del_init entry h =
     INIT_LIST_HEAD entry (list_del_between (prevp h entry) (nextp h entry) h)"

definition list_move :: "ptr \<Rightarrow> ptr \<Rightarrow> list_heap \<Rightarrow> list_heap" where
  "list_move l head h = list_add_head l head (list_del_between (prevp h l) (nextp h l) h)"

definition list_move_tail :: "ptr \<Rightarrow> ptr \<Rightarrow> list_heap \<Rightarrow> list_heap" where
  "list_move_tail l head h = list_add_tail l head (list_del_between (prevp h l) (nextp h l) h)"

definition list_empty :: "ptr \<Rightarrow> list_heap \<Rightarrow> bool" where
  "list_empty head h \<longleftrightarrow> nextp h head = head"

definition list_splice_between :: "ptr \<Rightarrow> ptr \<Rightarrow> list_heap \<Rightarrow> list_heap" where
  "list_splice_between l head h =
     (let first = nextp h l; last0 = prevp h l; at = nextp h head;
          h = set_prev first head h;
          h = set_next head first h;
          h = set_next last0 at h
      in set_prev at last0 h)"

definition list_splice :: "ptr \<Rightarrow> ptr \<Rightarrow> list_heap \<Rightarrow> list_heap" where
  "list_splice l head h = (if \<not> list_empty l h then list_splice_between l head h else h)"

definition list_splice_init :: "ptr \<Rightarrow> ptr \<Rightarrow> list_heap \<Rightarrow> list_heap" where
  "list_splice_init l head h =
     (if \<not> list_empty l h then INIT_LIST_HEAD l (list_splice_between l head h) else h)"

section \<open>What a heap holds\<close>

text \<open>\<open>chain h a xs b\<close>: from \<open>a\<close> the links lead through \<open>xs\<close> to \<open>b\<close>, both ways.\<close>

primrec chain :: "list_heap \<Rightarrow> ptr \<Rightarrow> ptr list \<Rightarrow> ptr \<Rightarrow> bool" where
  "chain h a [] b \<longleftrightarrow> nextp h a = b \<and> prevp h b = a"
| "chain h a (x # xs) b \<longleftrightarrow> nextp h a = x \<and> prevp h x = a \<and> chain h x xs b"

definition ring :: "list_heap \<Rightarrow> ptr \<Rightarrow> ptr list \<Rightarrow> bool" where
  "ring h p xs \<longleftrightarrow> distinct (p # xs) \<and> chain h p xs p"

lemma set_next_simps [simp]:
  "nextp (set_next p v h) = (nextp h)(p := v)" "prevp (set_next p v h) = prevp h"
  by (simp_all add: set_next_def)

lemma set_prev_simps [simp]:
  "prevp (set_prev p v h) = (prevp h)(p := v)" "nextp (set_prev p v h) = nextp h"
  by (simp_all add: set_prev_def)

lemma set_next_set_prev: "set_next a b (set_prev c d h) = set_prev c d (set_next a b h)"
  by (simp add: set_next_def set_prev_def)

lemma chain_append: "chain h a (xs @ y # ys) b \<longleftrightarrow> chain h a xs y \<and> chain h y ys b"
  by (induction xs arbitrary: a) auto

lemma chain_snoc: "chain h a (xs @ [y]) b \<longleftrightarrow> chain h a xs y \<and> nextp h y = b \<and> prevp h b = y"
  by (simp add: chain_append)

lemma chain_cong:
  "\<lbrakk>\<forall>x \<in> set (a # xs). nextp h' x = nextp h x; \<forall>x \<in> set (b # xs). prevp h' x = prevp h x\<rbrakk>
   \<Longrightarrow> chain h' a xs b = chain h a xs b"
  by (induction xs arbitrary: a) auto

lemma chain_last_next: "chain h a xs b \<Longrightarrow> nextp h (last (a # xs)) = b"
  by (induction xs arbitrary: a) auto

lemma chain_last_prev: "chain h a xs b \<Longrightarrow> prevp h b = last (a # xs)"
  by (induction xs arbitrary: a) auto

lemma chain_first_next: "chain h a xs b \<Longrightarrow> nextp h a = hd (xs @ [b])"
  by (cases xs) auto

lemma ring_nil: "ring h p [] \<longleftrightarrow> nextp h p = p \<and> prevp h p = p"
  by (simp add: ring_def)

lemma ring_init [simp]: "ring (INIT_LIST_HEAD p h) p []"
  by (simp add: ring_nil INIT_LIST_HEAD_def)

lemma ring_empty: "ring h p xs \<Longrightarrow> list_empty p h \<longleftrightarrow> xs = []"
  by (cases xs) (auto simp: ring_def list_empty_def)

section \<open>What the functions do to a ring\<close>

lemma chain_set_next [simp]:
  "q \<notin> set (a # xs) \<Longrightarrow> chain (set_next q v h) a xs b = chain h a xs b"
  by (rule chain_cong) auto

lemma chain_set_prev [simp]:
  "q \<notin> set (b # xs) \<Longrightarrow> chain (set_prev q v h) a xs b = chain h a xs b"
  by (rule chain_cong) auto

lemma ring_cong:
  "\<forall>x \<in> set (p # xs). nextp h' x = nextp h x \<and> prevp h' x = prevp h x
   \<Longrightarrow> ring h' p xs = ring h p xs"
  unfolding ring_def by (intro conj_cong refl chain_cong) auto

text \<open>Joining the end of a chain to another node: the step both unlinking and splicing make.\<close>

lemma chain_relink:
  "\<lbrakk>chain h a xs x; distinct (a # xs); b \<notin> set xs\<rbrakk>
   \<Longrightarrow> chain (set_next (last (a # xs)) b (set_prev b (last (a # xs)) h)) a xs b"
proof (induction xs arbitrary: a)
  case Nil
  then show ?case by simp
next
  case (Cons y ys)
  then have "chain (set_next (last (y # ys)) b (set_prev b (last (y # ys)) h)) y ys b"
    by simp
  with Cons.prems show ?case by (auto split: if_splits)
qed

lemma ring_neighbours:
  assumes "ring h p (xs @ x # ys)"
  shows "prevp h x = last (p # xs)" "nextp h x = hd (ys @ [p])"
  using assms by (auto simp: ring_def chain_append dest: chain_last_prev chain_first_next)

lemma ring_unlink:
  assumes "ring h p (xs @ x # ys)"
  shows "ring (list_del_between (prevp h x) (nextp h x) h) p (xs @ ys)"
proof -
  define a b where "a = last (p # xs)" and "b = hd (ys @ [p])"
  let ?h = "set_next a b (set_prev b a h)"
  from assms have d: "distinct (p # xs @ x # ys)" and c1: "chain h p xs x" and c2: "chain h x ys p"
    by (auto simp: ring_def chain_append)
  have a: "a \<in> set (p # xs)" unfolding a_def by (rule last_in_set) simp
  have "b \<notin> set xs" using d by (cases ys) (auto simp: b_def)
  with c1 d have c: "chain ?h p xs b" unfolding a_def by (intro chain_relink [of h p xs x]) auto
  have "chain ?h p (xs @ ys) p"
  proof (cases ys)
    case Nil
    with c show ?thesis by (simp add: b_def)
  next
    case (Cons y zs)
    then have "a \<notin> set (y # zs)" "y \<notin> set (p # zs)" "b = y" using d a by (auto simp: b_def)
    with c2 Cons have "chain ?h y zs p" by simp
    with c Cons show ?thesis by (simp add: chain_append b_def)
  qed
  with d show ?thesis
    by (simp add: ring_def list_del_between_def ring_neighbours [OF assms] a_def b_def)
qed

lemma ring_init_other:
  "x \<notin> set (p # xs) \<Longrightarrow> ring (INIT_LIST_HEAD x h) p xs = ring h p xs"
  by (rule ring_cong) (auto simp: INIT_LIST_HEAD_def)

lemma ring_del_init:
  assumes "ring h p (xs @ x # ys)"
  shows "ring (list_del_init x h) p (xs @ ys)" and "ring (list_del_init x h) x []"
proof -
  from assms have "x \<notin> set (p # xs @ ys)" by (auto simp: ring_def)
  then show "ring (list_del_init x h) p (xs @ ys)"
    using ring_unlink [OF assms] by (simp add: list_del_init_def ring_init_other)
  show "ring (list_del_init x h) x []" by (simp add: list_del_init_def)
qed

text \<open>Unlinking an entry that is on no list changes nothing.\<close>

lemma del_init_alone: "ring h x [] \<Longrightarrow> list_del_init x h = h"
  by (cases h) (auto simp: list_del_init_def list_del_between_def INIT_LIST_HEAD_def ring_nil
      set_next_def set_prev_def)

lemma ring_add_head:
  assumes "ring h p xs" and "n \<notin> set (p # xs)"
  shows "ring (list_add_head n p h) p (n # xs)"
proof (cases xs)
  case Nil
  with assms show ?thesis
    by (auto simp: ring_def list_add_head_def list_add_between_def Let_def)
next
  case (Cons y ys)
  with assms show ?thesis
    by (auto simp: ring_def list_add_head_def list_add_between_def Let_def)
qed

lemma ring_add_tail:
  assumes "ring h p xs" and "n \<notin> set (p # xs)"
  shows "ring (list_add_tail n p h) p (xs @ [n])"
proof (cases xs rule: rev_cases)
  case Nil
  with assms show ?thesis
    by (auto simp: ring_def list_add_tail_def list_add_between_def Let_def)
next
  case (snoc ys y)
  with assms show ?thesis
    by (auto simp: ring_def list_add_tail_def list_add_between_def Let_def chain_append)
qed

lemma chain_splice:
  assumes l: "ring h l xs" and p: "ring h p ys" and ne: "xs \<noteq> []"
    and d: "set (l # xs) \<inter> set (p # ys) = {}"
  shows "ring (list_splice_between l p h) p (xs @ ys)"
proof -
  obtain x zs where xs: "xs = x # zs" using ne by (cases xs) auto
  define y z where "y = hd (ys @ [p])" and "z = last (x # zs)"
  have cl: "chain h l xs l" and cp: "chain h p ys p" and dl: "distinct (l # xs)"
    and dp: "distinct (p # ys)" using l p by (auto simp: ring_def)
  have z: "prevp h l = z" and x: "nextp h l = x" and y: "nextp h p = y"
    using cl cp xs unfolding y_def z_def by (auto dest: chain_last_prev chain_first_next)
  have zin: "z \<in> set (x # zs)" unfolding z_def by (rule last_in_set) simp
  have yin: "y \<in> set (p # ys)" by (cases ys) (auto simp: y_def)
  let ?h1 = "set_next p x (set_prev x p h)"
  let ?h = "set_prev y z (set_next z y ?h1)"
  have "chain ?h1 x zs l" using cl xs dl d by auto
  then have "chain (set_next z y (set_prev y z ?h1)) x zs y"
    using dl xs d yin unfolding z_def by (intro chain_relink [of _ _ _ l]) auto
  then have c1: "chain ?h x zs y" by (simp only: set_next_set_prev)
  have "nextp ?h p = x" "prevp ?h x = p" using d xs zin yin by auto
  with c1 have c2: "chain ?h p (x # zs) y" by simp
  have "chain ?h p (xs @ ys) p"
  proof (cases ys)
    case Nil
    with c2 xs show ?thesis by (simp add: y_def)
  next
    case (Cons w ws)
    then have "z \<notin> set (w # ws)" "p \<notin> set (w # ws)" "y = w" "w \<notin> set (p # ws)" "x \<notin> set (p # ws)"
      using dp d zin xs by (auto simp: y_def)
    with cp Cons have "chain ?h w ws p" by simp
    with c2 Cons xs show ?thesis by (simp add: chain_append y_def)
  qed
  with d dl dp show ?thesis
    by (auto simp: ring_def list_splice_between_def Let_def x y z)
qed

lemma ring_splice_init:
  assumes "ring h l xs" and "ring h p ys" and "set (l # xs) \<inter> set (p # ys) = {}"
  shows "ring (list_splice_init l p h) p (xs @ ys)" and "ring (list_splice_init l p h) l []"
proof -
  have "ring (list_splice_init l p h) p (xs @ ys) \<and> ring (list_splice_init l p h) l []"
  proof (cases "xs = []")
    case True
    with assms show ?thesis by (auto simp: list_splice_init_def ring_empty [OF assms(1)])
  next
    case False
    have "l \<notin> set (p # xs @ ys)" using assms by (auto simp: ring_def)
    with False chain_splice [OF assms(1,2) False assms(3)] show ?thesis
      by (simp add: list_splice_init_def ring_empty [OF assms(1)] ring_init_other)
  qed
  then show "ring (list_splice_init l p h) p (xs @ ys)" "ring (list_splice_init l p h) l []"
    by auto
qed

section \<open>Iteration that tolerates removal\<close>

text \<open>
  \<open>list_for_each_entry_safe_l\<close> keeps the successor in \<open>n\<close> before the body runs.  The
  state of the program is \<open>'s\<close>, its list heap is read with \<open>hp\<close>; \<open>None\<close> is a loop
  that has not come back to the head within the fuel.
\<close>

primrec for_each_safe ::
  "nat \<Rightarrow> ('s \<Rightarrow> list_heap) \<Rightarrow> (ptr \<Rightarrow> 's \<Rightarrow> 's) \<Rightarrow> ptr \<Rightarrow> ptr \<Rightarrow> ptr \<Rightarrow> 's \<Rightarrow> 's option" where
  "for_each_safe 0 hp body head pos n s = None"
| "for_each_safe (Suc k) hp body head pos n s =
     (if pos = head then Some s
      else let s' = body pos s in for_each_safe k hp body head n (nextp (hp s') n) s')"

definition list_for_each_entry_safe_l ::
  "nat \<Rightarrow> ('s \<Rightarrow> list_heap) \<Rightarrow> (ptr \<Rightarrow> 's \<Rightarrow> 's) \<Rightarrow> ptr \<Rightarrow> 's \<Rightarrow> 's option" where
  "list_for_each_entry_safe_l k hp body head s =
     (let pos = nextp (hp s) head; n = nextp (hp s) pos in for_each_safe k hp body head pos n s)"

text \<open>
  A body is safe at an entry when it leaves the part of the ring after that entry linked
  in order: it may unlink the entry itself and relink it anywhere else.
\<close>

definition body_safe :: "('s \<Rightarrow> list_heap) \<Rightarrow> (ptr \<Rightarrow> 's \<Rightarrow> 's) \<Rightarrow> ptr \<Rightarrow> bool" where
  "body_safe hp body head \<longleftrightarrow> (\<forall>s x y ys.
     (\<exists>xs. ring (hp s) head (xs @ x # y # ys)) \<longrightarrow>
     (\<exists>xs. ring (hp (body x s)) head (xs @ y # ys)))"

lemma for_each_safe_visits:
  assumes safe: "body_safe hp body head"
    and "\<exists>xs. ring (hp s) head (xs @ pos # ys)" and "Suc (length ys) < k"
    and "n = hd (ys @ [head])"
  shows "for_each_safe k hp body head pos n s = Some (fold body (pos # ys) s)"
  using assms(2-)
proof (induction ys arbitrary: k pos n s)
  case Nil
  then have "Suc 0 < k" by simp
  then obtain j where k: "k = Suc (Suc j)" by (cases k; cases "k - 1") auto
  from Nil.prems(1) have "pos \<noteq> head" by (auto simp: ring_def)
  with k Nil.prems(3) show ?case by (simp add: Let_def)
next
  case (Cons y ys)
  then obtain j where k: "k = Suc j" and j: "Suc (length ys) < j" by (cases k) auto
  from Cons.prems have pos: "pos \<noteq> head" by (auto simp: ring_def)
  from safe Cons.prems(1) obtain xs where r: "ring (hp (body pos s)) head (xs @ y # ys)"
    unfolding body_safe_def by blast
  from r have "nextp (hp (body pos s)) y = hd (ys @ [head])" by (rule ring_neighbours)
  then have "for_each_safe j hp body head y (nextp (hp (body pos s)) y) (body pos s)
      = Some (fold body (y # ys) (body pos s))"
    using r j by (intro Cons.IH) auto
  with k pos Cons.prems(3) show ?case by (simp add: Let_def)
qed

lemma for_each_entry_safe_fold:
  assumes "body_safe hp body head" and r: "ring (hp s) head xs" and "Suc (length xs) < k"
  shows "list_for_each_entry_safe_l k hp body head s = Some (fold body xs s)"
proof (cases xs)
  case Nil
  from assms(3) obtain j where "k = Suc j" by (cases k) auto
  with r Nil show ?thesis by (simp add: list_for_each_entry_safe_l_def ring_nil Let_def)
next
  case (Cons x ys)
  with r have "nextp (hp s) head = x" by (simp add: ring_def)
  moreover have "nextp (hp s) x = hd (ys @ [head])"
    using r Cons ring_neighbours [of "hp s" head "[]" x ys] by simp
  moreover have "for_each_safe k hp body head x (hd (ys @ [head])) s = Some (fold body (x # ys) s)"
    using assms Cons by (intro for_each_safe_visits) (auto intro: exI [of _ "[]"])
  ultimately show ?thesis using Cons by (simp add: list_for_each_entry_safe_l_def Let_def)
qed

lemma del_init_body_safe: "body_safe id list_del_init head"
  unfolding body_safe_def
proof (intro allI impI, elim exE)
  fix s x y ys xs
  assume "ring (id s) head (xs @ x # y # ys)"
  then have "ring (list_del_init x s) head (xs @ y # ys)" by (auto intro: ring_del_init)
  then show "\<exists>xs. ring (id (list_del_init x s)) head (xs @ y # ys)" by auto
qed

end
