(* ===== verification/ListFamily.thy ===== *)
theory ListFamily
  imports ListHead
begin

text \<open>
  A family of list heads that share one link member: the queues of one kind, indexed by
  \<open>'h\<close>, with the entries linked into them.  \<open>lf_del\<close>, \<open>lf_add_head\<close> and \<open>lf_add_tail\<close>
  say what \<open>list_del_init\<close>, \<open>list_add_head\<close> and \<open>list_add_tail\<close> do to the contents;
  the lemmas \<open>family_\<dots>\<close> prove it of the pointer code of \<open>ListHead\<close>.  The locale
  \<open>intrusive_lists\<close> is the contract the other components rely on; it is interpreted
  on the abstract families and, through \<open>ring_memory\<close>, on the pointer heap.
\<close>

definition lf_del :: "'a \<Rightarrow> ('h \<Rightarrow> 'a list) \<Rightarrow> ('h \<Rightarrow> 'a list)" where
  "lf_del x F = (\<lambda>p. removeAll x (F p))"

definition lf_add_head :: "'a \<Rightarrow> 'h \<Rightarrow> ('h \<Rightarrow> 'a list) \<Rightarrow> ('h \<Rightarrow> 'a list)" where
  "lf_add_head x p F = F(p := x # F p)"

definition lf_add_tail :: "'a \<Rightarrow> 'h \<Rightarrow> ('h \<Rightarrow> 'a list) \<Rightarrow> ('h \<Rightarrow> 'a list)" where
  "lf_add_tail x p F = F(p := F p @ [x])"

definition lf_off :: "'a \<Rightarrow> ('h \<Rightarrow> 'a list) \<Rightarrow> bool" where
  "lf_off x F \<longleftrightarrow> (\<forall>p. x \<notin> set (F p))"

definition lf_wf :: "('h \<Rightarrow> 'a list) \<Rightarrow> bool" where
  "lf_wf F \<longleftrightarrow> (\<forall>p. distinct (F p)) \<and> (\<forall>p q. p \<noteq> q \<longrightarrow> set (F p) \<inter> set (F q) = {})"

lemma lf_del_apply [simp]: "lf_del x F p = removeAll x (F p)"
  by (simp add: lf_del_def)

lemma lf_add_head_apply [simp]: "lf_add_head x p F q = (if q = p then x # F p else F q)"
  by (simp add: lf_add_head_def)

lemma lf_add_tail_apply [simp]: "lf_add_tail x p F q = (if q = p then F p @ [x] else F q)"
  by (simp add: lf_add_tail_def)

lemma lf_off_del [simp]: "lf_off x (lf_del x F)"
  by (simp add: lf_off_def)

lemma lf_off_del_other: "lf_off y F \<Longrightarrow> lf_off y (lf_del x F)"
  by (simp add: lf_off_def)

lemma lf_del_off: "lf_off x F \<Longrightarrow> lf_del x F = F"
  by (rule ext) (simp add: lf_off_def removeAll_notin)

lemma lf_wf_del [simp]: "lf_wf F \<Longrightarrow> lf_wf (lf_del x F)"
  by (auto simp: lf_wf_def distinct_removeAll)

lemma lf_wf_add_head: "lf_wf F \<Longrightarrow> lf_off x F \<Longrightarrow> lf_wf (lf_add_head x p F)"
  by (fastforce simp: lf_wf_def lf_off_def)

lemma lf_wf_add_tail: "lf_wf F \<Longrightarrow> lf_off x F \<Longrightarrow> lf_wf (lf_add_tail x p F)"
  by (fastforce simp: lf_wf_def lf_off_def)

lemma lf_wf_unique: "lf_wf F \<Longrightarrow> x \<in> set (F p) \<Longrightarrow> x \<in> set (F q) \<Longrightarrow> p = q"
  unfolding lf_wf_def by (metis disjoint_iff)

section \<open>The interface\<close>

locale intrusive_lists =
  fixes del :: "'a \<Rightarrow> 's \<Rightarrow> 's"
    and add_head :: "'a \<Rightarrow> 'h \<Rightarrow> 's \<Rightarrow> 's"
    and add_tail :: "'a \<Rightarrow> 'h \<Rightarrow> 's \<Rightarrow> 's"
    and items :: "'s \<Rightarrow> 'h \<Rightarrow> 'a list"
    and ok :: "'s \<Rightarrow> bool"
    and is_entry :: "'a \<Rightarrow> bool"
    and is_head :: "'h \<Rightarrow> bool"
  assumes items_wf: "ok s \<Longrightarrow> lf_wf (items s)"
    and items_del: "ok s \<Longrightarrow> is_entry x \<Longrightarrow> items (del x s) = lf_del x (items s)"
    and ok_del: "ok s \<Longrightarrow> is_entry x \<Longrightarrow> ok (del x s)"
    and items_add_head: "ok s \<Longrightarrow> is_entry x \<Longrightarrow> is_head p \<Longrightarrow> lf_off x (items s)
      \<Longrightarrow> items (add_head x p s) = lf_add_head x p (items s)"
    and ok_add_head: "ok s \<Longrightarrow> is_entry x \<Longrightarrow> is_head p \<Longrightarrow> lf_off x (items s) \<Longrightarrow> ok (add_head x p s)"
    and items_add_tail: "ok s \<Longrightarrow> is_entry x \<Longrightarrow> is_head p \<Longrightarrow> lf_off x (items s)
      \<Longrightarrow> items (add_tail x p s) = lf_add_tail x p (items s)"
    and ok_add_tail: "ok s \<Longrightarrow> is_entry x \<Longrightarrow> is_head p \<Longrightarrow> lf_off x (items s) \<Longrightarrow> ok (add_tail x p s)"
begin

text \<open>The idiom of the sources: unlink, then append to another list.\<close>

lemma requeue_ok:
  "ok s \<Longrightarrow> is_entry x \<Longrightarrow> is_head p \<Longrightarrow> ok (add_tail x p (del x s))"
  by (simp add: ok_add_tail ok_del items_del)

lemma requeue_items:
  "ok s \<Longrightarrow> is_entry x \<Longrightarrow> is_head p \<Longrightarrow>
   items (add_tail x p (del x s)) q =
     (if q = p then removeAll x (items s p) @ [x] else removeAll x (items s q))"
  by (simp add: items_add_tail items_del ok_del)

lemma requeue_only_there:
  "ok s \<Longrightarrow> is_entry x \<Longrightarrow> is_head p \<Longrightarrow>
   x \<in> set (items (add_tail x p (del x s)) q) \<longleftrightarrow> q = p"
  by (simp add: requeue_items)

lemma requeue_others:
  "ok s \<Longrightarrow> is_entry x \<Longrightarrow> is_head p \<Longrightarrow> y \<noteq> x \<Longrightarrow>
   y \<in> set (items (add_tail x p (del x s)) q) \<longleftrightarrow> y \<in> set (items s q)"
  by (simp add: requeue_items)

lemma on_one_list: "ok s \<Longrightarrow> x \<in> set (items s p) \<Longrightarrow> x \<in> set (items s q) \<Longrightarrow> p = q"
  using items_wf lf_wf_unique by metis

end

interpretation lf: intrusive_lists lf_del lf_add_head lf_add_tail "\<lambda>F. F" lf_wf "\<lambda>_. True" "\<lambda>_. True"
  by unfold_locales (auto intro: lf_wf_add_head lf_wf_add_tail)

section \<open>The pointer code provides it\<close>

text \<open>\<open>__list_for_each\<close>: follow \<open>next\<close> from the head until it comes back.\<close>

primrec list_walk :: "nat \<Rightarrow> list_heap \<Rightarrow> ptr \<Rightarrow> ptr \<Rightarrow> ptr list" where
  "list_walk 0 h head pos = []"
| "list_walk (Suc k) h head pos = (if pos = head then [] else pos # list_walk k h head (nextp h pos))"

definition list_items :: "nat \<Rightarrow> list_heap \<Rightarrow> ptr \<Rightarrow> ptr list" where
  "list_items k h head = list_walk k h head (nextp h head)"

lemma list_walk_chain:
  "chain h a xs p \<Longrightarrow> p \<notin> set xs \<Longrightarrow> length xs \<le> k \<Longrightarrow> list_walk k h p (nextp h a) = xs"
proof (induction xs arbitrary: a k)
  case Nil
  then show ?case by (cases k) auto
next
  case (Cons x xs)
  then obtain j where "k = Suc j" by (cases k) auto
  with Cons show ?case by auto
qed

lemma list_items_ring: "ring h p xs \<Longrightarrow> length xs \<le> k \<Longrightarrow> list_items k h p = xs"
  by (auto simp: list_items_def ring_def intro: list_walk_chain)

definition family :: "('h \<Rightarrow> ptr) \<Rightarrow> 'h set \<Rightarrow> ptr set \<Rightarrow> list_heap \<Rightarrow> ('h \<Rightarrow> ptr list) \<Rightarrow> bool" where
  "family addr H N h F \<longleftrightarrow> inj_on addr H \<and> addr ` H \<inter> N = {} \<and> lf_wf F \<and>
     (\<forall>p. set (F p) \<subseteq> N) \<and> (\<forall>p. p \<notin> H \<longrightarrow> F p = []) \<and>
     (\<forall>p \<in> H. ring h (addr p) (F p)) \<and> (\<forall>x \<in> N. lf_off x F \<longrightarrow> ring h x [])"

text \<open>A heap update that touches only nodes of one ring keeps every other ring.\<close>

lemma del_between_other:
  "a \<notin> set (p # xs) \<Longrightarrow> b \<notin> set (p # xs) \<Longrightarrow> ring (list_del_between a b h) p xs = ring h p xs"
  by (rule ring_cong) (auto simp: list_del_between_def)

lemma del_init_other_ring:
  assumes "ring h p (xs @ x # ys)" and "set (p # xs @ x # ys) \<inter> set (q # zs) = {}"
  shows "ring (list_del_init x h) q zs = ring h q zs"
proof -
  have "prevp h x \<in> set (p # xs)" "nextp h x \<in> set (ys @ [p])"
    unfolding ring_neighbours [OF assms(1)] by (rule last_in_set, simp) (rule hd_in_set, simp)
  with assms(2) have "prevp h x \<notin> set (q # zs)" "nextp h x \<notin> set (q # zs)" "x \<notin> set (q # zs)"
    by auto
  then show ?thesis by (simp add: list_del_init_def ring_init_other del_between_other)
qed

lemma add_between_other:
  "\<lbrakk>n \<notin> set (q # zs); a \<notin> set (q # zs); b \<notin> set (q # zs)\<rbrakk>
   \<Longrightarrow> ring (list_add_between n a b h) q zs = ring h q zs"
  by (rule ring_cong) (auto simp: list_add_between_def Let_def)

lemma add_other_ring:
  assumes "ring h p xs" and "set (n # p # xs) \<inter> set (q # zs) = {}"
  shows "ring (list_add_head n p h) q zs = ring h q zs"
    and "ring (list_add_tail n p h) q zs = ring h q zs"
proof -
  have c: "chain h p xs p" using assms(1) by (simp add: ring_def)
  have "nextp h p \<in> set (p # xs)" unfolding chain_first_next [OF c] by (cases xs) auto
  moreover have "prevp h p \<in> set (p # xs)"
    unfolding chain_last_prev [OF c] by (rule last_in_set) simp
  ultimately show "ring (list_add_head n p h) q zs = ring h q zs"
      "ring (list_add_tail n p h) q zs = ring h q zs"
    using assms(2) unfolding list_add_head_def list_add_tail_def
    by (intro add_between_other; auto)+
qed

lemma family_disjoint:
  assumes "family addr H N h F" and "p \<in> H" and "q \<in> H" and "p \<noteq> q"
  shows "set (addr p # F p) \<inter> set (addr q # F q) = {}"
proof -
  have "addr p \<noteq> addr q" using assms by (auto simp: family_def inj_on_def)
  moreover have "addr p \<notin> N" "addr q \<notin> N" "set (F p) \<subseteq> N" "set (F q) \<subseteq> N"
    using assms by (auto simp: family_def)
  moreover have "set (F p) \<inter> set (F q) = {}" using assms by (auto simp: family_def lf_wf_def)
  ultimately show ?thesis by auto
qed

lemma family_del:
  assumes f: "family addr H N h F" and x: "x \<in> N"
  shows "family addr H N (list_del_init x h) (lf_del x F)"
proof (cases "lf_off x F")
  case True
  with f x have "list_del_init x h = h" by (auto simp: family_def intro: del_init_alone)
  with f True show ?thesis by (simp add: lf_del_off)
next
  case False
  let ?h = "list_del_init x h"
  from False obtain p where px: "x \<in> set (F p)" by (auto simp: lf_off_def)
  then obtain xs ys where F: "F p = xs @ x # ys" by (auto simp: in_set_conv_decomp)
  have p: "p \<in> H" using f px by (cases "p \<in> H") (auto simp: family_def)
  have r: "ring h (addr p) (xs @ x # ys)" using f p F by (auto simp: family_def)
  have d: "distinct (F p)" using f by (simp add: family_def lf_wf_def)
  have rings: "ring ?h (addr q) (removeAll x (F q))" if q: "q \<in> H" for q
  proof (cases "q = p")
    case True
    with ring_del_init(1) [OF r] F d show ?thesis by (simp add: removeAll_notin)
  next
    case False
    then have dis: "set (addr p # xs @ x # ys) \<inter> set (addr q # F q) = {}"
      using family_disjoint [OF f p q] F by auto
    then have "removeAll x (F q) = F q" by (intro removeAll_notin) auto
    with del_init_other_ring [OF r dis] f q show ?thesis by (simp add: family_def)
  qed
  have alone: "ring ?h y []" if y: "y \<in> N" "lf_off y (lf_del x F)" for y
  proof (cases "y = x")
    case True
    with ring_del_init(2) [OF r] show ?thesis by simp
  next
    case False
    with y have off: "lf_off y F" by (simp add: lf_off_def)
    with y f have "ring h y []" by (auto simp: family_def)
    moreover have "y \<notin> set (F p)" "y \<noteq> addr p"
      using off y f p by (auto simp: family_def lf_off_def)
    then have "set (addr p # xs @ x # ys) \<inter> set [y] = {}"
      using F by simp
    ultimately show ?thesis using del_init_other_ring [OF r] by blast
  qed
  from f rings alone show ?thesis by (auto simp: family_def)
qed

lemma family_add:
  assumes f: "family addr H N h F" and x: "x \<in> N" "lf_off x F" and p: "p \<in> H"
  shows "family addr H N (list_add_head x (addr p) h) (lf_add_head x p F)"
    and "family addr H N (list_add_tail x (addr p) h) (lf_add_tail x p F)"
proof -
  have r: "ring h (addr p) (F p)" using f p by (simp add: family_def)
  have xp: "x \<notin> set (addr p # F p)" using f x p by (auto simp: family_def lf_off_def)
  have other: "ring (list_add_head x (addr p) h) q zs = ring h q zs \<and>
      ring (list_add_tail x (addr p) h) q zs = ring h q zs"
    if "set (x # addr p # F p) \<inter> set (q # zs) = {}" for q zs
    using add_other_ring [OF r that] by simp
  have rings: "set (x # addr p # F p) \<inter> set (addr q # F q) = {}" if "q \<in> H" "q \<noteq> p" for q
    using family_disjoint [OF f p that(1)] that x f by (auto simp: family_def lf_off_def)
  have alone: "set (x # addr p # F p) \<inter> set [y] = {}" if "y \<in> N" "lf_off y F" "y \<noteq> x" for y
    using that f p by (auto simp: family_def lf_off_def)
  have off: "lf_off y F \<and> y \<noteq> x" if "lf_off y (lf_add_head x p F) \<or> lf_off y (lf_add_tail x p F)" for y
    using that by (auto simp: lf_off_def split: if_splits)
  from f x p other rings alone off ring_add_head [OF r xp] ring_add_tail [OF r xp]
  show "family addr H N (list_add_head x (addr p) h) (lf_add_head x p F)"
       "family addr H N (list_add_tail x (addr p) h) (lf_add_tail x p F)"
    by (auto simp: family_def lf_wf_add_head lf_wf_add_tail)
qed

text \<open>
  A piece of memory with finitely many entries and the heads at \<open>addr\<close>: the pointer
  operations on it satisfy the contract, with the contents read off by \<open>list_items\<close>.
\<close>

definition mem_items :: "('h \<Rightarrow> ptr) \<Rightarrow> 'h set \<Rightarrow> ptr set \<Rightarrow> list_heap \<Rightarrow> 'h \<Rightarrow> ptr list" where
  "mem_items addr H N h p = (if p \<in> H then list_items (card N) h (addr p) else [])"

definition mem_ok :: "('h \<Rightarrow> ptr) \<Rightarrow> 'h set \<Rightarrow> ptr set \<Rightarrow> list_heap \<Rightarrow> bool" where
  "mem_ok addr H N h \<longleftrightarrow> (\<exists>F. family addr H N h F)"

lemma family_items:
  assumes f: "family addr H N h F" and "finite N"
  shows "mem_items addr H N h = F"
proof
  fix p
  show "mem_items addr H N h p = F p"
  proof (cases "p \<in> H")
    case True
    have "length (F p) = card (set (F p))"
      using f by (simp add: family_def lf_wf_def distinct_card)
    also have "\<dots> \<le> card N" using f assms(2) by (simp add: family_def card_mono)
    finally have "length (F p) \<le> card N" .
    with True f show ?thesis by (auto simp: mem_items_def family_def intro: list_items_ring)
  next
    case False
    with f show ?thesis by (simp add: mem_items_def family_def)
  qed
qed

locale ring_memory =
  fixes addr :: "'h \<Rightarrow> ptr" and H :: "'h set" and N :: "ptr set"
  assumes finite_entries: "finite N"
begin

lemma mem_okE:
  assumes "mem_ok addr H N h"
  shows "family addr H N h (mem_items addr H N h)"
  using assms family_items [OF _ finite_entries] by (auto simp: mem_ok_def)

lemma mem_okI:
  assumes "family addr H N h F"
  shows "mem_ok addr H N h" and "mem_items addr H N h = F"
  using assms family_items [OF _ finite_entries] by (auto simp: mem_ok_def)

end

sublocale ring_memory \<subseteq> rm: intrusive_lists list_del_init "\<lambda>x p. list_add_head x (addr p)"
  "\<lambda>x p. list_add_tail x (addr p)" "mem_items addr H N" "mem_ok addr H N"
  "\<lambda>x. x \<in> N" "\<lambda>p. p \<in> H"
proof unfold_locales
  show "lf_wf (mem_items addr H N s)" if "mem_ok addr H N s" for s
    using mem_okE [OF that] by (simp add: family_def)
qed (blast dest: mem_okE family_del family_add intro: mem_okI)+

end
