(* ===== verification/VfsTypes.thy ===== *)
theory VfsTypes
  imports Prelude
begin

text \<open>
  The data the daemon's components share: the roles, operator (ISP) numbers and task
  states of \<open>src/network/global.h\<close> and \<open>vfs_task.h\<close>, the task records, and the record
  \<open>env\<close> of what the operating system answers during one call (clock, locks, memory).
  Pointers are addresses; the link members of a record are not fields of it but
  list families (theory \<open>ListFamily\<close>) of the component that owns the heads.
\<close>

section \<open>Enumerations\<close>

datatype role = UNKOWN | ROLE_FCS | ROLE_CS | ROLE_TRACKER | ROLE_VOSS_MASTER | SELF_IP

type_synonym isp = byte

definition TEL :: isp where "TEL = 0"
definition CNC :: isp where "CNC = 1"
definition EDU :: isp where "EDU = 2"
definition TT :: isp where "TT = 3"
definition YD :: isp where "YD = 4"
definition HS :: isp where "HS = 5"
definition MP4 :: isp where "MP4 = 6"
definition ISP_ALL :: isp where "ISP_ALL = 50"
definition ALLHOT :: isp where "ALLHOT = 51"
definition ISP_TRACKER :: isp where "ISP_TRACKER = 52"
definition ISP_FCS :: isp where "ISP_FCS = 53"
definition ISP_VOSS :: isp where "ISP_VOSS = 54"
definition UNKNOW_ISP :: isp where "UNKNOW_ISP = 254"
definition MAXISP :: nat where "MAXISP = 255"

lemmas isp_defs = TEL_def CNC_def EDU_def TT_def YD_def HS_def MP4_def ISP_ALL_def ALLHOT_def
  ISP_TRACKER_def ISP_FCS_def ISP_VOSS_def UNKNOW_ISP_def

datatype server_stat = UNKOWN_STAT | WAIT_SYNC | SYNCING | ON_LINE | OFF_LINE

text \<open>Task queues.  The code passes them as \<open>int\<close> and range-checks them.\<close>

definition TASK_DELAY :: int where "TASK_DELAY = 0"
definition TASK_WAIT :: int where "TASK_WAIT = 1"
definition TASK_WAIT_SYNC :: int where "TASK_WAIT_SYNC = 2"
definition TASK_WAIT_SYNC_IP :: int where "TASK_WAIT_SYNC_IP = 3"
definition TASK_WAIT_TMP :: int where "TASK_WAIT_TMP = 4"
definition TASK_Q_SYNC_DIR :: int where "TASK_Q_SYNC_DIR = 5"
definition TASK_Q_SYNC_DIR_TMP :: int where "TASK_Q_SYNC_DIR_TMP = 6"
definition TASK_RUN :: int where "TASK_RUN = 7"
definition TASK_FIN :: int where "TASK_FIN = 8"
definition TASK_CLEAN :: int where "TASK_CLEAN = 9"
definition TASK_HOME :: int where "TASK_HOME = 10"
definition TASK_SEND :: int where "TASK_SEND = 11"
definition TASK_RECV :: int where "TASK_RECV = 12"
definition TASK_SYNC_VOSS :: int where "TASK_SYNC_VOSS = 13"
definition TASK_Q_SYNC_DIR_REQ :: int where "TASK_Q_SYNC_DIR_REQ = 14"
definition TASK_Q_SYNC_DIR_RSP :: int where "TASK_Q_SYNC_DIR_RSP = 15"
definition TASK_UNKNOWN :: int where "TASK_UNKNOWN = 16"

lemmas queue_defs = TASK_DELAY_def TASK_WAIT_def TASK_WAIT_SYNC_def TASK_WAIT_SYNC_IP_def
  TASK_WAIT_TMP_def TASK_Q_SYNC_DIR_def TASK_Q_SYNC_DIR_TMP_def TASK_RUN_def TASK_FIN_def
  TASK_CLEAN_def TASK_HOME_def TASK_SEND_def TASK_RECV_def TASK_SYNC_VOSS_def
  TASK_Q_SYNC_DIR_REQ_def TASK_Q_SYNC_DIR_RSP_def TASK_UNKNOWN_def

text \<open>How a task ended.\<close>

definition OVER_UNKNOWN :: byte where "OVER_UNKNOWN = 0"
definition OVER_OK :: byte where "OVER_OK = 1"
definition OVER_E_MD5 :: byte where "OVER_E_MD5 = 2"
definition OVER_PEERERR :: byte where "OVER_PEERERR = 3"
definition TASK_EXIST :: byte where "TASK_EXIST = 4"
definition OVER_PEERCLOSE :: byte where "OVER_PEERCLOSE = 5"
definition OVER_UNLINK :: byte where "OVER_UNLINK = 6"
definition OVER_TIMEOUT :: byte where "OVER_TIMEOUT = 7"
definition OVER_MALLOC :: byte where "OVER_MALLOC = 8"
definition OVER_SRC_DOMAIN_ERR :: byte where "OVER_SRC_DOMAIN_ERR = 9"
definition OVER_SRC_IP_OFFLINE :: byte where "OVER_SRC_IP_OFFLINE = 10"
definition OVER_E_OPEN_SRCFILE :: byte where "OVER_E_OPEN_SRCFILE = 11"
definition OVER_E_OPEN_DSTFILE :: byte where "OVER_E_OPEN_DSTFILE = 12"
definition OVER_E_IP :: byte where "OVER_E_IP = 13"
definition OVER_E_TYPE :: byte where "OVER_E_TYPE = 14"
definition OVER_SEND_LEN :: byte where "OVER_SEND_LEN = 15"
definition OVER_TOO_MANY_TRY :: byte where "OVER_TOO_MANY_TRY = 16"
definition OVER_DISK_ERR :: byte where "OVER_DISK_ERR = 17"

lemmas over_defs = OVER_UNKNOWN_def OVER_OK_def OVER_E_MD5_def OVER_PEERERR_def TASK_EXIST_def
  OVER_PEERCLOSE_def OVER_UNLINK_def OVER_TIMEOUT_def OVER_MALLOC_def OVER_SRC_DOMAIN_ERR_def
  OVER_SRC_IP_OFFLINE_def OVER_E_OPEN_SRCFILE_def OVER_E_OPEN_DSTFILE_def OVER_E_IP_def
  OVER_E_TYPE_def OVER_SEND_LEN_def OVER_TOO_MANY_TRY_def OVER_DISK_ERR_def

text \<open>\<open>oper_type\<close>, \<open>need_sync\<close> and the file change \<open>type\<close> (a character).\<close>

definition OPER_IDLE :: byte where "OPER_IDLE = 0"
definition OPER_GET_REQ :: byte where "OPER_GET_REQ = 1"
definition OPER_GET_RSP :: byte where "OPER_GET_RSP = 2"
definition OPER_PUT :: byte where "OPER_PUT = 3"
definition SYNC_2_GROUP :: byte where "SYNC_2_GROUP = 4"

definition TASK_DST :: byte where "TASK_DST = 0"
definition TASK_SOURCE :: byte where "TASK_SOURCE = 1"
definition TASK_SRC_NOSYNC :: byte where "TASK_SRC_NOSYNC = 2"
definition TASK_SYNC_ISDIR :: byte where "TASK_SYNC_ISDIR = 3"
definition TASK_SYNC_VOSS_FILE :: byte where "TASK_SYNC_VOSS_FILE = 4"

definition TASK_ADDFILE :: int where "TASK_ADDFILE = 48"
definition TASK_DELFILE :: int where "TASK_DELFILE = 49"
definition TASK_LINKFILE :: int where "TASK_LINKFILE = 50"
definition TASK_SYNCDIR :: int where "TASK_SYNCDIR = 51"

lemmas task_kind_defs = OPER_IDLE_def OPER_GET_REQ_def OPER_GET_RSP_def OPER_PUT_def
  SYNC_2_GROUP_def TASK_DST_def TASK_SOURCE_def TASK_SRC_NOSYNC_def TASK_SYNC_ISDIR_def
  TASK_SYNC_VOSS_FILE_def TASK_ADDFILE_def TASK_DELFILE_def TASK_LINKFILE_def TASK_SYNCDIR_def

definition GET_TASK_ERR :: int where "GET_TASK_ERR = -1"
definition GET_TASK_OK :: int where "GET_TASK_OK = 0"
definition GET_TASK_NOTHING :: int where "GET_TASK_NOTHING = 1"

lemmas get_task_defs = GET_TASK_ERR_def GET_TASK_OK_def GET_TASK_NOTHING_def

section \<open>Task records\<close>

record t_task_base =
  tb_filename :: string
  tb_tmpfile :: string
  tb_linkfile :: string
  tb_filemd5 :: string
  tb_src_domain :: string
  tb_offsize :: int
  tb_dstip :: u32
  tb_starttime :: int
  tb_mtime :: int
  tb_ctime :: int
  tb_fsize :: int
  tb_okindex :: int
  tb_type :: int
  tb_retry :: byte
  tb_overstatus :: byte
  tb_isp :: isp
  tb_fmode :: u32

record t_task_sub =
  ts_processlen :: int
  ts_lastlen :: int
  ts_lasttime :: int
  ts_starttime :: int
  ts_endtime :: int
  ts_peerip :: string
  ts_oper_type :: byte
  ts_need_sync :: byte
  ts_sync_dir :: byte
  ts_isp :: isp
  ts_archive_isp :: isp

text \<open>\<open>user\<close> points to the slot of the temporary status file the task is saved in.\<close>

record t_vfs_taskinfo =
  ti_base :: t_task_base
  ti_sub :: t_task_sub
  ti_user :: "ptr option"

record t_vfs_tasklist =
  tl_task :: t_vfs_taskinfo
  tl_upip :: u32
  tl_status :: int

text \<open>What \<open>memset(\<dots>, 0, \<dots>)\<close> leaves.\<close>

definition zero_base :: t_task_base where
  "zero_base = \<lparr>tb_filename = [], tb_tmpfile = [], tb_linkfile = [], tb_filemd5 = [],
     tb_src_domain = [], tb_offsize = 0, tb_dstip = 0, tb_starttime = 0, tb_mtime = 0,
     tb_ctime = 0, tb_fsize = 0, tb_okindex = 0, tb_type = 0, tb_retry = 0, tb_overstatus = 0,
     tb_isp = 0, tb_fmode = 0\<rparr>"

definition zero_sub :: t_task_sub where
  "zero_sub = \<lparr>ts_processlen = 0, ts_lastlen = 0, ts_lasttime = 0, ts_starttime = 0,
     ts_endtime = 0, ts_peerip = [], ts_oper_type = 0, ts_need_sync = 0, ts_sync_dir = 0,
     ts_isp = 0, ts_archive_isp = 0\<rparr>"

definition zero_task :: t_vfs_taskinfo where
  "zero_task = \<lparr>ti_base = zero_base, ti_sub = zero_sub, ti_user = None\<rparr>"

definition zero_tasklist :: t_vfs_tasklist where
  "zero_tasklist = \<lparr>tl_task = zero_task, tl_upip = 0, tl_status = 0\<rparr>"

section \<open>What the operating system answers\<close>

datatype mutex = M_task int | M_alltask | M_delay | M_cfg | M_offline

text \<open>
  \<open>e_lock\<close> is the result of \<open>pthread_mutex_timedlock\<close> on each mutex, \<open>e_malloc\<close> a fresh
  block or \<open>NULL\<close>, \<open>e_write\<close> whether a \<open>write\<close> succeeds.
\<close>

record env =
  e_now :: int
  e_lock :: "mutex \<Rightarrow> int"
  e_malloc :: "ptr option"
  e_write :: bool

definition EDEADLK :: int where "EDEADLK = 35"

text \<open>The test every function makes after taking a lock.\<close>

definition lock_failed :: "env \<Rightarrow> mutex \<Rightarrow> bool" where
  "lock_failed e m \<longleftrightarrow> e_lock e m \<noteq> 0 \<and> e_lock e m \<noteq> EDEADLK"

definition calm :: env where
  "calm = \<lparr>e_now = 1000, e_lock = (\<lambda>_. 0), e_malloc = None, e_write = True\<rparr>"

lemma lock_failed_calm [simp]: "\<not> lock_failed (calm\<lparr>e_now := n\<rparr>) m" "\<not> lock_failed calm m"
  by (simp_all add: lock_failed_def calm_def)

section \<open>A linear order on the roles\<close>

definition role_code :: "role \<Rightarrow> nat" where
  "role_code r = (case r of UNKOWN \<Rightarrow> 0 | ROLE_FCS \<Rightarrow> 1 | ROLE_CS \<Rightarrow> 2 | ROLE_TRACKER \<Rightarrow> 3
     | ROLE_VOSS_MASTER \<Rightarrow> 4 | SELF_IP \<Rightarrow> 5)"

lemma role_code_inject: "role_code a = role_code b \<longleftrightarrow> a = b"
  by (cases a; cases b) (simp_all add: role_code_def)

instantiation role :: linorder
begin

definition "a \<le> b \<longleftrightarrow> role_code a \<le> role_code b"

definition "a < b \<longleftrightarrow> role_code a < role_code b"

instance
  by standard (auto simp: less_eq_role_def less_role_def role_code_inject)

end

end
