(* ===== verification/Timer.thy ===== *)
theory Timer
  imports VfsTypes ListFamily
begin

text \<open>
  \<open>src/network/vfs_timer.c\<close>: delayed calls.  A timer entry is linked by \<open>tlist\<close> into
  \<open>delay_home\<close> (unused) or \<open>delay_active\<close>.  A call-back is named, not executed: a scan
  returns the calls it makes, in order.  The mutex is held during the calls, so they do
  not change the lists.
\<close>

datatype timer_head = Delay_home | Delay_active

record t_vfs_timer =
  vt_cb :: nat
  vt_args :: string
  vt_next_time :: int
  vt_span_time :: int
  vt_loop :: bool

record timer_state =
  timers :: "ptr \<Rightarrow> t_vfs_timer"
  tlists :: "timer_head \<Rightarrow> ptr list"

definition default_max :: nat where "default_max = 1024"

definition delay_task_init :: "ptr \<Rightarrow> t_vfs_timer \<Rightarrow> timer_state" where
  "delay_task_init timer_all zero =
     \<lparr>timers = (\<lambda>_. zero),
      tlists = foldl (\<lambda>F p. lf_add_head p Delay_home F) (\<lambda>_. []) [timer_all..<timer_all + default_max]\<rparr>"

definition add_to_delay_task :: "env \<Rightarrow> t_vfs_timer \<Rightarrow> timer_state \<Rightarrow> int \<times> timer_state" where
  "add_to_delay_task e vfs_timer s =
     (if lock_failed e M_delay then (-1, s)
      else
        let (timer, F) = (case tlists s Delay_home of
               t # _ \<Rightarrow> (Some t, lf_del t (tlists s))
             | [] \<Rightarrow> (e_malloc e, tlists s))
        in case timer of
             None \<Rightarrow> (0, s\<lparr>tlists := F\<rparr>)
           | Some t \<Rightarrow> (0, s\<lparr>
               timers := (timers s)(t := vfs_timer\<lparr>vt_next_time := e_now e + vt_span_time vfs_timer\<rparr>),
               tlists := lf_add_head t Delay_active F\<rparr>))"

text \<open>One step of the scan; the calls made so far are the first component.\<close>

definition scan_timer :: "int \<Rightarrow> (nat \<times> string) list \<times> timer_state \<Rightarrow> ptr \<Rightarrow> (nat \<times> string) list \<times> timer_state" where
  "scan_timer cur cs t =
     (let (calls, s) = cs; vt = timers s t in
      if cur > vt_next_time vt then
        let calls = calls @ [(vt_cb vt, vt_args vt)] in
        if vt_loop vt then
          (calls, s\<lparr>timers := (timers s)(t := vt\<lparr>vt_next_time := cur + vt_span_time vt\<rparr>)\<rparr>)
        else (calls, s\<lparr>tlists := lf_add_head t Delay_home (lf_del t (tlists s))\<rparr>)
      else (calls, s))"

definition scan_delay_task :: "env \<Rightarrow> timer_state \<Rightarrow> (nat \<times> string) list \<times> timer_state" where
  "scan_delay_task e s =
     (if lock_failed e M_delay then ([], s)
      else foldl (scan_timer (e_now e)) ([], s) (tlists s Delay_active))"

section \<open>Correctness\<close>

definition timer_ok :: "timer_state \<Rightarrow> bool" where
  "timer_ok s \<longleftrightarrow> lf_wf (tlists s)"

definition due :: "int \<Rightarrow> timer_state \<Rightarrow> ptr \<Rightarrow> bool" where
  "due cur s t \<longleftrightarrow> cur > vt_next_time (timers s t)"

definition call_of :: "timer_state \<Rightarrow> ptr \<Rightarrow> nat \<times> string" where
  "call_of s t = (vt_cb (timers s t), vt_args (timers s t))"

lemma delay_init_lists:
  "tlists (delay_task_init a z) = (\<lambda>_. [])(Delay_home := rev [a..<a + default_max])"
proof -
  have "foldl (\<lambda>F p. lf_add_head p Delay_home F) F xs = F(Delay_home := rev xs @ F Delay_home)"
    for F :: "timer_head \<Rightarrow> ptr list" and xs
    by (induction xs arbitrary: F) (auto simp: fun_eq_iff)
  then show ?thesis by (simp add: delay_task_init_def)
qed

lemma timer_ok_init: "timer_ok (delay_task_init a z)"
  by (auto simp: timer_ok_def lf_wf_def delay_init_lists)

lemma timer_ok_add:
  assumes "timer_ok s" and "\<And>t. e_malloc e = Some t \<Longrightarrow> lf_off t (tlists s)"
  shows "timer_ok (snd (add_to_delay_task e vt s))"
  using assms
  by (auto simp: add_to_delay_task_def timer_ok_def Let_def split: list.split option.split
      intro!: lf_wf_add_head)

text \<open>A scan over a part \<open>ts\<close> of the active list.\<close>

definition scanned :: "int \<Rightarrow> ptr list \<Rightarrow> timer_state \<Rightarrow> timer_state \<Rightarrow> bool" where
  "scanned cur ts s s' \<longleftrightarrow> timer_ok s' \<and>
     (\<forall>t. timers s' t = (if t \<in> set ts \<and> due cur s t \<and> vt_loop (timers s t)
        then (timers s t)\<lparr>vt_next_time := cur + vt_span_time (timers s t)\<rparr> else timers s t)) \<and>
     tlists s' Delay_active =
       filter (\<lambda>t. \<not> (t \<in> set ts \<and> due cur s t \<and> \<not> vt_loop (timers s t))) (tlists s Delay_active)"

lemma scan_fold:
  "\<lbrakk>timer_ok s; distinct ts; set ts \<subseteq> set (tlists s Delay_active)\<rbrakk> \<Longrightarrow>
   \<exists>s'. foldl (scan_timer cur) (calls, s) ts = (calls @ map (call_of s) (filter (due cur s) ts), s') \<and>
        scanned cur ts s s'"
proof (induction ts arbitrary: calls s)
  case Nil
  then show ?case by (simp add: scanned_def)
next
  case (Cons t ts)
  obtain calls1 s1 where st: "scan_timer cur (calls, s) t = (calls1, s1)" by fastforce
  have tn: "t \<notin> set ts" "distinct ts" and ta: "t \<in> set (tlists s Delay_active)" using Cons.prems by simp_all
  have wf: "lf_wf (tlists s)" using Cons.prems(1) by (simp add: timer_ok_def)
  have da: "distinct (tlists s Delay_active)" using wf by (simp add: lf_wf_def)
  have calls1: "calls1 = calls @ (if due cur s t then [call_of s t] else [])"
    using st by (auto simp: scan_timer_def due_def call_of_def Let_def split: if_splits)
  have tim: "timers s1 = (if due cur s t \<and> vt_loop (timers s t)
      then (timers s)(t := (timers s t)\<lparr>vt_next_time := cur + vt_span_time (timers s t)\<rparr>) else timers s)"
    using st by (auto simp: scan_timer_def due_def Let_def split: if_splits)
  have lists: "tlists s1 = (if due cur s t \<and> \<not> vt_loop (timers s t)
      then lf_add_head t Delay_home (lf_del t (tlists s)) else tlists s)"
    using st by (auto simp: scan_timer_def due_def Let_def split: if_splits)
  have ok1: "timer_ok s1" using wf by (simp add: timer_ok_def lists lf_wf_add_head)
  have "set ts \<subseteq> set (tlists s1 Delay_active)" using Cons.prems tn by (auto simp: lists)
  from Cons.IH [OF ok1 tn(2) this, of calls1]
  obtain s' where s': "foldl (scan_timer cur) (calls1, s1) ts =
      (calls1 @ map (call_of s1) (filter (due cur s1) ts), s')" "scanned cur ts s1 s'" by blast
  have same: "u \<noteq> t \<Longrightarrow> timers s1 u = timers s u" for u by (simp add: tim)
  then have eqs: "u \<in> set ts \<Longrightarrow> timers s1 u = timers s u" for u using tn(1) by metis
  have f: "filter (due cur s1) ts = filter (due cur s) ts" "\<And>xs. set xs \<subseteq> set ts \<Longrightarrow> map (call_of s1) xs = map (call_of s) xs"
    using eqs by (auto simp: due_def call_of_def intro!: filter_cong)
  have act: "tlists s1 Delay_active = filter (\<lambda>u. \<not> (u = t \<and> due cur s t \<and> \<not> vt_loop (timers s t))) (tlists s Delay_active)"
    by (auto simp: lists removeAll_filter_not_eq intro!: filter_cong filter_True [symmetric])
  have cond: "(\<not> (u \<in> set ts \<and> due cur s1 u \<and> \<not> vt_loop (timers s1 u))) =
      (\<not> (u \<in> set ts \<and> due cur s u \<and> \<not> vt_loop (timers s u)))" for u
    using eqs by (auto simp: due_def)
  have "scanned cur (t # ts) s s'"
    unfolding scanned_def
  proof (intro conjI allI)
    show "timer_ok s'" using s'(2) by (simp add: scanned_def)
    fix u
    show "timers s' u = (if u \<in> set (t # ts) \<and> due cur s u \<and> vt_loop (timers s u)
        then (timers s u)\<lparr>vt_next_time := cur + vt_span_time (timers s u)\<rparr> else timers s u)"
      using s'(2) tn(1) by (cases "u = t") (auto simp: scanned_def due_def same tim eqs)
  next
    have "tlists s' Delay_active = filter (\<lambda>u. \<not> (u \<in> set ts \<and> due cur s u \<and> \<not> vt_loop (timers s u)))
        (tlists s1 Delay_active)"
      using s'(2) by (simp only: scanned_def cond)
    then show "tlists s' Delay_active = filter (\<lambda>u. \<not> (u \<in> set (t # ts) \<and> due cur s u \<and> \<not> vt_loop (timers s u)))
        (tlists s Delay_active)"
      unfolding act filter_filter by (auto intro!: filter_cong)
  qed
  moreover have "foldl (scan_timer cur) (calls, s) (t # ts) =
      (calls @ map (call_of s) (filter (due cur s) (t # ts)), s')"
    using s'(1) by (simp add: st calls1 f)
  ultimately show ?case by blast
qed

lemma scan_delay_effect:
  assumes "timer_ok s" and "\<not> lock_failed e M_delay"
  shows "fst (scan_delay_task e s) = map (call_of s) (filter (due (e_now e) s) (tlists s Delay_active))"
    and "scanned (e_now e) (tlists s Delay_active) s (snd (scan_delay_task e s))"
proof -
  have "distinct (tlists s Delay_active)" using assms(1) by (simp add: timer_ok_def lf_wf_def)
  from scan_fold [OF assms(1) this subset_refl, of "e_now e" "[]"]
  obtain s' where "foldl (scan_timer (e_now e)) ([], s) (tlists s Delay_active) =
      (map (call_of s) (filter (due (e_now e) s) (tlists s Delay_active)), s')"
    "scanned (e_now e) (tlists s Delay_active) s s'" by auto
  with assms(2) show
    "fst (scan_delay_task e s) = map (call_of s) (filter (due (e_now e) s) (tlists s Delay_active))"
    "scanned (e_now e) (tlists s Delay_active) s (snd (scan_delay_task e s))"
    by (simp_all add: scan_delay_task_def)
qed

lemma scan_delay_active:
  assumes "timer_ok s" and "\<not> lock_failed e M_delay"
  shows "tlists (snd (scan_delay_task e s)) Delay_active =
    filter (\<lambda>t. \<not> (due (e_now e) s t \<and> \<not> vt_loop (timers s t))) (tlists s Delay_active)"
  using scan_delay_effect(2) [OF assms] by (auto simp: scanned_def intro: filter_cong)

end
