(* ===== verification/IPAddr.thy ===== *)
theory IPAddr
  imports Protocol
begin

text \<open>
  \<open>src/lib/util_ip.c\<close> and \<open>get_uint32_ip\<close> of \<open>common.c\<close>: textual and binary IPv4
  addresses.  An address is a 32 bit word whose low byte is the first number (network
  order on a little-endian machine).  Name resolution (\<open>get_ip_by_domain\<close>, which asks
  the resolver of the C library) is the parameter \<open>dns\<close>.
\<close>

definition INADDR_NONE :: u32 where "INADDR_NONE = 0xFFFFFFFF"

section \<open>strtoul with base 0\<close>

text \<open>Called only on a string that starts with a decimal digit.\<close>

definition xdigit_val :: "char \<Rightarrow> nat option" where
  "xdigit_val c = (let n = chr_code c in
     if 48 \<le> n \<and> n \<le> 57 then Some (n - 48)
     else if 97 \<le> n \<and> n \<le> 102 then Some (n - 87)
     else if 65 \<le> n \<and> n \<le> 70 then Some (n - 55) else None)"

definition base_digit :: "nat \<Rightarrow> char \<Rightarrow> nat option" where
  "base_digit b c = (case xdigit_val c of Some d \<Rightarrow> if d < b then Some d else None | None \<Rightarrow> None)"

primrec read_digits :: "nat \<Rightarrow> string \<Rightarrow> nat \<Rightarrow> nat \<times> string" where
  "read_digits b [] acc = (acc, [])"
| "read_digits b (c # cs) acc =
     (case base_digit b c of Some d \<Rightarrow> read_digits b cs (b * acc + d) | None \<Rightarrow> (acc, c # cs))"

definition hex_prefix :: "string \<Rightarrow> bool" where
  "hex_prefix s \<longleftrightarrow> (case s of a # x # d # _ \<Rightarrow>
     a = CHR ''0'' \<and> (x = CHR ''x'' \<or> x = CHR ''X'') \<and> xdigit_val d \<noteq> None | _ \<Rightarrow> False)"

definition strtoul :: "string \<Rightarrow> nat \<times> string" where
  "strtoul s =
     (let (v, rest) = (if hex_prefix s then read_digits 16 (drop 2 s) 0
                       else if s \<noteq> [] \<and> hd s = CHR ''0'' then read_digits 8 s 0
                       else read_digits 10 s 0)
      in (min v (2 ^ 64 - 1), rest))"

section \<open>str2ip and ip2str\<close>

definition dot_first :: "string \<Rightarrow> bool" where
  "dot_first s \<longleftrightarrow> (case s of [] \<Rightarrow> False | c # _ \<Rightarrow> c = CHR ''.'')"

definition str2ip :: "string \<Rightarrow> u32" where
  "str2ip str =
     (if no_digit_first str then INADDR_NONE else
      let (v, s) = strtoul str; addr = word_of_nat v :: u32 in
      if \<not> dot_first s then
        (let temp = drop_bit 24 addr in if temp = 0 \<or> 224 \<le> temp then INADDR_NONE else htonl addr)
      else if no_digit_first (tl s) then INADDR_NONE
      else if addr = 0 \<or> 224 \<le> addr then INADDR_NONE
      else let (v, s) = strtoul (tl s); temp = word_of_nat v :: u32 in
      if \<not> dot_first s then (if 0x1000000 \<le> temp then INADDR_NONE else addr + htonl temp)
      else if no_digit_first (tl s) then INADDR_NONE
      else if 256 \<le> temp then INADDR_NONE
      else let addr = addr + push_bit 8 temp; (v, s) = strtoul (tl s); temp = word_of_nat v :: u32 in
      if \<not> dot_first s then (if 0x10000 \<le> temp then INADDR_NONE else addr + htonl temp)
      else if no_digit_first (tl s) then INADDR_NONE
      else let addr = addr + push_bit 16 temp; (v, s) = strtoul (tl s); temp = word_of_nat v :: u32 in
      if 256 \<le> temp then INADDR_NONE else addr + push_bit 24 temp)"

definition put_dec3 :: "byte \<Rightarrow> string" where
  "put_dec3 c = (let n = unat c in
     if 100 \<le> n then [digit_chr (n div 100), digit_chr (n div 10 mod 10), digit_chr (n mod 10)]
     else if 10 \<le> n then [digit_chr (n div 10), digit_chr (n mod 10)]
     else [digit_chr n])"

definition ip2str :: "u32 \<Rightarrow> string" where
  "ip2str ip = (let c = le32 ip in
     put_dec3 (c ! 0) @ ''.'' @ put_dec3 (c ! 1) @ ''.'' @ put_dec3 (c ! 2) @ ''.'' @ put_dec3 (c ! 3))"

section \<open>get\_uint32\_ip\<close>

text \<open>The second result is what is stored in \<open>s_ip[16]\<close>, if anything is.\<close>

definition get_uint32_ip :: "(string \<Rightarrow> string option) \<Rightarrow> string \<Rightarrow> u32 \<times> string option" where
  "get_uint32_ip dns sip =
     (let ip = str2ip sip in
      if ip = INADDR_NONE then
        (case dns sip of None \<Rightarrow> (INADDR_NONE, None)
         | Some tmpip \<Rightarrow> (str2ip (take 15 tmpip), Some (take 15 tmpip)))
      else (ip, Some (take 15 sip)))"

section \<open>Printing and reading back\<close>

lemma read_digits_append:
  "read_digits b s acc = (n, []) \<Longrightarrow> read_digits b (s @ t) acc = read_digits b t n"
  by (induction s arbitrary: acc) (auto split: option.splits)

lemma base_digit_chr [simp]: "d < 10 \<Longrightarrow> base_digit 10 (digit_chr d) = Some d"
  by (simp add: base_digit_def xdigit_val_def Let_def)

lemma byte_below_256: "unat (c :: byte) < 256"
proof -
  have "unat c < 2 ^ LENGTH(8)" by (rule unsigned_less)
  then show ?thesis by simp
qed

lemma decimal_sum: "100 * (n div 100) + 10 * (n div 10 mod 10) + n mod 10 = (n :: nat)"
proof -
  have "n div 100 = n div 10 div 10" by (simp flip: div_mult2_eq)
  moreover have "10 * (n div 10 div 10) + n div 10 mod 10 = n div 10" by (rule mult_div_mod_eq)
  moreover have "10 * (n div 10) + n mod 10 = n" by (rule mult_div_mod_eq)
  ultimately show ?thesis by linarith
qed

lemma digit_chr_zero: "d < 10 \<Longrightarrow> digit_chr d = CHR ''0'' \<longleftrightarrow> d = 0"
proof -
  assume "d < 10"
  then have "d \<in> set [0..<10]" by simp
  moreover have "\<forall>d \<in> set [0..<10]. (digit_chr d = CHR ''0'') = (d = 0)" by code_simp
  ultimately show ?thesis by blast
qed

lemma read_dec3: "read_digits 10 (put_dec3 c) 0 = (unat c, [])"
proof -
  have "unat c div 100 < 10" "unat c div 10 mod 10 < 10" "unat c mod 10 < 10"
    using byte_below_256 [of c] by simp_all
  then show ?thesis
    by (simp add: put_dec3_def Let_def decimal_sum)
qed

definition dec_stop :: "string \<Rightarrow> bool" where
  "dec_stop s \<longleftrightarrow> s = [] \<or> dot_first s"

lemma read_stop: "dec_stop s \<Longrightarrow> read_digits b s acc = (acc, s)"
  by (cases s) (auto simp: dec_stop_def dot_first_def base_digit_def xdigit_val_def chr_code_def Let_def)

lemma hd_dec3: "hd (put_dec3 c) = CHR ''0'' \<Longrightarrow> put_dec3 c = ''0'' \<and> unat c = 0"
proof -
  have "unat c div 100 < 10" using byte_below_256 [of c] by simp
  then show "hd (put_dec3 c) = CHR ''0'' \<Longrightarrow> put_dec3 c = ''0'' \<and> unat c = 0"
    by (cases "unat c < 10") (auto simp: put_dec3_def Let_def digit_chr_zero split: if_splits)
qed

lemma put_dec3_nonempty [simp]: "put_dec3 c \<noteq> []"
  by (simp add: put_dec3_def Let_def)

lemma strtoul_dec3:
  assumes "dec_stop s"
  shows "strtoul (put_dec3 c @ s) = (unat c, s)"
proof -
  have m: "min (unat c) (2 ^ 64 - 1) = unat c" using byte_below_256 [of c] by simp
  show ?thesis
  proof (cases "hd (put_dec3 c) = CHR ''0''")
    case True
    then have p: "put_dec3 c = ''0''" "unat c = 0" using hd_dec3 by blast+
    have "\<not> hex_prefix (CHR ''0'' # s)"
      using assms by (auto simp: hex_prefix_def dec_stop_def dot_first_def split: list.splits)
    then show ?thesis
      using read_stop [OF assms, of 8 0]
      by (simp add: strtoul_def p base_digit_def xdigit_val_def chr_code_def Let_def)
  next
    case False
    then have "\<not> hex_prefix (put_dec3 c @ s)"
      by (cases "put_dec3 c") (auto simp: hex_prefix_def split: list.splits)
    with False show ?thesis
      using read_stop [OF assms, of 10 "unat c"] m
      by (simp add: strtoul_def read_digits_append [OF read_dec3])
  qed
qed

lemma dec3_starts_digit: "\<not> no_digit_first (put_dec3 c @ s)"
proof -
  have "unat c div 100 < 10" using byte_below_256 [of c] by simp
  then show ?thesis by (simp add: put_dec3_def Let_def)
qed

lemma byte_bit_bound: "bit (a :: byte) n \<Longrightarrow> n < 8"
  using bit_imp_le_length [of a n] by simp

lemma le_bytes_sum:
  "ucast (a :: byte) + push_bit 8 (ucast b) + push_bit 16 (ucast c) + push_bit 24 (ucast d)
   = of_le32 [a :: byte, b, c, d]"
proof -
  have 1: "(ucast a :: u32) + push_bit 8 (ucast b) = ucast a OR push_bit 8 (ucast b)"
    by (rule disjunctive_add_eq_or) (auto intro!: bit_word_eqI simp: bit_simps dest!: byte_bit_bound)
  have 2: "(ucast a OR push_bit 8 (ucast b) :: u32) + push_bit 16 (ucast c) =
      (ucast a OR push_bit 8 (ucast b)) OR push_bit 16 (ucast c)"
    by (rule disjunctive_add_eq_or) (auto intro!: bit_word_eqI simp: bit_simps dest!: byte_bit_bound)
  have 3: "((ucast a OR push_bit 8 (ucast b)) OR push_bit 16 (ucast c) :: u32) + push_bit 24 (ucast d) =
      ((ucast a OR push_bit 8 (ucast b)) OR push_bit 16 (ucast c)) OR push_bit 24 (ucast d)"
    by (rule disjunctive_add_eq_or) (auto intro!: bit_word_eqI simp: bit_simps dest!: byte_bit_bound)
  show ?thesis by (simp only: 1 2 3) (simp add: of_le32_def or.assoc)
qed

lemma unat_byte_u32: "unat (ucast (a :: byte) :: u32) = unat a"
  using byte_below_256 [of a] by (simp add: unsigned_ucast_eq take_bit_nat_eq_self)

lemma byte_below: "\<not> (256 :: u32) \<le> ucast (a :: byte)"
  using byte_below_256 [of a] by (simp add: word_le_nat_alt unat_byte_u32)

lemma dot_simps [simp]: "dec_stop (CHR ''.'' # s)" "dot_first (CHR ''.'' # s)" "dec_stop []" "\<not> dot_first []"
  by (simp_all add: dec_stop_def dot_first_def)

lemma strtoul_dec3_end: "strtoul (put_dec3 c) = (unat c, [])"
  using strtoul_dec3 [of "[]" c] by simp

lemma dec3_digit_end: "\<not> no_digit_first (put_dec3 c)"
  using dec3_starts_digit [of c "[]"] by simp

lemma str2ip_dotted:
  assumes "0 < unat a" and "unat a < 224"
  shows "str2ip (put_dec3 a @ ''.'' @ put_dec3 b @ ''.'' @ put_dec3 c @ ''.'' @ put_dec3 d)
         = of_le32 [a, b, c, d]"
proof -
  have 1: "(ucast a :: u32) \<noteq> 0" using assms unat_byte_u32 [of a] by (metis unsigned_0 less_irrefl)
  have 2: "\<not> (224 :: u32) \<le> ucast a" using assms by (simp add: word_le_nat_alt unat_byte_u32)
  show ?thesis
    by (simp only: str2ip_def Let_def append_Cons append_Nil strtoul_dec3 dot_simps dec3_starts_digit
        strtoul_dec3_end dec3_digit_end list.sel split_conv if_False if_True not_True_eq_False
        not_False_eq_True of_nat_unat 1 2 byte_below disj_not1 simp_thms le_bytes_sum)
qed

lemma str2ip_ip2str:
  assumes "0 < unat (ucast ip :: byte)" and "unat (ucast ip :: byte) < 224"
  shows "str2ip (ip2str ip) = ip"
  using str2ip_dotted [OF assms, of "ucast (drop_bit 8 ip)" "ucast (drop_bit 16 ip)" "ucast (drop_bit 24 ip)"]
    of_le32_le32 [of ip "[]"]
  by (simp add: ip2str_def le32_def Let_def)

text \<open>The third of four numbers is not range checked: it runs over into the fourth.\<close>

lemma str2ip_third_unchecked: "str2ip ''1.2.256.4'' = of_le32 [1, 2, 0, 5]"
  by (simp add: str2ip_def strtoul_def hex_prefix_def base_digit_def xdigit_val_def chr_code_def
      dot_first_def is_digit_def of_le32_def word_le_nat_alt Let_def)

end
