(* ===== verification/IpConfig.thy ===== *)
theory IpConfig
  imports VfsTypes ListFamily IPAddr
begin

text \<open>
  \<open>src/network/vfs_init.c\<close>: the table of known machines.  An entry is linked by
  \<open>hlist\<close> into the bucket of its address (\<open>cfg_iplist\<close>) or, unused, into \<open>iphome\<close>; by
  \<open>hotlist\<close> into \<open>hothome\<close>; and by \<open>isplist\<close> and \<open>archive_list\<close>, two members whose heads
  are both in the array \<open>isp_iplist\<close>.  What the daemon reads from the outside is a
  parameter: the configuration file (\<open>conf\<close>, the values of a key in order), the lines
  \<open>fgets\<close> returns from a file (\<open>f_lines\<close>), a directory's names (\<open>f_names\<close>), the
  resolver (\<open>f_dns\<close>) and the local addresses.
\<close>

definition MAXCS_ONEGRUOP :: nat where "MAXCS_ONEGRUOP = 1024"
definition MAXDIR_FOR_CS :: nat where "MAXDIR_FOR_CS = 1024"
definition MAXFCS :: int where "MAXFCS = 1024"
definition DIR1 :: int where "DIR1 = 30"
definition DIR2 :: int where "DIR2 = 30"
definition M_ONLINE :: int where "M_ONLINE = 0"
definition M_OFFLINE :: int where "M_OFFLINE = 1"

record t_ip_info =
  ii_ip :: u32
  ii_sip :: string
  ii_s_ip :: string
  ii_isp :: isp
  ii_role :: role
  ii_archive_isp :: isp
  ii_real_isp :: isp
  ii_isself :: bool
  ii_offline :: bool
  ii_archive :: bool
  ii_dirs :: "string list"

definition zero_ipinfo :: t_ip_info where
  "zero_ipinfo = \<lparr>ii_ip = 0, ii_sip = [], ii_s_ip = [], ii_isp = 0, ii_role = UNKOWN,
     ii_archive_isp = 0, ii_real_isp = 0, ii_isself = False, ii_offline = False,
     ii_archive = False, ii_dirs = []\<rparr>"

text \<open>The machines of one directory: parallel arrays, the first \<open>index\<close> of them in use.\<close>

record t_cs_dir_info =
  cd_ip :: "nat \<Rightarrow> u32"
  cd_isp :: "nat \<Rightarrow> isp"
  cd_archive_isp :: "nat \<Rightarrow> isp"
  cd_real_isp :: "nat \<Rightarrow> isp"
  cd_index :: nat

definition zero_cs :: t_cs_dir_info where
  "zero_cs = \<lparr>cd_ip = (\<lambda>_. 0), cd_isp = (\<lambda>_. 0), cd_archive_isp = (\<lambda>_. 0),
     cd_real_isp = (\<lambda>_. 0), cd_index = 0\<rparr>"

datatype cfg_head = Cfg nat | IpHome
datatype isp_node = ByIsp ptr | ByArchive ptr

record cfg_state =
  infos :: "ptr \<Rightarrow> t_ip_info"
  hlists :: "cfg_head \<Rightarrow> ptr list"
  hothome :: "ptr list"
  isp_iplist :: "nat \<Rightarrow> isp_node list"
  csinfo :: "int \<Rightarrow> int \<Rightarrow> t_cs_dir_info"
  fcslist :: "int \<Rightarrow> isp"
  ispname :: "nat \<Rightarrow> string"
  offlinehome :: "u32 list"
  localip :: "u32 list"
  mallocs :: "ptr list"
  wrlocked :: bool
  self_ip :: u32
  self_sip :: string
  self_stat :: server_stat
  self_offline_time :: int

record outside =
  conf :: "string \<Rightarrow> string list"
  f_lines :: "string \<Rightarrow> string list option"
  f_names :: "string \<Rightarrow> string list option"
  f_dns :: "string \<Rightarrow> string option"

text \<open>\<open>myconfig_get_value\<close> is the first value of a key.\<close>

definition conf_value :: "outside \<Rightarrow> string \<Rightarrow> string option" where
  "conf_value w k = (case conf w k of [] \<Rightarrow> None | v # _ \<Rightarrow> Some v)"

section \<open>Local addresses and locks\<close>

primrec check_self_ip_loop :: "u32 list \<Rightarrow> u32 \<Rightarrow> int" where
  "check_self_ip_loop [] ip = -1"
| "check_self_ip_loop (l # ls) ip =
     (if l = 0 then -1 else if l = ip then 0 else check_self_ip_loop ls ip)"

definition check_self_ip :: "u32 \<Rightarrow> 'a cfg_state_scheme \<Rightarrow> int" where
  "check_self_ip ip s = check_self_ip_loop (localip s) ip"

definition get_cfg_lock :: "env \<Rightarrow> int" where
  "get_cfg_lock e = (if lock_failed e M_cfg then -1 else 0)"

section \<open>Looking up a machine\<close>

definition bucket_of :: "u32 \<Rightarrow> nat" where
  "bucket_of ip = unat (ip AND 0xFF)"

definition ip_matches :: "u32 \<Rightarrow> string \<Rightarrow> string \<Rightarrow> t_ip_info \<Rightarrow> bool" where
  "ip_matches ip s_ip sip i \<longleftrightarrow> ip = ii_ip i \<or> ii_sip i = sip \<or> ii_s_ip i = s_ip"

text \<open>
  With \<open>type\<close> 0 the caller gets a pointer to the entry, otherwise a copy taken under the
  configuration lock; the entry found is the second result.
\<close>

definition get_ip_info_by_uint ::
  "env \<Rightarrow> u32 \<Rightarrow> bool \<Rightarrow> string \<Rightarrow> string \<Rightarrow> 'a cfg_state_scheme \<Rightarrow> int \<times> ptr option" where
  "get_ip_info_by_uint e ip type s_ip sip s =
     (if type \<and> get_cfg_lock e \<noteq> 0 then (-2, None)
      else case find (\<lambda>p. ip_matches ip s_ip sip (infos s p)) (hlists s (Cfg (bucket_of ip))) of
        Some p \<Rightarrow> (0, Some p)
      | None \<Rightarrow> (-1, None))"

definition get_ip_info ::
  "env \<Rightarrow> outside \<Rightarrow> string \<Rightarrow> bool \<Rightarrow> 'a cfg_state_scheme \<Rightarrow> int \<times> ptr option" where
  "get_ip_info e w sip type s =
     (let (ip, o_s_ip) = get_uint32_ip (f_dns w) sip;
          s_ip = (case o_s_ip of Some x \<Rightarrow> x | None \<Rightarrow> [])
      in get_ip_info_by_uint e ip type s_ip sip s)"

section \<open>Adding a machine\<close>

definition set_info :: "ptr \<Rightarrow> t_ip_info \<Rightarrow> 'a cfg_state_scheme \<Rightarrow> 'a cfg_state_scheme" where
  "set_info p i s = s\<lparr>infos := (infos s)(p := i)\<rparr>"

definition unlink_all :: "ptr \<Rightarrow> 'a cfg_state_scheme \<Rightarrow> 'a cfg_state_scheme" where
  "unlink_all p s = s\<lparr>hlists := lf_del p (hlists s), hothome := removeAll p (hothome s),
     isp_iplist := lf_del (ByArchive p) (lf_del (ByIsp p) (isp_iplist s))\<rparr>"

text \<open>The entry comes from \<open>iphome\<close>, else from \<open>malloc\<close>, whose next answers are \<open>mallocs\<close>.\<close>

definition take_entry :: "'a cfg_state_scheme \<Rightarrow> ptr option \<times> 'a cfg_state_scheme" where
  "take_entry s =
     (case hlists s IpHome of
        p # _ \<Rightarrow> (Some p, unlink_all p s)
      | [] \<Rightarrow> (case mallocs s of [] \<Rightarrow> (None, s) | p # ps \<Rightarrow> (Some p, s\<lparr>mallocs := ps\<rparr>)))"

definition add_ip_info ::
  "env \<Rightarrow> outside \<Rightarrow> t_ip_info \<Rightarrow> 'a cfg_state_scheme \<Rightarrow> int \<times> 'a cfg_state_scheme" where
  "add_ip_info e w ipinfo s =
     (if fst (get_ip_info e w (ii_sip ipinfo) False s) = 0 then (0, s)
      else
        let ipinfo = (if check_self_ip (ii_ip ipinfo) s = 0 then ipinfo\<lparr>ii_isself := True\<rparr> else ipinfo);
            (server, s) = take_entry s
        in case server of None \<Rightarrow> (-1, s)
           | Some p \<Rightarrow>
             (let s = set_info p ipinfo s;
                  s = s\<lparr>hlists := lf_add_head p (Cfg (bucket_of (ii_ip ipinfo))) (hlists s)\<rparr>
              in if ii_role ipinfo = ROLE_CS then
                   let s = s\<lparr>isp_iplist := lf_add_head (ByIsp p) (unat (ii_isp ipinfo)) (isp_iplist s)\<rparr>
                   in if ii_archive_isp ipinfo \<noteq> ISP_FCS
                      then (0, s\<lparr>isp_iplist :=
                              lf_add_head (ByArchive p) (unat (ii_archive_isp ipinfo)) (isp_iplist s)\<rparr>)
                      else (0, s)
                 else (0, s)))"

section \<open>The machines of a directory\<close>

text \<open>\<open>strtrim\<close> of \<open>acl.c\<close>: no blanks at either end.\<close>

definition strtrim :: "string \<Rightarrow> string" where
  "strtrim str = rev (dropWhile (\<lambda>c. c = CHR '' '') (rev (dropWhile (\<lambda>c. c = CHR '' '') str)))"

definition dir_text :: "int \<Rightarrow> int \<Rightarrow> string" where
  "dir_text d1 d2 = take 7 (show_int d1 @ ''/'' @ show_int d2)"

definition cs_find :: "t_cs_dir_info \<Rightarrow> u32 \<Rightarrow> nat option" where
  "cs_find cs ip = find (\<lambda>i. cd_ip cs i = ip) [0..<cd_index cs]"

definition cs_append :: "u32 \<Rightarrow> isp \<Rightarrow> isp \<Rightarrow> t_cs_dir_info \<Rightarrow> t_cs_dir_info" where
  "cs_append ip isp archive_isp cs =
     (let n = cd_index cs;
          cs = cs\<lparr>cd_ip := (cd_ip cs)(n := ip), cd_isp := (cd_isp cs)(n := isp),
                  cd_real_isp := (cd_real_isp cs)(n := isp),
                  cd_archive_isp := (cd_archive_isp cs)(n := archive_isp), cd_index := n + 1\<rparr>
      in if MAXCS_ONEGRUOP = cd_index cs then cs\<lparr>cd_index := 0\<rparr> else cs)"

text \<open>Some new contents of the directory's arrays and whether the entry was there, or a stop.\<close>

definition cs_update :: "u32 \<Rightarrow> isp \<Rightarrow> isp \<Rightarrow> t_cs_dir_info \<Rightarrow> (t_cs_dir_info \<times> bool) option" where
  "cs_update ip isp archive_isp cs =
     (case cs_find cs ip of
        Some i \<Rightarrow> if archive_isp = ISP_FCS then None
          else Some (cs\<lparr>cd_archive_isp := (cd_archive_isp cs)(i := archive_isp),
                        cd_real_isp := (cd_real_isp cs)(i := isp)\<rparr>, True)
      | None \<Rightarrow> Some (cs_append ip isp archive_isp cs, False))"

definition add_dir :: "string \<Rightarrow> t_ip_info \<Rightarrow> t_ip_info" where
  "add_dir d i = (if d \<in> set (ii_dirs i) then i
     else if length (ii_dirs i) < MAXDIR_FOR_CS then i\<lparr>ii_dirs := ii_dirs i @ [d]\<rparr> else i)"

definition set_csinfo :: "int \<Rightarrow> int \<Rightarrow> t_cs_dir_info \<Rightarrow> 'a cfg_state_scheme \<Rightarrow> 'a cfg_state_scheme" where
  "set_csinfo d1 d2 cs s = s\<lparr>csinfo := (csinfo s)(d1 := (csinfo s d1)(d2 := cs))\<rparr>"

definition pushcs ::
  "env \<Rightarrow> outside \<Rightarrow> string \<Rightarrow> isp \<Rightarrow> isp \<Rightarrow> int \<Rightarrow> int \<Rightarrow> 'a cfg_state_scheme \<Rightarrow> 'a cfg_state_scheme" where
  "pushcs e w sip isp archive_isp d1 d2 s =
     (let sip = strtrim sip; (ip, o_s_ip) = get_uint32_ip (f_dns w) sip in
      if ip = INADDR_NONE then s
      else case cs_update ip isp archive_isp (csinfo s d1 d2) of
        None \<Rightarrow> s
      | Some (cs, reuse) \<Rightarrow>
          let s = set_csinfo d1 d2 cs s in
          case get_ip_info e w sip False s of
            (r, Some p) \<Rightarrow>
              let i = (infos s p)\<lparr>ii_real_isp := isp\<rparr>;
                  i = (if archive_isp \<noteq> ISP_FCS then i\<lparr>ii_archive := True\<rparr> else i);
                  s = (if reuse then s\<lparr>isp_iplist := lf_add_head (ByArchive p) (unat archive_isp)
                                          (lf_del (ByArchive p) (isp_iplist s))\<rparr> else s);
                  i = (if reuse then i\<lparr>ii_archive_isp := archive_isp\<rparr> else i)
              in set_info p (add_dir (dir_text d1 d2) i) s
          | (r, None) \<Rightarrow>
              snd (add_ip_info e w (zero_ipinfo\<lparr>ii_isp := isp, ii_real_isp := isp,
                ii_archive_isp := archive_isp, ii_archive := archive_isp \<noteq> ISP_FCS, ii_ip := ip,
                ii_role := ROLE_CS, ii_sip := take 127 sip,
                ii_s_ip := (case o_s_ip of Some x \<Rightarrow> take 15 x | None \<Rightarrow> []),
                ii_dirs := [dir_text d1 d2]\<rparr>) s))"

text \<open>\<open>strchr(s, ',')\<close> until there is none left.\<close>

fun split_comma :: "string \<Rightarrow> string list" where
  "split_comma s = (case strchr s (CHR '','') of
       None \<Rightarrow> [s]
     | Some k \<Rightarrow> if k < length s then take k s # split_comma (drop (Suc k) s) else [s])"

declare split_comma.simps [simp del]

definition pushinfo ::
  "env \<Rightarrow> outside \<Rightarrow> string \<Rightarrow> isp \<Rightarrow> isp \<Rightarrow> int \<Rightarrow> int \<Rightarrow> 'a cfg_state_scheme \<Rightarrow> 'a cfg_state_scheme" where
  "pushinfo e w ips isp archive_isp d1 d2 s =
     foldl (\<lambda>s sip. pushcs e w sip isp archive_isp d1 d2 s) s (split_comma ips)"

definition chomp :: "string \<Rightarrow> string" where
  "chomp buf = (case strrchr buf (CHR 0x0A) of Some k \<Rightarrow> take k buf | None \<Rightarrow> buf)"

text \<open>A line \<open>d1/d2 ip,ip,\<dots>\<close>: the two numbers (as bytes, modulo 30) and the list.\<close>

definition parse_csline :: "string \<Rightarrow> (int \<times> int \<times> string) option" where
  "parse_csline line =
     (let buf = chomp line in
      case strchr buf (CHR ''/'') of
        None \<Rightarrow> None
      | Some k \<Rightarrow>
        let t = drop k buf;
            dir1 = uint (word_of_int (atoi buf) :: byte) mod DIR1;
            dir2 = uint (word_of_int (atoi (tl t)) :: byte) mod DIR2
        in case (case strchr t (CHR '' '') of None \<Rightarrow> strchr t (CHR 0x09) | Some j \<Rightarrow> Some j) of
             None \<Rightarrow> None
           | Some j \<Rightarrow> Some (dir1, dir2, drop (Suc j) t))"

definition process_csfile ::
  "env \<Rightarrow> outside \<Rightarrow> isp \<Rightarrow> isp \<Rightarrow> string \<Rightarrow> 'a cfg_state_scheme \<Rightarrow> int \<times> 'a cfg_state_scheme" where
  "process_csfile e w isp archive_isp csfile s =
     (case f_lines w csfile of
        None \<Rightarrow> (-1, s)
      | Some ls \<Rightarrow> (0, foldl (\<lambda>s l. case parse_csline l of
            None \<Rightarrow> s
          | Some (d1, d2, ips) \<Rightarrow> pushinfo e w ips isp archive_isp d1 d2 s) s ls))"

definition process_csfile_hot ::
  "env \<Rightarrow> outside \<Rightarrow> string \<Rightarrow> 'a cfg_state_scheme \<Rightarrow> int \<times> 'a cfg_state_scheme" where
  "process_csfile_hot e w csfile s =
     (case f_lines w csfile of
        None \<Rightarrow> (-1, s)
      | Some ls \<Rightarrow> (0, foldl (\<lambda>s l. case get_ip_info e w (chomp l) False s of
            (r, Some p) \<Rightarrow> s\<lparr>hothome := p # removeAll p (hothome s)\<rparr>
          | (r, None) \<Rightarrow> s) s ls))"

section \<open>Reading the configuration\<close>

definition MAXISP_names :: "nat list" where "MAXISP_names = [0..<MAXISP]"

definition get_isp_by_name :: "string \<Rightarrow> 'a cfg_state_scheme \<Rightarrow> isp" where
  "get_isp_by_name name s =
     (case find (\<lambda>i. ispname s i \<noteq> [] \<and> ispname s i = name) MAXISP_names of
        Some i \<Rightarrow> word_of_nat i
      | None \<Rightarrow> UNKNOW_ISP)"

text \<open>What is left of a directory entry \<open>\<dots>new_cs_\<dots>.txt\<close> after the prefix and the suffix are cut.\<close>

definition cs_file_stem :: "string \<Rightarrow> string option" where
  "cs_file_stem d_name =
     (if d_name = [] \<or> hd d_name = CHR ''.'' then None
      else if drop (length d_name - 4) d_name \<noteq> ''.txt'' then None
      else let d_name = take (length d_name - 4) d_name in
        case strstr d_name ''new_cs_'' of None \<Rightarrow> None | Some k \<Rightarrow> Some (drop (k + 7) d_name))"

definition archive_file_isps :: "string \<Rightarrow> 'a cfg_state_scheme \<Rightarrow> (isp \<times> isp) option" where
  "archive_file_isps stem s =
     (case strstr stem ''_archive'' of
        None \<Rightarrow> None
      | Some k \<Rightarrow>
        let isp = get_isp_by_name (take k stem) s; archive_isp = get_isp_by_name (drop (Suc k) stem) s
        in if archive_isp = UNKNOW_ISP \<or> UNKNOW_ISP = isp \<or> isp = archive_isp then None
           else Some (isp, archive_isp))"

text \<open>The loop over the directory stops at the first file that cannot be read.\<close>

primrec csinfo_archive_loop ::
  "env \<Rightarrow> outside \<Rightarrow> string \<Rightarrow> string list \<Rightarrow> 'a cfg_state_scheme \<Rightarrow> int \<times> 'a cfg_state_scheme" where
  "csinfo_archive_loop e w csdir [] s = (0, s)"
| "csinfo_archive_loop e w csdir (d_name # ds) s =
     (case cs_file_stem d_name of
        None \<Rightarrow> csinfo_archive_loop e w csdir ds s
      | Some stem \<Rightarrow>
        (case archive_file_isps stem s of
           None \<Rightarrow> csinfo_archive_loop e w csdir ds s
         | Some (isp, archive_isp) \<Rightarrow>
           let (r, s) = process_csfile e w isp archive_isp (take 255 (csdir @ ''/'' @ d_name)) s
           in if r \<noteq> 0 then (-1, s) else csinfo_archive_loop e w csdir ds s))"

definition init_csinfo_archive :: "env \<Rightarrow> outside \<Rightarrow> 'a cfg_state_scheme \<Rightarrow> int \<times> 'a cfg_state_scheme" where
  "init_csinfo_archive e w s =
     (case conf_value w ''iplist_cs_dir'' of
        None \<Rightarrow> (-1, s)
      | Some csdir \<Rightarrow> (case f_names w csdir of None \<Rightarrow> (-1, s)
          | Some ds \<Rightarrow> csinfo_archive_loop e w csdir ds s))"

definition hot_file :: "string \<Rightarrow> bool" where
  "hot_file d_name \<longleftrightarrow> d_name \<noteq> [] \<and> hd d_name \<noteq> CHR ''.'' \<and> strstr d_name ''mp4'' = None \<and>
     drop (length d_name - 4) d_name = ''.txt'' \<and>
     (case strstr d_name ''hot_cs_'' of None \<Rightarrow> False
      | Some k \<Rightarrow> (case drop (k + 7) d_name of [] \<Rightarrow> False | c # _ \<Rightarrow> c = CHR ''c'' \<or> c = CHR ''t''))"

definition init_csinfo_hot :: "env \<Rightarrow> outside \<Rightarrow> 'a cfg_state_scheme \<Rightarrow> int \<times> 'a cfg_state_scheme" where
  "init_csinfo_hot e w s =
     (case conf_value w ''iplist_cs_dir'' of
        None \<Rightarrow> (-1, s)
      | Some csdir \<Rightarrow> (case f_names w csdir of None \<Rightarrow> (-1, s)
          | Some ds \<Rightarrow> init_csinfo_archive e w
              (foldl (\<lambda>s d. snd (process_csfile_hot e w (take 255 (csdir @ ''/'' @ d)) s)) s
                (filter hot_file ds))))"

primrec csinfo_loop ::
  "env \<Rightarrow> outside \<Rightarrow> string \<Rightarrow> string list \<Rightarrow> 'a cfg_state_scheme \<Rightarrow> int \<times> 'a cfg_state_scheme" where
  "csinfo_loop e w csdir [] s = (0, s)"
| "csinfo_loop e w csdir (d_name # ds) s =
     (case cs_file_stem d_name of
        None \<Rightarrow> csinfo_loop e w csdir ds s
      | Some stem \<Rightarrow>
        (let isp = (if strstr stem ''_mp4'' \<noteq> None then MP4 else get_isp_by_name stem s) in
         if isp = UNKNOW_ISP then csinfo_loop e w csdir ds s
         else let (r, s) = process_csfile e w isp ISP_FCS (take 255 (csdir @ ''/'' @ d_name)) s
              in if r \<noteq> 0 then (-1, s) else csinfo_loop e w csdir ds s))"

definition init_csinfo :: "env \<Rightarrow> outside \<Rightarrow> 'a cfg_state_scheme \<Rightarrow> int \<times> 'a cfg_state_scheme" where
  "init_csinfo e w s =
     (case conf_value w ''iplist_cs_dir'' of
        None \<Rightarrow> (-1, s)
      | Some csdir \<Rightarrow> (case f_names w csdir of None \<Rightarrow> (-1, s)
          | Some ds \<Rightarrow>
            let (r, s) = csinfo_loop e w csdir ds s
            in if r \<noteq> 0 then (-1, s) else init_csinfo_hot e w s))"

text \<open>The record \<open>init_fcs\<close>, \<open>init_voss\<close> and \<open>init_tracker\<close> fill from one name.\<close>

definition server_info :: "outside \<Rightarrow> string \<Rightarrow> isp \<Rightarrow> isp \<Rightarrow> role \<Rightarrow> t_ip_info" where
  "server_info w name isp archive_isp role =
     (let sip = take 127 name; (ip, o_s_ip) = get_uint32_ip (f_dns w) sip
      in zero_ipinfo\<lparr>ii_sip := sip, ii_s_ip := (case o_s_ip of Some x \<Rightarrow> x | None \<Rightarrow> []), ii_ip := ip,
           ii_isp := isp, ii_archive_isp := archive_isp, ii_role := role\<rparr>)"

definition init_fcs_line ::
  "env \<Rightarrow> outside \<Rightarrow> isp \<Rightarrow> string \<Rightarrow> 'a cfg_state_scheme \<Rightarrow> 'a cfg_state_scheme" where
  "init_fcs_line e w isp line s =
     (let i = server_info w (chomp line) isp isp ROLE_FCS in
      if ii_ip i = INADDR_NONE then s
      else snd (add_ip_info e w i
             (s\<lparr>fcslist := (fcslist s)(crem (atoi (drop 3 (ii_sip i))) MAXFCS := isp)\<rparr>)))"

definition init_fcs :: "env \<Rightarrow> outside \<Rightarrow> isp \<Rightarrow> 'a cfg_state_scheme \<Rightarrow> int \<times> 'a cfg_state_scheme" where
  "init_fcs e w isp s =
     (case conf_value w ''iplist_cs_dir'' of
        None \<Rightarrow> (-1, s)
      | Some csdir \<Rightarrow>
        let fcsfile = take 255 (if isp = ISP_FCS then csdir @ ''/fcs_list.txt''
                                else csdir @ ''/fcs_list_'' @ ispname s (unat isp) @ ''.txt'')
        in case f_lines w fcsfile of
             None \<Rightarrow> (-1, s)
           | Some ls \<Rightarrow> (0, foldl (\<lambda>s l. init_fcs_line e w isp l s) s ls))"

primrec init_servers ::
  "env \<Rightarrow> outside \<Rightarrow> isp \<Rightarrow> role \<Rightarrow> string list \<Rightarrow> 'a cfg_state_scheme \<Rightarrow> int \<times> 'a cfg_state_scheme" where
  "init_servers e w isp role [] s = (0, s)"
| "init_servers e w isp role (v # vs) s =
     (let i = server_info w v isp UNKNOW_ISP role in
      if ii_ip i = INADDR_NONE then (-1, s)
      else init_servers e w isp role vs (snd (add_ip_info e w i s)))"

definition init_voss :: "env \<Rightarrow> outside \<Rightarrow> 'a cfg_state_scheme \<Rightarrow> int \<times> 'a cfg_state_scheme" where
  "init_voss e w s =
     (let vs = conf w ''voss_server_ip''; (r, s) = init_servers e w ISP_VOSS ROLE_VOSS_MASTER vs s
      in if r \<noteq> 0 then (r, s) else if vs = [] then (-1, s) else (0, s))"

definition init_tracker :: "env \<Rightarrow> outside \<Rightarrow> 'a cfg_state_scheme \<Rightarrow> int \<times> 'a cfg_state_scheme" where
  "init_tracker e w s = init_servers e w ISP_TRACKER ROLE_TRACKER (conf w ''iplist_sig_tracker'') s"

definition add_isp_name :: "env \<Rightarrow> outside \<Rightarrow> 'a cfg_state_scheme \<Rightarrow> string \<Rightarrow> 'a cfg_state_scheme" where
  "add_isp_name e w s pval =
     (case strchr pval (CHR '','') of
        None \<Rightarrow> s
      | Some k \<Rightarrow>
        let name = take k pval;
            isp = word_of_int (crem (atoi (drop (Suc k) pval)) 256) :: isp;
            s = s\<lparr>ispname := (ispname s)(unat isp := take 15 name)\<rparr>
        in if take 7 name = ''archive'' then snd (init_fcs e w isp s) else s)"

definition init_cs_isp :: "env \<Rightarrow> outside \<Rightarrow> 'a cfg_state_scheme \<Rightarrow> 'a cfg_state_scheme" where
  "init_cs_isp e w s =
     (let s = s\<lparr>ispname := (\<lambda>i. if unat MP4 < i \<and> i < MAXISP then [] else ispname s i)\<rparr>;
          s = foldl (add_isp_name e w) s (conf w ''csisp_newone'')
      in s\<lparr>ispname := (ispname s)(unat ISP_ALL := ''all'', unat ALLHOT := ''allhot'',
             unat ISP_TRACKER := ''tracker'', unat ISP_FCS := ''fcs'', unat ISP_VOSS := ''voss'')\<rparr>)"

section \<open>Machines off line\<close>

definition do_ip_off_line :: "env \<Rightarrow> u32 \<Rightarrow> int \<Rightarrow> 'a cfg_state_scheme \<Rightarrow> 'a cfg_state_scheme" where
  "do_ip_off_line e ip type s =
     (let s = (if ip = self_ip s then
                 (if type = M_OFFLINE then
                    (if self_stat s \<noteq> OFF_LINE then
                       s\<lparr>self_stat := OFF_LINE,
                         self_offline_time := (if self_offline_time s = 0 then e_now e else self_offline_time s)\<rparr>
                     else s)
                  else if self_stat s = OFF_LINE then s\<lparr>self_stat := UNKOWN_STAT\<rparr> else s)
               else s)
      in if get_cfg_lock e \<noteq> 0 then s
         else case get_ip_info_by_uint e ip False [CHR '' ''] [CHR '' ''] s of
           (r, Some p) \<Rightarrow> set_info p ((infos s p)\<lparr>ii_offline := odd type\<rparr>) s
         | (r, None) \<Rightarrow> s)"

definition refresh_offline :: "env \<Rightarrow> 'a cfg_state_scheme \<Rightarrow> 'a cfg_state_scheme" where
  "refresh_offline e s =
     (if lock_failed e M_offline then s
      else foldl (\<lambda>s ip. do_ip_off_line e ip M_OFFLINE s) s (offlinehome s))"

definition oper_ip_off_line :: "env \<Rightarrow> u32 \<Rightarrow> int \<Rightarrow> 'a cfg_state_scheme \<Rightarrow> 'a cfg_state_scheme" where
  "oper_ip_off_line e ip type s =
     (if lock_failed e M_offline then s
      else if ip \<in> set (offlinehome s) then
        (if type = M_ONLINE then s\<lparr>offlinehome := remove1 ip (offlinehome s)\<rparr> else s)
      else if type = M_OFFLINE then
        (case e_malloc e of None \<Rightarrow> s | Some _ \<Rightarrow> s\<lparr>offlinehome := ip # offlinehome s\<rparr>)
      else s)"

section \<open>Reloading\<close>

text \<open>
  Every entry goes back to \<open>iphome\<close> and the tables are built again.  The writer lock is
  released only when every step succeeds.
\<close>

definition release_entry :: "ptr \<Rightarrow> 'a cfg_state_scheme \<Rightarrow> 'a cfg_state_scheme" where
  "release_entry p s = (let s = unlink_all p s in s\<lparr>hlists := lf_add_head p IpHome (hlists s)\<rparr>)"

definition release_bucket :: "'a cfg_state_scheme \<Rightarrow> nat \<Rightarrow> 'a cfg_state_scheme" where
  "release_bucket s i = foldl (\<lambda>s p. release_entry p s) s (hlists s (Cfg i))"

definition release_all :: "'a cfg_state_scheme \<Rightarrow> 'a cfg_state_scheme" where
  "release_all s = foldl release_bucket s [0..<256]"

definition reload_cfg :: "env \<Rightarrow> outside \<Rightarrow> 'a cfg_state_scheme \<Rightarrow> int \<times> 'a cfg_state_scheme" where
  "reload_cfg e w s =
     (if lock_failed e M_cfg then (-2, s)
      else
        let s = release_all (s\<lparr>wrlocked := True, csinfo := (\<lambda>_ _. zero_cs)\<rparr>);
            s = init_cs_isp e w s; (r1, s) = init_csinfo e w s
        in if r1 \<noteq> 0 then (-1, s)
        else let (r2, s) = init_tracker e w s in if r2 \<noteq> 0 then (-1, s)
        else let (r3, s) = init_fcs e w ISP_FCS s in if r3 \<noteq> 0 then (-1, s)
        else let (r4, s) = init_voss e w s in if r4 \<noteq> 0 then (-1, s)
        else (0, refresh_offline e (s\<lparr>wrlocked := False\<rparr>)))"

text \<open>The part of \<open>vfs_init\<close> that builds the table: 2048 entries on \<open>iphome\<close>, then a first load.\<close>

definition IPPOOL :: nat where "IPPOOL = 2048"

definition init_ip_lists :: "ptr \<Rightarrow> 'a cfg_state_scheme \<Rightarrow> 'a cfg_state_scheme" where
  "init_ip_lists ipall s = s\<lparr>infos := (\<lambda>p. if ipall \<le> p \<and> p < ipall + IPPOOL then zero_ipinfo else infos s p),
     hlists := (\<lambda>_. [])(IpHome := rev [ipall..<ipall + IPPOOL]),
     hothome := [], isp_iplist := (\<lambda>_. []), offlinehome := []\<rparr>"

definition load_hostname :: "outside \<Rightarrow> string option \<Rightarrow> string option" where
  "load_hostname w gethostname =
     (let h = (case f_lines w ''/home/server/fcs.txt'' of
                 Some (l # _) \<Rightarrow> (let h = chomp (take 126 l) in if length h < 5 then [] else h)
               | _ \<Rightarrow> [])
      in if h = [] then gethostname else Some h)"

definition get_self_info :: "env \<Rightarrow> outside \<Rightarrow> 'a cfg_state_scheme \<Rightarrow> t_ip_info option" where
  "get_self_info e w s =
     (let ips = takeWhile (\<lambda>l. l \<noteq> 0) (localip s) in
      case find (\<lambda>l. fst (get_ip_info e w (ip2str l) False s) = 0) ips of
        Some l \<Rightarrow> map_option (infos s) (snd (get_ip_info e w (ip2str l) False s))
      | None \<Rightarrow> None)"

section \<open>Directories\<close>

definition get_cs_info :: "env \<Rightarrow> int \<Rightarrow> int \<Rightarrow> 'a cfg_state_scheme \<Rightarrow> t_cs_dir_info option" where
  "get_cs_info e dir1 dir2 s =
     (if lock_failed e M_cfg then None else Some (csinfo s (crem dir1 DIR1) (crem dir2 DIR2)))"

text \<open>The last two directories of a path, as numbers below 30.\<close>

definition get_dir1_dir2 :: "string \<Rightarrow> (int \<times> int) option" where
  "get_dir1_dir2 pathsrc =
     (let path = take 255 pathsrc in
      case strrchr path (CHR ''/'') of None \<Rightarrow> None
      | Some k \<Rightarrow>
        let path = take k path in
        case strrchr path (CHR ''/'') of None \<Rightarrow> None
        | Some j \<Rightarrow>
          let dir2 = crem (atoi (drop (Suc j) path)) DIR2; path = take j path in
          case strrchr path (CHR ''/'') of None \<Rightarrow> None
          | Some i \<Rightarrow>
            let dir1 = crem (atoi (drop (Suc i) path)) DIR1
            in if dir1 < 0 \<or> dir2 < 0 then None else Some (dir1, dir2))"

definition get_cs_info_by_path :: "env \<Rightarrow> string \<Rightarrow> 'a cfg_state_scheme \<Rightarrow> t_cs_dir_info option" where
  "get_cs_info_by_path e path s =
     (case get_dir1_dir2 path of None \<Rightarrow> None | Some (dir1, dir2) \<Rightarrow> get_cs_info e dir1 dir2 s)"

definition get_next_fcs :: "int \<Rightarrow> isp \<Rightarrow> 'a cfg_state_scheme \<Rightarrow> int" where
  "get_next_fcs fcs isp s =
     (case find (\<lambda>i. fcslist s i = isp) [fcs + 1..MAXFCS - 1] of Some i \<Rightarrow> i | None \<Rightarrow> -1)"

text \<open>
  \<open>check_self_stat\<close> sleeps and tries again while the lock times out; \<open>es\<close> are the
  circumstances of the successive attempts.
\<close>

primrec check_self_stat :: "env list \<Rightarrow> outside \<Rightarrow> 'a cfg_state_scheme \<Rightarrow> 'a cfg_state_scheme option" where
  "check_self_stat [] w s = None"
| "check_self_stat (e # es) w s =
     (case get_ip_info e w (self_sip s) True s of (r, op) \<Rightarrow>
        if r = -2 then check_self_stat es w s
        else if r = 0 \<and> (case op of Some p \<Rightarrow> \<not> ii_offline (infos s p) | None \<Rightarrow> True) then
          Some (if self_stat s = OFF_LINE then s\<lparr>self_stat := UNKOWN_STAT\<rparr> else s)
        else Some (if self_stat s \<noteq> OFF_LINE
                   then s\<lparr>self_stat := OFF_LINE, self_offline_time := e_now e\<rparr> else s))"

section \<open>The invariant of the table\<close>

text \<open>
  Every linked entry is in the bucket of its address, no address is linked twice, and
  the blocks \<open>malloc\<close> has still to hand out are not linked anywhere.
\<close>

definition entries_ok :: "'a cfg_state_scheme \<Rightarrow> bool" where
  "entries_ok s \<longleftrightarrow> lf_wf (hlists s) \<and>
     (\<forall>b p. p \<in> set (hlists s (Cfg b)) \<longrightarrow> b = bucket_of (ii_ip (infos s p))) \<and>
     (\<forall>b p q. p \<in> set (hlists s (Cfg b)) \<longrightarrow> q \<in> set (hlists s (Cfg b)) \<longrightarrow>
        ii_ip (infos s p) = ii_ip (infos s q) \<longrightarrow> p = q)"

definition fresh_ok :: "'a cfg_state_scheme \<Rightarrow> bool" where
  "fresh_ok s \<longleftrightarrow> distinct (mallocs s) \<and> (\<forall>p \<in> set (mallocs s). lf_off p (hlists s) \<and>
     lf_off (ByIsp p) (isp_iplist s) \<and> lf_off (ByArchive p) (isp_iplist s) \<and> p \<notin> set (hothome s))"

definition cs_ok :: "t_cs_dir_info \<Rightarrow> bool" where
  "cs_ok cs \<longleftrightarrow> cd_index cs < MAXCS_ONEGRUOP \<and> distinct (map (cd_ip cs) [0..<cd_index cs])"

definition cfg_ok :: "'a cfg_state_scheme \<Rightarrow> bool" where
  "cfg_ok s \<longleftrightarrow> entries_ok s \<and> fresh_ok s \<and> lf_wf (isp_iplist s) \<and> distinct (hothome s) \<and>
     (\<forall>d1 d2. cs_ok (csinfo s d1 d2))"

definition known :: "'a cfg_state_scheme \<Rightarrow> u32 \<Rightarrow> bool" where
  "known s ip \<longleftrightarrow> (\<exists>p \<in> set (hlists s (Cfg (bucket_of ip))). ii_ip (infos s p) = ip)"

lemma cfg_okD:
  assumes "cfg_ok s"
  shows "entries_ok s" "fresh_ok s" "lf_wf (isp_iplist s)" "distinct (hothome s)"
    "cs_ok (csinfo s d1 d2)" "lf_wf (hlists s)"
  using assms by (auto simp: cfg_ok_def entries_ok_def)

lemma lookup_found:
  assumes "get_ip_info_by_uint e ip type s_ip sip s = (r, Some p)"
  shows "r = 0" and "p \<in> set (hlists s (Cfg (bucket_of ip)))" and "ip_matches ip s_ip sip (infos s p)"
  using assms by (auto simp: get_ip_info_by_uint_def find_Some_iff split: if_splits option.splits)

lemma lookup_unknown:
  assumes "fst (get_ip_info_by_uint e ip False s_ip sip s) \<noteq> 0"
  shows "\<not> known s ip"
  using assms by (auto simp: get_ip_info_by_uint_def known_def find_None_iff ip_matches_def split: option.splits)

lemma lookup_known:
  assumes "entries_ok s" and "known s ip"
    and "\<And>p. p \<in> set (hlists s (Cfg (bucket_of ip))) \<Longrightarrow> ii_sip (infos s p) \<noteq> sip \<and> ii_s_ip (infos s p) \<noteq> s_ip"
  shows "\<exists>p. get_ip_info_by_uint e ip False s_ip sip s = (0, Some p) \<and> ii_ip (infos s p) = ip"
proof -
  have m: "ip_matches ip s_ip sip (infos s p) \<longleftrightarrow> ii_ip (infos s p) = ip"
    if "p \<in> set (hlists s (Cfg (bucket_of ip)))" for p
    using assms(3) [OF that] by (auto simp: ip_matches_def)
  have "find (\<lambda>p. ip_matches ip s_ip sip (infos s p)) (hlists s (Cfg (bucket_of ip))) \<noteq> None"
    using assms(2) m unfolding find_None_iff known_def by blast
  then obtain p where f: "find (\<lambda>p. ip_matches ip s_ip sip (infos s p)) (hlists s (Cfg (bucket_of ip))) = Some p"
    by blast
  then have "p \<in> set (hlists s (Cfg (bucket_of ip)))" "ip_matches ip s_ip sip (infos s p)"
    by (auto simp: find_Some_iff)
  with m f show ?thesis by (auto simp: get_ip_info_by_uint_def)
qed

lemma bucket_of_bound: "bucket_of ip < 256"
proof -
  have "ip AND 0xFF \<le> (0xFF :: u32)" by (rule word_and_le1)
  then have "unat (ip AND 0xFF) \<le> 255" by (simp add: word_le_nat_alt)
  then show ?thesis by (simp add: bucket_of_def)
qed

section \<open>Every operation keeps it\<close>

lemma take_entry_ok:
  assumes ok: "cfg_ok s" and t: "take_entry s = (Some p, s')"
  shows "cfg_ok s'" and "lf_off p (hlists s')" and "lf_off (ByIsp p) (isp_iplist s')"
    and "lf_off (ByArchive p) (isp_iplist s')" and "infos s' = infos s" and "p \<notin> set (mallocs s')"
    and "q \<in> set (hlists s' (Cfg b)) \<Longrightarrow> q \<in> set (hlists s (Cfg b))" and "p \<notin> set (hothome s')"
proof -
  have "cfg_ok s' \<and> lf_off p (hlists s') \<and> lf_off (ByIsp p) (isp_iplist s') \<and>
      lf_off (ByArchive p) (isp_iplist s') \<and> infos s' = infos s \<and> p \<notin> set (mallocs s') \<and>
      (q \<in> set (hlists s' (Cfg b)) \<longrightarrow> q \<in> set (hlists s (Cfg b))) \<and> p \<notin> set (hothome s')"
  proof (cases "hlists s IpHome")
    case Nil
    then obtain ps where m: "mallocs s = p # ps" and s': "s' = s\<lparr>mallocs := ps\<rparr>"
      using t by (auto simp: take_entry_def split: list.splits)
    with ok show ?thesis
      by (auto simp: cfg_ok_def entries_ok_def fresh_ok_def)
  next
    case (Cons x xs)
    then have [simp]: "x = p" and s': "s' = unlink_all p s" using t by (auto simp: take_entry_def)
    have "p \<in> set (hlists s IpHome)" using Cons by simp
    then have "p \<notin> set (mallocs s)"
      using cfg_okD(2) [OF ok] unfolding fresh_ok_def lf_off_def by blast
    moreover have "lf_off u (lf_del v F)" if "lf_off u F" for u v :: 'c and F :: "'d \<Rightarrow> 'c list"
      using that by (rule lf_off_del_other)
    ultimately show ?thesis using ok unfolding s'
      by (auto simp: cfg_ok_def entries_ok_def fresh_ok_def unlink_all_def distinct_removeAll
          lf_off_del_other)
  qed
  then show "cfg_ok s'" "lf_off p (hlists s')" "lf_off (ByIsp p) (isp_iplist s')"
    "lf_off (ByArchive p) (isp_iplist s')" "infos s' = infos s" "p \<notin> set (mallocs s')"
    "q \<in> set (hlists s' (Cfg b)) \<Longrightarrow> q \<in> set (hlists s (Cfg b))" "p \<notin> set (hothome s')"
    by auto
qed

lemma take_entry_none: "take_entry s = (None, s') \<Longrightarrow> s' = s"
  by (auto simp: take_entry_def split: list.splits)

text \<open>Linking a free entry for an address nobody has.\<close>

definition link_entry :: "ptr \<Rightarrow> t_ip_info \<Rightarrow> 'a cfg_state_scheme \<Rightarrow> 'a cfg_state_scheme" where
  "link_entry p i s = (let s = set_info p i s in
     s\<lparr>hlists := lf_add_head p (Cfg (bucket_of (ii_ip i))) (hlists s)\<rparr>)"

lemma link_entry_ok:
  assumes ok: "cfg_ok s" and off: "lf_off p (hlists s)" "p \<notin> set (mallocs s)" and new: "\<not> known s (ii_ip i)"
  shows "cfg_ok (link_entry p i s)" and "known (link_entry p i s) (ii_ip i)"
proof -
  have p: "p \<notin> set (hlists s h)" for h using off(1) by (simp add: lf_off_def)
  have "lf_wf (lf_add_head p (Cfg (bucket_of (ii_ip i))) (hlists s))"
    using ok off(1) by (intro lf_wf_add_head) (rule cfg_okD)
  with ok p new off(2) show "cfg_ok (link_entry p i s)"
    by (auto simp: cfg_ok_def link_entry_def set_info_def entries_ok_def fresh_ok_def known_def
        lf_off_def Let_def)
  show "known (link_entry p i s) (ii_ip i)"
    by (simp add: known_def link_entry_def set_info_def Let_def)
qed

lemma isp_add_ok:
  assumes "cfg_ok s" and "lf_off n (isp_iplist s)" and "n \<notin> ByIsp ` set (mallocs s) \<union> ByArchive ` set (mallocs s)"
  shows "cfg_ok (s\<lparr>isp_iplist := lf_add_head n k (isp_iplist s)\<rparr>)"
  using assms lf_wf_add_head [of "isp_iplist s" n k]
  by (auto simp: cfg_ok_def entries_ok_def fresh_ok_def lf_off_def)

lemma link_frame [simp]:
  "isp_iplist (link_entry p i s) = isp_iplist s" "mallocs (link_entry p i s) = mallocs s"
  by (simp_all add: link_entry_def set_info_def Let_def)

lemma known_isp [simp]: "known (s\<lparr>isp_iplist := F\<rparr>) ip = known s ip"
  by (simp add: known_def)

lemma add_ip_info_step:
  assumes "fst (get_ip_info e w (ii_sip i) False s) \<noteq> 0" and "take_entry s = (Some p, s1)"
  defines "j \<equiv> (if check_self_ip (ii_ip i) s = 0 then i\<lparr>ii_isself := True\<rparr> else i)"
  defines "s2 \<equiv> link_entry p j s1"
  shows "add_ip_info e w i s = (0,
     if ii_role i = ROLE_CS then
       let s3 = s2\<lparr>isp_iplist := lf_add_head (ByIsp p) (unat (ii_isp i)) (isp_iplist s2)\<rparr> in
       if ii_archive_isp i \<noteq> ISP_FCS
       then s3\<lparr>isp_iplist := lf_add_head (ByArchive p) (unat (ii_archive_isp i)) (isp_iplist s3)\<rparr> else s3
     else s2)"
  unfolding add_ip_info_def s2_def j_def link_entry_def using assms(1,2)
  by (simp add: Let_def)

lemma add_ip_info_ok:
  assumes ok: "cfg_ok s" and new: "\<not> known s (ii_ip i) \<or> ii_ip i = fst (get_uint32_ip (f_dns w) (ii_sip i))"
  shows "cfg_ok (snd (add_ip_info e w i s))"
proof (cases "fst (get_ip_info e w (ii_sip i) False s) = 0")
  case True
  with ok show ?thesis by (simp add: add_ip_info_def)
next
  case False
  have nk: "\<not> known s (ii_ip i)"
    using new lookup_unknown [of e "ii_ip i" _ "ii_sip i" s] False
    by (fastforce simp: get_ip_info_def split: prod.splits)
  show ?thesis
  proof (cases "take_entry s")
    case (Pair op s1)
    show ?thesis
    proof (cases op)
      case None
      with Pair have "take_entry s = (None, s1)" by simp
      with False ok show ?thesis using take_entry_none [of s s1]
        by (simp add: add_ip_info_def Let_def)
    next
      case (Some p)
      with Pair have t: "take_entry s = (Some p, s1)" by simp
      note te = take_entry_ok [OF ok t]
      let ?j = "if check_self_ip (ii_ip i) s = 0 then i\<lparr>ii_isself := True\<rparr> else i"
      have ipj: "ii_ip ?j = ii_ip i" by simp
      have "\<not> known s1 (ii_ip i)" using nk te(5,7) by (auto simp: known_def)
      then have l: "cfg_ok (link_entry p ?j s1)"
        using link_entry_ok(1) [OF te(1,2,6), of ?j] by simp
      let ?s3 = "(link_entry p ?j s1)\<lparr>isp_iplist := lf_add_head (ByIsp p) (unat (ii_isp i)) (isp_iplist s1)\<rparr>"
      have n: "x \<in> {ByIsp p, ByArchive p} \<Longrightarrow> x \<notin> ByIsp ` set (mallocs s1) \<union> ByArchive ` set (mallocs s1)" for x
        using te(6) by auto
      have s3: "cfg_ok ?s3"
        using isp_add_ok [OF l, of "ByIsp p", unfolded link_frame, OF te(3) n] by simp
      have off: "lf_off (ByArchive p) (isp_iplist ?s3)"
        using te(4) by (simp add: lf_off_def)
      have m3: "mallocs ?s3 = mallocs s1" by simp
      have "cfg_ok (?s3\<lparr>isp_iplist := lf_add_head (ByArchive p) k (isp_iplist ?s3)\<rparr>)" for k
        using isp_add_ok [OF s3 off, unfolded m3, OF n] by simp
      with l s3 show ?thesis
        unfolding add_ip_info_step [OF False t] by (simp add: Let_def)
    qed
  qed
qed

lemma set_info_ok:
  assumes "cfg_ok s" and "ii_ip i = ii_ip (infos s p)"
  shows "cfg_ok (set_info p i s)"
proof -
  have ip: "ii_ip (infos (set_info p i s) q) = ii_ip (infos s q)" for q
    using assms(2) by (simp add: set_info_def)
  have f: "hlists (set_info p i s) = hlists s" "mallocs (set_info p i s) = mallocs s"
    "isp_iplist (set_info p i s) = isp_iplist s" "hothome (set_info p i s) = hothome s"
    "csinfo (set_info p i s) = csinfo s"
    by (simp_all add: set_info_def)
  show ?thesis
    using assms(1) by (simp add: cfg_ok_def entries_ok_def fresh_ok_def ip f)
qed

lemma add_dir_ip [simp]: "ii_ip (add_dir d i) = ii_ip i"
  by (simp add: add_dir_def)

lemma cs_find_None: "cs_find cs ip = None \<longleftrightarrow> ip \<notin> set (map (cd_ip cs) [0..<cd_index cs])"
  by (auto simp: cs_find_def find_None_iff)

lemma cs_append_ok:
  assumes "cs_ok cs" and "cs_find cs ip = None"
  shows "cs_ok (cs_append ip isp archive_isp cs)"
proof -
  have "map ((cd_ip cs)(cd_index cs := ip)) [0..<cd_index cs] = map (cd_ip cs) [0..<cd_index cs]"
    by (rule map_cong) auto
  then have "distinct (map ((cd_ip cs)(cd_index cs := ip)) [0..<Suc (cd_index cs)])"
    using assms by (simp add: cs_ok_def cs_find_None)
  moreover have "0 < MAXCS_ONEGRUOP" by (simp add: MAXCS_ONEGRUOP_def)
  ultimately show ?thesis
    using assms(1) by (auto simp: cs_append_def cs_ok_def Let_def)
qed

lemma cs_update_ok:
  assumes "cs_ok cs" and "cs_update ip isp ar cs = Some (cs', r)"
  shows "cs_ok cs'"
proof (cases "cs_find cs ip")
  case None
  with assms show ?thesis by (auto simp: cs_update_def cs_append_ok)
next
  case (Some i)
  with assms show ?thesis by (auto simp: cs_update_def cs_ok_def split: if_splits)
qed

lemma set_csinfo_ok: "cfg_ok s \<Longrightarrow> cs_ok cs \<Longrightarrow> cfg_ok (set_csinfo d1 d2 cs s)"
  by (auto simp: cfg_ok_def set_csinfo_def entries_ok_def fresh_ok_def)

lemma set_csinfo_frame [simp]:
  "infos (set_csinfo d1 d2 cs s) = infos s" "hlists (set_csinfo d1 d2 cs s) = hlists s"
  "isp_iplist (set_csinfo d1 d2 cs s) = isp_iplist s" "mallocs (set_csinfo d1 d2 cs s) = mallocs s"
  by (simp_all add: set_csinfo_def)

lemma re_archive_ok:
  assumes "cfg_ok s" and "p \<in> set (hlists s h)"
  shows "cfg_ok (s\<lparr>isp_iplist := lf_add_head (ByArchive p) k (lf_del (ByArchive p) (isp_iplist s))\<rparr>)"
proof -
  have p: "p \<notin> set (mallocs s)"
    using cfg_okD(2) [OF assms(1)] assms(2) by (auto simp: fresh_ok_def lf_off_def)
  have "cfg_ok (s\<lparr>isp_iplist := lf_del (ByArchive p) (isp_iplist s)\<rparr>)"
    using assms(1) by (auto simp: cfg_ok_def entries_ok_def fresh_ok_def lf_off_del_other)
  from isp_add_ok [OF this, of "ByArchive p" k] p show ?thesis by auto
qed

lemma get_ip_info_unfold:
  "\<exists>s_ip. get_ip_info e w sip type s = get_ip_info_by_uint e (fst (get_uint32_ip (f_dns w) sip)) type s_ip sip s"
  by (auto simp: get_ip_info_def split: prod.split)

lemma get_ip_info_found:
  assumes "get_ip_info e w sip type s = (r, Some p)"
  shows "r = 0" and "\<exists>h. p \<in> set (hlists s h)"
proof -
  obtain s_ip where "get_ip_info_by_uint e (fst (get_uint32_ip (f_dns w) sip)) type s_ip sip s = (r, Some p)"
    using get_ip_info_unfold [of e w sip type s] assms by auto
  from lookup_found(1,2) [OF this] show "r = 0" "\<exists>h. p \<in> set (hlists s h)" by auto
qed

lemma get_ip_info_none:
  assumes "get_ip_info e w sip False s = (r, None)"
  shows "\<not> known s (fst (get_uint32_ip (f_dns w) sip))"
proof -
  obtain s_ip where g: "get_ip_info_by_uint e (fst (get_uint32_ip (f_dns w) sip)) False s_ip sip s = (r, None)"
    using get_ip_info_unfold [of e w sip False s] assms by auto
  then have "r \<noteq> 0" by (auto simp: get_ip_info_by_uint_def split: option.splits)
  with g lookup_unknown [of e _ s_ip sip s] show ?thesis by (metis fst_conv)
qed

lemma pushcs_ok:
  assumes ok: "cfg_ok s"
  shows "cfg_ok (pushcs e w sip isp archive_isp d1 d2 s)"
proof -
  let ?sip = "strtrim sip"
  obtain ip o_s_ip where ip: "get_uint32_ip (f_dns w) ?sip = (ip, o_s_ip)" by fastforce
  show ?thesis
  proof (cases "ip = INADDR_NONE \<or> cs_update ip isp archive_isp (csinfo s d1 d2) = None")
    case True
    with ok ip show ?thesis by (auto simp: pushcs_def Let_def)
  next
    case False
    then obtain cs reuse where u: "cs_update ip isp archive_isp (csinfo s d1 d2) = Some (cs, reuse)" by auto
    let ?s = "set_csinfo d1 d2 cs s"
    have s: "cfg_ok ?s" using ok cs_update_ok [OF cfg_okD(5) [OF ok] u] by (rule set_csinfo_ok)
    obtain r op where g: "get_ip_info e w ?sip False ?s = (r, op)" by fastforce
    show ?thesis
    proof (cases op)
      case None
      have "\<not> known ?s ip" using get_ip_info_none [of e w ?sip ?s r] g None ip by simp
      then have "cfg_ok (snd (add_ip_info e w i ?s))" if "ii_ip i = ip" for i
        using that s by (intro add_ip_info_ok) simp_all
      with False ip u g None show ?thesis by (simp add: pushcs_def Let_def)
    next
      case (Some p)
      obtain b where "p \<in> set (hlists ?s b)" using get_ip_info_found(2) g Some by blast
      then have "cfg_ok (?s\<lparr>isp_iplist := lf_add_head (ByArchive p) (unat archive_isp)
          (lf_del (ByArchive p) (isp_iplist ?s))\<rparr>)" by (rule re_archive_ok [OF s])
      with False ip u g Some s show ?thesis by (simp add: pushcs_def Let_def set_info_ok)
    qed
  qed
qed

lemma fold_ok: "(\<And>s x. cfg_ok s \<Longrightarrow> cfg_ok (f s x)) \<Longrightarrow> cfg_ok s \<Longrightarrow> cfg_ok (foldl f s xs)"
  by (induction xs arbitrary: s) auto

lemma pushinfo_ok: "cfg_ok s \<Longrightarrow> cfg_ok (pushinfo e w ips isp ar d1 d2 s)"
  unfolding pushinfo_def by (rule fold_ok) (auto intro: pushcs_ok)

lemma process_csfile_ok: "cfg_ok s \<Longrightarrow> cfg_ok (snd (process_csfile e w isp ar f s))"
  unfolding process_csfile_def
  by (auto split: option.splits intro!: fold_ok pushinfo_ok)

lemma set_hot_ok: "cfg_ok s \<Longrightarrow> p \<in> set (hlists s h) \<Longrightarrow> cfg_ok (s\<lparr>hothome := p # removeAll p (hothome s)\<rparr>)"
  by (auto simp: cfg_ok_def entries_ok_def fresh_ok_def lf_off_def distinct_removeAll)

lemma process_csfile_hot_ok: "cfg_ok s \<Longrightarrow> cfg_ok (snd (process_csfile_hot e w f s))"
proof -
  have "cfg_ok (case g of (r, None) \<Rightarrow> s | (r, Some p) \<Rightarrow> s\<lparr>hothome := p # removeAll p (hothome s)\<rparr>)"
    if ok: "cfg_ok s" and g: "get_ip_info e w l False s = g" for g l and s :: "'a cfg_state_scheme"
  proof (cases "snd g")
    case (Some p)
    with g have "get_ip_info e w l False s = (fst g, Some p)" by (cases g) simp
    then obtain h where "p \<in> set (hlists s h)" using get_ip_info_found(2) by blast
    with ok Some show ?thesis by (cases g) (auto intro: set_hot_ok)
  qed (use ok in \<open>cases g; simp\<close>)
  then have "cfg_ok (case get_ip_info e w l False s of
      (r, None) \<Rightarrow> s | (r, Some p) \<Rightarrow> s\<lparr>hothome := p # removeAll p (hothome s)\<rparr>)"
    if "cfg_ok s" for l and s :: "'a cfg_state_scheme" using that by blast
  then show "cfg_ok s \<Longrightarrow> ?thesis"
    unfolding process_csfile_hot_def by (cases "f_lines w f") (auto intro!: fold_ok)
qed

lemma process_then_ok:
  assumes "cfg_ok s" and "\<And>s. cfg_ok s \<Longrightarrow> cfg_ok (snd (f s))"
  shows "cfg_ok (snd (case process_csfile e w isp ar x s of (r, s) \<Rightarrow> if r \<noteq> 0 then (-1 :: int, s) else f s))"
  using process_csfile_ok [OF assms(1), of e w isp ar x] assms(2)
  by (cases "process_csfile e w isp ar x s") simp

lemma csinfo_loops_ok:
  "cfg_ok s \<Longrightarrow> cfg_ok (snd (csinfo_loop e w d ds s))"
  "cfg_ok s \<Longrightarrow> cfg_ok (snd (csinfo_archive_loop e w d ds s))"
proof (induction ds arbitrary: s)
  case (Cons x ds)
  { case 1
    from process_then_ok [OF this Cons(1)] Cons(1) [OF this]
    show ?case by (simp add: Let_def split: option.split)
  next
    case 2
    from process_then_ok [OF this Cons(2)] Cons(2) [OF this]
    show ?case by (simp add: Let_def split: option.split prod.split) }
qed simp_all

lemma init_csinfo_archive_ok: "cfg_ok s \<Longrightarrow> cfg_ok (snd (init_csinfo_archive e w s))"
  by (auto simp: init_csinfo_archive_def csinfo_loops_ok split: option.splits)

lemma init_csinfo_hot_ok: "cfg_ok s \<Longrightarrow> cfg_ok (snd (init_csinfo_hot e w s))"
  by (auto simp: init_csinfo_hot_def split: option.splits
      intro!: init_csinfo_archive_ok fold_ok process_csfile_hot_ok)

lemma init_csinfo_ok: "cfg_ok s \<Longrightarrow> cfg_ok (snd (init_csinfo e w s))"
proof -
  assume "cfg_ok s"
  then have "cfg_ok (snd (csinfo_loop e w d ds s))" for d ds by (rule csinfo_loops_ok)
  then have "csinfo_loop e w d ds s = (r, s') \<Longrightarrow> cfg_ok s'" for d ds r s' by (metis snd_conv)
  with \<open>cfg_ok s\<close> show ?thesis
    by (auto simp: init_csinfo_def Let_def split: option.splits prod.splits intro!: init_csinfo_hot_ok)
qed

lemma server_info_ip: "ii_ip (server_info w n isp ar r) = fst (get_uint32_ip (f_dns w) (ii_sip (server_info w n isp ar r)))"
  by (simp add: server_info_def Let_def split: prod.split)

lemma init_fcs_ok: "cfg_ok s \<Longrightarrow> cfg_ok (snd (init_fcs e w isp s))"
proof -
  have f: "cfg_ok (s\<lparr>fcslist := F\<rparr>)" if "cfg_ok s" for F and s :: "'a cfg_state_scheme"
    using that by (auto simp: cfg_ok_def entries_ok_def fresh_ok_def)
  have "cfg_ok (init_fcs_line e w isp l s)" if "cfg_ok s" for l and s :: "'a cfg_state_scheme"
    using that server_info_ip by (auto simp: init_fcs_line_def Let_def intro!: add_ip_info_ok f)
  then show "cfg_ok s \<Longrightarrow> ?thesis"
    by (auto simp: init_fcs_def Let_def split: option.splits intro!: fold_ok)
qed

lemma init_servers_ok: "cfg_ok s \<Longrightarrow> cfg_ok (snd (init_servers e w isp r vs s))"
proof (induction vs arbitrary: s)
  case (Cons v vs)
  from Cons.prems server_info_ip [of w v] have "cfg_ok (snd (add_ip_info e w (server_info w v isp UNKNOW_ISP r) s))"
    by (intro add_ip_info_ok) auto
  with Cons show ?case by (simp add: Let_def)
qed simp

lemma init_cs_isp_ok: "cfg_ok s \<Longrightarrow> cfg_ok (init_cs_isp e w s)"
proof -
  have n: "cfg_ok (s\<lparr>ispname := F\<rparr>) = cfg_ok s" for F and s :: "'a cfg_state_scheme"
    by (auto simp: cfg_ok_def entries_ok_def fresh_ok_def)
  have "cfg_ok (add_isp_name e w s v)" if "cfg_ok s" for v and s :: "'a cfg_state_scheme"
    using that by (auto simp: add_isp_name_def Let_def n split: option.splits intro!: init_fcs_ok)
  then show "cfg_ok s \<Longrightarrow> ?thesis"
    by (auto simp: init_cs_isp_def Let_def n intro!: fold_ok)
qed

lemma release_entry_ok: "cfg_ok s \<Longrightarrow> p \<in> set (hlists s h) \<Longrightarrow> cfg_ok (release_entry p s)"
  using lf_wf_add_head [of "lf_del p (hlists s)" p IpHome]
  by (auto simp: cfg_ok_def entries_ok_def fresh_ok_def release_entry_def unlink_all_def Let_def
      lf_off_def distinct_removeAll)

lemma release_entry_member:
  "q \<in> set (hlists s h) \<Longrightarrow> \<exists>h. q \<in> set (hlists (release_entry p s) h)"
  by (cases "q = p") (auto simp: release_entry_def unlink_all_def Let_def intro: exI [of _ IpHome] exI [of _ h])

lemma release_fold_ok:
  "cfg_ok s \<Longrightarrow> \<forall>p \<in> set ps. \<exists>h. p \<in> set (hlists s h) \<Longrightarrow> cfg_ok (foldl (\<lambda>s p. release_entry p s) s ps)"
proof (induction ps arbitrary: s)
  case (Cons p ps)
  then obtain h where "p \<in> set (hlists s h)" by auto
  with Cons.prems(1) have "cfg_ok (release_entry p s)" by (rule release_entry_ok)
  moreover have "\<forall>q \<in> set ps. \<exists>h. q \<in> set (hlists (release_entry p s) h)"
    using Cons.prems(2) release_entry_member by (metis list.set_intros(2))
  ultimately show ?case using Cons.IH by simp
qed simp

lemma release_all_ok: "cfg_ok s \<Longrightarrow> cfg_ok (release_all s)"
  unfolding release_all_def
  by (rule fold_ok) (auto simp: release_bucket_def intro!: release_fold_ok)

lemma do_ip_off_line_ok: "cfg_ok s \<Longrightarrow> cfg_ok (do_ip_off_line e ip t s)"
proof -
  have f: "cfg_ok (s\<lparr>self_stat := x\<rparr>) = cfg_ok s" "cfg_ok (s\<lparr>self_offline_time := y\<rparr>) = cfg_ok s"
    for x y and s :: "'a cfg_state_scheme"
    by (auto simp: cfg_ok_def entries_ok_def fresh_ok_def)
  have "cfg_ok (case g of (r, None) \<Rightarrow> s | (r, Some p) \<Rightarrow> set_info p ((infos s p)\<lparr>ii_offline := b\<rparr>) s)"
    if "cfg_ok s" for g :: "int \<times> ptr option" and b and s :: "'a cfg_state_scheme"
    using that by (auto split: prod.splits option.splits intro!: set_info_ok)
  then show "cfg_ok s \<Longrightarrow> ?thesis" by (simp add: do_ip_off_line_def Let_def f)
qed

lemma refresh_offline_ok: "cfg_ok s \<Longrightarrow> cfg_ok (refresh_offline e s)"
  by (auto simp: refresh_offline_def intro!: fold_ok do_ip_off_line_ok)

lemma reload_cfg_ok:
  assumes "cfg_ok s"
  shows "cfg_ok (snd (reload_cfg e w s))"
proof -
  have z: "cs_ok zero_cs" by (simp add: cs_ok_def zero_cs_def MAXCS_ONEGRUOP_def)
  let ?s0 = "release_all (s\<lparr>wrlocked := True, csinfo := (\<lambda>_ _. zero_cs)\<rparr>)"
  have "cfg_ok (s\<lparr>wrlocked := True, csinfo := (\<lambda>_ _. zero_cs)\<rparr>)"
    using assms z by (auto simp: cfg_ok_def entries_ok_def fresh_ok_def)
  then have 0: "cfg_ok (init_cs_isp e w ?s0)" by (intro init_cs_isp_ok release_all_ok)
  have l: "cfg_ok (s\<lparr>wrlocked := b\<rparr>) = cfg_ok s" for b and s :: "'a cfg_state_scheme"
    by (auto simp: cfg_ok_def entries_ok_def fresh_ok_def)
  obtain r1 s1 where 1: "init_csinfo e w (init_cs_isp e w ?s0) = (r1, s1)" by fastforce
  obtain r2 s2 where 2: "init_tracker e w s1 = (r2, s2)" by fastforce
  obtain r3 s3 where 3: "init_fcs e w ISP_FCS s2 = (r3, s3)" by fastforce
  obtain r4 s4 where 4: "init_voss e w s3 = (r4, s4)" by fastforce
  have "cfg_ok s1" using init_csinfo_ok [OF 0, of e w] 1 by simp
  moreover from this have "cfg_ok s2" using init_servers_ok 2 by (metis init_tracker_def snd_conv)
  moreover from this have "cfg_ok s3" using init_fcs_ok [of s2 e w ISP_FCS] 3 by simp
  moreover from this have "cfg_ok s4"
    using init_servers_ok [of s3 e w ISP_VOSS ROLE_VOSS_MASTER "conf w ''voss_server_ip''"] 4
    by (auto simp: init_voss_def Let_def split: prod.splits if_splits)
  ultimately show ?thesis using assms
    by (simp add: reload_cfg_def Let_def 1 2 3 4 refresh_offline_ok l)
qed

section \<open>What the operations achieve\<close>

lemma add_ip_info_known:
  assumes ok: "cfg_ok s" and new: "fst (get_ip_info e w (ii_sip i) False s) \<noteq> 0" and home: "hlists s IpHome \<noteq> []"
  shows "fst (add_ip_info e w i s) = 0" and "known (snd (add_ip_info e w i s)) (ii_ip i)"
    and "known s ip \<Longrightarrow> known (snd (add_ip_info e w i s)) ip"
proof -
  obtain p ps where h: "hlists s IpHome = p # ps" using home by (cases "hlists s IpHome") auto
  then have t: "take_entry s = (Some p, unlink_all p s)" by (simp add: take_entry_def)
  let ?j = "if check_self_ip (ii_ip i) s = 0 then i\<lparr>ii_isself := True\<rparr> else i"
  let ?l = "link_entry p ?j (unlink_all p s)"
  have st: "fst (add_ip_info e w i s) = 0"
    "known (snd (add_ip_info e w i s)) x = known ?l x" for x
    unfolding add_ip_info_step [OF new t] by (simp_all add: Let_def)
  show "fst (add_ip_info e w i s) = 0" by (rule st)
  have ipj: "ii_ip ?j = ii_ip i" by simp
  show "known (snd (add_ip_info e w i s)) (ii_ip i)"
    unfolding st by (simp add: known_def link_entry_def set_info_def Let_def)
  assume "known s ip"
  then obtain q where q: "q \<in> set (hlists s (Cfg (bucket_of ip)))" "ii_ip (infos s q) = ip"
    by (auto simp: known_def)
  have "p \<in> set (hlists s IpHome)" using h by simp
  with q(1) have "q \<noteq> p" using lf_wf_unique [OF cfg_okD(6) [OF ok]] by blast
  with q have "q \<in> set (hlists ?l (Cfg (bucket_of ip)))" "ii_ip (infos ?l q) = ip"
    by (auto simp: link_entry_def set_info_def unlink_all_def Let_def)
  then have "known ?l ip" unfolding known_def by blast
  then show "known (snd (add_ip_info e w i s)) ip" unfolding st .
qed

lemma release_entry_simps:
  "p \<noteq> q \<Longrightarrow> q \<in> set (hlists (release_entry p s) h) \<longleftrightarrow> q \<in> set (hlists s h)"
  "p \<in> set (hlists (release_entry p s) h) \<longleftrightarrow> h = IpHome"
  by (auto simp: release_entry_def unlink_all_def Let_def)

lemma release_fold_member:
  "q \<in> set (hlists (foldl (\<lambda>s p. release_entry p s) s ps) h) \<longleftrightarrow>
   (if q \<in> set ps then h = IpHome else q \<in> set (hlists s h))"
proof (induction ps arbitrary: s)
  case (Cons p ps)
  show ?case using release_entry_simps(1) [of p q s h] release_entry_simps(2) [of p s h]
    by (auto simp: Cons)
qed simp

lemma release_bucket_member:
  "q \<in> set (hlists (release_bucket s i) h) \<longleftrightarrow>
   (if q \<in> set (hlists s (Cfg i)) then h = IpHome else q \<in> set (hlists s h))"
  unfolding release_bucket_def by (rule release_fold_member)

lemma release_buckets_member:
  assumes "lf_wf (hlists s)"
  shows "q \<in> set (hlists (foldl release_bucket s is) h) \<longleftrightarrow>
   (if \<exists>i \<in> set is. q \<in> set (hlists s (Cfg i)) then h = IpHome else q \<in> set (hlists s h))"
proof (induction "is" arbitrary: h rule: rev_induct)
  case Nil
  then show ?case by simp
next
  case (snoc i js)
  have u: "\<And>h h'. q \<in> set (hlists s h) \<Longrightarrow> q \<in> set (hlists s h') \<Longrightarrow> h = h'"
    using assms by (rule lf_wf_unique)
  show ?case
  proof (cases "\<exists>j \<in> set js. q \<in> set (hlists s (Cfg j))")
    case True
    then show ?thesis by (simp add: release_bucket_member snoc)
  next
    case False
    then show ?thesis using u by (auto simp: release_bucket_member snoc)
  qed
qed

lemma bucket_only:
  assumes "cfg_ok s" and "256 \<le> i"
  shows "hlists s (Cfg i) = []"
proof (rule ccontr)
  assume "hlists s (Cfg i) \<noteq> []"
  then obtain p where "p \<in> set (hlists s (Cfg i))" by (cases "hlists s (Cfg i)") auto
  then have "i = bucket_of (ii_ip (infos s p))" using cfg_okD(1) [OF assms(1)] by (simp add: entries_ok_def)
  with bucket_of_bound [of "ii_ip (infos s p)"] assms(2) show False by simp
qed

lemma release_all_empties:
  assumes "cfg_ok s"
  shows "hlists (release_all s) (Cfg i) = []"
    and "q \<in> set (hlists (release_all s) IpHome) \<longleftrightarrow> (\<exists>h. q \<in> set (hlists s h))"
proof -
  have m: "q \<in> set (hlists (release_all s) h) \<longleftrightarrow>
      (if \<exists>i < 256. q \<in> set (hlists s (Cfg i)) then h = IpHome else q \<in> set (hlists s h))" for q h
    unfolding release_all_def release_buckets_member [OF cfg_okD(6) [OF assms]] by auto
  have b: "q \<in> set (hlists s (Cfg i)) \<Longrightarrow> i < 256" for q i
    using bucket_only [OF assms, of i] by (cases "i < 256") auto
  have "q \<notin> set (hlists (release_all s) (Cfg i))" for q
    using b unfolding m by auto
  then show "hlists (release_all s) (Cfg i) = []" by (metis last_in_set)
  show "q \<in> set (hlists (release_all s) IpHome) \<longleftrightarrow> (\<exists>h. q \<in> set (hlists s h))"
  proof
    assume "\<exists>h. q \<in> set (hlists s h)"
    then obtain h where "q \<in> set (hlists s h)" by blast
    then show "q \<in> set (hlists (release_all s) IpHome)" using b unfolding m by (cases h) auto
  qed (auto simp: m split: if_splits)
qed

text \<open>\<open>refresh_offline\<close> runs after the lock is given back and does not take it again.\<close>

lemma do_ip_off_line_lock [simp]: "wrlocked (do_ip_off_line e ip t s) = wrlocked s"
  by (simp add: do_ip_off_line_def set_info_def Let_def split: prod.split option.split)

lemma refresh_offline_lock [simp]: "wrlocked (refresh_offline e s) = wrlocked s"
proof -
  have "wrlocked (foldl (\<lambda>s ip. do_ip_off_line e ip M_OFFLINE s) s ips) = wrlocked s" for ips
    by (induction ips arbitrary: s) simp_all
  then show ?thesis by (simp add: refresh_offline_def)
qed

lemma reload_unlocks: "reload_cfg e w s = (0, s') \<Longrightarrow> \<not> wrlocked s'"
  by (auto simp: reload_cfg_def Let_def split: prod.splits if_splits)

text \<open>Without the directory of the machine lists the reload fails and keeps the writer lock.\<close>

lemma release_all_lock [simp]: "wrlocked (release_all s) = wrlocked s"
proof -
  have "wrlocked (foldl (\<lambda>s p. release_entry p s) s ps) = wrlocked s" for ps and s :: "'a cfg_state_scheme"
    by (induction ps arbitrary: s) (simp_all add: release_entry_def unlink_all_def Let_def)
  then have "wrlocked (foldl release_bucket s is) = wrlocked s" for "is"
    by (induction "is" arbitrary: s) (simp_all add: release_bucket_def)
  then show ?thesis by (simp add: release_all_def)
qed

lemma reload_no_dir:
  assumes "conf w ''iplist_cs_dir'' = []" and "\<not> lock_failed e M_cfg"
  shows "fst (reload_cfg e w s) = -1" and "wrlocked (snd (reload_cfg e w s))"
proof -
  have c: "conf_value w ''iplist_cs_dir'' = None" using assms(1) by (simp add: conf_value_def)
  have "wrlocked (add_isp_name e w s v) = wrlocked s" for v and s :: "'a cfg_state_scheme"
    by (simp add: add_isp_name_def init_fcs_def c Let_def split: option.split)
  then have "wrlocked (foldl (add_isp_name e w) s vs) = wrlocked s" for vs and s :: "'a cfg_state_scheme"
    by (induction vs arbitrary: s) simp_all
  then have k: "wrlocked (init_cs_isp e w s) = wrlocked s" for s :: "'a cfg_state_scheme"
    by (simp add: init_cs_isp_def Let_def)
  have "init_csinfo e w s = (-1, s)" for s :: "'a cfg_state_scheme" by (simp add: init_csinfo_def c)
  then show "fst (reload_cfg e w s) = -1" "wrlocked (snd (reload_cfg e w s))"
    using assms(2) by (simp_all add: reload_cfg_def Let_def k)
qed

section \<open>Directories of a path\<close>

lemma get_dirs_bounds:
  "get_dir1_dir2 path = Some (d1, d2) \<Longrightarrow> 0 \<le> d1 \<and> d1 < DIR1 \<and> 0 \<le> d2 \<and> d2 < DIR2"
  using crem_bounds by (auto simp: get_dir1_dir2_def Let_def DIR1_def DIR2_def split: option.splits if_splits)

lemma get_dirs_of_path:
  assumes "CHR ''/'' \<notin> set file"
    and "length (pre @ ''/'' @ show_nat a @ ''/'' @ show_nat b @ ''/'' @ file) \<le> 255"
  shows "get_dir1_dir2 (pre @ ''/'' @ show_nat a @ ''/'' @ show_nat b @ ''/'' @ file)
         = Some (int a mod DIR1, int b mod DIR2)"
proof -
  let ?s = "CHR ''/''"
  have nd: "?s \<notin> set (show_nat n)" for n by (rule show_nat_notin) (simp add: is_digit_def chr_code_def)
  let ?p2 = "pre @ ?s # show_nat a"
  let ?p1 = "?p2 @ ?s # show_nat b"
  have 1: "strrchr (?p1 @ ?s # file) ?s = Some (length ?p1)" by (rule strrchr_append) fact
  have 2: "strrchr ?p1 ?s = Some (length ?p2)" by (rule strrchr_append) (rule nd)
  have 3: "strrchr ?p2 ?s = Some (length pre)" by (rule strrchr_append) (rule nd)
  have e: "pre @ ''/'' @ show_nat a @ ''/'' @ show_nat b @ ''/'' @ file = ?p1 @ ?s # file" by simp
  have n: "atoi (show_nat n) = int n" for n using atoi_show_nat [of "[]" n] by simp
  have t: "take 255 (?p1 @ ?s # file) = ?p1 @ ?s # file" using assms(2) by simp
  have d: "take (length ?p1) (?p1 @ ?s # file) = ?p1" "drop (Suc (length ?p2)) ?p1 = show_nat b"
    "take (length ?p2) ?p1 = ?p2" "drop (Suc (length pre)) ?p2 = show_nat a"
    by simp_all
  have c: "crem (int k) 30 = int k mod 30" "\<not> int k mod 30 < 0" for k by (simp_all add: crem_def)
  show ?thesis
    unfolding e get_dir1_dir2_def Let_def t 1 option.case d 2 3 n DIR1_def DIR2_def c(1)
    by (simp only: c(2) simp_thms if_False)
qed

end
