(* ===== verification/TimeStamp.thy ===== *)
theory TimeStamp
  imports IpConfig
begin

text \<open>
  \<open>src/network/vfs_time_stamp.c\<close>: two files of time stamps, one per directory for an FCS,
  one per directory and source domain for a CS.  A file is its cells of eight bytes;
  every offset the code seeks to is a multiple of eight.  The locale \<open>stamp_store\<close> is
  what both give their callers: a stamp that only moves forward.
\<close>

record stamp_file =
  sf_cell :: "nat \<Rightarrow> int"
  sf_cells :: nat

definition DOMAIN_PREFIX :: string where "DOMAIN_PREFIX = ''fcs''"

definition sf_truncate :: "nat \<Rightarrow> stamp_file \<Rightarrow> stamp_file" where
  "sf_truncate n f = \<lparr>sf_cell = (\<lambda>i. if i < sf_cells f \<and> i < n then sf_cell f i else 0), sf_cells = n\<rparr>"

text \<open>\<open>lseek\<close> to a cell and \<open>read\<close> or \<open>write\<close> it.\<close>

definition sf_read :: "int \<Rightarrow> stamp_file \<Rightarrow> int" where
  "sf_read pos f = (if pos < 0 \<or> sf_cells f \<le> nat pos then -1 else sf_cell f (nat pos))"

definition sf_write :: "env \<Rightarrow> int \<Rightarrow> int \<Rightarrow> stamp_file \<Rightarrow> int \<times> stamp_file" where
  "sf_write e pos v f =
     (if pos < 0 \<or> \<not> e_write e then (-1, f)
      else (0, \<lparr>sf_cell = (\<lambda>i. if i = nat pos then v else if i < sf_cells f then sf_cell f i else 0),
                sf_cells = max (sf_cells f) (nat pos + 1)\<rparr>))"

definition get_dimain_int :: "string \<Rightarrow> int" where
  "get_dimain_int domain =
     (case strstr domain DOMAIN_PREFIX of None \<Rightarrow> -1
      | Some k \<Rightarrow> atoi (drop (k + length DOMAIN_PREFIX) domain))"

section \<open>The stamps of an FCS\<close>

definition init_fcs_time_stamp :: "stamp_file \<Rightarrow> stamp_file" where
  "init_fcs_time_stamp f = sf_truncate (nat (DIR1 * DIR2)) f"

definition get_fcs_time_stamp_by_int :: "int \<Rightarrow> int \<Rightarrow> stamp_file \<Rightarrow> int" where
  "get_fcs_time_stamp_by_int dir1 dir2 f = sf_read (dir1 * DIR2 + dir2) f"

definition get_fcs_time_stamp :: "t_task_base \<Rightarrow> stamp_file \<Rightarrow> int" where
  "get_fcs_time_stamp base f =
     (case get_dir1_dir2 (tb_filename base) of None \<Rightarrow> -1
      | Some (dir1, dir2) \<Rightarrow> get_fcs_time_stamp_by_int dir1 dir2 f)"

definition set_fcs_time_stamp_by_int :: "env \<Rightarrow> int \<Rightarrow> int \<Rightarrow> int \<Rightarrow> stamp_file \<Rightarrow> int \<times> stamp_file" where
  "set_fcs_time_stamp_by_int e dir1 dir2 val f = sf_write e (dir1 * DIR2 + dir2) val f"

definition set_fcs_time_stamp :: "env \<Rightarrow> t_task_base \<Rightarrow> stamp_file \<Rightarrow> int \<times> stamp_file" where
  "set_fcs_time_stamp e base f =
     (let val = tb_ctime base; oldval = get_fcs_time_stamp base f in
      if oldval \<ge> val then (0, f)
      else case get_dir1_dir2 (tb_filename base) of None \<Rightarrow> (-1, f)
         | Some (dir1, dir2) \<Rightarrow> set_fcs_time_stamp_by_int e dir1 dir2 val f)"

section \<open>The stamps of a CS\<close>

definition init_cs_time_stamp :: "stamp_file \<Rightarrow> stamp_file" where
  "init_cs_time_stamp f = sf_truncate (nat (MAXFCS * DIR1 * DIR2)) f"

definition cs_cell :: "int \<Rightarrow> int \<Rightarrow> int \<Rightarrow> int" where
  "cs_cell dir1 dir2 domain =
     (let domain = (if domain \<ge> MAXFCS then domain mod MAXFCS else domain)
      in (dir1 * DIR2 + dir2) * MAXFCS + domain)"

definition get_cs_time_stamp_by_int :: "int \<Rightarrow> int \<Rightarrow> int \<Rightarrow> stamp_file \<Rightarrow> int" where
  "get_cs_time_stamp_by_int dir1 dir2 domain f = sf_read (cs_cell dir1 dir2 domain) f"

definition get_cs_time_stamp :: "t_task_base \<Rightarrow> stamp_file \<Rightarrow> int" where
  "get_cs_time_stamp base f =
     (case get_dir1_dir2 (tb_filename base) of None \<Rightarrow> -1
      | Some (dir1, dir2) \<Rightarrow>
        let domain = get_dimain_int (tb_src_domain base)
        in if domain < 0 then -1 else get_cs_time_stamp_by_int dir1 dir2 domain f)"

definition set_cs_time_stamp_by_int ::
  "env \<Rightarrow> server_stat \<Rightarrow> int \<Rightarrow> int \<Rightarrow> int \<Rightarrow> int \<Rightarrow> stamp_file \<Rightarrow> int \<times> stamp_file" where
  "set_cs_time_stamp_by_int e stat dir1 dir2 domain tval f =
     (if stat \<noteq> ON_LINE then (0, f) else sf_write e (cs_cell dir1 dir2 domain) tval f)"

definition set_cs_time_stamp :: "env \<Rightarrow> server_stat \<Rightarrow> t_task_base \<Rightarrow> stamp_file \<Rightarrow> int \<times> stamp_file" where
  "set_cs_time_stamp e stat base f =
     (let tval = tb_ctime base; oldval = get_cs_time_stamp base f in
      if oldval \<ge> tval then (0, f)
      else case get_dir1_dir2 (tb_filename base) of None \<Rightarrow> (-1, f)
         | Some (dir1, dir2) \<Rightarrow>
           let domain = get_dimain_int (tb_src_domain base)
           in if domain < 0 then (-1, f)
              else set_cs_time_stamp_by_int e stat dir1 dir2 domain tval f)"

section \<open>The interface\<close>

definition newer :: "('k \<Rightarrow> 's \<Rightarrow> int) \<Rightarrow> ('k \<Rightarrow> int \<Rightarrow> 's \<Rightarrow> 's) \<Rightarrow> 's \<Rightarrow> 'k \<times> int \<Rightarrow> 's" where
  "newer rd wr s kv = (if rd (fst kv) s \<ge> snd kv then s else wr (fst kv) (snd kv) s)"

locale stamp_store =
  fixes rd :: "'k \<Rightarrow> 's \<Rightarrow> int"
    and wr :: "'k \<Rightarrow> int \<Rightarrow> 's \<Rightarrow> 's"
    and key :: "'k \<Rightarrow> bool"
    and ok :: "'s \<Rightarrow> bool"
  assumes rd_wr: "ok s \<Longrightarrow> key k \<Longrightarrow> rd k (wr k v s) = v"
    and rd_wr_other: "ok s \<Longrightarrow> key k \<Longrightarrow> key j \<Longrightarrow> j \<noteq> k \<Longrightarrow> rd j (wr k v s) = rd j s"
    and ok_wr: "ok s \<Longrightarrow> key k \<Longrightarrow> ok (wr k v s)"
begin

lemma newer_ok: "ok s \<Longrightarrow> key (fst kv) \<Longrightarrow> ok (newer rd wr s kv)"
  by (simp add: newer_def ok_wr)

lemma newer_rd:
  "ok s \<Longrightarrow> key (fst kv) \<Longrightarrow> key j \<Longrightarrow>
   rd j (newer rd wr s kv) = (if j = fst kv then max (rd j s) (snd kv) else rd j s)"
  by (auto simp: newer_def rd_wr rd_wr_other)

lemma newer_all_ok: "ok s \<Longrightarrow> \<forall>kv \<in> set us. key (fst kv) \<Longrightarrow> ok (foldl (newer rd wr) s us)"
  by (induction us arbitrary: s) (simp_all add: newer_ok)

text \<open>The stamp is the newest update, in whatever order the updates come.\<close>

lemma newest:
  "\<lbrakk>ok s; \<forall>kv \<in> set us. key (fst kv); key j\<rbrakk> \<Longrightarrow>
   rd j (foldl (newer rd wr) s us) = foldl max (rd j s) (map snd (filter (\<lambda>kv. fst kv = j) us))"
  by (induction us arbitrary: s) (simp_all add: newer_ok newer_rd)

lemma newest_bound:
  assumes "ok s" and "\<forall>kv \<in> set us. key (fst kv)" and "key j"
  shows "rd j s \<le> rd j (foldl (newer rd wr) s us)"
    and "(j, v) \<in> set us \<Longrightarrow> v \<le> rd j (foldl (newer rd wr) s us)"
proof -
  have m: "a \<le> foldl max a xs" "v \<in> set xs \<Longrightarrow> v \<le> foldl max a xs" for a v :: int and xs
    by (induction xs arbitrary: a) (auto, meson max.boundedE, meson max.boundedE)
  show "rd j s \<le> rd j (foldl (newer rd wr) s us)"
    unfolding newest [OF assms] by (rule m)
  assume "(j, v) \<in> set us"
  then have "v \<in> set (map snd (filter (\<lambda>kv. fst kv = j) us))" by force
  then show "v \<le> rd j (foldl (newer rd wr) s us)"
    unfolding newest [OF assms] by (rule m)
qed

end

text \<open>A directory, and a directory with a source domain.\<close>

definition dir_key :: "int \<times> int \<Rightarrow> bool" where
  "dir_key k \<longleftrightarrow> 0 \<le> fst k \<and> fst k < DIR1 \<and> 0 \<le> snd k \<and> snd k < DIR2"

definition dom_key :: "(int \<times> int) \<times> int \<Rightarrow> bool" where
  "dom_key k \<longleftrightarrow> dir_key (fst k) \<and> 0 \<le> snd k \<and> snd k < MAXFCS"

definition fcs_rd :: "int \<times> int \<Rightarrow> stamp_file \<Rightarrow> int" where
  "fcs_rd k f = get_fcs_time_stamp_by_int (fst k) (snd k) f"

definition cs_rd :: "(int \<times> int) \<times> int \<Rightarrow> stamp_file \<Rightarrow> int" where
  "cs_rd k f = get_cs_time_stamp_by_int (fst (fst k)) (snd (fst k)) (snd k) f"

definition fcs_wr :: "env \<Rightarrow> int \<times> int \<Rightarrow> int \<Rightarrow> stamp_file \<Rightarrow> stamp_file" where
  "fcs_wr e k v f = snd (set_fcs_time_stamp_by_int e (fst k) (snd k) v f)"

definition cs_wr :: "env \<Rightarrow> (int \<times> int) \<times> int \<Rightarrow> int \<Rightarrow> stamp_file \<Rightarrow> stamp_file" where
  "cs_wr e k v f = snd (set_cs_time_stamp_by_int e ON_LINE (fst (fst k)) (snd (fst k)) (snd k) v f)"

definition fcs_file_ok :: "stamp_file \<Rightarrow> bool" where
  "fcs_file_ok f \<longleftrightarrow> sf_cells f = nat (DIR1 * DIR2)"

definition cs_file_ok :: "stamp_file \<Rightarrow> bool" where
  "cs_file_ok f \<longleftrightarrow> sf_cells f = nat (MAXFCS * DIR1 * DIR2)"

lemma sf_read_write:
  assumes "e_write e" and "0 \<le> pos" and "nat pos < sf_cells f"
  shows "sf_read q (snd (sf_write e pos v f)) = (if q = pos then v else sf_read q f)"
    and "sf_cells (snd (sf_write e pos v f)) = sf_cells f"
  using assms by (auto simp: sf_read_def sf_write_def nat_eq_iff2)

lemma mixed_radix:
  assumes "a * m + b = c * m + (d :: int)" and "0 \<le> b" and "b < m" and "0 \<le> d" and "d < m"
  shows "a = c \<and> b = d"
proof -
  have "(a * m + b) div m = a" "(c * m + d) div m = c" using assms(2-5) by simp_all
  with assms(1) show ?thesis by simp
qed

lemma dir_cell:
  assumes "dir_key k"
  shows "0 \<le> fst k * DIR2 + snd k" and "fst k * DIR2 + snd k < DIR1 * DIR2"
    and "dir_key j \<Longrightarrow> fst j * DIR2 + snd j = fst k * DIR2 + snd k \<Longrightarrow> j = k"
  using assms mixed_radix [of "fst j" DIR2 "snd j" "fst k" "snd k"]
  by (auto simp: dir_key_def DIR1_def DIR2_def prod_eq_iff)

lemma dom_cell:
  assumes "dom_key k"
  defines "c \<equiv> \<lambda>k. cs_cell (fst (fst k)) (snd (fst k)) (snd k)"
  shows "0 \<le> c k" and "c k < MAXFCS * DIR1 * DIR2"
    and "dom_key j \<Longrightarrow> c j = c k \<Longrightarrow> j = k"
proof -
  have c: "c k = (fst (fst k) * DIR2 + snd (fst k)) * MAXFCS + snd k" if "dom_key k" for k
    using that by (simp add: c_def cs_cell_def dom_key_def Let_def)
  have b: "0 \<le> fst (fst k) * DIR2 + snd (fst k)" "fst (fst k) * DIR2 + snd (fst k) < DIR1 * DIR2"
    using dir_cell(1,2) [of "fst k"] assms(1) by (simp_all add: dom_key_def)
  show "0 \<le> c k" "c k < MAXFCS * DIR1 * DIR2"
    using b assms(1) unfolding c [OF assms(1)] by (simp_all add: dom_key_def DIR1_def DIR2_def MAXFCS_def)
  assume j: "dom_key j" and e: "c j = c k"
  then have "fst (fst j) * DIR2 + snd (fst j) = fst (fst k) * DIR2 + snd (fst k)" "snd j = snd k"
    using mixed_radix [of "fst (fst j) * DIR2 + snd (fst j)" MAXFCS "snd j"
        "fst (fst k) * DIR2 + snd (fst k)" "snd k"] j assms(1)
    unfolding c [OF j] c [OF assms(1)] by (auto simp: dom_key_def)
  then show "j = k" using dir_cell(3) [of "fst k" "fst j"] j assms(1)
    by (simp add: dom_key_def prod_eq_iff)
qed

interpretation fcs: stamp_store fcs_rd "fcs_wr (calm\<lparr>e_now := n\<rparr>)" dir_key fcs_file_ok for n
proof
  fix s k j v assume f: "fcs_file_ok s" and k: "dir_key k"
  have w: "e_write (calm\<lparr>e_now := n\<rparr>)" by (simp add: calm_def)
  have c: "0 \<le> fst k * DIR2 + snd k" "nat (fst k * DIR2 + snd k) < sf_cells s"
    using dir_cell(1,2) [OF k] f by (auto simp: fcs_file_ok_def)
  note rw = sf_read_write [OF w c]
  show "fcs_rd k (fcs_wr (calm\<lparr>e_now := n\<rparr>) k v s) = v" "fcs_file_ok (fcs_wr (calm\<lparr>e_now := n\<rparr>) k v s)"
    using f by (simp_all add: fcs_rd_def fcs_wr_def get_fcs_time_stamp_by_int_def
        set_fcs_time_stamp_by_int_def fcs_file_ok_def rw)
  assume "dir_key j" "j \<noteq> k"
  then have "fst j * DIR2 + snd j \<noteq> fst k * DIR2 + snd k" using dir_cell(3) [OF k, of j] by blast
  then show "fcs_rd j (fcs_wr (calm\<lparr>e_now := n\<rparr>) k v s) = fcs_rd j s"
    by (simp add: fcs_rd_def fcs_wr_def get_fcs_time_stamp_by_int_def
        set_fcs_time_stamp_by_int_def rw)
qed

interpretation cs: stamp_store cs_rd "cs_wr (calm\<lparr>e_now := n\<rparr>)" dom_key cs_file_ok for n
proof
  fix s k j v assume f: "cs_file_ok s" and k: "dom_key k"
  have w: "e_write (calm\<lparr>e_now := n\<rparr>)" by (simp add: calm_def)
  have c: "0 \<le> cs_cell (fst (fst k)) (snd (fst k)) (snd k)"
    "nat (cs_cell (fst (fst k)) (snd (fst k)) (snd k)) < sf_cells s"
    using dom_cell(1,2) [OF k] f by (auto simp: cs_file_ok_def)
  note rw = sf_read_write [OF w c]
  show "cs_rd k (cs_wr (calm\<lparr>e_now := n\<rparr>) k v s) = v" "cs_file_ok (cs_wr (calm\<lparr>e_now := n\<rparr>) k v s)"
    using f by (simp_all add: cs_rd_def cs_wr_def get_cs_time_stamp_by_int_def
        set_cs_time_stamp_by_int_def cs_file_ok_def rw)
  assume "dom_key j" "j \<noteq> k"
  then have "cs_cell (fst (fst j)) (snd (fst j)) (snd j) \<noteq> cs_cell (fst (fst k)) (snd (fst k)) (snd k)"
    using dom_cell(3) [OF k, of j] by blast
  then show "cs_rd j (cs_wr (calm\<lparr>e_now := n\<rparr>) k v s) = cs_rd j s"
    by (simp add: cs_rd_def cs_wr_def get_cs_time_stamp_by_int_def
        set_cs_time_stamp_by_int_def rw)
qed

section \<open>The code uses it\<close>

definition fcs_key :: "t_task_base \<Rightarrow> (int \<times> int) option" where
  "fcs_key base = get_dir1_dir2 (tb_filename base)"

definition cs_key :: "t_task_base \<Rightarrow> ((int \<times> int) \<times> int) option" where
  "cs_key base = (case get_dir1_dir2 (tb_filename base) of None \<Rightarrow> None
     | Some d \<Rightarrow> if get_dimain_int (tb_src_domain base) < 0 then None
                 else Some (d, get_dimain_int (tb_src_domain base) mod MAXFCS))"

lemma fcs_key_dir: "fcs_key base = Some k \<Longrightarrow> dir_key k"
  using get_dirs_bounds [of "tb_filename base" "fst k" "snd k"] by (simp add: fcs_key_def dir_key_def)

lemma cs_key_dom: "cs_key base = Some k \<Longrightarrow> dom_key k"
  using fcs_key_dir [of base]
  by (auto simp: cs_key_def fcs_key_def dom_key_def MAXFCS_def split: option.splits if_splits)

lemma set_fcs_newer:
  assumes "fcs_key base = Some k"
  shows "snd (set_fcs_time_stamp e base f) = newer fcs_rd (fcs_wr e) f (k, tb_ctime base)"
  using assms by (cases k) (simp add: set_fcs_time_stamp_def get_fcs_time_stamp_def newer_def fcs_key_def
      fcs_rd_def fcs_wr_def Let_def)

lemma cs_cell_mod: "0 \<le> d \<Longrightarrow> cs_cell d1 d2 (d mod MAXFCS) = cs_cell d1 d2 d"
  by (simp add: cs_cell_def Let_def MAXFCS_def)

lemma set_cs_newer:
  assumes "cs_key base = Some k"
  shows "snd (set_cs_time_stamp e ON_LINE base f) = newer cs_rd (cs_wr e) f (k, tb_ctime base)"
  using assms
  by (auto simp: set_cs_time_stamp_def get_cs_time_stamp_def newer_def cs_key_def
      cs_rd_def cs_wr_def Let_def get_cs_time_stamp_by_int_def set_cs_time_stamp_by_int_def cs_cell_mod
      split: option.splits if_splits)

lemma set_cs_not_online: "stat \<noteq> ON_LINE \<Longrightarrow> snd (set_cs_time_stamp e stat base f) = f"
  by (simp add: set_cs_time_stamp_def set_cs_time_stamp_by_int_def Let_def split: option.split prod.split)

text \<open>A sequence of tasks.\<close>

lemma fcs_newest_tasks:
  assumes "fcs_file_ok f" and "dir_key d" and "\<forall>b \<in> set bs. fcs_key b \<noteq> None"
  shows "fcs_rd d (foldl (\<lambda>f b. snd (set_fcs_time_stamp calm b f)) f bs) =
    foldl max (fcs_rd d f) (map tb_ctime (filter (\<lambda>b. fcs_key b = Some d) bs))"
proof -
  have c: "calm\<lparr>e_now := 1000\<rparr> = calm" by (simp add: calm_def)
  show ?thesis using assms(1,3)
  proof (induction bs arbitrary: f)
    case (Cons b bs)
    then obtain k where k: "fcs_key b = Some k" by auto
    let ?f = "newer fcs_rd (fcs_wr calm) f (k, tb_ctime b)"
    have d: "dir_key k" using k by (rule fcs_key_dir)
    have "fcs_file_ok ?f" using fcs.newer_ok [of f "(k, tb_ctime b)" 1000, unfolded c] Cons.prems d by simp
    moreover have "fcs_rd d ?f = (if d = k then max (fcs_rd d f) (tb_ctime b) else fcs_rd d f)"
      using fcs.newer_rd [of f "(k, tb_ctime b)" d 1000, unfolded c] Cons.prems d assms(2) by simp
    ultimately show ?case using Cons k by (simp add: set_fcs_newer [OF k])
  qed simp
qed

lemma cs_newest_tasks:
  assumes "cs_file_ok f" and "dom_key d" and "\<forall>b \<in> set bs. cs_key b \<noteq> None"
  shows "cs_rd d (foldl (\<lambda>f b. snd (set_cs_time_stamp calm stat b f)) f bs) =
    (if stat = ON_LINE then foldl max (cs_rd d f) (map tb_ctime (filter (\<lambda>b. cs_key b = Some d) bs))
     else cs_rd d f)"
proof (cases "stat = ON_LINE")
  case True
  have c: "calm\<lparr>e_now := 1000\<rparr> = calm" by (simp add: calm_def)
  have "cs_rd d (foldl (\<lambda>f b. snd (set_cs_time_stamp calm ON_LINE b f)) f bs) =
      foldl max (cs_rd d f) (map tb_ctime (filter (\<lambda>b. cs_key b = Some d) bs))"
    using assms(1,3)
  proof (induction bs arbitrary: f)
    case (Cons b bs)
    then obtain k where k: "cs_key b = Some k" by auto
    let ?f = "newer cs_rd (cs_wr calm) f (k, tb_ctime b)"
    have d: "dom_key k" using k by (rule cs_key_dom)
    have "cs_file_ok ?f" using cs.newer_ok [of f "(k, tb_ctime b)" 1000, unfolded c] Cons.prems d by simp
    moreover have "cs_rd d ?f = (if d = k then max (cs_rd d f) (tb_ctime b) else cs_rd d f)"
      using cs.newer_rd [of f "(k, tb_ctime b)" d 1000, unfolded c] Cons.prems d assms(2) by simp
    ultimately show ?case using Cons k by (simp add: set_cs_newer [OF k])
  qed simp
  with True show ?thesis by simp
next
  case False
  have "foldl (\<lambda>f b. snd (set_cs_time_stamp calm stat b f)) f bs = f"
    by (induction bs) (simp_all add: set_cs_not_online [OF False])
  with False show ?thesis by simp
qed

end
