(* ===== verification/MyBuff.thy ===== *)
theory MyBuff
  imports Prelude
begin

text \<open>
  \<open>src/network/mybuff.c\<close>: the send and receive buffer of a connection, a growing byte
  array plus at most one file range still to be sent.  \<open>mb_data\<close> is the allocated block
  (\<open>None\<close> for \<open>NULL\<close>), all \<open>mb_size\<close> bytes of it, of which the first \<open>mb_len\<close> hold
  data.  \<open>malloc\<close> and \<open>realloc\<close> are the argument \<open>alloc\<close>: it gives the bytes of a
  fresh block or fails; the code goes on with the \<open>NULL\<close> pointer, so a failing
  allocation that is then written to is \<open>None\<close> (the process dies).  \<open>buff_bytes\<close> is the
  byte queue the callers see; the locale \<open>byte_queue\<close> is the contract.
\<close>

record mybuff =
  mb_data :: "byte list option"
  mb_size :: nat
  mb_len :: nat
  mb_fd :: int
  mb_foffset :: int
  mb_flen :: nat

type_synonym allocator = "nat \<Rightarrow> byte list option"

definition mybuff_init :: mybuff where
  "mybuff_init = \<lparr>mb_data = None, mb_size = 0, mb_len = 0, mb_fd = -1, mb_foffset = 0, mb_flen = 0\<rparr>"

definition memcpy_at :: "'a list \<Rightarrow> nat \<Rightarrow> 'a list \<Rightarrow> 'a list" where
  "memcpy_at d at src = take at d @ src @ drop (at + length src) d"

definition realloc :: "allocator \<Rightarrow> byte list option \<Rightarrow> nat \<Rightarrow> byte list option" where
  "realloc alloc old n =
     (case alloc n of None \<Rightarrow> None
      | Some fresh \<Rightarrow> Some (case old of None \<Rightarrow> fresh
          | Some d \<Rightarrow> take n d @ drop (length d) fresh))"

definition mybuff_setdata :: "allocator \<Rightarrow> nat \<Rightarrow> byte list \<Rightarrow> mybuff \<Rightarrow> mybuff option" where
  "mybuff_setdata alloc init_buff_size data m =
     (let m = (if mb_data m = None
               then m\<lparr>mb_data := alloc init_buff_size, mb_size := init_buff_size\<rparr> else m);
          len = length data
      in if mb_size m - mb_len m > len
         then (case mb_data m of None \<Rightarrow> None
               | Some d \<Rightarrow> Some (m\<lparr>mb_data := Some (memcpy_at d (mb_len m) data),
                                   mb_len := mb_len m + len\<rparr>))
         else (let m = m\<lparr>mb_size := mb_len m + len + 1\<rparr>
               in case realloc alloc (mb_data m) (mb_size m) of None \<Rightarrow> None
                  | Some d \<Rightarrow> Some (m\<lparr>mb_data := Some (memcpy_at d (mb_len m) data),
                                      mb_len := mb_len m + len\<rparr>)))"

text \<open>\<open>None\<close> is the return value -1: nothing to take.\<close>

definition mybuff_getdata :: "mybuff \<Rightarrow> byte list option" where
  "mybuff_getdata m =
     (case mb_data m of None \<Rightarrow> None
      | Some d \<Rightarrow> if mb_len m > 0 then Some (take (mb_len m) d) else None)"

definition mybuff_skipdata :: "nat \<Rightarrow> mybuff \<Rightarrow> mybuff" where
  "mybuff_skipdata len m =
     (case mb_data m of None \<Rightarrow> m
      | Some d \<Rightarrow>
         if len \<ge> mb_len m then m\<lparr>mb_len := 0\<rparr>
         else m\<lparr>mb_data := Some (memcpy_at d 0 (take (mb_len m - len) (drop len d))),
                mb_len := mb_len m - len\<rparr>)"

text \<open>The operations on the file part also give the descriptors they close.\<close>

definition mybuff_setfile :: "int \<Rightarrow> int \<Rightarrow> nat \<Rightarrow> mybuff \<Rightarrow> mybuff \<times> int list" where
  "mybuff_setfile fd offset len m =
     (m\<lparr>mb_fd := fd, mb_foffset := offset, mb_flen := len\<rparr>,
      if mb_fd m \<ge> 0 then [mb_fd m] else [])"

definition mybuff_getfile :: "mybuff \<Rightarrow> (int \<times> int \<times> nat) option" where
  "mybuff_getfile m =
     (if mb_fd m \<ge> 0 \<and> mb_flen m > 0 then Some (mb_fd m, mb_foffset m, mb_flen m) else None)"

definition mybuff_skipfile :: "nat \<Rightarrow> mybuff \<Rightarrow> mybuff \<times> int list" where
  "mybuff_skipfile len m =
     (if mb_fd m \<ge> 0
      then if mb_flen m \<le> len
           then (m\<lparr>mb_fd := -1, mb_foffset := 0, mb_flen := 0\<rparr>, [mb_fd m])
           else (m\<lparr>mb_foffset := mb_foffset m + int len, mb_flen := mb_flen m - len\<rparr>, [])
      else (m, []))"

definition mybuff_reinit :: "allocator \<Rightarrow> nat \<Rightarrow> mybuff \<Rightarrow> mybuff \<times> int list" where
  "mybuff_reinit alloc init_buff_size m =
     (let (m, closed) = (if mb_fd m \<ge> 0
              then (m\<lparr>mb_fd := -1, mb_foffset := 0, mb_flen := 0\<rparr>, [mb_fd m]) else (m, []));
          m = (if mb_size m > 2 * init_buff_size
               then m\<lparr>mb_data := alloc init_buff_size, mb_size := init_buff_size\<rparr> else m)
      in (m\<lparr>mb_len := 0\<rparr>, closed))"

text \<open>\<open>mybuff_fini\<close> frees the block but keeps the pointer to it in the structure.\<close>

definition mybuff_fini :: "allocator \<Rightarrow> nat \<Rightarrow> mybuff \<Rightarrow> mybuff \<times> int list \<times> bool" where
  "mybuff_fini alloc init_buff_size m =
     (let (m, closed) = mybuff_reinit alloc init_buff_size m in (m, closed, mb_data m \<noteq> None))"

section \<open>Well-formed buffers and the bytes they hold\<close>

definition alloc_ok :: "allocator \<Rightarrow> bool" where
  "alloc_ok alloc \<longleftrightarrow> (\<forall>n. case alloc n of None \<Rightarrow> False | Some d \<Rightarrow> length d = n)"

definition buff_wf :: "mybuff \<Rightarrow> bool" where
  "buff_wf m \<longleftrightarrow>
     (case mb_data m of None \<Rightarrow> mb_size m = 0 \<and> mb_len m = 0
      | Some d \<Rightarrow> length d = mb_size m \<and> mb_len m < mb_size m)
     \<and> (mb_fd m < 0 \<longrightarrow> mb_flen m = 0)"

definition buff_bytes :: "mybuff \<Rightarrow> byte list" where
  "buff_bytes m = (case mb_data m of None \<Rightarrow> [] | Some d \<Rightarrow> take (mb_len m) d)"

lemma memcpy_at_len: "at + length src \<le> length d \<Longrightarrow> length (memcpy_at d at src) = length d"
  by (simp add: memcpy_at_def)

lemma take_memcpy_at:
  "at + length src \<le> length d \<Longrightarrow> take (at + length src) (memcpy_at d at src) = take at d @ src"
  by (simp add: memcpy_at_def)

lemma alloc_okE: "alloc_ok alloc \<Longrightarrow> \<exists>d. alloc n = Some d \<and> length d = n"
  unfolding alloc_ok_def by (drule spec [of _ n]) (auto split: option.splits)

lemma buff_wf_init [simp]: "buff_wf mybuff_init" "buff_bytes mybuff_init = []"
  by (simp_all add: buff_wf_def buff_bytes_def mybuff_init_def)

lemma length_buff_bytes: "buff_wf m \<Longrightarrow> length (buff_bytes m) = mb_len m"
  by (auto simp: buff_wf_def buff_bytes_def split: option.splits)

lemma getdata_bytes:
  "buff_wf m \<Longrightarrow> mybuff_getdata m = (if buff_bytes m = [] then None else Some (buff_bytes m))"
  by (auto simp: mybuff_getdata_def buff_bytes_def buff_wf_def split: option.splits)

lemma setdata_cases:
  assumes a: "alloc_ok alloc" and i: "0 < ibs" and w: "buff_wf m"
  shows "\<exists>m'. mybuff_setdata alloc ibs data m = Some m' \<and> buff_wf m' \<and>
    buff_bytes m' = buff_bytes m @ data \<and> mb_fd m' = mb_fd m \<and> mb_foffset m' = mb_foffset m \<and>
    mb_flen m' = mb_flen m"
proof -
  obtain fr where fr: "alloc ibs = Some fr" "length fr = ibs" using alloc_okE [OF a] by blast
  define m1 where "m1 = (if mb_data m = None
     then m\<lparr>mb_data := alloc ibs, mb_size := ibs\<rparr> else m)"
  obtain d where d: "mb_data m1 = Some d" "length d = mb_size m1" "mb_len m1 < mb_size m1"
      and same: "mb_len m1 = mb_len m" "mb_fd m1 = mb_fd m" "mb_foffset m1 = mb_foffset m"
        "mb_flen m1 = mb_flen m" "take (mb_len m) d = buff_bytes m"
    using w fr i by (auto simp: m1_def buff_wf_def buff_bytes_def split: option.splits)
  show ?thesis
  proof (cases "mb_size m1 - mb_len m1 > length data")
    case True
    then have r: "mybuff_setdata alloc ibs data m =
        Some (m1\<lparr>mb_data := Some (memcpy_at d (mb_len m1) data), mb_len := mb_len m1 + length data\<rparr>)"
      unfolding mybuff_setdata_def m1_def [symmetric] Let_def using d by simp
    show ?thesis unfolding r using d same True w
      by (auto simp: buff_wf_def buff_bytes_def memcpy_at_len take_memcpy_at)
  next
    case False
    let ?n = "mb_len m1 + length data + 1"
    obtain f2 where f2: "alloc ?n = Some f2" "length f2 = ?n" using alloc_okE [OF a] by blast
    define e where "e = take ?n d @ drop (length d) f2"
    have e: "length e = ?n" "take (mb_len m1) e = take (mb_len m1) d"
      using f2 d False by (auto simp: e_def)
    have r: "mybuff_setdata alloc ibs data m =
        Some (m1\<lparr>mb_size := ?n, mb_data := Some (memcpy_at e (mb_len m1) data),
                 mb_len := mb_len m1 + length data\<rparr>)"
      unfolding mybuff_setdata_def m1_def [symmetric] Let_def realloc_def using d False f2
      by (simp add: e_def)
    show ?thesis unfolding r using e same w
      by (auto simp: buff_wf_def buff_bytes_def memcpy_at_len take_memcpy_at)
  qed
qed

lemma skipdata_wf:
  assumes "buff_wf m"
  shows "buff_wf (mybuff_skipdata n m)" and "buff_bytes (mybuff_skipdata n m) = drop n (buff_bytes m)"
proof -
  have "buff_wf (mybuff_skipdata n m) \<and> buff_bytes (mybuff_skipdata n m) = drop n (buff_bytes m)"
  proof (cases "mb_data m")
    case None
    with assms show ?thesis by (simp add: mybuff_skipdata_def buff_wf_def buff_bytes_def)
  next
    case (Some d)
    let ?s = "take (mb_len m - n) (drop n d)"
    have d: "length d = mb_size m" "mb_len m < mb_size m" using assms Some by (auto simp: buff_wf_def)
    show ?thesis
    proof (cases "n \<ge> mb_len m")
      case True
      with assms Some d show ?thesis by (auto simp: mybuff_skipdata_def buff_wf_def buff_bytes_def)
    next
      case False
      with d have l: "length ?s = mb_len m - n" by simp
      with d have "length (memcpy_at d 0 ?s) = mb_size m" "take (mb_len m - n) (memcpy_at d 0 ?s) = ?s"
        using memcpy_at_len [of 0 ?s d] take_memcpy_at [of 0 ?s d] by auto
      with False assms Some d show ?thesis
        by (auto simp: mybuff_skipdata_def buff_wf_def buff_bytes_def drop_take)
    qed
  qed
  then show "buff_wf (mybuff_skipdata n m)"
    "buff_bytes (mybuff_skipdata n m) = drop n (buff_bytes m)" by auto
qed

section \<open>The contract of a byte queue\<close>

locale byte_queue =
  fixes put :: "byte list \<Rightarrow> 'q \<Rightarrow> 'q option"
    and peek :: "'q \<Rightarrow> byte list option"
    and skip :: "nat \<Rightarrow> 'q \<Rightarrow> 'q"
    and bytes :: "'q \<Rightarrow> byte list"
    and wf :: "'q \<Rightarrow> bool"
  assumes put_ok: "wf q \<Longrightarrow> \<exists>q'. put d q = Some q' \<and> wf q' \<and> bytes q' = bytes q @ d"
    and peek_ok: "wf q \<Longrightarrow> peek q = (if bytes q = [] then None else Some (bytes q))"
    and skip_wf: "wf q \<Longrightarrow> wf (skip n q)"
    and skip_bytes: "wf q \<Longrightarrow> bytes (skip n q) = drop n (bytes q)"
begin

text \<open>Sending in pieces: what was put comes out once, in order.\<close>

fun put_all :: "byte list list \<Rightarrow> 'q \<Rightarrow> 'q option" where
  "put_all [] q = Some q"
| "put_all (d # ds) q = Option.bind (put d q) (put_all ds)"

lemma put_all_ok: "wf q \<Longrightarrow> \<exists>q'. put_all ds q = Some q' \<and> wf q' \<and> bytes q' = bytes q @ concat ds"
proof (induction ds arbitrary: q)
  case Nil
  then show ?case by simp
next
  case (Cons d ds)
  from put_ok [OF Cons.prems, of d] obtain q1
    where q1: "put d q = Some q1" "wf q1" "bytes q1 = bytes q @ d" by blast
  from Cons.IH [OF q1(2)] q1 show ?case by auto
qed

lemma drained: "wf q \<Longrightarrow> peek (skip (length (bytes q)) q) = None"
  by (simp add: peek_ok skip_wf skip_bytes)

lemma skip_skip: "wf q \<Longrightarrow> bytes (skip m (skip n q)) = bytes (skip (m + n) q)"
  by (simp add: skip_wf skip_bytes add.commute)

end

text \<open>An allocator that succeeds, for the interpretation and for witnesses.\<close>

definition zero_alloc :: allocator where
  "zero_alloc n = Some (replicate n 0)"

lemma alloc_ok_zero [simp]: "alloc_ok zero_alloc"
  by (simp add: alloc_ok_def zero_alloc_def)

locale buffer_allocation =
  fixes alloc :: allocator and ibs :: nat
  assumes alloc_total: "alloc_ok alloc" and ibs_pos: "0 < ibs"

sublocale buffer_allocation \<subseteq> bq: byte_queue "mybuff_setdata alloc ibs" mybuff_getdata
  mybuff_skipdata buff_bytes buff_wf
  by unfold_locales
    (use setdata_cases [OF alloc_total ibs_pos] in \<open>auto simp: getdata_bytes skipdata_wf\<close>)

interpretation mb: buffer_allocation zero_alloc 20480
  by unfold_locales simp_all

end
