(* ===== verification/Conn.thy ===== *)
theory Conn
  imports MyBuff Protocol
begin

text \<open>
  A connection (\<open>struct conn\<close> of \<open>src/network/global.h\<close>) and the event handlers of
  \<open>src/network/vfs_so.c\<close>: \<open>do_recv\<close>, \<open>do_send\<close>, and the loop every signalling
  plugin runs over the received bytes (\<open>check_req\<close> and \<open>svc_recv\<close> of
  \<open>tracker/vfs_sig.c\<close>, \<open>cs/vfs_sig.c\<close> and \<open>fcs/vfs_sig.c\<close>).  System calls are
  input: the list of results the socket gives, one per call.  The locale \<open>framing\<close>
  collects what the loop needs of a wire format.
\<close>

record conn =
  c_fd :: int
  c_send_buff :: mybuff
  c_recv_buff :: mybuff
  c_send_len :: int

definition RECV_CLOSE :: int where "RECV_CLOSE = 0x01"
definition RECV_ADD_EPOLLIN :: int where "RECV_ADD_EPOLLIN = 0x02"
definition RECV_ADD_EPOLLOUT :: int where "RECV_ADD_EPOLLOUT = 0x04"
definition RECV_ADD_EPOLLALL :: int where "RECV_ADD_EPOLLALL = 0x06"
definition RECV_SEND :: int where "RECV_SEND = 0x08"
definition SEND_CLOSE :: int where "SEND_CLOSE = 0x10"
definition SEND_ADD_EPOLLIN :: int where "SEND_ADD_EPOLLIN = 0x20"
definition SEND_ADD_EPOLLOUT :: int where "SEND_ADD_EPOLLOUT = 0x40"

lemmas recv_flag_defs = RECV_CLOSE_def RECV_ADD_EPOLLIN_def RECV_ADD_EPOLLOUT_def
  RECV_ADD_EPOLLALL_def RECV_SEND_def
lemmas send_flag_defs = SEND_CLOSE_def SEND_ADD_EPOLLIN_def SEND_ADD_EPOLLOUT_def

section \<open>Formats a receive loop can cut messages from\<close>

datatype 'm frame = NeedMore | Reject | Frame 'm nat

locale framing =
  fixes enc :: "'m \<Rightarrow> byte list" and dec :: "byte list \<Rightarrow> 'm frame" and valid :: "'m \<Rightarrow> bool"
  assumes dec_enc: "valid m \<Longrightarrow> dec (enc m @ r) = Frame m (length (enc m))"
    and dec_prefix: "valid m \<Longrightarrow> k < length (enc m) \<Longrightarrow> dec (take k (enc m)) = NeedMore"
begin

definition partial :: "byte list \<Rightarrow> bool" where
  "partial r \<longleftrightarrow> (\<exists>m k. valid m \<and> k < length (enc m) \<and> r = take k (enc m))"

lemma dec_partial: "partial r \<Longrightarrow> dec r = NeedMore"
  by (auto simp: partial_def dec_prefix)

text \<open>Any prefix of a stream of messages is some whole messages and an unfinished one.\<close>

lemma stream_prefix:
  assumes "\<forall>m \<in> set ms. valid m" and "k < length (concat (map enc ms))"
  shows "\<exists>i r. i < length ms \<and> take k (concat (map enc ms)) = concat (map enc (take i ms)) @ r \<and> partial r"
  using assms
proof (induction ms arbitrary: k)
  case Nil
  then show ?case by simp
next
  case (Cons m ms)
  show ?case
  proof (cases "k < length (enc m)")
    case True
    with Cons.prems have "partial (take k (enc m))" by (auto simp: partial_def)
    with True show ?thesis by (auto intro!: exI [of _ 0])
  next
    case False
    with Cons.prems have "k - length (enc m) < length (concat (map enc ms))" by auto
    from Cons.IH [OF _ this] Cons.prems obtain i r where
      "i < length ms" "take (k - length (enc m)) (concat (map enc ms)) = concat (map enc (take i ms)) @ r"
      "partial r" by auto
    with False show ?thesis by (auto intro!: exI [of _ "Suc i"] exI [of _ r])
  qed
qed

end

text \<open>The signalling format, read as \<open>check_req\<close> reads it: zeroed header and body first.\<close>

definition sig_zero_body :: "byte list" where
  "sig_zero_body = replicate MAX_SIG_BODY 0"

definition sig_dec :: "byte list \<Rightarrow> sig_msg frame" where
  "sig_dec s =
     (let (ret, h, b) = parse_sig_msg sig_zero_head sig_zero_body s in
      if ret > 0 then NeedMore
      else if ret = E_PACKET_ERR_CLOSE then Reject
      else Frame (h, take (unat (h_bodylen h)) b) (unat (h_bodylen h) + SIG_HEADSIZE))"

definition sig_padded :: "byte list \<Rightarrow> byte list" where
  "sig_padded b = b @ drop (length b) sig_zero_body"

lemma length_sig_zero_body [simp]: "length sig_zero_body = MAX_SIG_BODY"
  by (simp add: sig_zero_body_def)

interpretation sig: framing sig_enc sig_dec sig_valid
proof unfold_locales
  fix m r
  assume v: "sig_valid m"
  obtain h b where m: "m = (h, b)" by (cases m)
  have "unat (h_bodylen h) = length b" using v by (simp add: sig_valid_def m)
  with parse_create [OF v [unfolded m], of sig_zero_body sig_zero_head r] length_sig_enc [OF v] m
  show "sig_dec (sig_enc m @ r) = Frame m (length (sig_enc m))"
    by (simp add: sig_dec_def E_PRO_OK_def E_PACKET_ERR_CLOSE_def)
next
  fix m k
  assume "sig_valid m" "k < length (sig_enc m)"
  from parse_prefix [OF this, of sig_zero_head sig_zero_body]
  show "sig_dec (take k (sig_enc m)) = NeedMore"
    by (auto simp: sig_dec_def E_PRO_HEAD_LEN_def E_PRO_TOTAL_LEN_def split: prod.splits)
qed

section \<open>The plugin's receive loop\<close>

text \<open>
  \<open>do_req\<close> is the plugin's handler of one message on its own state \<open>'s\<close>; -1 stands
  for "no whole message yet" and ends the loop.
\<close>

definition check_req ::
  "(t_vfs_sig_head \<Rightarrow> byte list \<Rightarrow> 's \<Rightarrow> int \<times> 's) \<Rightarrow> mybuff \<Rightarrow> 's \<Rightarrow> int \<times> mybuff \<times> 's" where
  "check_req do_req m s =
     (case mybuff_getdata m of
        None \<Rightarrow> (-1, m, s)
      | Some data \<Rightarrow>
         (let (ret, h, b) = parse_sig_msg sig_zero_head sig_zero_body data in
          if ret > 0 then (-1, m, s)
          else if ret = E_PACKET_ERR_CLOSE then (RECV_CLOSE, m, s)
          else let clen = unat (h_bodylen h) + SIG_HEADSIZE;
                   (ret, s) = do_req h b s
               in (ret, mybuff_skipdata clen m, s)))"

primrec recv_loop ::
  "nat \<Rightarrow> (t_vfs_sig_head \<Rightarrow> byte list \<Rightarrow> 's \<Rightarrow> int \<times> 's) \<Rightarrow> int \<Rightarrow> mybuff \<Rightarrow> 's
   \<Rightarrow> (int \<times> mybuff \<times> 's) option" where
  "recv_loop 0 do_req ret m s = None"
| "recv_loop (Suc k) do_req ret m s =
     (let (subret, m, s) = check_req do_req m s in
      if subret = -1 then Some (ret, m, s)
      else if subret = RECV_CLOSE then Some (RECV_CLOSE, m, s)
      else recv_loop k do_req (ret OR subret) m s)"

text \<open>Every message takes at least four bytes off the buffer, so its length is fuel enough.\<close>

definition svc_recv ::
  "(t_vfs_sig_head \<Rightarrow> byte list \<Rightarrow> 's \<Rightarrow> int \<times> 's) \<Rightarrow> mybuff \<Rightarrow> 's \<Rightarrow> (int \<times> mybuff \<times> 's) option" where
  "svc_recv do_req m s = recv_loop (Suc (mb_len m)) do_req RECV_ADD_EPOLLIN m s"

lemma check_req_sig_dec:
  assumes "buff_wf m"
  shows "check_req do_req m s =
    (if buff_bytes m = [] then (-1, m, s)
     else case sig_dec (buff_bytes m) of NeedMore \<Rightarrow> (-1, m, s)
       | Reject \<Rightarrow> (RECV_CLOSE, m, s)
       | Frame (h, _) n \<Rightarrow>
          let b = snd (snd (parse_sig_msg sig_zero_head sig_zero_body (buff_bytes m)));
              (ret, s) = do_req h b s in (ret, mybuff_skipdata n m, s))"
  using assms by (simp add: check_req_def getdata_bytes sig_dec_def Let_def split: prod.splits)

lemma check_req_frame:
  assumes "buff_wf m" and "buff_bytes m = sig_enc (h, b) @ r" and v: "sig_valid (h, b)"
  shows "check_req do_req m s =
    (let (ret, s') = do_req h (sig_padded b) s in (ret, mybuff_skipdata (length (sig_enc (h, b))) m, s'))"
proof -
  have "sig_enc (h, b) \<noteq> []" using length_sig_enc [OF v] by (auto simp: sig_pro_defs)
  then show ?thesis using assms
    by (simp add: check_req_sig_dec sig.dec_enc [OF v] parse_create [OF v] sig_padded_def)
qed

lemma check_req_partial:
  assumes "buff_wf m" and "sig.partial (buff_bytes m)"
  shows "check_req do_req m s = (-1, m, s)"
  using assms by (simp add: check_req_sig_dec sig.dec_partial)

text \<open>What the loop is for: hand the messages to the handler one by one until it stops.\<close>

primrec dispatch ::
  "(t_vfs_sig_head \<Rightarrow> byte list \<Rightarrow> 's \<Rightarrow> int \<times> 's) \<Rightarrow> sig_msg list \<Rightarrow> int \<Rightarrow> 's
   \<Rightarrow> int \<times> sig_msg list \<times> 's" where
  "dispatch do_req [] ret s = (ret, [], s)"
| "dispatch do_req (m # ms) ret s =
     (let (r, s) = do_req (fst m) (sig_padded (snd m)) s in
      if r = -1 then (ret, ms, s)
      else if r = RECV_CLOSE then (RECV_CLOSE, ms, s)
      else dispatch do_req ms (ret OR r) s)"

definition unfinished :: "byte list \<Rightarrow> bool" where
  "unfinished r \<longleftrightarrow> r = [] \<or> sig.partial r"

lemma recv_loop_dispatch:
  assumes "buff_wf m" and "buff_bytes m = concat (map sig_enc ms) @ tail"
    and "\<forall>x \<in> set ms. sig_valid x" and "unfinished tail" and "length (buff_bytes m) < k"
  shows "\<exists>m'. buff_wf m' \<and>
     (case dispatch do_req ms ret s of (ret', rest, s') \<Rightarrow>
        recv_loop k do_req ret m s = Some (ret', m', s') \<and>
        buff_bytes m' = concat (map sig_enc rest) @ tail)"
  using assms
proof (induction ms arbitrary: k m ret s)
  case Nil
  then obtain j where k: "k = Suc j" by (cases k) auto
  have "check_req do_req m s = (-1, m, s)"
    using Nil check_req_partial [of m do_req s]
    by (auto simp: unfinished_def check_req_def getdata_bytes)
  with Nil k show ?case by (intro exI [of _ m]) simp
next
  case (Cons x ms)
  obtain h b where x: "x = (h, b)" by (cases x)
  obtain j where k: "k = Suc j" using Cons.prems by (cases k) auto
  let ?m = "mybuff_skipdata (length (sig_enc x)) m"
  obtain r s1 where d: "do_req h (sig_padded b) s = (r, s1)" by (cases "do_req h (sig_padded b) s")
  have v: "sig_valid (h, b)" using Cons.prems x by simp
  have "check_req do_req m s = (r, ?m, s1)"
    using check_req_frame [of m h b "concat (map sig_enc ms) @ tail" do_req s] Cons.prems x d v by simp
  moreover have bm: "buff_wf ?m" "buff_bytes ?m = concat (map sig_enc ms) @ tail"
    using Cons.prems by (simp_all add: skipdata_wf)
  moreover have "length (buff_bytes ?m) < j"
    using Cons.prems(2,5) k bm length_sig_enc [OF v] x by (simp add: sig_pro_defs)
  ultimately show ?case
    using Cons.IH [of ?m j "ret OR r" s1] Cons.prems(3,4) d x k by (auto simp: Let_def)
qed

theorem svc_recv_dispatch:
  assumes "buff_wf m" and "buff_bytes m = concat (map sig_enc ms) @ tail"
    and "\<forall>x \<in> set ms. sig_valid x" and "unfinished tail"
  shows "\<exists>m'. buff_wf m' \<and>
     (case dispatch do_req ms RECV_ADD_EPOLLIN s of (ret', rest, s') \<Rightarrow>
        svc_recv do_req m s = Some (ret', m', s') \<and>
        buff_bytes m' = concat (map sig_enc rest) @ tail)"
  unfolding svc_recv_def
  by (rule recv_loop_dispatch [OF assms]) (simp add: length_buff_bytes assms(1))

text \<open>A handler that never ends the loop sees all messages.\<close>

definition keeps_going :: "(t_vfs_sig_head \<Rightarrow> byte list \<Rightarrow> 's \<Rightarrow> int \<times> 's) \<Rightarrow> bool" where
  "keeps_going do_req \<longleftrightarrow> (\<forall>h b s. fst (do_req h b s) \<noteq> -1 \<and> fst (do_req h b s) \<noteq> RECV_CLOSE)"

definition handle :: "(t_vfs_sig_head \<Rightarrow> byte list \<Rightarrow> 's \<Rightarrow> int \<times> 's) \<Rightarrow> 's \<Rightarrow> sig_msg \<Rightarrow> 's" where
  "handle do_req s m = snd (do_req (fst m) (sig_padded (snd m)) s)"

lemma dispatch_keeps_going:
  assumes "keeps_going do_req"
  shows "\<exists>ret'. dispatch do_req ms ret s = (ret', [], foldl (handle do_req) s ms)"
proof (induction ms arbitrary: ret s)
  case Nil
  show ?case by simp
next
  case (Cons m ms)
  obtain r s1 where d: "do_req (fst m) (sig_padded (snd m)) s = (r, s1)"
    by (cases "do_req (fst m) (sig_padded (snd m)) s")
  with assms have "r \<noteq> -1" "r \<noteq> RECV_CLOSE" unfolding keeps_going_def by (metis fst_conv)+
  with d Cons.IH show ?case by (simp add: handle_def)
qed

section \<open>Fragmentation does not matter\<close>

text \<open>The bytes arrive in pieces; after each piece \<open>do_recv\<close> appends it and runs the loop.\<close>

primrec deliver ::
  "allocator \<Rightarrow> nat \<Rightarrow> (t_vfs_sig_head \<Rightarrow> byte list \<Rightarrow> 's \<Rightarrow> int \<times> 's) \<Rightarrow> byte list list
   \<Rightarrow> mybuff \<Rightarrow> 's \<Rightarrow> (mybuff \<times> 's) option" where
  "deliver alloc ibs do_req [] m s = Some (m, s)"
| "deliver alloc ibs do_req (c # cs) m s =
     (case mybuff_setdata alloc ibs c m of None \<Rightarrow> None
      | Some m \<Rightarrow> (case svc_recv do_req m s of None \<Rightarrow> None
          | Some (ret, m, s) \<Rightarrow> deliver alloc ibs do_req cs m s))"

lemma deliver_stream:
  assumes a: "alloc_ok alloc" "0 < ibs" and g: "keeps_going do_req"
    and "buff_wf m" and "buff_bytes m @ concat cs = concat (map sig_enc ms)"
    and "unfinished (buff_bytes m)" and "\<forall>x \<in> set ms. sig_valid x"
  shows "\<exists>m'. deliver alloc ibs do_req cs m s = Some (m', foldl (handle do_req) s ms) \<and>
     buff_wf m' \<and> buff_bytes m' = []"
  using assms(4-)
proof (induction cs arbitrary: m s ms)
  case Nil
  have "ms = []"
  proof (rule ccontr)
    assume "ms \<noteq> []"
    then obtain x xs where ms: "ms = x # xs" by (cases ms) auto
    with Nil have v: "sig_valid x" and e: "buff_bytes m = sig_enc x @ concat (map sig_enc xs)" by auto
    then have "sig_dec (buff_bytes m) = Frame x (length (sig_enc x))" by (simp add: sig.dec_enc)
    moreover have "buff_bytes m \<noteq> []" using e length_sig_enc [OF v] by (auto simp: sig_pro_defs)
    ultimately show False using Nil.prems(3) by (auto simp: unfinished_def dest: sig.dec_partial)
  qed
  with Nil show ?case by simp
next
  case (Cons c cs)
  let ?str = "concat (map sig_enc ms)" and ?l = "length (buff_bytes m @ c)"
  from setdata_cases [OF a Cons.prems(1), of c] obtain m1
    where m1: "mybuff_setdata alloc ibs c m = Some m1" "buff_wf m1" "buff_bytes m1 = buff_bytes m @ c"
    by blast
  have pre: "buff_bytes m1 = take ?l ?str"
    using Cons.prems(2) m1(3) by (metis append_assoc append_eq_conv_conj concat.simps(2))
  obtain i r where i: "buff_bytes m1 = concat (map sig_enc (take i ms)) @ r" "unfinished r"
  proof (cases "?l < length ?str")
    case True
    with sig.stream_prefix [OF Cons.prems(4) True] pre that show ?thesis
      by (auto simp: unfinished_def)
  next
    case False
    with pre that [of "length ms" "[]"] show ?thesis by (auto simp: unfinished_def)
  qed
  have vt: "\<forall>x \<in> set (take i ms). sig_valid x" "\<forall>x \<in> set (drop i ms). sig_valid x"
    using Cons.prems(4) by (auto dest: in_set_takeD in_set_dropD)
  obtain ret where d: "dispatch do_req (take i ms) RECV_ADD_EPOLLIN s =
      (ret, [], foldl (handle do_req) s (take i ms))" using dispatch_keeps_going [OF g] by blast
  from svc_recv_dispatch [OF m1(2) i(1) vt(1) i(2), of do_req s] d obtain m2
    where m2: "svc_recv do_req m1 s = Some (ret, m2, foldl (handle do_req) s (take i ms))"
      "buff_wf m2" "buff_bytes m2 = r" by auto
  have "?str = buff_bytes m1 @ concat cs" using Cons.prems(2) m1(3) by simp
  then have "concat (map sig_enc (take i ms)) @ r @ concat cs = ?str" unfolding i(1) by simp
  also have "\<dots> = concat (map sig_enc (take i ms)) @ concat (map sig_enc (drop i ms))"
    by (metis append_take_drop_id concat_append map_append)
  finally have "buff_bytes m2 @ concat cs = concat (map sig_enc (drop i ms))" using m2(3) by simp
  from Cons.IH [OF m2(2) this _ vt(2), of "foldl (handle do_req) s (take i ms)"] i(2) m1(1) m2
  show ?case by (simp flip: foldl_append)
qed

section \<open>Socket events\<close>

text \<open>What one \<open>recv\<close> gives: bytes, end of stream, or one of the error codes told apart.\<close>

datatype recv_res = RData "byte list" | REof | REintr | REagain | RErr

text \<open>
  The reading loop of \<open>do_recv\<close>: \<open>None\<close> when the given results do not end it, the flag
  says that the connection is to be closed.
\<close>

fun recv_in :: "allocator \<Rightarrow> nat \<Rightarrow> recv_res list \<Rightarrow> mybuff \<Rightarrow> (bool \<times> mybuff) option" where
  "recv_in alloc ibs [] m = None"
| "recv_in alloc ibs (RData d # rs) m =
     (case mybuff_setdata alloc ibs d m of None \<Rightarrow> None
      | Some m \<Rightarrow> if length d = ibs then recv_in alloc ibs rs m else Some (False, m))"
| "recv_in alloc ibs (REof # rs) m = Some (True, m)"
| "recv_in alloc ibs (REintr # rs) m = recv_in alloc ibs rs m"
| "recv_in alloc ibs (REagain # rs) m = Some (False, m)"
| "recv_in alloc ibs (RErr # rs) m = Some (True, m)"

datatype action = NoAct | WatchIn | WatchInOut | SendNow | CloseNow

definition recv_action :: "int \<Rightarrow> action" where
  "recv_action ret =
     (if ret = RECV_SEND then SendNow
      else if ret = RECV_ADD_EPOLLIN then WatchIn
      else if ret = RECV_ADD_EPOLLOUT then WatchInOut
      else if ret = RECV_ADD_EPOLLALL then WatchInOut
      else if ret = RECV_CLOSE then CloseNow
      else NoAct)"

definition do_recv ::
  "allocator \<Rightarrow> nat \<Rightarrow> recv_res list \<Rightarrow> (mybuff \<Rightarrow> 's \<Rightarrow> (int \<times> mybuff \<times> 's) option)
   \<Rightarrow> conn \<Rightarrow> 's \<Rightarrow> (action \<times> conn \<times> 's) option" where
  "do_recv alloc ibs rs svc c s =
     (if c_fd c < 0 then Some (NoAct, c, s)
      else case recv_in alloc ibs rs (c_recv_buff c) of
        None \<Rightarrow> None
      | Some (True, m) \<Rightarrow> Some (CloseNow, c\<lparr>c_recv_buff := m\<rparr>, s)
      | Some (False, m) \<Rightarrow>
         (case svc m s of None \<Rightarrow> None
          | Some (ret, m, s) \<Rightarrow> Some (recv_action ret, c\<lparr>c_recv_buff := m\<rparr>, s)))"

datatype send_res = SSent nat | SEintr | SEagain | SErr

fun after_eintr :: "send_res list \<Rightarrow> (send_res \<times> send_res list) option" where
  "after_eintr [] = None"
| "after_eintr (SEintr # rs) = after_eintr rs"
| "after_eintr (r # rs) = Some (r, rs)"

text \<open>
  What one sending step does: its flag, the value of \<open>n\<close> (-1 for an error), and the
  number of bytes that went out.
\<close>

definition send_outcome :: "send_res \<Rightarrow> nat \<Rightarrow> int \<times> int \<times> nat" where
  "send_outcome r len =
     (case r of SSent n \<Rightarrow> (if n < len then SEND_ADD_EPOLLOUT else SEND_ADD_EPOLLIN, int n, n)
      | SEagain \<Rightarrow> (SEND_ADD_EPOLLOUT, -1, 0)
      | _ \<Rightarrow> (SEND_CLOSE, -1, 0))"

definition GSIZE :: nat where "GSIZE = 1073741824"

definition send_data :: "send_res list \<Rightarrow> conn \<Rightarrow> (int \<times> int \<times> byte list \<times> conn \<times> send_res list) option" where
  "send_data rs c =
     (case mybuff_getdata (c_send_buff c) of
        None \<Rightarrow> Some (SEND_ADD_EPOLLIN, 0, [], c, rs)
      | Some data \<Rightarrow> (case after_eintr rs of None \<Rightarrow> None
          | Some (r, rs) \<Rightarrow>
             (let (ret, n, k) = send_outcome r (length data)
              in Some (ret, n, take k data,
                       c\<lparr>c_send_buff := (if n > 0 then mybuff_skipdata k (c_send_buff c) else c_send_buff c),
                         c_send_len := c_send_len c + int k\<rparr>, rs))))"

definition send_file :: "send_res list \<Rightarrow> int \<Rightarrow> conn
   \<Rightarrow> (int \<times> int \<times> (int \<times> int \<times> nat) list \<times> conn \<times> int list) option" where
  "send_file rs n0 c =
     (case mybuff_getfile (c_send_buff c) of
        None \<Rightarrow> Some (SEND_ADD_EPOLLIN, n0, [], c, [])
      | Some (localfd, start, len) \<Rightarrow> (case after_eintr rs of None \<Rightarrow> None
          | Some (r, rs) \<Rightarrow>
             (let (ret, n, k) = send_outcome r len;
                  (m, closed) = (if n > 0 then mybuff_skipfile k (c_send_buff c) else (c_send_buff c, []))
              in Some (ret, n, if n > 0 then [(localfd, start, k)] else [],
                       c\<lparr>c_send_buff := m, c_send_len := c_send_len c + int k\<rparr>, closed))))"

text \<open>
  \<open>do_send\<close>: first the buffered bytes, and only when all of them are out, the file.  The
  result names the bytes and the file range that went out and the descriptors closed.
\<close>

definition do_send :: "send_res list \<Rightarrow> conn
   \<Rightarrow> (int \<times> byte list \<times> (int \<times> int \<times> nat) list \<times> conn \<times> int list) option" where
  "do_send rs c =
     (if c_fd c < 0 then Some (0, [], [], c, [])
      else case send_data rs c of None \<Rightarrow> None
      | Some (ret, n, wire, c, rs) \<Rightarrow>
         if ret = SEND_ADD_EPOLLIN
         then (case send_file rs n c of None \<Rightarrow> None
               | Some (ret, n, ranges, c, closed) \<Rightarrow> Some (ret, wire, ranges, c, closed))
         else Some (ret, wire, [], c, []))"

text \<open>A result the kernel can give: no more bytes than asked for, and never none.\<close>

definition send_ok :: "nat \<Rightarrow> send_res \<Rightarrow> bool" where
  "send_ok len r \<longleftrightarrow> (case r of SSent n \<Rightarrow> 0 < n \<and> n \<le> len | _ \<Rightarrow> True)"

lemma send_data_fifo:
  assumes w: "buff_wf (c_send_buff c)"
    and s: "send_data rs c = Some (ret, n, wire, c', rs')"
    and ok: "\<forall>r \<in> set rs. send_ok (length (buff_bytes (c_send_buff c))) r"
  shows "buff_wf (c_send_buff c') \<and> wire @ buff_bytes (c_send_buff c') = buff_bytes (c_send_buff c) \<and>
    (ret = SEND_ADD_EPOLLIN \<longrightarrow> buff_bytes (c_send_buff c') = []) \<and>
    c_send_len c' = c_send_len c + int (length wire)"
proof -
  have sub: "after_eintr rs = Some (r, rs') \<Longrightarrow> r \<in> set rs" for r rs'
    using ok by (induction rs rule: after_eintr.induct) auto
  from w s show ?thesis
    by (auto simp: send_data_def getdata_bytes Let_def send_outcome_def send_flag_defs skipdata_wf
        send_ok_def split: if_splits option.splits prod.splits send_res.splits
        dest!: sub ok [rule_format, OF sub])
qed

text \<open>What every request keeps, the receive loop keeps.\<close>

lemma recv_loop_keeps:
  assumes "\<And>h b s. P s \<Longrightarrow> P (snd (req h b s))"
  shows "recv_loop k req ret m s = Some (r, m', s') \<Longrightarrow> P s \<Longrightarrow> P s'"
proof (induction k arbitrary: ret m s)
  case (Suc k)
  obtain sub m1 s1 where c: "check_req req m s = (sub, m1, s1)" by (cases "check_req req m s")
  have "P s1" using c Suc.prems(2) assms
    by (auto simp: check_req_def Let_def split: option.splits prod.splits if_splits) (metis snd_conv)+
  then show ?case using Suc.IH Suc.prems(1) c by (auto simp: Let_def split: if_splits)
qed simp

end
