(* ===== verification/TmpStatus.thy ===== *)
theory TmpStatus
  imports VfsTypes ListFamily
begin

text \<open>
  \<open>src/network/vfs_tmp_status.c\<close>, the part that does not need the task queues: the file
  in which every running task is saved so that a restart can resume it.  The file is an
  array of bytes; a byte is symbolic, the \<open>i\<close>-th byte of a task record, or zero.  Reading
  at an offset gives back a record when the bytes there are one record in order;
  otherwise the bytes of two records run together and the result is the parameter
  \<open>garble\<close>.  Slots of the file that hold no task are on the list \<open>idle\<close>.
\<close>

definition sizeof_tasklist :: nat where "sizeof_tasklist = 1016"
definition sizeof_tmp_status :: nat where "sizeof_tmp_status = 24"
definition DEFAULT_ITEMS :: nat where "DEFAULT_ITEMS = 1024"

datatype cell = Z | C t_vfs_tasklist nat

record tmp_state =
  tf_cells :: "nat \<Rightarrow> cell"
  tf_size :: nat
  t_hometmp :: "ptr list"
  t_idletmp :: "ptr list"
  t_pos :: "ptr \<Rightarrow> int"

section \<open>Records in the file\<close>

definition rec_cells :: "t_vfs_tasklist \<Rightarrow> cell list" where
  "rec_cells t = (if t = zero_tasklist then replicate sizeof_tasklist Z
     else map (C t) [0..<sizeof_tasklist])"

definition file_write :: "nat \<Rightarrow> t_vfs_tasklist \<Rightarrow> tmp_state \<Rightarrow> tmp_state" where
  "file_write pos t s = s\<lparr>
     tf_cells := (\<lambda>i. if pos \<le> i \<and> i < pos + sizeof_tasklist then rec_cells t ! (i - pos)
                     else tf_cells s i),
     tf_size := max (tf_size s) (pos + sizeof_tasklist)\<rparr>"

text \<open>\<open>truncate\<close> cuts the file or pads it with zero bytes.\<close>

definition file_truncate :: "nat \<Rightarrow> tmp_state \<Rightarrow> tmp_state" where
  "file_truncate n s = s\<lparr>tf_cells := (\<lambda>i. if i < tf_size s \<and> i < n then tf_cells s i else Z),
     tf_size := n\<rparr>"

definition cells_at :: "tmp_state \<Rightarrow> nat \<Rightarrow> cell list" where
  "cells_at s pos = map (tf_cells s) [pos..<pos + sizeof_tasklist]"

fun decode_cells :: "(cell list \<Rightarrow> t_vfs_tasklist) \<Rightarrow> cell list \<Rightarrow> t_vfs_tasklist" where
  "decode_cells garble [] = garble []"
| "decode_cells garble (Z # cs) =
     (if \<forall>c \<in> set cs. c = Z then zero_tasklist else garble (Z # cs))"
| "decode_cells garble (C t i # cs) =
     (if C t i # cs = rec_cells t then t else garble (C t i # cs))"

text \<open>\<open>read\<close> of one record: \<open>None\<close> when fewer bytes are left.\<close>

definition file_read :: "(cell list \<Rightarrow> t_vfs_tasklist) \<Rightarrow> tmp_state \<Rightarrow> nat \<Rightarrow> t_vfs_tasklist option" where
  "file_read garble s pos =
     (if pos + sizeof_tasklist \<le> tf_size s then Some (decode_cells garble (cells_at s pos)) else None)"

text \<open>\<open>int ret = lseek(\<dots>)\<close> keeps the low 32 bits of the offset.\<close>

definition int32 :: "int \<Rightarrow> int" where
  "int32 i = sint (word_of_int i :: u32)"

section \<open>Giving a slot back and taking one\<close>

definition set_tmp_blank :: "env \<Rightarrow> int \<Rightarrow> ptr option \<Rightarrow> tmp_state \<Rightarrow> tmp_state" where
  "set_tmp_blank e pos tmp s =
     (if pos < 0 then s
      else if int32 pos < 0 then s
      else
        let s = (if e_write e then file_write (nat pos) zero_tasklist s else s);
            (got, s) = (case tmp of Some p \<Rightarrow> (Some p, s)
              | None \<Rightarrow> (case t_hometmp s of p # ps \<Rightarrow> (Some p, s\<lparr>t_hometmp := ps\<rparr>)
                        | [] \<Rightarrow> (e_malloc e, s)))
        in case got of None \<Rightarrow> s
           | Some p \<Rightarrow> s\<lparr>t_pos := (t_pos s)(p := pos), t_idletmp := p # t_idletmp s\<rparr>)"

text \<open>
  The result is the return value, the slot stored in \<open>task.user\<close>, and the new state.
  The saved record has a null \<open>user\<close>.  A task that finds no idle slot is appended to
  the file.
\<close>

definition set_task_to_tmp ::
  "env \<Rightarrow> t_vfs_tasklist \<Rightarrow> tmp_state \<Rightarrow> int \<times> t_vfs_tasklist \<times> tmp_state" where
  "set_task_to_tmp e t s =
     (let t = t\<lparr>tl_task := (tl_task t)\<lparr>ti_user := None\<rparr>\<rparr> in
      case t_idletmp s of
        p # ps \<Rightarrow>
          (if int32 (t_pos s p) < 0 then (-1, t, s)
           else let s = (if e_write e then file_write (nat (t_pos s p)) t s else s)
                in (0, t\<lparr>tl_task := (tl_task t)\<lparr>ti_user := Some p\<rparr>\<rparr>, s\<lparr>t_idletmp := ps\<rparr>))
      | [] \<Rightarrow>
          (let size = tf_size s;
               s = file_truncate (size + sizeof_tasklist) s
           in if int32 (int size) < 0 then (-1, t, s)
              else let s = (if e_write e then file_write size t s else s)
                   in case e_malloc e of None \<Rightarrow> (-1, t, s)
                      | Some p \<Rightarrow> (0, t\<lparr>tl_task := (tl_task t)\<lparr>ti_user := Some p\<rparr>\<rparr>,
                                  s\<lparr>t_pos := (t_pos s)(p := int size)\<rparr>)))"

section \<open>Slots never overlap\<close>

lemma length_rec_cells [simp]: "length (rec_cells t) = sizeof_tasklist"
  by (simp add: rec_cells_def)

lemma sizeof_pos [simp]: "0 < sizeof_tasklist"
  by (simp add: sizeof_tasklist_def)

lemma decode_rec_cells [simp]: "decode_cells garble (rec_cells t) = t"
proof (cases "t = zero_tasklist")
  case True
  have "rec_cells t = Z # replicate (sizeof_tasklist - 1) Z"
    using True by (simp add: rec_cells_def sizeof_tasklist_def flip: replicate_Suc)
  with True show ?thesis by simp
next
  case False
  have "rec_cells t = C t 0 # map (C t) [1..<sizeof_tasklist]"
    using False by (simp add: rec_cells_def upt_rec)
  then show ?thesis by (metis decode_cells.simps(3))
qed

lemma cells_at_write: "cells_at (file_write pos t s) pos = rec_cells t"
  by (rule nth_equalityI) (simp_all add: cells_at_def file_write_def)

lemma cells_at_write_other:
  assumes "pos + sizeof_tasklist \<le> q \<or> q + sizeof_tasklist \<le> pos"
  shows "cells_at (file_write pos t s) q = cells_at s q"
  using assms by (auto simp: cells_at_def file_write_def)

lemma file_read_write: "file_read garble (file_write pos t s) pos = Some t"
  by (simp add: file_read_def cells_at_write) (simp add: file_write_def)

lemma file_read_write_other:
  assumes "pos + sizeof_tasklist \<le> q \<or> q + sizeof_tasklist \<le> pos" and "q + sizeof_tasklist \<le> tf_size s"
  shows "file_read garble (file_write pos t s) q = file_read garble s q"
  using assms by (simp add: file_read_def cells_at_write_other) (auto simp: file_write_def)

lemma file_write_frame [simp]:
  "t_hometmp (file_write p t s) = t_hometmp s" "t_idletmp (file_write p t s) = t_idletmp s"
  "t_pos (file_write p t s) = t_pos s"
  "tf_size (file_write p t s) = max (tf_size s) (p + sizeof_tasklist)"
  by (simp_all add: file_write_def)

lemma file_truncate_frame [simp]:
  "t_hometmp (file_truncate n s) = t_hometmp s" "t_idletmp (file_truncate n s) = t_idletmp s"
  "t_pos (file_truncate n s) = t_pos s" "tf_size (file_truncate n s) = n"
  by (simp_all add: file_truncate_def)

lemma cells_at_truncate:
  assumes "q + sizeof_tasklist \<le> tf_size s" and "tf_size s \<le> n"
  shows "cells_at (file_truncate n s) q = cells_at s q"
  using assms by (auto simp: cells_at_def file_truncate_def)

lemma file_read_truncate:
  assumes "q + sizeof_tasklist \<le> tf_size s" and "tf_size s \<le> n"
  shows "file_read garble (file_truncate n s) q = file_read garble s q"
  using assms cells_at_truncate [OF assms] by (simp add: file_read_def)

text \<open>
  \<open>used\<close> are the slots of the running tasks.  No slot is both idle and used, all slots lie
  in the file, and no two of them overlap.
\<close>

definition slot_in :: "tmp_state \<Rightarrow> ptr \<Rightarrow> bool" where
  "slot_in s p \<longleftrightarrow> 0 \<le> t_pos s p \<and> t_pos s p + int sizeof_tasklist \<le> int (tf_size s)"

definition apart :: "tmp_state \<Rightarrow> ptr \<Rightarrow> ptr \<Rightarrow> bool" where
  "apart s p q \<longleftrightarrow> t_pos s p + int sizeof_tasklist \<le> t_pos s q \<or> t_pos s q + int sizeof_tasklist \<le> t_pos s p"

definition tmp_wf :: "ptr set \<Rightarrow> tmp_state \<Rightarrow> bool" where
  "tmp_wf used s \<longleftrightarrow> distinct (t_idletmp s) \<and> set (t_idletmp s) \<inter> used = {} \<and>
     (\<forall>p \<in> set (t_idletmp s) \<union> used. slot_in s p) \<and>
     (\<forall>p \<in> set (t_idletmp s) \<union> used. \<forall>q \<in> set (t_idletmp s) \<union> used. p \<noteq> q \<longrightarrow> apart s p q)"

definition tmp_saved :: "(cell list \<Rightarrow> t_vfs_tasklist) \<Rightarrow> tmp_state \<Rightarrow> ptr \<Rightarrow> t_vfs_tasklist option" where
  "tmp_saved garble s p = file_read garble s (nat (t_pos s p))"

lemma int32_id: "0 \<le> i \<Longrightarrow> i < 2 ^ 31 \<Longrightarrow> int32 i = i"
  by (simp add: int32_def signed_take_bit_int_eq_self sint_word_ariths flip: )
     (simp add: sint_sbintrunc' signed_take_bit_int_eq_self)

lemma tmp_wf_slot:
  assumes "tmp_wf used s" and "p \<in> set (t_idletmp s) \<union> used" and "tf_size s \<le> 2 ^ 31"
  shows "\<not> t_pos s p < 0" and "\<not> int32 (t_pos s p) < 0"
proof -
  have "slot_in s p" using assms by (auto simp: tmp_wf_def)
  then have b: "0 \<le> t_pos s p" "t_pos s p < 2 ^ 31"
    using assms(3) by (auto simp: slot_in_def sizeof_tasklist_def)
  then show "\<not> t_pos s p < 0" "\<not> int32 (t_pos s p) < 0" by (simp_all add: int32_id)
qed

lemma tmp_wfD:
  "tmp_wf used s \<Longrightarrow> p \<in> set (t_idletmp s) \<union> used \<Longrightarrow> q \<in> set (t_idletmp s) \<union> used \<Longrightarrow> p \<noteq> q
   \<Longrightarrow> apart s p q"
  by (auto simp: tmp_wf_def)

lemma saved_write_other:
  assumes "slot_in s q" and "slot_in s p" and "apart s p q"
  shows "tmp_saved garble (file_write (nat (t_pos s p)) t s) q = tmp_saved garble s q"
  using assms unfolding tmp_saved_def slot_in_def apart_def
  by (auto intro!: file_read_write_other)

text \<open>Giving a slot back blanks it, makes it idle and leaves the other saved tasks alone.\<close>

lemma set_tmp_blank_frees:
  assumes w: "tmp_wf used s" and p: "p \<in> used" and "tf_size s \<le> 2 ^ 31" and "e_write e"
  shows "tmp_wf (used - {p}) (set_tmp_blank e (t_pos s p) (Some p) s)"
    and "t_idletmp (set_tmp_blank e (t_pos s p) (Some p) s) = p # t_idletmp s"
    and "tmp_saved garble (set_tmp_blank e (t_pos s p) (Some p) s) p = Some zero_tasklist"
    and "q \<in> used \<Longrightarrow> q \<noteq> p \<Longrightarrow>
      tmp_saved garble (set_tmp_blank e (t_pos s p) (Some p) s) q = tmp_saved garble s q"
proof -
  let ?w = "file_write (nat (t_pos s p)) zero_tasklist s"
  let ?s = "set_tmp_blank e (t_pos s p) (Some p) s"
  have sl: "slot_in s p" using w p by (auto simp: tmp_wf_def)
  have S: "?s = ?w\<lparr>t_pos := (t_pos s)(p := t_pos s p), t_idletmp := p # t_idletmp s\<rparr>"
    using tmp_wf_slot [OF w _ assms(3), of p] p assms(4) by (simp add: set_tmp_blank_def Let_def)
  have rd: "file_read garble ?s = file_read garble ?w"
    by (rule ext) (simp add: S file_read_def cells_at_def)
  have sz: "tf_size ?s = tf_size s" using sl by (auto simp: S slot_in_def)
  show "t_idletmp ?s = p # t_idletmp s" by (simp add: S)
  show "tmp_wf (used - {p}) ?s" using w p sz
    by (auto simp: tmp_wf_def slot_in_def apart_def S)
  show "tmp_saved garble ?s p = Some zero_tasklist"
    unfolding tmp_saved_def rd by (simp add: S file_read_write)
  assume q: "q \<in> used" "q \<noteq> p"
  then have "slot_in s q" "apart s p q" using w p by (auto simp: tmp_wf_def)
  with saved_write_other [OF _ sl] show "tmp_saved garble ?s q = tmp_saved garble s q"
    unfolding tmp_saved_def rd by (simp add: S)
qed

text \<open>Saving a task takes a slot no other task uses, and the record can be read back.\<close>

lemma set_task_to_tmp_saves:
  assumes w: "tmp_wf used s" and sz: "tf_size s + sizeof_tasklist \<le> 2 ^ 31" and wr: "e_write e"
    and m: "t_idletmp s = [] \<Longrightarrow> \<exists>p. e_malloc e = Some p \<and> p \<notin> used"
  shows "\<exists>p t' s'. set_task_to_tmp e t s = (0, t', s') \<and> ti_user (tl_task t') = Some p \<and> p \<notin> used \<and>
    tmp_wf (insert p used) s' \<and>
    tmp_saved garble s' p = Some (t\<lparr>tl_task := (tl_task t)\<lparr>ti_user := None\<rparr>\<rparr>) \<and>
    (\<forall>q \<in> used. tmp_saved garble s' q = tmp_saved garble s q)"
proof (cases "t_idletmp s")
  case (Cons p ps)
  let ?t = "t\<lparr>tl_task := (tl_task t)\<lparr>ti_user := None\<rparr>\<rparr>"
  let ?w = "file_write (nat (t_pos s p)) ?t s"
  let ?s = "?w\<lparr>t_idletmp := ps\<rparr>"
  have p: "p \<in> set (t_idletmp s) \<union> used" "p \<notin> used" using w Cons by (auto simp: tmp_wf_def)
  have sl: "slot_in s p" using w p by (auto simp: tmp_wf_def)
  have rd: "file_read garble ?s = file_read garble ?w"
    by (rule ext) (simp add: file_read_def cells_at_def)
  have "set_task_to_tmp e t s = (0, ?t\<lparr>tl_task := (tl_task ?t)\<lparr>ti_user := Some p\<rparr>\<rparr>, ?s)"
    using Cons tmp_wf_slot [OF w p(1)] sz wr by (simp add: set_task_to_tmp_def Let_def)
  moreover have "tmp_wf (insert p used) ?s"
    using w Cons sl by (auto simp: tmp_wf_def slot_in_def apart_def)
  moreover have "tmp_saved garble ?s p = Some ?t"
    unfolding tmp_saved_def rd by (simp add: file_read_write)
  moreover have "\<forall>q \<in> used. tmp_saved garble ?s q = tmp_saved garble s q"
  proof
    fix q assume "q \<in> used"
    with w p have "slot_in s q" "apart s p q" by (auto simp: tmp_wf_def intro: tmp_wfD [OF w])
    with saved_write_other [OF _ sl] show "tmp_saved garble ?s q = tmp_saved garble s q"
      unfolding tmp_saved_def rd by simp
  qed
  ultimately show ?thesis using p(2) by auto
next
  case Nil
  let ?t = "t\<lparr>tl_task := (tl_task t)\<lparr>ti_user := None\<rparr>\<rparr>"
  obtain p where p: "e_malloc e = Some p" "p \<notin> used" using m [OF Nil] by blast
  let ?g = "file_truncate (tf_size s + sizeof_tasklist) s"
  let ?w = "file_write (tf_size s) ?t ?g"
  let ?s = "?w\<lparr>t_pos := (t_pos s)(p := int (tf_size s))\<rparr>"
  have rd: "file_read garble ?s = file_read garble ?w"
    by (rule ext) (simp add: file_read_def cells_at_def)
  have "int32 (int (tf_size s)) = int (tf_size s)"
    using sz by (intro int32_id) (auto simp: sizeof_tasklist_def)
  then have "set_task_to_tmp e t s = (0, ?t\<lparr>tl_task := (tl_task ?t)\<lparr>ti_user := Some p\<rparr>\<rparr>, ?s)"
    using Nil p wr by (simp add: set_task_to_tmp_def Let_def)
  moreover have "tmp_wf (insert p used) ?s"
    using w Nil p by (fastforce simp: tmp_wf_def slot_in_def apart_def)
  moreover have "tmp_saved garble ?s p = Some ?t"
    unfolding tmp_saved_def rd by (simp add: file_read_write)
  moreover have "\<forall>q \<in> used. tmp_saved garble ?s q = tmp_saved garble s q"
  proof
    fix q assume q: "q \<in> used"
    with w p have "slot_in s q" "q \<noteq> p" by (auto simp: tmp_wf_def)
    then have "nat (t_pos s q) + sizeof_tasklist \<le> tf_size s" by (auto simp: slot_in_def)
    with \<open>q \<noteq> p\<close> show "tmp_saved garble ?s q = tmp_saved garble s q"
      unfolding tmp_saved_def rd by (simp add: file_read_write_other file_read_truncate)
  qed
  ultimately show ?thesis using p(2) by auto
qed

end
