(* ===== verification/Codec.thy ===== *)
theory Codec
  imports Prelude
begin

text \<open>
  The text helpers of \<open>src/lib\<close>: \<open>util_hex.c\<close> (hexadecimal), \<open>common.c\<close> (\<open>r5hash\<close>,
  \<open>trim_in\<close>, \<open>base64_encode\<close>), \<open>util_str.c\<close> (\<open>str_explode\<close>) and the string hashes of
  \<open>GeneralHashFunctions.c\<close>.  \<open>char\<close> is signed, so a character enters 32 bit
  arithmetic sign-extended (\<open>sx\<close>).
\<close>

definition sx :: "char \<Rightarrow> u32" where
  "sx c = scast (of_char c :: byte)"

section \<open>common.c: hashing and trimming\<close>

definition r5hash :: "string \<Rightarrow> u32" where
  "r5hash p = foldl (\<lambda>h c. h * 11 + push_bit 4 (sx c) + signed_drop_bit 4 (sx c)) 0 p"

text \<open>
  \<open>trim_in\<close> writes to \<open>d\<close> without a terminating zero; the result is the characters
  written.  \<open>trim_in_loop\<close> is its second loop, \<open>c\<close> counting the blanks in a row.
\<close>

fun trim_in_loop :: "nat \<Rightarrow> string \<Rightarrow> string" where
  "trim_in_loop c [] = []"
| "trim_in_loop c (x # s) =
     (if x = CHR '' '' then (if Suc c = 1 then x # trim_in_loop (Suc c) s else trim_in_loop (Suc c) s)
      else x # trim_in_loop 0 s)"

definition trim_in :: "string \<Rightarrow> string" where
  "trim_in s = trim_in_loop 0 (dropWhile (\<lambda>x. x = CHR '' '') s)"

section \<open>common.c: base64\<close>

definition b64 :: string where
  "b64 = ''ABCDEFGHIJKLMNOPQRSTUVWXYZabcdefghijklmnopqrstuvwxyz0123456789+/''"

text \<open>\<open>d[i] >> k\<close> and \<open>d[i] << k\<close> are computed in \<open>int\<close>; the index is at most 63.\<close>

definition b64_index :: "byte list \<Rightarrow> nat \<Rightarrow> u32" where
  "b64_index d i =
     (let byte_offset = (i * 6) div 8; bit_offset = (i * 6) mod 8 in
      if bit_offset < 3 then drop_bit (2 - bit_offset) (ucast (d ! byte_offset)) AND 0x3F
      else let idx = push_bit (bit_offset - 2) (ucast (d ! byte_offset)) AND 0x3F
           in if byte_offset + 1 < length d
              then idx OR drop_bit (8 - (bit_offset - 2)) (ucast (d ! (byte_offset + 1)))
              else idx)"

definition base64_encode :: "byte list \<Rightarrow> bool \<Rightarrow> string" where
  "base64_encode d pad =
     (let bytes = (length d * 8 + 5) div 6;
          out = map (\<lambda>i. b64 ! unat (b64_index d i)) [0..<bytes]
      in if pad then out @ replicate ((4 - bytes mod 4) mod 4) (CHR ''='') else out)"

section \<open>util_hex.c\<close>

definition hex_digits :: string where "hex_digits = ''0123456789abcdef''"

definition encode_hex :: "byte list \<Rightarrow> string" where
  "encode_hex bin = concat (map (\<lambda>b. [hex_digits ! unat (drop_bit 4 b), hex_digits ! unat (b AND 15)]) bin)"

text \<open>\<open>0x20 | c\<close>, then the value of a hex digit; \<open>None\<close> leaves the loop.\<close>

definition hex_val :: "char \<Rightarrow> byte option" where
  "hex_val c =
     (let s = 0x20 OR (of_char c :: byte) in
      if 0x30 \<le> s \<and> s \<le> 0x39 then Some (s - 0x30)
      else if 0x61 \<le> s \<and> s \<le> 0x66 then Some (s - 0x61 + 10)
      else None)"

fun decode_hex :: "string \<Rightarrow> nat \<Rightarrow> byte list" where
  "decode_hex hex 0 = []"
| "decode_hex [] (Suc n) = []"
| "decode_hex [h] (Suc n) = []"
| "decode_hex (h # l # hex) (Suc n) =
     (case hex_val h of None \<Rightarrow> []
      | Some a \<Rightarrow> (case hex_val l of None \<Rightarrow> []
          | Some b \<Rightarrow> (push_bit 4 a + b) # decode_hex hex n))"

section \<open>GeneralHashFunctions.c\<close>

definition JSHash :: "string \<Rightarrow> nat \<Rightarrow> u32" where
  "JSHash str len = foldl (\<lambda>hash c. hash XOR (push_bit 5 hash + sx c + drop_bit 2 hash))
     1315423911 (take len str)"

definition PJW_HighBits :: u32 where "PJW_HighBits = push_bit 28 0xFFFFFFFF"

definition PJWHash :: "string \<Rightarrow> nat \<Rightarrow> u32" where
  "PJWHash str len = foldl (\<lambda>hash c.
     let hash = push_bit 4 hash + sx c; test = hash AND PJW_HighBits
     in if test \<noteq> 0 then (hash XOR drop_bit 24 test) AND NOT PJW_HighBits else hash)
     0 (take len str)"

definition ELFHash :: "string \<Rightarrow> nat \<Rightarrow> u32" where
  "ELFHash str len = foldl (\<lambda>hash c.
     let hash = push_bit 4 hash + sx c; x = hash AND 0xF0000000;
         hash = (if x \<noteq> 0 then hash XOR drop_bit 24 x else hash)
     in hash AND NOT x) 0 (take len str)"

definition BKDRHash :: "string \<Rightarrow> nat \<Rightarrow> u32" where
  "BKDRHash str len = foldl (\<lambda>hash c. hash * 131 + sx c) 0 (take len str)"

definition SDBMHash :: "string \<Rightarrow> nat \<Rightarrow> u32" where
  "SDBMHash str len = foldl (\<lambda>hash c. sx c + push_bit 6 hash + push_bit 16 hash - hash) 0 (take len str)"

definition DJBHash :: "string \<Rightarrow> nat \<Rightarrow> u32" where
  "DJBHash str len = foldl (\<lambda>hash c. (push_bit 5 hash + hash) + sx c) 5381 (take len str)"

definition DEKHash :: "string \<Rightarrow> nat \<Rightarrow> u32" where
  "DEKHash str len = foldl (\<lambda>hash c. (push_bit 5 hash XOR drop_bit 27 hash) XOR sx c)
     (word_of_nat len) (take len str)"

definition BPHash :: "string \<Rightarrow> nat \<Rightarrow> u32" where
  "BPHash str len = foldl (\<lambda>hash c. push_bit 7 hash XOR sx c) 0 (take len str)"

definition FNVHash :: "string \<Rightarrow> nat \<Rightarrow> u32" where
  "FNVHash str len = foldl (\<lambda>hash c. (hash * 0x811C9DC5) XOR sx c) 0 (take len str)"

definition APHash :: "string \<Rightarrow> nat \<Rightarrow> u32" where
  "APHash str len = fst (foldl (\<lambda>(hash, i) c.
     (hash XOR (if even i then push_bit 7 hash XOR (sx c * drop_bit 3 hash)
                else NOT (push_bit 11 hash + (sx c XOR drop_bit 5 hash))), Suc i))
     (0xAAAAAAAA, 0 :: nat) (take len str))"

definition get_3_hash :: "string \<Rightarrow> u32 \<times> u32 \<times> u32" where
  "get_3_hash s = (let l = length s in (SDBMHash s l, DJBHash s l, DEKHash s l))"

section \<open>util_str.c: splitting a line\<close>

text \<open>
  The separators: \<open>NULL\<close> stands for blanks, a string whose first byte is zero is itself
  the table, any other string lists its characters (\<open>build_ifs\<close>).
\<close>

datatype ifs_arg = IFS_null | IFS_table "char \<Rightarrow> bool" | IFS_chars string

definition default_ifs :: "char \<Rightarrow> bool" where
  "default_ifs c \<longleftrightarrow> chr_code c \<in> {9, 10, 13, 32}"

definition build_ifs :: "string \<Rightarrow> char \<Rightarrow> bool" where
  "build_ifs ifs0 c \<longleftrightarrow> c \<in> set ifs0"

definition ifs_of :: "ifs_arg \<Rightarrow> char \<Rightarrow> bool" where
  "ifs_of a = (case a of IFS_null \<Rightarrow> default_ifs | IFS_table t \<Rightarrow> t | IFS_chars s \<Rightarrow> build_ifs s)"

text \<open>
  The loop of \<open>str_explode\<close> from \<open>line\<close>, with \<open>i\<close> fields stored before it.  A field that
  starts with a quote ends at the next one; the last field that fits takes the rest of
  the line without its trailing separators.
\<close>

function explode_loop :: "(char \<Rightarrow> bool) \<Rightarrow> int \<Rightarrow> int \<Rightarrow> string \<Rightarrow> string list" where
  "explode_loop ifs n i line =
     (case dropWhile ifs line of
        [] \<Rightarrow> []
      | c # cs \<Rightarrow>
        if c = CHR 0x22 \<or> c = CHR 0x27 then
          (case strchr cs c of
             None \<Rightarrow> [cs]
           | Some k \<Rightarrow> take k cs # (if i + 1 \<ge> n then [] else explode_loop ifs n (i + 1) (drop (Suc k) cs)))
        else if i + 1 \<ge> n then [rev (dropWhile ifs (rev (c # cs)))]
        else takeWhile (\<lambda>x. \<not> ifs x) (c # cs) #
          (case dropWhile (\<lambda>x. \<not> ifs x) (c # cs) of
             [] \<Rightarrow> []
           | _ # rest \<Rightarrow> explode_loop ifs n (i + 1) rest))"
  by pat_completeness auto
termination
proof (relation "measure (\<lambda>(ifs, n, i, line). length line)", goal_cases)
  case 1
  show ?case by simp
next
  case (2 ifs n i line c cs k)
  then have "length (c # cs) \<le> length line" by (metis length_dropWhile_le)
  then show ?case by simp
next
  case (3 ifs n i line c cs x rest)
  then have "length (c # cs) \<le> length line" by (metis length_dropWhile_le)
  moreover have "length (x # rest) \<le> length (c # cs)" using 3 by (metis length_dropWhile_le)
  ultimately show ?case by simp
qed

declare explode_loop.simps [simp del]

definition str_explode :: "ifs_arg \<Rightarrow> string \<Rightarrow> int \<Rightarrow> string list" where
  "str_explode ifs line n = explode_loop (ifs_of ifs) n 0 line"

text \<open>Joining words with separators and splitting the line gives the words back.\<close>

definition is_word :: "(char \<Rightarrow> bool) \<Rightarrow> string \<Rightarrow> bool" where
  "is_word ifs w \<longleftrightarrow> w \<noteq> [] \<and> list_all (\<lambda>c. \<not> ifs c) w \<and> hd w \<noteq> CHR 0x22 \<and> hd w \<noteq> CHR 0x27"

primrec join_words :: "char \<Rightarrow> string list \<Rightarrow> string" where
  "join_words sep [] = []"
| "join_words sep (w # ws) = w @ sep # join_words sep ws"

lemma explode_loop_join:
  "\<lbrakk>ifs sep; list_all (is_word ifs) ws; i + int (length ws) < n\<rbrakk>
   \<Longrightarrow> explode_loop ifs n i (join_words sep ws) = ws"
proof (induction ws arbitrary: i)
  case Nil
  then show ?case by (simp add: explode_loop.simps)
next
  case (Cons w ws)
  from Cons.prems obtain c cs where w: "w = c # cs" and c: "\<not> ifs c" "c \<noteq> CHR 0x22" "c \<noteq> CHR 0x27"
    and cs: "\<forall>x \<in> set cs. \<not> ifs x"
    by (cases w) (auto simp: is_word_def list_all_iff)
  have "dropWhile (\<lambda>x. \<not> ifs x) (cs @ sep # join_words sep ws) = sep # join_words sep ws"
       "takeWhile (\<lambda>x. \<not> ifs x) (cs @ sep # join_words sep ws) = cs"
    using cs Cons.prems(1) by (simp_all add: dropWhile_append2 takeWhile_append2)
  moreover have "explode_loop ifs n (i + 1) (join_words sep ws) = ws"
    using Cons by simp
  ultimately show ?case using w c Cons.prems(3) by (simp add: explode_loop.simps [of ifs n i])
qed

section \<open>Hexadecimal round trip\<close>

lemma hex_digits_nth:
  "n < 16 \<Longrightarrow> hex_val (hex_digits ! n) = Some (word_of_nat n)"
proof -
  assume "n < 16"
  then have "n \<in> set [0..<16]" by simp
  moreover have "\<forall>n \<in> set [0..<16]. hex_val (hex_digits ! n) = Some (word_of_nat n)"
    by code_simp
  ultimately show ?thesis by blast
qed

lemma low_nibble: "(b :: byte) AND 15 = take_bit 4 b"
proof -
  have "(15 :: byte) = mask 4" by (simp add: mask_eq_exp_minus_1)
  then show ?thesis by (simp add: take_bit_eq_mask)
qed

lemma byte_nibbles: "push_bit 4 (drop_bit 4 b) + (b AND 15) = (b :: byte)"
  unfolding low_nibble by (rule bits_ident)

lemma nibble_bounds: "unat (drop_bit 4 (b :: byte)) < 16" "unat ((b :: byte) AND 15) < 16"
proof -
  have "unat b < 2 ^ LENGTH(8)" by (rule unsigned_less)
  then have "unat b < 256" by simp
  then have "unat b div 16 < 16" by simp
  moreover have "unat (drop_bit 4 b) = unat b div 16"
    using drop_bit_eq_div [of 4 "unat b"] take_bit_nat_eq_self [of "unat b" 8] \<open>unat b < 256\<close>
    by (simp add: unsigned_drop_bit_eq del: drop_bit_eq_div)
  ultimately show "unat (drop_bit 4 b) < 16" by simp
  have "unat (b AND 15) = unat b mod 16"
    using take_bit_eq_mod [of 4 "unat b"]
    by (simp add: low_nibble unsigned_take_bit_eq del: take_bit_eq_mod)
  then show "unat (b AND 15) < 16" by simp
qed

lemma decode_encode_hex:
  "decode_hex (encode_hex bin @ rest) (length bin) = bin"
  by (induction bin) (simp_all add: encode_hex_def hex_digits_nth nibble_bounds byte_nibbles)

lemma length_encode_hex: "length (encode_hex bin) = 2 * length bin"
  by (induction bin) (simp_all add: encode_hex_def)

end
