(* ===== verification/MD5.thy ===== *)
theory MD5
  imports MyBuff Protocol Codec
begin

text \<open>
  \<open>src/lib/md5.c\<close>, and the file digests of \<open>src/lib/util_misc.c\<close>.  The context keeps the four
  state words, the 64 bit count of bits as two words, and the 64 bytes of the block being
  filled (with old bytes behind the filled part).  \<open>md5_ref\<close> is the digest of a message
  as RFC 1321 defines it, by padding the whole message; the streaming code computes it
  however the message is cut.
\<close>

type_synonym md5_state = "u32 \<times> u32 \<times> u32 \<times> u32"

record MD5Context =
  m_buf :: md5_state
  m_bits0 :: u32
  m_bits1 :: u32
  m_in :: "byte list"

section \<open>The code\<close>

definition F1 :: "u32 \<Rightarrow> u32 \<Rightarrow> u32 \<Rightarrow> u32" where "F1 x y z = z XOR (x AND (y XOR z))"
definition F2 :: "u32 \<Rightarrow> u32 \<Rightarrow> u32 \<Rightarrow> u32" where "F2 x y z = F1 z x y"
definition F3 :: "u32 \<Rightarrow> u32 \<Rightarrow> u32 \<Rightarrow> u32" where "F3 x y z = x XOR y XOR z"
definition F4 :: "u32 \<Rightarrow> u32 \<Rightarrow> u32 \<Rightarrow> u32" where "F4 x y z = y XOR (x OR NOT z)"

text \<open>
  One \<open>MD5STEP\<close>.  The source writes the 64 steps out, renaming the variables from step to
  step; here the result is the state as the next step names it.
\<close>

definition MD5STEP :: "(u32 \<Rightarrow> u32 \<Rightarrow> u32 \<Rightarrow> u32) \<Rightarrow> u32 \<Rightarrow> nat \<Rightarrow> md5_state \<Rightarrow> md5_state" where
  "MD5STEP f data s st =
     (let (w, x, y, z) = st;
          w = w + (f x y z + data);
          w = push_bit s w OR drop_bit (32 - s) w;
          w = w + x
      in (z, w, x, y))"

definition md5_steps :: "((u32 \<Rightarrow> u32 \<Rightarrow> u32 \<Rightarrow> u32) \<times> nat \<times> u32 \<times> nat) list" where
  "md5_steps =
  [(F1, 0, 0xd76aa478, 7), (F1, 1, 0xe8c7b756, 12), (F1, 2, 0x242070db, 17), (F1, 3, 0xc1bdceee, 22),
   (F1, 4, 0xf57c0faf, 7), (F1, 5, 0x4787c62a, 12), (F1, 6, 0xa8304613, 17), (F1, 7, 0xfd469501, 22),
   (F1, 8, 0x698098d8, 7), (F1, 9, 0x8b44f7af, 12), (F1, 10, 0xffff5bb1, 17), (F1, 11, 0x895cd7be, 22),
   (F1, 12, 0x6b901122, 7), (F1, 13, 0xfd987193, 12), (F1, 14, 0xa679438e, 17), (F1, 15, 0x49b40821, 22),
   (F2, 1, 0xf61e2562, 5), (F2, 6, 0xc040b340, 9), (F2, 11, 0x265e5a51, 14), (F2, 0, 0xe9b6c7aa, 20),
   (F2, 5, 0xd62f105d, 5), (F2, 10, 0x02441453, 9), (F2, 15, 0xd8a1e681, 14), (F2, 4, 0xe7d3fbc8, 20),
   (F2, 9, 0x21e1cde6, 5), (F2, 14, 0xc33707d6, 9), (F2, 3, 0xf4d50d87, 14), (F2, 8, 0x455a14ed, 20),
   (F2, 13, 0xa9e3e905, 5), (F2, 2, 0xfcefa3f8, 9), (F2, 7, 0x676f02d9, 14), (F2, 12, 0x8d2a4c8a, 20),
   (F3, 5, 0xfffa3942, 4), (F3, 8, 0x8771f681, 11), (F3, 11, 0x6d9d6122, 16), (F3, 14, 0xfde5380c, 23),
   (F3, 1, 0xa4beea44, 4), (F3, 4, 0x4bdecfa9, 11), (F3, 7, 0xf6bb4b60, 16), (F3, 10, 0xbebfbc70, 23),
   (F3, 13, 0x289b7ec6, 4), (F3, 0, 0xeaa127fa, 11), (F3, 3, 0xd4ef3085, 16), (F3, 6, 0x04881d05, 23),
   (F3, 9, 0xd9d4d039, 4), (F3, 12, 0xe6db99e5, 11), (F3, 15, 0x1fa27cf8, 16), (F3, 2, 0xc4ac5665, 23),
   (F4, 0, 0xf4292244, 6), (F4, 7, 0x432aff97, 10), (F4, 14, 0xab9423a7, 15), (F4, 5, 0xfc93a039, 21),
   (F4, 12, 0x655b59c3, 6), (F4, 3, 0x8f0ccc92, 10), (F4, 10, 0xffeff47d, 15), (F4, 1, 0x85845dd1, 21),
   (F4, 8, 0x6fa87e4f, 6), (F4, 15, 0xfe2ce6e0, 10), (F4, 6, 0xa3014314, 15), (F4, 13, 0x4e0811a1, 21),
   (F4, 4, 0xf7537e82, 6), (F4, 11, 0xbd3af235, 10), (F4, 2, 0x2ad7d2bb, 15), (F4, 9, 0xeb86d391, 21)]"

definition words_of :: "byte list \<Rightarrow> u32 list" where
  "words_of b = map (\<lambda>i. of_le32 (drop (4 * i) b)) [0..<16]"

definition MD5Transform :: "md5_state \<Rightarrow> byte list \<Rightarrow> md5_state" where
  "MD5Transform buf block =
     (let ws = words_of block;
          (a, b, c, d) = foldl (\<lambda>st (f, k, con, s). MD5STEP f (ws ! k + con) s st) buf md5_steps;
          (a0, b0, c0, d0) = buf
      in (a0 + a, b0 + b, c0 + c, d0 + d))"

definition md5_start :: md5_state where
  "md5_start = (0x67452301, 0xefcdab89, 0x98badcfe, 0x10325476)"

text \<open>\<open>MD5Init\<close> leaves the block as it is.\<close>

definition MD5Init :: "MD5Context \<Rightarrow> MD5Context" where
  "MD5Init ctx = ctx\<lparr>m_buf := md5_start, m_bits0 := 0, m_bits1 := 0\<rparr>"

fun md5_blocks :: "MD5Context \<Rightarrow> byte list \<Rightarrow> MD5Context" where
  "md5_blocks ctx data =
     (if 64 \<le> length data then
        let ctx = ctx\<lparr>m_in := memcpy_at (m_in ctx) 0 (take 64 data)\<rparr>
        in md5_blocks (ctx\<lparr>m_buf := MD5Transform (m_buf ctx) (m_in ctx)\<rparr>) (drop 64 data)
      else ctx\<lparr>m_in := memcpy_at (m_in ctx) 0 data\<rparr>)"

declare md5_blocks.simps [simp del]

text \<open>The count of bits, with the carry from the low to the high word.\<close>

definition md5_count :: "nat \<Rightarrow> MD5Context \<Rightarrow> MD5Context" where
  "md5_count len ctx =
     (let t = m_bits0 ctx; n = word_of_nat len :: u32; b0 = t + push_bit 3 n;
          b1 = (if b0 < t then m_bits1 ctx + 1 else m_bits1 ctx)
      in ctx\<lparr>m_bits0 := b0, m_bits1 := b1 + drop_bit 29 n\<rparr>)"

definition MD5Update :: "byte list \<Rightarrow> MD5Context \<Rightarrow> MD5Context" where
  "MD5Update data ctx =
     (let t = unat (drop_bit 3 (m_bits0 ctx) AND 0x3f);
          ctx = md5_count (length data) ctx
      in if t \<noteq> 0 then
           (let r = 64 - t in
            if length data < r then ctx\<lparr>m_in := memcpy_at (m_in ctx) t data\<rparr>
            else let ctx = ctx\<lparr>m_in := memcpy_at (m_in ctx) t (take r data)\<rparr>
                 in md5_blocks (ctx\<lparr>m_buf := MD5Transform (m_buf ctx) (m_in ctx)\<rparr>) (drop r data))
         else md5_blocks ctx data)"

definition digest_bytes :: "md5_state \<Rightarrow> byte list" where
  "digest_bytes st = (case st of (a, b, c, d) \<Rightarrow> le32 a @ le32 b @ le32 c @ le32 d)"

definition MD5Final :: "MD5Context \<Rightarrow> byte list" where
  "MD5Final ctx =
     (let count = unat (drop_bit 3 (m_bits0 ctx) AND 0x3F);
          inb = memcpy_at (m_in ctx) count [0x80];
          p = count + 1; count = 64 - 1 - count;
          (buf, inb) =
            (if count < 8 then
               (let inb = memcpy_at inb p (replicate count 0)
                in (MD5Transform (m_buf ctx) inb, memcpy_at inb 0 (replicate 56 0)))
             else (m_buf ctx, memcpy_at inb p (replicate (count - 8) 0)));
          inb = memcpy_at inb 56 (le32 (m_bits0 ctx) @ le32 (m_bits1 ctx))
      in digest_bytes (MD5Transform buf inb))"

text \<open>A context on the stack; its bytes are not initialised.\<close>

definition fresh_ctx :: "byte list \<Rightarrow> MD5Context" where
  "fresh_ctx junk = \<lparr>m_buf = (0, 0, 0, 0), m_bits0 = 0, m_bits1 = 0, m_in = junk\<rparr>"

definition MD5Digest :: "byte list \<Rightarrow> byte list \<Rightarrow> byte list" where
  "MD5Digest junk msg = MD5Final (MD5Update msg (MD5Init (fresh_ctx junk)))"

definition hmac_key :: "byte list \<Rightarrow> byte list \<Rightarrow> byte list" where
  "hmac_key junk password = (if length password > 64 then MD5Digest junk password else password)"

definition xor_pad :: "byte \<Rightarrow> byte list \<Rightarrow> byte list" where
  "xor_pad v key = map (\<lambda>b. b XOR v) (memcpy_at (replicate 64 0) 0 key)"

definition MD5HMAC :: "byte list \<Rightarrow> byte list \<Rightarrow> byte list \<Rightarrow> byte list" where
  "MD5HMAC junk password challenge =
     (let key = hmac_key junk password;
          response = MD5Final (MD5Update challenge (MD5Update (xor_pad 0x36 key) (MD5Init (fresh_ctx junk))))
      in MD5Final (MD5Update response (MD5Update (xor_pad 0x5c key) (MD5Init (fresh_ctx junk)))))"

definition MD5HMAC2 :: "byte list \<Rightarrow> byte list \<Rightarrow> byte list \<Rightarrow> byte list \<Rightarrow> byte list" where
  "MD5HMAC2 junk password challenge challenge2 =
     (let key = hmac_key junk password;
          response = MD5Final (MD5Update challenge2 (MD5Update challenge
            (MD5Update (xor_pad 0x36 key) (MD5Init (fresh_ctx junk)))))
      in MD5Final (MD5Update response (MD5Update (xor_pad 0x5c key) (MD5Init (fresh_ctx junk)))))"

text \<open>
  \<open>getfilemd5\<close> reads the file in pieces of a megabyte; \<open>None\<close> is a file that cannot be
  opened.  A read error in the middle is not modelled.
\<close>

definition BUFSIZE :: nat where "BUFSIZE = 1048576"

function md5_pieces :: "byte list \<Rightarrow> MD5Context \<Rightarrow> MD5Context" where
  "md5_pieces content ctx =
     (let piece = take BUFSIZE content in
      if piece = [] then ctx
      else if length piece < BUFSIZE then MD5Update piece ctx
      else md5_pieces (drop BUFSIZE content) (MD5Update piece ctx))"
  by pat_completeness auto
termination
  by (relation "measure (\<lambda>(content, ctx). length content)") (auto simp: BUFSIZE_def)

declare md5_pieces.simps [simp del]

definition getmd5 :: "byte list \<Rightarrow> byte list \<Rightarrow> byte list" where
  "getmd5 junk data = MD5Final (MD5Update data (MD5Init (fresh_ctx junk)))"

definition getfilemd5 :: "byte list \<Rightarrow> byte list option \<Rightarrow> byte list option" where
  "getfilemd5 junk file =
     (case file of None \<Rightarrow> None
      | Some content \<Rightarrow> Some (MD5Final (md5_pieces content (MD5Init (fresh_ctx junk)))))"

definition getfilemd5view :: "byte list \<Rightarrow> byte list option \<Rightarrow> string option" where
  "getfilemd5view junk file = map_option encode_hex (getfilemd5 junk file)"

section \<open>The digest of a message\<close>

fun absorb :: "md5_state \<Rightarrow> byte list \<Rightarrow> md5_state" where
  "absorb st data = (if 64 \<le> length data then absorb (MD5Transform st (take 64 data)) (drop 64 data) else st)"

declare absorb.simps [simp del]

definition md5_padding :: "nat \<Rightarrow> byte list" where
  "md5_padding len = [0x80] @ replicate (nat ((55 - int len) mod 64)) 0 @
     le32 (word_of_nat (8 * len)) @ le32 (word_of_nat (8 * len div 2 ^ 32))"

definition md5_ref :: "byte list \<Rightarrow> byte list" where
  "md5_ref msg = digest_bytes (absorb md5_start (msg @ md5_padding (length msg)))"

section \<open>Streaming\<close>

lemma absorb_short: "length data < 64 \<Longrightarrow> absorb st data = st"
  by (simp add: absorb.simps)

lemma absorb_block: "length b = 64 \<Longrightarrow> absorb st (b @ data) = absorb (MD5Transform st b) data"
  by (simp add: absorb.simps [of st "b @ data"])

lemma absorb_append:
  "64 dvd length a \<Longrightarrow> absorb st (a @ b) = absorb (absorb st a) b"
proof (induction st a rule: absorb.induct)
  case (1 st a)
  show ?case
  proof (cases "64 \<le> length a")
    case True
    then have "64 dvd length (drop 64 a)" using "1.prems" by (simp add: dvd_minus_self dvd_diff_nat)
    with 1 True show ?thesis by (simp add: absorb.simps [of st a] absorb.simps [of st "a @ b"])
  next
    case False
    with "1.prems" have "a = []" by (cases "length a = 0") (auto dest: dvd_imp_le)
    then show ?thesis by (simp add: absorb_short)
  qed
qed

text \<open>The whole blocks of a message, and what is left.\<close>

definition whole :: "byte list \<Rightarrow> byte list" where
  "whole msg = take (64 * (length msg div 64)) msg"

definition left_over :: "byte list \<Rightarrow> byte list" where
  "left_over msg = drop (64 * (length msg div 64)) msg"

lemma whole_left: "msg = whole msg @ left_over msg"
  by (simp add: whole_def left_over_def)

lemma length_whole [simp]: "length (whole msg) = 64 * (length msg div 64)"
  by (simp add: whole_def)

lemma length_left_over [simp]: "length (left_over msg) = length msg mod 64"
  by (simp add: left_over_def minus_mult_div_eq_mod)

lemma absorb_whole: "absorb st msg = absorb st (whole msg)"
  using absorb_append [of "whole msg" st "left_over msg"]
  by (simp add: absorb_short flip: whole_left)

lemma split_unique:
  assumes "msg = a @ b" and "64 dvd length a" and "length b < 64"
  shows "a = whole msg" and "b = left_over msg"
proof -
  obtain k where k: "length a = 64 * k" using assms(2) by auto
  then have "length msg div 64 = k" using assms(1,3) by simp
  with k assms(1) show "a = whole msg" "b = left_over msg" by (simp_all add: whole_def left_over_def)
qed

definition ctx_ok :: "MD5Context \<Rightarrow> byte list \<Rightarrow> bool" where
  "ctx_ok ctx msg \<longleftrightarrow> length (m_in ctx) = 64 \<and> m_buf ctx = absorb md5_start msg \<and>
     take (length msg mod 64) (m_in ctx) = left_over msg \<and>
     m_bits0 ctx = word_of_nat (8 * length msg) \<and> m_bits1 ctx = word_of_nat (8 * length msg div 2 ^ 32)"

lemma two_residues:
  fixes m r s :: nat
  assumes "r < m" and "s < m"
  shows "(r + s) mod m = (if r + s < m then r + s else r + s - m)"
    and "(r + s) div m = (if r + s < m then 0 else 1)"
    and "(r + s) mod m < r \<longleftrightarrow> \<not> r + s < m"
proof -
  have "r + s - m < m" using assms by linarith
  then show a: "(r + s) mod m = (if r + s < m then r + s else r + s - m)" by (simp add: le_mod_geq)
  from \<open>r + s - m < m\<close> show "(r + s) div m = (if r + s < m then 0 else 1)"
    using assms by (simp add: le_div_geq)
  show "(r + s) mod m < r \<longleftrightarrow> \<not> r + s < m" unfolding a using assms by (simp split: if_split) linarith
qed

lemma add_div_cases: "0 < m \<Longrightarrow> (x + y) div m = x div m + y div m + (if x mod m + y mod m < m then 0 else 1)"
  for m :: nat
  by (simp add: div_add1_eq [of x y m] two_residues(2))

lemma carry_iff: "0 < m \<Longrightarrow> (x + y) mod m < x mod m \<longleftrightarrow> \<not> x mod m + y mod m < m" for m :: nat
  using two_residues(3) [of "x mod m" m "y mod m"] by (simp add: mod_add_eq)

lemma md5_count_ok:
  assumes "m_bits0 ctx = word_of_nat (8 * n)" and "m_bits1 ctx = word_of_nat (8 * n div 2 ^ 32)" and "len < 2 ^ 32"
  shows "m_bits0 (md5_count len ctx) = word_of_nat (8 * (n + len))"
    and "m_bits1 (md5_count len ctx) = word_of_nat (8 * (n + len) div 2 ^ 32)"
proof -
  let ?A = "8 * n" and ?B = "8 * len"
  define M where "M = (2 ^ 32 :: nat)"
  have M: "0 < M" by (simp add: M_def)
  have b0: "m_bits0 (md5_count len ctx) = word_of_nat (?A + ?B)"
    using assms(1) by (simp add: md5_count_def Let_def push_bit_eq_mult)
  then show "m_bits0 (md5_count len ctx) = word_of_nat (8 * (n + len))" by (simp add: algebra_simps)
  have u: "unat (word_of_nat x :: u32) = x mod M" for x by (simp add: unsigned_of_nat take_bit_eq_mod M_def)
  have hi: "drop_bit 29 (word_of_nat len :: u32) = word_of_nat (?B div M)"
  proof (rule word_unat_eq_iff [THEN iffD2])
    have "unat (drop_bit 29 (word_of_nat len :: u32)) = len div 2 ^ 29"
      using assms(3) drop_bit_eq_div [of 29 len] take_bit_nat_eq_self [of len 32]
      by (simp add: unsigned_drop_bit_eq unsigned_of_nat del: drop_bit_eq_div)
    moreover have "?B div M = len div 2 ^ 29" by (simp add: M_def)
    moreover have "len div 2 ^ 29 < M" using assms(3) by (simp add: M_def)
    ultimately show "unat (drop_bit 29 (word_of_nat len :: u32)) = unat (word_of_nat (?B div M) :: u32)"
      by (simp add: u)
  qed
  have lt: "(word_of_nat (?A + ?B) :: u32) < word_of_nat ?A \<longleftrightarrow> \<not> ?A mod M + ?B mod M < M"
    unfolding word_less_nat_alt u using carry_iff [OF M, of ?A ?B] .
  have "m_bits1 (md5_count len ctx) =
      word_of_nat (?A div M) + (if ?A mod M + ?B mod M < M then 0 else 1) + word_of_nat (?B div M)"
    using b0 lt hi assms(1,2) by (simp add: md5_count_def Let_def M_def)
  also have "\<dots> = word_of_nat ((?A + ?B) div M)"
    by (simp add: add_div_cases [OF M])
  finally show "m_bits1 (md5_count len ctx) = word_of_nat (8 * (n + len) div 2 ^ 32)"
    by (simp add: M_def algebra_simps)
qed

lemma md5_blocks_ok:
  "length (m_in ctx) = 64 \<Longrightarrow> length (m_in (md5_blocks ctx data)) = 64 \<and>
     m_buf (md5_blocks ctx data) = absorb (m_buf ctx) data \<and>
     take (length data mod 64) (m_in (md5_blocks ctx data)) = left_over data \<and>
     m_bits0 (md5_blocks ctx data) = m_bits0 ctx \<and> m_bits1 (md5_blocks ctx data) = m_bits1 ctx"
proof (induction ctx data rule: md5_blocks.induct)
  case (1 ctx data)
  show ?case
  proof (cases "64 \<le> length data")
    case True
    then have "length data mod 64 = (length data - 64) mod 64" by (simp add: le_mod_geq)
    moreover have "left_over (drop 64 data) = left_over data"
      using True by (simp add: left_over_def le_div_geq add.commute)
    moreover have "memcpy_at (m_in ctx) 0 (take 64 data) = take 64 data"
      using True "1.prems" by (simp add: memcpy_at_def)
    ultimately show ?thesis
      using True "1.IH" [OF True refl] "1.prems"
      by (simp add: md5_blocks.simps [of ctx data] absorb.simps [of _ data])
  next
    case False
    then show ?thesis using "1.prems"
      by (simp add: md5_blocks.simps [of ctx data] absorb_short left_over_def memcpy_at_def)
  qed
qed

lemma left_over_append: "64 dvd length a \<Longrightarrow> left_over (a @ b) = left_over b"
  using split_unique(2) [of "a @ b" "a @ whole b" "left_over b"] whole_left [of b]
  by (simp add: dvd_add_right_iff)

lemma in_block:
  assumes "w = (word_of_nat (8 * n) :: u32)"
  shows "unat (drop_bit 3 w AND 0x3f) = n mod 64"
proof -
  have "unat w = 8 * n mod 2 ^ 32"
    unfolding assms unsigned_of_nat take_bit_eq_mod by simp
  then have "unat w = 8 * (n mod 2 ^ 29)"
    using mult_mod_right [of 8 n "2 ^ 29"] by simp
  then have "unat (drop_bit 3 w) = n mod 2 ^ 29"
    using drop_bit_eq_div [of 3 "unat w"] take_bit_nat_eq_self [of "unat w" 32] unsigned_less [of w]
    by (simp add: unsigned_drop_bit_eq del: drop_bit_eq_div)
  moreover have "drop_bit 3 w AND 0x3f = take_bit 6 (drop_bit 3 w)"
    by (simp add: take_bit_eq_mask mask_eq_exp_minus_1)
  ultimately have "unat (drop_bit 3 w AND 0x3f) = take_bit 6 (n mod 2 ^ 29)"
    by (simp add: unsigned_take_bit_eq del: take_bit_eq_mod)
  also have "\<dots> = n mod 64" by (simp add: take_bit_eq_mod mod_mod_cancel)
  finally show ?thesis .
qed

lemma MD5Init_ok: "length (m_in ctx) = 64 \<Longrightarrow> ctx_ok (MD5Init ctx) []"
  by (simp add: ctx_ok_def MD5Init_def absorb_short left_over_def)

lemma ctx_okD:
  assumes "ctx_ok ctx msg"
  shows "length (m_in ctx) = 64" and "m_buf ctx = absorb md5_start (whole msg)"
    and "take (length msg mod 64) (m_in ctx) = left_over msg"
  using assms absorb_whole [of md5_start msg] by (simp_all add: ctx_ok_def)

text \<open>What an update does to the block and the state, its count of bits aside.\<close>

lemma absorb_fill:
  "length (left_over msg @ b) = 64 \<Longrightarrow>
     absorb md5_start (msg @ b) = MD5Transform (absorb md5_start (whole msg)) (left_over msg @ b) \<and>
     64 dvd length (msg @ b)"
proof
  assume len: "length (left_over msg @ b) = 64"
  have "absorb md5_start (msg @ b) = absorb (absorb md5_start (whole msg)) ((left_over msg @ b) @ [])"
    using absorb_append [of "whole msg" md5_start "left_over msg @ b"] by (simp flip: append_assoc whole_left)
  also have "\<dots> = MD5Transform (absorb md5_start (whole msg)) (left_over msg @ b)"
    unfolding absorb_block [OF len] by (simp add: absorb_short)
  finally show "absorb md5_start (msg @ b) = MD5Transform (absorb md5_start (whole msg)) (left_over msg @ b)" .
  have "length (msg @ b) = 64 * (length msg div 64) + length (left_over msg @ b)" by simp
  then show "64 dvd length (msg @ b)" using len by (metis dvd_add dvd_refl dvd_triv_left)
qed

lemma md5_blocks_feed:
  assumes "length (m_in ctx) = 64" and "m_buf ctx = absorb md5_start msg" and "64 dvd length msg"
    and "m_bits0 ctx = word_of_nat (8 * length (msg @ d))" and "m_bits1 ctx = word_of_nat (8 * length (msg @ d) div 2 ^ 32)"
  shows "ctx_ok (md5_blocks ctx d) (msg @ d)"
proof -
  have "length (msg @ d) mod 64 = length d mod 64" using assms(3) by auto
  then show ?thesis
    using md5_blocks_ok [OF assms(1), of d] assms absorb_append [OF assms(3), of md5_start d]
      left_over_append [OF assms(3), of d]
    unfolding ctx_ok_def by simp
qed

lemma md5_count_more [simp]:
  "m_in (md5_count len ctx) = m_in ctx" "m_buf (md5_count len ctx) = m_buf ctx"
  by (simp_all add: md5_count_def Let_def)

lemma MD5Update_ok:
  assumes ok: "ctx_ok ctx msg" and len: "length d < 2 ^ 32"
  shows "ctx_ok (MD5Update d ctx) (msg @ d)"
proof -
  let ?t = "length msg mod 64" and ?c = "md5_count (length d) ctx"
  note D = ctx_okD [OF ok]
  have t: "unat (drop_bit 3 (m_bits0 ctx) AND 0x3f) = ?t"
    using ok by (intro in_block) (simp add: ctx_ok_def)
  have c0: "m_bits0 ?c = word_of_nat (8 * length (msg @ d))"
    and c1: "m_bits1 ?c = word_of_nat (8 * length (msg @ d) div 2 ^ 32)"
    using md5_count_ok [of ctx "length msg" "length d"] ok len unfolding ctx_ok_def by simp_all
  consider (whole) "?t = 0" | (short) "?t \<noteq> 0" "length d < 64 - ?t" | (long) "?t \<noteq> 0" "64 - ?t \<le> length d"
    by linarith
  then show ?thesis
  proof cases
    case whole
    then have "64 dvd length msg" by (simp add: mod_eq_0_iff_dvd)
    then show ?thesis
      using md5_blocks_feed [of ?c msg d] ok c0 c1 whole t by (simp add: MD5Update_def ctx_ok_def)
  next
    case short
    have e: "msg @ d = whole msg @ left_over msg @ d" by (simp flip: append_assoc whole_left)
    have l: "length (left_over msg @ d) < 64" "64 dvd length (whole msg)" using short by simp_all
    note s = split_unique [OF e l(2,1), symmetric]
    let ?x = "?c\<lparr>m_in := memcpy_at (m_in ctx) ?t d\<rparr>"
    have "MD5Update d ctx = ?x" using short t by (simp add: MD5Update_def Let_def)
    moreover have "length (m_in ?x) = 64" using short D(1) by (simp add: memcpy_at_def)
    moreover have "m_buf ?x = absorb md5_start (msg @ d)"
      using D(2) s(1) absorb_whole [of md5_start "msg @ d"] by simp
    moreover have "length (msg @ d) mod 64 = ?t + length d"
      using length_left_over [of "msg @ d"] unfolding s(2) by simp
    moreover have "take (?t + length d) (m_in ?x) = left_over (msg @ d)"
      using short D(1,3) s(2) by (simp add: memcpy_at_def)
    ultimately show ?thesis using c0 c1 by (simp add: ctx_ok_def)
  next
    case long
    let ?r = "64 - ?t"
    let ?b = "take ?r d"
    have len64: "length (left_over msg @ ?b) = 64" using long(2) by simp
    let ?x = "?c\<lparr>m_in := left_over msg @ ?b, m_buf := MD5Transform (m_buf ctx) (left_over msg @ ?b)\<rparr>"
    have "memcpy_at (m_in ctx) ?t ?b = left_over msg @ ?b"
      using long(2) D(1,3) by (simp add: memcpy_at_def)
    then have "MD5Update d ctx = md5_blocks ?x (drop ?r d)"
      using long t by (simp add: MD5Update_def Let_def)
    moreover have "ctx_ok (md5_blocks ?x (drop ?r d)) ((msg @ ?b) @ drop ?r d)"
      using absorb_fill [OF len64] len64 D(2) c0 c1 by (intro md5_blocks_feed) simp_all
    ultimately show ?thesis by simp
  qed
qed

lemma nat_sub: "c < 64 \<Longrightarrow> nat (119 - int c) = 119 - c"
  by arith

lemma MD5Final_ok:
  assumes ok: "ctx_ok ctx msg"
  shows "MD5Final ctx = md5_ref msg"
proof -
  let ?c = "length msg mod 64" and ?n = "length msg"
  let ?z = "nat ((55 - int ?n) mod 64)"
  let ?bits = "le32 (m_bits0 ctx) @ le32 (m_bits1 ctx)"
  note D = ctx_okD [OF ok]
  have c64: "?c < 64" by simp
  have t: "unat (drop_bit 3 (m_bits0 ctx) AND 0x3F) = ?c"
    using ok by (intro in_block) (simp add: ctx_ok_def)
  have pad: "md5_padding ?n = [0x80] @ replicate ?z 0 @ ?bits"
    using ok by (simp add: md5_padding_def ctx_ok_def)
  have "(55 - int ?n) mod 64 = (55 - int ?c) mod 64" by (simp add: zmod_int mod_diff_right_eq)
  moreover have "(55 - int ?c) mod 64 = (if ?c < 56 then 55 - int ?c else 119 - int ?c)"
  proof (cases "?c < 56")
    case False
    then have "(55 - int ?c + 64) mod 64 = 119 - int ?c" using c64 by (subst mod_pos_pos_trivial) linarith+
    with mod_add_self2 [of "55 - int ?c" 64] False show ?thesis by metis
  qed (use c64 in \<open>simp add: mod_pos_pos_trivial\<close>)
  ultimately have z: "?z = (if ?c < 56 then 55 - ?c else 119 - ?c)" by (auto simp: nat_sub)
  have ref: "absorb md5_start (msg @ md5_padding ?n) =
      absorb (absorb md5_start (whole msg)) (left_over msg @ md5_padding ?n)"
    using absorb_append [of "whole msg" md5_start "left_over msg @ md5_padding ?n"] by (simp flip: append_assoc whole_left)
  have inb: "memcpy_at (m_in ctx) ?c [0x80] = left_over msg @ [0x80] @ drop (Suc ?c) (m_in ctx)"
    using D(3) by (simp add: memcpy_at_def)
  show ?thesis
  proof (cases "?c < 56")
    case True
    have e: "56 - ?c = Suc (55 - ?c)" "\<not> 63 - ?c < 8" using True by arith+
    let ?last = "left_over msg @ [0x80] @ replicate (55 - ?c) 0 @ ?bits"
    have "absorb (absorb md5_start (whole msg)) (?last @ []) = MD5Transform (m_buf ctx) ?last"
      using True D(2) by (subst absorb_block) (simp_all add: absorb_short)
    moreover have "memcpy_at (memcpy_at (memcpy_at (m_in ctx) ?c [0x80]) (Suc ?c) (replicate (55 - ?c) 0)) 56 ?bits = ?last"
      unfolding inb using True D(1) by (simp add: memcpy_at_def e)
    ultimately show ?thesis
      using True t z ref pad e(2) by (simp add: MD5Final_def md5_ref_def Let_def)
  next
    case False
    have e: "63 - ?c < 8" "64 - ?c = Suc (63 - ?c)" using False c64 by arith+
    let ?fst = "left_over msg @ [0x80] @ replicate (63 - ?c) 0" and ?last = "replicate 56 0 @ ?bits"
    have "replicate (119 - ?c) (0::byte) = replicate (63 - ?c) 0 @ replicate 56 0"
      using False c64 by (simp flip: replicate_add)
    then have "left_over msg @ md5_padding ?n = ?fst @ ?last" using z False pad by simp
    moreover have "absorb (absorb md5_start (whole msg)) (?fst @ ?last @ []) =
        MD5Transform (MD5Transform (m_buf ctx) ?fst) ?last"
      using False c64 D(2) by (subst absorb_block, simp, subst absorb_block) (simp_all add: absorb_short)
    moreover have f: "memcpy_at (memcpy_at (m_in ctx) ?c [0x80]) (Suc ?c) (replicate (63 - ?c) 0) = ?fst"
      unfolding inb using False c64 D(1) by (simp add: memcpy_at_def e(2))
    moreover have "memcpy_at (memcpy_at ?fst 0 (replicate 56 0)) 56 ?bits = ?last"
      using False c64 by (simp add: memcpy_at_def)
    ultimately show ?thesis
      using False c64 t ref e(1) by (simp add: MD5Final_def md5_ref_def Let_def)
  qed
qed

text \<open>However a message is cut into pieces, the digest is that of the message.\<close>

lemma updates_ok:
  "ctx_ok ctx msg \<Longrightarrow> \<forall>p\<in>set ps. length p < 2 ^ 32 \<Longrightarrow>
     ctx_ok (foldl (\<lambda>c p. MD5Update p c) ctx ps) (msg @ concat ps)"
proof (induction ps arbitrary: ctx msg)
  case (Cons p ps)
  have "ctx_ok (MD5Update p ctx) (msg @ p)" using Cons.prems by (intro MD5Update_ok) auto
  from Cons.IH [OF this] Cons.prems(2) show ?case by simp
qed simp

lemma fresh_ok: "length junk = 64 \<Longrightarrow> ctx_ok (MD5Init (fresh_ctx junk)) []"
  by (rule MD5Init_ok) (simp add: fresh_ctx_def)

lemma digest_of_pieces:
  assumes "length junk = 64" and "\<forall>p\<in>set ps. length p < 2 ^ 32"
  shows "MD5Final (foldl (\<lambda>c p. MD5Update p c) (MD5Init (fresh_ctx junk)) ps) = md5_ref (concat ps)"
  using updates_ok [OF fresh_ok [OF assms(1)] assms(2)] by (intro MD5Final_ok) simp

lemma md5_pieces_ok: "ctx_ok ctx msg \<Longrightarrow> ctx_ok (md5_pieces content ctx) (msg @ content)"
proof (induction content ctx arbitrary: msg rule: md5_pieces.induct)
  case (1 content ctx)
  let ?p = "take BUFSIZE content"
  have len: "length ?p < 2 ^ 32" by (simp add: BUFSIZE_def)
  have up: "ctx_ok (MD5Update ?p ctx) (msg @ ?p)" using "1.prems" len by (rule MD5Update_ok)
  consider (e) "?p = []" | (s) "?p \<noteq> []" "length ?p < BUFSIZE" | (l) "?p \<noteq> []" "\<not> length ?p < BUFSIZE"
    by blast
  then show ?case
  proof cases
    case e
    then have "content = []" by (simp add: BUFSIZE_def)
    with "1.prems" show ?thesis by (simp add: md5_pieces.simps)
  next
    case s
    then have "?p = content" by simp
    with s up show ?thesis by (simp add: md5_pieces.simps)
  next
    case l
    then have "md5_pieces content ctx = md5_pieces (drop BUFSIZE content) (MD5Update ?p ctx)"
      by (subst md5_pieces.simps) (simp only: Let_def if_False)
    with "1.IH" [OF refl l up] show ?thesis by simp
  qed
qed

lemma getfilemd5_ok: "length junk = 64 \<Longrightarrow> getfilemd5 junk file = map_option md5_ref file"
  using md5_pieces_ok [OF fresh_ok] by (auto simp: getfilemd5_def MD5Final_ok split: option.split)

lemma getmd5_ok: "length junk = 64 \<Longrightarrow> length data < 2 ^ 32 \<Longrightarrow> getmd5 junk data = md5_ref data"
  using MD5Final_ok [OF MD5Update_ok [OF fresh_ok]] by (simp add: getmd5_def)

text \<open>The construction of RFC 2104 over the reference digest.\<close>

definition hmac_ref :: "byte list \<Rightarrow> byte list \<Rightarrow> byte list" where
  "hmac_ref password text =
     (let key = (if length password > 64 then md5_ref password else password);
          block = key @ replicate (64 - length key) 0
      in md5_ref (map (\<lambda>b. b XOR 0x5c) block @ md5_ref (map (\<lambda>b. b XOR 0x36) block @ text)))"

lemma length_md5_ref [simp]: "length (md5_ref msg) = 16"
  by (simp add: md5_ref_def digest_bytes_def split: prod.split)

lemma digest_two:
  assumes "length junk = 64" "length a < 2 ^ 32" "length b < 2 ^ 32"
  shows "MD5Final (MD5Update b (MD5Update a (MD5Init (fresh_ctx junk)))) = md5_ref (a @ b)"
  using digest_of_pieces [of junk "[a, b]"] assms by simp

lemma digest_three:
  assumes "length junk = 64" "length a < 2 ^ 32" "length b < 2 ^ 32" "length c < 2 ^ 32"
  shows "MD5Final (MD5Update c (MD5Update b (MD5Update a (MD5Init (fresh_ctx junk))))) = md5_ref (a @ b @ c)"
  using digest_of_pieces [of junk "[a, b, c]"] assms by simp

lemma hmac_key_ok:
  assumes "length junk = 64" "length password < 2 ^ 32"
  shows "hmac_key junk password = (if length password > 64 then md5_ref password else password)"
  using getmd5_ok [OF assms] by (simp add: hmac_key_def MD5Digest_def getmd5_def)

lemma xor_pad_ok: "length key \<le> 64 \<Longrightarrow> xor_pad v key = map (\<lambda>b. b XOR v) (key @ replicate (64 - length key) 0)"
  by (simp add: xor_pad_def memcpy_at_def)

lemma MD5HMAC2_ok:
  assumes junk: "length junk = 64" and len: "length password < 2 ^ 32" "length c1 < 2 ^ 32" "length c2 < 2 ^ 32"
  shows "MD5HMAC2 junk password c1 c2 = hmac_ref password (c1 @ c2)"
proof -
  let ?k = "hmac_key junk password"
  have "length ?k \<le> 64" using hmac_key_ok [OF junk len(1)] by simp
  then show ?thesis
    using junk len by (simp add: MD5HMAC2_def hmac_ref_def Let_def xor_pad_ok digest_two digest_three hmac_key_ok)
qed

lemma MD5HMAC_ok:
  assumes junk: "length junk = 64" and len: "length password < 2 ^ 32" "length c < 2 ^ 32"
  shows "MD5HMAC junk password c = hmac_ref password c"
proof -
  let ?k = "hmac_key junk password"
  have "length ?k \<le> 64" using hmac_key_ok [OF junk len(1)] by simp
  then show ?thesis
    using junk len by (simp add: MD5HMAC_def hmac_ref_def Let_def xor_pad_ok digest_two hmac_key_ok)
qed

end
