(* ===== verification/TaskQueue.thy ===== *)
theory TaskQueue
  imports VfsTypes ListFamily TmpStatus Codec
begin

text \<open>
  \<open>src/network/vfs_task.c\<close>: the task pool of the daemon.  Every task is on at most one
  status queue (\<open>vfstask\<close>, linked by \<open>llist\<close>), in at most one bucket of the table of
  running tasks (\<open>alltask\<close>, linked by \<open>hlist\<close>) and on at most one peer's list (\<open>userl\<close>,
  linked by \<open>userlist\<close>, with the head identified by the owner).  The functions are
  state transformers; the clock, the mutexes and \<open>malloc\<close> are the argument \<open>env\<close>.
\<close>

record task_state =
  tasks :: "ptr \<Rightarrow> t_vfs_tasklist"
  vfstask :: "int \<Rightarrow> ptr list"
  alltask :: "nat \<Rightarrow> ptr list"
  userl :: "ptr \<Rightarrow> ptr list"
  taskcount :: "int \<Rightarrow> int"
  tmpst :: tmp_state

abbreviation tbase :: "'a task_state_scheme \<Rightarrow> ptr \<Rightarrow> t_task_base" where
  "tbase s p \<equiv> ti_base (tl_task (tasks s p))"

abbreviation tsub :: "'a task_state_scheme \<Rightarrow> ptr \<Rightarrow> t_task_sub" where
  "tsub s p \<equiv> ti_sub (tl_task (tasks s p))"

definition set_status :: "ptr \<Rightarrow> int \<Rightarrow> 'a task_state_scheme \<Rightarrow> 'a task_state_scheme" where
  "set_status p st s = s\<lparr>tasks := (tasks s)(p := (tasks s p)\<lparr>tl_status := st\<rparr>)\<rparr>"

definition set_task :: "ptr \<Rightarrow> t_vfs_taskinfo \<Rightarrow> 'a task_state_scheme \<Rightarrow> 'a task_state_scheme" where
  "set_task p ti s = s\<lparr>tasks := (tasks s)(p := (tasks s p)\<lparr>tl_task := ti\<rparr>)\<rparr>"

definition set_base :: "ptr \<Rightarrow> t_task_base \<Rightarrow> 'a task_state_scheme \<Rightarrow> 'a task_state_scheme" where
  "set_base p b s = set_task p ((tl_task (tasks s p))\<lparr>ti_base := b\<rparr>) s"

definition valid_status :: "int \<Rightarrow> bool" where
  "valid_status st \<longleftrightarrow> 0 \<le> st \<and> st < TASK_UNKNOWN"

section \<open>The status queues\<close>

definition vfs_get_task ::
  "env \<Rightarrow> int \<Rightarrow> 'a task_state_scheme \<Rightarrow> int \<times> ptr option \<times> 'a task_state_scheme" where
  "vfs_get_task e status s =
     (if \<not> valid_status status then (GET_TASK_ERR, None, s)
      else if lock_failed e (M_task status) then (e_lock e (M_task status), None, s)
      else case vfstask s status of
        t # _ \<Rightarrow> (GET_TASK_OK, Some t,
           set_status t TASK_UNKNOWN (s\<lparr>
             taskcount := (taskcount s)(status := taskcount s status - 1),
             vfstask := lf_del t (vfstask s)\<rparr>))
      | [] \<Rightarrow>
         (if status = TASK_HOME then
            (case e_malloc e of None \<Rightarrow> (GET_TASK_NOTHING, None, s)
             | Some t \<Rightarrow> (GET_TASK_OK, Some t,
                 s\<lparr>tasks := (tasks s)(t := zero_tasklist\<lparr>tl_status := TASK_UNKNOWN\<rparr>)\<rparr>))
          else (GET_TASK_NOTHING, None, s)))"

definition vfs_set_task ::
  "env \<Rightarrow> ptr \<Rightarrow> int \<Rightarrow> 'a task_state_scheme \<Rightarrow> int \<times> 'a task_state_scheme" where
  "vfs_set_task e t status s =
     (if \<not> valid_status status then (-1, s)
      else if lock_failed e (M_task status) then (-1, s)
      else (e_lock e (M_task status),
        set_status t status (s\<lparr>
          vfstask := lf_add_tail t status (lf_del t (vfstask s)),
          taskcount := (taskcount s)(status := taskcount s status + 1)\<rparr>)))"

text \<open>\<open>init_task_info\<close>: 2048 records in one block, each put at the head of \<open>TASK_HOME\<close>.\<close>

definition POOL :: nat where "POOL = 2048"

definition put_home :: "ptr \<Rightarrow> 'a task_state_scheme \<Rightarrow> 'a task_state_scheme" where
  "put_home p s = set_status p TASK_HOME (s\<lparr>vfstask := lf_add_head p TASK_HOME (vfstask s)\<rparr>)"

definition init_task_info :: "ptr \<Rightarrow> 'a task_state_scheme \<Rightarrow> 'a task_state_scheme" where
  "init_task_info block s =
     (let entries = map (\<lambda>i. block + i) [0..<POOL];
          s = s\<lparr>vfstask := (\<lambda>_. []),
                tasks := (\<lambda>p. if p \<in> set entries then zero_tasklist else tasks s p)\<rparr>;
          s = foldl (\<lambda>s p. put_home p s) s entries
      in s\<lparr>alltask := (\<lambda>_. []), taskcount := (\<lambda>_. 0)\<rparr>)"

definition get_task_count :: "int \<Rightarrow> 'a task_state_scheme \<Rightarrow> int" where
  "get_task_count status s = (if \<not> valid_status status then -1 else taskcount s status)"

section \<open>The table of running tasks\<close>

definition TASK_HASHSIZE :: nat where "TASK_HASHSIZE = 16"
definition TASK_MOD :: u32 where "TASK_MOD = 0x0F"

definition hash_text :: "role \<Rightarrow> t_task_base \<Rightarrow> t_task_sub \<Rightarrow> string" where
  "hash_text role base sub =
     (let key = tb_filename base @ ''|'' @ tb_src_domain base @ ''|'' @ show_int (tb_type base) @ ''|'' in
      if role = ROLE_CS then key
      else if role = ROLE_FCS then key
      else if role = ROLE_TRACKER then key @ show_nat (unat (ts_isp sub)) @ ''|''
      else [])"

text \<open>\<open>snprintf\<close> into \<open>buf[1024]\<close> cuts the text after 1023 characters.\<close>

definition get_vfs_task_hash :: "role \<Rightarrow> t_task_base \<Rightarrow> t_task_sub \<Rightarrow> u32" where
  "get_vfs_task_hash role base sub = r5hash (take 1023 (hash_text role base sub))"

definition bucket :: "role \<Rightarrow> t_task_base \<Rightarrow> t_task_sub \<Rightarrow> nat" where
  "bucket role base sub = unat (get_vfs_task_hash role base sub AND TASK_MOD)"

definition add_task_to_alltask :: "env \<Rightarrow> role \<Rightarrow> ptr \<Rightarrow> 'a task_state_scheme \<Rightarrow> int \<times> 'a task_state_scheme" where
  "add_task_to_alltask e role t s =
     (let index = bucket role (tbase s t) (tsub s t) in
      if lock_failed e M_alltask then (-1, s)
      else (0, s\<lparr>alltask := lf_add_head t index (lf_del t (alltask s))\<rparr>))"

definition same_task :: "role \<Rightarrow> t_task_base \<Rightarrow> t_task_sub \<Rightarrow> 'a task_state_scheme \<Rightarrow> ptr \<Rightarrow> bool" where
  "same_task role base sub s p \<longleftrightarrow>
     tb_filename base = tb_filename (tbase s p) \<and>
     tb_src_domain base = tb_src_domain (tbase s p) \<and>
     tb_type base = tb_type (tbase s p) \<and>
     (role = ROLE_TRACKER \<longrightarrow> ts_isp sub = ts_isp (tsub s p))"

definition check_task_from_alltask ::
  "env \<Rightarrow> role \<Rightarrow> t_task_base \<Rightarrow> t_task_sub \<Rightarrow> 'a task_state_scheme \<Rightarrow> int" where
  "check_task_from_alltask e role base sub s =
     (if lock_failed e M_alltask then -1
      else case filter (same_task role base sub s) (alltask s (bucket role base sub)) of
        [] \<Rightarrow> -1 | _ # _ \<Rightarrow> 0)"

definition get_task_from_alltask ::
  "env \<Rightarrow> role \<Rightarrow> t_task_base \<Rightarrow> t_task_sub \<Rightarrow> 'a task_state_scheme
   \<Rightarrow> int \<times> ptr option \<times> 'a task_state_scheme" where
  "get_task_from_alltask e role base sub s =
     (if lock_failed e M_alltask then (-1, None, s)
      else case filter (same_task role base sub s) (alltask s (bucket role base sub)) of
        [] \<Rightarrow> (-1, None, s)
      | t # _ \<Rightarrow> (0, Some t, s\<lparr>alltask := lf_del t (alltask s)\<rparr>))"

section \<open>Scanning and time-outs\<close>

text \<open>
  The scans use \<open>list_for_each_entry_safe_l\<close>: they visit the entries that were there at
  the start, in order (\<open>for_each_entry_safe_fold\<close>), although the callback unlinks them.
\<close>

definition get_timeout_task_from_alltask ::
  "env \<Rightarrow> int \<Rightarrow> (ptr \<Rightarrow> 'a task_state_scheme \<Rightarrow> 'a task_state_scheme)
   \<Rightarrow> 'a task_state_scheme \<Rightarrow> int \<times> 'a task_state_scheme" where
  "get_timeout_task_from_alltask e timeout cb s =
     (if lock_failed e M_alltask then (-1, s)
      else (e_lock e M_alltask,
        foldl (\<lambda>s index.
          foldl (\<lambda>s t. if e_now e - tb_starttime (tbase s t) < timeout then s
                       else cb t (s\<lparr>alltask := lf_del t (alltask s)\<rparr>)) s (alltask s index))
          s [0..<TASK_HASHSIZE]))"

definition scan_some_status_task ::
  "env \<Rightarrow> int \<Rightarrow> (ptr \<Rightarrow> 'a task_state_scheme \<Rightarrow> 'a task_state_scheme)
   \<Rightarrow> 'a task_state_scheme \<Rightarrow> int \<times> 'a task_state_scheme" where
  "scan_some_status_task e status cb s =
     (if \<not> valid_status status then (-1, s)
      else if lock_failed e (M_task status) then (-1, s)
      else (e_lock e (M_task status), foldl (\<lambda>s t. cb t s) s (vfstask s status)))"

definition check_task_timeout ::
  "env \<Rightarrow> role \<Rightarrow> int \<Rightarrow> ptr \<Rightarrow> 'a task_state_scheme \<Rightarrow> 'a task_state_scheme" where
  "check_task_timeout e role task_timeout t s =
     (let s = (if e_now e - tb_starttime (tbase s t) > task_timeout
               then set_base t ((tbase s t)\<lparr>tb_overstatus := OVER_TIMEOUT\<rparr>) s else s)
      in if tl_status (tasks s t) \<noteq> TASK_CLEAN \<and> tb_overstatus (tbase s t) = OVER_TIMEOUT then
           (let s = s\<lparr>vfstask := lf_del t (vfstask s), alltask := lf_del t (alltask s),
                      userl := lf_del t (userl s)\<rparr>;
                s = (case ti_user (tl_task (tasks s t)) of
                       Some slot \<Rightarrow>
                         if role = ROLE_CS \<or> role = ROLE_TRACKER
                         then set_task t ((tl_task (tasks s t))\<lparr>ti_user := None\<rparr>)
                                (s\<lparr>tmpst := set_tmp_blank e (t_pos (tmpst s) slot) (Some slot) (tmpst s)\<rparr>)
                         else s
                     | None \<Rightarrow> s);
                st = tl_status (tasks s t);
                s = s\<lparr>taskcount := (taskcount s)(st := taskcount s st - 1)\<rparr>;
                s = set_task t zero_task s
            in snd (vfs_set_task e t TASK_HOME s))
         else s)"

definition do_timeout_task :: "env \<Rightarrow> role \<Rightarrow> int \<Rightarrow> 'a task_state_scheme \<Rightarrow> 'a task_state_scheme" where
  "do_timeout_task e role task_timeout s =
     (let scan = (\<lambda>s i. snd (scan_some_status_task e i (check_task_timeout e role task_timeout) s));
          s = foldl (\<lambda>s i. if i = TASK_DELAY \<and> role \<noteq> ROLE_CS then s else scan s i) s
                [TASK_DELAY..TASK_CLEAN - 1]
      in if role = ROLE_CS then scan s TASK_SYNC_VOSS else s)"

text \<open>\<open>report_2_nm\<close>: the depth of every queue before \<open>TASK_HOME\<close>, and their sum.\<close>

definition report_2_nm :: "'a task_state_scheme \<Rightarrow> int list \<times> int" where
  "report_2_nm s =
     foldl (\<lambda>(depths, total) i. (depths @ [get_task_count i s], total + get_task_count i s))
       ([], 0) [TASK_DELAY..TASK_HOME - 1]"

section \<open>What the records keep\<close>

lemma tasks_set_status [simp]:
  "tasks (set_status p st s) u = (if u = p then (tasks s p)\<lparr>tl_status := st\<rparr> else tasks s u)"
  by (simp add: set_status_def)

lemma set_status_frame [simp, frame_simps]:
  "vfstask (set_status p st s) = vfstask s" "alltask (set_status p st s) = alltask s"
  "userl (set_status p st s) = userl s" "taskcount (set_status p st s) = taskcount s"
  "tmpst (set_status p st s) = tmpst s"
  by (simp_all add: set_status_def)

lemma tasks_set_task [simp]:
  "tasks (set_task p ti s) u = (if u = p then (tasks s p)\<lparr>tl_task := ti\<rparr> else tasks s u)"
  by (simp add: set_task_def)

lemma set_task_frame [simp, frame_simps]:
  "vfstask (set_task p ti s) = vfstask s" "alltask (set_task p ti s) = alltask s"
  "userl (set_task p ti s) = userl s" "taskcount (set_task p ti s) = taskcount s"
  "tmpst (set_task p ti s) = tmpst s"
  by (simp_all add: set_task_def)

lemma set_base_frame [simp, frame_simps]:
  "vfstask (set_base p b s) = vfstask s" "alltask (set_base p b s) = alltask s"
  "userl (set_base p b s) = userl s" "taskcount (set_base p b s) = taskcount s"
  "tmpst (set_base p b s) = tmpst s"
  by (simp_all add: set_base_def)

lemma tasks_set_base [simp]:
  "tasks (set_base p b s) u =
     (if u = p then (tasks s p)\<lparr>tl_task := (tl_task (tasks s p))\<lparr>ti_base := b\<rparr>\<rparr> else tasks s u)"
  by (simp add: set_base_def)

section \<open>The invariant of the pool\<close>

text \<open>
  Each family of lists holds a task at most once; a task on a queue carries that queue's
  number; a task in the table is in the bucket its own contents hash to.
\<close>

definition queues_ok :: "'a task_state_scheme \<Rightarrow> bool" where
  "queues_ok s \<longleftrightarrow> lf_wf (vfstask s) \<and>
     (\<forall>q t. t \<in> set (vfstask s q) \<longrightarrow> tl_status (tasks s t) = q \<and> valid_status q)"

definition table_ok :: "role \<Rightarrow> 'a task_state_scheme \<Rightarrow> bool" where
  "table_ok role s \<longleftrightarrow> lf_wf (alltask s) \<and>
     (\<forall>i t. t \<in> set (alltask s i) \<longrightarrow> i = bucket role (tbase s t) (tsub s t))"

definition pool_ok :: "role \<Rightarrow> 'a task_state_scheme \<Rightarrow> bool" where
  "pool_ok role s \<longleftrightarrow> queues_ok s \<and> table_ok role s \<and> lf_wf (userl s)"

lemma pool_okD:
  assumes "pool_ok role s"
  shows "queues_ok s" "table_ok role s" "lf_wf (userl s)" "lf_wf (vfstask s)" "lf_wf (alltask s)"
  using assms by (auto simp: pool_ok_def queues_ok_def table_ok_def)

lemma queue_status: "queues_ok s \<Longrightarrow> t \<in> set (vfstask s q) \<Longrightarrow> tl_status (tasks s t) = q"
  by (simp add: queues_ok_def)

lemma queue_valid: "queues_ok s \<Longrightarrow> t \<in> set (vfstask s q) \<Longrightarrow> valid_status q"
  by (simp add: queues_ok_def)

lemma queues_del [intro]: "queues_ok s \<Longrightarrow> queues_ok (s\<lparr>vfstask := lf_del t (vfstask s)\<rparr>)"
  by (auto simp: queues_ok_def)

lemma queues_put:
  assumes "queues_ok s" and "valid_status q"
  shows "queues_ok (set_status t q (s\<lparr>vfstask := lf_add_tail t q (lf_del t (vfstask s)), taskcount := c\<rparr>))"
  using assms lf.requeue_ok [of "vfstask s" t q]
  by (auto simp: queues_ok_def split: if_splits)

lemma valid_home [simp]: "valid_status TASK_HOME"
  by (simp add: valid_status_def queue_defs)

section \<open>Taking and putting\<close>

lemma get_task_effect:
  assumes "valid_status q" and "\<not> lock_failed e (M_task q)" and "vfstask s q = t # ts" and "queues_ok s"
  shows "\<exists>s'. vfs_get_task e q s = (GET_TASK_OK, Some t, s') \<and>
     vfstask s' = (vfstask s)(q := ts) \<and> taskcount s' = (taskcount s)(q := taskcount s q - 1) \<and>
     tasks s' = (tasks s)(t := (tasks s t)\<lparr>tl_status := TASK_UNKNOWN\<rparr>) \<and>
     alltask s' = alltask s \<and> userl s' = userl s \<and> tmpst s' = tmpst s"
proof -
  have "lf_wf (vfstask s)" using assms(4) by (simp add: queues_ok_def)
  then have "distinct (t # ts)" and off: "\<And>p. p \<noteq> q \<Longrightarrow> t \<notin> set (vfstask s p)"
    using assms(3) by (metis lf_wf_def, metis lf_wf_unique list.set_intros(1))
  then have "removeAll t (vfstask s p) = ((vfstask s)(q := ts)) p" for p
    by (simp add: assms(3) removeAll_notin)
  then have "lf_del t (vfstask s) = (vfstask s)(q := ts)" by (intro ext) simp
  with assms show ?thesis
    by (simp add: vfs_get_task_def) (auto intro: ext)
qed

lemma get_task_empty:
  "valid_status q \<Longrightarrow> \<not> lock_failed e (M_task q) \<Longrightarrow> vfstask s q = [] \<Longrightarrow> q \<noteq> TASK_HOME
   \<Longrightarrow> vfs_get_task e q s = (GET_TASK_NOTHING, None, s)"
  by (simp add: vfs_get_task_def)

lemma set_task_effect:
  assumes "valid_status q" and "\<not> lock_failed e (M_task q)"
  shows "fst (vfs_set_task e t q s) = e_lock e (M_task q)"
    and "vfstask (snd (vfs_set_task e t q s)) = lf_add_tail t q (lf_del t (vfstask s))"
    and "taskcount (snd (vfs_set_task e t q s)) = (taskcount s)(q := taskcount s q + 1)"
    and "tasks (snd (vfs_set_task e t q s)) u =
           (if u = t then (tasks s t)\<lparr>tl_status := q\<rparr> else tasks s u)"
  using assms by (simp_all add: vfs_set_task_def)

lemma set_task_other [simp, frame_simps]:
  "alltask (snd (vfs_set_task e t q s)) = alltask s"
  "userl (snd (vfs_set_task e t q s)) = userl s"
  "tmpst (snd (vfs_set_task e t q s)) = tmpst s"
  "tl_task (tasks (snd (vfs_set_task e t q s)) u) = tl_task (tasks s u)"
  by (simp_all add: vfs_set_task_def)

lemma queues_set_task: "queues_ok s \<Longrightarrow> queues_ok (snd (vfs_set_task e t q s))"
  by (simp add: vfs_set_task_def queues_put)

lemma table_set_task: "table_ok role s \<Longrightarrow> table_ok role (snd (vfs_set_task e t q s))"
  by (simp add: table_ok_def)

lemma pool_set_task: "pool_ok role s \<Longrightarrow> pool_ok role (snd (vfs_set_task e t q s))"
  by (simp add: pool_ok_def queues_set_task table_set_task)

text \<open>A block \<open>malloc\<close> returns is not one of the tasks in use.\<close>

definition fresh_malloc :: "env \<Rightarrow> 'a task_state_scheme \<Rightarrow> bool" where
  "fresh_malloc e s \<longleftrightarrow> (\<forall>t. e_malloc e = Some t \<longrightarrow>
     lf_off t (vfstask s) \<and> lf_off t (alltask s) \<and> lf_off t (userl s))"

lemma pool_get_task:
  assumes "pool_ok role s" and "fresh_malloc e s"
  shows "pool_ok role (snd (snd (vfs_get_task e q s)))"
proof (cases "valid_status q \<and> \<not> lock_failed e (M_task q) \<and> vfstask s q \<noteq> []")
  case True
  then obtain t ts where q: "vfstask s q = t # ts" by (cases "vfstask s q") auto
  have ok: "queues_ok s" using assms(1) by (rule pool_okD)
  have "queues_ok (set_status t TASK_UNKNOWN (s\<lparr>taskcount := c, vfstask := lf_del t (vfstask s)\<rparr>))" for c
    using ok by (auto simp: queues_ok_def)
  with True q assms(1) show ?thesis
    by (simp add: vfs_get_task_def pool_ok_def table_ok_def)
next
  case False
  show ?thesis
  proof (cases "valid_status q \<and> \<not> lock_failed e (M_task q) \<and> q = TASK_HOME \<and> e_malloc e \<noteq> None")
    case True
    with False obtain t where t: "e_malloc e = Some t" "vfstask s TASK_HOME = []" by auto
    with assms(2) have "lf_off t (vfstask s)" "lf_off t (alltask s)" by (auto simp: fresh_malloc_def)
    then have "t \<notin> set (vfstask s p)" "t \<notin> set (alltask s i)" for p i by (simp_all add: lf_off_def)
    with True t assms(1) show ?thesis
      by (auto simp: vfs_get_task_def pool_ok_def queues_ok_def table_ok_def split: if_splits)
  next
    case False
    with \<open>\<not> (valid_status q \<and> \<not> lock_failed e (M_task q) \<and> vfstask s q \<noteq> [])\<close> assms(1)
    show ?thesis by (auto simp: vfs_get_task_def split: option.splits list.splits)
  qed
qed

section \<open>The interface of the queues\<close>

text \<open>
  What the workers rely on: taking returns the oldest entry of a queue, putting an
  unlinked task appends it.  \<open>take_many\<close> is the loop a worker runs.
\<close>

primrec take_many :: "('q \<Rightarrow> 's \<Rightarrow> int \<times> 't option \<times> 's) \<Rightarrow> nat \<Rightarrow> 'q \<Rightarrow> 's \<Rightarrow> 't list \<times> 's" where
  "take_many get 0 q s = ([], s)"
| "take_many get (Suc k) q s =
     (case get q s of
        (r, Some t, s') \<Rightarrow> if r = GET_TASK_OK
          then (let (ts, s'') = take_many get k q s' in (t # ts, s'')) else ([], s')
      | (r, None, s') \<Rightarrow> ([], s'))"

locale fifo_pool =
  fixes get :: "'q \<Rightarrow> 's \<Rightarrow> int \<times> 't option \<times> 's"
    and put :: "'t \<Rightarrow> 'q \<Rightarrow> 's \<Rightarrow> 's"
    and queue :: "'s \<Rightarrow> 'q \<Rightarrow> 't list"
    and ok :: "'s \<Rightarrow> bool"
    and good :: "'q \<Rightarrow> bool"
  assumes get_head: "ok s \<Longrightarrow> good q \<Longrightarrow> queue s q = t # ts \<Longrightarrow>
      \<exists>s'. get q s = (GET_TASK_OK, Some t, s') \<and> ok s' \<and> queue s' = (queue s)(q := ts)"
    and get_none: "ok s \<Longrightarrow> good q \<Longrightarrow> queue s q = [] \<Longrightarrow> get q s = (GET_TASK_NOTHING, None, s)"
    and put_ok: "ok s \<Longrightarrow> good q \<Longrightarrow> lf_off t (queue s) \<Longrightarrow> ok (put t q s)"
    and put_queue: "ok s \<Longrightarrow> good q \<Longrightarrow> lf_off t (queue s)
      \<Longrightarrow> queue (put t q s) = lf_add_tail t q (queue s)"
begin

lemma put_many:
  "\<lbrakk>ok s; good q; distinct ts; \<forall>t \<in> set ts. lf_off t (queue s)\<rbrakk> \<Longrightarrow>
   ok (foldl (\<lambda>s t. put t q s) s ts) \<and>
   queue (foldl (\<lambda>s t. put t q s) s ts) = (queue s)(q := queue s q @ ts)"
proof (induction ts arbitrary: s)
  case Nil
  then show ?case by simp
next
  case (Cons t ts)
  from Cons.prems have t: "lf_off t (queue s)" by simp
  have q: "queue (put t q s) = lf_add_tail t q (queue s)" using Cons.prems t by (simp add: put_queue)
  have off: "\<forall>u \<in> set ts. lf_off u (queue (put t q s))"
    using Cons.prems by (auto simp: q lf_off_def)
  have "ok (put t q s)" using Cons.prems t by (simp add: put_ok)
  from Cons.IH [OF this Cons.prems(2) _ off] Cons.prems(3)
  show ?case by (simp add: q fun_eq_iff)
qed

lemma take_all:
  "\<lbrakk>ok s; good q; length (queue s q) \<le> k\<rbrakk> \<Longrightarrow>
   \<exists>s'. take_many get k q s = (queue s q, s') \<and> ok s' \<and> queue s' = (queue s)(q := [])"
proof (induction k arbitrary: s)
  case 0
  then show ?case by auto
next
  case (Suc k)
  show ?case
  proof (cases "queue s q")
    case Nil
    with Suc.prems show ?thesis by (auto simp: get_none)
  next
    case (Cons t ts)
    then obtain s' where g: "get q s = (GET_TASK_OK, Some t, s')" and s': "ok s'" "queue s' = (queue s)(q := ts)"
      using get_head Suc.prems by blast
    with Cons Suc.prems have "length (queue s' q) \<le> k" by simp
    with Suc.IH [OF s'(1) Suc.prems(2)]
    obtain s'' where "take_many get k q s' = (queue s' q, s'')" "ok s''" "queue s'' = (queue s')(q := [])"
      by blast
    with s'(2) have "take_many get k q s' = (ts, s'')" "ok s''" "queue s'' = (queue s)(q := [])"
      by simp_all
    with g Cons show ?thesis by (simp add: fun_upd_def)
  qed
qed

lemma first_in_first_out:
  assumes "ok s" and "good q" and "queue s q = []" and "distinct ts"
    and "\<forall>t \<in> set ts. lf_off t (queue s)" and "length ts \<le> k"
  shows "fst (take_many get k q (foldl (\<lambda>s t. put t q s) s ts)) = ts"
proof -
  let ?s = "foldl (\<lambda>s t. put t q s) s ts"
  have p: "ok ?s" "queue ?s = (queue s)(q := queue s q @ ts)"
    using put_many [OF assms(1,2,4,5)] by auto
  from take_all [OF p(1) assms(2), of k] assms(3,6) p(2) show ?thesis by auto
qed

end

definition queue_open :: "env \<Rightarrow> int \<Rightarrow> bool" where
  "queue_open e q \<longleftrightarrow> valid_status q \<and> q \<noteq> TASK_HOME \<and> \<not> lock_failed e (M_task q)"

lemma queues_after_get:
  assumes "queues_ok s" and "vfstask s' = (vfstask s)(q := ts)" and "vfstask s q = t # ts"
    and "tasks s' = (tasks s)(t := (tasks s t)\<lparr>tl_status := TASK_UNKNOWN\<rparr>)"
  shows "queues_ok s'"
proof -
  have wf: "lf_wf (vfstask s)" using assms(1) by (simp add: queues_ok_def)
  then have "distinct (t # ts)" and off: "\<And>p. p \<noteq> q \<Longrightarrow> t \<notin> set (vfstask s p)"
    using assms(3) by (metis lf_wf_def, metis lf_wf_unique list.set_intros(1))
  then have "vfstask s' = lf_del t (vfstask s)"
    by (auto simp: assms(2,3) fun_eq_iff removeAll_notin)
  with assms(1,4) show ?thesis by (auto simp: queues_ok_def)
qed

interpretation tq: fifo_pool "vfs_get_task e" "\<lambda>t q s. snd (vfs_set_task e t q s)"
  vfstask queues_ok "queue_open e" for e
proof
  fix s :: "'a task_state_scheme" and q t ts
  assume s: "queues_ok s" and q: "queue_open e q" and h: "vfstask s q = t # ts"
  from get_task_effect [OF _ _ h s, of e] q
  obtain s' where "vfs_get_task e q s = (GET_TASK_OK, Some t, s')" "vfstask s' = (vfstask s)(q := ts)"
    "tasks s' = (tasks s)(t := (tasks s t)\<lparr>tl_status := TASK_UNKNOWN\<rparr>)"
    by (auto simp: queue_open_def)
  with queues_after_get [OF s _ h]
  show "\<exists>s'. vfs_get_task e q s = (GET_TASK_OK, Some t, s') \<and> queues_ok s' \<and> vfstask s' = (vfstask s)(q := ts)"
    by blast
next
  fix s :: "'a task_state_scheme" and q
  assume "queues_ok s" "queue_open e q" "vfstask s q = []"
  then show "vfs_get_task e q s = (GET_TASK_NOTHING, None, s)"
    by (simp add: queue_open_def get_task_empty)
next
  fix s :: "'a task_state_scheme" and q t
  assume "queues_ok s" "queue_open e q" "lf_off t (vfstask s)"
  then show "queues_ok (snd (vfs_set_task e t q s))"
    and "vfstask (snd (vfs_set_task e t q s)) = lf_add_tail t q (vfstask s)"
    by (simp_all add: queues_set_task queue_open_def set_task_effect lf_del_off)
qed

section \<open>The counters\<close>

text \<open>
  \<open>taskcount\<close> is the length of its queue, except that \<open>init_task_info\<close> clears the
  counters after filling \<open>TASK_HOME\<close>, which so stays 2048 below.
\<close>

definition home_surplus :: "int \<Rightarrow> int" where
  "home_surplus q = (if q = TASK_HOME then int POOL else 0)"

definition counts_ok :: "'a task_state_scheme \<Rightarrow> bool" where
  "counts_ok s \<longleftrightarrow> (\<forall>q. taskcount s q = int (length (vfstask s q)) - home_surplus q)"

lemma counts_get:
  assumes "queues_ok s" and "counts_ok s" and "vfs_get_task e q s = (r, t, s')"
  shows "counts_ok s'"
proof (cases "valid_status q \<and> \<not> lock_failed e (M_task q) \<and> vfstask s q \<noteq> []")
  case True
  then obtain x ts where "vfstask s q = x # ts" by (cases "vfstask s q") auto
  with get_task_effect [of q e s x ts] True assms show ?thesis by (auto simp: counts_ok_def)
next
  case False
  with assms(2,3) show ?thesis
    by (auto simp: vfs_get_task_def counts_ok_def split: option.splits list.splits if_splits)
qed

lemma counts_set:
  "counts_ok s \<Longrightarrow> lf_off t (vfstask s) \<Longrightarrow> counts_ok (snd (vfs_set_task e t q s))"
  by (simp add: vfs_set_task_def counts_ok_def lf_del_off)

text \<open>\<open>init_task_info\<close> in closed form.\<close>

lemma put_home_simps [simp]:
  "vfstask (put_home p s) = (vfstask s)(TASK_HOME := p # vfstask s TASK_HOME)"
  "tasks (put_home p s) u = (if u = p then (tasks s p)\<lparr>tl_status := TASK_HOME\<rparr> else tasks s u)"
  by (auto simp: put_home_def)

lemma init_fold:
  "vfstask (foldl (\<lambda>s p. put_home p s) s ps) = (vfstask s)(TASK_HOME := rev ps @ vfstask s TASK_HOME)"
  "tl_status (tasks (foldl (\<lambda>s p. put_home p s) s ps) u) =
     (if u \<in> set ps then TASK_HOME else tl_status (tasks s u))"
  by (induction ps arbitrary: s) auto

lemma init_queues:
  shows "vfstask (init_task_info block s) =
      (\<lambda>_. [])(TASK_HOME := rev (map (\<lambda>i. block + i) [0..<POOL]))"
    and "t \<in> (\<lambda>i. block + i) ` {0..<POOL} \<Longrightarrow>
      tl_status (tasks (init_task_info block s) t) = TASK_HOME"
    and "alltask (init_task_info block s) = (\<lambda>_. [])"
    and "taskcount (init_task_info block s) = (\<lambda>_. 0)"
  using init_fold [where s = "s\<lparr>vfstask := (\<lambda>_. []),
      tasks := (\<lambda>p. if p \<in> set (map (\<lambda>i. block + i) [0..<POOL]) then zero_tasklist else tasks s p)\<rparr>"
      and ps = "map (\<lambda>i. block + i) [0..<POOL]"]
  by (simp_all add: init_task_info_def Let_def)

lemma init_queues_ok: "queues_ok (init_task_info block s)"
proof -
  have "distinct (rev (map (\<lambda>i. block + i) [0..<POOL]))" by (simp add: distinct_map)
  then show ?thesis unfolding queues_ok_def lf_wf_def init_queues(1)
    by (auto simp: init_queues(2) split: if_splits)
qed

lemma init_counts_ok: "counts_ok (init_task_info block s)"
  by (simp add: counts_ok_def init_queues home_surplus_def)

section \<open>Searching the table\<close>

lemma bucket_bound: "bucket role base sub < TASK_HASHSIZE"
proof -
  have "w AND 15 \<le> (15 :: u32)" for w by (rule word_and_le1)
  then have "unat (w AND 15) \<le> 15" for w :: u32 by (simp add: word_le_nat_alt)
  then show ?thesis by (simp add: bucket_def TASK_HASHSIZE_def TASK_MOD_def less_Suc_eq_le [symmetric])
qed

lemma same_task_bucket:
  "same_task role base sub s p \<Longrightarrow> bucket role (tbase s p) (tsub s p) = bucket role base sub"
  by (simp add: same_task_def bucket_def get_vfs_task_hash_def hash_text_def Let_def)

definition running :: "'a task_state_scheme \<Rightarrow> ptr \<Rightarrow> bool" where
  "running s t \<longleftrightarrow> (\<exists>i < TASK_HASHSIZE. t \<in> set (alltask s i))"

lemma table_bucket:
  "table_ok role s \<Longrightarrow> t \<in> set (alltask s i) \<Longrightarrow> i = bucket role (tbase s t) (tsub s t)"
  by (simp add: table_ok_def)

lemma running_same_task:
  assumes "table_ok role s" and "same_task role base sub s t"
  shows "running s t \<longleftrightarrow> t \<in> set (alltask s (bucket role base sub))"
  using assms table_bucket [OF assms(1)] same_task_bucket [OF assms(2)] bucket_bound
  unfolding running_def by metis

lemma check_finds:
  assumes "table_ok role s" and "\<not> lock_failed e M_alltask"
  shows "check_task_from_alltask e role base sub s =
           (if \<exists>t. running s t \<and> same_task role base sub s t then 0 else -1)"
proof -
  have "(\<exists>t. running s t \<and> same_task role base sub s t) \<longleftrightarrow>
      filter (same_task role base sub s) (alltask s (bucket role base sub)) \<noteq> []"
    using running_same_task [OF assms(1)] by (auto simp: filter_empty_conv)
  with assms(2) show ?thesis
    by (cases "filter (same_task role base sub s) (alltask s (bucket role base sub))")
       (auto simp: check_task_from_alltask_def)
qed

lemma table_add:
  assumes "table_ok role s"
  shows "table_ok role (snd (add_task_to_alltask e role t s))"
  using assms lf_wf_add_head [of "lf_del t (alltask s)" t]
  by (auto simp: add_task_to_alltask_def table_ok_def Let_def)

lemma add_then_running:
  "\<not> lock_failed e M_alltask \<Longrightarrow> running (snd (add_task_to_alltask e role t s)) t"
  using bucket_bound by (auto simp: add_task_to_alltask_def running_def Let_def)

lemma add_task_frame [simp, frame_simps]:
  "vfstask (snd (add_task_to_alltask e role t s)) = vfstask s"
  "userl (snd (add_task_to_alltask e role t s)) = userl s"
  "tasks (snd (add_task_to_alltask e role t s)) = tasks s"
  "taskcount (snd (add_task_to_alltask e role t s)) = taskcount s"
  "tmpst (snd (add_task_to_alltask e role t s)) = tmpst s"
  by (simp_all add: add_task_to_alltask_def Let_def)

lemma get_takes:
  assumes "table_ok role s" and "get_task_from_alltask e role base sub s = (r, ot, s')"
  shows "table_ok role s'"
    and "ot = Some t \<Longrightarrow> r = 0 \<and> same_task role base sub s t \<and> running s t \<and> \<not> running s' t"
    and "ot = Some t \<Longrightarrow> u \<noteq> t \<Longrightarrow> running s' u \<longleftrightarrow> running s u"
proof -
  show "table_ok role s'"
    using assms by (auto simp: get_task_from_alltask_def table_ok_def split: if_splits list.splits)
  assume t: "ot = Some t"
  with assms(2) obtain us where f: "filter (same_task role base sub s) (alltask s (bucket role base sub)) = t # us"
    and s': "s' = s\<lparr>alltask := lf_del t (alltask s)\<rparr>" and r: "r = 0"
    by (auto simp: get_task_from_alltask_def split: if_splits list.splits)
  have "t \<in> set (filter (same_task role base sub s) (alltask s (bucket role base sub)))" by (simp add: f)
  with bucket_bound r s' show "r = 0 \<and> same_task role base sub s t \<and> running s t \<and> \<not> running s' t"
    by (auto simp: running_def)
  show "u \<noteq> t \<Longrightarrow> running s' u \<longleftrightarrow> running s u" by (simp add: s' running_def)
qed

section \<open>Time-outs\<close>

definition overdue :: "env \<Rightarrow> int \<Rightarrow> 'a task_state_scheme \<Rightarrow> ptr \<Rightarrow> bool" where
  "overdue e tmo s t \<longleftrightarrow>
     e_now e - tb_starttime (tbase s t) > tmo \<or> tb_overstatus (tbase s t) = OVER_TIMEOUT"

lemma overdue_cong: "tl_task (tasks s' t) = tl_task (tasks s t) \<Longrightarrow> overdue e tmo s' t = overdue e tmo s t"
  by (simp add: overdue_def)

lemma check_timeout_keeps: "\<not> overdue e tmo s t \<Longrightarrow> check_task_timeout e role tmo t s = s"
  by (simp add: check_task_timeout_def overdue_def Let_def)

lemma check_timeout_moves:
  assumes "overdue e tmo s t" and "tl_status (tasks s t) \<noteq> TASK_CLEAN" and "\<not> lock_failed e (M_task TASK_HOME)"
  shows "vfstask (check_task_timeout e role tmo t s) = lf_add_tail t TASK_HOME (lf_del t (vfstask s))"
    and "alltask (check_task_timeout e role tmo t s) = lf_del t (alltask s)"
    and "userl (check_task_timeout e role tmo t s) = lf_del t (userl s)"
    and "tasks (check_task_timeout e role tmo t s) u =
       (if u = t then (tasks s t)\<lparr>tl_task := zero_task, tl_status := TASK_HOME\<rparr> else tasks s u)"
    and "taskcount (check_task_timeout e role tmo t s) =
       (let c = (taskcount s)(tl_status (tasks s t) := taskcount s (tl_status (tasks s t)) - 1)
        in c(TASK_HOME := c TASK_HOME + 1))"
  using assms
  by (auto simp: check_task_timeout_def overdue_def Let_def set_task_effect lf_del_off split: option.split)

lemma queues_moved:
  assumes "queues_ok s" and "vfstask s' = lf_add_tail t q (lf_del t (vfstask s))" and "valid_status q"
    and "\<And>u. tl_status (tasks s' u) = (if u = t then q else tl_status (tasks s u))"
  shows "queues_ok s'"
  using assms lf.requeue_ok [of "vfstask s" t q] by (auto simp: queues_ok_def)

lemma table_del:
  assumes "table_ok role s" and "alltask s' = lf_del t (alltask s)"
    and "\<And>u. u \<noteq> t \<Longrightarrow> tl_task (tasks s' u) = tl_task (tasks s u)"
  shows "table_ok role s'"
  using assms by (auto simp: table_ok_def)

lemma check_timeout_pool:
  assumes "pool_ok role s" and "t \<in> set (vfstask s q)" and "q \<noteq> TASK_CLEAN"
    and "\<not> lock_failed e (M_task TASK_HOME)"
  shows "pool_ok role (check_task_timeout e role tmo t s)"
proof (cases "overdue e tmo s t")
  case True
  have "tl_status (tasks s t) \<noteq> TASK_CLEAN"
    using assms queue_status pool_okD(1) by metis
  note mv = check_timeout_moves [OF True this assms(4), of role]
  have "queues_ok (check_task_timeout e role tmo t s)"
    by (rule queues_moved [OF pool_okD(1) [OF assms(1)] mv(1)]) (simp_all add: mv(4))
  moreover have "table_ok role (check_task_timeout e role tmo t s)"
    by (rule table_del [OF pool_okD(2) [OF assms(1)] mv(2)]) (simp add: mv(4))
  moreover have "lf_wf (userl (check_task_timeout e role tmo t s))"
    using assms(1) by (simp add: mv(3) pool_ok_def)
  ultimately show ?thesis by (simp add: pool_ok_def)
next
  case False
  with assms(1) show ?thesis by (simp add: check_timeout_keeps)
qed

lemma check_timeout_counts:
  assumes "queues_ok s" and "counts_ok s" and "t \<in> set (vfstask s q)"
    and "q \<noteq> TASK_CLEAN" and "q \<noteq> TASK_HOME" and "\<not> lock_failed e (M_task TASK_HOME)"
  shows "counts_ok (check_task_timeout e role tmo t s)"
proof (cases "overdue e tmo s t")
  case True
  have st: "tl_status (tasks s t) = q" using assms queue_status by metis
  have wf: "lf_wf (vfstask s)" using assms(1) by (simp add: queues_ok_def)
  have d: "distinct (vfstask s q)" using wf by (simp add: lf_wf_def)
  have "vfstask s q \<noteq> []" using assms(3) by auto
  then have l: "int (length (removeAll t (vfstask s q))) = int (length (vfstask s q)) - 1"
    using length_removeAll_distinct [OF d assms(3)] by (cases "vfstask s q") simp_all
  have off: "removeAll t (vfstask s p) = vfstask s p" if "p \<noteq> q" for p
    using lf_wf_unique [OF wf assms(3)] that by (intro removeAll_notin) metis
  from check_timeout_moves(1,5) [OF True _ assms(6), of role] st assms(2,4,5)
  show ?thesis by (auto simp: counts_ok_def Let_def l off home_surplus_def)
next
  case False
  with assms(2) show ?thesis by (simp add: check_timeout_keeps)
qed

lemma fresh_filter:
  "distinct (xs :: 'b list) \<Longrightarrow> filter (\<lambda>u. u \<noteq> t \<and> P u) xs = filter P (removeAll t xs)"
  by (induction xs) auto

text \<open>
  One pass over a part \<open>ts\<close> of queue \<open>q\<close>: exactly its overdue tasks go, in order, to
  the tail of \<open>TASK_HOME\<close>.
\<close>

definition swept :: "env \<Rightarrow> role \<Rightarrow> int \<Rightarrow> int \<Rightarrow> ptr list \<Rightarrow> 'a task_state_scheme \<Rightarrow> 'a task_state_scheme \<Rightarrow> bool" where
  "swept e role tmo q ts s s' \<longleftrightarrow>
     pool_ok role s' \<and> counts_ok s' \<and>
     vfstask s' q = filter (\<lambda>t. \<not> (t \<in> set ts \<and> overdue e tmo s t)) (vfstask s q) \<and>
     vfstask s' TASK_HOME = vfstask s TASK_HOME @ filter (overdue e tmo s) ts \<and>
     (\<forall>p. p \<noteq> q \<longrightarrow> p \<noteq> TASK_HOME \<longrightarrow> vfstask s' p = vfstask s p) \<and>
     (\<forall>u. \<not> (u \<in> set ts \<and> overdue e tmo s u) \<longrightarrow> tasks s' u = tasks s u)"

lemma swept_refl: "pool_ok role s \<Longrightarrow> counts_ok s \<Longrightarrow> swept e role tmo q [] s s"
  by (simp add: swept_def)

lemma swept_skip: "\<not> overdue e tmo s t \<Longrightarrow> swept e role tmo q ts s s' \<Longrightarrow> swept e role tmo q (t # ts) s s'"
proof -
  assume "\<not> overdue e tmo s t"
  then have "(u \<in> set (t # ts) \<and> overdue e tmo s u) = (u \<in> set ts \<and> overdue e tmo s u)" for u by auto
  then show "swept e role tmo q ts s s' \<Longrightarrow> swept e role tmo q (t # ts) s s'"
    using \<open>\<not> overdue e tmo s t\<close> by (simp only: swept_def) simp
qed

lemma swept_move:
  assumes "overdue e tmo s t" and "t \<notin> set ts" and "q \<noteq> TASK_HOME" and d: "distinct (vfstask s q)"
    and c: "vfstask c q = removeAll t (vfstask s q)" "vfstask c TASK_HOME = vfstask s TASK_HOME @ [t]"
       "\<And>p. p \<noteq> q \<Longrightarrow> p \<noteq> TASK_HOME \<Longrightarrow> vfstask c p = vfstask s p"
       "\<And>u. u \<noteq> t \<Longrightarrow> tasks c u = tasks s u"
    and sw: "swept e role tmo q ts c s'"
  shows "swept e role tmo q (t # ts) s s'"
proof -
  have od: "overdue e tmo c u = overdue e tmo s u" if "u \<noteq> t" for u
    using that by (intro overdue_cong) (simp add: c(4))
  have odt: "overdue e tmo c u = overdue e tmo s u" if "u \<in> set ts" for u
    using that assms(2) od [of u] by metis
  have f1: "filter (overdue e tmo c) ts = filter (overdue e tmo s) ts"
    by (intro filter_cong) (simp_all add: odt)
  have f2: "filter (\<lambda>u. \<not> (u \<in> set ts \<and> overdue e tmo c u)) (removeAll t (vfstask s q)) =
      filter (\<lambda>u. \<not> (u \<in> set (t # ts) \<and> overdue e tmo s u)) (vfstask s q)"
    unfolding fresh_filter [OF d, symmetric] using assms(1,2)
    by (intro filter_cong) (auto simp: odt)
  have f3: "tasks s' u = tasks s u" if "\<not> (u \<in> set (t # ts) \<and> overdue e tmo s u)" for u
  proof -
    from that assms(1) have "u \<noteq> t" "\<not> (u \<in> set ts \<and> overdue e tmo c u)" by (auto simp: odt)
    with sw c(4) show ?thesis by (simp add: swept_def)
  qed
  from sw f3 show ?thesis
    unfolding swept_def c(1,2) f1 f2 using assms(1,3) c(3) by simp
qed

lemma scan_timeout:
  assumes "q \<noteq> TASK_CLEAN" and "q \<noteq> TASK_HOME" and "\<not> lock_failed e (M_task TASK_HOME)"
  shows "\<lbrakk>pool_ok role s; counts_ok s; distinct ts; set ts \<subseteq> set (vfstask s q)\<rbrakk> \<Longrightarrow>
    swept e role tmo q ts s (foldl (\<lambda>s t. check_task_timeout e role tmo t s) s ts)"
proof (induction ts arbitrary: s)
  case Nil
  then show ?case by (simp add: swept_refl)
next
  case (Cons t ts)
  let ?c = "check_task_timeout e role tmo t s"
  have q: "t \<in> set (vfstask s q)" and tn: "t \<notin> set ts" "distinct ts" using Cons.prems by simp_all
  note ok = pool_okD [OF Cons.prems(1)]
  have d: "distinct (vfstask s q)" using ok(4) by (simp add: lf_wf_def)
  have pool: "pool_ok role ?c" by (rule check_timeout_pool [OF Cons.prems(1) q assms(1,3)])
  have cnt: "counts_ok ?c" by (rule check_timeout_counts [OF ok(1) Cons.prems(2) q assms])
  show ?case
  proof (cases "overdue e tmo s t")
    case False
    with Cons show ?thesis by (simp add: check_timeout_keeps swept_skip)
  next
    case True
    have st: "tl_status (tasks s t) \<noteq> TASK_CLEAN" using queue_status [OF ok(1) q] assms(1) by simp
    note mv = check_timeout_moves [OF True st assms(3), of role]
    have off: "removeAll t (vfstask s p) = vfstask s p" if "p \<noteq> q" for p
      using lf_wf_unique [OF ok(4) q] that by (intro removeAll_notin) metis
    have c: "vfstask ?c q = removeAll t (vfstask s q)" "vfstask ?c TASK_HOME = vfstask s TASK_HOME @ [t]"
       "\<And>p. p \<noteq> q \<Longrightarrow> p \<noteq> TASK_HOME \<Longrightarrow> vfstask ?c p = vfstask s p"
       "\<And>u. u \<noteq> t \<Longrightarrow> tasks ?c u = tasks s u"
      using assms(2) by (simp_all add: mv(1,4) off)
    have "set ts \<subseteq> set (vfstask ?c q)" using Cons.prems tn by (auto simp: c(1))
    from swept_move [OF True tn(1) assms(2) d c Cons.IH [OF pool cnt tn(2) this]]
    show ?thesis by simp
  qed
qed

text \<open>A whole scan of the queues \<open>qs\<close>.\<close>

definition sweep_queues :: "env \<Rightarrow> role \<Rightarrow> int \<Rightarrow> int list \<Rightarrow> 'a task_state_scheme \<Rightarrow> 'a task_state_scheme" where
  "sweep_queues e role tmo qs s =
     foldl (\<lambda>s i. snd (scan_some_status_task e i (check_task_timeout e role tmo) s)) s qs"

lemma sweep_one:
  assumes "queue_open e q" and "q \<noteq> TASK_CLEAN" and "\<not> lock_failed e (M_task TASK_HOME)"
    and "pool_ok role s" and "counts_ok s"
  shows "swept e role tmo q (vfstask s q) s (snd (scan_some_status_task e q (check_task_timeout e role tmo) s))"
  using scan_timeout [OF assms(2) _ assms(3-5), of "vfstask s q"] assms(1) pool_okD(4) [OF assms(4)]
  by (simp add: scan_some_status_task_def queue_open_def lf_wf_def)

lemma sweep_all:
  assumes "\<not> lock_failed e (M_task TASK_HOME)"
  shows "\<lbrakk>pool_ok role s; counts_ok s; distinct qs; \<forall>q \<in> set qs. queue_open e q \<and> q \<noteq> TASK_CLEAN\<rbrakk> \<Longrightarrow>
    pool_ok role (sweep_queues e role tmo qs s) \<and> counts_ok (sweep_queues e role tmo qs s) \<and>
    (\<forall>q. q \<noteq> TASK_HOME \<longrightarrow> vfstask (sweep_queues e role tmo qs s) q =
       (if q \<in> set qs then filter (\<lambda>t. \<not> overdue e tmo s t) (vfstask s q) else vfstask s q)) \<and>
    vfstask (sweep_queues e role tmo qs s) TASK_HOME =
       vfstask s TASK_HOME @ filter (overdue e tmo s) (concat (map (vfstask s) qs))"
proof (induction qs arbitrary: s)
  case Nil
  then show ?case by (simp add: sweep_queues_def)
next
  case (Cons q qs)
  let ?s = "snd (scan_some_status_task e q (check_task_timeout e role tmo) s)"
  have q: "queue_open e q" "q \<noteq> TASK_CLEAN" "q \<notin> set qs" using Cons.prems by simp_all
  have sw: "swept e role tmo q (vfstask s q) s ?s"
    by (rule sweep_one [OF q(1,2) assms Cons.prems(1,2)])
  have wf: "lf_wf (vfstask s)" using pool_okD(4) [OF Cons.prems(1)] .
  have od: "overdue e tmo ?s u = overdue e tmo s u" if "u \<in> set (vfstask s p)" "p \<noteq> q" for u p
  proof -
    have "u \<notin> set (vfstask s q)" using lf_wf_unique [OF wf that(1)] that(2) by blast
    then show ?thesis using sw by (intro overdue_cong) (simp add: swept_def)
  qed
  have same: "vfstask ?s p = vfstask s p" if "p \<noteq> q" "p \<noteq> TASK_HOME" for p
    using sw that by (simp add: swept_def)
  have ih: "pool_ok role (sweep_queues e role tmo qs ?s) \<and> counts_ok (sweep_queues e role tmo qs ?s) \<and>
    (\<forall>p. p \<noteq> TASK_HOME \<longrightarrow> vfstask (sweep_queues e role tmo qs ?s) p =
       (if p \<in> set qs then filter (\<lambda>t. \<not> overdue e tmo ?s t) (vfstask ?s p) else vfstask ?s p)) \<and>
    vfstask (sweep_queues e role tmo qs ?s) TASK_HOME =
       vfstask ?s TASK_HOME @ filter (overdue e tmo ?s) (concat (map (vfstask ?s) qs))"
    using Cons.prems sw by (intro Cons.IH) (auto simp: swept_def)
  have nh: "p \<noteq> TASK_HOME" "p \<noteq> q" if "p \<in> set qs" for p
    using that Cons.prems(4) q(3) by (auto simp: queue_open_def)
  have "concat (map (vfstask ?s) qs) = concat (map (vfstask s) qs)"
    using nh same by (auto intro!: arg_cong [where f = concat])
  moreover have "filter (overdue e tmo ?s) (concat (map (vfstask s) qs)) =
      filter (overdue e tmo s) (concat (map (vfstask s) qs))"
    using od nh by (intro filter_cong) auto
  ultimately have home: "vfstask (sweep_queues e role tmo qs ?s) TASK_HOME =
      vfstask s TASK_HOME @ filter (overdue e tmo s) (concat (map (vfstask s) (q # qs)))"
    using ih sw by (simp add: swept_def)
  have rest: "vfstask (sweep_queues e role tmo qs ?s) p =
      (if p \<in> set (q # qs) then filter (\<lambda>t. \<not> overdue e tmo s t) (vfstask s p) else vfstask s p)"
    if "p \<noteq> TASK_HOME" for p
  proof (cases "p = q")
    case True
    with ih q(3) that sw show ?thesis by (auto simp: swept_def intro: filter_cong)
  next
    case False
    then have "filter (\<lambda>t. \<not> overdue e tmo ?s t) (vfstask s p) = filter (\<lambda>t. \<not> overdue e tmo s t) (vfstask s p)"
      using od by (intro filter_cong) auto
    with False ih that same show ?thesis by simp
  qed
  have "sweep_queues e role tmo (q # qs) s = sweep_queues e role tmo qs ?s" by (simp add: sweep_queues_def)
  with ih home rest show ?case by simp
qed

definition timeout_queues :: "role \<Rightarrow> int list" where
  "timeout_queues role =
     (if role = ROLE_CS then [0..8] @ [TASK_SYNC_VOSS] else [1..8])"

lemma do_timeout_sweeps: "do_timeout_task e role tmo s = sweep_queues e role tmo (timeout_queues role) s"
proof -
  have r: "[TASK_DELAY..TASK_CLEAN - 1] = [0, 1, 2, 3, 4, 5, 6, 7, 8 :: int]"
    by (simp add: queue_defs upto_rec1)
  show ?thesis
    by (simp add: do_timeout_task_def sweep_queues_def timeout_queues_def r Let_def upto_rec1)
       (simp add: queue_defs)
qed

section \<open>The queues in memory\<close>

text \<open>
  The heads are the array \<open>vfstask\<close>; the entries are the \<open>llist\<close> members of the
  block \<open>init_task_info\<close> allocates, named by their index in it.
\<close>

definition queue_head :: "int \<Rightarrow> ptr" where "queue_head q = 16 * nat q"

definition pool_block :: "ptr \<Rightarrow> ptr set" where
  "pool_block block = (\<lambda>i. block + i) ` {0..<POOL}"

interpretation vm: ring_memory queue_head "{q. valid_status q}" "pool_block b" for b
  by unfold_locales (simp add: pool_block_def)

end
