(* ===== verification/Tracker.thy ===== *)
theory Tracker
  imports Conn TaskQueue IpConfig
begin

text \<open>
  The tracker (\<open>src/network/tracker\<close>): it accepts the FCS and CS machines, takes new
  tasks from an FCS, hands each to a CS that serves the directory, and passes the result
  back.  A peer is named by its descriptor \<open>fd\<close>; a peer's \<open>tasklist\<close> is the list \<open>userl\<close>
  of the pool at \<open>fd\<close>.  A task record travels as the bytes of the C structure: the two
  conversions and its size are the parameter \<open>abi\<close>, as the compiler lays it out.
\<close>

record abi =
  base_of :: "byte list \<Rightarrow> t_task_base"
  bytes_of :: "t_task_base \<Rightarrow> byte list"
  sizeof_base :: u16

text \<open>Commands and states of the signalling protocol (\<open>src/lib/protocol.h\<close>).\<close>

definition HEARTBEAT_REQ :: byte where "HEARTBEAT_REQ = 0x01"
definition HEARTBEAT_RSP :: byte where "HEARTBEAT_RSP = 0x02"
definition ADDONE_REQ :: byte where "ADDONE_REQ = 0x03"
definition ADDONE_RSP :: byte where "ADDONE_RSP = 0x04"
definition TASKINFO_REQ :: byte where "TASKINFO_REQ = 0x0B"
definition NEWTASK_REQ :: byte where "NEWTASK_REQ = 0x0D"
definition NEWTASK_RSP :: byte where "NEWTASK_RSP = 0x0E"
definition HB_T_2_F :: byte where "HB_T_2_F = 0x01"
definition HB_T_2_T :: byte where "HB_T_2_T = 0x02"
definition HB_C_2_T :: byte where "HB_C_2_T = 0x03"
definition T_A_2_F :: byte where "T_A_2_F = 0x01"
definition T_A_2_T :: byte where "T_A_2_T = 0x02"
definition TASKINFO_C_2_T :: byte where "TASKINFO_C_2_T = 0x01"
definition TASK_DISPATCH :: byte where "TASK_DISPATCH = 0x01"
definition TASK_START :: byte where "TASK_START = 0x02"
definition TASK_FAILED :: byte where "TASK_FAILED = 0x08"

lemmas cmd_defs = HEARTBEAT_REQ_def HEARTBEAT_RSP_def ADDONE_REQ_def ADDONE_RSP_def
  TASKINFO_REQ_def NEWTASK_REQ_def NEWTASK_RSP_def HB_T_2_F_def HB_T_2_T_def HB_C_2_T_def
  T_A_2_F_def T_A_2_T_def TASKINFO_C_2_T_def TASK_DISPATCH_def TASK_START_def TASK_FAILED_def

definition RET_CLOSE_MALLOC :: int where "RET_CLOSE_MALLOC = 303"
definition RET_CLOSE_DUP :: int where "RET_CLOSE_DUP = 304"

datatype sock_stat = LOGOUT | CONNECTED | LOGIN | HB_SEND | HB_RSP | IDLE | RECV_LAST | SEND_LAST

record vfs_tracker_peer =
  pe_hbtime :: int
  pe_ip :: u32
  pe_cfgip :: u32
  pe_taskcount :: int
  pe_role :: role
  pe_sock_stat :: sock_stat
  pe_server_stat :: byte
  pe_isp :: isp
  pe_archive_isp :: isp
  pe_real_isp :: isp

definition zero_peer :: vfs_tracker_peer where
  "zero_peer = \<lparr>pe_hbtime = 0, pe_ip = 0, pe_cfgip = 0, pe_taskcount = 0, pe_role = UNKOWN,
     pe_sock_stat = LOGOUT, pe_server_stat = 0, pe_isp = 0, pe_archive_isp = 0, pe_real_isp = 0\<rparr>"

record tracker_state = task_state +
  peers :: "ptr \<Rightarrow> vfs_tracker_peer"
  has_user :: "ptr \<Rightarrow> bool"
  activelist :: "ptr list"
  online_list :: "nat \<Rightarrow> ptr list"
  cfg_list :: "nat \<Rightarrow> ptr list"
  cfg :: cfg_state
  sent :: "(ptr \<times> byte list) list"
  closed :: "ptr list"
  scan_i :: nat
  last_scan_timeout :: int

text \<open>
  The surroundings of one call: the operating system (\<open>tw_env\<close>, and \<open>tw_env2\<close> for the
  second of the two tasks \<open>do_newtask\<close> creates), name resolution
  (\<open>tw_out\<close>), the structure layout, the socket calls and the configuration values read.
\<close>

record tworld =
  tw_env :: env
  tw_env2 :: env
  tw_out :: outside
  tw_abi :: abi
  tw_connect :: "string \<Rightarrow> int"
  tw_peerip :: "ptr \<Rightarrow> u32"
  tw_timeout :: int
  tw_max_run :: nat
  tw_task_timeout :: int

definition set_peer :: "ptr \<Rightarrow> vfs_tracker_peer \<Rightarrow> tracker_state \<Rightarrow> tracker_state" where
  "set_peer fd p s = s\<lparr>peers := (peers s)(fd := p)\<rparr>"

definition set_client_data :: "ptr \<Rightarrow> byte list \<Rightarrow> tracker_state \<Rightarrow> tracker_state" where
  "set_client_data fd bs s = s\<lparr>sent := sent s @ [(fd, bs)]\<rparr>"

definition c_string :: "byte list \<Rightarrow> string" where
  "c_string bs = map (\<lambda>b. char_of (unat b)) (takeWhile (\<lambda>b. b \<noteq> 0) bs)"

definition text_bytes :: "string \<Rightarrow> byte list" where
  "text_bytes s = map of_char s"

definition stat_byte :: "server_stat \<Rightarrow> byte" where
  "stat_byte st = (case st of UNKOWN_STAT \<Rightarrow> 0 | WAIT_SYNC \<Rightarrow> 1 | SYNCING \<Rightarrow> 2 | ON_LINE \<Rightarrow> 3 | OFF_LINE \<Rightarrow> 4)"

section \<open>vfs\_sig\_base.c: finding a peer\<close>

text \<open>
  \<open>find_ip_stat\<close> walks \<open>cfg_list\<close>, whose entries are linked by \<open>cfglist\<close>, as if they were
  linked by \<open>hlist\<close>: the pointer it uses is 16 bytes into the peer (\<open>Shifted\<close>), and the
  \<open>cfgip\<close> it reads there is the padding behind the peer, which is zero.
\<close>

datatype peer_ref = Peer ptr | Shifted ptr

definition find_ip_stat :: "u32 \<Rightarrow> tracker_state \<Rightarrow> peer_ref option" where
  "find_ip_stat ip s =
     (case find (\<lambda>fd. 0 = ip) (cfg_list s (bucket_of ip)) of
        Some fd \<Rightarrow> Some (Shifted fd)
      | None \<Rightarrow> map_option Peer (find (\<lambda>fd. pe_ip (peers s fd) = ip) (online_list s (bucket_of ip))))"

definition init_cfg_connect :: "tworld \<Rightarrow> string \<Rightarrow> ptr \<Rightarrow> tracker_state \<Rightarrow> int \<times> tracker_state" where
  "init_cfg_connect w sip fd s =
     (let (ip, o_s_ip) = get_uint32_ip (f_dns (tw_out w)) sip in
      if ip = INADDR_NONE then (-1, s)
      else case get_ip_info (tw_env w) (tw_out w) (case o_s_ip of Some x \<Rightarrow> x | None \<Rightarrow> []) True (cfg s) of
        (r, Some p) \<Rightarrow>
          let i = infos (cfg s) p;
              s = set_peer fd ((peers s fd)\<lparr>pe_cfgip := ip, pe_sock_stat := LOGIN, pe_role := ii_role i,
                    pe_isp := ii_isp i, pe_archive_isp := ii_archive_isp i,
                    pe_real_isp := ii_real_isp i\<rparr>) s
          in (0, s\<lparr>cfg_list := lf_add_head fd (bucket_of ip) (cfg_list s)\<rparr>)
      | (r, None) \<Rightarrow> (-1, s))"

section \<open>vfs\_sig.c: connections\<close>

definition svc_initconn :: "tworld \<Rightarrow> ptr \<Rightarrow> tracker_state \<Rightarrow> int \<times> tracker_state" where
  "svc_initconn w fd s =
     (let ip = tw_peerip w fd in
      if find_ip_stat ip s \<noteq> None then (RET_CLOSE_DUP, s)
      else if \<not> has_user s fd \<and> e_malloc (tw_env w) = None then (RET_CLOSE_MALLOC, s)
      else
        let s = set_peer fd (zero_peer\<lparr>pe_hbtime := e_now (tw_env w), pe_sock_stat := CONNECTED, pe_ip := ip\<rparr>)
                  (s\<lparr>has_user := (has_user s)(fd := True)\<rparr>)
        in (0, s\<lparr>activelist := activelist s @ [fd],
                 online_list := lf_add_head fd (bucket_of ip) (online_list s),
                 userl := (userl s)(fd := [])\<rparr>))"

definition refresh_cs_task :: "env \<Rightarrow> ptr list \<Rightarrow> tracker_state \<Rightarrow> tracker_state" where
  "refresh_cs_task e ts s =
     foldl (\<lambda>s t. snd (vfs_set_task e t TASK_WAIT (s\<lparr>userl := lf_del t (userl s)\<rparr>))) s ts"

definition svc_finiconn :: "tworld \<Rightarrow> ptr \<Rightarrow> tracker_state \<Rightarrow> tracker_state" where
  "svc_finiconn w fd s =
     (if \<not> has_user s fd then s
      else
        let s = s\<lparr>activelist := removeAll fd (activelist s), online_list := lf_del fd (online_list s),
                  cfg_list := lf_del fd (cfg_list s)\<rparr>;
            s = (if pe_role (peers s fd) = ROLE_CS then refresh_cs_task (tw_env w) (userl s fd) s else s)
        in set_peer fd zero_peer (s\<lparr>userl := (userl s)(fd := [])\<rparr>))"

text \<open>\<open>active_send\<close> also refreshes the peer's heartbeat time.\<close>

definition active_send :: "env \<Rightarrow> ptr \<Rightarrow> byte \<Rightarrow> byte \<Rightarrow> byte list \<Rightarrow> u16 \<Rightarrow> tracker_state \<Rightarrow> tracker_state" where
  "active_send e fd cmdid status b bodylen s =
     set_client_data fd (create_sig_msg cmdid status b bodylen)
       (set_peer fd ((peers s fd)\<lparr>pe_hbtime := e_now e\<rparr>) s)"

definition active_connect :: "tworld \<Rightarrow> t_ip_info \<Rightarrow> tracker_state \<Rightarrow> tracker_state" where
  "active_connect w ipinfo s =
     (let fd = tw_connect w (ii_s_ip ipinfo) in
      if fd < 0 then s
      else let (r, s) = svc_initconn w (nat fd) s in
        if r \<noteq> 0 then s\<lparr>closed := closed s @ [nat fd]\<rparr>
        else
          let body = text_bytes (self_sip (cfg s));
              s = set_peer (nat fd) ((peers s (nat fd))\<lparr>pe_archive_isp := ii_archive_isp ipinfo,
                    pe_role := ii_role ipinfo\<rparr>) s
          in active_send (tw_env w) (nat fd) ADDONE_REQ
               (if ii_role ipinfo = ROLE_TRACKER then T_A_2_T else T_A_2_F)
               body (word_of_nat (length body)) s)"

text \<open>At most ten buckets in one call; the next call goes on where this one stopped.\<close>

definition connect_bucket :: "tworld \<Rightarrow> nat \<Rightarrow> tracker_state \<Rightarrow> tracker_state" where
  "connect_bucket w i s =
     foldl (\<lambda>s p. let ipinfo = infos (cfg s) p in
         if ii_isself ipinfo then s
         else if ii_role ipinfo \<noteq> ROLE_FCS then s
         else if find_ip_stat (ii_ip ipinfo) s = None then active_connect w ipinfo s else s)
       s (hlists (cfg s) (Cfg i))"

fun connect_buckets :: "nat \<Rightarrow> tworld \<Rightarrow> tracker_state \<Rightarrow> tracker_state" where
  "connect_buckets k w s =
     (if scan_i s < 256 then
        let s = connect_bucket w (scan_i s) s in
        (case k of 0 \<Rightarrow> s | Suc j \<Rightarrow> connect_buckets j w (s\<lparr>scan_i := scan_i s + 1\<rparr>))
      else s)"

declare connect_buckets.simps [simp del]

definition scan_cfg_iplist_and_connect :: "tworld \<Rightarrow> tracker_state \<Rightarrow> tracker_state" where
  "scan_cfg_iplist_and_connect w s =
     (if get_cfg_lock (tw_env w) \<noteq> 0 then s
      else let s = connect_buckets 9 w s
           in if scan_i s \<ge> 256 then s\<lparr>scan_i := 0\<rparr> else s)"

section \<open>vfs\_sig\_task.c: dispatching\<close>

text \<open>Whether machine \<open>i\<close> of the directory can take the task; the peer is returned.\<close>

definition eligible :: "tworld \<Rightarrow> t_cs_dir_info \<Rightarrow> t_task_sub \<Rightarrow> tracker_state \<Rightarrow> nat \<Rightarrow> ptr option" where
  "eligible w cs sub s i =
     (let isp = ts_isp sub; archive_isp = ts_archive_isp sub; ip = cd_ip cs i in
      if archive_isp = ISP_FCS \<and> cd_isp cs i \<noteq> isp then None
      else if archive_isp \<noteq> ISP_FCS \<and> (archive_isp \<noteq> cd_archive_isp cs i \<or> cd_real_isp cs i \<noteq> isp) then None
      else case find_ip_stat ip s of
        Some (Peer fd) \<Rightarrow>
          (case get_ip_info_by_uint (tw_env w) ip True [CHR '' ''] [CHR '' ''] (cfg s) of
             (r, Some p) \<Rightarrow> if ii_offline (infos (cfg s) p) then None else Some fd
           | (r, None) \<Rightarrow> None)
      | _ \<Rightarrow> None)"

definition good_ip_step ::
  "tworld \<Rightarrow> t_cs_dir_info \<Rightarrow> t_vfs_taskinfo \<Rightarrow> tracker_state \<Rightarrow> u32 \<times> int \<Rightarrow> nat \<Rightarrow> u32 \<times> int" where
  "good_ip_step w cs task s acc i =
     (case eligible w cs (ti_sub task) s i of
        None \<Rightarrow> acc
      | Some fd \<Rightarrow>
        let (ip, mintask) = acc; n = pe_taskcount (peers s fd) in
        if ip = 0 then (cd_ip cs i, n)
        else if n \<le> mintask \<and> cd_ip cs i \<noteq> tb_dstip (ti_base task) then (cd_ip cs i, n)
        else acc)"

definition get_a_good_ip :: "tworld \<Rightarrow> t_cs_dir_info \<Rightarrow> t_vfs_taskinfo \<Rightarrow> tracker_state \<Rightarrow> u32" where
  "get_a_good_ip w cs task s =
     (if cd_index cs = 0 then 0
      else fst (foldl (good_ip_step w cs task s) (0, 0) [0..<cd_index cs]))"

definition do_dispatch :: "tworld \<Rightarrow> ptr \<Rightarrow> tracker_state \<Rightarrow> int \<times> tracker_state" where
  "do_dispatch w t s =
     (let base = tbase s t in
      case get_cs_info_by_path (tw_env w) (tb_filename base) (cfg s) of
        None \<Rightarrow> (1, s)
      | Some cs \<Rightarrow>
        let ip = get_a_good_ip w cs (tl_task (tasks s t)) s in
        if ip = 0 then (1, s)
        else case find_ip_stat ip s of
          Some (Peer fd) \<Rightarrow>
            let base = base\<lparr>tb_dstip := ip, tb_retry := tb_retry base + 1\<rparr>;
                s = set_base t base s;
                s = set_peer fd ((peers s fd)\<lparr>pe_hbtime := e_now (tw_env w),
                      pe_taskcount := pe_taskcount (peers s fd) + 1\<rparr>) s;
                s = set_client_data fd (create_sig_msg NEWTASK_REQ TASK_START
                      (bytes_of (tw_abi w) base) (sizeof_base (tw_abi w))) s
            in (0, s\<lparr>userl := lf_add_head t fd (lf_del t (userl s))\<rparr>)
        | _ \<Rightarrow> (1, s))"

definition create_delay_task :: "tworld \<Rightarrow> isp \<Rightarrow> isp \<Rightarrow> t_task_base \<Rightarrow> tracker_state \<Rightarrow> tracker_state" where
  "create_delay_task w isp archive_isp base s =
     (case vfs_get_task (tw_env w) TASK_HOME s of
        (r, Some t, s) \<Rightarrow>
          if r \<noteq> GET_TASK_OK then s
          else
            let s = s\<lparr>userl := lf_del t (userl s)\<rparr>;
                base = base\<lparr>tb_starttime := e_now (tw_env w)\<rparr>;
                s = set_task t (zero_task\<lparr>ti_base := base,
                      ti_sub := zero_sub\<lparr>ts_isp := isp, ts_archive_isp := archive_isp\<rparr>\<rparr>) s;
                s = snd (vfs_set_task (tw_env w) t TASK_WAIT s);
                (r, rec, tmp) = set_task_to_tmp (tw_env w) (tasks s t) (tmpst s)
            in s\<lparr>tasks := (tasks s)(t := rec), tmpst := tmp\<rparr>
      | (r, None, s) \<Rightarrow> s)"

definition do_newtask :: "tworld \<Rightarrow> ptr \<Rightarrow> byte list \<Rightarrow> tracker_state \<Rightarrow> int \<times> tracker_state" where
  "do_newtask w fd b s =
     (let base = (base_of (tw_abi w) b)\<lparr>tb_dstip := 0, tb_retry := 0, tb_starttime := e_now (tw_env w)\<rparr>;
          archive_isp = pe_archive_isp (peers s fd);
          s = create_delay_task w TEL archive_isp base s
      in (0, create_delay_task (w\<lparr>tw_env := tw_env2 w\<rparr>) CNC archive_isp base s))"

text \<open>The peer of the source domain, or how the answer's \<open>overstatus\<close> says it is missing.\<close>

definition get_rsp_peer :: "tworld \<Rightarrow> t_task_base \<Rightarrow> tracker_state \<Rightarrow> ptr + byte" where
  "get_rsp_peer w base s =
     (case get_ip_info (tw_env w) (tw_out w) (tb_src_domain base) True (cfg s) of
        (r, None) \<Rightarrow> Inr OVER_SRC_DOMAIN_ERR
      | (r, Some p) \<Rightarrow>
        (case find_ip_stat (ii_ip (infos (cfg s) p)) s of
           Some (Peer fd) \<Rightarrow> Inl fd
         | _ \<Rightarrow> Inr OVER_SRC_IP_OFFLINE))"

definition do_rsp :: "tworld \<Rightarrow> ptr \<Rightarrow> t_task_base \<Rightarrow> tracker_state \<Rightarrow> tracker_state" where
  "do_rsp w fd base s =
     set_peer fd ((peers s fd)\<lparr>pe_sock_stat := SEND_LAST\<rparr>)
       (set_client_data fd (create_sig_msg NEWTASK_RSP (tb_overstatus base)
          (bytes_of (tw_abi w) base) (sizeof_base (tw_abi w))) s)"

definition process_timeout :: "env \<Rightarrow> ptr \<Rightarrow> tracker_state \<Rightarrow> tracker_state" where
  "process_timeout e t s =
     (let s = (if tb_overstatus (tbase s t) = OVER_UNKNOWN
               then set_base t ((tbase s t)\<lparr>tb_overstatus := OVER_TIMEOUT\<rparr>) s else s)
      in snd (vfs_set_task e t TASK_CLEAN (s\<lparr>userl := lf_del t (userl s)\<rparr>)))"

text \<open>The end of \<open>update_task\<close>: the saved record is cleared and the result passed on.\<close>

definition release_slot :: "env \<Rightarrow> ptr \<Rightarrow> tracker_state \<Rightarrow> tracker_state" where
  "release_slot e t s =
     (case ti_user (tl_task (tasks s t)) of
        None \<Rightarrow> s
      | Some slot \<Rightarrow> set_task t ((tl_task (tasks s t))\<lparr>ti_user := None\<rparr>)
          (s\<lparr>tmpst := set_tmp_blank e (t_pos (tmpst s) slot) (Some slot) (tmpst s)\<rparr>))"

definition finish_task :: "tworld \<Rightarrow> t_task_base \<Rightarrow> ptr \<Rightarrow> tracker_state \<Rightarrow> tracker_state" where
  "finish_task w base t s =
     (let s = release_slot (tw_env w) t s;
          s = set_base t ((tbase s t)\<lparr>tb_overstatus := tb_overstatus base\<rparr>) s
      in case get_rsp_peer w base s of
           Inl rfd \<Rightarrow>
             (let s = do_rsp w rfd base s
              in snd (vfs_set_task (tw_env w) t TASK_CLEAN (s\<lparr>userl := lf_del t (userl s)\<rparr>)))
         | Inr _ \<Rightarrow> process_timeout (tw_env w) t s)"

definition update_task :: "tworld \<Rightarrow> ptr \<Rightarrow> byte list \<Rightarrow> tracker_state \<Rightarrow> int \<times> tracker_state" where
  "update_task w fd b s =
     (let e = tw_env w; base = base_of (tw_abi w) b; peer = peers s fd;
          sub = zero_sub\<lparr>ts_isp := (if pe_archive_isp peer = ISP_FCS then pe_isp peer else pe_real_isp peer)\<rparr>;
          s = set_peer fd (peer\<lparr>pe_taskcount := max 0 (pe_taskcount peer - 1)\<rparr>) s
      in case get_task_from_alltask e ROLE_TRACKER base sub s of
        (r, None, s) \<Rightarrow>
          (case get_rsp_peer w base s of Inl rfd \<Rightarrow> (-1, do_rsp w rfd base s) | Inr _ \<Rightarrow> (-1, s))
      | (r, Some t, s) \<Rightarrow>
          if tb_overstatus base \<noteq> OVER_OK \<and> tb_overstatus base \<noteq> OVER_E_OPEN_SRCFILE
             \<and> sint (tb_retry (tbase s t)) < 2
          then (-1, snd (vfs_set_task e t TASK_WAIT s))
          else (0, finish_task w base t s))"

section \<open>vfs\_sig\_sub.c: the worker and the messages\<close>

fun requeue_wait_sync :: "nat \<Rightarrow> env \<Rightarrow> tracker_state \<Rightarrow> tracker_state" where
  "requeue_wait_sync 0 e s = s"
| "requeue_wait_sync (Suc k) e s =
     (case vfs_get_task e TASK_WAIT_SYNC s of
        (r, Some t, s') \<Rightarrow> if r \<noteq> GET_TASK_OK then s'
                          else requeue_wait_sync k e (snd (vfs_set_task e t TASK_WAIT s'))
      | (r, None, s') \<Rightarrow> s')"

primrec run_wait :: "nat \<Rightarrow> tworld \<Rightarrow> tracker_state \<Rightarrow> tracker_state" where
  "run_wait 0 w s = s"
| "run_wait (Suc k) w s =
     (case vfs_get_task (tw_env w) TASK_WAIT s of
        (r, Some t, s) \<Rightarrow>
          if r \<noteq> GET_TASK_OK then s
          else (case do_dispatch w t s of
            (d, s) \<Rightarrow>
              if d \<noteq> 0 then run_wait k w (snd (vfs_set_task (tw_env w) t TASK_WAIT_SYNC s))
              else run_wait k w (snd (add_task_to_alltask (tw_env w) ROLE_TRACKER t
                     (snd (vfs_set_task (tw_env w) t TASK_RUN s)))))
      | (r, None, s) \<Rightarrow> s)"

text \<open>The first loop ends when \<open>TASK_WAIT_SYNC\<close> is empty: its length, and one more, is enough.\<close>

definition check_task :: "tworld \<Rightarrow> tracker_state \<Rightarrow> tracker_state" where
  "check_task w s =
     run_wait (tw_max_run w) w
       (requeue_wait_sync (Suc (length (vfstask s TASK_WAIT_SYNC))) (tw_env w) s)"

definition do_req :: "tworld \<Rightarrow> ptr \<Rightarrow> t_vfs_sig_head \<Rightarrow> byte list \<Rightarrow> tracker_state \<Rightarrow> int \<times> tracker_state" where
  "do_req w fd h b s =
     (let s = set_peer fd ((peers s fd)\<lparr>pe_hbtime := e_now (tw_env w)\<rparr>) s;
          ob = [stat_byte (self_stat (cfg s))];
          cmd = h_cmdid h;
          note_stat = (\<lambda>s. if h_bodylen h \<noteq> 1 then s
                       else set_peer fd ((peers s fd)\<lparr>pe_server_stat := b ! 0\<rparr>) s);
          last = (\<lambda>s. set_peer fd ((peers s fd)\<lparr>pe_sock_stat := SEND_LAST\<rparr>) s)
      in
      if cmd = HEARTBEAT_REQ then
        (if h_status h \<noteq> HB_C_2_T \<and> HB_T_2_T \<noteq> h_status h then (RECV_ADD_EPOLLIN, s)
         else (RECV_ADD_EPOLLOUT, note_stat (last
                (set_client_data fd (create_sig_msg HEARTBEAT_RSP (h_status h) ob 1) s))))
      else if cmd = HEARTBEAT_RSP then
        (RECV_ADD_EPOLLIN, note_stat (set_peer fd ((peers s fd)\<lparr>pe_sock_stat := IDLE\<rparr>) s))
      else if cmd = ADDONE_REQ then
        (let (r, s) = init_cfg_connect w (c_string b) fd s in
         if r \<noteq> 0 then (RECV_CLOSE, s)
         else let me = text_bytes (self_sip (cfg s))
              in (RECV_ADD_EPOLLOUT, last (set_client_data fd
                   (create_sig_msg ADDONE_RSP (h_status h) me (word_of_nat (length me))) s)))
      else if cmd = ADDONE_RSP then
        (let (r, s) = init_cfg_connect w (c_string b) fd s in
         if r \<noteq> 0 then (RECV_CLOSE, s)
         else (RECV_ADD_EPOLLIN, set_peer fd ((peers s fd)\<lparr>pe_sock_stat := IDLE\<rparr>) s))
      else if cmd = TASKINFO_REQ then
        (if h_status h \<noteq> TASKINFO_C_2_T then (RECV_ADD_EPOLLIN, s)
         else (RECV_ADD_EPOLLOUT, last (set_client_data fd [] s)))
      else if cmd = NEWTASK_REQ then
        (if h_status h \<noteq> TASK_DISPATCH then (RECV_ADD_EPOLLIN, s)
         else if h_bodylen h \<noteq> sizeof_base (tw_abi w) then (RECV_CLOSE, s)
         else let (r, s) = do_newtask w fd b s in
           if r \<noteq> 0 then (RECV_ADD_EPOLLOUT, last (set_client_data fd
                (create_sig_msg NEWTASK_RSP TASK_FAILED b (sizeof_base (tw_abi w))) s))
           else (RECV_ADD_EPOLLIN, s))
      else if cmd = NEWTASK_RSP then
        (if h_bodylen h \<noteq> sizeof_base (tw_abi w) then (RECV_ADD_EPOLLIN, s)
         else (RECV_ADD_EPOLLIN, snd (update_task w fd b s)))
      else (RECV_CLOSE, s))"

text \<open>Receiving and sending put the peer at the end of \<open>activelist\<close>.\<close>

definition touch_peer :: "env \<Rightarrow> ptr \<Rightarrow> tracker_state \<Rightarrow> tracker_state" where
  "touch_peer e fd s = (set_peer fd ((peers s fd)\<lparr>pe_hbtime := e_now e\<rparr>) s)
     \<lparr>activelist := removeAll fd (activelist s) @ [fd]\<rparr>"

definition tracker_svc_recv ::
  "tworld \<Rightarrow> ptr \<Rightarrow> mybuff \<Rightarrow> tracker_state \<Rightarrow> (int \<times> mybuff \<times> tracker_state) option" where
  "tracker_svc_recv w fd m s = Conn.svc_recv (do_req w fd) m (touch_peer (tw_env w) fd s)"

definition tracker_svc_send :: "tworld \<Rightarrow> ptr \<Rightarrow> tracker_state \<Rightarrow> int \<times> tracker_state" where
  "tracker_svc_send w fd s = (SEND_ADD_EPOLLIN, touch_peer (tw_env w) fd s)"

primrec timeout_peers :: "tworld \<Rightarrow> ptr list \<Rightarrow> tracker_state \<Rightarrow> tracker_state" where
  "timeout_peers w [] s = s"
| "timeout_peers w (fd # fds) s =
     (let idle = e_now (tw_env w) - pe_hbtime (peers s fd); to = tw_timeout w * 10 in
      if idle < tw_timeout w then s
      else if pe_role (peers s fd) \<noteq> ROLE_CS \<and> idle > tw_timeout w \<and> idle < to then
        timeout_peers w fds (active_send (tw_env w) fd HEARTBEAT_REQ
          (if pe_role (peers s fd) = ROLE_TRACKER then HB_T_2_T else HB_T_2_F)
          [stat_byte (self_stat (cfg s))] 1 s)
      else if idle > to then
        timeout_peers w fds ((svc_finiconn w fd s)\<lparr>closed := closed s @ [fd]\<rparr>)
      else timeout_peers w fds s)"

definition svc_timeout :: "tworld \<Rightarrow> tracker_state \<Rightarrow> tracker_state" where
  "svc_timeout w s =
     (let s = timeout_peers w (activelist s) s;
          s = check_task w (scan_cfg_iplist_and_connect w s);
          now = e_now (tw_env w)
      in if now - last_scan_timeout s > 1800 then
           do_timeout_task (tw_env w) ROLE_TRACKER (tw_task_timeout w) (s\<lparr>last_scan_timeout := now\<rparr>)
         else s)"

section \<open>Finding and choosing peers\<close>

lemma find_ip_online:
  assumes "ip \<noteq> 0"
  shows "find_ip_stat ip s = map_option Peer (find (\<lambda>fd. pe_ip (peers s fd) = ip) (online_list s (bucket_of ip)))"
proof -
  have "find (\<lambda>fd. 0 = ip) xs = None" for xs :: "ptr list" using assms by (simp add: find_None_iff)
  then show ?thesis by (simp add: find_ip_stat_def)
qed

lemma find_ip_peer:
  assumes "find_ip_stat ip s = Some (Peer fd)"
  shows "pe_ip (peers s fd) = ip" and "fd \<in> set (online_list s (bucket_of ip))"
  using assms by (auto simp: find_ip_stat_def find_Some_iff split: option.splits)

text \<open>A peer that has connected is found by its address, and a second one is refused.\<close>

lemma initconn_found:
  assumes "svc_initconn w fd s = (0, s')" and "tw_peerip w fd \<noteq> 0"
  shows "find_ip_stat (tw_peerip w fd) s' = Some (Peer fd)"
    and "fst (svc_initconn w' fd' s') = RET_CLOSE_DUP \<or> tw_peerip w' fd' \<noteq> tw_peerip w fd"
proof -
  have "online_list s' (bucket_of (tw_peerip w fd)) = fd # online_list s (bucket_of (tw_peerip w fd))"
    "pe_ip (peers s' fd) = tw_peerip w fd"
    using assms(1) by (auto simp: svc_initconn_def set_peer_def RET_CLOSE_DUP_def RET_CLOSE_MALLOC_def
        Let_def split: if_splits)
  then show f: "find_ip_stat (tw_peerip w fd) s' = Some (Peer fd)"
    by (simp add: find_ip_online [OF assms(2)])
  show "fst (svc_initconn w' fd' s') = RET_CLOSE_DUP \<or> tw_peerip w' fd' \<noteq> tw_peerip w fd"
    using f by (auto simp: svc_initconn_def Let_def)
qed

definition load :: "tracker_state \<Rightarrow> ptr \<Rightarrow> int" where
  "load s fd = pe_taskcount (peers s fd)"

definition best_so_far ::
  "tworld \<Rightarrow> t_cs_dir_info \<Rightarrow> t_vfs_taskinfo \<Rightarrow> tracker_state \<Rightarrow> nat \<Rightarrow> u32 \<times> int \<Rightarrow> bool" where
  "best_so_far w cs task s n acc \<longleftrightarrow>
     (fst acc = 0 \<and> (\<forall>i < n. eligible w cs (ti_sub task) s i = None)) \<or>
     (fst acc \<noteq> 0 \<and>
      (\<exists>k fd. k < n \<and> eligible w cs (ti_sub task) s k = Some fd \<and> fst acc = cd_ip cs k \<and> snd acc = load s fd) \<and>
      (\<forall>i fd. i < n \<longrightarrow> eligible w cs (ti_sub task) s i = Some fd \<longrightarrow> cd_ip cs i \<noteq> tb_dstip (ti_base task)
         \<longrightarrow> snd acc \<le> load s fd))"

lemma good_ip_step_best:
  assumes "best_so_far w cs task s n acc" and "cd_ip cs n \<noteq> 0"
  shows "best_so_far w cs task s (Suc n) (good_ip_step w cs task s acc n)"
proof (cases "eligible w cs (ti_sub task) s n")
  case None
  with assms show ?thesis by (auto simp: best_so_far_def good_ip_step_def less_Suc_eq)
next
  case (Some fd)
  obtain ip m where acc: "acc = (ip, m)" by fastforce
  consider "ip = 0" | "ip \<noteq> 0" "load s fd \<le> m" "cd_ip cs n \<noteq> tb_dstip (ti_base task)"
    | "ip \<noteq> 0" "\<not> (load s fd \<le> m \<and> cd_ip cs n \<noteq> tb_dstip (ti_base task))" by blast
  then show ?thesis
  proof cases
    case 1
    then have "good_ip_step w cs task s acc n = (cd_ip cs n, load s fd)"
      by (simp add: good_ip_step_def Some acc load_def)
    with 1 assms Some show ?thesis by (auto simp: best_so_far_def acc less_Suc_eq)
  next
    case 2
    then have "good_ip_step w cs task s acc n = (cd_ip cs n, load s fd)"
      by (simp add: good_ip_step_def Some acc load_def)
    with 2 assms Some show ?thesis by (force simp: best_so_far_def acc less_Suc_eq)
  next
    case 3
    then have "good_ip_step w cs task s acc n = acc"
      by (auto simp: good_ip_step_def Some acc load_def)
    with 3 assms Some show ?thesis by (force simp: best_so_far_def acc less_Suc_eq)
  qed
qed

lemma good_ip_fold_best:
  assumes "\<forall>i < n. cd_ip cs i \<noteq> 0"
  shows "best_so_far w cs task s n (foldl (good_ip_step w cs task s) (0, 0) [0..<n])"
  using assms by (induction n) (auto simp: best_so_far_def [of _ _ _ _ 0] good_ip_step_best)

lemma good_ip_best:
  assumes "\<forall>i < cd_index cs. cd_ip cs i \<noteq> 0"
  shows "\<exists>m. best_so_far w cs task s (cd_index cs) (get_a_good_ip w cs task s, m)"
proof (cases "cd_index cs = 0")
  case True
  then show ?thesis by (simp add: get_a_good_ip_def best_so_far_def)
next
  case False
  obtain a m where "foldl (good_ip_step w cs task s) (0, 0) [0..<cd_index cs] = (a, m)" by fastforce
  with good_ip_fold_best [OF assms, of w task s] False show ?thesis
    by (auto simp: get_a_good_ip_def)
qed

section \<open>The invariant of the tracker's pool\<close>

text \<open>Besides \<open>pool_ok\<close>: a task that is finished or free is in no bucket of the table.\<close>

definition idle_ok :: "tracker_state \<Rightarrow> bool" where
  "idle_ok s \<longleftrightarrow> (\<forall>t. t \<in> set (vfstask s TASK_HOME) \<union> set (vfstask s TASK_CLEAN) \<longrightarrow> lf_off t (alltask s))"

definition tr_ok :: "tracker_state \<Rightarrow> bool" where
  "tr_ok s \<longleftrightarrow> pool_ok ROLE_TRACKER s \<and> idle_ok s"

lemma tr_okD: "tr_ok s \<Longrightarrow> pool_ok ROLE_TRACKER s" "tr_ok s \<Longrightarrow> idle_ok s"
  by (simp_all add: tr_ok_def)

text \<open>Operations that leave the pool alone.\<close>

definition pool_part :: "tracker_state \<Rightarrow> task_state" where
  "pool_part s = task_state.truncate s"

lemma pool_part_eq:
  "pool_part s = pool_part s' \<longleftrightarrow> tasks s = tasks s' \<and> vfstask s = vfstask s' \<and> alltask s = alltask s' \<and>
     userl s = userl s' \<and> taskcount s = taskcount s' \<and> tmpst s = tmpst s'"
  by (simp add: pool_part_def task_state.defs)

lemma tr_ok_part: "pool_part s' = pool_part s \<Longrightarrow> tr_ok s' = tr_ok s"
  by (simp add: pool_part_eq tr_ok_def idle_ok_def pool_ok_def queues_ok_def table_ok_def)

lemma pool_part_simps [simp]:
  "pool_part (set_peer fd p s) = pool_part s" "pool_part (set_client_data fd b s) = pool_part s"
  "pool_part (s\<lparr>cfg_list := F\<rparr>) = pool_part s" "pool_part (s\<lparr>closed := cl\<rparr>) = pool_part s"
  "pool_part (s\<lparr>has_user := h\<rparr>) = pool_part s" "pool_part (s\<lparr>activelist := a\<rparr>) = pool_part s"
  "pool_part (s\<lparr>online_list := F\<rparr>) = pool_part s" "pool_part (s\<lparr>scan_i := n\<rparr>) = pool_part s"
  "pool_part (s\<lparr>last_scan_timeout := k\<rparr>) = pool_part s"
  by (simp_all add: pool_part_eq set_peer_def set_client_data_def)

lemma peer_pool [simp]:
  "tasks (set_peer fd p s) = tasks s" "vfstask (set_peer fd p s) = vfstask s"
  "alltask (set_peer fd p s) = alltask s" "userl (set_peer fd p s) = userl s"
  "taskcount (set_peer fd p s) = taskcount s" "tmpst (set_peer fd p s) = tmpst s"
  "tasks (set_client_data fd b s) = tasks s" "vfstask (set_client_data fd b s) = vfstask s"
  "alltask (set_client_data fd b s) = alltask s" "userl (set_client_data fd b s) = userl s"
  "taskcount (set_client_data fd b s) = taskcount s" "tmpst (set_client_data fd b s) = tmpst s"
  by (simp_all add: set_peer_def set_client_data_def)

lemma tr_ok_userl:
  "tr_ok s \<Longrightarrow> lf_wf F \<Longrightarrow> tr_ok (s\<lparr>userl := F\<rparr>)"
  by (simp add: tr_ok_def idle_ok_def pool_ok_def queues_ok_def table_ok_def)

lemma userl_del: "tr_ok s \<Longrightarrow> lf_wf (lf_del t (userl s))"
  by (simp add: tr_ok_def pool_ok_def)

lemma userl_clear: "tr_ok s \<Longrightarrow> lf_wf ((userl s)(fd := []))"
  by (auto simp: tr_ok_def pool_ok_def lf_wf_def)

lemma tr_ok_set_task:
  assumes ok: "tr_ok s" and q: "q = TASK_HOME \<or> q = TASK_CLEAN \<Longrightarrow> lf_off t (alltask s)"
  shows "tr_ok (snd (vfs_set_task e t q s))"
proof -
  have "idle_ok (snd (vfs_set_task e t q s))"
    using tr_okD(2) [OF ok] q
    by (auto simp: idle_ok_def vfs_set_task_def split: if_splits)
  with pool_set_task [OF tr_okD(1) [OF ok]] show ?thesis by (simp add: tr_ok_def)
qed

lemma get_task_queues:
  assumes "vfs_get_task e q s = (r, Some t, s')" and "queues_ok s"
  shows "\<And>p. set (vfstask s' p) \<subseteq> set (vfstask s p)" and "alltask s' = alltask s" and "userl s' = userl s"
    and "tmpst s' = tmpst s" and "r = GET_TASK_OK"
    and "t \<in> set (vfstask s q) \<or> (q = TASK_HOME \<and> vfstask s q = [] \<and> e_malloc e = Some t)"
    and "lf_off t (vfstask s') \<or> e_malloc e = Some t"
  using assms
  by (auto simp: vfs_get_task_def get_task_defs split: if_splits list.splits option.splits)

lemma get_task_frame:
  "set (vfstask (snd (snd (vfs_get_task e q s))) p) \<subseteq> set (vfstask s p)"
  "alltask (snd (snd (vfs_get_task e q s))) = alltask s"
  "userl (snd (snd (vfs_get_task e q s))) = userl s"
  by (auto simp: vfs_get_task_def split: list.split option.split)

lemma tr_ok_get_task:
  assumes "tr_ok s" and "fresh_malloc e s \<or> q \<noteq> TASK_HOME" and "vfs_get_task e q s = (r, ot, s')"
  shows "tr_ok s'"
proof -
  have p: "pool_ok ROLE_TRACKER s'"
  proof (cases "q = TASK_HOME")
    case True
    with assms pool_get_task [OF tr_okD(1) [OF assms(1)], of e q] show ?thesis by simp
  next
    case False
    let ?e = "e\<lparr>e_malloc := None\<rparr>"
    have "vfs_get_task ?e q s = vfs_get_task e q s"
      using False by (simp add: vfs_get_task_def lock_failed_def)
    moreover have "fresh_malloc ?e s" by (simp add: fresh_malloc_def)
    ultimately show ?thesis
      using pool_get_task [OF tr_okD(1) [OF assms(1)], of ?e q] assms(3) by simp
  qed
  have v: "set (vfstask s' p) \<subseteq> set (vfstask s p)" and a: "alltask s' = alltask s" for p
    using get_task_frame(1,2) [of e q s] assms(3) by simp_all
  have "idle_ok s'"
    unfolding idle_ok_def a using tr_okD(2) [OF assms(1)] v [of TASK_HOME] v [of TASK_CLEAN]
    unfolding idle_ok_def by (meson UnE UnI1 UnI2 subsetD)
  with p show ?thesis by (simp add: tr_ok_def)
qed

text \<open>Changing a task in a way its place in the table does not depend on.\<close>

definition same_key :: "t_vfs_taskinfo \<Rightarrow> t_vfs_taskinfo \<Rightarrow> bool" where
  "same_key a b \<longleftrightarrow> tb_filename (ti_base a) = tb_filename (ti_base b) \<and>
     tb_src_domain (ti_base a) = tb_src_domain (ti_base b) \<and>
     tb_type (ti_base a) = tb_type (ti_base b) \<and> ts_isp (ti_sub a) = ts_isp (ti_sub b)"

lemma bucket_same_key:
  "same_key a b \<Longrightarrow> bucket role (ti_base a) (ti_sub a) = bucket role (ti_base b) (ti_sub b)"
  by (simp add: same_key_def bucket_def get_vfs_task_hash_def hash_text_def Let_def)

lemma tr_ok_edit:
  assumes ok: "tr_ok s" and k: "same_key ti (tl_task (tasks s t)) \<or> lf_off t (alltask s)"
  shows "tr_ok (set_task t ti s)"
proof -
  have "bucket ROLE_TRACKER (tbase (set_task t ti s) u) (tsub (set_task t ti s) u) =
      bucket ROLE_TRACKER (tbase s u) (tsub s u)" if "u \<in> set (alltask s i)" for u i
    using k that bucket_same_key by (auto simp: lf_off_def)
  with ok show ?thesis
    by (auto simp: tr_ok_def idle_ok_def pool_ok_def queues_ok_def table_ok_def)
qed

lemma tr_ok_edit_base:
  assumes "tr_ok s" and "tb_filename b = tb_filename (tbase s t)" and "tb_src_domain b = tb_src_domain (tbase s t)"
    and "tb_type b = tb_type (tbase s t)"
  shows "tr_ok (set_base t b s)"
  unfolding set_base_def using assms by (intro tr_ok_edit) (simp_all add: same_key_def)

lemma tr_ok_tmp: "tr_ok s \<Longrightarrow> tr_ok (s\<lparr>tmpst := m\<rparr>)"
  by (simp add: tr_ok_def idle_ok_def pool_ok_def queues_ok_def table_ok_def)

section \<open>Every handler keeps the invariant\<close>

lemma home_task_free:
  assumes ok: "tr_ok s" and f: "fresh_malloc e s" and g: "vfs_get_task e TASK_HOME s = (r, Some t, s')"
  shows "lf_off t (alltask s')" and "lf_off t (vfstask s')"
proof -
  have q: "queues_ok s" using pool_okD(1) [OF tr_okD(1) [OF ok]] .
  note gt = get_task_queues [OF g q]
  from gt(6) show "lf_off t (alltask s')"
    using tr_okD(2) [OF ok] f unfolding gt(2) idle_ok_def fresh_malloc_def by blast
  show "lf_off t (vfstask s')"
  proof (cases "vfstask s TASK_HOME")
    case Nil
    then have "e_malloc e = Some t" using gt(6) by simp
    with f have "lf_off t (vfstask s)" by (simp add: fresh_malloc_def)
    with gt(1) show ?thesis unfolding lf_off_def by blast
  next
    case (Cons x xs)
    with g show ?thesis by (auto simp: vfs_get_task_def split: if_splits)
  qed
qed

text \<open>Saving a task changes only where it is saved.\<close>

lemma save_task_key: "set_task_to_tmp e t tmp = (r, rec, tmp') \<Longrightarrow>
   same_key (tl_task rec) (tl_task t) \<and> tl_status rec = tl_status t"
  by (auto simp: set_task_to_tmp_def same_key_def Let_def split: list.splits option.splits if_splits)

lemma tr_ok_save:
  assumes ok: "tr_ok s" and sv: "set_task_to_tmp e (tasks s t) (tmpst s) = (r, rec, tmp)"
  shows "tr_ok (s\<lparr>tasks := (tasks s)(t := rec), tmpst := tmp\<rparr>)"
proof -
  note k = save_task_key [OF sv]
  have b: "bucket ROLE_TRACKER (ti_base (tl_task rec)) (ti_sub (tl_task rec)) =
      bucket ROLE_TRACKER (tbase s t) (tsub s t)"
    using k by (intro bucket_same_key) simp
  show ?thesis using ok k
    by (auto simp: tr_ok_def idle_ok_def pool_ok_def queues_ok_def table_ok_def b)
qed

lemma create_delay_ok:
  assumes ok: "tr_ok s" and f: "fresh_malloc (tw_env w) s"
  shows "tr_ok (create_delay_task w isp ar base s)"
proof -
  obtain r ot s1 where g: "vfs_get_task (tw_env w) TASK_HOME s = (r, ot, s1)" by (cases "vfs_get_task (tw_env w) TASK_HOME s") auto
  have s1: "tr_ok s1" using tr_ok_get_task [OF ok _ g] f by blast
  show ?thesis
  proof (cases ot)
    case None
    with s1 g show ?thesis by (simp add: create_delay_task_def)
  next
    case (Some t)
    have off: "lf_off t (alltask s1)" using home_task_free(1) [OF ok f] g Some by simp
    let ?ti = "zero_task\<lparr>ti_base := base\<lparr>tb_starttime := e_now (tw_env w)\<rparr>,
        ti_sub := zero_sub\<lparr>ts_isp := isp, ts_archive_isp := ar\<rparr>\<rparr>"
    let ?s2 = "set_task t ?ti (s1\<lparr>userl := lf_del t (userl s1)\<rparr>)"
    let ?s3 = "snd (vfs_set_task (tw_env w) t TASK_WAIT ?s2)"
    have "tr_ok ?s2" using s1 off by (intro tr_ok_edit tr_ok_userl userl_del) auto
    then have s3: "tr_ok ?s3" by (rule tr_ok_set_task) (simp add: queue_defs)
    obtain r' rec tmp where sv: "set_task_to_tmp (tw_env w) (tasks ?s3 t) (tmpst ?s3) = (r', rec, tmp)"
      by (cases "set_task_to_tmp (tw_env w) (tasks ?s3 t) (tmpst ?s3)") auto
    from tr_ok_save [OF s3 sv] s1 g Some sv show ?thesis
      by (simp add: create_delay_task_def Let_def)
  qed
qed

lemma create_delay_members:
  assumes ok: "tr_ok s"
  shows "u \<in> set (vfstask (create_delay_task w isp ar base s) p) \<Longrightarrow>
      (\<exists>q. u \<in> set (vfstask s q)) \<or> e_malloc (tw_env w) = Some u"
    and "alltask (create_delay_task w isp ar base s) = alltask s"
    and "lf_off u (userl s) \<Longrightarrow> lf_off u (userl (create_delay_task w isp ar base s))"
proof -
  have q: "queues_ok s" using pool_okD(1) [OF tr_okD(1) [OF ok]] .
  obtain r ot s1 where g: "vfs_get_task (tw_env w) TASK_HOME s = (r, ot, s1)" by (cases "vfs_get_task (tw_env w) TASK_HOME s") auto
  have f: "set (vfstask s1 p) \<subseteq> set (vfstask s p)" "alltask s1 = alltask s" "userl s1 = userl s" for p
    using get_task_frame [of "tw_env w" TASK_HOME s] g by simp_all
  have t: "(\<exists>q. t \<in> set (vfstask s q)) \<or> e_malloc (tw_env w) = Some t" if "ot = Some t" for t
    using get_task_queues(6) [OF g [unfolded that] q] by blast
  have sp: "vfstask (snd (vfs_set_task e t TASK_WAIT x)) p = vfstask x p \<or>
      vfstask (snd (vfs_set_task e t TASK_WAIT x)) p = lf_add_tail t TASK_WAIT (lf_del t (vfstask x)) p"
    for e t and x :: tracker_state
    by (simp add: vfs_set_task_def)
  show "u \<in> set (vfstask (create_delay_task w isp ar base s) p) \<Longrightarrow>
      (\<exists>q. u \<in> set (vfstask s q)) \<or> e_malloc (tw_env w) = Some u"
  proof (cases ot)
    case (Some t)
    let ?s2 = "set_task t (zero_task\<lparr>ti_base := base\<lparr>tb_starttime := e_now (tw_env w)\<rparr>,
        ti_sub := zero_sub\<lparr>ts_isp := isp, ts_archive_isp := ar\<rparr>\<rparr>) (s1\<lparr>userl := lf_del t (userl s1)\<rparr>)"
    assume "u \<in> set (vfstask (create_delay_task w isp ar base s) p)"
    then have "u \<in> set (vfstask s1 p) \<or> u \<in> set (vfstask (snd (vfs_set_task (tw_env w) t TASK_WAIT ?s2)) p)"
      using g Some by (auto simp: create_delay_task_def Let_def split: if_splits prod.splits)
    then have "u = t \<or> u \<in> set (vfstask s1 p)" using sp [of "tw_env w" t ?s2]
      by (auto split: if_splits)
    then show ?thesis using f(1) [of p] t [OF Some] by blast
  qed (use f(1) [of p] g in \<open>auto simp: create_delay_task_def\<close>)
  show "alltask (create_delay_task w isp ar base s) = alltask s"
    using f(2) by (auto simp: create_delay_task_def g Let_def split: option.split prod.split)
  show "lf_off u (userl s) \<Longrightarrow> lf_off u (userl (create_delay_task w isp ar base s))"
    using f(3) by (auto simp: create_delay_task_def g Let_def lf_off_del_other split: option.split prod.split)
qed

text \<open>The two creations get different blocks.\<close>

definition fresh_pair :: "tworld \<Rightarrow> tracker_state \<Rightarrow> bool" where
  "fresh_pair w s \<longleftrightarrow> fresh_malloc (tw_env w) s \<and> fresh_malloc (tw_env2 w) s \<and>
     (e_malloc (tw_env w) = None \<or> e_malloc (tw_env w) \<noteq> e_malloc (tw_env2 w))"

lemma do_newtask_ok:
  assumes ok: "tr_ok s" and f: "fresh_pair w s"
  shows "tr_ok (snd (do_newtask w fd b s))"
proof -
  have one: "fresh_malloc (tw_env w) s" using f by (simp add: fresh_pair_def)
  have "fresh_malloc (tw_env2 w) (create_delay_task w isp ar base s)" for isp ar base
    unfolding fresh_malloc_def
  proof (intro allI impI)
    fix t
    assume t: "e_malloc (tw_env2 w) = Some t"
    with f have off: "lf_off t (vfstask s)" "lf_off t (alltask s)" "lf_off t (userl s)"
      "e_malloc (tw_env w) \<noteq> Some t" by (auto simp: fresh_pair_def fresh_malloc_def)
    note cm = create_delay_members [OF ok]
    have "lf_off t (vfstask (create_delay_task w isp ar base s))"
      using cm(1) [of t] off(1,4) unfolding lf_off_def by blast
    with cm(2,3) off show "lf_off t (vfstask (create_delay_task w isp ar base s)) \<and>
        lf_off t (alltask (create_delay_task w isp ar base s)) \<and>
        lf_off t (userl (create_delay_task w isp ar base s))" by simp
  qed
  with create_delay_ok [OF ok one] show ?thesis
    by (simp add: do_newtask_def Let_def create_delay_ok)
qed

lemma do_rsp_ok [simp]: "tr_ok (do_rsp w fd base s) = tr_ok s"
  by (rule tr_ok_part) (simp add: do_rsp_def)

lemma do_rsp_pool [simp]: "alltask (do_rsp w fd base s) = alltask s" "userl (do_rsp w fd base s) = userl s"
  by (simp_all add: do_rsp_def)

lemma to_clean_ok:
  assumes "tr_ok s" and "lf_off t (alltask s)"
  shows "tr_ok (snd (vfs_set_task e t TASK_CLEAN (s\<lparr>userl := lf_del t (userl s)\<rparr>)))"
  using assms by (intro tr_ok_set_task tr_ok_userl userl_del) simp_all

lemma process_timeout_ok:
  assumes "tr_ok s" and "lf_off t (alltask s)"
  shows "tr_ok (process_timeout e t s)"
proof -
  have "tr_ok (set_base t ((tbase s t)\<lparr>tb_overstatus := OVER_TIMEOUT\<rparr>) s)"
    using assms(1) by (rule tr_ok_edit_base) simp_all
  then show ?thesis using assms by (simp add: process_timeout_def Let_def to_clean_ok)
qed

lemma get_from_table_ok:
  assumes "tr_ok s" and "get_task_from_alltask e ROLE_TRACKER base sub s = (r, ot, s')"
  shows "tr_ok s'" and "ot = Some t \<Longrightarrow> lf_off t (alltask s')"
proof -
  have s': "s' = s \<or> (\<exists>t. ot = Some t \<and> s' = s\<lparr>alltask := lf_del t (alltask s)\<rparr>)"
    and n: "ot = Some t \<Longrightarrow> s' = s\<lparr>alltask := lf_del t (alltask s)\<rparr>" for t
    using assms(2) by (auto simp: get_task_from_alltask_def split: if_splits list.splits)
  have "tr_ok (s\<lparr>alltask := lf_del t (alltask s)\<rparr>)" for t
    using assms(1)
    by (auto simp: tr_ok_def idle_ok_def pool_ok_def queues_ok_def table_ok_def lf_off_del_other)
  with s' assms(1) show "tr_ok s'" by auto
  show "ot = Some t \<Longrightarrow> lf_off t (alltask s')" using n by simp
qed

lemma release_slot_ok:
  assumes "tr_ok s"
  shows "tr_ok (release_slot e t s)" and "alltask (release_slot e t s) = alltask s"
  using assms by (auto simp: release_slot_def same_key_def split: option.split intro!: tr_ok_edit tr_ok_tmp)

lemma finish_task_ok:
  assumes "tr_ok s" and "lf_off t (alltask s)"
  shows "tr_ok (finish_task w base t s)"
proof -
  let ?s2 = "release_slot (tw_env w) t s"
  let ?s3 = "set_base t ((tbase ?s2 t)\<lparr>tb_overstatus := tb_overstatus base\<rparr>) ?s2"
  have s3: "tr_ok ?s3" by (rule tr_ok_edit_base) (simp_all add: release_slot_ok assms)
  have o3: "lf_off t (alltask ?s3)" using assms by (simp add: release_slot_ok)
  have "tr_ok (process_timeout (tw_env w) t ?s3)" using s3 o3 by (rule process_timeout_ok)
  moreover have "tr_ok (snd (vfs_set_task (tw_env w) t TASK_CLEAN
      ((do_rsp w rfd base ?s3)\<lparr>userl := lf_del t (userl (do_rsp w rfd base ?s3))\<rparr>)))" for rfd
    using s3 o3 by (intro to_clean_ok) simp_all
  ultimately show ?thesis by (simp only: finish_task_def Let_def split: sum.split) blast
qed

lemma update_task_ok:
  assumes ok: "tr_ok s"
  shows "tr_ok (snd (update_task w fd b s))"
proof -
  let ?e = "tw_env w" and ?base = "base_of (tw_abi w) b"
  let ?sub = "zero_sub\<lparr>ts_isp := (if pe_archive_isp (peers s fd) = ISP_FCS then pe_isp (peers s fd)
      else pe_real_isp (peers s fd))\<rparr>"
  let ?s0 = "set_peer fd ((peers s fd)\<lparr>pe_taskcount := max 0 (pe_taskcount (peers s fd) - 1)\<rparr>) s"
  have s0: "tr_ok ?s0" using ok tr_ok_part [of ?s0 s] by simp
  obtain r ot s1 where g: "get_task_from_alltask ?e ROLE_TRACKER ?base ?sub ?s0 = (r, ot, s1)"
    by (cases "get_task_from_alltask ?e ROLE_TRACKER ?base ?sub ?s0") auto
  have s1: "tr_ok s1" by (rule get_from_table_ok(1) [OF s0 g])
  show ?thesis
  proof (cases ot)
    case None
    with s1 g show ?thesis by (simp add: update_task_def Let_def split: sum.split)
  next
    case (Some t)
    have off: "lf_off t (alltask s1)" by (rule get_from_table_ok(2) [OF s0 g Some])
    have "tr_ok (snd (vfs_set_task ?e t TASK_WAIT s1))"
      using s1 by (rule tr_ok_set_task) (simp add: queue_defs)
    with finish_task_ok [OF s1 off] g Some show ?thesis
      by (simp add: update_task_def Let_def)
  qed
qed

lemma do_dispatch_pool:
  "vfstask (snd (do_dispatch w t s)) = vfstask s" "alltask (snd (do_dispatch w t s)) = alltask s"
  "taskcount (snd (do_dispatch w t s)) = taskcount s"
  by (simp_all add: do_dispatch_def Let_def split: option.split peer_ref.split)

lemma do_dispatch_ok:
  assumes "tr_ok s"
  shows "tr_ok (snd (do_dispatch w t s))"
proof -
  have 1: "tr_ok (set_base t ((tbase s t)\<lparr>tb_dstip := ip, tb_retry := n\<rparr>) s)" for ip n
    using assms by (rule tr_ok_edit_base) simp_all
  have 2: "lf_wf (lf_add_head t fd (lf_del t (userl s)))" for fd
    using assms by (intro lf_wf_add_head userl_del) simp_all
  have 3: "tr_ok (set_client_data fd bs (set_peer fd p s)) = tr_ok s" for fd bs p s
    by (rule tr_ok_part) simp
  show ?thesis
    using assms by (auto simp: do_dispatch_def Let_def 1 2 3 split: option.split peer_ref.split
        intro!: tr_ok_userl)
qed

lemma tr_ok_add_table:
  assumes ok: "tr_ok s" and t: "t \<notin> set (vfstask s TASK_HOME)" "t \<notin> set (vfstask s TASK_CLEAN)"
  shows "tr_ok (snd (add_task_to_alltask e ROLE_TRACKER t s))"
proof -
  have "pool_ok ROLE_TRACKER (snd (add_task_to_alltask e ROLE_TRACKER t s))"
    using tr_okD(1) [OF ok] table_add [of ROLE_TRACKER s e t] by (simp add: pool_ok_def queues_ok_def)
  moreover have "lf_off u (alltask (snd (add_task_to_alltask e ROLE_TRACKER t s)))"
    if "u \<noteq> t" "lf_off u (alltask s)" for u
    using that by (auto simp: add_task_to_alltask_def lf_off_def Let_def)
  ultimately show ?thesis using tr_okD(2) [OF ok] t unfolding tr_ok_def idle_ok_def
    by (metis UnE add_task_frame(1))
qed

lemma requeue_tr_ok: "tr_ok s \<Longrightarrow> tr_ok (requeue_wait_sync k e s)"
proof (induction k arbitrary: s)
  case (Suc k)
  obtain r ot s' where g: "vfs_get_task e TASK_WAIT_SYNC s = (r, ot, s')"
    by (cases "vfs_get_task e TASK_WAIT_SYNC s") auto
  have s': "tr_ok s'" by (rule tr_ok_get_task [OF Suc.prems _ g]) (simp add: queue_defs)
  have "tr_ok (snd (vfs_set_task e t TASK_WAIT s'))" for t
    by (rule tr_ok_set_task [OF s']) (simp add: queue_defs)
  with Suc.IH s' g show ?case by (simp split: option.split)
qed simp

lemma set_task_member:
  "t \<in> set (vfstask (snd (vfs_set_task e t q s)) p) \<Longrightarrow> p = q \<or> t \<in> set (vfstask s p)"
  by (auto simp: vfs_set_task_def split: if_splits)

lemma run_wait_ok: "tr_ok s \<Longrightarrow> tr_ok (run_wait k w s)"
proof (induction k arbitrary: s)
  case (Suc k)
  obtain r ot s' where g: "vfs_get_task (tw_env w) TASK_WAIT s = (r, ot, s')"
    by (cases "vfs_get_task (tw_env w) TASK_WAIT s") auto
  have s': "tr_ok s'" by (rule tr_ok_get_task [OF Suc.prems _ g]) (simp add: queue_defs)
  show ?case
  proof (cases ot)
    case None
    with g s' show ?thesis by simp
  next
    case (Some t)
    obtain d s2 where d: "do_dispatch w t s' = (d, s2)" by fastforce
    have s2: "tr_ok s2" and v2: "vfstask s2 = vfstask s'"
      using do_dispatch_ok [OF s', of w t] do_dispatch_pool(1) [of w t s'] d by simp_all
    have off: "t \<notin> set (vfstask s2 p)" for p
      using g Some unfolding v2 by (auto simp: vfs_get_task_def queue_defs split: if_splits list.splits)
    have ws: "tr_ok (snd (vfs_set_task (tw_env w) t TASK_WAIT_SYNC s2))"
      and run: "tr_ok (snd (vfs_set_task (tw_env w) t TASK_RUN s2))"
      by (rule tr_ok_set_task [OF s2], simp add: queue_defs)+
    have "t \<notin> set (vfstask (snd (vfs_set_task (tw_env w) t TASK_RUN s2)) TASK_HOME)"
      "t \<notin> set (vfstask (snd (vfs_set_task (tw_env w) t TASK_RUN s2)) TASK_CLEAN)"
      using set_task_member [of t "tw_env w" TASK_RUN s2 TASK_HOME] off [of TASK_HOME]
        set_task_member [of t "tw_env w" TASK_RUN s2 TASK_CLEAN] off [of TASK_CLEAN]
      by (auto simp: queue_defs)
    from tr_ok_add_table [OF run this] ws Suc.IH g Some d s' show ?thesis by simp
  qed
qed simp

lemma check_task_ok: "tr_ok s \<Longrightarrow> tr_ok (check_task w s)"
  by (simp add: check_task_def run_wait_ok requeue_tr_ok del: requeue_wait_sync.simps)

lemma init_cfg_connect_ok: "tr_ok s \<Longrightarrow> tr_ok (snd (init_cfg_connect w sip fd s))"
proof -
  have "pool_part (snd (init_cfg_connect w sip fd s)) = pool_part s"
    by (simp add: init_cfg_connect_def Let_def split: option.split prod.split)
  then show "tr_ok s \<Longrightarrow> ?thesis" using tr_ok_part by blast
qed

lemma tr_ok_peer [simp]: "tr_ok (set_peer fd p s) = tr_ok s" "tr_ok (set_client_data fd b s) = tr_ok s"
  by (rule tr_ok_part, simp)+

text \<open>One message, whatever it says.\<close>

lemma do_req_ok:
  assumes ok: "tr_ok s" and f: "fresh_pair w s"
  shows "tr_ok (snd (do_req w fd h b s))"
proof -
  let ?s = "set_peer fd ((peers s fd)\<lparr>pe_hbtime := e_now (tw_env w)\<rparr>) s"
  have s: "tr_ok ?s" using ok by simp
  have fs: "fresh_pair w ?s" using f by (simp add: fresh_pair_def fresh_malloc_def)
  obtain r1 s1 where 1: "init_cfg_connect w (c_string b) fd ?s = (r1, s1)" by fastforce
  obtain r2 s2 where 2: "do_newtask w fd b ?s = (r2, s2)" by fastforce
  have "tr_ok s1" using init_cfg_connect_ok [OF s, of w "c_string b" fd] 1 by simp
  moreover have "tr_ok s2" using do_newtask_ok [OF s fs, of fd b] 2 by simp
  ultimately show ?thesis
    using s update_task_ok [OF s, of w fd b] by (simp add: do_req_def Let_def 1 2)
qed

lemma refresh_cs_ok: "tr_ok s \<Longrightarrow> tr_ok (refresh_cs_task e ts s)"
proof (induction ts arbitrary: s)
  case (Cons t ts)
  have "tr_ok (snd (vfs_set_task e t TASK_WAIT (s\<lparr>userl := lf_del t (userl s)\<rparr>)))"
    by (rule tr_ok_set_task) (simp_all add: queue_defs tr_ok_userl userl_del Cons.prems)
  with Cons.IH show ?case by (simp add: refresh_cs_task_def)
qed (simp add: refresh_cs_task_def)

lemma finiconn_ok:
  assumes "tr_ok s"
  shows "tr_ok (svc_finiconn w fd s)"
proof -
  let ?s = "s\<lparr>activelist := removeAll fd (activelist s), online_list := lf_del fd (online_list s),
                  cfg_list := lf_del fd (cfg_list s)\<rparr>"
  have "pool_part ?s = pool_part s" by (simp add: pool_part_eq)
  then have s: "tr_ok ?s" using assms tr_ok_part by blast
  let ?u = "if pe_role (peers s fd) = ROLE_CS then refresh_cs_task (tw_env w) (userl s fd) ?s else ?s"
  have u: "tr_ok ?u" using s refresh_cs_ok by simp
  have t: "tr_ok (set_peer fd zero_peer (?u\<lparr>userl := (userl ?u)(fd := [])\<rparr>))"
    unfolding tr_ok_peer using u by (intro tr_ok_userl userl_clear)
  have f: "svc_finiconn w fd s = (if \<not> has_user s fd then s
      else set_peer fd zero_peer (?u\<lparr>userl := (userl ?u)(fd := [])\<rparr>))"
    by (simp add: svc_finiconn_def Let_def)
  show ?thesis
  proof (cases "has_user s fd")
    case True
    then have "svc_finiconn w fd s = set_peer fd zero_peer (?u\<lparr>userl := (userl ?u)(fd := [])\<rparr>)"
      using f by (simp only: not_True_eq_False if_False)
    with t show ?thesis by (simp only:)
  qed (use assms f in simp)
qed

lemma initconn_ok:
  assumes "tr_ok s"
  shows "tr_ok (snd (svc_initconn w fd s))"
proof -
  have "tr_ok (s\<lparr>has_user := h, peers := p, activelist := a, online_list := F, userl := (userl s)(fd := [])\<rparr>)"
    for h p a F
  proof -
    have "pool_part (s\<lparr>has_user := h, peers := p, activelist := a, online_list := F, userl := (userl s)(fd := [])\<rparr>)
        = pool_part (s\<lparr>userl := (userl s)(fd := [])\<rparr>)" by (simp add: pool_part_eq)
    then show ?thesis using tr_ok_part tr_ok_userl [OF assms userl_clear [OF assms]] by blast
  qed
  with assms show ?thesis by (simp add: svc_initconn_def set_peer_def Let_def)
qed

lemma active_send_ok [simp]: "tr_ok (active_send e fd c st b n s) = tr_ok s"
  by (simp add: active_send_def)

lemma timeout_peers_ok: "tr_ok s \<Longrightarrow> tr_ok (timeout_peers w fds s)"
proof (induction fds arbitrary: s)
  case (Cons fd fds)
  have "tr_ok ((svc_finiconn w fd s)\<lparr>closed := c\<rparr>)" for c
    using finiconn_ok [OF Cons.prems, of w fd] tr_ok_part [of "(svc_finiconn w fd s)\<lparr>closed := c\<rparr>"]
    by simp
  with Cons show ?case by (simp add: Let_def)
qed simp

lemma active_connect_ok: "tr_ok s \<Longrightarrow> tr_ok (active_connect w i s)"
proof -
  assume ok: "tr_ok s"
  obtain r s' where i: "svc_initconn w (nat (tw_connect w (ii_s_ip i))) s = (r, s')" by fastforce
  have s': "tr_ok s'" using initconn_ok [OF ok] i by (metis snd_conv)
  have "tr_ok (s'\<lparr>closed := c\<rparr>)" for c
    using s' tr_ok_part [of "s'\<lparr>closed := c\<rparr>" s'] by simp
  with ok s' i show ?thesis by (simp add: active_connect_def Let_def)
qed

lemma connect_bucket_ok: "tr_ok s \<Longrightarrow> tr_ok (connect_bucket w i s)"
proof -
  have "tr_ok s \<Longrightarrow> tr_ok (foldl (\<lambda>s p. let ipinfo = infos (cfg s) p in
         if ii_isself ipinfo then s
         else if ii_role ipinfo \<noteq> ROLE_FCS then s
         else if find_ip_stat (ii_ip ipinfo) s = None then active_connect w ipinfo s else s) s ps)" for ps
    by (induction ps arbitrary: s) (simp_all add: Let_def active_connect_ok)
  then show "tr_ok s \<Longrightarrow> ?thesis" by (simp add: connect_bucket_def)
qed

lemma connect_buckets_ok: "tr_ok s \<Longrightarrow> tr_ok (connect_buckets k w s)"
proof (induction k arbitrary: s)
  case 0
  then show ?case by (simp add: connect_buckets.simps [of 0] connect_bucket_ok Let_def)
next
  case (Suc k)
  let ?b = "connect_bucket w (scan_i s) s"
  have "tr_ok (?b\<lparr>scan_i := n\<rparr>)" for n
    using connect_bucket_ok [OF Suc.prems, of w "scan_i s"] tr_ok_part [of "?b\<lparr>scan_i := n\<rparr>" ?b] by simp
  with Suc show ?case by (simp add: connect_buckets.simps [of "Suc k"] Let_def)
qed

lemma scan_connect_ok:
  assumes "tr_ok s"
  shows "tr_ok (scan_cfg_iplist_and_connect w s)"
proof -
  let ?b = "connect_buckets 9 w s"
  have "tr_ok (?b\<lparr>scan_i := 0\<rparr>)"
    using connect_buckets_ok [OF assms, of 9 w] tr_ok_part [of "?b\<lparr>scan_i := 0\<rparr>" ?b] by simp
  with assms connect_buckets_ok [OF assms, of 9 w] show ?thesis
    by (simp add: scan_cfg_iplist_and_connect_def Let_def)
qed

lemma check_timeout_tr:
  assumes ok: "tr_ok s" and t: "t \<in> set (vfstask s q)" and q: "q \<noteq> TASK_CLEAN"
    and l: "\<not> lock_failed e (M_task TASK_HOME)"
  shows "tr_ok (check_task_timeout e ROLE_TRACKER tmo t s)"
proof (cases "overdue e tmo s t")
  case True
  have st: "tl_status (tasks s t) \<noteq> TASK_CLEAN"
    using queue_status [OF pool_okD(1) [OF tr_okD(1) [OF ok]] t] q by simp
  note mv = check_timeout_moves [OF True st l, of ROLE_TRACKER]
  have p: "pool_ok ROLE_TRACKER (check_task_timeout e ROLE_TRACKER tmo t s)"
    by (rule check_timeout_pool [OF tr_okD(1) [OF ok] t q l])
  have "idle_ok (check_task_timeout e ROLE_TRACKER tmo t s)"
    using tr_okD(2) [OF ok] unfolding idle_ok_def mv(1,2)
    by (auto simp: queue_defs lf_off_del_other split: if_splits)
  with p show ?thesis by (simp add: tr_ok_def)
qed (use ok in \<open>simp add: check_timeout_keeps\<close>)

lemma check_timeout_queue:
  assumes "tr_ok s" and "t \<in> set (vfstask s q)" and "q \<noteq> TASK_CLEAN" and "u \<noteq> t"
    and "\<not> lock_failed e (M_task TASK_HOME)"
  shows "u \<in> set (vfstask (check_task_timeout e ROLE_TRACKER tmo t s) q) \<longleftrightarrow> u \<in> set (vfstask s q)"
proof (cases "overdue e tmo s t")
  case True
  have st: "tl_status (tasks s t) \<noteq> TASK_CLEAN"
    using queue_status [OF pool_okD(1) [OF tr_okD(1) [OF assms(1)]] assms(2)] assms(3) by simp
  show ?thesis using assms(4) by (simp add: check_timeout_moves(1) [OF True st assms(5)])
qed (simp add: check_timeout_keeps)

lemma sweep_tr:
  assumes "\<not> lock_failed e (M_task TASK_HOME)" and "TASK_CLEAN \<notin> set qs"
  shows "tr_ok s \<Longrightarrow> tr_ok (sweep_queues e ROLE_TRACKER tmo qs s)"
proof -
  have part: "tr_ok s \<Longrightarrow> distinct ts \<Longrightarrow> set ts \<subseteq> set (vfstask s q) \<Longrightarrow>
      tr_ok (foldl (\<lambda>s t. check_task_timeout e ROLE_TRACKER tmo t s) s ts)"
    if "q \<noteq> TASK_CLEAN" for q ts and s :: tracker_state
  proof (induction ts arbitrary: s)
    case (Cons t ts)
    let ?c = "check_task_timeout e ROLE_TRACKER tmo t s"
    have t: "t \<in> set (vfstask s q)" using Cons.prems by simp
    have "set ts \<subseteq> set (vfstask ?c q)"
    proof
      fix u assume u: "u \<in> set ts"
      then have "u \<noteq> t" "u \<in> set (vfstask s q)" using Cons.prems by auto
      then show "u \<in> set (vfstask ?c q)"
        using check_timeout_queue [OF Cons.prems(1) t that _ assms(1)] by blast
    qed
    with Cons check_timeout_tr [OF Cons.prems(1) t that assms(1)] show ?case by simp
  qed simp
  have one: "tr_ok (snd (scan_some_status_task e q (check_task_timeout e ROLE_TRACKER tmo) s))"
    if "tr_ok s" "q \<noteq> TASK_CLEAN" for q and s :: tracker_state
    using part [OF that(2) that(1), of "vfstask s q"] pool_okD(4) [OF tr_okD(1) [OF that(1)]] that(1)
    by (simp add: scan_some_status_task_def lf_wf_def)
  show "tr_ok s \<Longrightarrow> ?thesis" using assms(2)
  proof (induction qs arbitrary: s)
    case (Cons q qs)
    from Cons.prems(2) have "q \<noteq> TASK_CLEAN" by auto
    from Cons.IH [OF one [OF Cons.prems(1) this]] Cons.prems(2) show ?case
      by (simp add: sweep_queues_def)
  qed (simp add: sweep_queues_def)
qed

lemma svc_timeout_ok:
  assumes ok: "tr_ok s" and l: "\<not> lock_failed (tw_env w) (M_task TASK_HOME)"
  shows "tr_ok (svc_timeout w s)"
proof -
  let ?s = "check_task w (scan_cfg_iplist_and_connect w (timeout_peers w (activelist s) s))"
  have s: "tr_ok ?s" using ok by (intro check_task_ok scan_connect_ok timeout_peers_ok)
  have t: "tr_ok (?s\<lparr>last_scan_timeout := n\<rparr>)" for n
    using s tr_ok_part [of "?s\<lparr>last_scan_timeout := n\<rparr>" ?s] by simp
  have c: "TASK_CLEAN \<notin> set (timeout_queues ROLE_TRACKER)"
    by (simp add: timeout_queues_def queue_defs)
  from s sweep_tr [OF l c t] show ?thesis
    by (simp add: svc_timeout_def Let_def do_timeout_sweeps)
qed

section \<open>What the worker does\<close>

lemma requeue_all:
  "\<lbrakk>queues_ok s; queue_open e TASK_WAIT_SYNC; queue_open e TASK_WAIT;
    length (vfstask s TASK_WAIT_SYNC) < k\<rbrakk> \<Longrightarrow>
   vfstask (requeue_wait_sync k e s) =
     (vfstask s)(TASK_WAIT_SYNC := [], TASK_WAIT := vfstask s TASK_WAIT @ vfstask s TASK_WAIT_SYNC)"
proof (induction k arbitrary: s)
  case (Suc k)
  have ne: "TASK_WAIT \<noteq> TASK_WAIT_SYNC" by (simp add: queue_defs)
  show ?case
  proof (cases "vfstask s TASK_WAIT_SYNC")
    case Nil
    with tq.get_none [OF Suc.prems(1,2)] show ?thesis by (simp add: fun_upd_idem)
  next
    case (Cons t ts)
    from tq.get_head [OF Suc.prems(1,2) Cons] obtain s1 where
      g: "vfs_get_task e TASK_WAIT_SYNC s = (GET_TASK_OK, Some t, s1)" and
      s1: "queues_ok s1" "vfstask s1 = (vfstask s)(TASK_WAIT_SYNC := ts)" by blast
    have wf: "lf_wf (vfstask s)" using Suc.prems(1) by (simp add: queues_ok_def)
    then have "distinct (t # ts)" using Cons by (metis lf_wf_def)
    then have off: "lf_off t (vfstask s1)"
      using lf_wf_unique [OF wf, of t TASK_WAIT_SYNC] Cons by (auto simp: s1(2) lf_off_def)
    let ?s2 = "snd (vfs_set_task e t TASK_WAIT s1)"
    have s2: "queues_ok ?s2" "vfstask ?s2 = lf_add_tail t TASK_WAIT (vfstask s1)"
      by (rule tq.put_ok [OF s1(1) Suc.prems(3) off], rule tq.put_queue [OF s1(1) Suc.prems(3) off])
    have "length (vfstask ?s2 TASK_WAIT_SYNC) < k"
      using Suc.prems(4) Cons ne by (simp add: s2(2) s1(2))
    from Suc.IH [OF s2(1) Suc.prems(2,3) this] g Cons ne show ?thesis
      by (simp add: s2(2) s1(2) fun_eq_iff)
  qed
qed simp

lemma requeue_queues_ok: "queues_ok s \<Longrightarrow> queues_ok (requeue_wait_sync k e s)"
proof (induction k arbitrary: s)
  case (Suc k)
  obtain r ot s' where g: "vfs_get_task e TASK_WAIT_SYNC s = (r, ot, s')"
    by (cases "vfs_get_task e TASK_WAIT_SYNC s") auto
  have "queues_ok s'" using Suc.prems g
    by (auto simp: vfs_get_task_def queues_ok_def queue_defs split: if_splits list.splits)
  with Suc.IH g show ?case by (simp add: queues_set_task split: option.split)
qed simp

text \<open>
  Whatever \<open>do_dispatch\<close> answers, no task is lost: the tasks taken off \<open>TASK_WAIT\<close> are
  split, in order, between \<open>TASK_RUN\<close> and \<open>TASK_WAIT_SYNC\<close>.
\<close>

definition calm_world :: "tworld \<Rightarrow> bool" where
  "calm_world w \<longleftrightarrow> queue_open (tw_env w) TASK_WAIT \<and> queue_open (tw_env w) TASK_WAIT_SYNC \<and>
     queue_open (tw_env w) TASK_RUN \<and> \<not> lock_failed (tw_env w) M_alltask"

definition worked :: "ptr list \<Rightarrow> tracker_state \<Rightarrow> tracker_state \<Rightarrow> bool" where
  "worked ts s s' \<longleftrightarrow> (\<exists>ds us. ts \<in> shuffles ds us \<and>
     vfstask s' TASK_RUN = vfstask s TASK_RUN @ ds \<and>
     vfstask s' TASK_WAIT_SYNC = vfstask s TASK_WAIT_SYNC @ us \<and>
     (\<forall>t \<in> set ds. running s' t) \<and> (\<forall>t. running s t \<longrightarrow> running s' t))"

lemma add_running_mono:
  "running s u \<Longrightarrow> running (snd (add_task_to_alltask e role t s)) u"
proof -
  assume "running s u"
  then obtain i where i: "i < TASK_HASHSIZE" "u \<in> set (alltask s i)" by (auto simp: running_def)
  show ?thesis
  proof (cases "u = t")
    case True
    with i show ?thesis using add_then_running [of e role t s]
      by (cases "lock_failed e M_alltask") (auto simp: running_def add_task_to_alltask_def Let_def)
  next
    case False
    with i have "u \<in> set (alltask (snd (add_task_to_alltask e role t s)) i)"
      by (auto simp: add_task_to_alltask_def Let_def)
    with i(1) show ?thesis unfolding running_def by blast
  qed
qed

lemma running_same: "alltask s' = alltask s \<Longrightarrow> running s' t = running s t"
  by (simp add: running_def)

lemma worked_dispatched:
  assumes "worked ts s2 s'" and "vfstask s2 TASK_RUN = vfstask s TASK_RUN @ [t]"
    and "vfstask s2 TASK_WAIT_SYNC = vfstask s TASK_WAIT_SYNC" and "running s2 t"
    and "\<And>u. running s u \<Longrightarrow> running s2 u"
  shows "worked (t # ts) s s'"
proof -
  from assms(1) obtain ds us where w: "ts \<in> shuffles ds us" "vfstask s' TASK_RUN = vfstask s2 TASK_RUN @ ds"
    "vfstask s' TASK_WAIT_SYNC = vfstask s2 TASK_WAIT_SYNC @ us" "\<forall>t \<in> set ds. running s' t"
    "\<forall>t. running s2 t \<longrightarrow> running s' t" unfolding worked_def by blast
  have "t # ts \<in> shuffles (t # ds) us" using w(1) by (rule Cons_in_shuffles_leftI)
  with w assms(2-5) show ?thesis unfolding worked_def
    by (intro exI [of _ "t # ds"] exI [of _ us]) simp
qed

lemma worked_postponed:
  assumes "worked ts s2 s'" and "vfstask s2 TASK_RUN = vfstask s TASK_RUN"
    and "vfstask s2 TASK_WAIT_SYNC = vfstask s TASK_WAIT_SYNC @ [t]" and "\<And>u. running s2 u = running s u"
  shows "worked (t # ts) s s'"
proof -
  from assms(1) obtain ds us where w: "ts \<in> shuffles ds us" "vfstask s' TASK_RUN = vfstask s2 TASK_RUN @ ds"
    "vfstask s' TASK_WAIT_SYNC = vfstask s2 TASK_WAIT_SYNC @ us" "\<forall>t \<in> set ds. running s' t"
    "\<forall>t. running s2 t \<longrightarrow> running s' t" unfolding worked_def by blast
  have "t # ts \<in> shuffles ds (t # us)" using w(1) by (rule Cons_in_shuffles_rightI)
  with w assms(2-4) show ?thesis unfolding worked_def
    by (intro exI [of _ ds] exI [of _ "t # us"]) simp
qed

lemma run_wait_worked:
  "\<lbrakk>queues_ok s; calm_world w\<rbrakk> \<Longrightarrow>
   vfstask (run_wait k w s) TASK_WAIT = drop k (vfstask s TASK_WAIT) \<and>
   worked (take k (vfstask s TASK_WAIT)) s (run_wait k w s)"
proof (induction k arbitrary: s)
  case 0
  then show ?case by (simp add: worked_def)
next
  case (Suc k)
  have op: "queue_open (tw_env w) TASK_WAIT" "queue_open (tw_env w) TASK_WAIT_SYNC"
    "queue_open (tw_env w) TASK_RUN" "\<not> lock_failed (tw_env w) M_alltask"
    using Suc.prems(2) by (simp_all add: calm_world_def)
  have ne: "TASK_WAIT \<noteq> TASK_WAIT_SYNC" "TASK_WAIT \<noteq> TASK_RUN" "TASK_WAIT_SYNC \<noteq> TASK_RUN"
    by (simp_all add: queue_defs)
  show ?case
  proof (cases "vfstask s TASK_WAIT")
    case Nil
    with tq.get_none [OF Suc.prems(1) op(1)] show ?thesis by (simp add: worked_def)
  next
    case (Cons t ts)
    from tq.get_head [OF Suc.prems(1) op(1) Cons] obtain s1 where
      g: "vfs_get_task (tw_env w) TASK_WAIT s = (GET_TASK_OK, Some t, s1)" and
      s1: "queues_ok s1" "vfstask s1 = (vfstask s)(TASK_WAIT := ts)" by blast
    have al: "alltask s1 = alltask s" using get_task_frame(2) [of "tw_env w" TASK_WAIT s] g by simp
    have wf: "lf_wf (vfstask s)" using Suc.prems(1) by (simp add: queues_ok_def)
    then have "distinct (t # ts)" using Cons by (metis lf_wf_def)
    then have off: "lf_off t (vfstask s1)"
      using lf_wf_unique [OF wf, of t TASK_WAIT] Cons by (auto simp: s1(2) lf_off_def)
    obtain d s2 where d: "do_dispatch w t s1 = (d, s2)" by fastforce
    have v2: "vfstask s2 = vfstask s1" "alltask s2 = alltask s1"
      using do_dispatch_pool [of w t s1] d by simp_all
    have "tl_status (tasks s2 u) = tl_status (tasks s1 u)" for u
      using d by (auto simp: do_dispatch_def Let_def split: option.splits peer_ref.splits if_splits)
    then have q2: "queues_ok s2" using s1(1) by (simp add: queues_ok_def v2)
    have o2: "lf_off t (vfstask s2)" using off by (simp add: v2)
    show ?thesis
    proof (cases "d = 0")
      case True
      let ?s3 = "snd (vfs_set_task (tw_env w) t TASK_RUN s2)"
      let ?s4 = "snd (add_task_to_alltask (tw_env w) ROLE_TRACKER t ?s3)"
      have s3: "queues_ok ?s3" "vfstask ?s3 = lf_add_tail t TASK_RUN (vfstask s2)"
        by (rule tq.put_ok [OF q2 op(3) o2], rule tq.put_queue [OF q2 op(3) o2])
      have q4: "queues_ok ?s4" using s3(1) by (simp add: queues_ok_def)
      have a3: "alltask ?s3 = alltask s" by (simp add: v2 al)
      have "worked (take k ts) ?s4 (run_wait k w ?s4)" "vfstask (run_wait k w ?s4) TASK_WAIT = drop k ts"
        using Suc.IH [OF q4 Suc.prems(2)] ne by (simp_all add: s3(2) v2 s1(2))
      moreover have "running s u \<Longrightarrow> running ?s4 u" for u
        using add_running_mono [of ?s3 u] running_same [OF a3] by blast
      ultimately have "worked (t # take k ts) s (run_wait k w ?s4)"
        using ne add_then_running [OF op(4)]
        by (intro worked_dispatched [of _ ?s4]) (simp_all add: s3(2) v2 s1(2))
      with g d True Cons \<open>vfstask (run_wait k w ?s4) TASK_WAIT = drop k ts\<close> show ?thesis by simp
    next
      case False
      let ?s3 = "snd (vfs_set_task (tw_env w) t TASK_WAIT_SYNC s2)"
      have s3: "queues_ok ?s3" "vfstask ?s3 = lf_add_tail t TASK_WAIT_SYNC (vfstask s2)"
        by (rule tq.put_ok [OF q2 op(2) o2], rule tq.put_queue [OF q2 op(2) o2])
      have a3: "alltask ?s3 = alltask s" by (simp add: v2 al)
      have "worked (take k ts) ?s3 (run_wait k w ?s3)" "vfstask (run_wait k w ?s3) TASK_WAIT = drop k ts"
        using Suc.IH [OF s3(1) Suc.prems(2)] ne by (simp_all add: s3(2) v2 s1(2))
      moreover from this have "worked (t # take k ts) s (run_wait k w ?s3)"
        using ne running_same [OF a3]
        by (intro worked_postponed [of _ ?s3]) (simp_all add: s3(2) v2 s1(2))
      ultimately show ?thesis using g d False Cons by simp
    qed
  qed
qed

end
