(* ===== verification/TrackerRun.thy ===== *)
theory TrackerRun
  imports Tracker
begin

text \<open>
  The tracker as a state machine: the plugin calls of \<open>src/network/tracker/vfs_sig.c\<close> that
  the main loop makes, in any order and with any answers of the operating system, from
  the state \<open>init_task_info\<close> leaves.  \<open>reachable\<close> is what a run can get to.
\<close>

datatype event =
    Accept ptr
  | Recv ptr t_vfs_sig_head "byte list"
  | Sent ptr
  | Close ptr
  | Tick

definition boot_state :: "ptr \<Rightarrow> tmp_state \<Rightarrow> cfg_state \<Rightarrow> tracker_state" where
  "boot_state block tmp c = init_task_info block
     \<lparr>tasks = (\<lambda>_. zero_tasklist), vfstask = (\<lambda>_. []), alltask = (\<lambda>_. []), userl = (\<lambda>_. []),
      taskcount = (\<lambda>_. 0), tmpst = tmp, peers = (\<lambda>_. zero_peer), has_user = (\<lambda>_. False),
      activelist = [], online_list = (\<lambda>_. []), cfg_list = (\<lambda>_. []), cfg = c, sent = [],
      closed = [], scan_i = 0, last_scan_timeout = 0\<rparr>"

definition react :: "tworld \<Rightarrow> event \<Rightarrow> tracker_state \<Rightarrow> tracker_state" where
  "react w ev s =
     (case ev of
        Accept fd \<Rightarrow> snd (svc_initconn w fd s)
      | Recv fd h b \<Rightarrow> snd (do_req w fd h b s)
      | Sent fd \<Rightarrow> snd (tracker_svc_send w fd s)
      | Close fd \<Rightarrow> svc_finiconn w fd s
      | Tick \<Rightarrow> svc_timeout w s)"

text \<open>
  What the system may answer during an event: \<open>malloc\<close> gives blocks that are not in use,
  and a sweep gets the lock of the home queue.
\<close>

definition may_answer :: "tworld \<Rightarrow> event \<Rightarrow> tracker_state \<Rightarrow> bool" where
  "may_answer w ev s =
     (case ev of
        Recv fd h b \<Rightarrow> fresh_pair w s
      | Tick \<Rightarrow> \<not> lock_failed (tw_env w) (M_task TASK_HOME)
      | _ \<Rightarrow> True)"

inductive step :: "tracker_state \<Rightarrow> tracker_state \<Rightarrow> bool" where
  event: "may_answer w ev s \<Longrightarrow> step s (react w ev s)"

inductive_cases stepE: "step s s'"

inductive reachable :: "tracker_state \<Rightarrow> bool" where
  boot: "reachable (boot_state block tmp c)"
| run: "reachable s \<Longrightarrow> step s s' \<Longrightarrow> reachable s'"

lemma boot_lists:
  "vfstask (boot_state block tmp c) = (\<lambda>_. [])(TASK_HOME := rev (map (\<lambda>i. block + i) [0..<POOL]))"
  "alltask (boot_state block tmp c) = (\<lambda>_. [])" "queues_ok (boot_state block tmp c)"
  by (simp_all add: boot_state_def init_queues init_queues_ok)

lemma init_userl: "userl (init_task_info block s) = userl s"
proof -
  have "userl (foldl (\<lambda>s p. put_home p s) s ps) = userl s" for ps and s :: "'a task_state_scheme"
    by (induction ps arbitrary: s) (simp_all add: put_home_def)
  then show ?thesis by (simp add: init_task_info_def Let_def)
qed

lemma init_more: "task_state.more (init_task_info block s) = task_state.more s"
proof -
  have "task_state.more (foldl (\<lambda>s p. put_home p s) s ps) = task_state.more s"
    for ps and s :: "'a task_state_scheme"
    by (induction ps arbitrary: s) (simp_all add: put_home_def set_status_def)
  then show ?thesis by (simp add: init_task_info_def Let_def)
qed

lemma tracker_more:
  assumes "task_state.more s = task_state.more s'"
  shows "online_list (s :: tracker_state) = online_list s'" and "cfg_list s = cfg_list s'"
    and "has_user s = has_user s'"
  using assms by (cases s; cases s'; simp)+

lemma boot_peers:
  "online_list (boot_state block tmp c) = (\<lambda>_. [])" "cfg_list (boot_state block tmp c) = (\<lambda>_. [])"
  by (simp_all add: boot_state_def tracker_more [OF init_more])

lemma boot_ok: "tr_ok (boot_state block tmp c)"
proof -
  have "userl (boot_state block tmp c) = (\<lambda>_. [])" by (simp add: boot_state_def init_userl)
  then show ?thesis
    by (simp add: tr_ok_def pool_ok_def idle_ok_def table_ok_def boot_lists lf_wf_def lf_off_def)
qed

lemma touch_ok: "tr_ok s \<Longrightarrow> tr_ok (touch_peer e fd s)"
  using tr_ok_part [of "touch_peer e fd s" s] by (simp add: touch_peer_def)

lemma react_ok:
  assumes "tr_ok s" and "may_answer w ev s"
  shows "tr_ok (react w ev s)"
  using assms
  by (cases ev) (simp_all add: react_def may_answer_def initconn_ok do_req_ok tracker_svc_send_def
      touch_ok finiconn_ok svc_timeout_ok)

lemma step_ok: "step s s' \<Longrightarrow> tr_ok s \<Longrightarrow> tr_ok s'"
  by (auto elim: stepE intro: react_ok)

lemma reachable_tr_ok: "reachable s \<Longrightarrow> tr_ok s"
  by (induction rule: reachable.induct) (simp_all add: boot_ok step_ok)

text \<open>The invariant spelled out: where a task can be.\<close>

lemma tr_ok_places:
  assumes "tr_ok s"
  shows "t \<in> set (vfstask s p) \<Longrightarrow> t \<in> set (vfstask s q) \<Longrightarrow> p = q"
    and "t \<in> set (vfstask s q) \<Longrightarrow> tl_status (tasks s t) = q"
    and "t \<in> set (vfstask s TASK_HOME) \<Longrightarrow> \<not> running s t"
    and "t \<in> set (vfstask s TASK_CLEAN) \<Longrightarrow> \<not> running s t"
    and "t \<in> set (userl s fd) \<Longrightarrow> t \<in> set (userl s fd') \<Longrightarrow> fd = fd'"
    and "distinct (vfstask s q)" and "distinct (userl s fd)" and "distinct (alltask s i)"
proof -
  note ok = pool_okD [OF tr_okD(1) [OF assms]]
  have id: "t \<in> set (vfstask s TASK_HOME) \<union> set (vfstask s TASK_CLEAN) \<Longrightarrow> t \<notin> set (alltask s i)" for t i
    using tr_okD(2) [OF assms] unfolding idle_ok_def lf_off_def by blast
  show "t \<in> set (vfstask s p) \<Longrightarrow> t \<in> set (vfstask s q) \<Longrightarrow> p = q" by (rule lf_wf_unique [OF ok(4)])
  show "t \<in> set (userl s fd) \<Longrightarrow> t \<in> set (userl s fd') \<Longrightarrow> fd = fd'" by (rule lf_wf_unique [OF ok(3)])
  show "t \<in> set (vfstask s q) \<Longrightarrow> tl_status (tasks s t) = q" by (rule queue_status [OF ok(1)])
  show "t \<in> set (vfstask s TASK_HOME) \<Longrightarrow> \<not> running s t" "t \<in> set (vfstask s TASK_CLEAN) \<Longrightarrow> \<not> running s t"
    using id by (auto simp: running_def)
  show "distinct (vfstask s q)" "distinct (userl s fd)" "distinct (alltask s i)"
    using ok(3-5) by (simp_all add: lf_wf_def)
qed

section \<open>Where a dispatched task goes\<close>

text \<open>
  A task that is dispatched goes to a connected machine that serves its directory and is
  not off line, and among those at addresses other than the last one tried to a least
  loaded one; the peer is sent the task and counts it.
\<close>

definition sent_to ::
  "tworld \<Rightarrow> t_cs_dir_info \<Rightarrow> ptr \<Rightarrow> tracker_state \<Rightarrow> nat \<Rightarrow> ptr \<Rightarrow> tracker_state \<Rightarrow> bool" where
  "sent_to w cs t s k fd s' \<longleftrightarrow>
     k < cd_index cs \<and> eligible w cs (tsub s t) s k = Some fd \<and>
     (\<forall>i fd'. i < cd_index cs \<longrightarrow> eligible w cs (tsub s t) s i = Some fd' \<longrightarrow>
        cd_ip cs i \<noteq> tb_dstip (tbase s t) \<longrightarrow> load s fd \<le> load s fd') \<and>
     tbase s' t = (tbase s t)\<lparr>tb_dstip := cd_ip cs k, tb_retry := tb_retry (tbase s t) + 1\<rparr> \<and>
     load s' fd = load s fd + 1 \<and> userl s' = lf_add_head t fd (lf_del t (userl s)) \<and>
     sent s' = sent s @ [(fd, create_sig_msg NEWTASK_REQ TASK_START (bytes_of (tw_abi w) (tbase s' t))
                                (sizeof_base (tw_abi w)))]"

lemma dispatch_sends:
  assumes cs: "get_cs_info_by_path (tw_env w) (tb_filename (tbase s t)) (cfg s) = Some cs"
    and nz: "\<forall>i < cd_index cs. cd_ip cs i \<noteq> 0"
    and d: "do_dispatch w t s = (0, s')"
  shows "\<exists>k fd. sent_to w cs t s k fd s'"
proof -
  let ?ip = "get_a_good_ip w cs (tl_task (tasks s t)) s"
  obtain fd where ip: "?ip \<noteq> 0" and fd: "find_ip_stat ?ip s = Some (Peer fd)"
    using d by (auto simp: do_dispatch_def cs Let_def split: if_splits option.splits peer_ref.splits)
  obtain m where best: "best_so_far w cs (tl_task (tasks s t)) s (cd_index cs) (?ip, m)"
    using good_ip_best [OF nz] by blast
  from best ip obtain k fd' where k: "k < cd_index cs" "eligible w cs (tsub s t) s k = Some fd'"
    "?ip = cd_ip cs k" "m = load s fd'"
    and low: "\<And>i fd. i < cd_index cs \<Longrightarrow> eligible w cs (tsub s t) s i = Some fd
      \<Longrightarrow> cd_ip cs i \<noteq> tb_dstip (tbase s t) \<Longrightarrow> m \<le> load s fd"
    unfolding best_so_far_def by auto
  have "find_ip_stat (cd_ip cs k) s = Some (Peer fd')"
    using k(2) by (auto simp: eligible_def Let_def split: if_splits option.splits peer_ref.splits prod.splits)
  with fd k(3) have [simp]: "fd' = fd" by simp
  have "sent_to w cs t s k fd s'"
    using d k low ip fd
    by (auto simp: sent_to_def do_dispatch_def cs Let_def set_peer_def set_client_data_def load_def
        set_base_def set_task_def)
  then show ?thesis by blast
qed

section \<open>The answer to a task\<close>

text \<open>
  A result for a running task takes it out of the table: a failure other than a missing
  source file is tried again while fewer than two retries were made, everything else
  ends in \<open>TASK_CLEAN\<close>.
\<close>

definition retry_wanted :: "t_task_base \<Rightarrow> t_task_base \<Rightarrow> bool" where
  "retry_wanted result known_base \<longleftrightarrow> tb_overstatus result \<noteq> OVER_OK \<and>
     tb_overstatus result \<noteq> OVER_E_OPEN_SRCFILE \<and> sint (tb_retry known_base) < 2"

definition answer_sub :: "tracker_state \<Rightarrow> ptr \<Rightarrow> t_task_sub" where
  "answer_sub s fd = zero_sub\<lparr>ts_isp := (if pe_archive_isp (peers s fd) = ISP_FCS
     then pe_isp (peers s fd) else pe_real_isp (peers s fd))\<rparr>"

lemma finish_task_pool:
  "vfstask (finish_task w base t s) = vfstask (snd (vfs_set_task (tw_env w) t TASK_CLEAN s))"
  "alltask (finish_task w base t s) = alltask s"
  by (simp_all add: finish_task_def release_slot_def process_timeout_def do_rsp_def vfs_set_task_def Let_def
      split: sum.split option.split)

lemma update_task_result:
  assumes g: "get_task_from_alltask (tw_env w) ROLE_TRACKER (base_of (tw_abi w) b) (answer_sub s fd) s = (0, Some t, s1)"
    and l: "queue_open (tw_env w) TASK_WAIT" "queue_open (tw_env w) TASK_CLEAN"
  shows "t \<in> set (vfstask (snd (update_task w fd b s)) q) \<longleftrightarrow>
      q = (if retry_wanted (base_of (tw_abi w) b) (tbase s t) then TASK_WAIT else TASK_CLEAN)"
    and "\<not> running (snd (update_task w fd b s)) t"
proof -
  let ?base = "base_of (tw_abi w) b"
  let ?s0 = "set_peer fd ((peers s fd)\<lparr>pe_taskcount := max 0 (pe_taskcount (peers s fd) - 1)\<rparr>) s"
  let ?s1 = "?s0\<lparr>alltask := lf_del t (alltask s)\<rparr>"
  have same: "same_task ROLE_TRACKER base sub ?s0 p = same_task ROLE_TRACKER base sub s p" for base sub p
    by (simp add: same_task_def)
  have g0: "get_task_from_alltask (tw_env w) ROLE_TRACKER ?base (answer_sub s fd) ?s0 = (0, Some t, ?s1)"
    using g same [of ?base "answer_sub s fd"]
    by (auto simp: get_task_from_alltask_def cong: filter_cong split: if_splits list.splits)
  have u: "update_task w fd b s = (if retry_wanted ?base (tbase s t)
      then (-1, snd (vfs_set_task (tw_env w) t TASK_WAIT ?s1)) else (0, finish_task w ?base t ?s1))"
    using g0 by (simp add: update_task_def answer_sub_def retry_wanted_def Let_def)
  show "t \<in> set (vfstask (snd (update_task w fd b s)) q) \<longleftrightarrow>
      q = (if retry_wanted ?base (tbase s t) then TASK_WAIT else TASK_CLEAN)"
    using l by (simp add: u finish_task_pool queue_open_def set_task_effect)
  show "\<not> running (snd (update_task w fd b s)) t"
    by (simp add: u finish_task_pool running_def)
qed

end
