(* ===== verification/FileFilter.thy ===== *)
theory FileFilter
  imports Prelude "HOL-Library.Sublist"
begin

text \<open>
  \<open>src/network/vfs_file_filter.c\<close>: which file names are served.  The lists hold the suffixes
  of the configuration key \<open>file_allow_suffix\<close>; \<open>conf\<close> gives the values of a key in order
  and \<open>alloc n\<close> says whether the call of \<open>malloc\<close> succeeds that follows \<open>n\<close> successful ones.
  The zero bytes the code writes over the bars of the configured text are not kept: the
  values are read once, at start-up.
\<close>

record t_vfs_filter =
  fi_strings :: string
  fi_s_len :: byte
  fi_type :: int

record filter_state =
  allow_list :: "t_vfs_filter list"
  deny_list :: "t_vfs_filter list"

section \<open>The code\<close>

definition add_filter :: "(nat \<Rightarrow> bool) \<Rightarrow> string \<Rightarrow> int \<Rightarrow> t_vfs_filter list \<Rightarrow> int \<times> t_vfs_filter list" where
  "add_filter alloc s type mlist =
     (if \<not> alloc (length mlist) then (-1, mlist)
      else (0, \<lparr>fi_strings = take 63 s, fi_s_len = word_of_nat (length s), fi_type = type\<rparr> # mlist))"

definition skip_star :: "string \<Rightarrow> string" where
  "skip_star s = (case s of c # cs \<Rightarrow> if c = CHR ''*'' then cs else s | [] \<Rightarrow> s)"

text \<open>
  At a bar whose segment is empty (or a lone star) the code repeats its loop on the zero byte
  it has just written: there is no bar and no text behind that byte, so it returns 0.
\<close>

function sub_init_filter :: "(nat \<Rightarrow> bool) \<Rightarrow> string \<Rightarrow> int \<Rightarrow> t_vfs_filter list \<Rightarrow> int \<times> t_vfs_filter list" where
  "sub_init_filter alloc s type mlist =
     (case strchr s (CHR ''|'') of
        None \<Rightarrow> let s = skip_star s in if s = [] then (0, mlist) else add_filter alloc s type mlist
      | Some k \<Rightarrow>
          let seg = skip_star (take k s) in
          if seg = [] then (0, mlist)
          else let (ret, mlist') = add_filter alloc seg type mlist
               in if ret \<noteq> 0 then (-1, mlist') else sub_init_filter alloc (drop (Suc k) s) type mlist')"
  by pat_completeness auto
termination
  by (relation "measure (\<lambda>(alloc, s, type, mlist). length s)") (auto dest: strchr_Some_less)

declare sub_init_filter.simps [simp del]

fun init_values :: "(nat \<Rightarrow> bool) \<Rightarrow> string list \<Rightarrow> t_vfs_filter list \<Rightarrow> int \<times> t_vfs_filter list" where
  "init_values alloc [] F = (0, F)"
| "init_values alloc (pval # vs) F =
     (if length pval = 0 then init_values alloc vs F
      else let (ret, F') = sub_init_filter alloc pval 0 F
           in if ret \<noteq> 0 then (-1, F') else init_values alloc vs F')"

definition init_file_filter :: "(nat \<Rightarrow> bool) \<Rightarrow> (string \<Rightarrow> string list) \<Rightarrow> int \<times> filter_state" where
  "init_file_filter alloc conf =
     (let (ret, F) = init_values alloc (conf ''file_allow_suffix'') []
      in (ret, \<lparr>allow_list = F, deny_list = []\<rparr>))"

fun check_allow_loop :: "string \<Rightarrow> t_vfs_filter list \<Rightarrow> int" where
  "check_allow_loop file [] = 1"
| "check_allow_loop file (f # fs) =
     (if unat (fi_s_len f) > length file then check_allow_loop file fs
      else if fi_type f = 0 \<and> drop (length file - unat (fi_s_len f)) file = fi_strings f then 0
      else check_allow_loop file fs)"

definition check_file_allow :: "string \<Rightarrow> filter_state \<Rightarrow> int" where
  "check_file_allow file s = check_allow_loop file (allow_list s)"

definition check_file_filter :: "string \<Rightarrow> filter_state \<Rightarrow> int" where
  "check_file_filter file s = check_file_allow file s"

definition check_mp4_filter :: "string \<Rightarrow> int" where
  "check_mp4_filter file = (if length file > 4 \<and> drop (length file - 4) file = ''.mp4'' then 0 else 1)"

section \<open>What the filter accepts\<close>

text \<open>A configured pattern: a suffix, written with a star in front or without.\<close>

definition pattern_ok :: "bool \<times> string \<Rightarrow> bool" where
  "pattern_ok p \<longleftrightarrow> snd p \<noteq> [] \<and> length (snd p) < 64 \<and> CHR ''|'' \<notin> set (snd p) \<and> (\<not> fst p \<longrightarrow> hd (snd p) \<noteq> CHR ''*'')"

definition pattern_text :: "bool \<times> string \<Rightarrow> string" where
  "pattern_text p = (if fst p then CHR ''*'' # snd p else snd p)"

fun value_text :: "(bool \<times> string) list \<Rightarrow> string" where
  "value_text [] = []"
| "value_text [p] = pattern_text p"
| "value_text (p # ps) = pattern_text p @ CHR ''|'' # value_text ps"

definition filter_of :: "bool \<times> string \<Rightarrow> t_vfs_filter" where
  "filter_of p = \<lparr>fi_strings = snd p, fi_s_len = word_of_nat (length (snd p)), fi_type = 0\<rparr>"

lemma skip_pattern [simp]: "pattern_ok p \<Longrightarrow> skip_star (pattern_text p) = snd p"
  by (auto simp: skip_star_def pattern_text_def pattern_ok_def split: list.split)

lemma no_bar: "pattern_ok p \<Longrightarrow> CHR ''|'' \<notin> set (pattern_text p)"
  by (simp add: pattern_ok_def pattern_text_def)

lemma add_pattern: "pattern_ok p \<Longrightarrow> alloc (length F) \<Longrightarrow> add_filter alloc (snd p) 0 F = (0, filter_of p # F)"
  by (simp add: add_filter_def filter_of_def pattern_ok_def)

lemma pattern_nonempty: "pattern_ok p \<Longrightarrow> snd p \<noteq> []"
  by (simp add: pattern_ok_def)

lemma sub_init_ok:
  "list_all pattern_ok ps \<Longrightarrow> \<forall>n. alloc n \<Longrightarrow>
     sub_init_filter alloc (value_text ps) 0 F = (0, rev (map filter_of ps) @ F)"
proof (induction ps arbitrary: F rule: value_text.induct)
  case 1
  then show ?case by (simp add: sub_init_filter.simps skip_star_def)
next
  case (2 p)
  then show ?case
    by (simp add: sub_init_filter.simps no_bar strchr_None [THEN iffD2] add_pattern pattern_nonempty)
next
  case (3 p q ps)
  from 3(2) have p: "pattern_ok p" and rest: "list_all pattern_ok (q # ps)" by simp_all
  have a: "alloc = (\<lambda>_. True)" using 3(3) by auto
  show ?case
    using 3(1) [OF rest 3(3), of "filter_of p # F"] p unfolding a
    by (subst sub_init_filter.simps) (simp add: strchr_append no_bar add_pattern pattern_nonempty)
qed

lemma value_text_Nil: "list_all pattern_ok ps \<Longrightarrow> value_text ps = [] \<longleftrightarrow> ps = []"
  by (cases ps rule: value_text.cases) (auto simp: pattern_text_def pattern_ok_def)

lemma init_values_ok:
  "list_all (list_all pattern_ok) vs \<Longrightarrow> \<forall>n. alloc n \<Longrightarrow>
     init_values alloc (map value_text vs) F = (0, rev (map filter_of (concat vs)) @ F)"
  by (induction vs arbitrary: F) (auto simp: sub_init_ok value_text_Nil)

lemma filter_of_matches:
  assumes "pattern_ok p"
  shows "unat (fi_s_len (filter_of p)) \<le> length file \<and>
      drop (length file - unat (fi_s_len (filter_of p))) file = fi_strings (filter_of p) \<longleftrightarrow> suffix (snd p) file"
proof -
  have len: "unat (fi_s_len (filter_of p)) = length (snd p)"
    using assms by (simp add: filter_of_def pattern_ok_def unsigned_of_nat take_bit_nat_eq_self)
  show ?thesis unfolding len
    by (auto simp: filter_of_def suffix_def dest: sym [of "drop _ _"]) (metis append_take_drop_id)
qed

lemma check_allow_iff:
  "list_all pattern_ok ps \<Longrightarrow>
     check_allow_loop file (map filter_of ps) = (if \<exists>p\<in>set ps. suffix (snd p) file then 0 else 1)"
proof (induction ps)
  case (Cons p ps)
  have "fi_type (filter_of p) = 0" by (simp add: filter_of_def)
  then show ?case using Cons filter_of_matches [of p "file"] by (auto simp: not_le)
qed simp

lemma filter_accepts:
  assumes "list_all (list_all pattern_ok) vs" and "\<forall>n. alloc n" and "conf ''file_allow_suffix'' = map value_text vs"
  shows "\<exists>s. init_file_filter alloc conf = (0, s) \<and>
    check_file_filter file s = (if \<exists>p\<in>set (concat vs). suffix (snd p) file then 0 else 1)"
proof -
  have "list_all pattern_ok (rev (concat vs))" using assms(1) by (auto simp: list_all_iff)
  from check_allow_iff [OF this, of "file"] show ?thesis
    using init_values_ok [OF assms(1,2), of "[]"] assms(3)
    by (simp add: init_file_filter_def check_file_filter_def check_file_allow_def rev_map)
qed

text \<open>An empty segment ends the value: what stands behind it is dropped.\<close>

lemma empty_segment_stops:
  "sub_init_filter alloc (CHR ''|'' # rest) 0 F = (0, F)"
  by (simp add: sub_init_filter.simps skip_star_def)

end
