(* ===== verification/FileSys.thy ===== *)
theory FileSys
  imports VfsTypes
begin

text \<open>
  The part of the operating system's file interface the sources use (\<open>access\<close>, \<open>mkdir\<close>,
  \<open>open\<close>, \<open>read\<close>, \<open>write\<close>, \<open>rename\<close>, \<open>unlink\<close>, \<open>link\<close>, \<open>stat\<close>, \<open>utime\<close>, \<open>chmod\<close>, \<open>chown\<close>).
  A path is the list of its components, so a doubled or trailing slash makes no difference;
  \<open>.\<close>, \<open>..\<close> and symbolic links are not followed.  A name leads to the number of an inode, so
  that hard links share what they name.  Whether the kernel grants a call for another
  reason (rights, space, errors of the disk) is the argument \<open>k\<close>.  Only files are renamed,
  linked and removed by the code.
\<close>

type_synonym path = "string list"

datatype syscall = S_mkdir | S_open | S_write | S_rename | S_unlink | S_link | S_stat | S_read | S_set

record kernel =
  k_grants :: "syscall \<Rightarrow> path \<Rightarrow> bool"
  k_umask :: u32

record inode =
  in_data :: "byte list"
  in_mode :: u32
  in_mtime :: int
  in_ctime :: int
  in_uid :: u32
  in_gid :: u32

record filesys =
  fs_dir :: "path \<Rightarrow> bool"
  fs_file :: "path \<Rightarrow> nat option"
  fs_inode :: "nat \<Rightarrow> inode"
  fs_next :: nat

section \<open>Paths\<close>

fun split_path :: "string \<Rightarrow> string \<Rightarrow> string list" where
  "split_path [] acc = (if acc = [] then [] else [rev acc])"
| "split_path (c # cs) acc =
     (if c = CHR ''/'' then (if acc = [] then split_path cs [] else rev acc # split_path cs [])
      else split_path cs (c # acc))"

definition path_of :: "string \<Rightarrow> path" where
  "path_of s = split_path s []"

lemma split_path_slash: "split_path (s @ CHR ''/'' # t) acc = split_path s acc @ split_path t []"
  by (induction s arbitrary: acc) auto

lemma path_of_slash: "path_of (s @ CHR ''/'' # t) = path_of s @ path_of t"
  by (simp add: path_of_def split_path_slash)

lemma split_path_name: "CHR ''/'' \<notin> set s \<Longrightarrow> split_path s acc = (if rev acc @ s = [] then [] else [rev acc @ s])"
  by (induction s arbitrary: acc) auto

lemma path_of_name: "CHR ''/'' \<notin> set s \<Longrightarrow> path_of s = (if s = [] then [] else [s])"
  by (simp add: path_of_def split_path_name)

section \<open>Calls\<close>

definition exists :: "path \<Rightarrow> filesys \<Rightarrow> bool" where
  "exists p fs \<longleftrightarrow> p = [] \<or> fs_dir fs p \<or> fs_file fs p \<noteq> None"

definition dir_there :: "path \<Rightarrow> filesys \<Rightarrow> bool" where
  "dir_there p fs \<longleftrightarrow> p = [] \<or> fs_dir fs p"

definition sys_mkdir :: "kernel \<Rightarrow> path \<Rightarrow> filesys \<Rightarrow> bool \<times> filesys" where
  "sys_mkdir k p fs =
     (if k_grants k S_mkdir p \<and> \<not> exists p fs \<and> dir_there (butlast p) fs
      then (True, fs\<lparr>fs_dir := (fs_dir fs)(p := True)\<rparr>) else (False, fs))"

definition sys_unlink :: "kernel \<Rightarrow> path \<Rightarrow> filesys \<Rightarrow> bool \<times> filesys" where
  "sys_unlink k p fs =
     (if k_grants k S_unlink p \<and> fs_file fs p \<noteq> None
      then (True, fs\<lparr>fs_file := (fs_file fs)(p := None)\<rparr>) else (False, fs))"

definition sys_link :: "kernel \<Rightarrow> path \<Rightarrow> path \<Rightarrow> filesys \<Rightarrow> bool \<times> filesys" where
  "sys_link k src dst fs =
     (if k_grants k S_link dst \<and> fs_file fs src \<noteq> None \<and> \<not> exists dst fs \<and> dir_there (butlast dst) fs
      then (True, fs\<lparr>fs_file := (fs_file fs)(dst := fs_file fs src)\<rparr>) else (False, fs))"

text \<open>Renaming onto another name of the same file leaves both names.\<close>

definition sys_rename :: "kernel \<Rightarrow> path \<Rightarrow> path \<Rightarrow> filesys \<Rightarrow> bool \<times> filesys" where
  "sys_rename k src dst fs =
     (case fs_file fs src of
        None \<Rightarrow> (False, fs)
      | Some i \<Rightarrow>
          if k_grants k S_rename dst \<and> \<not> fs_dir fs dst \<and> dir_there (butlast dst) fs then
            (True, if fs_file fs dst = Some i then fs
                   else fs\<lparr>fs_file := (fs_file fs)(src := None, dst := Some i)\<rparr>)
          else (False, fs))"

text \<open>\<open>open\<close> with \<open>O_CREAT\<close>, and without it; the result is the inode the descriptor stands for.\<close>

definition sys_creat :: "kernel \<Rightarrow> int \<Rightarrow> u32 \<Rightarrow> path \<Rightarrow> filesys \<Rightarrow> nat option \<times> filesys" where
  "sys_creat k now mode p fs =
     (if \<not> k_grants k S_open p \<or> p = [] \<or> fs_dir fs p then (None, fs)
      else case fs_file fs p of
        Some i \<Rightarrow> (Some i, fs)
      | None \<Rightarrow>
          if \<not> dir_there (butlast p) fs then (None, fs)
          else let i = fs_next fs in
            (Some i, fs\<lparr>fs_file := (fs_file fs)(p := Some i), fs_next := i + 1,
               fs_inode := (fs_inode fs)(i := \<lparr>in_data = [], in_mode = mode AND NOT (k_umask k),
                 in_mtime = now, in_ctime = now, in_uid = 0, in_gid = 0\<rparr>)\<rparr>))"

definition sys_open :: "kernel \<Rightarrow> path \<Rightarrow> filesys \<Rightarrow> nat option" where
  "sys_open k p fs = (if k_grants k S_open p then fs_file fs p else None)"

definition sys_stat :: "kernel \<Rightarrow> path \<Rightarrow> filesys \<Rightarrow> nat option" where
  "sys_stat k p fs = (if k_grants k S_stat p then fs_file fs p else None)"

definition set_inode :: "nat \<Rightarrow> (inode \<Rightarrow> inode) \<Rightarrow> filesys \<Rightarrow> filesys" where
  "set_inode i f fs = fs\<lparr>fs_inode := (fs_inode fs)(i := f (fs_inode fs i))\<rparr>"

text \<open>\<open>utime\<close>, \<open>chmod\<close> and \<open>chown\<close>; their results are not looked at.\<close>

definition sys_set :: "kernel \<Rightarrow> (inode \<Rightarrow> inode) \<Rightarrow> path \<Rightarrow> filesys \<Rightarrow> filesys" where
  "sys_set k f p fs =
     (case fs_file fs p of
        Some i \<Rightarrow> if k_grants k S_set p then set_inode i f fs else fs
      | None \<Rightarrow> fs)"

text \<open>The contents under a name.\<close>

definition contents :: "path \<Rightarrow> filesys \<Rightarrow> byte list option" where
  "contents p fs = map_option (\<lambda>i. in_data (fs_inode fs i)) (fs_file fs p)"

text \<open>Every name leads to an inode that was handed out.\<close>

definition fs_ok :: "filesys \<Rightarrow> bool" where
  "fs_ok fs \<longleftrightarrow> (\<forall>p i. fs_file fs p = Some i \<longrightarrow> i < fs_next fs)"

section \<open>Text and bytes\<close>

definition str_bytes :: "string \<Rightarrow> byte list" where
  "str_bytes s = map (\<lambda>c. word_of_nat (of_char c)) s"

definition bytes_str :: "byte list \<Rightarrow> string" where
  "bytes_str b = map (\<lambda>w. char_of (unat w)) b"

lemma bytes_str_bytes [simp]: "bytes_str (str_bytes s) = s"
proof -
  have "char_of (unat (word_of_nat (of_char c) :: byte)) = c" for c :: char
  proof -
    have "(of_char c :: nat) < 256" by (rule nat_of_char_less_256)
    then show ?thesis by (simp add: unsigned_of_nat take_bit_nat_eq_self)
  qed
  then show ?thesis by (simp add: bytes_str_def str_bytes_def comp_def)
qed

lemma length_str_bytes [simp]: "length (str_bytes s) = length s"
  by (simp add: str_bytes_def)

lemma length_bytes_str [simp]: "length (bytes_str b) = length b"
  by (simp add: bytes_str_def)

lemma bytes_str_append: "bytes_str (a @ b) = bytes_str a @ bytes_str b"
  by (simp add: bytes_str_def)

lemma str_bytes_append: "str_bytes (a @ b) = str_bytes a @ str_bytes b"
  by (simp add: str_bytes_def)

lemma take_bytes_str: "take n (bytes_str b) = bytes_str (take n b)"
  by (simp add: bytes_str_def take_map)

lemma drop_bytes_str: "drop n (bytes_str b) = bytes_str (drop n b)"
  by (simp add: bytes_str_def drop_map)

section \<open>What the calls keep\<close>

lemma sys_set_names [simp]:
  "fs_file (sys_set k f p fs) = fs_file fs" "fs_dir (sys_set k f p fs) = fs_dir fs"
  "fs_next (sys_set k f p fs) = fs_next fs"
  by (simp_all add: sys_set_def set_inode_def split: option.split)

lemma contents_sys_set:
  "(\<And>i. in_data (f i) = in_data i) \<Longrightarrow> contents q (sys_set k f p fs) = contents q fs"
  by (cases "fs_file fs q") (auto simp: contents_def sys_set_def set_inode_def split: option.split)

lemma fs_ok_set [simp]: "fs_ok (sys_set k f p fs) = fs_ok fs"
  by (simp add: fs_ok_def)

lemma fs_ok_rename: "fs_ok fs \<Longrightarrow> fs_ok (snd (sys_rename k a b fs))"
  by (auto simp: fs_ok_def sys_rename_def split: option.split)

lemma fs_ok_unlink: "fs_ok fs \<Longrightarrow> fs_ok (snd (sys_unlink k p fs))"
  by (auto simp: fs_ok_def sys_unlink_def)

lemma fs_ok_link: "fs_ok fs \<Longrightarrow> fs_ok (snd (sys_link k a b fs))"
  by (auto simp: fs_ok_def sys_link_def)

lemma fs_ok_mkdir: "fs_ok fs \<Longrightarrow> fs_ok (snd (sys_mkdir k p fs))"
  by (auto simp: fs_ok_def sys_mkdir_def)

lemma fs_ok_creat: "fs_ok fs \<Longrightarrow> fs_ok (snd (sys_creat k now m p fs))"
  by (auto simp: fs_ok_def sys_creat_def Let_def less_Suc_eq split: option.split)

lemma rename_contents:
  assumes "sys_rename k a b fs = (True, fs')" and "a \<noteq> b"
  shows "contents b fs' = contents a fs"
    and "q \<noteq> a \<Longrightarrow> q \<noteq> b \<Longrightarrow> contents q fs' = contents q fs"
  using assms by (auto simp: sys_rename_def contents_def split: option.splits if_splits)

lemma rename_refused: "sys_rename k a b fs = (False, fs') \<Longrightarrow> fs' = fs"
  by (auto simp: sys_rename_def split: option.splits if_splits)

section \<open>Reading lines\<close>

text \<open>\<open>fgets\<close> with room for \<open>n\<close> characters: a piece ends behind a newline, or is full.\<close>

definition fgets_length :: "nat \<Rightarrow> string \<Rightarrow> nat" where
  "fgets_length n s = (case strchr (take n s) (CHR 0x0A) of Some i \<Rightarrow> Suc i | None \<Rightarrow> min n (length s))"

function fgets_all :: "nat \<Rightarrow> string \<Rightarrow> string list" where
  "fgets_all n s = (if s = [] \<or> n = 0 then [] else take (fgets_length n s) s # fgets_all n (drop (fgets_length n s) s))"
  by pat_completeness auto
termination
  by (relation "measure (\<lambda>(n, s). length s)") (auto simp: fgets_length_def split: option.splits)

declare fgets_all.simps [simp del]

end
