(* ===== verification/DelFile.thy ===== *)
theory DelFile
  imports FileSys
begin

text \<open>
  \<open>src/network/vfs_del_file.c\<close>: the log of deleted files, one record of 268 bytes per
  deletion.  \<open>deldir\<close> is the value of the configuration key \<open>vfs_deldir\<close>, \<open>r\<close> the role of the
  machine.  The record is read into a buffer that keeps old bytes behind a short read.
\<close>

definition NUL :: char where "NUL = char_of (0 :: nat)"

definition cstr :: "string \<Rightarrow> string" where
  "cstr s = takeWhile (\<lambda>c. c \<noteq> NUL) s"

text \<open>A fixed array of \<open>n\<close> characters, cleared and then written by \<open>snprintf\<close>.\<close>

definition char_field :: "nat \<Rightarrow> string \<Rightarrow> string" where
  "char_field n s = take (n - 1) s @ replicate (n - length (take (n - 1) s)) NUL"

definition DEL_RECORD :: nat where "DEL_RECORD = 268"

definition del_record :: "t_task_base \<Rightarrow> byte list" where
  "del_record base =
     str_bytes (char_field 10 (show_int (tb_ctime base)) @ '' '' @ char_field 256 (tb_filename base) @ ''\<newline>'')"

definition rec_dtime :: "byte list \<Rightarrow> int" where
  "rec_dtime buf = atoi (cstr (bytes_str buf))"

definition rec_file :: "byte list \<Rightarrow> string" where
  "rec_file buf = cstr (drop 11 (bytes_str buf))"

section \<open>The code\<close>

definition get_del_file :: "role \<Rightarrow> string option \<Rightarrow> t_task_base \<Rightarrow> string" where
  "get_del_file r deldir base =
     (let datadir = (case deldir of None \<Rightarrow> ''/diska/vfs/path/delfile/'' | Some d \<Rightarrow> d) in
      if r = ROLE_CS then datadir @ ''/'' @ tb_src_domain base @ ''_del_list''
      else if r = ROLE_FCS then datadir @ ''/del_list'' else [])"

definition sys_append :: "kernel \<Rightarrow> int \<Rightarrow> path \<Rightarrow> nat \<Rightarrow> byte list \<Rightarrow> filesys \<Rightarrow> filesys" where
  "sys_append k now p i d fs =
     (if k_grants k S_write p then set_inode i (\<lambda>n. n\<lparr>in_data := in_data n @ d, in_mtime := now\<rparr>) fs else fs)"

definition add_2_del_file ::
  "kernel \<Rightarrow> env \<Rightarrow> role \<Rightarrow> string option \<Rightarrow> t_task_base \<Rightarrow> filesys \<Rightarrow> int \<times> filesys" where
  "add_2_del_file k e r deldir base fs =
     (let p = path_of (get_del_file r deldir base) in
      case sys_creat k (e_now e) 0x1A4 p fs of
        (None, fs) \<Rightarrow> (-1, fs)
      | (Some i, fs) \<Rightarrow> (0, sys_append k (e_now e) p i (del_record base) fs))"

definition file_data :: "kernel \<Rightarrow> path \<Rightarrow> nat \<Rightarrow> filesys \<Rightarrow> byte list" where
  "file_data k p i fs = (if k_grants k S_read p then in_data (fs_inode fs i) else [])"

text \<open>One \<open>read\<close> of a record: what is read overwrites the front of the buffer.\<close>

definition read_record :: "byte list \<Rightarrow> byte list \<Rightarrow> byte list" where
  "read_record buf data = take DEL_RECORD data @ drop (length (take DEL_RECORD data)) buf"

function find_loop :: "byte list \<Rightarrow> byte list \<Rightarrow> int \<Rightarrow> int \<Rightarrow> (int \<times> string) option" where
  "find_loop buf data lasttime index =
     (if data = [] then None
      else let buf = read_record buf data; index = index + 1 in
        if rec_dtime buf = lasttime then Some (index, take 255 (rec_file buf))
        else find_loop buf (drop DEL_RECORD data) lasttime index)"
  by pat_completeness auto
termination
  by (relation "measure (\<lambda>(buf, data, lasttime, index). length data)") (auto simp: DEL_RECORD_def)

declare find_loop.simps [simp del]

definition zero_record :: "byte list" where
  "zero_record = replicate DEL_RECORD 0"

definition find_last_index ::
  "kernel \<Rightarrow> role \<Rightarrow> string option \<Rightarrow> filesys \<Rightarrow> t_task_base \<Rightarrow> int \<Rightarrow> int \<times> t_task_base" where
  "find_last_index k r deldir fs base lasttime =
     (let p = path_of (get_del_file r deldir base) in
      case sys_stat k p fs of None \<Rightarrow> (-1, base)
      | Some _ \<Rightarrow>
        case sys_open k p fs of None \<Rightarrow> (-1, base)
        | Some i \<Rightarrow>
          case find_loop zero_record (file_data k p i fs) lasttime (-1) of
            None \<Rightarrow> (-1, base)
          | Some (index, name) \<Rightarrow> (index, base\<lparr>tb_filename := name\<rparr>))"

text \<open>A negative position is refused by \<open>lseek\<close>, which leaves the file at its start.\<close>

definition get_from_del_file ::
  "kernel \<Rightarrow> role \<Rightarrow> string option \<Rightarrow> filesys \<Rightarrow> t_task_base \<Rightarrow> int \<Rightarrow> int \<Rightarrow> int" where
  "get_from_del_file k r deldir fs base next cur =
     (let p = path_of (get_del_file r deldir base) in
      case sys_stat k p fs of None \<Rightarrow> -1
      | Some j \<Rightarrow>
        let n = int (length (in_data (fs_inode fs j)) div DEL_RECORD) in
        if n \<le> next then -1
        else case sys_open k p fs of None \<Rightarrow> -1
        | Some i \<Rightarrow>
          let pos = (if next < 0 then 0 else DEL_RECORD * nat next);
              data = drop pos (file_data k p i fs)
          in if data = [] then -1
             else if rec_dtime (read_record zero_record data) > cur then -1
             else next)"

section \<open>Reading the log back\<close>

text \<open>The time a record keeps: the first nine characters of the decimal number.\<close>

definition del_time :: "int \<Rightarrow> int" where
  "del_time t = atoi (take 9 (show_int t))"

definition log_ok :: "t_task_base \<Rightarrow> bool" where
  "log_ok base \<longleftrightarrow> 0 \<le> tb_ctime base \<and> length (tb_filename base) < 256 \<and> NUL \<notin> set (tb_filename base)"

lemma length_char_field [simp]: "0 < n \<Longrightarrow> length (char_field n s) = n"
  by (simp add: char_field_def)

lemma length_del_record [simp]: "length (del_record base) = DEL_RECORD"
  by (simp add: del_record_def DEL_RECORD_def)

lemma cstr_field: "0 < n \<Longrightarrow> NUL \<notin> set s \<Longrightarrow> cstr (char_field n s @ t) = take (n - 1) s"
proof -
  assume n: "0 < n" and s: "NUL \<notin> set s"
  obtain m where m: "n - length (take (n - 1) s) = Suc m"
    using n by (metis Suc_diff_1 length_take less_Suc_eq_le min.cobounded2 Suc_diff_le)
  have "\<forall>c\<in>set (take (n - 1) s). c \<noteq> NUL" using s by (auto dest: in_set_takeD)
  then show ?thesis
    unfolding cstr_def char_field_def m by (simp add: takeWhile_append2)
qed

lemma digit_not_NUL: "is_digit c \<Longrightarrow> c \<noteq> NUL"
  by (auto simp: is_digit_def chr_code_def NUL_def)

lemma NUL_show_int: "NUL \<notin> set (show_int t)"
proof -
  have "CHR ''-'' \<noteq> NUL" by (simp add: NUL_def char_of_def)
  then show ?thesis using show_nat_digits digit_not_NUL by (auto simp: show_int_def)
qed

lemma read_full: "length r = DEL_RECORD \<Longrightarrow> read_record buf (r @ d) = r @ drop DEL_RECORD buf"
  by (simp add: read_record_def)

lemma rec_dtime_record: "rec_dtime (del_record base @ junk) = del_time (tb_ctime base)"
  by (simp add: rec_dtime_def del_time_def del_record_def bytes_str_append cstr_field NUL_show_int)

lemma rec_file_record:
  "log_ok base \<Longrightarrow> rec_file (del_record base @ junk) = tb_filename base"
  by (simp add: rec_file_def del_record_def bytes_str_append cstr_field log_ok_def)

lemma del_record_nonempty [simp]: "del_record b \<noteq> []"
proof
  assume "del_record b = []"
  then have "length (del_record b) = 0" by simp
  then show False by (simp add: DEL_RECORD_def)
qed

text \<open>The first record whose kept time is the one looked for, and its number.\<close>

fun first_at :: "int \<Rightarrow> int \<Rightarrow> t_task_base list \<Rightarrow> (int \<times> string) option" where
  "first_at lasttime index [] = None"
| "first_at lasttime index (b # bs) =
     (if del_time (tb_ctime b) = lasttime then Some (index + 1, tb_filename b) else first_at lasttime (index + 1) bs)"

lemma find_loop_ok:
  "list_all log_ok bs \<Longrightarrow> length buf = DEL_RECORD \<Longrightarrow>
     find_loop buf (concat (map del_record bs)) lasttime index = first_at lasttime index bs"
proof (induction bs arbitrary: buf index)
  case Nil
  then show ?case by (simp add: find_loop.simps)
next
  case (Cons b bs)
  then have b: "log_ok b" and rest: "list_all log_ok bs" by simp_all
  let ?d = "concat (map del_record bs)"
  have r: "read_record buf (del_record b @ ?d) = del_record b" using Cons.prems(2) by (simp add: read_full)
  have "rec_dtime (del_record b) = del_time (tb_ctime b)" "rec_file (del_record b) = tb_filename b"
    using rec_dtime_record [of b "[]"] rec_file_record [OF b, of "[]"] by simp_all
  moreover have "take 255 (tb_filename b) = tb_filename b" using b by (simp add: log_ok_def)
  ultimately show ?case
    using Cons.IH [OF rest length_del_record, of b "index + 1"] r
    by (subst find_loop.simps) (simp add: Let_def)
qed

section \<open>The log as a whole\<close>

definition log_at :: "path \<Rightarrow> filesys \<Rightarrow> t_task_base list \<Rightarrow> bool" where
  "log_at p fs bs \<longleftrightarrow> p \<noteq> [] \<and> \<not> fs_dir fs p \<and> dir_there (butlast p) fs \<and> fs_ok fs \<and>
     (case contents p fs of None \<Rightarrow> bs = [] | Some d \<Rightarrow> d = concat (map del_record bs))"

definition all_granted :: "kernel \<Rightarrow> bool" where
  "all_granted k \<longleftrightarrow> (\<forall>c p. k_grants k c p)"

lemma all_grantedD [simp]: "all_granted k \<Longrightarrow> k_grants k c p"
  by (simp add: all_granted_def)

lemma add_log:
  assumes "log_at p fs bs" and "all_granted k" and "p = path_of (get_del_file r deldir b)"
  shows "log_at p (snd (add_2_del_file k e r deldir b fs)) (bs @ [b])"
    and "fst (add_2_del_file k e r deldir b fs) = 0"
  using assms
  by (auto simp: log_at_def add_2_del_file_def sys_creat_def sys_append_def set_inode_def Let_def contents_def
      dir_there_def fs_ok_def split: option.splits dest: less_SucI)

definition add_all :: "kernel \<Rightarrow> env \<Rightarrow> role \<Rightarrow> string option \<Rightarrow> t_task_base list \<Rightarrow> filesys \<Rightarrow> filesys" where
  "add_all k e r deldir bs fs = foldl (\<lambda>fs b. snd (add_2_del_file k e r deldir b fs)) fs bs"

lemma add_all_log:
  assumes "all_granted k" and "\<forall>b\<in>set bs. path_of (get_del_file r deldir b) = p"
  shows "log_at p fs cs \<Longrightarrow> log_at p (add_all k e r deldir bs fs) (cs @ bs)"
  using assms(2)
proof (induction bs arbitrary: fs cs)
  case (Cons b bs)
  have "log_at p (snd (add_2_del_file k e r deldir b fs)) (cs @ [b])"
    using Cons.prems by (intro add_log [OF _ assms(1)]) simp_all
  from Cons.IH [OF this] Cons.prems(2) show ?case by (simp add: add_all_def)
qed (simp add: add_all_def)

lemma find_logged:
  assumes "log_at p fs bs" and "all_granted k" and "p = path_of (get_del_file r deldir base)" and "list_all log_ok bs"
  shows "find_last_index k r deldir fs base lasttime =
    (case first_at lasttime (-1) bs of None \<Rightarrow> (-1, base) | Some (i, name) \<Rightarrow> (i, base\<lparr>tb_filename := name\<rparr>))"
proof (cases "fs_file fs p")
  case None
  with assms show ?thesis by (simp add: find_last_index_def log_at_def contents_def sys_stat_def)
next
  case (Some i)
  then have "file_data k p i fs = concat (map del_record bs)"
    using assms(1,2) by (simp add: log_at_def contents_def file_data_def)
  with assms Some find_loop_ok [OF assms(4), of zero_record lasttime "-1"] show ?thesis
    by (simp add: find_last_index_def sys_stat_def sys_open_def zero_record_def)
qed

lemma length_log: "length (concat (map del_record bs)) = DEL_RECORD * length bs"
  by (induction bs) simp_all

lemma drop_log: "drop (DEL_RECORD * n) (concat (map del_record bs)) = concat (map del_record (drop n bs))"
proof (induction n arbitrary: bs)
  case (Suc n)
  then show ?case by (cases bs) simp_all
qed simp

lemma get_logged:
  assumes log: "log_at p fs bs" and k: "all_granted k" and p: "p = path_of (get_del_file r deldir base)"
  shows "get_from_del_file k r deldir fs base (int n) cur =
    (if n < length bs \<and> del_time (tb_ctime (bs ! n)) \<le> cur then int n else -1)"
proof (cases "fs_file fs p")
  case None
  with log k p show ?thesis by (simp add: get_from_del_file_def log_at_def contents_def sys_stat_def)
next
  case (Some i)
  let ?d = "concat (map del_record bs)"
  have d: "file_data k p i fs = ?d" "in_data (fs_inode fs i) = ?d"
    using log k Some by (simp_all add: log_at_def contents_def file_data_def)
  have max: "length ?d div DEL_RECORD = length bs"
    unfolding length_log by (simp add: DEL_RECORD_def)
  show ?thesis
  proof (cases "n < length bs")
    case True
    then have "drop (DEL_RECORD * n) ?d = del_record (bs ! n) @ concat (map del_record (drop (Suc n) bs))"
      unfolding drop_log by (simp flip: Cons_nth_drop_Suc)
    moreover have "\<not> length ?d \<le> DEL_RECORD * n" using True unfolding length_log by (simp add: DEL_RECORD_def)
    ultimately show ?thesis
      using True max d p Some k rec_dtime_record [of "bs ! n"]
      by (simp add: get_from_del_file_def sys_stat_def sys_open_def Let_def read_full)
  next
    case False
    with max d p Some k show ?thesis by (simp add: get_from_del_file_def sys_stat_def Let_def)
  qed
qed

lemma digits_val_less: "digits_val s acc < (acc + 1) * 10 ^ length s"
proof (induction s arbitrary: acc)
  case (Cons c s)
  have "digit_val c < 10" if "is_digit c" using that by (auto simp: is_digit_def digit_val_def)
  show ?case
  proof (cases "is_digit c")
    case True
    then have "(10 * acc + digit_val c + 1) * 10 ^ length s \<le> (10 * acc + 10) * 10 ^ length s"
      using \<open>is_digit c \<Longrightarrow> digit_val c < 10\<close> by (intro mult_right_mono) simp_all
    from less_le_trans [OF Cons.IH this] True show ?thesis by (simp add: algebra_simps)
  next
    case False
    have "1 \<le> (10::nat) ^ length (c # s)" by (rule one_le_power) simp
    from mult_le_mono2 [OF this, of "acc + 1"] have "acc + 1 \<le> (acc + 1) * 10 ^ length (c # s)"
      by (simp only: mult_1_right)
    then have "acc < (acc + 1) * 10 ^ length (c # s)" by linarith
    with False show ?thesis by simp
  qed
qed simp

lemma atoi_less: "atoi s < 10 ^ length s"
proof -
  have len: "length (dropWhile is_space s) \<le> length s" by (rule length_dropWhile_le)
  have small: "digits_val t 0 < 10 ^ length s" if "length t \<le> length s" for t
  proof -
    have "digits_val t 0 < 10 ^ length t" using digits_val_less [of t 0] by simp
    also have "\<dots> \<le> 10 ^ length s" using that by (simp add: power_increasing)
    finally show ?thesis .
  qed
  have neg: "- int n < 10 ^ m" for n m by (rule le_less_trans [of _ 0]) simp_all
  show ?thesis
  proof (cases "dropWhile is_space s")
    case Nil
    then show ?thesis unfolding atoi_def Nil by simp
  next
    case (Cons c cs)
    with len have "length cs \<le> length s" "length (c # cs) \<le> length s" by simp_all
    from small [OF this(1)] small [OF this(2)] Cons show ?thesis
      by (simp add: atoi_def neg del: digits_val.simps)
  qed
qed

lemma del_time_less: "del_time t < 10 ^ 9"
proof -
  have "del_time t < 10 ^ length (take 9 (show_int t))" unfolding del_time_def by (rule atoi_less)
  also have "\<dots> \<le> (10::int) ^ 9" by (rule power_increasing) simp_all
  finally show ?thesis .
qed

text \<open>Since 2001 the time has ten digits: no record is ever found by it.\<close>

lemma ten_digits_not_found: "10 ^ 9 \<le> lasttime \<Longrightarrow> first_at lasttime i bs = None"
  using del_time_less by (induction bs arbitrary: i) (auto simp: not_le [symmetric])

end
