(* ===== verification/LocalFile.thy ===== *)
theory LocalFile
  imports FileSys DelFile FileFilter MD5 Timer TimeStamp
begin

text \<open>
  \<open>src/network/vfs_localfile.c\<close>: the files of this machine.  A file arrives in a temporary
  file below \<open>.svn\<close>, is checked against its digest and renamed to its place; a deleted file
  is renamed, logged and removed later by a delayed call.  The fixed buffers of 256 bytes
  are not bounded in the code (\<open>sprintf\<close>, \<open>strcat\<close>): the model is that of names that fit.
\<close>

definition LOCALFILE_OK :: int where "LOCALFILE_OK = 0"
definition LOCALFILE_MD5_E :: int where "LOCALFILE_MD5_E = 2"
definition LOCALFILE_DIR_E :: int where "LOCALFILE_DIR_E = 4"
definition LOCALFILE_FILE_E :: int where "LOCALFILE_FILE_E = 5"
definition LOCALFILE_OPEN_E :: int where "LOCALFILE_OPEN_E = 6"
definition LOCALFILE_RENAME_E :: int where "LOCALFILE_RENAME_E = 7"

definition DISK_OK :: int where "DISK_OK = 0"
definition DISK_SPACE_TOO_SMALL :: int where "DISK_SPACE_TOO_SMALL = 1"
definition DISK_ERR :: int where "DISK_ERR = 2"

lemmas localfile_codes = LOCALFILE_OK_def LOCALFILE_MD5_E_def LOCALFILE_DIR_E_def LOCALFILE_FILE_E_def
  LOCALFILE_OPEN_E_def LOCALFILE_RENAME_E_def DISK_OK_def DISK_SPACE_TOO_SMALL_def DISK_ERR_def

datatype filekind = VIDEOFILE | VIDEOTMP

text \<open>
  What the functions read: configuration, the machine's role and state, the kernel, the time
  as text, the answers of \<open>statfs\<close> (free blocks and block size) and of \<open>readdir\<close> with \<open>stat\<close>
  (each entry with its change time), and what the stack holds where the digest is computed.
\<close>

record local_world =
  lw_env :: env
  lw_kernel :: kernel
  lw_role :: role
  lw_stat :: server_stat
  lw_conf :: "string \<Rightarrow> string option"
  lw_uid :: u32
  lw_gid :: u32
  lw_real_rm_time :: int
  lw_mindiskfree :: u64
  lw_reload_time :: int
  lw_strtime :: string
  lw_statfs :: "path \<Rightarrow> (u64 \<times> u64) option"
  lw_readdir :: "string \<Rightarrow> (string \<times> int option) list option"
  lw_junk :: "byte list"

record local_state =
  lo_fs :: filesys
  lo_timers :: timer_state
  lo_index :: u32
  lo_stamps :: stamp_file

text \<open>\<open>printf\<close> of a missing string.\<close>

definition show_opt :: "string option \<Rightarrow> string" where
  "show_opt s = (case s of None \<Rightarrow> ''(null)'' | Some t \<Rightarrow> t)"

section \<open>Names\<close>

definition get_tmpstr :: "local_world \<Rightarrow> u32 \<Rightarrow> string \<times> u32" where
  "get_tmpstr w i = (take 31 (''_'' @ lw_strtime w @ ''_'' @ show_int (sint i)), i + 1)"

definition get_localdir :: "local_world \<Rightarrow> t_task_base \<Rightarrow> string option" where
  "get_localdir w task =
     (case get_dir1_dir2 (tb_filename task) of None \<Rightarrow> None
      | Some (dir1, dir2) \<Rightarrow>
        if lw_role w = ROLE_CS then
          Some (show_opt (lw_conf w ''vfs_cs_datadir'') @ ''/'' @ show_int dir1 @ ''/'' @ show_int dir2 @ ''/''
            @ tb_src_domain task @ ''/flvdownload/'')
        else if lw_role w = ROLE_FCS then
          Some (show_opt (lw_conf w ''vfs_fcs_datadir'') @ ''/'' @ show_int dir1 @ ''/'' @ show_int dir2 @ ''/'')
        else Some [])"

text \<open>The directory, and the name behind the last slash of the file name.\<close>

definition local_name :: "local_world \<Rightarrow> t_task_base \<Rightarrow> (string \<times> string) option" where
  "local_name w task =
     (case get_localdir w task of None \<Rightarrow> None
      | Some outdir \<Rightarrow>
        (case strrchr (tb_filename task) (CHR ''/'') of None \<Rightarrow> None
         | Some k \<Rightarrow> Some (outdir, drop (Suc k) (tb_filename task))))"

text \<open>\<open>basename\<close> of \<open>libgen.h\<close>.\<close>

definition posix_basename :: "string \<Rightarrow> string" where
  "posix_basename s =
     (if s = [] then ''.''
      else let t = rev (dropWhile (\<lambda>c. c = CHR ''/'') (rev s)) in
        if t = [] then ''/''
        else case strrchr t (CHR ''/'') of None \<Rightarrow> t | Some k \<Rightarrow> drop (Suc k) t)"

section \<open>Directories\<close>

definition set_owner :: "local_world \<Rightarrow> inode \<Rightarrow> inode" where
  "set_owner w i = i\<lparr>in_uid := lw_uid w, in_gid := lw_gid w\<rparr>"

text \<open>The prefixes of a name that end before a slash other than the first character.\<close>

definition slash_prefixes :: "string \<Rightarrow> string list" where
  "slash_prefixes s = map (\<lambda>i. take i s) (filter (\<lambda>i. s ! i = CHR ''/'') [1..<length s])"

fun make_dirs :: "local_world \<Rightarrow> string list \<Rightarrow> filesys \<Rightarrow> bool \<times> filesys" where
  "make_dirs w [] fs = (True, fs)"
| "make_dirs w (d # ds) fs =
     (let p = path_of d in
      if exists p fs then make_dirs w ds fs
      else case sys_mkdir (lw_kernel w) p fs of
        (False, fs) \<Rightarrow> (False, fs)
      | (True, fs) \<Rightarrow> make_dirs w ds fs)"

text \<open>The owner of a directory is not kept, so only the last \<open>chown\<close> can be seen.\<close>

definition createdir :: "local_world \<Rightarrow> string \<Rightarrow> filesys \<Rightarrow> int \<times> filesys" where
  "createdir w dir fs =
     (case make_dirs w (slash_prefixes dir) fs of
        (False, fs) \<Rightarrow> (-1, fs)
      | (True, fs) \<Rightarrow> (0, sys_set (lw_kernel w) (set_owner w) (path_of dir) fs))"

definition check_disk_space :: "local_world \<Rightarrow> t_task_base \<Rightarrow> filesys \<Rightarrow> int \<times> filesys" where
  "check_disk_space w base fs =
     (case get_localdir w base of None \<Rightarrow> (LOCALFILE_DIR_E, fs)
      | Some d \<Rightarrow>
        let p = path_of d;
            (ret, fs) = (if \<not> exists p fs then createdir w d fs else (0, fs))
        in if ret \<noteq> 0 then (LOCALFILE_DIR_E, fs)
           else (case lw_statfs w p of None \<Rightarrow> (DISK_ERR, fs)
             | Some (bfree, bsize) \<Rightarrow>
               if lw_mindiskfree w > bfree * bsize then (DISK_SPACE_TOO_SMALL, fs) else (DISK_OK, fs)))"

section \<open>Checking a file\<close>

definition file_for_digest :: "local_world \<Rightarrow> path \<Rightarrow> filesys \<Rightarrow> byte list option" where
  "file_for_digest w p fs =
     (if k_grants (lw_kernel w) S_open p \<and> k_grants (lw_kernel w) S_read p then contents p fs else None)"

definition fix_mode :: "u32 \<Rightarrow> u32" where
  "fix_mode m = (if m AND 0x1A4 \<noteq> 0x1A4 then 0x1B4 else m)"

definition check_localfile_md5 ::
  "local_world \<Rightarrow> t_task_base \<Rightarrow> filekind \<Rightarrow> filesys \<Rightarrow> int \<times> t_task_base \<times> filesys" where
  "check_localfile_md5 w task type fs =
     (case local_name w task of None \<Rightarrow> (LOCALFILE_DIR_E, task, fs)
      | Some (outdir, t) \<Rightarrow>
        let file = (case type of VIDEOFILE \<Rightarrow> outdir @ t | VIDEOTMP \<Rightarrow> take 255 (tb_tmpfile task));
            p = path_of file
        in case getfilemd5view (lw_junk w) (file_for_digest w p fs) of
          None \<Rightarrow> (LOCALFILE_FILE_E, task, fs)
        | Some md5 \<Rightarrow>
          if take 31 md5 \<noteq> take 31 (tb_filemd5 task) then (LOCALFILE_MD5_E, task, fs)
          else
            let fs = sys_set (lw_kernel w) (\<lambda>i. i\<lparr>in_mtime := tb_mtime task\<rparr>) p fs;
                task = task\<lparr>tb_fmode := fix_mode (tb_fmode task)\<rparr>;
                fs = sys_set (lw_kernel w) (\<lambda>i. i\<lparr>in_mode := tb_fmode task\<rparr>) p fs
            in (LOCALFILE_OK, task, fs))"

section \<open>Opening\<close>

definition open_localfile_4_read :: "local_world \<Rightarrow> t_task_base \<Rightarrow> filesys \<Rightarrow> int \<times> nat option" where
  "open_localfile_4_read w task fs =
     (case local_name w task of None \<Rightarrow> (LOCALFILE_DIR_E, None)
      | Some (outdir, t) \<Rightarrow>
        (case sys_open (lw_kernel w) (path_of (outdir @ t)) fs of
           None \<Rightarrow> (LOCALFILE_OPEN_E, None)
         | Some i \<Rightarrow> (LOCALFILE_OK, Some i)))"

text \<open>
  The third component is the open file; a failed \<open>open\<close> leaves a negative descriptor, an
  earlier return the descriptor as it was.
\<close>

definition open_tmp_localfile_4_write ::
  "local_world \<Rightarrow> t_task_base \<Rightarrow> local_state \<Rightarrow> int \<times> t_task_base \<times> nat option \<times> local_state" where
  "open_tmp_localfile_4_write w task s =
     (let task = task\<lparr>tb_fmode := fix_mode (tb_fmode task)\<rparr>; k = lw_kernel w; now = e_now (lw_env w) in
      if tb_offsize task > 0 then
        (case sys_creat k now (tb_fmode task) (path_of (tb_tmpfile task)) (lo_fs s) of
           (None, fs) \<Rightarrow> (LOCALFILE_OPEN_E, task, None, s\<lparr>lo_fs := fs\<rparr>)
         | (Some i, fs) \<Rightarrow> (LOCALFILE_OK, task, Some i, s\<lparr>lo_fs := fs\<rparr>))
      else
        (case get_localdir w task of None \<Rightarrow> (LOCALFILE_DIR_E, task, None, s)
         | Some d \<Rightarrow>
           let outdir = d @ ''.svn/'';
               (ret, fs) = (if \<not> exists (path_of outdir) (lo_fs s) then createdir w outdir (lo_fs s) else (0, lo_fs s));
               s = s\<lparr>lo_fs := fs\<rparr>
           in if ret \<noteq> 0 then (LOCALFILE_DIR_E, task, None, s)
              else case strrchr (tb_filename task) (CHR ''/'') of
                None \<Rightarrow> (LOCALFILE_DIR_E, task, None, s)
              | Some k' \<Rightarrow>
                let t = drop (Suc k') (tb_filename task);
                    (tmpstr, i) = get_tmpstr w (lo_index s);
                    s = s\<lparr>lo_index := i\<rparr>;
                    out = outdir @ ''.'' @ t @ tmpstr @ ''.vfs''
                in case sys_creat k now (tb_fmode task) (path_of out) (lo_fs s) of
                     (None, fs) \<Rightarrow> (LOCALFILE_OPEN_E, task, None, s\<lparr>lo_fs := fs\<rparr>)
                   | (Some i, fs) \<Rightarrow>
                     (LOCALFILE_OK, task\<lparr>tb_tmpfile := take 255 out\<rparr>, Some i, s\<lparr>lo_fs := fs\<rparr>)))"

section \<open>Publishing, deleting, linking\<close>

text \<open>\<open>fd\<close> is the descriptor; its \<open>close\<close> has no effect on the files.\<close>

definition close_tmp_check_mv ::
  "local_world \<Rightarrow> t_task_base \<Rightarrow> int \<Rightarrow> local_state \<Rightarrow> int \<times> t_task_base \<times> local_state" where
  "close_tmp_check_mv w task fd s =
     (if fd < 0 then (LOCALFILE_OPEN_E, task, s)
      else
        let (ret, task, fs) = check_localfile_md5 w task VIDEOTMP (lo_fs s);
            s = s\<lparr>lo_fs := fs\<rparr>
        in if ret \<noteq> LOCALFILE_OK then (ret, task, s)
           else case local_name w task of
             None \<Rightarrow> (LOCALFILE_DIR_E, task, s)
           | Some (outdir, t) \<Rightarrow>
             let dst = path_of (take 255 (outdir @ ''/'' @ t)) in
             case sys_rename (lw_kernel w) (path_of (tb_tmpfile task)) dst (lo_fs s) of
               (False, fs) \<Rightarrow> (LOCALFILE_RENAME_E, task, s\<lparr>lo_fs := fs\<rparr>)
             | (True, fs) \<Rightarrow>
               let st = (if lw_role w = ROLE_CS then snd (set_cs_time_stamp (lw_env w) (lw_stat w) task (lo_stamps s))
                         else lo_stamps s)
               in (LOCALFILE_OK, task,
                   s\<lparr>lo_fs := sys_set (lw_kernel w) (set_owner w) dst fs, lo_stamps := st\<rparr>))"

definition real_rm_file :: "local_world \<Rightarrow> string \<Rightarrow> local_state \<Rightarrow> local_state" where
  "real_rm_file w name s = s\<lparr>lo_fs := snd (sys_unlink (lw_kernel w) (path_of name) (lo_fs s))\<rparr>"

text \<open>The number that stands for \<open>real_rm_file\<close> among the call-backs.\<close>

definition REAL_RM :: nat where "REAL_RM = 1"

definition rm_timer :: "local_world \<Rightarrow> string \<Rightarrow> t_vfs_timer" where
  "rm_timer w name = \<lparr>vt_cb = REAL_RM, vt_args = name, vt_next_time = 0, vt_span_time = lw_real_rm_time w, vt_loop = False\<rparr>"

definition delete_localfile :: "local_world \<Rightarrow> t_task_base \<Rightarrow> local_state \<Rightarrow> int \<times> local_state" where
  "delete_localfile w task s =
     (case local_name w task of None \<Rightarrow> (LOCALFILE_DIR_E, s)
      | Some (outdir, t) \<Rightarrow>
        let name = outdir @ t; rmfile = take 255 (name @ ''.tmp4rm'') in
        case sys_rename (lw_kernel w) (path_of name) (path_of rmfile) (lo_fs s) of
          (False, fs) \<Rightarrow> (LOCALFILE_RENAME_E, s\<lparr>lo_fs := fs\<rparr>)
        | (True, fs) \<Rightarrow>
          let fs = snd (add_2_del_file (lw_kernel w) (lw_env w) (lw_role w) (lw_conf w ''vfs_deldir'') task fs);
              tm = snd (add_to_delay_task (lw_env w) (rm_timer w rmfile) (lo_timers s))
          in (LOCALFILE_OK, s\<lparr>lo_fs := fs, lo_timers := tm\<rparr>))"

definition link_file :: "local_world \<Rightarrow> path \<Rightarrow> path \<Rightarrow> filesys \<Rightarrow> filesys" where
  "link_file w src dst fs =
     (let (ok, fs) = (if exists dst fs then sys_unlink (lw_kernel w) dst fs else (True, fs))
      in if \<not> ok then fs else snd (sys_link (lw_kernel w) src dst fs))"

definition localfile_link_task :: "local_world \<Rightarrow> t_task_base \<Rightarrow> filesys \<Rightarrow> filesys" where
  "localfile_link_task w task fs =
     (case get_localdir w task of None \<Rightarrow> fs
      | Some outdir \<Rightarrow>
        let src = path_of (take 255 (outdir @ ''/'' @ posix_basename (tb_filename task)));
            dst = path_of (take 255 (outdir @ ''/'' @ posix_basename (tb_linkfile task)))
        in case (sys_stat (lw_kernel w) src fs, sys_stat (lw_kernel w) dst fs) of
             (None, None) \<Rightarrow> fs
           | (Some i, Some j) \<Rightarrow>
               if i = j then fs
               else if tb_okindex task = 1 then link_file w dst src fs else link_file w src dst fs
           | (None, Some _) \<Rightarrow> link_file w dst src fs
           | (Some _, None) \<Rightarrow> link_file w src dst fs)"

definition get_localfile_stat :: "local_world \<Rightarrow> t_task_base \<Rightarrow> filesys \<Rightarrow> int \<times> t_task_base" where
  "get_localfile_stat w task fs =
     (case local_name w task of None \<Rightarrow> (LOCALFILE_DIR_E, task)
      | Some (outdir, t) \<Rightarrow>
        let p = path_of (outdir @ t) in
        case sys_stat (lw_kernel w) p fs of None \<Rightarrow> (LOCALFILE_DIR_E, task)
        | Some i \<Rightarrow>
          let n = fs_inode fs i;
              task = task\<lparr>tb_mtime := in_mtime n, tb_ctime := in_ctime n,
                tb_fsize := int (length (in_data n)), tb_fmode := in_mode n OR 0x8000\<rparr>
          in case getfilemd5view (lw_junk w) (file_for_digest w p fs) of
               None \<Rightarrow> (LOCALFILE_FILE_E, task)
             | Some md5 \<Rightarrow> (LOCALFILE_OK, task\<lparr>tb_filemd5 := md5\<rparr>))"

section \<open>The newest file of a directory\<close>

fun newest_entry :: "filter_state \<Rightarrow> int \<Rightarrow> (string \<times> int option) list \<Rightarrow> int" where
  "newest_entry flt maxtime [] = maxtime"
| "newest_entry flt maxtime ((name, st) # es) =
     (if take 1 name = ''.'' then newest_entry flt maxtime es
      else if check_file_filter name flt \<noteq> 0 then newest_entry flt maxtime es
      else case st of
        None \<Rightarrow> newest_entry flt maxtime es
      | Some ctime \<Rightarrow> newest_entry flt (if ctime \<ge> maxtime then ctime else maxtime) es)"

definition get_dir_lasttime :: "local_world \<Rightarrow> filter_state \<Rightarrow> string \<Rightarrow> int" where
  "get_dir_lasttime w flt dir =
     (let now = e_now (lw_env w) - lw_reload_time w in
      case lw_readdir w dir of None \<Rightarrow> now
      | Some es \<Rightarrow> let maxtime = newest_entry flt 0 es in if maxtime \<noteq> 0 then maxtime else now)"

definition get_fcs_dir_lasttime :: "local_world \<Rightarrow> filter_state \<Rightarrow> int \<Rightarrow> int \<Rightarrow> int" where
  "get_fcs_dir_lasttime w flt d1 d2 =
     get_dir_lasttime w flt (show_opt (lw_conf w ''vfs_fcs_datadir'') @ ''/'' @ show_int d1 @ ''/'' @ show_int d2 @ ''/'')"

definition get_cs_dir_lasttime :: "local_world \<Rightarrow> filter_state \<Rightarrow> int \<Rightarrow> int \<Rightarrow> int \<Rightarrow> int" where
  "get_cs_dir_lasttime w flt d1 d2 domain =
     get_dir_lasttime w flt (show_opt (lw_conf w ''vfs_cs_datadir'') @ ''/'' @ show_int d1 @ ''/'' @ show_int d2
       @ ''/fcs'' @ show_int domain @ ''.56.com/flvdownload/'')"

section \<open>Publishing is checked\<close>

text \<open>Where the file of a task belongs.\<close>

definition place_of :: "local_world \<Rightarrow> t_task_base \<Rightarrow> path option" where
  "place_of w task = map_option (\<lambda>(outdir, t). path_of (outdir @ t)) (local_name w task)"

definition names_fit :: "local_world \<Rightarrow> t_task_base \<Rightarrow> bool" where
  "names_fit w task \<longleftrightarrow> length (tb_tmpfile task) < 256 \<and>
     (case local_name w task of None \<Rightarrow> True | Some (outdir, t) \<Rightarrow> length outdir + length t + 8 < 256)"

lemma path_of_append: "x = [] \<or> last x = CHR ''/'' \<Longrightarrow> path_of (x @ CHR ''/'' # t) = path_of (x @ t)"
proof (cases x rule: rev_cases)
  case Nil
  then show ?thesis using path_of_slash [of "[]" t] by (simp add: path_of_def)
next
  case (snoc y c)
  moreover assume "x = [] \<or> last x = CHR ''/''"
  ultimately have x: "x = y @ ''/''" by simp
  have "path_of ((y @ ''/'') @ CHR ''/'' # t) = path_of (y @ CHR ''/'' # CHR ''/'' # t)" by simp
  also have "\<dots> = path_of y @ path_of (CHR ''/'' # t)" by (rule path_of_slash)
  also have "path_of (CHR ''/'' # t) = path_of t" by (simp add: path_of_def)
  also have "path_of y @ path_of t = path_of (y @ CHR ''/'' # t)" by (rule path_of_slash [symmetric])
  finally show ?thesis unfolding x by simp
qed

lemma localdir_slash: "get_localdir w task = Some d \<Longrightarrow> d = [] \<or> last d = CHR ''/''"
  by (auto simp: get_localdir_def split: option.splits if_splits)

lemma local_nameD:
  assumes "local_name w task = Some (outdir, t)" and "names_fit w task"
  shows "get_localdir w task = Some outdir"
    and "path_of (take 255 (outdir @ CHR ''/'' # t)) = path_of (outdir @ t)"
    and "take 255 (outdir @ t @ ''.tmp4rm'') = outdir @ t @ ''.tmp4rm''"
proof -
  show d: "get_localdir w task = Some outdir"
    using assms(1) by (auto simp: local_name_def split: option.splits)
  have l: "length (outdir @ CHR ''/'' # t) \<le> 255" "length (outdir @ t @ ''.tmp4rm'') \<le> 255"
    using assms by (simp_all add: names_fit_def)
  show "path_of (take 255 (outdir @ CHR ''/'' # t)) = path_of (outdir @ t)"
    unfolding take_all [OF l(1)] by (rule path_of_append) (rule localdir_slash [OF d])
  show "take 255 (outdir @ t @ ''.tmp4rm'') = outdir @ t @ ''.tmp4rm''" by (rule take_all [OF l(2)])
qed

lemma check_md5_effect:
  assumes "check_localfile_md5 w task type fs = (ret, task', fs')"
  shows "contents q fs' = contents q fs" and "fs_file fs' = fs_file fs" and "fs_dir fs' = fs_dir fs"
    and "task' = task\<lparr>tb_fmode := tb_fmode task'\<rparr>"
  using assms
  by (auto simp: check_localfile_md5_def Let_def contents_sys_set split: option.splits prod.splits if_splits)

definition digest_of :: "byte list \<Rightarrow> string" where
  "digest_of d = encode_hex (md5_ref d)"

lemma check_md5_iff:
  assumes "length (lw_junk w) = 64" and "check_localfile_md5 w task VIDEOTMP fs = (LOCALFILE_OK, task', fs')"
  shows "\<exists>d. contents (path_of (take 255 (tb_tmpfile task))) fs = Some d \<and>
    take 31 (digest_of d) = take 31 (tb_filemd5 task)"
proof -
  let ?f = "file_for_digest w (path_of (take 255 (tb_tmpfile task))) fs"
  have v: "getfilemd5view (lw_junk w) ?f = map_option digest_of ?f"
    by (cases ?f) (simp_all add: getfilemd5view_def getfilemd5_ok [OF assms(1)] digest_of_def)
  show ?thesis
    using assms(2) v
    by (auto simp: check_localfile_md5_def localfile_codes Let_def file_for_digest_def split: option.splits prod.splits if_splits)
qed

lemma local_name_fmode [simp]:
  "local_name w (task\<lparr>tb_fmode := m\<rparr>) = local_name w task"
  by (simp add: local_name_def get_localdir_def split: option.split prod.split)

lemma close_refused:
  assumes "close_tmp_check_mv w task fd s = (ret, task', s')" and "ret \<noteq> LOCALFILE_OK"
  shows "contents q (lo_fs s') = contents q (lo_fs s)"
  using assms check_md5_effect(1) [of w task VIDEOTMP "lo_fs s"]
  by (auto simp: close_tmp_check_mv_def Let_def split: option.splits prod.splits if_splits bool.splits dest!: rename_refused)

lemma close_published:
  assumes junk: "length (lw_junk w) = 64" and fit: "names_fit w task"
    and run: "close_tmp_check_mv w task fd s = (LOCALFILE_OK, task', s')"
    and place: "place_of w task = Some dst" and neq: "path_of (tb_tmpfile task) \<noteq> dst"
  shows "\<exists>d. contents (path_of (tb_tmpfile task)) (lo_fs s) = Some d \<and> contents dst (lo_fs s') = Some d \<and>
      take 31 (digest_of d) = take 31 (tb_filemd5 task)"
    and "q \<noteq> path_of (tb_tmpfile task) \<Longrightarrow> q \<noteq> dst \<Longrightarrow> contents q (lo_fs s') = contents q (lo_fs s)"
proof -
  let ?tmp = "path_of (tb_tmpfile task)"
  have tmp: "take 255 (tb_tmpfile task) = tb_tmpfile task" using fit by (simp add: names_fit_def)
  obtain outdir t where ln: "local_name w task = Some (outdir, t)" and dst: "dst = path_of (outdir @ t)"
    using place by (auto simp: place_of_def)
  obtain r task1 fs1 where c: "check_localfile_md5 w task VIDEOTMP (lo_fs s) = (r, task1, fs1)"
    by (cases "check_localfile_md5 w task VIDEOTMP (lo_fs s)")
  note eff = check_md5_effect [OF c]
  have r: "r = LOCALFILE_OK" using run c by (rule_tac ccontr) (simp add: close_tmp_check_mv_def localfile_codes Let_def split: if_splits)
  have ln1: "local_name w task1 = Some (outdir, t)" using ln eff(4) by (metis local_name_fmode)
  have tmp1: "tb_tmpfile task1 = tb_tmpfile task" using eff(4) by (metis t_task_base.simps(2) t_task_base.surjective t_task_base.update_convs(17) t_task_base.ext_inject)
  obtain fs2 where mv: "sys_rename (lw_kernel w) ?tmp dst fs1 = (True, fs2)"
      and fs': "lo_fs s' = sys_set (lw_kernel w) (set_owner w) dst fs2"
    using run c r ln1 tmp1 local_nameD(2) [OF ln fit] dst
    by (auto simp: close_tmp_check_mv_def localfile_codes Let_def split: prod.splits bool.splits if_splits)
  have keep: "contents q (lo_fs s') = contents q fs2" for q
    unfolding fs' by (rule contents_sys_set) (simp add: set_owner_def)
  show "\<exists>d. contents ?tmp (lo_fs s) = Some d \<and> contents dst (lo_fs s') = Some d \<and>
      take 31 (digest_of d) = take 31 (tb_filemd5 task)"
    using check_md5_iff [OF junk c [unfolded r]] tmp rename_contents(1) [OF mv neq] eff(1) keep by simp
  show "q \<noteq> ?tmp \<Longrightarrow> q \<noteq> dst \<Longrightarrow> contents q (lo_fs s') = contents q (lo_fs s)"
    using rename_contents(2) [OF mv neq] eff(1) keep by simp
qed

section \<open>Links\<close>

lemma link_file_names:
  assumes "all_granted (lw_kernel w)" and "fs_file fs src = Some i" and "src \<noteq> dst"
    and "dir_there (butlast dst) fs" and "\<not> fs_dir fs dst" and "dst \<noteq> []"
  shows "fs_file (link_file w src dst fs) = (fs_file fs)(dst := Some i)"
  using assms
  by (cases "fs_file fs dst") (auto simp: link_file_def sys_unlink_def sys_link_def exists_def dir_there_def Let_def)

text \<open>The two names of a link task.\<close>

definition link_names :: "local_world \<Rightarrow> t_task_base \<Rightarrow> (path \<times> path) option" where
  "link_names w task = map_option (\<lambda>outdir.
     (path_of (take 255 (outdir @ ''/'' @ posix_basename (tb_filename task))),
      path_of (take 255 (outdir @ ''/'' @ posix_basename (tb_linkfile task))))) (get_localdir w task)"

definition linkable :: "path \<Rightarrow> filesys \<Rightarrow> bool" where
  "linkable p fs \<longleftrightarrow> p \<noteq> [] \<and> dir_there (butlast p) fs \<and> \<not> fs_dir fs p"

lemma link_task_names:
  assumes "all_granted (lw_kernel w)" and "link_names w task = Some (src, dst)"
    and "linkable src fs" and "linkable dst fs" and "fs_file fs src \<noteq> None \<or> fs_file fs dst \<noteq> None"
  shows "fs_file (localfile_link_task w task fs) =
    (let i = (case (fs_file fs src, fs_file fs dst) of
                (Some i, Some j) \<Rightarrow> if tb_okindex task = 1 then Some j else Some i
              | (Some i, None) \<Rightarrow> Some i
              | (None, j) \<Rightarrow> j)
     in (fs_file fs)(src := i, dst := i))"
proof (cases "src = dst")
  case True
  with assms show ?thesis
    by (auto simp: localfile_link_task_def link_names_def Let_def sys_stat_def fun_eq_iff)
next
  case False
  obtain outdir where "get_localdir w task = Some outdir"
    "src = path_of (take 255 (outdir @ ''/'' @ posix_basename (tb_filename task)))"
    "dst = path_of (take 255 (outdir @ ''/'' @ posix_basename (tb_linkfile task)))"
    using assms(2) by (auto simp: link_names_def)
  then have e: "localfile_link_task w task fs =
      (case (fs_file fs src, fs_file fs dst) of
         (None, None) \<Rightarrow> fs
       | (Some i, Some j) \<Rightarrow> if i = j then fs
           else if tb_okindex task = 1 then link_file w dst src fs else link_file w src dst fs
       | (None, Some _) \<Rightarrow> link_file w dst src fs
       | (Some _, None) \<Rightarrow> link_file w src dst fs)"
    using assms(1) unfolding localfile_link_task_def Let_def
    by (simp add: sys_stat_def del: take_append split: option.split)
  have l: "fs_file fs src = Some i \<Longrightarrow> fs_file (link_file w src dst fs) = (fs_file fs)(dst := Some i)"
    "fs_file fs dst = Some i \<Longrightarrow> fs_file (link_file w dst src fs) = (fs_file fs)(src := Some i)" for i
    using link_file_names [OF assms(1)] assms(3,4) False by (auto simp: linkable_def)
  show ?thesis
    unfolding e using l assms(5) False
    by (cases "fs_file fs src"; cases "fs_file fs dst") (auto simp: fun_eq_iff Let_def)
qed

section \<open>The newest file\<close>

definition served_times :: "filter_state \<Rightarrow> (string \<times> int option) list \<Rightarrow> int list" where
  "served_times flt es = List.map_filter (\<lambda>(name, st).
     if take 1 name \<noteq> ''.'' \<and> check_file_filter name flt = 0 then st else None) es"

lemma newest_entry_max: "newest_entry flt m es = fold max (served_times flt es) m"
  by (induction flt m es rule: newest_entry.induct)
    (auto simp: served_times_def map_filter_simps max_def split: option.split)

lemma fold_max: "fold max xs (m :: int) = Max (insert m (set xs))"
proof (induction xs arbitrary: m)
  case (Cons x xs)
  have "fold max (x # xs) m = Max (insert (max x m) (set xs))" using Cons.IH by simp
  also have "\<dots> = Max (insert m (set (x # xs)))"
    by (cases "set xs = {}") (simp_all add: Max_insert max.assoc max.left_commute)
  finally show ?case .
qed simp

lemma dir_lasttime_newest:
  assumes "lw_readdir w dir = Some es" and "t \<in> set (served_times flt es)" and "0 < t"
  shows "get_dir_lasttime w flt dir = Max (set (served_times flt es))"
proof -
  let ?T = "set (served_times flt es)"
  have ne: "?T \<noteq> {}" using assms(2) by auto
  have "t \<le> Max ?T" using assms(2) by simp
  then have pos: "0 < Max ?T" using assms(3) by simp
  have "newest_entry flt 0 es = Max (insert 0 ?T)" unfolding newest_entry_max fold_max ..
  also have "\<dots> = Max ?T" using ne pos by (simp add: Max_insert max_def)
  finally show ?thesis using pos assms(1) by (simp add: get_dir_lasttime_def Let_def)
qed

section \<open>Directories exist afterwards\<close>

lemma exists_mkdir: "exists q fs \<Longrightarrow> exists q (snd (sys_mkdir k p fs))"
  by (auto simp: exists_def sys_mkdir_def)

lemma make_dirs_ok:
  "make_dirs w ds fs = (True, fs') \<Longrightarrow>
     (\<forall>d\<in>set ds. exists (path_of d) fs') \<and> (\<forall>q. exists q fs \<longrightarrow> exists q fs') \<and> fs_file fs' = fs_file fs \<and> fs_inode fs' = fs_inode fs"
proof (induction ds arbitrary: fs)
  case (Cons d ds)
  show ?case
  proof (cases "exists (path_of d) fs")
    case True
    with Cons show ?thesis by (auto simp: Let_def)
  next
    case False
    then obtain fs1 where m: "sys_mkdir (lw_kernel w) (path_of d) fs = (True, fs1)"
        and r: "make_dirs w ds fs1 = (True, fs')"
      using Cons.prems by (auto simp: Let_def split: prod.splits bool.splits)
    have "exists (path_of d) fs1" using m by (auto simp: sys_mkdir_def exists_def split: if_splits)
    moreover have "exists q fs \<longrightarrow> exists q fs1" for q using exists_mkdir [of q fs "lw_kernel w" "path_of d"] m by simp
    moreover have "fs_file fs1 = fs_file fs" "fs_inode fs1 = fs_inode fs" using m by (auto simp: sys_mkdir_def split: if_splits)
    ultimately show ?thesis using Cons.IH [OF r] by auto
  qed
qed simp

text \<open>A name that ends with a slash is one of its own prefixes.\<close>

lemma path_of_last_slash: "path_of (s @ ''/'') = path_of s"
  using path_of_slash [of s "[]"] by (simp add: path_of_def)

lemma createdir_ok:
  assumes "createdir w (s @ ''/'') fs = (0, fs')" and "s \<noteq> []"
  shows "exists (path_of (s @ ''/'')) fs'" and "contents q fs' = contents q fs"
proof -
  obtain fs1 where m: "make_dirs w (slash_prefixes (s @ ''/'')) fs = (True, fs1)"
      and fs': "fs' = sys_set (lw_kernel w) (set_owner w) (path_of (s @ ''/'')) fs1"
    using assms(1) by (auto simp: createdir_def split: prod.splits bool.splits)
  have "length s \<in> set (filter (\<lambda>i. (s @ ''/'') ! i = CHR ''/'') [1..<length (s @ ''/'')])"
    using assms(2) by (cases s) (simp_all add: nth_append)
  then have "take (length s) (s @ ''/'') \<in> set (slash_prefixes (s @ ''/''))"
    unfolding slash_prefixes_def set_map by (rule imageI)
  then have "s \<in> set (slash_prefixes (s @ ''/''))" by simp
  with make_dirs_ok [OF m] have "exists (path_of s) fs1" by blast
  then show "exists (path_of (s @ ''/'')) fs'" unfolding fs' path_of_last_slash by (simp add: exists_def)
  from make_dirs_ok [OF m] show "contents q fs' = contents q fs"
    unfolding fs' by (simp add: contents_sys_set set_owner_def) (simp add: contents_def)
qed

section \<open>A deletion\<close>

definition rm_name :: "local_world \<Rightarrow> t_task_base \<Rightarrow> string option" where
  "rm_name w task = map_option (\<lambda>(outdir, t). outdir @ t @ ''.tmp4rm'') (local_name w task)"

definition log_path :: "local_world \<Rightarrow> t_task_base \<Rightarrow> path" where
  "log_path w task = path_of (get_del_file (lw_role w) (lw_conf w ''vfs_deldir'') task)"

lemma add_2_del_names:
  "q \<noteq> path_of (get_del_file r deldir b) \<Longrightarrow> fs_file (snd (add_2_del_file k e r deldir b fs)) q = fs_file fs q"
  by (auto simp: add_2_del_file_def Let_def sys_creat_def sys_append_def set_inode_def split: option.splits)

lemma timer_added:
  assumes "\<not> lock_failed e M_delay" and "tlists s Delay_home = x # xs"
  shows "x \<in> set (tlists (snd (add_to_delay_task e vt s)) Delay_active)"
    and "timers (snd (add_to_delay_task e vt s)) x = vt\<lparr>vt_next_time := e_now e + vt_span_time vt\<rparr>"
  using assms by (simp_all add: add_to_delay_task_def lf_add_head_def)

lemma delete_done:
  assumes run: "delete_localfile w task s = (LOCALFILE_OK, s')" and fit: "names_fit w task"
    and place: "place_of w task = Some p" and rm: "rm_name w task = Some name" "path_of name \<noteq> p"
    and free: "fs_file (lo_fs s) (path_of name) = None"
    and log: "log_path w task \<noteq> p" "log_path w task \<noteq> path_of name"
  shows "fs_file (lo_fs s) p \<noteq> None" and "fs_file (lo_fs s') p = None"
    and "fs_file (lo_fs s') (path_of name) = fs_file (lo_fs s) p"
    and "lo_timers s' = snd (add_to_delay_task (lw_env w) (rm_timer w name) (lo_timers s))"
proof -
  obtain outdir t where ln: "local_name w task = Some (outdir, t)" and p: "p = path_of (outdir @ t)"
      and name: "name = outdir @ t @ ''.tmp4rm''"
    using place rm(1) by (auto simp: place_of_def rm_name_def)
  obtain fs1 where mv: "sys_rename (lw_kernel w) p (path_of name) (lo_fs s) = (True, fs1)"
      and fs': "lo_fs s' = snd (add_2_del_file (lw_kernel w) (lw_env w) (lw_role w) (lw_conf w ''vfs_deldir'') task fs1)"
      and tm: "lo_timers s' = snd (add_to_delay_task (lw_env w) (rm_timer w name) (lo_timers s))"
    using run ln local_nameD(3) [OF ln fit] p name
    by (auto simp: delete_localfile_def localfile_codes Let_def split: prod.splits bool.splits)
  have keep: "fs_file (lo_fs s') q = fs_file fs1 q" if "q \<noteq> log_path w task" for q
    unfolding fs' using that by (intro add_2_del_names) (simp add: log_path_def)
  have old: "fs_file (lo_fs s) p \<noteq> None" and new: "fs_file fs1 = (fs_file (lo_fs s))(p := None, path_of name := fs_file (lo_fs s) p)"
    using mv free by (auto simp: sys_rename_def split: option.splits if_splits)
  show "fs_file (lo_fs s) p \<noteq> None" by (rule old)
  show "fs_file (lo_fs s') p = None" using keep [of p] log(1) rm(2) new by simp
  show "fs_file (lo_fs s') (path_of name) = fs_file (lo_fs s) p" using keep [of "path_of name"] log(2) new by simp
  show "lo_timers s' = snd (add_to_delay_task (lw_env w) (rm_timer w name) (lo_timers s))" by (rule tm)
qed

lemma real_rm_removes:
  "k_grants (lw_kernel w) S_unlink (path_of name) \<Longrightarrow>
     fs_file (lo_fs (real_rm_file w name s)) = (fs_file (lo_fs s))(path_of name := None)"
  by (auto simp: real_rm_file_def sys_unlink_def fun_eq_iff)

end
