(* ===== verification/Samples.thy ===== *)
theory Samples
  imports TrackerRun Timer TimeStamp
begin

text \<open>
  Small concrete states on which the properties of the root theory are instantiated: a
  pool with three tasks, a tracker with one connected machine, an empty machine table.
\<close>

definition sample_tasks :: "ptr \<Rightarrow> t_vfs_tasklist" where
  "sample_tasks p =
     (if p = 1 then zero_tasklist\<lparr>tl_status := TASK_RUN\<rparr>
      else if p = 2 then zero_tasklist\<lparr>tl_status := TASK_RUN,
        tl_task := zero_task\<lparr>ti_base := zero_base\<lparr>tb_starttime := 990\<rparr>\<rparr>\<rparr>
      else zero_tasklist\<lparr>tl_status := TASK_HOME\<rparr>)"

definition sample_queues :: "int \<Rightarrow> ptr list" where
  "sample_queues q = (if q = TASK_RUN then [1, 2] else if q = TASK_HOME then [3] else [])"

definition sample_tmp :: tmp_state where
  "sample_tmp = \<lparr>tf_cells = (\<lambda>_. Z), tf_size = 1016, t_hometmp = [], t_idletmp = [], t_pos = (\<lambda>_. 0)\<rparr>"

definition sample_pool :: task_state where
  "sample_pool = \<lparr>tasks = sample_tasks, vfstask = sample_queues, alltask = (\<lambda>_. []), userl = (\<lambda>_. []),
     taskcount = (\<lambda>q. int (length (sample_queues q)) - home_surplus q), tmpst = sample_tmp\<rparr>"

lemma sample_queues_simps [simp]:
  "sample_queues TASK_RUN = [1, 2]" "sample_queues TASK_HOME = [3]"
  "q \<noteq> TASK_RUN \<Longrightarrow> q \<noteq> TASK_HOME \<Longrightarrow> sample_queues q = []"
  by (simp_all add: sample_queues_def queue_defs)

lemma sample_queues_ok: "lf_wf sample_queues"
  by (auto simp: lf_wf_def sample_queues_def)

lemma sample_pool_ok: "pool_ok role sample_pool" "counts_ok sample_pool" "queues_ok sample_pool"
proof -
  show q: "queues_ok sample_pool"
    using sample_queues_ok
    by (auto simp: queues_ok_def sample_pool_def sample_queues_def sample_tasks_def valid_status_def
        queue_defs split: if_splits)
  show "pool_ok role sample_pool" using q by (simp add: pool_ok_def table_ok_def sample_pool_def lf_wf_def)
  show "counts_ok sample_pool" by (simp add: counts_ok_def sample_pool_def)
qed

text \<open>An empty table of machines.\<close>

definition sample_cfg :: cfg_state where
  "sample_cfg = \<lparr>infos = (\<lambda>_. zero_ipinfo), hlists = (\<lambda>_. [])(IpHome := [7]), hothome = [], isp_iplist = (\<lambda>_. []),
     csinfo = (\<lambda>_ _. zero_cs), fcslist = (\<lambda>_. 0), ispname = (\<lambda>_. []), offlinehome = [], localip = [],
     mallocs = [], wrlocked = False, self_ip = 0, self_sip = [], self_stat = ON_LINE,
     self_offline_time = 0\<rparr>"

lemma sample_cfg_ok: "cfg_ok sample_cfg"
  by (auto simp: cfg_ok_def entries_ok_def fresh_ok_def cs_ok_def sample_cfg_def zero_cs_def lf_wf_def
      MAXCS_ONEGRUOP_def)

definition sample_out :: outside where
  "sample_out = \<lparr>conf = (\<lambda>_. []), f_lines = (\<lambda>_. None), f_names = (\<lambda>_. None), f_dns = (\<lambda>_. None)\<rparr>"

text \<open>A structure layout in which a task is its one-byte result.\<close>

definition sample_abi :: abi where
  "sample_abi = \<lparr>base_of = (\<lambda>b. zero_base\<lparr>tb_filename := ''/a/1/2/f'', tb_overstatus := hd (b @ [0])\<rparr>),
     bytes_of = (\<lambda>b. [tb_overstatus b]), sizeof_base = 1\<rparr>"

definition sample_world :: tworld where
  "sample_world = \<lparr>tw_env = calm, tw_env2 = calm, tw_out = sample_out, tw_abi = sample_abi,
     tw_connect = (\<lambda>_. -1), tw_peerip = (\<lambda>_. 1), tw_timeout = 60, tw_max_run = 16,
     tw_task_timeout = 100\<rparr>"

text \<open>One CS, at address 1, connected on descriptor 5; it serves directory 1/2.\<close>

definition sample_cs :: t_cs_dir_info where
  "sample_cs = zero_cs\<lparr>cd_ip := (\<lambda>_. 1), cd_isp := (\<lambda>_. TEL), cd_archive_isp := (\<lambda>_. ISP_FCS),
     cd_index := 1\<rparr>"

definition sample_tracker :: tracker_state where
  "sample_tracker = task_state.extend
     (sample_pool\<lparr>tasks := (\<lambda>p. if p = 1 then zero_tasklist\<lparr>tl_status := TASK_RUN,
        tl_task := zero_task\<lparr>ti_base := zero_base\<lparr>tb_filename := ''/a/1/2/f''\<rparr>,
          ti_sub := zero_sub\<lparr>ts_archive_isp := ISP_FCS\<rparr>\<rparr>\<rparr> else sample_tasks p)\<rparr>)
     (tracker_state.fields (\<lambda>_. zero_peer\<lparr>pe_ip := 1, pe_role := ROLE_CS, pe_archive_isp := ISP_FCS\<rparr>)
        (\<lambda>p. p = 5) [5] ((\<lambda>_. [])(1 := [5])) (\<lambda>_. [])
        (sample_cfg\<lparr>hlists := (\<lambda>_. [])(Cfg 1 := [7]),
           infos := (\<lambda>_. zero_ipinfo\<lparr>ii_ip := 1, ii_role := ROLE_CS\<rparr>),
           csinfo := (\<lambda>_ _. sample_cs)\<rparr>)
        [] [] 0 0)"

lemma sample_tracker_queues_ok: "queues_ok sample_tracker"
proof -
  have "tl_status (tasks sample_tracker p) = tl_status (sample_tasks p)" for p
    by (simp add: sample_tracker_def task_state.defs sample_tasks_def)
  then show ?thesis using sample_pool_ok(3)
    by (simp add: queues_ok_def sample_tracker_def task_state.defs sample_pool_def)
qed

end
