(* ===== verification/FileSamples.thy ===== *)
theory FileSamples
  imports LocalFile
begin

text \<open>
  A small file system: the data directory \<open>/d/1/2\<close> of an FCS, a file \<open>/t\<close> that has just
  arrived, and a task that brings it to \<open>/d/1/2/f\<close>.
\<close>

definition open_kernel :: kernel where
  "open_kernel = \<lparr>k_grants = (\<lambda>_ _. True), k_umask = 0\<rparr>"

definition sample_inode :: inode where
  "sample_inode = \<lparr>in_data = [1, 2, 3], in_mode = 0, in_mtime = 5, in_ctime = 6, in_uid = 0, in_gid = 0\<rparr>"

definition sample_fs :: filesys where
  "sample_fs = \<lparr>fs_dir = (\<lambda>p. p \<in> {[''d''], [''d'', ''1''], [''d'', ''1'', ''2'']}),
     fs_file = [[''t''] \<mapsto> 0], fs_inode = (\<lambda>_. sample_inode), fs_next = 1\<rparr>"

definition sample_lw :: local_world where
  "sample_lw = \<lparr>lw_env = calm, lw_kernel = open_kernel, lw_role = ROLE_FCS, lw_stat = ON_LINE,
     lw_conf = (\<lambda>_. Some ''/d''), lw_uid = 7, lw_gid = 7, lw_real_rm_time = 60, lw_mindiskfree = 0,
     lw_reload_time = 10, lw_strtime = ''20140101000000'', lw_statfs = (\<lambda>_. Some (10, 4096)),
     lw_readdir = (\<lambda>_. None), lw_junk = replicate 64 0\<rparr>"

definition sample_file_task :: t_task_base where
  "sample_file_task = zero_base\<lparr>tb_filename := ''/a/1/2/f'', tb_tmpfile := ''/t'', tb_linkfile := ''/a/1/2/g'',
     tb_filemd5 := digest_of [1, 2, 3], tb_ctime := 1400000000\<rparr>"

definition sample_ls :: local_state where
  "sample_ls = \<lparr>lo_fs = sample_fs, lo_timers = delay_task_init 0 (rm_timer sample_lw []), lo_index = 0,
     lo_stamps = \<lparr>sf_cell = (\<lambda>_. 0), sf_cells = 0\<rparr>\<rparr>"

lemma open_kernel_granted [simp]: "all_granted open_kernel"
  by (simp add: all_granted_def open_kernel_def)

lemma sample_lw_simps [simp]:
  "lw_kernel sample_lw = open_kernel" "length (lw_junk sample_lw) = 64" "lw_role sample_lw = ROLE_FCS"
  "lw_env sample_lw = calm" "lw_conf sample_lw = (\<lambda>_. Some ''/d'')" "lw_junk sample_lw = replicate 64 0"
  by (simp_all add: sample_lw_def)

lemma sample_dirs: "get_dir1_dir2 ''/a/1/2/f'' = Some (1, 2)"
  by code_simp

lemma sample_show: "show_int 1 = ''1''" "show_int 2 = ''2''"
  by code_simp+

lemma sample_localdir:
  "tb_filename task = ''/a/1/2/f'' \<Longrightarrow> get_localdir sample_lw task = Some ''/d/1/2/''"
  by (simp add: get_localdir_def sample_dirs sample_show show_opt_def)

lemma sample_local_name:
  "tb_filename task = ''/a/1/2/f'' \<Longrightarrow> local_name sample_lw task = Some (''/d/1/2/'', ''f'')"
proof -
  assume t: "tb_filename task = ''/a/1/2/f''"
  have "strrchr ''/a/1/2/f'' (CHR ''/'') = Some 6" by code_simp
  with t show ?thesis by (simp add: local_name_def sample_localdir)
qed

lemma sample_task_simps [simp]:
  "tb_filename sample_file_task = ''/a/1/2/f''" "tb_tmpfile sample_file_task = ''/t''"
  "tb_filemd5 sample_file_task = digest_of [1, 2, 3]" "tb_linkfile sample_file_task = ''/a/1/2/g''"
  "tb_ctime sample_file_task = 1400000000"
  by (simp_all add: sample_file_task_def)

lemma sample_names [simp]:
  "names_fit sample_lw sample_file_task" "place_of sample_lw sample_file_task = Some [''d'', ''1'', ''2'', ''f'']"
  "rm_name sample_lw sample_file_task = Some ''/d/1/2/f.tmp4rm''"
  "log_path sample_lw sample_file_task = [''d'', ''del_list'']"
  by (simp_all add: names_fit_def place_of_def rm_name_def log_path_def sample_local_name path_of_def get_del_file_def)

lemma sample_fs_simps [simp]:
  "lo_fs sample_ls = sample_fs" "contents [''t''] sample_fs = Some [1, 2, 3]"
  "fs_file sample_fs [''t''] = Some 0" "fs_file sample_fs [''d'', ''1'', ''2'', ''f''] = None"
  "dir_there [''d'', ''1'', ''2''] sample_fs" "\<not> fs_dir sample_fs [''d'', ''1'', ''2'', ''f'']"
  by (simp_all add: sample_ls_def sample_fs_def contents_def sample_inode_def dir_there_def)

lemma sample_check:
  "\<exists>task fs. check_localfile_md5 sample_lw sample_file_task VIDEOTMP sample_fs = (LOCALFILE_OK, task, fs)"
proof -
  have "getfilemd5view (replicate 64 0) (Some [1, 2, 3]) = Some (digest_of [1, 2, 3])"
    by (simp add: getfilemd5view_def getfilemd5_ok digest_of_def)
  then show ?thesis
    by (simp add: check_localfile_md5_def sample_local_name file_for_digest_def path_of_def Let_def)
qed

lemma sample_close: "fst (close_tmp_check_mv sample_lw sample_file_task 3 sample_ls) = LOCALFILE_OK"
proof -
  obtain task fs where c: "check_localfile_md5 sample_lw sample_file_task VIDEOTMP sample_fs = (LOCALFILE_OK, task, fs)"
    using sample_check by blast
  note e = check_md5_effect [OF c]
  have t: "tb_filename task = ''/a/1/2/f''" "tb_tmpfile task = ''/t''"
    by (subst e(4), simp)+
  have n: "fs_file fs = fs_file sample_fs" "fs_dir fs = fs_dir sample_fs" by (rule e)+
  then have d: "dir_there [''d'', ''1'', ''2''] fs" using sample_fs_simps(5) by (simp add: dir_there_def)
  show ?thesis
    using c t n d
    by (simp add: close_tmp_check_mv_def Let_def sample_local_name sys_rename_def path_of_def)
qed

text \<open>The same, with the file at its place.\<close>

definition placed_fs :: filesys where
  "placed_fs = sample_fs\<lparr>fs_file := [[''d'', ''1'', ''2'', ''f''] \<mapsto> 0]\<rparr>"

lemma placed_simps [simp]:
  "fs_file placed_fs = [[''d'', ''1'', ''2'', ''f''] \<mapsto> 0]" "fs_dir placed_fs = fs_dir sample_fs"
  "\<not> fs_dir sample_fs [''d'', ''1'', ''2'', ''f.tmp4rm'']" "\<not> fs_dir sample_fs [''d'', ''1'', ''2'', ''g'']"
  by (simp_all add: placed_fs_def sample_fs_def)

lemma placed_dir [simp]: "dir_there [''d'', ''1'', ''2''] placed_fs"
  using sample_fs_simps(5) by (simp add: dir_there_def)

lemma sample_delete: "fst (delete_localfile sample_lw sample_file_task (sample_ls\<lparr>lo_fs := placed_fs\<rparr>)) = LOCALFILE_OK"
  by (simp add: delete_localfile_def sample_local_name Let_def path_of_def sys_rename_def)

lemma sample_link_names:
  "link_names sample_lw sample_file_task = Some ([''d'', ''1'', ''2'', ''f''], [''d'', ''1'', ''2'', ''g''])"
proof -
  have "posix_basename ''/a/1/2/f'' = ''f''" "posix_basename ''/a/1/2/g'' = ''g''" by code_simp+
  then show ?thesis by (simp add: link_names_def sample_localdir path_of_def)
qed

end
