(* ===== verification/PoolClient.thy ===== *)
theory PoolClient
  imports TaskQueue
begin

text \<open>
  What the threads of the daemon rely on when they share the task pool: a plugin's state
  extends the pool's by what is its own and by the blocks \<open>malloc\<close> is still going to answer.
  The locale \<open>pool_client\<close> states it; its lemmas say how taking and putting tasks keeps the
  pool well-formed, for every plugin.
\<close>

definition blocks :: "ptr option list \<Rightarrow> ptr list" where
  "blocks ms = List.map_filter (\<lambda>m. m) ms"

lemma blocks_simps [simp]:
  "blocks [] = []" "blocks (None # ms) = blocks ms" "blocks (Some p # ms) = p # blocks ms"
  by (simp_all add: blocks_def map_filter_simps)

lemma blocks_tl: "set (blocks (tl ms)) \<subseteq> set (blocks ms)" "distinct (blocks ms) \<Longrightarrow> distinct (blocks (tl ms))"
  by (cases ms; auto simp: blocks_def map_filter_simps split: option.splits)+

text \<open>A task is placed when some queue holds it.\<close>

definition placed :: "ptr \<Rightarrow> 'a task_state_scheme \<Rightarrow> bool" where
  "placed t s \<longleftrightarrow> (\<exists>q. t \<in> set (vfstask s q))"

text \<open>No mutex times out.\<close>

definition unlocked :: "env \<Rightarrow> bool" where
  "unlocked e \<longleftrightarrow> (\<forall>m. \<not> lock_failed e m)"

section \<open>Rounds over a queue\<close>

text \<open>The rounds of the code: take the first task of a queue and work on it, until none is left.\<close>

primrec drain ::
  "nat \<Rightarrow> env \<Rightarrow> int \<Rightarrow> (ptr \<Rightarrow> 'a task_state_scheme \<Rightarrow> 'a task_state_scheme) \<Rightarrow> 'a task_state_scheme
   \<Rightarrow> 'a task_state_scheme" where
  "drain 0 e q f s = s"
| "drain (Suc k) e q f s =
     (case vfs_get_task e q s of
        (r, None, s) \<Rightarrow> s
      | (r, Some t, s) \<Rightarrow> if r \<noteq> GET_TASK_OK then s else drain k e q f (f t s))"

text \<open>No work puts a task on the queue it was taken from, so the length is enough.\<close>

definition drain_all ::
  "env \<Rightarrow> int \<Rightarrow> (ptr \<Rightarrow> 'a task_state_scheme \<Rightarrow> 'a task_state_scheme) \<Rightarrow> 'a task_state_scheme
   \<Rightarrow> 'a task_state_scheme" where
  "drain_all e q f s = drain (Suc (length (vfstask s q))) e q f s"

text \<open>The counters that are the lengths of their queues: those of the queues that \<open>P\<close> names.\<close>

definition counts_on :: "(int \<Rightarrow> bool) \<Rightarrow> 'a task_state_scheme \<Rightarrow> bool" where
  "counts_on P s \<longleftrightarrow> (\<forall>q. P q \<longrightarrow> taskcount s q = int (length (vfstask s q)) - home_surplus q)"

lemma counts_on_all: "counts_on (\<lambda>_. True) s = counts_ok s"
  by (simp add: counts_on_def counts_ok_def)

lemma counts_on_get:
  assumes "queues_ok s" and "counts_on P s" and "vfs_get_task e q s = (r, t, s')"
  shows "counts_on P s'"
proof (cases "valid_status q \<and> \<not> lock_failed e (M_task q) \<and> vfstask s q \<noteq> []")
  case True
  then obtain x ts where "vfstask s q = x # ts" by (cases "vfstask s q") auto
  with get_task_effect [of q e s x ts] True assms show ?thesis by (auto simp: counts_on_def)
next
  case False
  with assms(2,3) show ?thesis
    by (auto simp: vfs_get_task_def counts_on_def split: option.splits list.splits if_splits)
qed

lemma counts_on_set:
  "counts_on P s \<Longrightarrow> (\<And>p. P p \<Longrightarrow> t \<notin> set (vfstask s p)) \<Longrightarrow> counts_on P (snd (vfs_set_task e t q s))"
  by (simp add: vfs_set_task_def counts_on_def removeAll_notin)

locale pool_client =
  fixes counted :: "int \<Rightarrow> bool"
    and mem :: "'a task_state_scheme \<Rightarrow> ptr option list"
    and set_mem :: "ptr option list \<Rightarrow> 'a task_state_scheme \<Rightarrow> 'a task_state_scheme"
  assumes mem_set: "mem (set_mem ms s) = ms"
    and set_mem_queues: "vfstask (set_mem ms s) = vfstask s"
    and set_mem_tasks: "tasks (set_mem ms s) = tasks s"
    and set_mem_count: "taskcount (set_mem ms s) = taskcount s"
    and mem_queues: "mem (s\<lparr>vfstask := F\<rparr>) = mem s"
    and mem_tasks: "mem (s\<lparr>tasks := T\<rparr>) = mem s"
    and mem_count: "mem (s\<lparr>taskcount := c\<rparr>) = mem s"
begin

definition inv :: "'a task_state_scheme \<Rightarrow> bool" where
  "inv s \<longleftrightarrow> queues_ok s \<and> counts_on counted s \<and> distinct (blocks (mem s)) \<and>
     (\<forall>p\<in>set (blocks (mem s)). lf_off p (vfstask s))"

text \<open>A task some operation is working on: on no queue, and not a block still to be handed out.\<close>

definition held :: "ptr \<Rightarrow> 'a task_state_scheme \<Rightarrow> bool" where
  "held t s \<longleftrightarrow> lf_off t (vfstask s) \<and> t \<notin> set (blocks (mem s))"

definition view :: "'a task_state_scheme \<Rightarrow> (int \<Rightarrow> ptr list) \<times> (ptr \<Rightarrow> int) \<times> (int \<Rightarrow> int) \<times> ptr option list" where
  "view s = (vfstask s, (\<lambda>t. tl_status (tasks s t)), taskcount s, mem s)"

lemma inv_view:
  assumes "view s' = view s"
  shows "inv s' = inv s"
proof -
  have v: "vfstask s' = vfstask s" "taskcount s' = taskcount s" "mem s' = mem s"
    and st: "tl_status (tasks s' t) = tl_status (tasks s t)" for t
    using assms by (simp_all add: view_def fun_eq_iff)
  show ?thesis by (simp add: inv_def queues_ok_def counts_on_def v st)
qed

lemma held_view: "view s' = view s \<Longrightarrow> held t s' = held t s"
  by (simp add: view_def held_def)

lemma placed_view: "view s' = view s \<Longrightarrow> placed t s' = placed t s"
  by (simp add: view_def placed_def)

lemma mem_status [simp]: "mem (set_status p st s) = mem s"
  by (simp add: set_status_def mem_tasks)

lemma mem_set_task [simp]: "mem (set_task p ti s) = mem s"
  by (simp add: set_task_def mem_tasks)

lemma view_task [simp]: "view (set_task t ti s) = view s" "view (set_base t b s) = view s"
  by (simp_all add: view_def set_base_def fun_eq_iff)

lemma placed_not_held: "held t s \<Longrightarrow> \<not> placed t s"
  by (simp add: held_def placed_def lf_off_def)

section \<open>Taking\<close>

lemma get_inv:
  assumes inv: "inv s" and get: "vfs_get_task e q s = (r, ot, s')" and q: "q \<noteq> TASK_HOME \<or> vfstask s q \<noteq> []"
  shows "inv s'" and "\<And>t. ot = Some t \<Longrightarrow> held t s'" and "\<And>u. held u s \<Longrightarrow> held u s' \<and> ot \<noteq> Some u"
    and "mem s' = mem s" and "\<And>u. placed u s \<Longrightarrow> placed u s' \<or> ot = Some u"
proof -
  have ok: "queues_ok s" using inv by (simp add: inv_def)
  have c: "counts_on counted s'" using counts_on_get [OF ok _ get] inv by (simp add: inv_def)
  consider (take) t ts where "valid_status q" "\<not> lock_failed e (M_task q)" "vfstask s q = t # ts"
    | (none) "ot = None" "s' = s"
    using get q by (auto simp: vfs_get_task_def split: list.splits if_splits)
  then have "inv s' \<and> (\<forall>t. ot = Some t \<longrightarrow> held t s') \<and> (\<forall>u. held u s \<longrightarrow> held u s' \<and> ot \<noteq> Some u)
     \<and> mem s' = mem s \<and> (\<forall>u. placed u s \<longrightarrow> placed u s' \<or> ot = Some u)"
  proof cases
    case take
    have s': "ot = Some t" "vfstask s' = (vfstask s)(q := ts)" "queues_ok s'"
      using get get_task_effect [OF take(1-3) ok] queues_after_get [OF ok _ take(3)] by auto
    have m: "mem s' = mem s" using get take by (auto simp: vfs_get_task_def mem_queues mem_count)
    have wf: "lf_wf (vfstask s)" using ok by (simp add: queues_ok_def)
    have "distinct (t # ts)" using wf take(3) by (metis lf_wf_def)
    then have "lf_off t (vfstask s')"
      unfolding lf_off_def s'(2) using wf take(3) lf_wf_unique [OF wf, of t q] by auto
    moreover have "t \<notin> set (blocks (mem s))" 
      using inv take(3) unfolding inv_def lf_off_def by (metis list.set_intros(1))
    moreover have "lf_off p (vfstask s')" if "lf_off p (vfstask s)" for p
      using that take(3) unfolding lf_off_def s'(2) by (metis fun_upd_apply list.set_intros(2))
    moreover have "\<not> held t s"
      unfolding held_def lf_off_def using take(3) by (metis list.set_intros(1))
    moreover have "placed u s \<Longrightarrow> placed u s' \<or> ot = Some u" for u
      unfolding placed_def s'(1,2) using take(3) by (metis fun_upd_apply set_ConsD)
    ultimately show ?thesis using inv s' m c by (auto simp: inv_def held_def)
  qed (use inv in auto)
  then show "inv s'" and "\<And>t. ot = Some t \<Longrightarrow> held t s'" and "\<And>u. held u s \<Longrightarrow> held u s' \<and> ot \<noteq> Some u"
    and "mem s' = mem s" and "\<And>u. placed u s \<Longrightarrow> placed u s' \<or> ot = Some u" by blast+
qed

lemma inv_tl: "inv s \<Longrightarrow> inv (set_mem (tl (mem s)) s)"
  using blocks_tl [of "mem s"]
  by (auto simp: inv_def queues_ok_def counts_on_def mem_set set_mem_queues set_mem_tasks set_mem_count)

lemma held_tl: "held t s \<Longrightarrow> held t (set_mem (tl (mem s)) s)"
  using blocks_tl(1) [of "mem s"] by (auto simp: held_def mem_set set_mem_queues)

text \<open>A free record: from \<open>TASK_HOME\<close>, or a block from the next answer of \<open>malloc\<close>.\<close>

lemma get_home_inv:
  assumes inv: "inv s" and e: "e_malloc e = (case mem s of [] \<Rightarrow> None | m # _ \<Rightarrow> m)"
    and get: "vfs_get_task e TASK_HOME (if vfstask s TASK_HOME = [] then set_mem (tl (mem s)) s else s) = (r, ot, s')"
  shows "inv s'" and "\<And>t. ot = Some t \<Longrightarrow> held t s'" and "\<And>u. held u s \<Longrightarrow> held u s' \<and> ot \<noteq> Some u"
    and "\<And>u. placed u s \<Longrightarrow> placed u s' \<or> ot = Some u"
proof -
  have "inv s' \<and> (\<forall>t. ot = Some t \<longrightarrow> held t s') \<and> (\<forall>u. held u s \<longrightarrow> held u s' \<and> ot \<noteq> Some u)
    \<and> (\<forall>u. placed u s \<longrightarrow> placed u s' \<or> ot = Some u)"
  proof (cases "vfstask s TASK_HOME = []")
    case False
    with get have g: "vfs_get_task e TASK_HOME s = (r, ot, s')" by simp
    from get_inv [OF inv g] False show ?thesis by blast
  next
    case True
    let ?s = "set_mem (tl (mem s)) s"
    have g: "vfs_get_task e TASK_HOME ?s = (r, ot, s')" using get True by simp
    show ?thesis
    proof (cases "ot")
      case None
      then have "s' = ?s" using g True by (auto simp: vfs_get_task_def set_mem_queues split: option.splits if_splits)
      then show ?thesis using None inv inv_tl held_tl by (auto simp: placed_def set_mem_queues)
    next
      case (Some t)
      then obtain ms where m: "mem s = Some t # ms"
          and s': "s' = ?s\<lparr>tasks := (tasks s)(t := zero_tasklist\<lparr>tl_status := TASK_UNKNOWN\<rparr>)\<rparr>"
        using g True e
        by (auto simp: vfs_get_task_def set_mem_queues set_mem_tasks split: option.splits if_splits list.splits)
      have t: "lf_off t (vfstask s)" "t \<notin> set (blocks ms)" "distinct (blocks ms)"
        using inv m by (auto simp: inv_def)
      have m': "mem s' = ms" "vfstask s' = vfstask s" "taskcount s' = taskcount s"
        using m by (simp_all add: s' mem_tasks mem_set set_mem_queues set_mem_count)
      have "queues_ok s'"
        using inv t(1) by (auto simp: s' inv_def queues_ok_def lf_off_def set_mem_queues)
      then show ?thesis using inv t m' m Some by (auto simp: inv_def counts_on_def held_def placed_def)
    qed
  qed
  then show "inv s'" and "\<And>t. ot = Some t \<Longrightarrow> held t s'" and "\<And>u. held u s \<Longrightarrow> held u s' \<and> ot \<noteq> Some u"
    and "\<And>u. placed u s \<Longrightarrow> placed u s' \<or> ot = Some u" by blast+
qed

section \<open>Putting\<close>

text \<open>A task may be put on another queue when it is on none whose counter is kept.\<close>

definition loose :: "ptr \<Rightarrow> 'a task_state_scheme \<Rightarrow> bool" where
  "loose t s \<longleftrightarrow> t \<notin> set (blocks (mem s)) \<and> (\<forall>q. counted q \<longrightarrow> t \<notin> set (vfstask s q))"

lemma held_loose: "held t s \<Longrightarrow> loose t s"
  by (simp add: held_def loose_def lf_off_def)

lemma put_loose:
  assumes "inv s" and "loose t s"
  shows "inv (snd (vfs_set_task e t q s))"
    and "held u s \<Longrightarrow> u \<noteq> t \<Longrightarrow> held u (snd (vfs_set_task e t q s))"
  using assms queues_set_task [of s e t q] counts_on_set [of counted s t e q]
  by (auto simp: inv_def loose_def held_def vfs_set_task_def lf_off_def mem_queues mem_count)

lemmas put_inv = put_loose [OF _ held_loose]

lemma put_placed:
  assumes "unlocked e" and "valid_status q"
  shows "t \<in> set (vfstask (snd (vfs_set_task e t q s)) q)"
    and "placed u s \<Longrightarrow> placed u (snd (vfs_set_task e t q s))"
proof -
  show *: "t \<in> set (vfstask (snd (vfs_set_task e t q s)) q)"
    using assms by (simp add: vfs_set_task_def unlocked_def)
  show "placed u (snd (vfs_set_task e t q s))" if u: "placed u s"
  proof (cases "u = t")
    case True then show ?thesis using * by (auto simp: placed_def)
  next
    case False
    obtain p where "u \<in> set (vfstask s p)" using u by (auto simp: placed_def)
    with False assms show ?thesis
      unfolding placed_def by (intro exI [of _ p]) (auto simp: vfs_set_task_def unlocked_def)
  qed
qed

lemma inv_same: "inv s \<Longrightarrow> view s' = view s \<Longrightarrow> inv s'"
  using inv_view by blast

lemma held_same: "held t s \<Longrightarrow> view s' = view s \<Longrightarrow> held t s'"
  using held_view by blast

lemma put_same:
  assumes "inv s" and "held t s" and "view s' = view s"
  shows "inv (snd (vfs_set_task e t q s'))"
  using put_inv(1) [OF inv_same [OF assms(1,3)] held_same [OF assms(2,3)]] .

lemma put_held:
  assumes "inv s" and "held t s" and "view s' = view s" and "held u s" and "u \<noteq> t"
  shows "held u (snd (vfs_set_task e t q s'))"
  using put_inv(2) [OF inv_same [OF assms(1,3)] held_same [OF assms(2,3)] held_same [OF assms(4,3)] assms(5)] .

lemma drain_inv:
  assumes f: "\<And>t s. inv s \<Longrightarrow> held t s \<Longrightarrow> inv (f t s)" and q: "q \<noteq> TASK_HOME" and inv: "inv s"
  shows "inv (drain k e q f s)"
  using inv
proof (induction k arbitrary: s)
  case (Suc k)
  obtain r ot s' where g: "vfs_get_task e q s = (r, ot, s')" by (cases "vfs_get_task e q s")
  from get_inv [OF Suc.prems g] q have s': "inv s'" "\<And>t. ot = Some t \<Longrightarrow> held t s'" by blast+
  show ?case using Suc.IH [OF f] s' by (simp add: g split: option.split)
qed simp

lemma drain_all_inv:
  "(\<And>t s. inv s \<Longrightarrow> held t s \<Longrightarrow> inv (f t s)) \<Longrightarrow> q \<noteq> TASK_HOME \<Longrightarrow> inv s \<Longrightarrow> inv (drain_all e q f s)"
  unfolding drain_all_def by (rule drain_inv)

lemma supply_inv:
  "inv s \<Longrightarrow> distinct (blocks ms) \<Longrightarrow> (\<And>p. p \<in> set (blocks ms) \<Longrightarrow> lf_off p (vfstask s)) \<Longrightarrow> inv (set_mem ms s)"
  by (simp add: inv_def queues_ok_def counts_on_def mem_set set_mem_queues set_mem_tasks set_mem_count)

end

end
