(* ===== verification/CsBase.thy ===== *)
theory CsBase
  imports Tracker LocalFile
begin

text \<open>
  The storage machine (\<open>src/network/cs\<close>), first part: its state, its connections and the
  thread that lists a directory for another machine (\<open>vfs_sig.c\<close>, \<open>vfs_sig_base.c\<close>,
  \<open>vfs_sig_sync_dir.c\<close>).  As in the tracker, a peer is named by its descriptor.  A
  directory to synchronise (\<open>t_vfs_sync_list\<close>) is on the list \<open>sync_list\<close> or held by one
  peer; it is modelled by its contents.
\<close>

definition TASKINFO_RSP :: byte where "TASKINFO_RSP = 0x0C"
definition SYNC_DIR_REQ :: byte where "SYNC_DIR_REQ = 0x0F"
definition SYNC_DIR_RSP :: byte where "SYNC_DIR_RSP = 0x10"
definition SYNC_DEL_REQ :: byte where "SYNC_DEL_REQ = 0x13"
definition SYNC_DEL_RSP :: byte where "SYNC_DEL_RSP = 0x14"
definition HB_C_2_C :: byte where "HB_C_2_C = 0x04"
definition C_A_2_T :: byte where "C_A_2_T = 0x03"
definition C_A_2_F :: byte where "C_A_2_F = 0x05"
definition TASKINFO_T_2_C :: byte where "TASKINFO_T_2_C = 0x02"
definition TASK_SYNC :: byte where "TASK_SYNC = 0x03"
definition TASK_SYNC_DIR :: byte where "TASK_SYNC_DIR = 0x09"
definition MAXSYNCBUF :: nat where "MAXSYNCBUF = 2097152"

record t_vfs_sync_task =
  sy_domain :: string
  sy_d1 :: int
  sy_d2 :: int
  sy_ip :: u32
  sy_starttime :: int
  sy_endtime :: int
  sy_type :: int

definition zero_sync :: t_vfs_sync_task where
  "zero_sync = \<lparr>sy_domain = [], sy_d1 = 0, sy_d2 = 0, sy_ip = 0, sy_starttime = 0, sy_endtime = 0, sy_type = 0\<rparr>"

record vfs_cs_peer =
  cp_sync :: "t_vfs_sync_task option"
  cp_hbtime :: int
  cp_ip :: u32
  cp_cfgip :: u32
  cp_role :: role
  cp_sock_stat :: sock_stat
  cp_server_stat :: byte

definition zero_cs_peer :: vfs_cs_peer where
  "zero_cs_peer = \<lparr>cp_sync = None, cp_hbtime = 0, cp_ip = 0, cp_cfgip = 0, cp_role = UNKOWN,
     cp_sock_stat = LOGOUT, cp_server_stat = 0\<rparr>"

text \<open>
  \<open>csreq\<close> is the request a task on \<open>TASK_Q_SYNC_DIR_REQ\<close> carries in place of its file name,
  \<open>csrsp\<close> the buffer with the answer.  \<open>cmem\<close> holds the answers of the calls of \<open>malloc\<close> for
  task records and status slots still to come.
\<close>

record cs_state = task_state +
  cpeers :: "ptr \<Rightarrow> vfs_cs_peer"
  cuser :: "ptr \<Rightarrow> bool"
  cactive :: "ptr list"
  conline :: "nat \<Rightarrow> ptr list"
  ccfg_list :: "nat \<Rightarrow> ptr list"
  ccfg :: cfg_state
  csent :: "(ptr \<times> byte list) list"
  cclosed :: "ptr list"
  cscan_i :: nat
  clast_scan :: int
  csync_list :: "t_vfs_sync_task list"
  csync_flag :: int
  csync_last :: int
  ctotal_sync :: int
  ctotal_synced :: int
  ccs_sync_dir :: bool
  csreq :: "ptr \<Rightarrow> t_vfs_sync_task"
  csrsp :: "ptr \<Rightarrow> byte list option"
  cmem :: "ptr option list"
  clocal :: local_state

record cworld =
  cw_env :: env
  cw_out :: outside
  cw_abi :: abi
  cw_sync_of :: "byte list \<Rightarrow> t_vfs_sync_task"
  cw_sync_bytes :: "t_vfs_sync_task \<Rightarrow> byte list"
  cw_sync_size :: u16
  cw_connect :: "string \<Rightarrow> int"
  cw_peerip :: "ptr \<Rightarrow> u32"
  cw_behind :: "ptr \<Rightarrow> u32"
  cw_timeout :: int
  cw_max_once :: nat
  cw_task_timeout :: int
  cw_retry :: int
  cw_window :: "string \<times> string"
  cw_mem :: "nat \<Rightarrow> bool"
  cw_self :: t_ip_info
  cw_self_stat :: server_stat
  cw_lw :: local_world
  cw_filter :: filter_state

definition local_of :: "cworld \<Rightarrow> cs_state \<Rightarrow> local_world" where
  "local_of w s = (cw_lw w)\<lparr>lw_env := cw_env w, lw_role := ROLE_CS, lw_stat := self_stat (ccfg s)\<rparr>"

definition set_cpeer :: "ptr \<Rightarrow> vfs_cs_peer \<Rightarrow> cs_state \<Rightarrow> cs_state" where
  "set_cpeer fd p s = s\<lparr>cpeers := (cpeers s)(fd := p)\<rparr>"

definition c_send :: "ptr \<Rightarrow> byte list \<Rightarrow> cs_state \<Rightarrow> cs_state" where
  "c_send fd bs s = s\<lparr>csent := csent s @ [(fd, bs)]\<rparr>"

definition set_self_stat :: "server_stat \<Rightarrow> cs_state \<Rightarrow> cs_state" where
  "set_self_stat st s = s\<lparr>ccfg := (ccfg s)\<lparr>self_stat := st\<rparr>\<rparr>"

text \<open>Taking a free task record and saving a task, with the next answer of \<open>malloc\<close>.\<close>

definition next_malloc :: "env \<Rightarrow> cs_state \<Rightarrow> env" where
  "next_malloc e s = e\<lparr>e_malloc := (case cmem s of [] \<Rightarrow> None | m # _ \<Rightarrow> m)\<rparr>"

definition cs_get_home :: "cworld \<Rightarrow> cs_state \<Rightarrow> int \<times> ptr option \<times> cs_state" where
  "cs_get_home w s =
     (let e = next_malloc (cw_env w) s in
      vfs_get_task e TASK_HOME (if vfstask s TASK_HOME = [] then s\<lparr>cmem := tl (cmem s)\<rparr> else s))"

definition cs_set_tmp :: "cworld \<Rightarrow> ptr \<Rightarrow> cs_state \<Rightarrow> cs_state" where
  "cs_set_tmp w t s =
     (let (r, rec, tmp) = set_task_to_tmp (next_malloc (cw_env w) s) (tasks s t) (tmpst s)
      in s\<lparr>tasks := (tasks s)(t := rec), tmpst := tmp,
           cmem := (if t_idletmp (tmpst s) = [] then tl (cmem s) else cmem s)\<rparr>)"

section \<open>vfs\_sig\_base.c: finding a peer\<close>

text \<open>
  \<open>find_ip_stat\<close> walks \<open>cfg_list\<close>, whose entries are linked by \<open>cfglist\<close>, as if they were
  linked by \<open>hlist\<close>: its pointer is 16 bytes into the peer (\<open>Shifted\<close>), and the \<open>cfgip\<close> it
  reads lies behind the allocated record (\<open>cw_behind\<close>).
\<close>

definition cs_find_ip_stat :: "cworld \<Rightarrow> u32 \<Rightarrow> cs_state \<Rightarrow> peer_ref option" where
  "cs_find_ip_stat w ip s =
     (case find (\<lambda>fd. cw_behind w fd = ip) (ccfg_list s (bucket_of ip)) of
        Some fd \<Rightarrow> Some (Shifted fd)
      | None \<Rightarrow> map_option Peer (find (\<lambda>fd. cp_ip (cpeers s fd) = ip) (conline s (bucket_of ip))))"

text \<open>The peer the code goes on with; through a shifted pointer its behaviour is undefined.\<close>

definition cs_peer_at :: "cworld \<Rightarrow> u32 \<Rightarrow> cs_state \<Rightarrow> ptr option" where
  "cs_peer_at w ip s = (case cs_find_ip_stat w ip s of Some (Peer fd) \<Rightarrow> Some fd | _ \<Rightarrow> None)"

section \<open>vfs\_sig.c: connections\<close>

text \<open>
  \<open>init_cfg_connect\<close> goes on when the machine is not configured, and then takes the role from
  memory that is not initialised: the argument \<open>junk\<close>.
\<close>

definition cs_init_cfg_connect :: "cworld \<Rightarrow> role \<Rightarrow> string \<Rightarrow> ptr \<Rightarrow> cs_state \<Rightarrow> int \<times> cs_state" where
  "cs_init_cfg_connect w junk sip fd s =
     (let (ip, o_s_ip) = get_uint32_ip (f_dns (cw_out w)) sip in
      if ip = INADDR_NONE then (-1, s)
      else
        let r = (case get_ip_info (cw_env w) (cw_out w) sip True (ccfg s) of
                   (r, Some p) \<Rightarrow> ii_role (infos (ccfg s) p) | (r, None) \<Rightarrow> junk);
            s = set_cpeer fd ((cpeers s fd)\<lparr>cp_cfgip := ip, cp_sock_stat := LOGIN, cp_role := r\<rparr>) s
        in (0, s\<lparr>ccfg_list := lf_add_head fd (bucket_of ip) (ccfg_list s)\<rparr>))"

definition cs_svc_init :: "cworld \<Rightarrow> cs_state \<Rightarrow> cs_state" where
  "cs_svc_init w s =
     set_self_stat (cw_self_stat w)
       (s\<lparr>cactive := [], conline := (\<lambda>_. []), ccfg_list := (\<lambda>_. []), csync_list := [],
          csync_flag := 2, csync_last := 0, ctotal_sync := 0, ctotal_synced := 0\<rparr>)"

definition cs_svc_initconn :: "cworld \<Rightarrow> ptr \<Rightarrow> cs_state \<Rightarrow> int \<times> cs_state" where
  "cs_svc_initconn w fd s =
     (let ip = cw_peerip w fd in
      if cs_find_ip_stat w ip s \<noteq> None then (RET_CLOSE_DUP, s)
      else if \<not> cuser s fd \<and> e_malloc (cw_env w) = None then (RET_CLOSE_MALLOC, s)
      else
        let s = set_cpeer fd (zero_cs_peer\<lparr>cp_hbtime := e_now (cw_env w), cp_sock_stat := CONNECTED, cp_ip := ip\<rparr>)
                  (s\<lparr>cuser := (cuser s)(fd := True)\<rparr>)
        in (0, s\<lparr>cactive := cactive s @ [fd], conline := lf_add_head fd (bucket_of ip) (conline s)\<rparr>))"

text \<open>A closed connection gives the directory it was synchronising back to the list.\<close>

definition cs_svc_finiconn :: "ptr \<Rightarrow> cs_state \<Rightarrow> cs_state" where
  "cs_svc_finiconn fd s =
     (if \<not> cuser s fd then s
      else
        let s = s\<lparr>cactive := removeAll fd (cactive s), conline := lf_del fd (conline s),
                  ccfg_list := lf_del fd (ccfg_list s)\<rparr>;
            s = (case cp_sync (cpeers s fd) of
                   None \<Rightarrow> s
                 | Some y \<Rightarrow> s\<lparr>csync_list := csync_list s @ [y], csync_flag := 0\<rparr>)
        in set_cpeer fd zero_cs_peer (s\<lparr>cuser := (cuser s)(fd := False)\<rparr>))"

definition cs_do_close :: "ptr \<Rightarrow> cs_state \<Rightarrow> cs_state" where
  "cs_do_close fd s = (cs_svc_finiconn fd s)\<lparr>cclosed := cclosed s @ [fd]\<rparr>"

definition cs_touch :: "cworld \<Rightarrow> ptr \<Rightarrow> cs_state \<Rightarrow> cs_state" where
  "cs_touch w fd s = (set_cpeer fd ((cpeers s fd)\<lparr>cp_hbtime := e_now (cw_env w)\<rparr>) s)
     \<lparr>cactive := removeAll fd (cactive s) @ [fd]\<rparr>"

definition cs_svc_send :: "cworld \<Rightarrow> ptr \<Rightarrow> cs_state \<Rightarrow> int \<times> cs_state" where
  "cs_svc_send w fd s = (SEND_ADD_EPOLLIN, cs_touch w fd s)"

definition cs_active_send :: "cworld \<Rightarrow> ptr \<Rightarrow> byte \<Rightarrow> byte \<Rightarrow> byte list \<Rightarrow> u16 \<Rightarrow> cs_state \<Rightarrow> cs_state" where
  "cs_active_send w fd cmdid status b bodylen s =
     c_send fd (create_sig_msg cmdid status b bodylen)
       (set_cpeer fd ((cpeers s fd)\<lparr>cp_hbtime := e_now (cw_env w)\<rparr>) s)"

definition cs_active_connect :: "cworld \<Rightarrow> t_ip_info \<Rightarrow> cs_state \<Rightarrow> cs_state" where
  "cs_active_connect w ipinfo s =
     (let fd = cw_connect w (ii_s_ip ipinfo) in
      if fd < 0 then s
      else let (r, s) = cs_svc_initconn w (nat fd) s in
        if r \<noteq> 0 then s\<lparr>cclosed := cclosed s @ [nat fd]\<rparr>
        else
          let body = text_bytes (ii_sip (cw_self w));
              s = set_cpeer (nat fd) ((cpeers s (nat fd))\<lparr>cp_role := ii_role ipinfo\<rparr>) s
          in cs_active_send w (nat fd) ADDONE_REQ
               (if ii_role ipinfo = ROLE_FCS then C_A_2_F
                else if ii_role ipinfo = ROLE_CS then stat_byte (self_stat (ccfg s)) else C_A_2_T)
               body (word_of_nat (length body)) s)"

text \<open>Whether a configured machine is one this one keeps a connection to.\<close>

definition cs_wanted :: "cworld \<Rightarrow> t_ip_info \<Rightarrow> bool" where
  "cs_wanted w i \<longleftrightarrow>
     (let self = cw_self w in
      \<not> ii_isself i \<and>
      \<not> (ii_role i = ROLE_CS \<and> ii_archive_isp self = ISP_FCS \<and> (ii_isp self = MP4 \<or> ii_isp i \<ge> EDU)) \<and>
      \<not> (ii_role i = ROLE_CS \<and> take 1 (ii_dirs self) \<noteq> take 1 (ii_dirs i)) \<and>
      ii_role i \<noteq> ROLE_VOSS_MASTER)"

definition cs_connect_one :: "cworld \<Rightarrow> cs_state \<Rightarrow> ptr \<Rightarrow> cs_state" where
  "cs_connect_one w s p =
     (let i = infos (ccfg s) p in
      if \<not> cs_wanted w i then s
      else case cs_find_ip_stat w (ii_ip i) s of
        None \<Rightarrow> if ii_offline i then s
                else if self_stat (ccfg s) \<noteq> OFF_LINE then cs_active_connect w i s else s
      | Some (Peer fd) \<Rightarrow> if self_stat (ccfg s) = OFF_LINE then cs_do_close fd s else s
      | Some (Shifted fd) \<Rightarrow> s)"

fun cs_connect_buckets :: "nat \<Rightarrow> cworld \<Rightarrow> cs_state \<Rightarrow> cs_state" where
  "cs_connect_buckets k w s =
     (if cscan_i s < 256 then
        let s = foldl (cs_connect_one w) s (hlists (ccfg s) (Cfg (cscan_i s))) in
        (case k of 0 \<Rightarrow> s | Suc j \<Rightarrow> cs_connect_buckets j w (s\<lparr>cscan_i := cscan_i s + 1\<rparr>))
      else s)"

declare cs_connect_buckets.simps [simp del]

definition cs_scan_cfg_iplist_and_connect :: "cworld \<Rightarrow> cs_state \<Rightarrow> cs_state" where
  "cs_scan_cfg_iplist_and_connect w s =
     (if ii_isp (cw_self w) \<ge> EDU \<and> ii_isp (cw_self w) \<noteq> MP4 then s
      else if get_cfg_lock (cw_env w) \<noteq> 0 then s
      else let s = cs_connect_buckets 19 w s
           in if cscan_i s \<ge> 256 then s\<lparr>cscan_i := 0\<rparr> else s)"

section \<open>Listing a directory\<close>

text \<open>The message for one entry of the directory, if the entry is to be sent.\<close>

definition sync_entry ::
  "cworld \<Rightarrow> cs_state \<Rightarrow> t_vfs_sync_task \<Rightarrow> string \<Rightarrow> string \<Rightarrow> string \<Rightarrow> byte list option" where
  "sync_entry w s task dir realpath name =
     (let lw = local_of w s; fs = lo_fs (clocal s) in
      if take 1 name = ''.'' then None
      else if ii_isp (cw_self w) \<noteq> MP4 \<and> check_file_filter name (cw_filter w) \<noteq> 0 then None
      else if ii_isp (cw_self w) = MP4 \<and> check_mp4_filter name \<noteq> 0 then None
      else
        let p = path_of (take 255 (dir @ ''/'' @ name)) in
        case sys_stat (lw_kernel lw) p fs of None \<Rightarrow> None
        | Some i \<Rightarrow>
          let st = fs_inode fs i in
          if sy_starttime task \<noteq> 0 \<and> in_ctime st < sy_starttime task then None
          else if sy_endtime task \<noteq> 0 \<and> in_ctime st > sy_endtime task then None
          else if \<not> k_grants (lw_kernel lw) S_read p then None
          else case getfilemd5view (lw_junk lw) (file_for_digest lw p fs) of None \<Rightarrow> None
          | Some md5 \<Rightarrow>
            let base = zero_base\<lparr>tb_filename := take 255 (realpath @ ''/'' @ name),
                  tb_src_domain := take 15 (sy_domain task), tb_fsize := int (length (in_data st)),
                  tb_fmode := in_mode st OR 0x8000, tb_mtime := in_mtime st,
                  tb_ctime := in_ctime st - cw_task_timeout w, tb_filemd5 := take 32 md5, tb_type := TASK_ADDFILE\<rparr>
            in Some (create_sig_msg NEWTASK_REQ TASK_SYNC_DIR (bytes_of (cw_abi w) base) (sizeof_base (cw_abi w))))"

fun sync_entries :: "(string \<Rightarrow> byte list option) \<Rightarrow> string list \<Rightarrow> byte list \<Rightarrow> byte list" where
  "sync_entries msg [] out = out"
| "sync_entries msg (name # names) out =
     (case msg name of
        None \<Rightarrow> sync_entries msg names out
      | Some m \<Rightarrow> if length m + length out \<ge> MAXSYNCBUF then out
                  else sync_entries msg names (out @ m))"

text \<open>The bytes written into the buffer, and how the request ended.\<close>

definition do_sync_dir_req_sub :: "cworld \<Rightarrow> cs_state \<Rightarrow> t_vfs_sync_task \<Rightarrow> byte list \<times> byte" where
  "do_sync_dir_req_sub w s task =
     (let datadir = (case lw_conf (cw_lw w) ''vfs_cs_datadir'' of None \<Rightarrow> ''/diska'' | Some d \<Rightarrow> d);
          realpath = take 255 (datadir @ ''/'' @ show_int (sy_d1 task) @ ''/'' @ show_int (sy_d2 task));
          dir = take 255 (datadir @ ''/'' @ show_int (sy_d1 task) @ ''/'' @ show_int (sy_d2 task) @ ''/''
                  @ sy_domain task @ ''/flvdownload'');
          (out, over) = (case lw_readdir (cw_lw w) dir of
              None \<Rightarrow> ([], OVER_E_OPEN_SRCFILE)
            | Some es \<Rightarrow> (sync_entries (sync_entry w s task dir realpath) (map fst es) [], OVER_OK))
      in (out @ create_sig_msg SYNC_DIR_RSP TASK_SYNC_DIR (cw_sync_bytes w task) (cw_sync_size w), over))"

text \<open>One round of the thread: \<open>buf\<close> says whether its \<open>malloc\<close> succeeds.\<close>

definition sync_dir_step :: "cworld \<Rightarrow> bool \<Rightarrow> cs_state \<Rightarrow> cs_state" where
  "sync_dir_step w buf s =
     (case vfs_get_task (cw_env w) TASK_Q_SYNC_DIR_REQ s of
        (r, None, s) \<Rightarrow> s
      | (r, Some t, s) \<Rightarrow>
        if r \<noteq> GET_TASK_OK then s
        else if \<not> buf then
          snd (vfs_set_task (cw_env w) t TASK_Q_SYNC_DIR_RSP
            (set_base t ((tbase s t)\<lparr>tb_overstatus := OVER_MALLOC\<rparr>) (s\<lparr>csrsp := (csrsp s)(t := None)\<rparr>)))
        else
          let (out, over) = do_sync_dir_req_sub w s (csreq s t)
          in snd (vfs_set_task (cw_env w) t TASK_Q_SYNC_DIR_RSP
               (set_base t ((tbase s t)\<lparr>tb_fsize := int (length out), tb_overstatus := over\<rparr>)
                  (s\<lparr>csrsp := (csrsp s)(t := Some out)\<rparr>))))"

end
