(* ===== verification/CsTask.thy ===== *)
theory CsTask
  imports CsBase
begin

text \<open>
  The storage machine, second part (\<open>vfs_sig_task.c\<close> and the first half of
  \<open>vfs_sig_sub.c\<close>): a new task is checked against the local file and queued, a finished
  one is tried again, passed on to the machines of its group, answered and cleaned.
\<close>

text \<open>\<open>str2ip\<close> of an address text.\<close>

definition cs_self_addr :: "cworld \<Rightarrow> u32" where
  "cs_self_addr w = str2ip (ii_sip (cw_self w))"

section \<open>A new task\<close>

text \<open>The record for a link's second name: only name and domain are set.\<close>

definition link_base :: "t_task_base \<Rightarrow> t_task_base" where
  "link_base base = zero_base\<lparr>tb_filename := tb_linkfile base, tb_src_domain := tb_src_domain base\<rparr>"

definition new_sub :: "cworld \<Rightarrow> ptr \<Rightarrow> cs_state \<Rightarrow> t_task_base \<Rightarrow> byte \<Rightarrow> string \<Rightarrow> t_task_sub" where
  "new_sub w fd s base status peerip =
     (let role = cp_role (cpeers s fd);
          sub = zero_sub\<lparr>ts_processlen := tb_fsize base, ts_starttime := e_now (cw_env w),
            ts_lasttime := e_now (cw_env w), ts_oper_type := OPER_GET_REQ, ts_peerip := peerip\<rparr>;
          sub = (if role = ROLE_TRACKER then sub\<lparr>ts_need_sync := TASK_SOURCE\<rparr>
                 else if role = ROLE_CS then
                   sub\<lparr>ts_peerip := ip2str (cp_ip (cpeers s fd)), ts_need_sync := TASK_SRC_NOSYNC\<rparr>
                 else sub)
      in if status = TASK_SYNC_DIR then sub\<lparr>ts_need_sync := TASK_SYNC_ISDIR\<rparr> else sub)"

definition set_local_fs :: "filesys \<Rightarrow> cs_state \<Rightarrow> cs_state" where
  "set_local_fs fs s = s\<lparr>clocal := (clocal s)\<lparr>lo_fs := fs\<rparr>\<rparr>"

text \<open>The end of \<open>do_newtask\<close>, once the record is filled in.\<close>

definition finish_newtask :: "cworld \<Rightarrow> ptr \<Rightarrow> cs_state \<Rightarrow> cs_state" where
  "finish_newtask w t s =
     snd (vfs_set_task (cw_env w) t TASK_FIN (set_base t ((tbase s t)\<lparr>tb_overstatus := OVER_OK\<rparr>) s))"

definition start_newtask :: "cworld \<Rightarrow> byte \<Rightarrow> t_task_base \<Rightarrow> ptr \<Rightarrow> cs_state \<Rightarrow> cs_state" where
  "start_newtask w status base t s =
     (let lw = local_of w s in
      if tb_type base = TASK_DELFILE then
        finish_newtask w t (s\<lparr>clocal := snd (delete_localfile lw base (clocal s))\<rparr>)
      else
        let s = set_base t ((tbase s t)\<lparr>tb_okindex := 1\<rparr>) s;
            (ret, base', fs) = check_localfile_md5 lw base VIDEOFILE (lo_fs (clocal s));
            s = set_local_fs fs s
        in if ret = LOCALFILE_OK then finish_newtask w t s
           else
             let (ret2, b2, fs2) = (if tb_type base = TASK_LINKFILE
                     then check_localfile_md5 lw (link_base base) VIDEOFILE (lo_fs (clocal s))
                     else (LOCALFILE_FILE_E, base, lo_fs (clocal s)));
                 s = set_local_fs fs2 s
             in if ret2 = LOCALFILE_OK then finish_newtask w t s
                else
                  let s = set_base t ((tbase s t)\<lparr>tb_overstatus := OVER_UNKNOWN\<rparr>) s in
                  if status \<noteq> TASK_SYNC_DIR then
                    snd (add_task_to_alltask (cw_env w) ROLE_CS t
                      (cs_set_tmp w t (snd (vfs_set_task (cw_env w) t TASK_WAIT s))))
                  else snd (vfs_set_task (cw_env w) t TASK_Q_SYNC_DIR s))"

text \<open>The task of the message; the code changes it where it stands in the message's body.\<close>

definition new_base :: "cworld \<Rightarrow> byte list \<Rightarrow> t_task_base" where
  "new_base w b = (base_of (cw_abi w) b)\<lparr>tb_starttime := e_now (cw_env w), tb_dstip := cs_self_addr w,
     tb_retry := 0, tb_offsize := 0\<rparr>"

text \<open>A record taken from the pool keeps its old \<open>upip\<close> unless the tracker sent the task.\<close>

definition cs_do_newtask :: "cworld \<Rightarrow> ptr \<Rightarrow> byte \<Rightarrow> byte list \<Rightarrow> cs_state \<Rightarrow> int \<times> cs_state" where
  "cs_do_newtask w fd status b s =
     (let base = new_base w b;
          peer = cpeers s fd;
          src = (if cp_role peer \<noteq> ROLE_CS then
                   (case get_ip_info (cw_env w) (cw_out w) (tb_src_domain base) True (ccfg s) of
                      (r, Some p) \<Rightarrow> Some (ii_s_ip (infos (ccfg s) p)) | (r, None) \<Rightarrow> None)
                 else Some [])
      in case src of None \<Rightarrow> (-1, s)
         | Some peerip \<Rightarrow>
           if cp_role peer = ROLE_CS \<and> self_stat (ccfg s) = OFF_LINE then (0, s)
           else case cs_get_home w s of
             (r, None, s) \<Rightarrow> (-1, s)
           | (r, Some t, s) \<Rightarrow>
             if r \<noteq> GET_TASK_OK then (-1, s)
             else
               let sub = new_sub w fd s base status (take 15 peerip);
                   s = (if cp_role peer = ROLE_TRACKER
                        then s\<lparr>tasks := (tasks s)(t := (tasks s t)\<lparr>tl_upip := cp_ip peer\<rparr>)\<rparr> else s);
                   s = (if status = TASK_SYNC_DIR then s\<lparr>ctotal_sync := ctotal_sync s + 1\<rparr> else s);
                   s = set_task t (zero_task\<lparr>ti_base := base, ti_sub := sub\<rparr>) s
               in (0, start_newtask w status base t s))"

section \<open>Answers and hand-outs\<close>

definition do_task_rsp :: "cworld \<Rightarrow> ptr \<Rightarrow> cs_state \<Rightarrow> cs_state" where
  "do_task_rsp w t s =
     (case cs_peer_at w (tl_upip (tasks s t)) s of None \<Rightarrow> s
      | Some fd \<Rightarrow>
        set_cpeer fd ((cpeers s fd)\<lparr>cp_sock_stat := SEND_LAST\<rparr>)
          (c_send fd (create_sig_msg NEWTASK_RSP (tb_overstatus (tbase s t))
             (bytes_of (cw_abi w) (tbase s t)) (sizeof_base (cw_abi w))) s))"

definition do_dispatch_task :: "cworld \<Rightarrow> ptr \<Rightarrow> ptr \<Rightarrow> cs_state \<Rightarrow> cs_state" where
  "do_dispatch_task w t fd s =
     c_send fd (create_sig_msg NEWTASK_REQ TASK_SYNC (bytes_of (cw_abi w) (tbase s t)) (sizeof_base (cw_abi w))) s"

text \<open>The start time is also written into the task the new one is made from.\<close>

definition cs_create_delay_task :: "cworld \<Rightarrow> u32 \<Rightarrow> ptr \<Rightarrow> cs_state \<Rightarrow> cs_state" where
  "cs_create_delay_task w ip t0 s =
     (case cs_get_home w s of
        (r, None, s) \<Rightarrow> s
      | (r, Some t, s) \<Rightarrow>
        if r \<noteq> GET_TASK_OK then s
        else
          let s = s\<lparr>userl := lf_del t (userl s)\<rparr>;
              s = set_base t0 ((tbase s t0)\<lparr>tb_starttime := e_now (cw_env w)\<rparr>) s;
              s = set_task t (zero_task\<lparr>ti_base := tbase s t0,
                    ti_sub := zero_sub\<lparr>ts_peerip := ip2str ip, ts_oper_type := SYNC_2_GROUP\<rparr>\<rparr>) s
          in cs_set_tmp w t (snd (vfs_set_task (cw_env w) t TASK_WAIT_SYNC s)))"

text \<open>Machine \<open>i\<close> of the directory belongs to this machine's group and is another one.\<close>

definition in_group :: "cworld \<Rightarrow> t_cs_dir_info \<Rightarrow> nat \<Rightarrow> bool" where
  "in_group w cs i \<longleftrightarrow>
     (let self = cw_self w in
      (if ii_archive self then cd_real_isp cs i = ii_real_isp self \<and> cd_archive_isp cs i = ii_archive_isp self
       else cd_isp cs i = ii_isp self) \<and>
      cd_ip cs i \<noteq> str2ip (ii_s_ip self))"

definition sync_one :: "cworld \<Rightarrow> t_cs_dir_info \<Rightarrow> ptr \<Rightarrow> cs_state \<Rightarrow> nat \<Rightarrow> cs_state" where
  "sync_one w cs t s i =
     (if \<not> in_group w cs i then s
      else case cs_find_ip_stat w (cd_ip cs i) s of
        None \<Rightarrow> cs_create_delay_task w (cd_ip cs i) t s
      | Some pr \<Rightarrow>
        (case get_ip_info_by_uint (cw_env w) (cd_ip cs i) True [CHR '' ''] [CHR '' ''] (ccfg s) of
           (r, None) \<Rightarrow> s
         | (r, Some p) \<Rightarrow>
           if ii_offline (infos (ccfg s) p) then s
           else (case pr of Peer fd \<Rightarrow> do_dispatch_task w t fd s | Shifted _ \<Rightarrow> s)))"

definition sync_task_2_group :: "cworld \<Rightarrow> ptr \<Rightarrow> cs_state \<Rightarrow> int \<times> cs_state" where
  "sync_task_2_group w t s =
     (case get_cs_info_by_path (cw_env w) (tb_filename (tbase s t)) (ccfg s) of
        None \<Rightarrow> (-1, s)
      | Some cs \<Rightarrow>
        (0, foldl (sync_one w cs t) (set_base t ((tbase s t)\<lparr>tb_offsize := 0\<rparr>) s) [0..<cd_index cs]))"

definition cs_do_sync_dir_req :: "cworld \<Rightarrow> ptr \<Rightarrow> byte list \<Rightarrow> cs_state \<Rightarrow> cs_state" where
  "cs_do_sync_dir_req w fd b s =
     (case cs_get_home w s of
        (r, None, s) \<Rightarrow> c_send fd (create_sig_msg SYNC_DIR_RSP TASK_SYNC_DIR b (cw_sync_size w)) s
      | (r, Some t, s) \<Rightarrow>
        if r \<noteq> GET_TASK_OK then c_send fd (create_sig_msg SYNC_DIR_RSP TASK_SYNC_DIR b (cw_sync_size w)) s
        else
          let y = cw_sync_of w b;
              s = set_task t ((tl_task (tasks s t))\<lparr>ti_user := None,
                    ti_base := zero_base\<lparr>tb_filename := sy_domain y, tb_dstip := cw_peerip w fd\<rparr>\<rparr>)
                    (s\<lparr>csreq := (csreq s)(t := y)\<rparr>)
          in snd (vfs_set_task (cw_env w) t TASK_Q_SYNC_DIR_REQ s))"

text \<open>
  The deletions sent for one request: the first has the file name the log gives, the others
  none.  Every round raises the record number, which the log bounds: fuel is its length.
\<close>

fun del_msgs :: "nat \<Rightarrow> (t_task_base \<Rightarrow> byte list) \<Rightarrow> (int \<Rightarrow> int) \<Rightarrow> t_task_base \<Rightarrow> int \<Rightarrow> byte list list" where
  "del_msgs 0 msg get base next = []"
| "del_msgs (Suc k) msg get base next =
     msg base #
     (let next = get (next + 1); base = base\<lparr>tb_filename := []\<rparr> in
      if next = -1 then [] else del_msgs k msg get base next)"

definition log_length :: "local_world \<Rightarrow> t_task_base \<Rightarrow> filesys \<Rightarrow> nat" where
  "log_length lw base fs =
     (case contents (log_path lw base) fs of None \<Rightarrow> 0 | Some d \<Rightarrow> length d div DEL_RECORD)"

definition cs_do_sync_del_req :: "cworld \<Rightarrow> ptr \<Rightarrow> byte list \<Rightarrow> cs_state \<Rightarrow> cs_state" where
  "cs_do_sync_del_req w fd b s =
     (let lw = local_of w s; k = lw_kernel lw; dd = lw_conf lw ''vfs_deldir''; fs = lo_fs (clocal s);
          y = cw_sync_of w b;
          base = zero_base\<lparr>tb_src_domain := take 15 (sy_domain y), tb_type := TASK_DELFILE\<rparr>;
          (next, base) = find_last_index k ROLE_CS dd fs base (sy_starttime y);
          msg = (\<lambda>base. create_sig_msg NEWTASK_REQ TASK_SYNC_DIR (bytes_of (cw_abi w) base) (sizeof_base (cw_abi w)));
          msgs = (if next = -1 then []
                  else del_msgs (Suc (log_length lw base fs)) msg
                    (\<lambda>n. get_from_del_file k ROLE_CS dd fs base n (e_now (cw_env w))) base next);
          s = foldl (\<lambda>s m. c_send fd m s) s msgs
      in c_send fd (create_sig_msg SYNC_DEL_RSP TASK_SYNC_DIR b (cw_sync_size w)) s)"

end
