(* ===== verification/CsWork.thy ===== *)
theory CsWork
  imports CsTask PoolClient
begin

text \<open>
  The storage machine, third part (\<open>vfs_sig_sub.c\<close> and the synchronisation half of
  \<open>vfs_sig_base.c\<close>): the rounds over the task queues, and the choice of the directory to
  synchronise next and of the machine to ask for it.
\<close>

section \<open>Requests of the VOSS master\<close>

text \<open>
  The first machine from \<open>index\<close> on that serves the operator, is another one and is connected;
  the second result is where the search stopped, kept in a signed byte.  The index is not
  negative where the code calls it.
\<close>

definition ok_ip :: "cworld \<Rightarrow> t_cs_dir_info \<Rightarrow> isp \<Rightarrow> cs_state \<Rightarrow> nat \<Rightarrow> bool" where
  "ok_ip w cs isp s i \<longleftrightarrow>
     cd_isp cs i = isp \<and> check_self_ip (cd_ip cs i) (ccfg s) \<noteq> 0 \<and> cs_find_ip_stat w (cd_ip cs i) s \<noteq> None"

definition get_a_ok_ip :: "cworld \<Rightarrow> t_cs_dir_info \<Rightarrow> isp \<Rightarrow> byte \<Rightarrow> cs_state \<Rightarrow> u32 \<times> byte" where
  "get_a_ok_ip w cs isp index s =
     (if cd_index cs = 0 then (0, index)
      else if sint index \<ge> int (cd_index cs) then (0, index)
      else case find (ok_ip w cs isp s) [nat (sint index)..<cd_index cs] of
        Some i \<Rightarrow> (cd_ip cs i, word_of_nat i)
      | None \<Rightarrow> (0, word_of_nat (cd_index cs)))"

text \<open>What stands behind the first return is never reached.\<close>

definition do_voss_sync_file :: "cworld \<Rightarrow> ptr \<Rightarrow> cs_state \<Rightarrow> cs_state" where
  "do_voss_sync_file w t s = snd (vfs_set_task (cw_env w) t TASK_WAIT s)"

definition do_voss_sync_dir :: "cworld \<Rightarrow> ptr \<Rightarrow> cs_state \<Rightarrow> cs_state" where
  "do_voss_sync_dir w t s =
     (let base = tbase s t; name = tb_filename base in
      case strchr name (CHR ''/'') of
        None \<Rightarrow> set_base t (base\<lparr>tb_overstatus := OVER_MALLOC\<rparr>) s
      | Some k \<Rightarrow>
        if \<not> cw_mem w 0 then set_base t (base\<lparr>tb_overstatus := OVER_MALLOC\<rparr>) s
        else
          let y = zero_sync\<lparr>sy_starttime := ts_starttime (tsub s t), sy_endtime := e_now (cw_env w),
                sy_d1 := atoi name, sy_d2 := atoi (drop (Suc k) name), sy_type := TASK_ADDFILE,
                sy_domain := take 63 (tb_src_domain base)\<rparr>
          in set_self_stat WAIT_SYNC
               (set_base t (base\<lparr>tb_overstatus := OVER_OK\<rparr>)
                 (s\<lparr>csync_list := y # csync_list s, csync_flag := 0\<rparr>)))"

definition voss_one :: "cworld \<Rightarrow> ptr \<Rightarrow> cs_state \<Rightarrow> cs_state" where
  "voss_one w t s =
     (if tb_type (tbase s t) = TASK_ADDFILE then do_voss_sync_file w t s
      else if tb_type (tbase s t) = TASK_SYNCDIR then
        snd (vfs_set_task (cw_env w) t TASK_CLEAN (do_voss_sync_dir w t s))
      else snd (vfs_set_task (cw_env w) t TASK_CLEAN
             (set_base t ((tbase s t)\<lparr>tb_overstatus := OVER_E_TYPE\<rparr>) s)))"

text \<open>A listing that is ready goes to the machine that asked for it.\<close>

definition rsp_one :: "cworld \<Rightarrow> ptr \<Rightarrow> cs_state \<Rightarrow> cs_state" where
  "rsp_one w t s =
     (let home = (\<lambda>s. snd (vfs_set_task (cw_env w) t TASK_HOME s)) in
      case cs_peer_at w (tb_dstip (tbase s t)) s of
        None \<Rightarrow> home s
      | Some fd \<Rightarrow>
        if tb_overstatus (tbase s t) = OVER_MALLOC then
          home (c_send fd (create_sig_msg SYNC_DIR_RSP TASK_SYNC_DIR
                  (cw_sync_bytes w (csreq s t)) (cw_sync_size w)) s)
        else case csrsp s t of
          None \<Rightarrow> home s
        | Some o' \<Rightarrow> home ((c_send fd (take (nat (tb_fsize (tbase s t))) o') s)\<lparr>csrsp := (csrsp s)(t := None)\<rparr>))"

definition do_check_sync_task :: "cworld \<Rightarrow> cs_state \<Rightarrow> cs_state" where
  "do_check_sync_task w s =
     drain_all (cw_env w) TASK_Q_SYNC_DIR_RSP (rsp_one w) (drain_all (cw_env w) TASK_SYNC_VOSS (voss_one w) s)"

section \<open>Finished tasks\<close>

definition get_src_domain_ip :: "cworld \<Rightarrow> ptr \<Rightarrow> cs_state \<Rightarrow> int \<times> cs_state" where
  "get_src_domain_ip w t s =
     (case get_ip_info (cw_env w) (cw_out w) (tb_src_domain (tbase s t)) True (ccfg s) of
        (r, None) \<Rightarrow> (-1, s)
      | (r, Some p) \<Rightarrow>
        let sip = ii_s_ip (infos (ccfg s) p) in
        if sip \<noteq> ts_peerip (tsub s t) then
          (0, set_task t ((tl_task (tasks s t))\<lparr>ti_sub := (tsub s t)\<lparr>ts_peerip := sip\<rparr>\<rparr>) s)
        else (-1, s))"

definition again :: "cworld \<Rightarrow> ptr \<Rightarrow> cs_state \<Rightarrow> cs_state" where
  "again w t s =
     snd (vfs_set_task (cw_env w) t TASK_WAIT
       (set_base t ((tbase s t)\<lparr>tb_retry := tb_retry (tbase s t) + 1, tb_overstatus := OVER_UNKNOWN\<rparr>) s))"

definition may_retry :: "cworld \<Rightarrow> t_task_base \<Rightarrow> bool" where
  "may_retry w base \<longleftrightarrow> cw_retry w \<noteq> 0 \<and> sint (tb_retry base) < cw_retry w"

text \<open>The first half of a round: whether the task is tried again.\<close>

definition fin_retry :: "cworld \<Rightarrow> ptr \<Rightarrow> cs_state \<Rightarrow> bool \<times> cs_state" where
  "fin_retry w t s =
     (let base = tbase s t in
      if tb_overstatus base = OVER_E_MD5 then
        (if may_retry w base then (True, again w t s) else (False, s))
      else if tb_overstatus base = OVER_E_OPEN_SRCFILE then
        (if may_retry w base then
           (let (r, s) = get_src_domain_ip w t s in if r = 0 then (True, again w t s) else (False, s))
         else (False, s))
      else (False, s))"

text \<open>The second: synchronising the group or counting; true when the task is put off.\<close>

definition fin_sync :: "cworld \<Rightarrow> ptr \<Rightarrow> cs_state \<Rightarrow> bool \<times> cs_state" where
  "fin_sync w t s =
     (let base = tbase s t in
      if ts_need_sync (tsub s t) = TASK_SOURCE then
        (let (r, s) = (if tb_overstatus base = OVER_OK \<or> tb_overstatus base = OVER_UNLINK
                       then sync_task_2_group w t s else (0, s))
         in if r \<noteq> 0 then (True, snd (vfs_set_task (cw_env w) t TASK_DELAY s))
            else (False, do_task_rsp w t s))
      else if ts_need_sync (tsub s t) = TASK_SYNC_ISDIR then
        (let s = s\<lparr>ctotal_synced := ctotal_synced s + 1\<rparr> in
         (False, if csync_flag s = 2 \<and> ctotal_synced s \<ge> ctotal_sync s \<and> self_stat (ccfg s) \<noteq> OFF_LINE
                 then set_self_stat ON_LINE s else s))
      else (False, s))"

definition fin_close :: "cworld \<Rightarrow> ptr \<Rightarrow> cs_state \<Rightarrow> cs_state" where
  "fin_close w t s =
     (let base = tbase s t; e = cw_env w;
          s = (if (tb_type base = TASK_ADDFILE \<or> tb_type base = TASK_LINKFILE) \<and> tb_overstatus base = OVER_OK
               then s\<lparr>clocal := (clocal s)\<lparr>lo_stamps :=
                      snd (set_cs_time_stamp e (self_stat (ccfg s)) base (lo_stamps (clocal s)))\<rparr>\<rparr>
               else s);
          s = (if tb_type base = TASK_LINKFILE \<and> tb_overstatus base = OVER_OK
               then set_local_fs (localfile_link_task (local_of w s) base (lo_fs (clocal s))) s else s);
          s = (case ti_user (tl_task (tasks s t)) of None \<Rightarrow> s
               | Some slot \<Rightarrow> set_task t ((tl_task (tasks s t))\<lparr>ti_user := None\<rparr>)
                   (s\<lparr>tmpst := set_tmp_blank e (t_pos (tmpst s) slot) (Some slot) (tmpst s)\<rparr>));
          (r, t0, s) = get_task_from_alltask e ROLE_CS (tbase s t) (tsub s t) s
      in snd (vfs_set_task e t TASK_CLEAN s))"

definition fin_one :: "cworld \<Rightarrow> ptr \<Rightarrow> cs_state \<Rightarrow> cs_state" where
  "fin_one w t s =
     (let (done, s) = fin_retry w t s in
      if done then s
      else let (put_off, s) = fin_sync w t s in if put_off then s else fin_close w t s)"

definition do_fin_task :: "cworld \<Rightarrow> cs_state \<Rightarrow> cs_state" where
  "do_fin_task w s = drain_all (cw_env w) TASK_FIN (fin_one w) s"

section \<open>The round over the queues\<close>

definition wait_sync_one :: "cworld \<Rightarrow> ptr \<Rightarrow> cs_state \<Rightarrow> cs_state" where
  "wait_sync_one w t s =
     (let e = cw_env w; ip = str2ip (ts_peerip (tsub s t)) in
      case cs_find_ip_stat w ip s of
        None \<Rightarrow>
          (case get_ip_info e (cw_out w) (ts_peerip (tsub s t)) True (ccfg s) of
             (r, None) \<Rightarrow> snd (vfs_set_task e t TASK_FIN (set_base t ((tbase s t)\<lparr>tb_overstatus := OVER_E_IP\<rparr>) s))
           | (r, Some p) \<Rightarrow> snd (vfs_set_task e t TASK_WAIT_SYNC_IP s))
      | Some pr \<Rightarrow>
        let s = (case pr of Peer fd \<Rightarrow> do_dispatch_task w t fd s | Shifted _ \<Rightarrow> s);
            s = (case ti_user (tl_task (tasks s t)) of None \<Rightarrow> s
                 | Some slot \<Rightarrow> set_task t ((tl_task (tasks s t))\<lparr>ti_user := None\<rparr>)
                     (s\<lparr>tmpst := set_tmp_blank e (t_pos (tmpst s) slot) (Some slot) (tmpst s)\<rparr>))
        in snd (vfs_set_task e t TASK_HOME s))"

definition cs_check_task :: "cworld \<Rightarrow> cs_state \<Rightarrow> cs_state" where
  "cs_check_task w s =
     (let e = cw_env w;
          s = drain_all e TASK_DELAY (\<lambda>t s. snd (vfs_set_task e t TASK_FIN s)) s;
          s = drain (cw_max_once w) e TASK_WAIT_SYNC_IP (\<lambda>t s. snd (vfs_set_task e t TASK_WAIT_SYNC s)) s;
          s = drain (cw_max_once w) e TASK_WAIT_SYNC (wait_sync_one w) s
      in do_check_sync_task w (do_fin_task w s))"

section \<open>Choosing what to synchronise\<close>

definition do_sub_sync :: "cworld \<Rightarrow> t_vfs_sync_task \<Rightarrow> ptr \<Rightarrow> cs_state \<Rightarrow> cs_state" where
  "do_sub_sync w y fd s =
     (let cmd = (if sy_type y = TASK_ADDFILE then SYNC_DIR_REQ else SYNC_DEL_REQ);
          s = c_send fd (create_sig_msg cmd TASK_SYNC (cw_sync_bytes w y) (cw_sync_size w)) s;
          s = set_cpeer fd ((cpeers s fd)\<lparr>cp_sync := Some y\<rparr>) s
      in s\<lparr>csync_flag := 1, csync_last := e_now (cw_env w)\<rparr>)"

definition archive_source :: "cworld \<Rightarrow> t_cs_dir_info \<Rightarrow> nat \<Rightarrow> bool" where
  "archive_source w cs j \<longleftrightarrow>
     (let self = cw_self w in
      \<not> (cd_archive_isp cs j = ISP_FCS \<and> cd_isp cs j \<noteq> ii_real_isp self) \<and>
      \<not> (cd_archive_isp cs j \<noteq> ISP_FCS \<and> cd_archive_isp cs j \<noteq> ii_archive_isp self) \<and>
      cd_ip cs j \<noteq> cs_self_addr w)"

text \<open>
  One request per machine that has the directory; \<open>None\<close> when there is no configuration.
  A failing \<open>malloc\<close> ends the thread in the code and is left out.
\<close>

definition decompose_sync_dir_archive :: "cworld \<Rightarrow> t_vfs_sync_task \<Rightarrow> cs_state \<Rightarrow> t_vfs_sync_task list option" where
  "decompose_sync_dir_archive w y s =
     (case get_cs_info (cw_env w) (sy_d1 y) (sy_d2 y) (ccfg s) of
        None \<Rightarrow> None
      | Some cs \<Rightarrow> Some (map (\<lambda>j. y\<lparr>sy_ip := cd_ip cs j\<rparr>) (filter (archive_source w cs) [0..<cd_index cs])))"

text \<open>
  The walk over \<open>sync_list\<close>: every entry is unlinked; entries appended behind are visited
  too unless the walk was at the last one.  \<open>tmp\<close> are the entries put aside.  The result is
  what is left on the list and put aside; the walk need not end.
\<close>

partial_function (option) archive_walk ::
  "cworld \<Rightarrow> t_vfs_sync_task list \<Rightarrow> t_vfs_sync_task list \<Rightarrow> cs_state
   \<Rightarrow> (t_vfs_sync_task list \<times> t_vfs_sync_task list \<times> cs_state) option" where
  "archive_walk w work tmp s =
     (case work of
        [] \<Rightarrow> Some ([], tmp, s)
      | y # rest \<Rightarrow>
        if sy_ip y = 0 then
          (let added = (case decompose_sync_dir_archive w y s of None \<Rightarrow> [y] | Some ys \<Rightarrow> ys) in
           if rest = [] then Some (added, tmp, s) else archive_walk w (rest @ added) tmp s)
        else
          (case cs_peer_at w (sy_ip y) s of
             None \<Rightarrow> archive_walk w rest (tmp @ [y]) s
           | Some fd \<Rightarrow>
             if cp_sync (cpeers s fd) \<noteq> None then archive_walk w rest (tmp @ [y]) s
             else archive_walk w rest tmp (do_sub_sync w y fd s)))"

definition do_active_sync_archive :: "cworld \<Rightarrow> cs_state \<Rightarrow> cs_state option" where
  "do_active_sync_archive w s =
     map_option (\<lambda>(left, tmp, s). s\<lparr>csync_list := left @ tmp\<rparr>) (archive_walk w (csync_list s) [] s)"

text \<open>\<open>strcmp\<close>: whether the first text comes before the second.\<close>

fun str_before :: "string \<Rightarrow> string \<Rightarrow> bool" where
  "str_before s [] = False"
| "str_before [] (d # ds) = True"
| "str_before (c # cs) (d # ds) =
     (if c = d then str_before cs ds else chr_code c < chr_code d)"

text \<open>\<open>hh:mm:ss\<close> from the time as text.\<close>

definition hour_of :: "string \<Rightarrow> string" where
  "hour_of t = take 2 (drop 8 t) @ '':'' @ take 2 (drop 10 t) @ '':'' @ take 2 (drop 12 t)"

text \<open>
  The search among the machines of the directory.  The first walk, over those of the same
  operator, gives the flag, whether this machine has the lowest address so far, and the
  peer looked at last; the second goes to the other operators.
\<close>

fun sync_first :: "cworld \<Rightarrow> t_cs_dir_info \<Rightarrow> cs_state \<Rightarrow> nat list \<Rightarrow> int \<times> bool \<times> ptr option \<Rightarrow> int \<times> bool \<times> ptr option" where
  "sync_first w cs s [] acc = acc"
| "sync_first w cs s (j # js) acc =
     (let (flag, first, peer) = acc in
      if cd_archive_isp cs j \<noteq> UNKNOW_ISP then sync_first w cs s js acc
      else if cd_isp cs j \<noteq> ii_isp (cw_self w) then sync_first w cs s js acc
      else if cd_ip cs j = cs_self_addr w then sync_first w cs s js acc
      else case cs_peer_at w (cd_ip cs j) s of
        None \<Rightarrow> sync_first w cs s js acc
      | Some fd \<Rightarrow>
        let first = (if cd_ip cs j < cs_self_addr w then False else first) in
        if cp_server_stat (cpeers s fd) = 0 then sync_first w cs s js (3, first, Some fd)
        else if cp_server_stat (cpeers s fd) = stat_byte ON_LINE then (2, first, Some fd)
        else sync_first w cs s js (flag, first, Some fd))"

fun sync_second :: "cworld \<Rightarrow> t_cs_dir_info \<Rightarrow> cs_state \<Rightarrow> nat list \<Rightarrow> int \<times> ptr option \<Rightarrow> int \<times> ptr option" where
  "sync_second w cs s [] acc = acc"
| "sync_second w cs s (j # js) acc =
     (let (flag, peer) = acc in
      if cd_archive_isp cs j \<noteq> UNKNOW_ISP then sync_second w cs s js acc
      else if cd_isp cs j = ii_isp (cw_self w) then sync_second w cs s js acc
      else if cd_isp cs j > CNC then sync_second w cs s js acc
      else if cd_ip cs j = cs_self_addr w then sync_second w cs s js acc
      else case cs_peer_at w (cd_ip cs j) s of
        None \<Rightarrow> sync_second w cs s js acc
      | Some fd \<Rightarrow>
        if cp_server_stat (cpeers s fd) = stat_byte ON_LINE then (2, Some fd)
        else sync_second w cs s js (flag, Some fd))"

definition do_active_sync_one :: "cworld \<Rightarrow> cs_state \<Rightarrow> cs_state" where
  "do_active_sync_one w s =
     (case csync_list s of
        [] \<Rightarrow> s\<lparr>csync_flag := 2\<rparr>
      | y # ys \<Rightarrow>
        let s = s\<lparr>csync_list := ys\<rparr>;
            back = (\<lambda>s. s\<lparr>csync_list := csync_list s @ [y]\<rparr>);
            front = (\<lambda>s. s\<lparr>csync_list := y # csync_list s\<rparr>)
        in case get_cs_info (cw_env w) (sy_d1 y) (sy_d2 y) (ccfg s) of
             None \<Rightarrow> back s
           | Some cs \<Rightarrow>
             let (flag, first, peer) = sync_first w cs s [0..<cd_index cs] (0, True, None);
                 (flag, peer) = (if flag \<noteq> 2 then sync_second w cs s [0..<cd_index cs] (flag, peer) else (flag, peer))
             in if flag = 3 then front s
                else if flag = 2 then (case peer of Some fd \<Rightarrow> do_sub_sync w y fd s | None \<Rightarrow> s)
                else if \<not> first then front s
                else (case get_ip_info (cw_env w) (cw_out w) (sy_domain y) True (ccfg s) of
                    (r, None) \<Rightarrow> s
                  | (r, Some p) \<Rightarrow>
                    let i = infos (ccfg s) p in
                    (case cs_peer_at w (str2ip (ii_s_ip i)) s of
                       None \<Rightarrow> back (cs_active_connect w i s)
                     | Some fd \<Rightarrow> do_sub_sync w y fd s)))"

definition do_active_sync :: "cworld \<Rightarrow> cs_state \<Rightarrow> cs_state option" where
  "do_active_sync w s =
     (let run = get_task_count TASK_Q_SYNC_DIR s + get_task_count TASK_Q_SYNC_DIR_TMP s;
          hour = hour_of (lw_strtime (cw_lw w))
      in if run \<ge> 1024 then Some s
         else if ii_archive (cw_self w) then do_active_sync_archive w s
         else if str_before hour (fst (cw_window w)) \<or> str_before (snd (cw_window w)) hour then Some s
         else Some (do_active_sync_one w s))"

end
