(* ===== verification/CsSig.thy ===== *)
theory CsSig
  imports CsWork
begin

text \<open>
  The storage machine, last part: the list of directories to synchronise, the messages
  (\<open>do_req\<close>) and the periodic work (\<open>svc_timeout\<close>).
\<close>

section \<open>All directories of this machine\<close>

lemma find_in_set: "find P xs = Some x \<Longrightarrow> x \<in> set xs"
  by (induction xs) (auto split: if_splits)

lemma get_next_fcs_bounds:
  assumes "get_next_fcs d isp c \<noteq> -1"
  shows "d < get_next_fcs d isp c" and "get_next_fcs d isp c < MAXFCS"
proof -
  obtain i where i: "find (\<lambda>i. fcslist c i = isp) [d + 1..MAXFCS - 1] = Some i" "get_next_fcs d isp c = i"
    using assms by (auto simp: get_next_fcs_def split: option.splits)
  with find_in_set [OF i(1)] show "d < get_next_fcs d isp c" "get_next_fcs d isp c < MAXFCS" by simp_all
qed

function fcs_after :: "isp \<Rightarrow> cfg_state \<Rightarrow> int \<Rightarrow> int list" where
  "fcs_after isp c d =
     (let n = get_next_fcs d isp c in if n = -1 then [] else n # fcs_after isp c n)"
  by pat_completeness auto
termination
proof (relation "measure (\<lambda>(isp, c, d). nat (MAXFCS - d))")
  fix isp :: isp and c :: cfg_state and d n :: int
  assume "n = get_next_fcs d isp c" and "n \<noteq> -1"
  then have "d < n" "n < MAXFCS" using get_next_fcs_bounds [of d isp c] by simp_all
  then show "((isp, c, n), (isp, c, d)) \<in> measure (\<lambda>(isp, c, d). nat (MAXFCS - d))" by simp
qed simp

declare fcs_after.simps [simp del]

text \<open>
  One directory: a request per domain, each put at the head of the list, with the newest time
  seen.  \<open>n\<close> counts the calls of \<open>malloc\<close>; a failing one ends the whole (\<open>False\<close>).
\<close>

definition domain_name :: "int \<Rightarrow> string" where
  "domain_name d = ''fcs'' @ show_int d @ ''.56.com''"

record sync_scan =
  ss_list :: "t_vfs_sync_task list"
  ss_max :: int
  ss_n :: nat
  ss_ok :: bool

definition scan_domain :: "cworld \<Rightarrow> cs_state \<Rightarrow> int \<Rightarrow> int \<Rightarrow> sync_scan \<Rightarrow> int \<Rightarrow> sync_scan" where
  "scan_domain w s d1 d2 a domain =
     (if \<not> ss_ok a then a
      else
        let st = get_cs_time_stamp_by_int d1 d2 domain (lo_stamps (clocal s));
            newest = (if st \<le> 0 then get_cs_dir_lasttime (local_of w s) (cw_filter w) d1 d2 domain else st);
            a = a\<lparr>ss_max := max newest (ss_max a), ss_n := ss_n a + 1\<rparr>
        in if \<not> cw_mem w (ss_n a - 1) then a\<lparr>ss_ok := False\<rparr>
           else a\<lparr>ss_list := zero_sync\<lparr>sy_starttime := newest, sy_endtime := e_now (cw_env w), sy_d1 := d1, sy_d2 := d2,
                    sy_type := TASK_ADDFILE, sy_domain := domain_name domain\<rparr> # ss_list a\<rparr>)"

definition scan_dir :: "cworld \<Rightarrow> cs_state \<Rightarrow> sync_scan \<Rightarrow> string \<Rightarrow> sync_scan" where
  "scan_dir w s a dir =
     (case strchr dir (CHR ''/'') of
        None \<Rightarrow> a
      | Some k \<Rightarrow> foldl (scan_domain w s (atoi dir) (atoi (drop (Suc k) dir))) a
          (fcs_after (if ii_archive (cw_self w) then ii_archive_isp (cw_self w) else ISP_FCS) (ccfg s) 0))"

definition scan_del :: "cworld \<Rightarrow> int \<Rightarrow> sync_scan \<Rightarrow> int \<Rightarrow> sync_scan" where
  "scan_del w maxtime a domain =
     (if \<not> ss_ok a then a
      else let a = a\<lparr>ss_n := ss_n a + 1\<rparr> in
        if \<not> cw_mem w (ss_n a - 1) then a\<lparr>ss_ok := False\<rparr>
        else a\<lparr>ss_list := zero_sync\<lparr>sy_starttime := maxtime, sy_type := TASK_DELFILE,
                 sy_domain := domain_name domain\<rparr> # ss_list a\<rparr>)"

definition init_sync_list :: "cworld \<Rightarrow> cs_state \<Rightarrow> int \<times> cs_state" where
  "init_sync_list w s =
     (let dirs = takeWhile (\<lambda>d. d \<noteq> []) (take MAXDIR_FOR_CS (ii_dirs (cw_self w)));
          a = foldl (scan_dir w s) \<lparr>ss_list = csync_list s, ss_max = 0, ss_n = 0, ss_ok = True\<rparr> dirs
      in if \<not> ss_ok a then (-1, s\<lparr>csync_list := ss_list a\<rparr>)
         else
           let maxtime = (if ss_max a = 0 then e_now (cw_env w) - 86400 else ss_max a);
               a = foldl (scan_del w maxtime) a (fcs_after ISP_FCS (ccfg s) 0)
           in (if ss_ok a then 0 else -1, s\<lparr>csync_list := ss_list a\<rparr>))"

section \<open>Messages\<close>

definition note_server_stat :: "t_vfs_sig_head \<Rightarrow> byte list \<Rightarrow> ptr \<Rightarrow> cs_state \<Rightarrow> cs_state" where
  "note_server_stat h b fd s =
     (if h_bodylen h \<noteq> 1 then s else set_cpeer fd ((cpeers s fd)\<lparr>cp_server_stat := b ! 0\<rparr>) s)"

definition set_sock_stat :: "sock_stat \<Rightarrow> ptr \<Rightarrow> cs_state \<Rightarrow> cs_state" where
  "set_sock_stat st fd s = set_cpeer fd ((cpeers s fd)\<lparr>cp_sock_stat := st\<rparr>) s"

text \<open>A synchronisation is over: the peer's request is freed.\<close>

definition sync_over :: "ptr \<Rightarrow> cs_state \<Rightarrow> cs_state" where
  "sync_over fd s = (set_cpeer fd ((cpeers s fd)\<lparr>cp_sync := None\<rparr>) s)\<lparr>csync_flag := 0\<rparr>"

definition cs_do_req :: "cworld \<Rightarrow> role \<Rightarrow> ptr \<Rightarrow> t_vfs_sig_head \<Rightarrow> byte list \<Rightarrow> cs_state \<Rightarrow> int \<times> cs_state" where
  "cs_do_req w junk fd h b s =
     (let e = cw_env w;
          s = set_cpeer fd ((cpeers s fd)\<lparr>cp_hbtime := e_now e\<rparr>) s;
          stat = stat_byte (self_stat (ccfg s));
          me = text_bytes (ii_sip (cw_self w));
          cmd = h_cmdid h;
          joined = (\<lambda>s. set_cpeer fd ((cpeers s fd)\<lparr>cp_hbtime := e_now e - cw_timeout w, cp_server_stat := h_status h\<rparr>) s)
      in
      if cmd = HEARTBEAT_REQ then
        (RECV_ADD_EPOLLOUT, note_server_stat h b fd (set_sock_stat SEND_LAST fd
           (c_send fd (create_sig_msg HEARTBEAT_RSP (h_status h) [stat] 1) s)))
      else if cmd = HEARTBEAT_RSP then
        (RECV_ADD_EPOLLIN, note_server_stat h b fd (set_sock_stat IDLE fd s))
      else if cmd = ADDONE_REQ then
        (let (r, s) = cs_init_cfg_connect w junk (c_string b) fd s in
         if r \<noteq> 0 then (RECV_CLOSE, s)
         else (RECV_ADD_EPOLLOUT, set_sock_stat SEND_LAST fd
                (c_send fd (create_sig_msg ADDONE_RSP stat me (word_of_nat (length me))) (joined s))))
      else if cmd = ADDONE_RSP then
        (let (r, s) = cs_init_cfg_connect w junk (c_string b) fd s in
         if r \<noteq> 0 then (RECV_CLOSE, s) else (RECV_ADD_EPOLLIN, set_sock_stat IDLE fd (joined s)))
      else if cmd = TASKINFO_RSP then
        (if h_status h \<noteq> TASKINFO_T_2_C then RECV_ADD_EPOLLIN else RECV_ADD_EPOLLOUT, s)
      else if cmd = NEWTASK_REQ then
        (if h_bodylen h \<noteq> sizeof_base (cw_abi w) then (RECV_CLOSE, s)
         else let (r, s) = cs_do_newtask w fd (h_status h) b s in
           if r \<noteq> 0 then (RECV_ADD_EPOLLOUT, set_sock_stat SEND_LAST fd
                (c_send fd (create_sig_msg NEWTASK_RSP TASK_FAILED
                  (bytes_of (cw_abi w) (new_base w b)) (sizeof_base (cw_abi w))) s))
           else (RECV_ADD_EPOLLIN, s))
      else if cmd = NEWTASK_RSP then (RECV_ADD_EPOLLIN, s)
      else if cmd = SYNC_DIR_REQ then
        (if h_bodylen h \<noteq> cw_sync_size w then (RECV_ADD_EPOLLIN, s)
         else (RECV_ADD_EPOLLOUT, cs_do_sync_dir_req w fd b s))
      else if cmd = SYNC_DIR_RSP then (RECV_ADD_EPOLLIN, sync_over fd s)
      else if cmd = SYNC_DEL_REQ then
        (if h_bodylen h \<noteq> cw_sync_size w then (RECV_ADD_EPOLLIN, s)
         else (RECV_ADD_EPOLLOUT, cs_do_sync_del_req w fd b s))
      else if cmd = SYNC_DEL_RSP then (RECV_ADD_EPOLLIN, sync_over fd s)
      else (RECV_CLOSE, s))"

definition cs_svc_recv :: "cworld \<Rightarrow> role \<Rightarrow> ptr \<Rightarrow> mybuff \<Rightarrow> cs_state \<Rightarrow> (int \<times> mybuff \<times> cs_state) option" where
  "cs_svc_recv w junk fd m s = Conn.svc_recv (cs_do_req w junk fd) m (cs_touch w fd s)"

section \<open>Periodic work\<close>

primrec cs_timeout_peers :: "cworld \<Rightarrow> ptr list \<Rightarrow> cs_state \<Rightarrow> cs_state" where
  "cs_timeout_peers w [] s = s"
| "cs_timeout_peers w (fd # fds) s =
     (let idle = e_now (cw_env w) - cp_hbtime (cpeers s fd); to = cw_timeout w * 10 in
      if idle < cw_timeout w then s
      else if idle > cw_timeout w \<and> idle < to then
        cs_timeout_peers w fds (cs_active_send w fd HEARTBEAT_REQ
          (if cp_role (cpeers s fd) = ROLE_TRACKER then HB_C_2_T else HB_C_2_C)
          [stat_byte (self_stat (ccfg s))] 1 s)
      else if idle > to then cs_timeout_peers w fds (cs_do_close fd s)
      else cs_timeout_peers w fds s)"

definition start_sync :: "cworld \<Rightarrow> cs_state \<Rightarrow> cs_state" where
  "start_sync w s =
     (if ccs_sync_dir s \<or> self_stat (ccfg s) = UNKOWN_STAT then
        (if ii_isp (cw_self w) = TEL \<or> ii_isp (cw_self w) = CNC then
           (set_self_stat WAIT_SYNC (snd (init_sync_list w s)))\<lparr>ccs_sync_dir := False, csync_flag := 0\<rparr>
         else (set_self_stat ON_LINE s)\<lparr>ccs_sync_dir := False\<rparr>)
      else s)"

definition go_on_sync :: "cworld \<Rightarrow> cs_state \<Rightarrow> cs_state option" where
  "go_on_sync w s =
     (if self_stat (ccfg s) \<noteq> WAIT_SYNC then Some s
      else
        let s = (if csync_flag s = 1 \<and> e_now (cw_env w) - csync_last s > 600 then s\<lparr>csync_flag := 0\<rparr> else s) in
        map_option (\<lambda>s. if csync_flag s = 2 \<and> ctotal_synced s \<ge> ctotal_sync s then set_self_stat ON_LINE s else s)
          (if csync_flag s = 0 then do_active_sync w s else Some s))"

definition cs_svc_timeout :: "cworld \<Rightarrow> cs_state \<Rightarrow> cs_state option" where
  "cs_svc_timeout w s =
     (let now = e_now (cw_env w);
          s = cs_scan_cfg_iplist_and_connect w (cs_timeout_peers w (cactive s) s)
      in map_option (\<lambda>s.
           let s = cs_check_task w s in
           if now - clast_scan s > 1800 then
             do_timeout_task (cw_env w) ROLE_CS (cw_task_timeout w) (s\<lparr>clast_scan := now\<rparr>)
           else s)
         (go_on_sync w (start_sync w s)))"

end
