(* ===== verification/CsRun.thy ===== *)
theory CsRun
  imports CsSig
begin

text \<open>
  The storage machine at work: its events as a step relation, and the invariant of its task
  pool.  A task is on at most one queue, the one its status names, and every counter is the
  length of its queue, whatever the peers send and whatever fails.
\<close>

section \<open>The invariant\<close>

interpretation csp: pool_client "\<lambda>_. True" cmem "\<lambda>ms s. s\<lparr>cmem := ms\<rparr>"
  by unfold_locales simp_all

abbreviation cs_inv :: "cs_state \<Rightarrow> bool" where "cs_inv \<equiv> csp.inv"
abbreviation held :: "ptr \<Rightarrow> cs_state \<Rightarrow> bool" where "held \<equiv> csp.held"
abbreviation cs_view :: "cs_state \<Rightarrow> (int \<Rightarrow> ptr list) \<times> (ptr \<Rightarrow> int) \<times> (int \<Rightarrow> int) \<times> ptr option list" where
  "cs_view \<equiv> csp.view"

lemmas cs_inv_def = csp.inv_def [unfolded counts_on_all]
lemmas cs_view_def = csp.view_def

lemma cs_view_simps [simp]:
  "cs_view (set_cpeer fd p s) = cs_view s" "cs_view (c_send fd bs s) = cs_view s"
  "cs_view (set_self_stat st s) = cs_view s" "cs_view (set_local_fs fs s) = cs_view s"
  "cs_view (set_task t ti s) = cs_view s" "cs_view (set_base t b s) = cs_view s"
  "cs_view (s\<lparr>clocal := lo\<rparr>) = cs_view s" "cs_view (s\<lparr>csync_list := yl\<rparr>) = cs_view s"
  "cs_view (s\<lparr>csync_flag := n\<rparr>) = cs_view s" "cs_view (s\<lparr>csync_last := n\<rparr>) = cs_view s"
  "cs_view (s\<lparr>ctotal_sync := n\<rparr>) = cs_view s" "cs_view (s\<lparr>ctotal_synced := n\<rparr>) = cs_view s"
  "cs_view (s\<lparr>cuser := cu\<rparr>) = cs_view s" "cs_view (s\<lparr>cactive := ca\<rparr>) = cs_view s"
  "cs_view (s\<lparr>conline := co\<rparr>) = cs_view s" "cs_view (s\<lparr>ccfg_list := co\<rparr>) = cs_view s"
  "cs_view (s\<lparr>cclosed := cc\<rparr>) = cs_view s" "cs_view (s\<lparr>cscan_i := i\<rparr>) = cs_view s"
  "cs_view (s\<lparr>clast_scan := n\<rparr>) = cs_view s" "cs_view (s\<lparr>ccs_sync_dir := b'\<rparr>) = cs_view s"
  "cs_view (s\<lparr>csreq := rq\<rparr>) = cs_view s" "cs_view (s\<lparr>csrsp := rs\<rparr>) = cs_view s"
  "cs_view (s\<lparr>tmpst := tm\<rparr>) = cs_view s" "cs_view (s\<lparr>userl := ul\<rparr>) = cs_view s"
  "cs_view (s\<lparr>alltask := al\<rparr>) = cs_view s"
  by (simp_all add: cs_view_def set_cpeer_def c_send_def set_self_stat_def set_local_fs_def set_task_def set_base_def
      fun_eq_iff)

lemma cs_view_upip [simp]:
  "cs_view (s\<lparr>tasks := (tasks s)(t := (tasks s t)\<lparr>tl_upip := u\<rparr>)\<rparr>) = cs_view s"
  by (simp add: cs_view_def fun_eq_iff)

section \<open>Taking, putting, saving\<close>

lemma cs_get_home_inv:
  assumes "cs_inv s" and "cs_get_home w s = (r, ot, s')"
  shows "cs_inv s'" and "\<And>t. ot = Some t \<Longrightarrow> held t s'" and "\<And>u. held u s \<Longrightarrow> held u s' \<and> ot \<noteq> Some u"
  using csp.get_home_inv [OF assms(1) _ assms(2) [unfolded cs_get_home_def Let_def]]
  by (simp_all add: next_malloc_def)

lemma set_tmp_status: "set_task_to_tmp e t st = (r, rec, st') \<Longrightarrow> tl_status rec = tl_status t"
  by (auto simp: set_task_to_tmp_def Let_def split: list.splits option.splits if_splits)

lemma set_tmp_inv:
  "cs_inv s \<Longrightarrow> cs_inv (cs_set_tmp w t s)" "held u s \<Longrightarrow> held u (cs_set_tmp w t s)"
proof -
  obtain r rec tmp where e: "set_task_to_tmp (next_malloc (cw_env w) s) (tasks s t) (tmpst s) = (r, rec, tmp)"
    by (cases "set_task_to_tmp (next_malloc (cw_env w) s) (tasks s t) (tmpst s)")
  let ?s = "s\<lparr>cmem := (if t_idletmp (tmpst s) = [] then tl (cmem s) else cmem s)\<rparr>"
  have "cs_view (cs_set_tmp w t s) = cs_view ?s"
    using set_tmp_status [OF e] by (simp add: cs_set_tmp_def e cs_view_def fun_eq_iff)
  moreover have "cs_inv s \<Longrightarrow> cs_inv ?s" "held u s \<Longrightarrow> held u ?s"
    using csp.inv_tl [of s] csp.held_tl [of u s] by (auto simp del: map_filter_simps)
  ultimately show "cs_inv s \<Longrightarrow> cs_inv (cs_set_tmp w t s)" "held u s \<Longrightarrow> held u (cs_set_tmp w t s)"
    using csp.inv_view csp.held_view by blast+
qed

section \<open>The operations keep it\<close>

lemma get_home_cases:
  assumes "cs_inv s"
  obtains r s' where "cs_get_home w s = (r, None, s')" "cs_inv s'" "\<And>u. held u s \<Longrightarrow> held u s'"
  | r t s' where "cs_get_home w s = (r, Some t, s')" "cs_inv s'" "held t s'" "\<And>u. held u s \<Longrightarrow> held u s' \<and> u \<noteq> t"
proof (cases "cs_get_home w s")
  case (fields r ot s')
  note g = cs_get_home_inv [OF assms fields]
  show ?thesis
  proof (cases ot)
    case None
    then show ?thesis using that(1) fields g by blast
  next
    case (Some t)
    have "held u s \<Longrightarrow> held u s' \<and> u \<noteq> t" for u using g(3) [of u] Some by auto
    then show ?thesis using that(2) fields g Some by blast
  qed
qed

named_theorems keeps \<open>operations that keep the invariant\<close>

lemma finish_newtask_inv [keeps]: "cs_inv s \<Longrightarrow> held t s \<Longrightarrow> cs_inv (finish_newtask w t s)"
  unfolding finish_newtask_def by (rule csp.put_same) simp_all

lemma start_newtask_inv [keeps]:
  assumes inv: "cs_inv s" and t: "held t s"
  shows "cs_inv (start_newtask w status base t s)"
proof -
  have fin: "cs_inv (finish_newtask w t s')" if "cs_view s' = cs_view s" for s'
    using finish_newtask_inv csp.inv_same [OF inv that] csp.held_same [OF t that] by blast
  have put: "cs_inv (snd (vfs_set_task e t q s'))" if "cs_view s' = cs_view s" for e q s'
    by (rule csp.put_same [OF inv t that])
  have save: "cs_inv (snd (add_task_to_alltask e ROLE_CS t (cs_set_tmp w t (snd (vfs_set_task e t q s')))))"
    if "cs_view s' = cs_view s" for e q s'
    using set_tmp_inv(1) [OF put [OF that]]
    by (rule csp.inv_same) (simp add: add_task_to_alltask_def Let_def)
  show ?thesis
    unfolding start_newtask_def Let_def
    by (simp add: fin put save split: prod.split)
qed

lemma cs_view_if [simp]: "cs_view (if b then s else s') = (if b then cs_view s else cs_view s')"
  by simp

lemma start_same:
  "cs_inv s \<Longrightarrow> held t s \<Longrightarrow> cs_view s' = cs_view s \<Longrightarrow> cs_inv (start_newtask w status base t s')"
  using start_newtask_inv csp.inv_same csp.held_same by blast

lemma do_newtask_inv [keeps]:
  assumes "cs_inv s"
  shows "cs_inv (snd (cs_do_newtask w fd status b s))"
  using assms
proof (cases rule: get_home_cases [where w = w])
  case (1 r s')
  with assms show ?thesis by (simp add: cs_do_newtask_def Let_def split: option.split prod.split)
next
  case (2 r t s')
  note st = start_same [OF 2(2,3)]
  from 2(1,2) assms show ?thesis
    by (simp add: cs_do_newtask_def Let_def st split: option.split prod.split)
qed

lemma create_delay_inv:
  assumes inv: "cs_inv s" and t0: "held t0 s"
  shows "cs_inv (cs_create_delay_task w ip t0 s) \<and> held t0 (cs_create_delay_task w ip t0 s)"
  using inv
proof (cases rule: get_home_cases [where w = w])
  case (1 r s')
  then show ?thesis using t0 by (simp add: cs_create_delay_task_def)
next
  case (2 r t s')
  have u: "held t0 s'" "t0 \<noteq> t" using 2(4) t0 by blast+
  have n: "cs_inv (cs_set_tmp w t (snd (vfs_set_task e t q s2))) \<and>
           held t0 (cs_set_tmp w t (snd (vfs_set_task e t q s2)))" if "cs_view s2 = cs_view s'" for e q s2
    using set_tmp_inv(1) [OF csp.put_same [OF 2(2,3) that]] set_tmp_inv(2) [OF csp.put_held [OF 2(2,3) that u]] by blast
  show ?thesis
    using 2(1,2) u(1) by (simp add: cs_create_delay_task_def Let_def n)
qed

lemma dispatch_view [simp]: "cs_view (do_dispatch_task w t fd s) = cs_view s"
  by (simp add: do_dispatch_task_def)

lemma task_rsp_view [simp]: "cs_view (do_task_rsp w t s) = cs_view s"
  by (simp add: do_task_rsp_def split: option.split)

lemma dispatch_inv [simp]:
  "cs_inv (do_dispatch_task w t fd s) = cs_inv s" "held u (do_dispatch_task w t fd s) = held u s"
  by (rule csp.inv_view csp.held_view, simp)+

lemma send_inv [simp]: "cs_inv (c_send fd bs s) = cs_inv s" "held u (c_send fd bs s) = held u s"
  by (rule csp.inv_view csp.held_view, simp)+

lemma sync_one_inv:
  "cs_inv s \<Longrightarrow> held t s \<Longrightarrow> cs_inv (sync_one w cs t s i) \<and> held t (sync_one w cs t s i)"
  using create_delay_inv [of s t w "cd_ip cs i"]
  by (simp add: sync_one_def split: option.split prod.split peer_ref.split)

lemma sync_all_inv:
  "cs_inv s \<Longrightarrow> held t s \<Longrightarrow> cs_inv (foldl (sync_one w cs t) s is) \<and> held t (foldl (sync_one w cs t) s is)"
  by (induction "is" arbitrary: s) (simp_all add: sync_one_inv)

lemma sync_group_inv:
  assumes "cs_inv s" and "held t s"
  shows "cs_inv (snd (sync_task_2_group w t s)) \<and> held t (snd (sync_task_2_group w t s))"
  using assms sync_all_inv [OF csp.inv_same [OF assms(1)] csp.held_same [OF assms(2)]]
  by (simp add: sync_task_2_group_def split: option.split)

lemma fold_send_view [simp]: "cs_view (foldl (\<lambda>s m. c_send fd m s) s ms) = cs_view s"
  by (induction ms arbitrary: s) simp_all

lemma del_req_view [simp]: "cs_view (cs_do_sync_del_req w fd b s) = cs_view s"
  by (simp add: cs_do_sync_del_req_def Let_def split: prod.split)

lemma dir_req_inv [keeps]:
  assumes "cs_inv s"
  shows "cs_inv (cs_do_sync_dir_req w fd b s)"
  using assms
proof (cases rule: get_home_cases [where w = w])
  case (1 r s')
  then show ?thesis by (simp add: cs_do_sync_dir_req_def)
next
  case (2 r t s')
  have n: "cs_inv (snd (vfs_set_task e t q s2))" if "cs_view s2 = cs_view s'" for e q s2
    by (rule csp.put_same [OF 2(2,3) that])
  have v: "cs_inv s2" if "cs_view s2 = cs_view s'" for s2 using csp.inv_same [OF 2(2) that] .
  show ?thesis using 2(1) by (simp add: cs_do_sync_dir_req_def Let_def n v)
qed

section \<open>The rounds\<close>

lemma voss_dir_view [simp]: "cs_view (do_voss_sync_dir w t s) = cs_view s"
  by (simp add: do_voss_sync_dir_def Let_def split: option.split)

lemma voss_one_inv: "cs_inv s \<Longrightarrow> held t s \<Longrightarrow> cs_inv (voss_one w t s)"
  by (simp add: voss_one_def do_voss_sync_file_def csp.put_same)

lemma rsp_one_inv: "cs_inv s \<Longrightarrow> held t s \<Longrightarrow> cs_inv (rsp_one w t s)"
  by (simp add: rsp_one_def Let_def csp.put_same split: option.split)

lemma domain_ip_view [simp]: "cs_view (snd (get_src_domain_ip w t s)) = cs_view s"
  by (simp add: get_src_domain_ip_def Let_def split: option.split prod.split)

lemma again_inv: "cs_inv s \<Longrightarrow> held t s \<Longrightarrow> cs_inv (again w t s)"
  by (simp add: again_def csp.put_same)

lemma fin_retry_inv:
  assumes "cs_inv s" and "held t s" and "fin_retry w t s = (b, s')"
  shows "cs_inv s'" and "\<not> b \<Longrightarrow> held t s'"
proof -
  have v: "cs_view (snd (get_src_domain_ip w t s)) = cs_view s" by simp
  have "cs_inv s' \<and> (\<not> b \<longrightarrow> held t s')"
    using assms again_inv [of _ t w] csp.inv_same [OF assms(1) v] csp.held_same [OF assms(2) v]
    by (auto simp: fin_retry_def Let_def split: if_splits prod.splits)
  then show "cs_inv s'" "\<not> b \<Longrightarrow> held t s'" by blast+
qed

lemma fin_sync_inv:
  assumes "cs_inv s" and "held t s" and "fin_sync w t s = (b, s')"
  shows "cs_inv s'" and "\<not> b \<Longrightarrow> held t s'"
proof -
  let ?g = "snd (sync_task_2_group w t s)"
  note g = sync_group_inv [OF assms(1,2), of w]
  have rsp: "cs_inv (do_task_rsp w t z) = cs_inv z" "held t (do_task_rsp w t z) = held t z" for z
    by (rule csp.inv_view csp.held_view, simp)+
  have cnt: "cs_inv z" "held t z" if "cs_view z = cs_view s" for z
    using that assms(1,2) by (metis csp.inv_same csp.held_same)+
  have "cs_inv s' \<and> (\<not> b \<longrightarrow> held t s')"
    using assms g csp.put_inv(1) [of ?g t]
    by (auto simp: fin_sync_def Let_def rsp cnt split: if_splits prod.splits)
  then show "cs_inv s'" "\<not> b \<Longrightarrow> held t s'" by blast+
qed

lemma from_table_view: "get_task_from_alltask e role base sub s = (r, t0, s') \<Longrightarrow> cs_view s' = cs_view s"
  by (auto simp: get_task_from_alltask_def split: if_splits list.splits)

lemma fin_close_inv:
  assumes "cs_inv s" and "held t s"
  shows "cs_inv (fin_close w t s)"
proof -
  have put: "cs_inv (snd (vfs_set_task e t q s'))" if "cs_view s' = cs_view s" for e q s'
    by (rule csp.put_same [OF assms that])
  show ?thesis
    unfolding fin_close_def Let_def
    by (auto split: prod.split option.split intro!: put dest!: from_table_view)
qed

lemma fin_one_inv:
  assumes "cs_inv s" and "held t s"
  shows "cs_inv (fin_one w t s)"
proof -
  obtain b s1 where r: "fin_retry w t s = (b, s1)" by (cases "fin_retry w t s")
  obtain c s2 where y: "fin_sync w t s1 = (c, s2)" by (cases "fin_sync w t s1")
  note i1 = fin_retry_inv [OF assms r]
  show ?thesis
  proof (cases b)
    case False
    note i2 = fin_sync_inv [OF i1(1) i1(2) [OF False] y]
    with False show ?thesis by (simp add: fin_one_def r y fin_close_inv)
  qed (use i1 in \<open>simp add: fin_one_def r\<close>)
qed

lemma wait_sync_one_inv:
  assumes "cs_inv s" and "held t s"
  shows "cs_inv (wait_sync_one w t s)"
proof -
  have put: "cs_inv (snd (vfs_set_task e t q s'))" if "cs_view s' = cs_view s" for e q s'
    by (rule csp.put_same [OF assms that])
  show ?thesis
    by (simp add: wait_sync_one_def Let_def put split: option.split prod.split peer_ref.split)
qed

lemma check_task_inv [keeps]:
  assumes "cs_inv s"
  shows "cs_inv (cs_check_task w s)"
  unfolding cs_check_task_def Let_def do_check_sync_task_def do_fin_task_def
  by (intro csp.drain_all_inv csp.drain_inv voss_one_inv rsp_one_inv fin_one_inv wait_sync_one_inv csp.put_inv(1) assms)
    (simp_all add: TASK_Q_SYNC_DIR_RSP_def TASK_SYNC_VOSS_def TASK_FIN_def TASK_WAIT_SYNC_def
       TASK_WAIT_SYNC_IP_def TASK_DELAY_def TASK_HOME_def)

text \<open>A task whose time is over leaves its queue for the pool.\<close>

lemma unqueue_inv:
  assumes inv: "cs_inv s" and t: "t \<in> set (vfstask s q)" and q: "q \<noteq> TASK_HOME"
  shows "cs_inv (s\<lparr>vfstask := lf_del t (vfstask s), taskcount := (taskcount s)(q := taskcount s q - 1)\<rparr>) \<and>
    held t (s\<lparr>vfstask := lf_del t (vfstask s), taskcount := (taskcount s)(q := taskcount s q - 1)\<rparr>)"
proof -
  have wf: "lf_wf (vfstask s)" using inv by (simp add: cs_inv_def queues_ok_def)
  then have d: "distinct (vfstask s q)" by (simp add: lf_wf_def)
  have "vfstask s q \<noteq> []" using t by auto
  then have l: "int (length (removeAll t (vfstask s q))) = int (length (vfstask s q)) - 1"
    using length_removeAll_distinct [OF d t] by (cases "vfstask s q") simp_all
  have o': "removeAll t (vfstask s p) = vfstask s p" if "p \<noteq> q" for p
    using lf_wf_unique [OF wf t] that by (intro removeAll_notin) metis
  have "t \<notin> set (blocks (cmem s))" using inv t unfolding cs_inv_def lf_off_def by metis
  then show ?thesis
    using inv l o' q by (auto simp: cs_inv_def queues_ok_def counts_ok_def csp.held_def lf_off_def home_surplus_def)
qed

definition unqueued :: "ptr \<Rightarrow> cs_state \<Rightarrow> cs_state" where
  "unqueued t s =
     (let q = tl_status (tasks s t)
      in s\<lparr>vfstask := lf_del t (vfstask s), taskcount := (taskcount s)(q := taskcount s q - 1)\<rparr>)"

lemma cmem_edit [simp]: "cmem (set_task t x s) = cmem s" "cmem (set_base t b s) = cmem s"
  by (simp_all add: set_task_def set_base_def)

lemma check_timeout_shape:
  "cs_view (check_task_timeout e role tmo t s) = cs_view s \<or>
   (\<exists>s2. check_task_timeout e role tmo t s = snd (vfs_set_task e t TASK_HOME s2) \<and> cs_view s2 = cs_view (unqueued t s))"
proof (cases "tl_status (tasks s t) \<noteq> TASK_CLEAN \<and> overdue e tmo s t")
  case True
  let ?b = "(if e_now e - tb_starttime (tbase s t) > tmo
             then set_base t ((tbase s t)\<lparr>tb_overstatus := OVER_TIMEOUT\<rparr>) s else s)"
  have c: "tl_status (tasks ?b t) \<noteq> TASK_CLEAN \<and> tb_overstatus (tbase ?b t) = OVER_TIMEOUT"
    using True by (auto simp: overdue_def)
  show ?thesis
    unfolding check_task_timeout_def Let_def if_P [OF c]
    by (intro disjI2 exI conjI, rule refl)
      (simp add: unqueued_def Let_def cs_view_def fun_eq_iff split: option.split)
next
  case False
  then have "check_task_timeout e role tmo t s = s \<or>
      check_task_timeout e role tmo t s = set_base t ((tbase s t)\<lparr>tb_overstatus := OVER_TIMEOUT\<rparr>) s"
    by (auto simp: check_task_timeout_def Let_def overdue_def)
  then show ?thesis by auto
qed

lemma check_timeout_cs:
  assumes inv: "cs_inv s" and t: "t \<in> set (vfstask s q)" and q: "q \<noteq> TASK_HOME"
  shows "cs_inv (check_task_timeout e role tmo t s)"
    and "u \<noteq> t \<Longrightarrow> u \<in> set (vfstask s q) \<Longrightarrow> u \<in> set (vfstask (check_task_timeout e role tmo t s) q)"
proof -
  have st: "tl_status (tasks s t) = q" using inv t by (simp add: cs_inv_def queues_ok_def)
  have un: "cs_inv (unqueued t s)" "held t (unqueued t s)"
    using unqueue_inv [OF assms] by (simp_all add: unqueued_def Let_def st)
  show "cs_inv (check_task_timeout e role tmo t s)"
    using check_timeout_shape [of e role tmo t s] csp.inv_same [OF inv] csp.put_same [OF un] by metis
  show "u \<in> set (vfstask (check_task_timeout e role tmo t s) q)" if "u \<noteq> t" "u \<in> set (vfstask s q)"
    using check_timeout_shape [of e role tmo t s] that q
    by (auto simp: cs_view_def unqueued_def Let_def vfs_set_task_def)
qed

lemma sweep_inv:
  assumes "cs_inv s" and "set ts \<subseteq> set (vfstask s q)" and "distinct ts" and q: "q \<noteq> TASK_HOME"
  shows "cs_inv (foldl (\<lambda>s t. check_task_timeout e role tmo t s) s ts)"
  using assms(1-3)
proof (induction ts arbitrary: s)
  case (Cons t ts)
  have t: "t \<in> set (vfstask s q)" using Cons.prems by simp
  note c = check_timeout_cs [OF Cons.prems(1) t q]
  have "set ts \<subseteq> set (vfstask (check_task_timeout e role tmo t s) q)"
    by (rule subsetI, rule c(2)) (use Cons.prems in auto)
  then show ?case using Cons.IH [OF c(1)] Cons.prems by simp
qed simp

lemma scan_inv:
  assumes "cs_inv s" and "q \<noteq> TASK_HOME"
  shows "cs_inv (snd (scan_some_status_task e q (check_task_timeout e role tmo) s))"
proof -
  have "distinct (vfstask s q)" using assms(1) by (simp add: cs_inv_def queues_ok_def lf_wf_def)
  then show ?thesis
    using sweep_inv [OF assms(1) subset_refl _ assms(2)] assms(1) by (simp add: scan_some_status_task_def)
qed

lemma sweeps_inv:
  "cs_inv s \<Longrightarrow> TASK_HOME \<notin> set qs \<Longrightarrow> cs_inv (sweep_queues e role tmo qs s)"
  by (induction qs arbitrary: s) (simp_all add: sweep_queues_def scan_inv)

lemma timeout_inv [keeps]: "cs_inv s \<Longrightarrow> cs_inv (do_timeout_task e ROLE_CS tmo s)"
  unfolding do_timeout_sweeps
  by (rule sweeps_inv) (auto simp: timeout_queues_def TASK_HOME_def TASK_CLEAN_def TASK_DELAY_def TASK_SYNC_VOSS_def)

section \<open>What does not touch the tasks\<close>

lemma init_cfg_connect_view [simp]: "cs_view (snd (cs_init_cfg_connect w junk sip fd s)) = cs_view s"
  by (simp add: cs_init_cfg_connect_def Let_def split: prod.split)

lemma initconn_view [simp]: "cs_view (snd (cs_svc_initconn w fd s)) = cs_view s"
  by (simp add: cs_svc_initconn_def Let_def)

lemma finiconn_view [simp]: "cs_view (cs_svc_finiconn fd s) = cs_view s"
  by (simp add: cs_svc_finiconn_def Let_def split: option.split)

lemma do_close_view [simp]: "cs_view (cs_do_close fd s) = cs_view s"
  by (simp add: cs_do_close_def)

lemma touch_view [simp]: "cs_view (cs_touch w fd s) = cs_view s" "cs_view (snd (cs_svc_send w fd s)) = cs_view s"
  by (simp_all add: cs_touch_def cs_svc_send_def)

lemma active_send_view [simp]: "cs_view (cs_active_send w fd c st b n s) = cs_view s"
  by (simp add: cs_active_send_def)

lemma active_connect_view [simp]: "cs_view (cs_active_connect w i s) = cs_view s"
proof -
  obtain r s1 where e: "cs_svc_initconn w (nat (cw_connect w (ii_s_ip i))) s = (r, s1)"
    by (cases "cs_svc_initconn w (nat (cw_connect w (ii_s_ip i))) s")
  then have "cs_view s1 = cs_view s" using initconn_view by (metis snd_conv)
  then show ?thesis by (simp add: cs_active_connect_def Let_def e)
qed

lemma connect_one_view [simp]: "cs_view (cs_connect_one w s p) = cs_view s"
  by (simp add: cs_connect_one_def Let_def split: option.split peer_ref.split)

lemma connect_all_view [simp]: "cs_view (foldl (cs_connect_one w) s ps) = cs_view s"
  by (induction ps arbitrary: s) simp_all

lemma connect_buckets_view [simp]: "cs_view (cs_connect_buckets k w s) = cs_view s"
proof (induction k arbitrary: s)
  case 0
  show ?case by (subst cs_connect_buckets.simps) (simp add: Let_def)
next
  case (Suc k)
  show ?case by (subst cs_connect_buckets.simps) (simp add: Let_def Suc.IH)
qed

lemma scan_connect_view [simp]: "cs_view (cs_scan_cfg_iplist_and_connect w s) = cs_view s"
  by (simp add: cs_scan_cfg_iplist_and_connect_def Let_def)

lemma timeout_peers_view [simp]: "cs_view (cs_timeout_peers w fds s) = cs_view s"
  by (induction fds arbitrary: s) (simp_all add: Let_def)

lemma sub_sync_view [simp]: "cs_view (do_sub_sync w y fd s) = cs_view s"
  by (simp add: do_sub_sync_def Let_def)

lemma sync_one_view [simp]: "cs_view (do_active_sync_one w s) = cs_view s"
  by (simp add: do_active_sync_one_def Let_def split: list.split option.split prod.split)

lemma init_sync_list_view [simp]: "cs_view (snd (init_sync_list w s)) = cs_view s"
  by (simp add: init_sync_list_def Let_def)

lemma start_sync_view [simp]: "cs_view (start_sync w s) = cs_view s"
  by (simp add: start_sync_def)

lemma archive_walk_view:
  assumes "archive_walk w work tmp s = Some r"
  shows "cs_view (snd (snd r)) = cs_view s"
proof (rule archive_walk.raw_induct [where P = "\<lambda>w work tmp s r. cs_view (snd (snd r)) = cs_view s", OF _ assms], goal_cases)
  case (1 walk w work tmp s r)
  have step: "cs_view (snd (snd r)) = cs_view s'" if "walk w' work' tmp' s' = Some r" for w' work' tmp' s'
    by (rule 1(1) [OF that])
  show ?case
    using 1(2) by (auto simp: Let_def step split: list.splits if_splits option.splits)
qed

lemma active_sync_view: "do_active_sync w s = Some s' \<Longrightarrow> cs_view s' = cs_view s"
  by (auto simp: do_active_sync_def do_active_sync_archive_def Let_def dest!: archive_walk_view split: if_splits)

lemma go_on_sync_view: "go_on_sync w s = Some s' \<Longrightarrow> cs_view s' = cs_view s"
  by (auto simp: go_on_sync_def Let_def dest!: active_sync_view split: if_splits)

lemma svc_timeout_inv [keeps]:
  assumes inv: "cs_inv s" and r: "cs_svc_timeout w s = Some s'"
  shows "cs_inv s'"
proof -
  let ?s0 = "start_sync w (cs_scan_cfg_iplist_and_connect w (cs_timeout_peers w (cactive s) s))"
  obtain s1 where g: "go_on_sync w ?s0 = Some s1"
      and s': "s' = (let s = cs_check_task w s1 in
         if e_now (cw_env w) - clast_scan s > 1800 then
           do_timeout_task (cw_env w) ROLE_CS (cw_task_timeout w) (s\<lparr>clast_scan := e_now (cw_env w)\<rparr>)
         else s)"
    using r by (auto simp: cs_svc_timeout_def Let_def)
  have "cs_view s1 = cs_view s" using go_on_sync_view [OF g] by simp
  then have c: "cs_inv (cs_check_task w s1)" using check_task_inv csp.inv_same [OF inv] by blast
  have "cs_inv ((cs_check_task w s1)\<lparr>clast_scan := n\<rparr>)" for n
    by (rule csp.inv_same [OF c]) simp
  with c show ?thesis by (simp add: s' Let_def timeout_inv)
qed

lemma dir_step_inv [keeps]:
  assumes inv: "cs_inv s"
  shows "cs_inv (sync_dir_step w buf s)"
proof -
  obtain r ot s' where g: "vfs_get_task (cw_env w) TASK_Q_SYNC_DIR_REQ s = (r, ot, s')"
    by (cases "vfs_get_task (cw_env w) TASK_Q_SYNC_DIR_REQ s")
  have q: "TASK_Q_SYNC_DIR_REQ \<noteq> TASK_HOME" by (simp add: TASK_Q_SYNC_DIR_REQ_def TASK_HOME_def)
  from csp.get_inv [OF inv g] q have s': "cs_inv s'" "\<And>t. ot = Some t \<Longrightarrow> held t s'" by blast+
  have put: "cs_inv (snd (vfs_set_task e t q z))" if "ot = Some t" "cs_view z = cs_view s'" for e t q z
    by (rule csp.put_same [OF s'(1) s'(2) [OF that(1)] that(2)])
  show ?thesis
    using s'(1) put by (simp add: sync_dir_step_def g split: option.split prod.split)
qed

section \<open>Messages\<close>

lemma peer_edit_view [simp]:
  "cs_view (set_sock_stat st fd s) = cs_view s" "cs_view (note_server_stat h b fd s) = cs_view s"
  "cs_view (sync_over fd s) = cs_view s"
  by (simp_all add: set_sock_stat_def note_server_stat_def sync_over_def)

lemma if_keeps: "cs_inv (snd x) \<Longrightarrow> cs_inv (snd y) \<Longrightarrow> cs_inv (snd (if b then x else y))"
  by simp

lemma do_req_inv [keeps]:
  assumes inv: "cs_inv s"
  shows "cs_inv (snd (cs_do_req w junk fd h b s))"
proof -
  have same: "cs_inv z" if "cs_view z = cs_view s" for z by (rule csp.inv_same [OF inv that])
  let ?s = "set_cpeer fd ((cpeers s fd)\<lparr>cp_hbtime := e_now (cw_env w)\<rparr>) s"
  have s: "cs_inv ?s" by (rule same) simp
  obtain r1 z1 where i: "cs_init_cfg_connect w junk (c_string b) fd ?s = (r1, z1)"
    by (cases "cs_init_cfg_connect w junk (c_string b) fd ?s")
  then have z1: "cs_view z1 = cs_view s" using init_cfg_connect_view by (metis snd_conv cs_view_simps(1))
  obtain r2 z2 where n: "cs_do_newtask w fd (h_status h) b ?s = (r2, z2)"
    by (cases "cs_do_newtask w fd (h_status h) b ?s")
  have z2: "cs_inv z2" using do_newtask_inv [OF s, of w fd "h_status h" b] n by simp
  have z2': "cs_inv z" if "cs_view z = cs_view z2" for z by (rule csp.inv_same [OF z2 that])
  show ?thesis
    unfolding cs_do_req_def Let_def i n prod.case
    by (intro if_keeps) (simp_all add: z2 z2' z1 same dir_req_inv [OF s])
qed

lemma svc_recv_inv [keeps]:
  assumes "cs_inv s" and "cs_svc_recv w junk fd m s = Some (r, m', s')"
  shows "cs_inv s'"
proof (rule recv_loop_keeps [of cs_inv "cs_do_req w junk fd"])
  show "cs_inv (cs_touch w fd s)" by (rule csp.inv_same [OF assms(1)]) simp
  show "recv_loop (Suc (mb_len m)) (cs_do_req w junk fd) RECV_ADD_EPOLLIN m (cs_touch w fd s) = Some (r, m', s')"
    using assms(2) unfolding cs_svc_recv_def svc_recv_def .
qed (rule do_req_inv)

end
