(* ===== verification/CsReach.thy ===== *)
theory CsReach
  imports CsRun TrackerRun
begin

text \<open>
  The storage machine as a state machine: the calls the main loop makes of the plugin, the
  rounds of its thread and the moves other threads make on the queues, in any order.
\<close>

section \<open>Events and runs\<close>

datatype cs_event =
    CsAccept ptr
  | CsRecv role ptr mybuff
  | CsSent ptr
  | CsClose ptr
  | CsTick
  | CsList bool
  | CsMove int int t_vfs_taskinfo

text \<open>Another thread takes the first task of a queue, works on it and puts it on another queue.\<close>

definition other_thread :: "env \<Rightarrow> int \<Rightarrow> int \<Rightarrow> t_vfs_taskinfo \<Rightarrow> cs_state \<Rightarrow> cs_state" where
  "other_thread e q q' ti s =
     (case vfs_get_task e q s of
        (r, None, s) \<Rightarrow> s
      | (r, Some t, s) \<Rightarrow> snd (vfs_set_task e t q' (set_task t ti s)))"

text \<open>\<open>None\<close>: the call does not return, which only the archive walk can do.\<close>

definition cs_react :: "cworld \<Rightarrow> cs_event \<Rightarrow> cs_state \<Rightarrow> cs_state option" where
  "cs_react w ev s =
     (case ev of
        CsAccept fd \<Rightarrow> Some (snd (cs_svc_initconn w fd s))
      | CsRecv junk fd m \<Rightarrow> map_option (\<lambda>(r, m, s). s) (cs_svc_recv w junk fd m s)
      | CsSent fd \<Rightarrow> Some (snd (cs_svc_send w fd s))
      | CsClose fd \<Rightarrow> Some (cs_svc_finiconn fd s)
      | CsTick \<Rightarrow> cs_svc_timeout w s
      | CsList buf \<Rightarrow> Some (sync_dir_step w buf s)
      | CsMove q q' ti \<Rightarrow> if q = TASK_HOME then None else Some (other_thread (cw_env w) q q' ti s))"

definition cs_boot :: "cworld \<Rightarrow> ptr \<Rightarrow> tmp_state \<Rightarrow> cfg_state \<Rightarrow> local_state \<Rightarrow> cs_state" where
  "cs_boot w block tmp c lo = cs_svc_init w (init_task_info block
     \<lparr>tasks = (\<lambda>_. zero_tasklist), vfstask = (\<lambda>_. []), alltask = (\<lambda>_. []), userl = (\<lambda>_. []),
      taskcount = (\<lambda>_. 0), tmpst = tmp, cpeers = (\<lambda>_. zero_cs_peer), cuser = (\<lambda>_. False),
      cactive = [], conline = (\<lambda>_. []), ccfg_list = (\<lambda>_. []), ccfg = c, csent = [], cclosed = [],
      cscan_i = 0, clast_scan = 0, csync_list = [], csync_flag = 2, csync_last = 0, ctotal_sync = 0,
      ctotal_synced = 0, ccs_sync_dir = False, csreq = (\<lambda>_. zero_sync), csrsp = (\<lambda>_. None),
      cmem = [], clocal = lo\<rparr>)"

text \<open>
  A step is an event, or the system settling what \<open>malloc\<close> is going to answer: blocks that
  differ and are on no queue.
\<close>

inductive cs_step :: "cs_state \<Rightarrow> cs_state \<Rightarrow> bool" where
  happens: "cs_react w ev s = Some s' \<Longrightarrow> cs_step s s'"
| refill: "distinct (blocks ms) \<Longrightarrow> (\<And>p. p \<in> set (blocks ms) \<Longrightarrow> lf_off p (vfstask s)) \<Longrightarrow>
     cs_step s (s\<lparr>cmem := ms\<rparr>)"

inductive_cases cs_stepE: "cs_step s s'"

inductive cs_reachable :: "cs_state \<Rightarrow> bool" where
  booted: "cs_reachable (cs_boot w block tmp c lo)"
| goes_on: "cs_reachable s \<Longrightarrow> cs_step s s' \<Longrightarrow> cs_reachable s'"

lemma init_cmem:
  assumes "task_state.more s = task_state.more s'"
  shows "cmem (s :: cs_state) = cmem s'"
  using assms by (cases s; cases s'; simp)

lemma cs_boot_inv: "cs_inv (cs_boot w block tmp c lo)"
proof -
  have v: "cs_view (cs_svc_init w s) = cs_view s" for s
    by (simp add: cs_svc_init_def)
  show ?thesis
    unfolding cs_boot_def
    by (subst csp.inv_view [OF v])
      (simp add: cs_inv_def init_queues_ok init_counts_ok init_cmem [OF init_more] blocks_def map_filter_simps)
qed

lemma other_thread_inv [keeps]:
  assumes inv: "cs_inv s" and q: "q \<noteq> TASK_HOME"
  shows "cs_inv (other_thread e q q' ti s)"
proof -
  obtain r ot s' where g: "vfs_get_task e q s = (r, ot, s')" by (cases "vfs_get_task e q s")
  from csp.get_inv [OF inv g] q have s': "cs_inv s'" "\<And>t. ot = Some t \<Longrightarrow> held t s'" by blast+
  show ?thesis using s' by (simp add: other_thread_def g csp.put_same split: option.split)
qed

lemma cs_react_inv:
  assumes "cs_inv s" and "cs_react w ev s = Some s'"
  shows "cs_inv s'"
  using assms
  by (cases ev)
    (auto simp: cs_react_def csp.inv_same dir_step_inv other_thread_inv split: if_splits
      intro: svc_timeout_inv svc_recv_inv)

lemma cs_step_inv: "cs_step s s' \<Longrightarrow> cs_inv s \<Longrightarrow> cs_inv s'"
  by (auto elim!: cs_stepE intro: cs_react_inv csp.supply_inv)

lemma cs_reachable_inv: "cs_reachable s \<Longrightarrow> cs_inv s"
  by (induction rule: cs_reachable.induct) (simp_all add: cs_boot_inv cs_step_inv)

lemma cs_inv_places:
  assumes "cs_inv s"
  shows "t \<in> set (vfstask s p) \<Longrightarrow> t \<in> set (vfstask s q) \<Longrightarrow> p = q"
    and "t \<in> set (vfstask s q) \<Longrightarrow> tl_status (tasks s t) = q"
    and "distinct (vfstask s q)"
    and "taskcount s q = int (length (vfstask s q)) - home_surplus q"
  using assms lf_wf_unique [of "vfstask s" t p q]
  by (auto simp: cs_inv_def queues_ok_def counts_ok_def lf_wf_def)

end
