(* ===== verification/CsSync.thy ===== *)
theory CsSync
  imports CsReach "HOL-Library.Multiset"
begin

text \<open>
  What synchronisation does with directories and finished tasks: the listing sent for a
  directory, where a directory to synchronise goes, and what becomes of finished tasks.
\<close>

section \<open>The listing of a directory\<close>

lemma sync_entries_prefix:
  obtains k where "k \<le> length (List.map_filter msg names)"
    and "sync_entries msg names out = out @ concat (take k (List.map_filter msg names))"
    and "k = length (List.map_filter msg names) \<or>
      MAXSYNCBUF \<le> length (out @ concat (take (Suc k) (List.map_filter msg names)))"
proof (induction names arbitrary: out thesis)
  case Nil
  show ?case by (rule Nil [of 0]) (simp_all add: map_filter_simps)
next
  case (Cons name names)
  show ?case
  proof (cases "msg name")
    case None
    show ?thesis by (rule Cons.IH [of out]) (rule Cons.prems; simp add: None map_filter_simps)
  next
    case (Some m)
    show ?thesis
    proof (cases "length m + length out \<ge> MAXSYNCBUF")
      case True
      then show ?thesis by (intro Cons.prems [of 0]) (simp_all add: Some map_filter_simps)
    next
      case False
      obtain k where "k \<le> length (List.map_filter msg names)"
        "sync_entries msg names (out @ m) = (out @ m) @ concat (take k (List.map_filter msg names))"
        "k = length (List.map_filter msg names) \<or>
         MAXSYNCBUF \<le> length ((out @ m) @ concat (take (Suc k) (List.map_filter msg names)))"
        by (rule Cons.IH)
      with False show ?thesis by (intro Cons.prems [of "Suc k"]) (auto simp: Some map_filter_simps)
    qed
  qed
qed

lemma sync_entries_bound: "length out < MAXSYNCBUF \<Longrightarrow> length (sync_entries msg names out) < MAXSYNCBUF"
  by (induction names arbitrary: out) (simp_all split: option.split)

text \<open>The messages for the entries of the directory, in the order the system lists them.\<close>

definition listed :: "cworld \<Rightarrow> cs_state \<Rightarrow> t_vfs_sync_task \<Rightarrow> byte list list" where
  "listed w s task =
     (let datadir = (case lw_conf (cw_lw w) ''vfs_cs_datadir'' of None \<Rightarrow> ''/diska'' | Some d \<Rightarrow> d);
          realpath = take 255 (datadir @ ''/'' @ show_int (sy_d1 task) @ ''/'' @ show_int (sy_d2 task));
          dir = take 255 (datadir @ ''/'' @ show_int (sy_d1 task) @ ''/'' @ show_int (sy_d2 task) @ ''/''
                  @ sy_domain task @ ''/flvdownload'')
      in case lw_readdir (cw_lw w) dir of None \<Rightarrow> []
         | Some es \<Rightarrow> List.map_filter (sync_entry w s task dir realpath) (map fst es))"

lemma listing:
  obtains k where "k \<le> length (listed w s task)"
    and "fst (do_sync_dir_req_sub w s task) =
      concat (take k (listed w s task)) @
      create_sig_msg SYNC_DIR_RSP TASK_SYNC_DIR (cw_sync_bytes w task) (cw_sync_size w)"
    and "k = length (listed w s task) \<or> MAXSYNCBUF \<le> length (concat (take (Suc k) (listed w s task)))"
    and "length (concat (take k (listed w s task))) < MAXSYNCBUF"
proof -
  let ?datadir = "case lw_conf (cw_lw w) ''vfs_cs_datadir'' of None \<Rightarrow> ''/diska'' | Some d \<Rightarrow> d"
  let ?real = "take 255 (?datadir @ ''/'' @ show_int (sy_d1 task) @ ''/'' @ show_int (sy_d2 task))"
  let ?dir = "take 255 (?datadir @ ''/'' @ show_int (sy_d1 task) @ ''/'' @ show_int (sy_d2 task) @ ''/''
                  @ sy_domain task @ ''/flvdownload'')"
  show ?thesis
  proof (cases "lw_readdir (cw_lw w) ?dir")
    case None
    then show ?thesis
      by (intro that [of 0]) (simp_all add: listed_def do_sync_dir_req_sub_def Let_def MAXSYNCBUF_def)
  next
    case (Some es)
    let ?names = "map fst es" and ?msg = "sync_entry w s task ?dir ?real"
    have l: "listed w s task = List.map_filter ?msg ?names"
      using Some by (simp add: listed_def Let_def)
    have o': "fst (do_sync_dir_req_sub w s task) = sync_entries ?msg ?names [] @
        create_sig_msg SYNC_DIR_RSP TASK_SYNC_DIR (cw_sync_bytes w task) (cw_sync_size w)"
      using Some by (simp add: do_sync_dir_req_sub_def Let_def)
    have b: "length (sync_entries ?msg ?names []) < MAXSYNCBUF"
      by (rule sync_entries_bound) (simp add: MAXSYNCBUF_def)
    show ?thesis
      by (rule sync_entries_prefix [of ?msg ?names "[]"], rule that)
        (use b in \<open>simp_all add: l o'\<close>)
  qed
qed

lemma create_msg_length: "length (create_sig_msg c st b n) \<le> SIG_HEADSIZE + unat n"
  by (simp add: create_sig_msg_def Let_def le16_def SIG_HEADSIZE_def)

section \<open>Directories to synchronise\<close>

text \<open>A search that ends with flag 2 has chosen a peer that is on line.\<close>

definition chosen :: "cs_state \<Rightarrow> int \<Rightarrow> ptr option \<Rightarrow> bool" where
  "chosen s flag peer \<longleftrightarrow>
     (flag = 2 \<longrightarrow> (\<exists>fd. peer = Some fd \<and> cp_server_stat (cpeers s fd) = stat_byte ON_LINE))"

lemma chosen_other: "flag \<noteq> 2 \<Longrightarrow> chosen s flag peer"
  by (simp add: chosen_def)

lemma sync_first_chosen:
  "flag \<noteq> 2 \<Longrightarrow> sync_first w cs s js (flag, first, peer) = (flag', first', peer') \<Longrightarrow> chosen s flag' peer'"
proof (induction js arbitrary: flag first peer)
  case Nil
  then show ?case by (simp add: chosen_other)
next
  case (Cons j js)
  have ih: "f \<noteq> 2 \<Longrightarrow> sync_first w cs s js (f, fi, pe) = (flag', first', peer') \<Longrightarrow> chosen s flag' peer'" for f fi pe
    by (rule Cons.IH)
  show ?case
    using Cons.prems ih [of flag first peer] ih [of 3] ih [of flag]
    by (cases "cs_peer_at w (cd_ip cs j) s", auto simp: Let_def chosen_def split: if_splits option.splits) metis+
qed

lemma sync_second_chosen:
  "flag \<noteq> 2 \<Longrightarrow> sync_second w cs s js (flag, peer) = (flag', peer') \<Longrightarrow> chosen s flag' peer'"
proof (induction js arbitrary: flag peer)
  case Nil
  then show ?case by (simp add: chosen_other)
next
  case (Cons j js)
  have ih: "f \<noteq> 2 \<Longrightarrow> sync_second w cs s js (f, pe) = (flag', peer') \<Longrightarrow> chosen s flag' peer'" for f pe
    by (rule Cons.IH)
  show ?case
    using Cons.prems ih [of flag peer] ih [of flag]
    by (cases "cs_peer_at w (cd_ip cs j) s", auto simp: Let_def chosen_def split: if_splits option.splits) metis+
qed

definition sync_request :: "cworld \<Rightarrow> t_vfs_sync_task \<Rightarrow> byte list" where
  "sync_request w y =
     create_sig_msg (if sy_type y = TASK_ADDFILE then SYNC_DIR_REQ else SYNC_DEL_REQ) TASK_SYNC
       (cw_sync_bytes w y) (cw_sync_size w)"

text \<open>The directory is given to the peer and the request for it is sent to the same peer.\<close>

definition given_to :: "cworld \<Rightarrow> t_vfs_sync_task \<Rightarrow> ptr \<Rightarrow> cs_state \<Rightarrow> cs_state \<Rightarrow> bool" where
  "given_to w y fd s s' \<longleftrightarrow>
     cpeers s' = (cpeers s)(fd := (cpeers s fd)\<lparr>cp_sync := Some y\<rparr>) \<and>
     csent s' = csent s @ [(fd, sync_request w y)] \<and> csync_flag s' = 1 \<and> csync_last s' = e_now (cw_env w)"

lemma sub_sync_gives: "given_to w y fd s (do_sub_sync w y fd (s\<lparr>csync_list := ys\<rparr>))"
  "csync_list (do_sub_sync w y fd (s\<lparr>csync_list := ys\<rparr>)) = ys"
  by (simp_all add: given_to_def do_sub_sync_def sync_request_def c_send_def set_cpeer_def)

lemma active_connect_list [simp]: "csync_list (cs_active_connect w i s) = csync_list s"
  by (simp add: cs_active_connect_def cs_svc_initconn_def cs_active_send_def c_send_def set_cpeer_def Let_def
      split: prod.split)

lemma find_peer_list [simp]: "cs_peer_at w ip (s\<lparr>csync_list := ys\<rparr>) = cs_peer_at w ip s"
  by (simp add: cs_peer_at_def cs_find_ip_stat_def cong: option.case_cong)

lemma sync_search_list [simp]:
  "sync_first w cs (s\<lparr>csync_list := ys\<rparr>) js acc = sync_first w cs s js acc"
  "sync_second w cs (s\<lparr>csync_list := ys\<rparr>) js acc2 = sync_second w cs s js acc2"
  by (induction js arbitrary: acc acc2) (simp_all add: Let_def split: option.split prod.split)

text \<open>Where the first directory of the list goes.\<close>

lemma active_sync_one_cases:
  assumes l: "csync_list s = y # ys"
  obtains (kept) "mset (csync_list (do_active_sync_one w s)) = mset (csync_list s)"
  | (online) fd where "cp_server_stat (cpeers s fd) = stat_byte ON_LINE"
      "given_to w y fd s (do_active_sync_one w s)" "csync_list (do_active_sync_one w s) = ys"
  | (source) p r fd where "get_ip_info (cw_env w) (cw_out w) (sy_domain y) True (ccfg s) = (r, Some p)"
      "cs_peer_at w (str2ip (ii_s_ip (infos (ccfg s) p))) s = Some fd"
      "given_to w y fd s (do_active_sync_one w s)" "csync_list (do_active_sync_one w s) = ys"
  | (dropped) r where "get_ip_info (cw_env w) (cw_out w) (sy_domain y) True (ccfg s) = (r, None)"
      "do_active_sync_one w s = s\<lparr>csync_list := ys\<rparr>"
proof (cases "get_cs_info (cw_env w) (sy_d1 y) (sy_d2 y) (ccfg s)")
  case None
  then show ?thesis by (intro kept) (simp add: do_active_sync_one_def l Let_def)
next
  case (Some cs)
  obtain f1 first p1 where a1: "sync_first w cs s [0..<cd_index cs] (0, True, None) = (f1, first, p1)"
    by (cases "sync_first w cs s [0..<cd_index cs] (0, True, None)")
  have c1: "chosen s f1 p1" by (rule sync_first_chosen [OF _ a1]) simp
  obtain f2 p2 where a2: "(if f1 \<noteq> 2 then sync_second w cs s [0..<cd_index cs] (f1, p1) else (f1, p1)) = (f2, p2)"
    by (cases "if f1 \<noteq> 2 then sync_second w cs s [0..<cd_index cs] (f1, p1) else (f1, p1)")
  have a2': "(if f1 = 2 then (f1, p1) else sync_second w cs s [0..<cd_index cs] (f1, p1)) = (f2, p2)"
    using a2 by (simp split: if_splits)
  have c2: "chosen s f2 p2"
    using a2 c1 sync_second_chosen [of f1 w cs s "[0..<cd_index cs]" p1 f2 p2] by (auto split: if_splits)
  obtain r op where g: "get_ip_info (cw_env w) (cw_out w) (sy_domain y) True (ccfg s) = (r, op)"
    by (cases "get_ip_info (cw_env w) (cw_out w) (sy_domain y) True (ccfg s)")
  have e: "do_active_sync_one w s =
      (let s0 = s\<lparr>csync_list := ys\<rparr> in
       if f2 = 3 then s0\<lparr>csync_list := y # ys\<rparr>
       else if f2 = 2 then (case p2 of Some fd \<Rightarrow> do_sub_sync w y fd s0 | None \<Rightarrow> s0)
       else if \<not> first then s0\<lparr>csync_list := y # ys\<rparr>
       else (case op of None \<Rightarrow> s0
         | Some p \<Rightarrow>
            (case cs_peer_at w (str2ip (ii_s_ip (infos (ccfg s) p))) s of
               None \<Rightarrow> (cs_active_connect w (infos (ccfg s) p) s0)\<lparr>csync_list := ys @ [y]\<rparr>
             | Some fd \<Rightarrow> do_sub_sync w y fd s0)))"
    using a2' a1
    by (cases "f1 = 2"; cases op; clarsimp simp: do_active_sync_one_def l Some g Let_def cong: option.case_cong)
  consider "f2 = 3 \<or> (f2 \<noteq> 2 \<and> \<not> first)" | "f2 = 2" | "f2 \<noteq> 3" "f2 \<noteq> 2" "first" by blast
  then show ?thesis
  proof cases
    case 1
    then show ?thesis by (intro kept) (auto simp: e Let_def l)
  next
    case 2
    then obtain fd where fd: "p2 = Some fd" "cp_server_stat (cpeers s fd) = stat_byte ON_LINE"
      using c2 by (auto simp: chosen_def)
    show ?thesis by (rule online [OF fd(2)]) (simp_all add: e 2 fd(1) Let_def sub_sync_gives)
  next
    case 3
    show ?thesis
    proof (cases op)
      case None
      then show ?thesis using dropped g 3 by (simp add: e Let_def)
    next
      case (Some p)
      show ?thesis
      proof (cases "cs_peer_at w (str2ip (ii_s_ip (infos (ccfg s) p))) s")
        case None
        then show ?thesis by (intro kept) (simp add: e Let_def 3 Some l)
      next
        case fd: (Some fd)
        show ?thesis
          by (rule source [OF g [unfolded Some] fd]) (simp_all add: e Let_def 3 Some fd sub_sync_gives)
      qed
    qed
  qed
qed

text \<open>
  The directories still to be synchronised: on the list, or asked for from a peer.
\<close>

definition outstanding :: "cs_state \<Rightarrow> t_vfs_sync_task set" where
  "outstanding s = set (csync_list s) \<union> {y. \<exists>fd. cp_sync (cpeers s fd) = Some y}"

lemma finiconn_outstanding: "outstanding (cs_svc_finiconn fd s) = outstanding s"
proof (cases "cuser s fd")
  case True
  show ?thesis
  proof (cases "cp_sync (cpeers s fd)")
    case None
    have z: "(cp_sync (((cpeers s)(fd := zero_cs_peer)) f) = Some y) = (cp_sync (cpeers s f) = Some y)" for f y
      using None by (cases "f = fd") (simp_all add: zero_cs_peer_def)
    show ?thesis
      using True None z by (simp add: outstanding_def cs_svc_finiconn_def Let_def set_cpeer_def)
  next
    case (Some d)
    then show ?thesis
      using True
      by (auto simp: outstanding_def cs_svc_finiconn_def Let_def set_cpeer_def zero_cs_peer_def)
        (metis option.inject)
  qed
qed (simp add: cs_svc_finiconn_def)

lemma close_outstanding [simp]: "outstanding (cs_do_close fd s) = outstanding s"
  using finiconn_outstanding [of fd s] by (simp add: cs_do_close_def outstanding_def)

lemma active_send_outstanding [simp]: "outstanding (cs_active_send w fd c st b n s) = outstanding s"
proof -
  have "cp_sync (cpeers (cs_active_send w fd c st b n s) f) = cp_sync (cpeers s f)" for f
    by (simp add: cs_active_send_def set_cpeer_def c_send_def)
  moreover have "csync_list (cs_active_send w fd c st b n s) = csync_list s"
    by (simp add: cs_active_send_def set_cpeer_def c_send_def)
  ultimately show ?thesis by (simp add: outstanding_def)
qed

lemma timeout_outstanding [simp]: "outstanding (cs_timeout_peers w fds s) = outstanding s"
  by (induction fds arbitrary: s) (simp_all add: Let_def)

section \<open>The walk of an archive machine returns\<close>

text \<open>
  Every entry without an address can be taken apart, and into entries with an address.
\<close>

definition splits_up :: "cworld \<Rightarrow> cfg_state \<Rightarrow> t_vfs_sync_task \<Rightarrow> bool" where
  "splits_up w c y \<longleftrightarrow> sy_ip y \<noteq> 0 \<or>
     (\<exists>cs. get_cs_info (cw_env w) (sy_d1 y) (sy_d2 y) c = Some cs \<and> (\<forall>j<cd_index cs. cd_ip cs j \<noteq> 0))"

lemma sub_sync_ccfg [simp]: "ccfg (do_sub_sync w y fd s) = ccfg s"
  by (simp add: do_sub_sync_def Let_def c_send_def set_cpeer_def)

lemma split_entries:
  assumes "splits_up w (ccfg s) y" and "sy_ip y = 0"
  obtains ys where "decompose_sync_dir_archive w y s = Some ys" and "\<forall>y\<in>set ys. sy_ip y \<noteq> 0"
  using assms by (auto simp: splits_up_def decompose_sync_dir_archive_def)

lemma walk_addressed:
  "\<forall>y\<in>set work. sy_ip y \<noteq> 0 \<Longrightarrow> \<exists>r. archive_walk w work tmp s = Some r"
proof (induction work arbitrary: tmp s)
  case Nil
  show ?case by (subst archive_walk.simps) simp
next
  case (Cons y ys)
  have ih: "\<exists>r. archive_walk w ys tmp s = Some r" for tmp s
    using Cons by simp
  show ?case using Cons.prems ih by (subst archive_walk.simps) (simp split: option.split)
qed

lemma walk_returns:
  "\<forall>y\<in>set work. splits_up w (ccfg s) y \<Longrightarrow> \<forall>y\<in>set extra. sy_ip y \<noteq> 0 \<Longrightarrow>
   \<exists>r. archive_walk w (work @ extra) tmp s = Some r"
proof (induction work arbitrary: extra tmp s)
  case Nil
  then show ?case using walk_addressed [of extra] by simp
next
  case (Cons y ys)
  show ?case
  proof (cases "sy_ip y = 0")
    case True
    then obtain zs where z: "decompose_sync_dir_archive w y s = Some zs" "\<forall>y\<in>set zs. sy_ip y \<noteq> 0"
      using split_entries Cons.prems(1) by (metis list.set_intros(1))
    have "\<exists>r. archive_walk w (ys @ (extra @ zs)) tmp s = Some r"
      by (rule Cons.IH) (use Cons.prems z in auto)
    then show ?thesis using True z by (subst archive_walk.simps) simp
  next
    case False
    have ih: "\<exists>r. archive_walk w (ys @ extra) tmp' s' = Some r" if "ccfg s' = ccfg s" for tmp' s'
      by (rule Cons.IH) (use Cons.prems that in auto)
    show ?thesis using False ih by (subst archive_walk.simps) (simp split: option.split)
  qed
qed

lemma archive_returns:
  assumes "\<forall>y\<in>set (csync_list s). splits_up w (ccfg s) y"
  shows "\<exists>s'. do_active_sync_archive w s = Some s'"
  using walk_returns [OF assms, of "[]" "[]"] by (auto simp: do_active_sync_archive_def)

section \<open>Finished tasks\<close>

text \<open>
  \<open>others\<close>: the queue of finished tasks is as it was, and every task that was on another
  queue than the pool's is still there.
\<close>

definition others :: "cs_state \<Rightarrow> cs_state \<Rightarrow> bool" where
  "others s s' \<longleftrightarrow> vfstask s' TASK_FIN = vfstask s TASK_FIN \<and>
     (\<forall>q. q \<noteq> TASK_HOME \<longrightarrow> set (vfstask s q) \<subseteq> set (vfstask s' q))"

lemma others_refl: "vfstask s' = vfstask s \<Longrightarrow> others s s'"
  by (simp add: others_def)

lemma others_trans: "others s s' \<Longrightarrow> others s' s'' \<Longrightarrow> others s s''"
  by (auto simp: others_def)

lemma others_view: "cs_view s' = cs_view s \<Longrightarrow> others s s'"
  by (simp add: others_def cs_view_def)

lemma others_put:
  assumes "held t s" and "q \<noteq> TASK_FIN"
  shows "others s (snd (vfs_set_task e t q s))"
  using assms by (auto simp: others_def csp.held_def vfs_set_task_def set_status_def lf_off_def lf_del_off)

lemma others_home:
  assumes inv: "cs_inv s" and get: "cs_get_home w s = (r, ot, s')"
  shows "others s s'"
proof -
  have wf: "lf_wf (vfstask s)" using inv by (simp add: cs_inv_def queues_ok_def)
  have off: "removeAll t (vfstask s q) = vfstask s q" if "t \<in> set (vfstask s TASK_HOME)" "q \<noteq> TASK_HOME" for t q
    using lf_wf_unique [OF wf that(1)] that by (intro removeAll_notin) metis
  have h: "TASK_FIN \<noteq> TASK_HOME" by (simp add: TASK_FIN_def TASK_HOME_def)
  show ?thesis
    using get off h
    by (auto simp: others_def cs_get_home_def vfs_get_task_def set_status_def Let_def split: if_splits list.splits option.splits)
qed

text \<open>What each half of the work on a finished task does to the other queues.\<close>

lemma set_tmp_queues [simp]: "vfstask (cs_set_tmp w t s) = vfstask s"
  by (simp add: cs_set_tmp_def Let_def split: prod.split)

lemma others_put_same:
  assumes "held t s" and "q \<noteq> TASK_FIN" and "cs_view s' = cs_view s"
  shows "others s (snd (vfs_set_task e t q s'))"
  using others_trans [OF others_view [OF assms(3)] others_put [OF csp.held_same [OF assms(1,3)] assms(2)]] .

lemma queue_names: "TASK_WAIT_SYNC \<noteq> TASK_FIN" "TASK_WAIT \<noteq> TASK_FIN" "TASK_DELAY \<noteq> TASK_FIN" "TASK_CLEAN \<noteq> TASK_FIN"
  by (simp_all add: TASK_WAIT_SYNC_def TASK_WAIT_def TASK_DELAY_def TASK_CLEAN_def TASK_FIN_def)

lemma create_delay_others:
  assumes inv: "cs_inv s"
  shows "others s (cs_create_delay_task w ip t0 s)"
  using inv
proof (cases rule: get_home_cases [where w = w])
  case (1 r s')
  then show ?thesis using others_home [OF inv 1(1)] by (simp add: cs_create_delay_task_def)
next
  case (2 r t s')
  note h = others_home [OF inv 2(1)]
  have p: "others s (cs_set_tmp w t (snd (vfs_set_task e t TASK_WAIT_SYNC s2)))" if "cs_view s2 = cs_view s'" for e s2
    using others_trans [OF h others_trans [OF others_put_same [OF 2(3) queue_names(1) that] others_refl]]
    by simp
  show ?thesis using 2(1) h by (simp add: cs_create_delay_task_def Let_def p)
qed

lemma sync_one_others: "cs_inv s \<Longrightarrow> others s (sync_one w cs t s i)"
  using create_delay_others [of s w "cd_ip cs i" t]
  by (simp add: sync_one_def others_refl others_view split: option.split prod.split peer_ref.split)

lemma sync_all_others: "cs_inv s \<Longrightarrow> held t s \<Longrightarrow> others s (foldl (sync_one w cs t) s is)"
proof (induction "is" arbitrary: s)
  case (Cons i "is")
  show ?case
    using others_trans [OF sync_one_others [OF Cons.prems(1)] Cons.IH] sync_one_inv [OF Cons.prems] by simp
qed (simp add: others_refl)

lemma sync_group_others:
  assumes "cs_inv s" and "held t s"
  shows "others s (snd (sync_task_2_group w t s))"
proof -
  let ?s = "set_base t ((tbase s t)\<lparr>tb_offsize := 0\<rparr>) s"
  have v: "cs_view ?s = cs_view s" by simp
  have "others s (foldl (sync_one w cs t) ?s is)" for cs "is"
    using others_trans [OF others_view [OF v] sync_all_others [OF csp.inv_same [OF assms(1) v] csp.held_same [OF assms(2) v]]] .
  then show ?thesis by (simp add: sync_task_2_group_def others_refl split: option.split)
qed

text \<open>A task is put on a queue whose lock can be had.\<close>

lemma put_there:
  assumes "valid_status q" and "\<not> lock_failed e (M_task q)"
  shows "t \<in> set (vfstask (snd (vfs_set_task e t q s)) q)"
  using assms by (simp add: vfs_set_task_def set_status_def)

definition ends_on :: "ptr \<Rightarrow> cs_state \<Rightarrow> bool" where
  "ends_on t s \<longleftrightarrow> (\<exists>q\<in>{TASK_WAIT, TASK_DELAY, TASK_CLEAN}. t \<in> set (vfstask s q))"

definition queues_open :: "env \<Rightarrow> bool" where
  "queues_open e \<longleftrightarrow> (\<forall>q\<in>{TASK_FIN, TASK_WAIT, TASK_DELAY, TASK_CLEAN}. \<not> lock_failed e (M_task q))"

lemma valid_names: "valid_status TASK_FIN" "valid_status TASK_WAIT" "valid_status TASK_DELAY" "valid_status TASK_CLEAN"
  by (simp_all add: valid_status_def TASK_FIN_def TASK_WAIT_def TASK_DELAY_def TASK_CLEAN_def TASK_UNKNOWN_def)

lemma put_ends:
  assumes "held t s" and "cs_view s' = cs_view s" and "queues_open e" and "q \<in> {TASK_WAIT, TASK_DELAY, TASK_CLEAN}"
  shows "others s (snd (vfs_set_task e t q s')) \<and> ends_on t (snd (vfs_set_task e t q s'))"
proof -
  have "q \<noteq> TASK_FIN" "valid_status q" "\<not> lock_failed e (M_task q)"
    using assms(3,4) queue_names valid_names by (auto simp: queues_open_def)
  then show ?thesis
    using others_put_same [OF assms(1) _ assms(2)] put_there assms(4) unfolding ends_on_def by blast
qed

lemma again_ends:
  assumes "held t s" and "queues_open (cw_env w)" and "cs_view s' = cs_view s"
  shows "others s (again w t s') \<and> ends_on t (again w t s')"
  unfolding again_def by (rule put_ends [OF assms(1) _ assms(2)]) (simp_all add: assms(3))

lemma fin_retry_ends:
  assumes "held t s" and "queues_open (cw_env w)" and "fin_retry w t s = (b, s')"
  shows "if b then others s s' \<and> ends_on t s' else cs_view s' = cs_view s"
proof -
  obtain r s1 where g: "get_src_domain_ip w t s = (r, s1)" by (cases "get_src_domain_ip w t s")
  have v: "cs_view s1 = cs_view s" using domain_ip_view [of w t s] g by simp
  show ?thesis
    using assms(3) again_ends [OF assms(1,2) refl] again_ends [OF assms(1,2) v] v
    by (auto simp: fin_retry_def Let_def g split: if_splits)
qed

lemma fin_sync_ends:
  assumes inv: "cs_inv s" and t: "held t s" and op: "queues_open (cw_env w)" and r: "fin_sync w t s = (b, s')"
  shows "others s s' \<and> (b \<longrightarrow> ends_on t s')"
proof -
  obtain r g where gr: "sync_task_2_group w t s = (r, g)" by (cases "sync_task_2_group w t s")
  have og: "others s g" and hg: "held t g"
    using sync_group_others [OF inv t, of w] sync_group_inv [OF inv t, of w] gr by simp_all
  have d: "others z (snd (vfs_set_task (cw_env w) t TASK_DELAY z)) \<and> ends_on t (snd (vfs_set_task (cw_env w) t TASK_DELAY z))"
    if "held t z" for z using put_ends [OF that refl op] by simp
  have rsp: "others s (do_task_rsp w t s)" "others s (do_task_rsp w t g)"
    using others_trans [OF og others_view [OF task_rsp_view]] by (simp_all add: others_view)
  show ?thesis
    using r d [OF hg] d [OF t] rsp others_trans [OF og] og
    by (auto simp: fin_sync_def Let_def gr others_refl others_view split: if_splits)
qed

lemma fin_close_ends:
  assumes "held t s" and "queues_open (cw_env w)"
  shows "others s (fin_close w t s) \<and> ends_on t (fin_close w t s)"
proof -
  have p: "others s (snd (vfs_set_task (cw_env w) t TASK_CLEAN s')) \<and> ends_on t (snd (vfs_set_task (cw_env w) t TASK_CLEAN s'))"
    if "cs_view s' = cs_view s" for s' using put_ends [OF assms(1) that assms(2)] by simp
  show ?thesis
    unfolding fin_close_def Let_def
    by (auto split: prod.split option.split intro!: p [THEN conjunct1] p [THEN conjunct2] dest!: from_table_view)
qed

lemma fin_one_ends:
  assumes inv: "cs_inv s" and t: "held t s" and op: "queues_open (cw_env w)"
  shows "others s (fin_one w t s) \<and> ends_on t (fin_one w t s)"
proof -
  obtain b s1 where r: "fin_retry w t s = (b, s1)" by (cases "fin_retry w t s")
  obtain c s2 where y: "fin_sync w t s1 = (c, s2)" by (cases "fin_sync w t s1")
  show ?thesis
  proof (cases b)
    case True
    then show ?thesis using fin_retry_ends [OF t op r] by (simp add: fin_one_def r)
  next
    case False
    note i1 = fin_retry_inv(1) [OF inv t r] fin_retry_inv(2) [OF inv t r False]
    have o1: "others s s1" using fin_retry_ends [OF t op r] False others_view by simp
    note o2 = fin_sync_ends [OF i1 op y]
    show ?thesis
    proof (cases c)
      case True
      then show ?thesis using False o2 others_trans [OF o1] by (simp add: fin_one_def r y)
    next
      case c: False
      have "held t s2" using fin_sync_inv(2) [OF i1 y c] .
      from fin_close_ends [OF this op] o2 show ?thesis
        using False c others_trans [OF others_trans [OF o1]] by (simp add: fin_one_def r y)
    qed
  qed
qed

lemma ends_on_others: "others s s' \<Longrightarrow> ends_on t s \<Longrightarrow> ends_on t s'"
proof -
  assume o': "others s s'" and "ends_on t s"
  then obtain q where q: "q \<in> {TASK_WAIT, TASK_DELAY, TASK_CLEAN}" "t \<in> set (vfstask s q)"
    by (auto simp: ends_on_def)
  then have "q \<noteq> TASK_HOME" by (auto simp: TASK_WAIT_def TASK_DELAY_def TASK_CLEAN_def TASK_HOME_def)
  with o' q show ?thesis unfolding ends_on_def others_def by blast
qed

lemma drain_fin:
  assumes op: "queues_open (cw_env w)"
  shows "cs_inv s \<Longrightarrow> length (vfstask s TASK_FIN) < k \<Longrightarrow>
    vfstask (drain k (cw_env w) TASK_FIN (fin_one w) s) TASK_FIN = [] \<and>
    (\<forall>t. t \<in> set (vfstask s TASK_FIN) \<or> ends_on t s \<longrightarrow> ends_on t (drain k (cw_env w) TASK_FIN (fin_one w) s))"
proof (induction k arbitrary: s)
  case (Suc k)
  have lk: "\<not> lock_failed (cw_env w) (M_task TASK_FIN)" using op by (simp add: queues_open_def)
  have nh: "TASK_FIN \<noteq> TASK_HOME" by (simp add: TASK_FIN_def TASK_HOME_def)
  show ?case
  proof (cases "vfstask s TASK_FIN")
    case Nil
    then show ?thesis by (simp add: vfs_get_task_def lk nh valid_names)
  next
    case (Cons t ts)
    have ok: "queues_ok s" using Suc.prems(1) by (simp add: cs_inv_def)
    obtain s1 where g: "vfs_get_task (cw_env w) TASK_FIN s = (GET_TASK_OK, Some t, s1)"
      using lk valid_names Cons by (simp add: vfs_get_task_def)
    have q1: "vfstask s1 = (vfstask s)(TASK_FIN := ts)"
      using g get_task_effect [OF valid_names(1) lk Cons ok] by simp
    note i = csp.get_inv(1) [OF Suc.prems(1) g] csp.get_inv(2) [OF Suc.prems(1) g]
    have s1: "cs_inv s1" "held t s1" using i nh by auto
    let ?s2 = "fin_one w t s1"
    note e = fin_one_ends [OF s1 op]
    have f2: "vfstask ?s2 TASK_FIN = ts" using e q1 by (simp add: others_def)
    have keep: "ends_on u ?s2" if "ends_on u s" for u
    proof (rule ends_on_others)
      show "ends_on u s1" using that queue_names by (auto simp: ends_on_def q1)
    qed (use e in simp)
    have "cs_inv ?s2" by (rule fin_one_inv [OF s1])
    moreover have "length (vfstask ?s2 TASK_FIN) < k" using Suc.prems(2) Cons f2 by simp
    ultimately have "vfstask (drain k (cw_env w) TASK_FIN (fin_one w) ?s2) TASK_FIN = [] \<and>
      (\<forall>u. u \<in> set ts \<or> ends_on u ?s2 \<longrightarrow> ends_on u (drain k (cw_env w) TASK_FIN (fin_one w) ?s2))"
      using Suc.IH [of ?s2] f2 by simp
    then show ?thesis using keep e by (auto simp: g Cons)
  qed
qed simp

lemma fin_round_inv: "cs_inv s \<Longrightarrow> cs_inv (do_fin_task w s)"
  unfolding do_fin_task_def
  by (rule csp.drain_all_inv) (simp_all add: fin_one_inv TASK_FIN_def TASK_HOME_def)

end
