(* ===== verification/TmpLoad.thy ===== *)
theory TmpLoad
  imports TaskQueue LocalFile
begin

text \<open>
  \<open>src/network/vfs_tmp_status.c\<close>, the part that runs at the start: the saved tasks are read
  from a copy of the file, queued again and saved again, and then the copy takes the place
  of the file.
\<close>

section \<open>The code\<close>

text \<open>
  How the calls of the operating system end.  \<open>ld_cp\<close> is the file \<open>cp\<close> leaves under the
  copy's name; \<open>ld_get\<close>, \<open>ld_save\<close> and \<open>ld_blank\<close> answer what is asked while the \<open>i\<close>-th
  record is worked on.
\<close>

record load_world =
  ld_found :: bool
  ld_access :: bool
  ld_create :: bool
  ld_truncate :: bool
  ld_open :: bool
  ld_cp :: "tmp_state \<Rightarrow> tmp_state"
  ld_access0 :: bool
  ld_create0 :: bool
  ld_truncate0 :: bool
  ld_open0 :: bool
  ld_malloc :: "ptr option"
  ld_rename :: bool
  ld_reopen :: bool
  ld_get :: "nat \<Rightarrow> env"
  ld_save :: "nat \<Rightarrow> env"
  ld_blank :: "nat \<Rightarrow> env"
  ld_garble :: "cell list \<Rightarrow> t_vfs_tasklist"
  ld_local :: local_world
  ld_isp :: isp

text \<open>The loop that fills a new file writes no bytes: its length argument is a comparison.\<close>

definition sub_init_tmp_status :: "bool \<Rightarrow> bool \<Rightarrow> bool \<Rightarrow> nat \<Rightarrow> tmp_state \<Rightarrow> int \<times> tmp_state" where
  "sub_init_tmp_status acc create trunc n f =
     (if \<not> acc \<and> \<not> create then (-1, f)
      else if \<not> trunc then (-1, f)
      else (0, file_truncate n f))"

definition saved_queue :: "role \<Rightarrow> t_task_sub \<Rightarrow> int" where
  "saved_queue r sub =
     (if r = ROLE_CS \<and> ts_oper_type sub = SYNC_2_GROUP then TASK_WAIT_SYNC
      else if r = ROLE_CS \<and> ts_need_sync sub = TASK_SYNC_ISDIR then TASK_Q_SYNC_DIR
      else TASK_WAIT)"

definition put_saved :: "env \<Rightarrow> env \<Rightarrow> role \<Rightarrow> t_vfs_tasklist \<Rightarrow> 'a task_state_scheme \<Rightarrow> int \<times> 'a task_state_scheme" where
  "put_saved e1 e2 r item s =
     (case vfs_get_task e1 TASK_HOME s of
        (g, None, s) \<Rightarrow> (-1, s)
      | (g, Some t, s) \<Rightarrow>
        if g \<noteq> GET_TASK_OK then (-1, s)
        else
          let s = s\<lparr>tasks := (tasks s)(t := (tasks s t)\<lparr>tl_task := tl_task item, tl_upip := tl_upip item\<rparr>)\<rparr>;
              (n, s) = vfs_set_task e1 t (saved_queue r (ti_sub (tl_task item))) s
          in if n \<noteq> 0 then (-1, s)
             else
               let s = snd (add_task_to_alltask e1 r t s);
                   (n, rec, tmp) = set_task_to_tmp e2 (tasks s t) (tmpst s)
               in (0, s\<lparr>tasks := (tasks s)(t := rec), tmpst := tmp\<rparr>))"

definition add_tmp_to_task ::
  "load_world \<Rightarrow> nat \<Rightarrow> t_vfs_tasklist \<Rightarrow> filesys \<times> 'a task_state_scheme \<Rightarrow> int \<times> filesys \<times> 'a task_state_scheme" where
  "add_tmp_to_task w i item fss =
     (let (fs, s) = fss; r = lw_role (ld_local w); base = ti_base (tl_task item) in
      if ld_isp w \<noteq> TEL \<and> ld_isp w \<noteq> CNC then (1, fs, s)
      else
        let (ret, base, fs) =
              (if r = ROLE_CS \<and> ts_oper_type (ti_sub (tl_task item)) = OPER_GET_REQ
               then check_localfile_md5 (ld_local w) base VIDEOFILE fs else (LOCALFILE_FILE_E, base, fs));
            item = item\<lparr>tl_task := (tl_task item)\<lparr>ti_base := base\<rparr>\<rparr>
        in if ret = LOCALFILE_OK then (1, fs, s)
           else let (n, s) = put_saved (ld_get w i) (ld_save w i) r item s in (n, fs, s))"

text \<open>\<open>old\<close>: the file existed; \<open>f\<close>: the file that is read.  A short read ends the loop.\<close>

fun load_loop ::
  "load_world \<Rightarrow> bool \<Rightarrow> tmp_state \<Rightarrow> nat list \<Rightarrow> filesys \<times> 'a task_state_scheme \<Rightarrow> filesys \<times> 'a task_state_scheme" where
  "load_loop w old f [] fss = fss"
| "load_loop w old f (i # is) fss =
     (let blank = (\<lambda>(fs, s). (fs, s\<lparr>tmpst :=
            set_tmp_blank (ld_blank w i) (int (i * sizeof_tasklist)) None (tmpst s)\<rparr>)) in
      case file_read (ld_garble w) f (i * sizeof_tasklist) of
        None \<Rightarrow> fss
      | Some item \<Rightarrow>
        load_loop w old f is
          (if \<not> old \<or> tb_filename (ti_base (tl_task item)) = [] then blank fss
           else let (n, fss) = add_tmp_to_task w i item fss in if n \<noteq> 0 then blank fss else fss))"

text \<open>The number of records comes from the size of a list entry, not of a record.\<close>

definition init_size :: "load_world \<Rightarrow> tmp_state \<Rightarrow> nat" where
  "init_size w f = (if ld_found w then max DEFAULT_ITEMS (tf_size f div sizeof_tmp_status) else DEFAULT_ITEMS)"

definition init_load_tmp_status ::
  "load_world \<Rightarrow> filesys \<times> 'a task_state_scheme \<Rightarrow> int \<times> filesys \<times> 'a task_state_scheme" where
  "init_load_tmp_status w fss =
     (let (fs, s) = fss; old = ld_found w;
          (r, f) = (if old then (0, tmpst s)
                    else sub_init_tmp_status (ld_access w) (ld_create w) (ld_truncate w)
                           (sizeof_tasklist * DEFAULT_ITEMS) (tmpst s));
          s = s\<lparr>tmpst := f\<rparr>
      in if r \<noteq> 0 \<or> \<not> ld_open w then (-1, fs, s)
         else
           let n = init_size w f;
               (r, f0) = (if old then sub_init_tmp_status (ld_access0 w) (ld_create0 w) (ld_truncate0 w)
                                        (n * sizeof_tmp_status) (ld_cp w f)
                          else (0, f))
           in if r \<noteq> 0 \<or> (old \<and> \<not> ld_open0 w) then (-1, fs, s)
              else case ld_malloc w of None \<Rightarrow> (-1, fs, s\<lparr>tmpst := f\<lparr>t_hometmp := [], t_idletmp := []\<rparr>\<rparr>)
                 | Some b \<Rightarrow>
                   let home = rev (map (\<lambda>i. b + i) [0..<DEFAULT_ITEMS]);
                       (fs, s) = load_loop w old f0 [0..<n]
                                   (fs, s\<lparr>tmpst := f\<lparr>t_hometmp := home, t_idletmp := []\<rparr>\<rparr>)
                   in if \<not> old then (0, fs, s)
                      else if \<not> ld_rename w then (-1, fs, s)
                      else (if ld_reopen w then 0 else -1, fs,
                            s\<lparr>tmpst := (tmpst s)\<lparr>tf_cells := tf_cells f0, tf_size := tf_size f0\<rparr>\<rparr>))"

section \<open>What the recovery does\<close>

text \<open>A task that is taken up is on the queue its record asks for, as it was saved.\<close>

lemma put_saved_done:
  assumes "put_saved e1 e2 r item s = (0, s')"
  obtains t where "t \<in> set (vfstask s' (saved_queue r (ti_sub (tl_task item))))"
    and "ti_base (tl_task (tasks s' t)) = ti_base (tl_task item)"
    and "ti_sub (tl_task (tasks s' t)) = ti_sub (tl_task item)"
    and "tl_upip (tasks s' t) = tl_upip item"
    and "tl_status (tasks s' t) = saved_queue r (ti_sub (tl_task item))"
proof -
  let ?q = "saved_queue r (ti_sub (tl_task item))"
  obtain g t s1 where g: "vfs_get_task e1 TASK_HOME s = (g, Some t, s1)"
    using assms by (auto simp: put_saved_def split: prod.splits option.splits)
  let ?s2 = "s1\<lparr>tasks := (tasks s1)(t := (tasks s1 t)\<lparr>tl_task := tl_task item, tl_upip := tl_upip item\<rparr>)\<rparr>"
  obtain n s3 where p: "vfs_set_task e1 t ?q ?s2 = (n, s3)" by (cases "vfs_set_task e1 t ?q ?s2")
  let ?s4 = "snd (add_task_to_alltask e1 r t s3)"
  obtain m rec tmp where st: "set_task_to_tmp e2 (tasks ?s4 t) (tmpst ?s4) = (m, rec, tmp)"
    by (cases "set_task_to_tmp e2 (tasks ?s4 t) (tmpst ?s4)")
  have n: "n = 0" and s': "s' = ?s4\<lparr>tasks := (tasks ?s4)(t := rec), tmpst := tmp\<rparr>"
    using assms st by (auto simp: put_saved_def g p Let_def split: if_splits)
  have ok: "valid_status ?q" "\<not> lock_failed e1 (M_task ?q)"
    using p n by (auto simp: vfs_set_task_def split: if_splits)
  then have s3: "s3 = snd (vfs_set_task e1 t ?q ?s2)" using p by simp
  have rec: "rec = (tasks ?s4 t)\<lparr>tl_task := (tl_task (tasks ?s4 t))\<lparr>ti_user := ti_user (tl_task rec)\<rparr>\<rparr>"
    using st by (auto simp: set_task_to_tmp_def Let_def split: list.splits option.splits if_splits)
  have t4: "tasks s3 t = (tasks s1 t)\<lparr>tl_task := tl_task item, tl_upip := tl_upip item, tl_status := ?q\<rparr>"
    using ok by (simp add: s3 vfs_set_task_def add_task_to_alltask_def Let_def)
  have v4: "vfstask ?s4 = vfstask s3" by (simp add: add_task_to_alltask_def Let_def)
  show ?thesis
  proof (rule that [of t])
    show "t \<in> set (vfstask s' ?q)" using ok by (simp add: s' v4 s3 vfs_set_task_def set_status_def)
    have "ti_base (tl_task rec) = ti_base (tl_task item)" "ti_sub (tl_task rec) = ti_sub (tl_task item)"
      "tl_upip rec = tl_upip item" "tl_status rec = ?q"
      by (subst rec, simp add: t4)+
    then show "ti_base (tl_task (tasks s' t)) = ti_base (tl_task item)"
      "ti_sub (tl_task (tasks s' t)) = ti_sub (tl_task item)"
      "tl_upip (tasks s' t) = tl_upip item" "tl_status (tasks s' t) = ?q"
      by (simp_all add: s')
  qed
qed

text \<open>The file afterwards is the copy, whatever was blanked and saved meanwhile.\<close>

lemma recovered_file:
  assumes "init_load_tmp_status w (fs, s) = (0, fs', s')" and "ld_found w"
  shows "tf_cells (tmpst s') = tf_cells (file_truncate (init_size w (tmpst s) * sizeof_tmp_status) (ld_cp w (tmpst s)))"
    and "tf_size (tmpst s') = init_size w (tmpst s) * sizeof_tmp_status"
  using assms
  by (auto simp: init_load_tmp_status_def sub_init_tmp_status_def Let_def split: if_splits option.splits prod.splits)

lemma file_read_cong:
  assumes "pos + sizeof_tasklist \<le> tf_size f" and "pos + sizeof_tasklist \<le> tf_size f'"
    and "\<And>i. i < tf_size f \<Longrightarrow> i < tf_size f' \<Longrightarrow> tf_cells f' i = tf_cells f i"
  shows "file_read g f' pos = file_read g f pos"
  using assms by (auto simp: file_read_def cells_at_def intro!: arg_cong [of _ _ "decode_cells g"])

lemma recovered_records:
  assumes "init_load_tmp_status w (fs, s) = (0, fs', s')" and "ld_found w"
    and "tf_cells (ld_cp w (tmpst s)) = tf_cells (tmpst s)" and "tf_size (ld_cp w (tmpst s)) = tf_size (tmpst s)"
    and "pos + sizeof_tasklist \<le> tf_size (tmpst s)"
    and "pos + sizeof_tasklist \<le> init_size w (tmpst s) * sizeof_tmp_status"
  shows "file_read g (tmpst s') pos = file_read g (tmpst s) pos"
proof (rule file_read_cong)
  show "pos + sizeof_tasklist \<le> tf_size (tmpst s')"
    using assms(6) by (simp add: recovered_file(2) [OF assms(1,2)])
  show "tf_cells (tmpst s') i = tf_cells (tmpst s) i" if "i < tf_size (tmpst s)" "i < tf_size (tmpst s')" for i
    using that assms(3,4) by (simp add: recovered_file [OF assms(1,2)] file_truncate_def)
qed (rule assms(5))

text \<open>A file of whole records loses its last one when its size is no multiple of 24.\<close>

lemma last_record_cut:
  assumes "init_load_tmp_status w (fs, s) = (0, fs', s')" and "ld_found w"
    and "tf_size (tmpst s) = DEFAULT_ITEMS * sizeof_tasklist"
  shows "file_read g (tmpst s') ((DEFAULT_ITEMS - 1) * sizeof_tasklist) = None"
  by (simp add: file_read_def recovered_file(2) [OF assms(1,2)] init_size_def assms(2,3) DEFAULT_ITEMS_def
      sizeof_tasklist_def sizeof_tmp_status_def)

text \<open>The result depends on the system's answers only.\<close>

definition load_granted :: "load_world \<Rightarrow> bool" where
  "load_granted w \<longleftrightarrow> ld_found w \<and> ld_open w \<and> (ld_access0 w \<or> ld_create0 w) \<and> ld_truncate0 w \<and> ld_open0 w \<and>
     ld_malloc w \<noteq> None \<and> ld_rename w \<and> ld_reopen w"

lemma load_succeeds: "load_granted w \<Longrightarrow> fst (init_load_tmp_status w (fs, s)) = 0"
  by (auto simp: load_granted_def init_load_tmp_status_def sub_init_tmp_status_def Let_def split: prod.split)

end
