(* ===== verification/CsSamples.thy ===== *)
theory CsSamples
  imports CsSync Samples FileSamples TmpLoad
begin

text \<open>
  A small storage machine: one finished task, one directory to synchronise, no peer.  A start
  at which every call of the system succeeds.
\<close>

definition sample_cw :: cworld where
  "sample_cw = \<lparr>cw_env = calm, cw_out = sample_out, cw_abi = sample_abi, cw_sync_of = (\<lambda>_. zero_sync),
     cw_sync_bytes = (\<lambda>_. [1]), cw_sync_size = 1, cw_connect = (\<lambda>_. -1), cw_peerip = (\<lambda>_. 2),
     cw_behind = (\<lambda>_. 0), cw_timeout = 60, cw_max_once = 16, cw_task_timeout = 100, cw_retry = 3,
     cw_window = ([], []), cw_mem = (\<lambda>_. True), cw_self = zero_ipinfo, cw_self_stat = UNKOWN_STAT,
     cw_lw = sample_lw, cw_filter = \<lparr>allow_list = [], deny_list = []\<rparr>\<rparr>"

definition sample_storage :: cs_state where
  "sample_storage = \<lparr>tasks = (\<lambda>_. zero_tasklist\<lparr>tl_status := TASK_FIN\<rparr>),
     vfstask = (\<lambda>q. if q = TASK_FIN then [5] else []), alltask = (\<lambda>_. []), userl = (\<lambda>_. []),
     taskcount = (\<lambda>q. (if q = TASK_FIN then 1 else 0) - home_surplus q), tmpst = sample_tmp,
     cpeers = (\<lambda>_. zero_cs_peer), cuser = (\<lambda>_. False), cactive = [], conline = (\<lambda>_. []),
     ccfg_list = (\<lambda>_. []), ccfg = sample_cfg\<lparr>csinfo := (\<lambda>_ _. sample_cs)\<rparr>, csent = [], cclosed = [],
     cscan_i = 0, clast_scan = 0, csync_list = [zero_sync], csync_flag = 0, csync_last = 0,
     ctotal_sync = 0, ctotal_synced = 0, ccs_sync_dir = False, csreq = (\<lambda>_. zero_sync),
     csrsp = (\<lambda>_. None), cmem = [], clocal = sample_ls\<rparr>"

lemma sample_storage_inv: "cs_inv sample_storage"
  by (auto simp: cs_inv_def queues_ok_def counts_ok_def sample_storage_def lf_wf_def blocks_def map_filter_simps
      valid_names split: if_splits)

lemma sample_storage_open: "queues_open (cw_env sample_cw)"
  by (simp add: queues_open_def sample_cw_def)

lemma sample_storage_simps [simp]:
  "vfstask sample_storage TASK_FIN = [5]" "csync_list sample_storage = [zero_sync]"
  by (simp_all add: sample_storage_def)

lemma sample_splits: "splits_up sample_cw (ccfg sample_storage) zero_sync"
  by (simp add: splits_up_def sample_storage_def sample_cw_def get_cs_info_def sample_cs_def)

definition sample_ld :: load_world where
  "sample_ld = \<lparr>ld_found = True, ld_access = True, ld_create = True, ld_truncate = True, ld_open = True,
     ld_cp = (\<lambda>f. f), ld_access0 = True, ld_create0 = True, ld_truncate0 = True, ld_open0 = True,
     ld_malloc = Some 4096, ld_rename = True, ld_reopen = True, ld_get = (\<lambda>_. calm), ld_save = (\<lambda>_. calm),
     ld_blank = (\<lambda>_. calm), ld_garble = (\<lambda>_. zero_tasklist), ld_local = sample_lw, ld_isp = TEL\<rparr>"

lemma sample_ld_granted: "load_granted sample_ld" "ld_found sample_ld"
  by (simp_all add: load_granted_def sample_ld_def)

end
