(* ===== verification/MyConfig.thy ===== *)
theory MyConfig
  imports ListFamily Codec
begin

text \<open>
  \<open>src/lib/myconfig.c\<close>: the configuration file.  An entry is a block of memory, named by a
  number; it is linked into a bucket of \<open>myhash\<close> (\<open>list\<close>) and into the list of its section
  (\<open>pre_list\<close>), from which the file is written back.  Texts are taken to fit the buffers the
  code does not check: 1024 bytes for a value, 20 for a section, 30 for the rest of a key.
\<close>

record config_entry =
  mc_key :: string
  mc_val :: string
  mc_hash :: u32
  mc_int :: int

record config_state =
  mcs :: "nat \<Rightarrow> config_entry"
  myhash :: "nat \<Rightarrow> nat list"
  prelist :: "(string \<times> nat list) list"
  mc_next :: nat
  mc_inited :: bool
  reload_keys :: "string list"

section \<open>Keys\<close>

definition is_sep :: "char \<Rightarrow> bool" where
  "is_sep c \<longleftrightarrow> c \<in> {CHR '' '', CHR ''.'', CHR ''-'', CHR ''_''}"

definition to_lower :: "char \<Rightarrow> char" where
  "to_lower c = (if 65 \<le> chr_code c \<and> chr_code c \<le> 90 then char_of (chr_code c + 32) else c)"

definition is_alnum :: "char \<Rightarrow> bool" where
  "is_alnum c \<longleftrightarrow> is_digit c \<or> (65 \<le> chr_code c \<and> chr_code c \<le> 90) \<or> (97 \<le> chr_code c \<and> chr_code c \<le> 122)"

definition sep_key :: "string \<Rightarrow> string" where
  "sep_key s = map (\<lambda>c. if is_sep c then CHR ''_'' else c) s"

definition norm_key :: "string \<Rightarrow> string" where
  "norm_key s = map to_lower (sep_key s)"

definition slot_of :: "u32 \<Rightarrow> nat" where
  "slot_of h = unat (h AND 0xFF)"

section \<open>Looking a key up\<close>

definition is_entry :: "string \<Rightarrow> config_state \<Rightarrow> nat \<Rightarrow> bool" where
  "is_entry key c i \<longleftrightarrow> mc_hash (mcs c i) = r5hash key \<and> mc_key (mcs c i) = key"

definition find_entry :: "string \<Rightarrow> config_state \<Rightarrow> nat option" where
  "find_entry key c = find (is_entry key c) (myhash c (slot_of (r5hash key)))"

definition myconfig_get_value :: "string \<Rightarrow> config_state \<Rightarrow> string option" where
  "myconfig_get_value key c = map_option (\<lambda>i. mc_val (mcs c i)) (find_entry key c)"

text \<open>The values of a key that stands more than once, in the order they were put.\<close>

definition myconfig_get_multivalue :: "string \<Rightarrow> nat \<Rightarrow> config_state \<Rightarrow> string option" where
  "myconfig_get_multivalue key index c =
     (let is = filter (is_entry key c) (rev (myhash c (slot_of (r5hash key))))
      in if index < length is then Some (mc_val (mcs c (is ! index))) else None)"

definition same_word :: "string \<Rightarrow> string \<Rightarrow> bool" where
  "same_word s t \<longleftrightarrow> map to_lower s = map to_lower t"

definition looks_numeric :: "string \<Rightarrow> bool" where
  "looks_numeric v \<longleftrightarrow> (v \<noteq> [] \<and> is_digit (hd v)) \<or> (take 1 v = ''-'' \<and> tl v \<noteq> [] \<and> is_digit (hd (tl v)))"

definition int_of_val :: "string \<Rightarrow> int option" where
  "int_of_val v =
     (if looks_numeric v then Some (atoi v)
      else if same_word v ''On'' then Some 1 else if same_word v ''Off'' then Some 0
      else if same_word v ''Yes'' then Some 1 else if same_word v ''No'' then Some 0
      else if same_word v ''True'' then Some 1 else if same_word v ''False'' then Some 0
      else if same_word v ''enable'' then Some 1 else if same_word v ''disable'' then Some 0
      else if same_word v ''enabled'' then Some 1 else if same_word v ''disabled'' then Some 0
      else None)"

text \<open>The number is kept in the entry once it has been read, unless it is -1.\<close>

definition myconfig_get_intval :: "string \<Rightarrow> int \<Rightarrow> config_state \<Rightarrow> int \<times> config_state" where
  "myconfig_get_intval key def c =
     (case find_entry key c of None \<Rightarrow> (def, c)
      | Some i \<Rightarrow>
        let e = mcs c i in
        if mc_int e = -1 then
          (case int_of_val (mc_val e) of None \<Rightarrow> (def, c)
           | Some n \<Rightarrow> (n, c\<lparr>mcs := (mcs c)(i := e\<lparr>mc_int := n\<rparr>)\<rparr>))
        else (mc_int e, c))"

section \<open>Storing a value\<close>

text \<open>
  The section of an entry: the first whose name begins with \<open>pre\<close> (every name begins with the
  empty one), or the first unused one.  Only the first 256 are looked at; \<open>prelist\<close> holds the
  used ones.
\<close>

fun add_pre :: "string \<Rightarrow> nat \<Rightarrow> (string \<times> nat list) list \<Rightarrow> (string \<times> nat list) list" where
  "add_pre pre i [] = [(pre, [i])]"
| "add_pre pre i ((p, is) # ps) =
     (if take (length pre) p = pre then (p, i # is) # ps else (p, is) # add_pre pre i ps)"

definition pre_fits :: "string \<Rightarrow> (string \<times> nat list) list \<Rightarrow> bool" where
  "pre_fits pre ps \<longleftrightarrow> length ps < 256 \<or> (\<exists>p\<in>set ps. take (length pre) (fst p) = pre)"

text \<open>\<open>ok\<close> is whether \<open>malloc\<close> succeeds.\<close>

definition myconfig_put_value :: "bool \<Rightarrow> string \<Rightarrow> string \<Rightarrow> string \<Rightarrow> config_state \<Rightarrow> int \<times> config_state" where
  "myconfig_put_value ok pre key0 val c =
     (if \<not> ok then (-1, c)
      else
        let i = mc_next c; key = norm_key (pre @ key0); h = r5hash key;
            c = c\<lparr>mcs := (mcs c)(i := \<lparr>mc_key = key, mc_val = val, mc_hash = h, mc_int = -1\<rparr>),
                  myhash := lf_add_head i (slot_of h) (myhash c), mc_next := i + 1\<rparr>
        in if pre_fits pre (prelist c) then (1, c\<lparr>prelist := add_pre pre i (prelist c)\<rparr>) else (0, c))"

text \<open>The key is not changed to lower case here.\<close>

definition del_entry :: "string \<Rightarrow> config_state \<Rightarrow> nat \<Rightarrow> config_state" where
  "del_entry key c i =
     (if is_entry key c i
      then c\<lparr>myhash := lf_del i (myhash c), prelist := map (\<lambda>(p, is). (p, removeAll i is)) (prelist c)\<rparr> else c)"

definition myconfig_delete_value :: "string \<Rightarrow> string \<Rightarrow> config_state \<Rightarrow> config_state" where
  "myconfig_delete_value prefix key c =
     (let str = sep_key (prefix @ key) in foldl (del_entry str) c (myhash c (slot_of (r5hash str))))"

text \<open>The number read before stays in the entry.\<close>

definition myconfig_update_value :: "bool \<Rightarrow> string \<Rightarrow> string \<Rightarrow> config_state \<Rightarrow> int \<times> config_state" where
  "myconfig_update_value ok key val c =
     (case find_entry key c of
        Some i \<Rightarrow> (1, c\<lparr>mcs := (mcs c)(i := (mcs c i)\<lparr>mc_val := val\<rparr>)\<rparr>)
      | None \<Rightarrow>
        (case strchr key (CHR ''_'') of
           Some k \<Rightarrow> myconfig_put_value ok (take k key @ ''-'') (drop (Suc k) key) val c
         | None \<Rightarrow> myconfig_put_value ok [] key val c))"

section \<open>Reading the file\<close>

definition is_blank :: "char \<Rightarrow> bool" where
  "is_blank c \<longleftrightarrow> chr_code c = 32 \<or> chr_code c = 9 \<or> chr_code c = 13"

definition strip_end :: "(char \<Rightarrow> bool) \<Rightarrow> string \<Rightarrow> string" where
  "strip_end P s = rev (dropWhile P (rev s))"

text \<open>\<open>[name]\<close>: the section is the name without separators at its ends and with a dash behind.\<close>

definition section_of :: "string \<Rightarrow> string" where
  "section_of name = dropWhile is_sep (strip_end is_sep name @ ''-'')"

text \<open>A line changes the section, or assigns a value to a key, or neither.\<close>

datatype config_line = Section string | Assign string string | Skip

definition assignment :: "string \<Rightarrow> config_line" where
  "assignment l =
     (let stop = (\<lambda>c. is_blank c \<or> c = CHR ''='');
          k = takeWhile (\<lambda>c. \<not> stop c) l;
          r = dropWhile is_blank (dropWhile (\<lambda>c. \<not> stop c) l);
          r = dropWhile (\<lambda>c. c = CHR ''='') r;
          v = strip_end is_blank (dropWhile is_blank r)
      in if k \<noteq> [] \<and> is_alnum (hd k) \<and> v \<noteq> [] then Assign k v else Skip)"

definition config_line_of :: "string \<Rightarrow> config_line" where
  "config_line_of l =
     (case dropWhile is_blank l of
        [] \<Rightarrow> Skip
      | c # cs \<Rightarrow>
        if c = CHR ''['' then
          (case strchr cs (CHR '']'') of None \<Rightarrow> Skip | Some k \<Rightarrow> Section (section_of (take k cs)))
        else if c = CHR ''#'' \<or> c = CHR '';'' then Skip
        else assignment (c # cs))"

text \<open>The first time everything is taken, later only the keys that may be reloaded.\<close>

definition load_assign :: "string \<Rightarrow> string \<Rightarrow> string \<Rightarrow> config_state \<Rightarrow> config_state" where
  "load_assign sec k v c =
     (if \<not> mc_inited c then snd (myconfig_put_value True sec k v c)
      else if k \<in> set (reload_keys c) then snd (myconfig_put_value True sec k v (myconfig_delete_value sec k c))
      else c)"

fun load_lines :: "string list \<Rightarrow> string \<Rightarrow> config_state \<Rightarrow> config_state" where
  "load_lines [] sec c = c"
| "load_lines (l # ls) sec c =
     (case config_line_of l of
        Section sec \<Rightarrow> load_lines ls sec c
      | Assign k v \<Rightarrow> load_lines ls sec (load_assign sec k v c)
      | Skip \<Rightarrow> load_lines ls sec c)"

text \<open>
  The lines of the file, each ended by a line feed.  Behind a last line without one the code
  goes on with the null pointer: it does not return (\<open>None\<close>).  The file's lines are worked on
  before that, but nobody is left to see it.
\<close>

fun lines_of :: "string \<Rightarrow> string \<Rightarrow> string list option" where
  "lines_of acc [] = (if acc = [] then Some [] else None)"
| "lines_of acc (c # cs) =
     (if c = CHR 0x0A then map_option ((#) (rev acc)) (lines_of [] cs) else lines_of (c # acc) cs)"

text \<open>\<open>file\<close> is what the file holds, \<open>None\<close> when it cannot be read.\<close>

definition myconfig_loadfile0 :: "string option \<Rightarrow> config_state \<Rightarrow> (int \<times> config_state) option" where
  "myconfig_loadfile0 file c =
     (case file of None \<Rightarrow> Some (-1, c)
      | Some text \<Rightarrow> map_option (\<lambda>ls. (0, load_lines ls [] c)) (lines_of [] text))"

text \<open>An argument of the command line: \<open>-key\<close>, \<open>key=value\<close>, or \<open>key==value\<close> in place of the file's.\<close>

definition load_arg :: "config_state \<Rightarrow> string \<Rightarrow> config_state" where
  "load_arg c arg =
     (let k = dropWhile (\<lambda>x. x = CHR ''-'') arg in
      if k = [] \<or> hd k \<in> {CHR '';'', CHR ''#'', CHR ''=''} then c
      else case strchr k (CHR ''='') of
        None \<Rightarrow> snd (myconfig_put_value True [] k ''1'' c)
      | Some n \<Rightarrow>
        let key = take n k; q = drop (Suc n) k; again = take 1 q = ''='';
            q = (if again then dropWhile (\<lambda>x. x = CHR ''='') q else q);
            c = (if again then myconfig_delete_value [] key c else c)
        in if q \<noteq> [] then snd (myconfig_put_value True [] key q c) else c)"

definition reload_key :: "string list" where
  "reload_key = [''log_level'', ''log_rotate_size'', ''log_rotate_time'', ''epoll_batch_events'', ''recv_timeout'',
     ''send_timeout'', ''keepalive_timeout'', ''forward_timeout'', ''forward_connect_timeout'', ''download_speed'',
     ''tcp_nodelay'', ''traffic_control'', ''traffic_pending_max'', ''traffic_pending_delta'',
     ''traffic_pending_mode'', ''traffic_pending_send'']"

definition no_config :: config_state where
  "no_config = \<lparr>mcs = (\<lambda>_. \<lparr>mc_key = [], mc_val = [], mc_hash = 0, mc_int = -1\<rparr>), myhash = (\<lambda>_. []),
     prelist = [], mc_next = 0, mc_inited = False, reload_keys = reload_key\<rparr>"

definition myconfig_init :: "string option \<Rightarrow> string list \<Rightarrow> config_state \<Rightarrow> (int \<times> config_state) option" where
  "myconfig_init file args c =
     (case myconfig_loadfile0 file (c\<lparr>myhash := (\<lambda>_. []), prelist := []\<rparr>) of
        None \<Rightarrow> None
      | Some (r, c) \<Rightarrow>
        if r < 0 then Some (-1, c) else Some (0, (foldl load_arg c args)\<lparr>mc_inited := True\<rparr>))"

definition MAX_RELOAD_KEY_NUM :: nat where "MAX_RELOAD_KEY_NUM = 128"

text \<open>The call-backs to run after a reload belong to the callers.\<close>

definition myconfig_register_reload :: "string list \<Rightarrow> config_state \<Rightarrow> config_state" where
  "myconfig_register_reload keys c =
     (if keys \<noteq> [] \<and> MAX_RELOAD_KEY_NUM > length keys + length (reload_keys c)
      then c\<lparr>reload_keys := reload_keys c @ keys\<rparr> else c)"

text \<open>\<open>strtoul\<close> with base 0, for a text that begins with a digit; what follows gives the unit.\<close>

definition hex_digit :: "char \<Rightarrow> nat" where
  "hex_digit c = (if is_digit c then digit_val c else if 97 \<le> chr_code c \<and> chr_code c \<le> 102 then chr_code c - 87
     else if 65 \<le> chr_code c \<and> chr_code c \<le> 70 then chr_code c - 55 else 99)"

fun digits_in :: "nat \<Rightarrow> nat \<Rightarrow> string \<Rightarrow> nat \<times> string" where
  "digits_in b acc [] = (acc, [])"
| "digits_in b acc (c # cs) = (if hex_digit c < b then digits_in b (b * acc + hex_digit c) cs else (acc, c # cs))"

definition strtoul0 :: "string \<Rightarrow> u64 \<times> string" where
  "strtoul0 s =
     (let (n, rest) = (if take 2 s \<in> {''0x'', ''0X''} \<and> drop 2 s \<noteq> [] \<and> hex_digit (hd (drop 2 s)) < 16
                       then digits_in 16 0 (drop 2 s)
                       else if take 1 s = ''0'' then digits_in 8 0 s else digits_in 10 0 s)
      in (word_of_nat (min n (2 ^ 64 - 1)), rest))"

definition unit_of :: "string \<Rightarrow> u64" where
  "unit_of rest =
     (case rest of [] \<Rightarrow> 1
      | c # _ \<Rightarrow> if to_lower c = CHR ''k'' then 1024 else if to_lower c = CHR ''m'' then 1024 * 1024
          else if to_lower c = CHR ''g'' then 1024 * 1024 * 1024 else 1)"

definition myconfig_get_size :: "string \<Rightarrow> int \<Rightarrow> config_state \<Rightarrow> u64" where
  "myconfig_get_size key def c =
     (case myconfig_get_value key c of None \<Rightarrow> word_of_int def
      | Some v \<Rightarrow>
        if v = [] \<or> \<not> is_digit (hd v) then word_of_int def
        else let (n, rest) = strtoul0 v in n * unit_of rest)"

section \<open>Writing the file back\<close>

text \<open>
  \<open>banner\<close> is the comment the code puts first.  A section's entries go under its name without
  the dash; those of the first under none, whatever its name is.
\<close>

definition dump_line :: "config_state \<Rightarrow> string \<Rightarrow> nat \<Rightarrow> string" where
  "dump_line c pre i = [CHR 0x09] @ drop (length pre) (mc_key (mcs c i)) @ '' = '' @ mc_val (mcs c i) @ [CHR 0x0A]"

definition dump_section :: "config_state \<Rightarrow> bool \<Rightarrow> string \<times> nat list \<Rightarrow> string" where
  "dump_section c first p =
     (let (pre, is) = p in
      (if first then [] else ''[ '' @ butlast pre @ '' ]'' @ [CHR 0x0A])
      @ concat (map (dump_line c pre) is) @ replicate 61 (CHR ''-'') @ [CHR 0x0A])"

definition myconfig_dump_to_file :: "string \<Rightarrow> config_state \<Rightarrow> string" where
  "myconfig_dump_to_file banner c =
     banner @ (case prelist c of [] \<Rightarrow> [] | p # ps \<Rightarrow> dump_section c True p @ concat (map (dump_section c False) ps))"

section \<open>What a lookup gives\<close>

definition config_ok :: "config_state \<Rightarrow> bool" where
  "config_ok c \<longleftrightarrow> (\<forall>b i. i \<in> set (myhash c b) \<longrightarrow>
     i < mc_next c \<and> mc_hash (mcs c i) = r5hash (mc_key (mcs c i)) \<and> b = slot_of (mc_hash (mcs c i)))"

lemma find_cong_set: "(\<And>x. x \<in> set xs \<Longrightarrow> P x = Q x) \<Longrightarrow> find P xs = find Q xs"
  by (induction xs) auto

lemma put_ok:
  "config_ok c \<Longrightarrow> config_ok (snd (myconfig_put_value ok pre k v c))"
  by (fastforce simp: config_ok_def myconfig_put_value_def Let_def less_Suc_eq split: if_splits)

lemma find_entry_put:
  assumes "config_ok c"
  shows "find_entry key (snd (myconfig_put_value True pre k v c))
    = (if key = norm_key (pre @ k) then Some (mc_next c) else find_entry key c)"
proof -
  let ?c = "snd (myconfig_put_value True pre k v c)" and ?key = "norm_key (pre @ k)" and ?i = "mc_next c"
  have tab: "myhash ?c = lf_add_head ?i (slot_of (r5hash ?key)) (myhash c)"
    and ent: "mcs ?c = (mcs c)(?i := \<lparr>mc_key = ?key, mc_val = v, mc_hash = r5hash ?key, mc_int = -1\<rparr>)"
    by (simp_all add: myconfig_put_value_def Let_def)
  have old: "find (is_entry key ?c) (myhash c b) = find (is_entry key c) (myhash c b)" for b
    by (rule find_cong_set) (use assms in \<open>auto simp: config_ok_def is_entry_def ent\<close>)
  show ?thesis
    by (auto simp: find_entry_def tab old) (auto simp: is_entry_def ent)
qed

lemma entry_found:
  assumes "find_entry key c = Some i"
  shows "i \<in> set (myhash c (slot_of (r5hash key)))" "mc_key (mcs c i) = key"
  using assms unfolding find_entry_def
  by (auto simp: find_Some_iff is_entry_def)

lemma get_put:
  assumes "config_ok c"
  shows "myconfig_get_value key (snd (myconfig_put_value True pre k v c))
    = (if key = norm_key (pre @ k) then Some v else myconfig_get_value key c)"
proof (cases "key = norm_key (pre @ k)")
  case True
  then show ?thesis
    by (simp add: myconfig_get_value_def find_entry_put [OF assms]) (simp add: myconfig_put_value_def Let_def)
next
  case False
  have "mc_val (mcs (snd (myconfig_put_value True pre k v c)) i) = mc_val (mcs c i)" if "find_entry key c = Some i" for i
    using assms entry_found [OF that] by (auto simp: config_ok_def myconfig_put_value_def Let_def)
  with False show ?thesis
    by (cases "find_entry key c") (simp_all add: myconfig_get_value_def find_entry_put [OF assms])
qed

text \<open>The assignments of a file, each with its full key.\<close>

fun assigned :: "string list \<Rightarrow> string \<Rightarrow> (string \<times> string) list" where
  "assigned [] sec = []"
| "assigned (l # ls) sec =
     (case config_line_of l of
        Section sec \<Rightarrow> assigned ls sec
      | Assign k v \<Rightarrow> (norm_key (sec @ k), v) # assigned ls sec
      | Skip \<Rightarrow> assigned ls sec)"

lemma put_inited [simp]: "mc_inited (snd (myconfig_put_value ok pre k v c)) = mc_inited c"
  by (simp add: myconfig_put_value_def Let_def)

lemma load_lines_get:
  assumes "config_ok c" and "\<not> mc_inited c"
  shows "config_ok (load_lines ls sec c)"
    and "myconfig_get_value key (load_lines ls sec c)
      = (case map_of (rev (assigned ls sec)) key of Some v \<Rightarrow> Some v | None \<Rightarrow> myconfig_get_value key c)"
proof -
  have "config_ok (load_lines ls sec c) \<and> myconfig_get_value key (load_lines ls sec c)
      = (case map_of (rev (assigned ls sec)) key of Some v \<Rightarrow> Some v | None \<Rightarrow> myconfig_get_value key c)"
    using assms
  proof (induction ls arbitrary: sec c)
    case (Cons l ls)
    show ?case
      using Cons.IH [OF Cons.prems] Cons.IH [OF put_ok [OF Cons.prems(1)]] Cons.prems
      by (auto simp: load_assign_def get_put map_add_def split: config_line.split option.split)
  qed simp
  then show "config_ok (load_lines ls sec c)"
    and "myconfig_get_value key (load_lines ls sec c)
      = (case map_of (rev (assigned ls sec)) key of Some v \<Rightarrow> Some v | None \<Rightarrow> myconfig_get_value key c)"
    by blast+
qed

text \<open>A changed value does not reach a number that was read before.\<close>

lemma int_is_kept:
  assumes "myconfig_get_intval key d c = (n, c1)" and "find_entry key c = Some i"
    and "int_of_val (mc_val (mcs c i)) = Some n" and "n \<noteq> -1" and "mc_int (mcs c i) = -1"
  shows "fst (myconfig_get_intval key d' (snd (myconfig_update_value ok key v c1))) = n"
proof -
  let ?e = "(mcs c i)\<lparr>mc_int := n\<rparr>"
  have c1: "c1 = c\<lparr>mcs := (mcs c)(i := ?e)\<rparr>" using assms by (auto simp: myconfig_get_intval_def Let_def)
  have f: "find_entry key (c\<lparr>mcs := (mcs c)(i := (mcs c i)\<lparr>mc_int := m, mc_val := u\<rparr>)\<rparr>) = Some i" for m u
    using assms(2) unfolding find_entry_def
    by (subst find_cong_set [where Q = "is_entry key c"]) (auto simp: is_entry_def)
  have "find_entry key c1 = Some i" using f [where m = n and u = "mc_val (mcs c i)"] by (simp add: c1)
  moreover have "find_entry key (c1\<lparr>mcs := (mcs c1)(i := (mcs c1 i)\<lparr>mc_val := v\<rparr>)\<rparr>) = Some i"
    using f [where m = n and u = v] by (simp add: c1)
  ultimately show ?thesis using assms(4) by (simp add: myconfig_update_value_def myconfig_get_intval_def c1)
qed

end
