(* ===== verification/DataBase.thy ===== *)
theory DataBase
  imports Tracker LocalFile PoolClient MyConfig
begin

text \<open>
  The data plugin (\<open>src/network/data\<close>), which moves the files between the machines, first
  part: its state, the connections of both kinds and the way through a proxy
  (\<open>vfs_data.c\<close>, \<open>vfs_data_base.c\<close>).  A machine asks over connections it opened
  (\<open>CON_ACTIVE\<close>) and answers over those it accepted.  Peers are named by their descriptor.
\<close>

definition CMD_GET_FILE_REQ :: byte where "CMD_GET_FILE_REQ = 0x11"
definition CMD_GET_FILE_RSP :: byte where "CMD_GET_FILE_RSP = 0x12"
definition FILE_SYNC_DST_2_SRC :: byte where "FILE_SYNC_DST_2_SRC = 0x81"
definition FILE_SYNC_DST_2_SRC_E_OPENFILE :: byte where "FILE_SYNC_DST_2_SRC_E_OPENFILE = 0x86"
definition FILE_SYNC_DST_2_SRC_E_MALLOC :: byte where "FILE_SYNC_DST_2_SRC_E_MALLOC = 0x87"

datatype data_stat = D_LOGOUT | D_CONNECTED | D_LOGIN | D_IDLE | PREPARE_RECVFILE | RECVFILEING | SENDFILEING

text \<open>\<open>local_in_fd\<close> is the descriptor of the file a connection is receiving.\<close>

record data_peer =
  dp_in_fd :: int
  dp_hbtime :: int
  dp_ip :: u32
  dp_headlen :: nat
  dp_sock_stat :: data_stat
  dp_active :: bool
  dp_recvtask :: "ptr option"
  dp_sendtask :: "ptr option"

definition zero_data_peer :: data_peer where
  "zero_data_peer = \<lparr>dp_in_fd = 0, dp_hbtime = 0, dp_ip = 0, dp_headlen = 0, dp_sock_stat = D_LOGOUT,
     dp_active = False, dp_recvtask = None, dp_sendtask = None\<rparr>"

text \<open>What a descriptor of a local file stands for, and where the next \<open>write\<close> goes.\<close>

record open_file =
  of_inode :: nat
  of_append :: bool
  of_pos :: nat

record proxy_info =
  px_host :: string
  px_port :: int
  px_username :: string
  px_password :: string

text \<open>
  \<open>dsent\<close> are the bytes given to the connections, \<open>dsending\<close> the parts of files
  (\<open>set_client_fd\<close>: inode, offset, length), \<open>dsend_len\<close> the counter the main loop raises
  by what went out, \<open>dfiles\<close> the open local files, \<open>dfd_closed\<close> the descriptors of local
  files given to \<open>close\<close>, \<open>dmem\<close> what \<open>malloc\<close> will answer for task records.
\<close>

record data_state = task_state +
  dpeers :: "ptr \<Rightarrow> data_peer"
  duser :: "ptr \<Rightarrow> bool"
  dactive :: "ptr list"
  donline :: "nat \<Rightarrow> ptr list"
  dcfg :: cfg_state
  dsent :: "(ptr \<times> byte list) list"
  dsending :: "(ptr \<times> nat \<times> int \<times> int) list"
  dsend_len :: "ptr \<Rightarrow> int"
  dclosed :: "ptr list"
  dfiles :: "int \<Rightarrow> open_file option"
  dfd_closed :: "int list"
  dlocal :: local_state
  dproxy :: "proxy_info option"
  dmem :: "ptr option list"

text \<open>
  \<open>dw_connect\<close> is the descriptor the kernel gives for a new connection, which depends on those
  in use, or a negative number; \<open>dw_newfd\<close> the one for a local file; \<open>dw_write\<close> how many of
  \<open>n\<close> bytes a \<open>write\<close> takes, \<open>None\<close> for an error; \<open>dw_proxy_says\<close> what a proxy sends.
\<close>

record dworld =
  dw_env :: env
  dw_out :: outside
  dw_abi :: abi
  dw_lw :: local_world
  dw_self :: t_ip_info
  dw_isp_name :: string
  dw_connect :: "string \<Rightarrow> int \<Rightarrow> (ptr \<Rightarrow> bool) \<Rightarrow> int"
  dw_peerip :: "ptr \<Rightarrow> u32"
  dw_newfd :: "(int \<Rightarrow> open_file option) \<Rightarrow> int"
  dw_write :: "nat \<Rightarrow> nat option"
  dw_proxy_write :: bool
  dw_proxy_says :: "ptr \<Rightarrow> string"
  dw_timeout :: int
  dw_max_once :: nat
  dw_retry :: int
  dw_data_port :: int
  dw_fcs_max :: nat
  dw_cs_max :: nat
  dw_continue :: bool
  dw_calcu_md5 :: bool
  dw_test :: bool
  dw_conf_int :: "string \<Rightarrow> int \<Rightarrow> int"

definition data_local :: "dworld \<Rightarrow> data_state \<Rightarrow> local_world" where
  "data_local w s = (dw_lw w)\<lparr>lw_env := dw_env w, lw_role := ii_role (dw_self w), lw_stat := self_stat (dcfg s)\<rparr>"

definition set_dpeer :: "ptr \<Rightarrow> data_peer \<Rightarrow> data_state \<Rightarrow> data_state" where
  "set_dpeer fd p s = s\<lparr>dpeers := (dpeers s)(fd := p)\<rparr>"

definition d_send :: "ptr \<Rightarrow> byte list \<Rightarrow> data_state \<Rightarrow> data_state" where
  "d_send fd bs s = s\<lparr>dsent := dsent s @ [(fd, bs)]\<rparr>"

definition set_sub :: "ptr \<Rightarrow> t_task_sub \<Rightarrow> data_state \<Rightarrow> data_state" where
  "set_sub t sub s = set_task t ((tl_task (tasks s t))\<lparr>ti_sub := sub\<rparr>) s"

text \<open>\<open>vfs_set_task\<close> where its result is not looked at, and the same with the reason first.\<close>

definition put_task :: "dworld \<Rightarrow> ptr \<Rightarrow> int \<Rightarrow> data_state \<Rightarrow> data_state" where
  "put_task w t q s = snd (vfs_set_task (dw_env w) t q s)"

definition end_task :: "dworld \<Rightarrow> ptr \<Rightarrow> byte \<Rightarrow> data_state \<Rightarrow> data_state" where
  "end_task w t over s = put_task w t TASK_FIN (set_base t ((tbase s t)\<lparr>tb_overstatus := over\<rparr>) s)"

section \<open>vfs\_data.c: the proxy's configuration\<close>

text \<open>The value of \<open>g_proxy\<close>, if \<open>g_proxyed\<close>; a failing step may leave the mode off.\<close>

definition init_proxy_info :: "dworld \<Rightarrow> int \<times> proxy_info option" where
  "init_proxy_info w =
     (let conf = lw_conf (dw_lw w); isp = dw_isp_name w; key = (\<lambda>k. take 127 (''proxy_'' @ isp @ k)) in
      if ii_role (dw_self w) \<noteq> ROLE_CS then (0, None)
      else case conf ''proxy_isp'' of None \<Rightarrow> (0, None)
      | Some v \<Rightarrow>
        if strstr (map to_lower v) (map to_lower isp) = None then (0, None)
        else case conf (key ''_host'') of None \<Rightarrow> (-1, None)
        | Some host \<Rightarrow>
          let port = dw_conf_int w (key ''_port'') 0 in
          if port = 0 then (-1, None)
          else
            let p = \<lparr>px_host = take 31 host, px_port = port, px_username = [], px_password = []\<rparr> in
            (case conf (key ''_username'') of None \<Rightarrow> (0, Some p)
             | Some u \<Rightarrow>
               let p = p\<lparr>px_username := take 63 u\<rparr> in
               (case conf (key ''_password'') of None \<Rightarrow> (0, Some p)
                | Some pw \<Rightarrow> (0, Some (p\<lparr>px_password := take 63 pw\<rparr>)))))"

definition dt_svc_init :: "dworld \<Rightarrow> data_state \<Rightarrow> int \<times> data_state" where
  "dt_svc_init w s =
     (let s = s\<lparr>dactive := [], donline := (\<lambda>_. [])\<rparr>; (r, p) = init_proxy_info w
      in (if r \<noteq> 0 then -1 else 0, s\<lparr>dproxy := p\<rparr>))"

section \<open>vfs\_data\_base.c: the way through a proxy\<close>

definition crlf :: string where "crlf = [CHR 0x0D, CHR 0x0A]"

definition proxy_request :: "string \<Rightarrow> int \<Rightarrow> string \<Rightarrow> string \<Rightarrow> string option" where
  "proxy_request host port user pass =
     (let auth = take 1023 (user @ '':'' @ pass);
          head = ''CONNECT '' @ host @ '':'' @ show_int port @ '' HTTP/1.1''
      in if user \<noteq> [] \<and> pass \<noteq> [] then
           (if (length auth * 8 + 5) div 6 \<ge> 1021 then None
            else Some (take 1023 (head @ crlf @ ''Proxy-Authorization: Basic '' @ base64_encode (text_bytes auth) True @ crlf @ crlf)))
         else Some (take 1023 (head @ crlf @ crlf)))"

text \<open>
  The characters up to the next line feed, with it, at most 1023; \<open>None\<close> when the peer closes
  before.  A line that is longer makes the code write one byte behind its buffer.
\<close>

fun proxy_line :: "nat \<Rightarrow> string \<Rightarrow> (string \<times> string) option" where
  "proxy_line 0 inp = Some ([], inp)"
| "proxy_line (Suc k) [] = None"
| "proxy_line (Suc k) (c # inp) =
     (if c = CHR 0x0A then Some ([c], inp) else map_option (\<lambda>(l, r). (c # l, r)) (proxy_line k inp))"

definition proxy_accepts :: "string \<Rightarrow> bool" where
  "proxy_accepts line \<longleftrightarrow>
     take 5 line = ''HTTP/'' \<and>
     take 1 (dropWhile (\<lambda>c. c = CHR '' '') (dropWhile (\<lambda>c. is_digit c \<or> c = CHR ''.'') (drop 5 line))) = ''2''"

lemma proxy_line_shorter: "proxy_line (Suc k) inp = Some (l, r) \<Longrightarrow> length r < length inp"
proof (induction k arbitrary: inp l)
  case 0
  then show ?case by (cases inp) (auto split: if_splits)
next
  case (Suc k)
  then obtain c cs where inp: "inp = c # cs" by (cases inp) auto
  show ?case
  proof (cases "c = CHR 0x0A")
    case False
    then obtain l' where "proxy_line (Suc k) cs = Some (l', r)" using Suc.prems inp by auto
    from Suc.IH [OF this] inp show ?thesis by simp
  qed (use Suc.prems inp in auto)
qed

text \<open>The rest of the header, up to the first empty line.\<close>

function proxy_header :: "string \<Rightarrow> bool" where
  "proxy_header inp =
     (case proxy_line 1023 inp of None \<Rightarrow> False
      | Some (l, r) \<Rightarrow> take 1 l = [CHR 0x0A] \<or> l = crlf \<or> proxy_header r)"
  by pat_completeness auto
termination
proof (relation "measure length")
  fix inp :: string and x l r assume "proxy_line 1023 inp = Some x" "(l, r) = x"
  then show "(r, inp) \<in> measure length" using proxy_line_shorter [of 1022 inp l r] by simp
qed simp

declare proxy_header.simps [simp del]

definition establish_proxy_connection :: "dworld \<Rightarrow> ptr \<Rightarrow> string \<Rightarrow> int \<Rightarrow> string \<Rightarrow> string \<Rightarrow> data_state \<Rightarrow> int \<times> data_state" where
  "establish_proxy_connection w fd host port user pass s =
     (case proxy_request host port user pass of None \<Rightarrow> (-1, s)
      | Some req \<Rightarrow>
        if \<not> dw_proxy_write w then (-1, s)
        else
          let s = d_send fd (text_bytes req) s in
          (case proxy_line 1023 (dw_proxy_says w fd) of None \<Rightarrow> (-1, s)
           | Some (line, rest) \<Rightarrow> (if proxy_accepts line \<and> proxy_header rest then 0 else -1, s)))"

section \<open>Connections\<close>

definition dt_svc_initconn :: "dworld \<Rightarrow> ptr \<Rightarrow> data_state \<Rightarrow> int \<times> data_state" where
  "dt_svc_initconn w fd s =
     (let ip = dw_peerip w fd in
      if \<not> duser s fd \<and> e_malloc (dw_env w) = None then (RET_CLOSE_MALLOC, s)
      else
        let s = set_dpeer fd (zero_data_peer\<lparr>dp_hbtime := e_now (dw_env w), dp_sock_stat := D_CONNECTED, dp_ip := ip\<rparr>)
                  (s\<lparr>duser := (duser s)(fd := True)\<rparr>)
        in (0, s\<lparr>dactive := dactive s @ [fd], donline := lf_add_head fd (bucket_of ip) (donline s)\<rparr>))"

definition get_ip_connect_count :: "u32 \<Rightarrow> data_state \<Rightarrow> nat" where
  "get_ip_connect_count ip s =
     length (filter (\<lambda>fd. dp_ip (dpeers s fd) = ip \<and> dp_active (dpeers s fd)) (donline s (bucket_of ip)))"

definition dt_find_ip_stat :: "u32 \<Rightarrow> bool \<Rightarrow> data_stat \<Rightarrow> data_state \<Rightarrow> ptr option" where
  "dt_find_ip_stat ip mode status s =
     find (\<lambda>fd. dp_ip (dpeers s fd) = ip \<and> dp_active (dpeers s fd) = mode \<and> dp_sock_stat (dpeers s fd) = status)
       (donline s (bucket_of ip))"

definition dt_active_connect :: "dworld \<Rightarrow> t_ip_info \<Rightarrow> data_state \<Rightarrow> data_state" where
  "dt_active_connect w ipinfo s =
     (let (t, port) = (case dproxy s of None \<Rightarrow> (ii_s_ip ipinfo, dw_data_port w) | Some p \<Rightarrow> (px_host p, px_port p));
          fd = dw_connect w t port (duser s)
      in if fd < 0 then s
         else
           let fd = nat fd;
               (r, s) = (case dproxy s of None \<Rightarrow> (0, s)
                 | Some p \<Rightarrow> establish_proxy_connection w fd (ii_s_ip ipinfo) (dw_data_port w) (px_username p) (px_password p) s)
           in if r \<noteq> 0 then s\<lparr>dclosed := dclosed s @ [fd]\<rparr>
              else case dt_svc_initconn w fd s of
                (r, s) \<Rightarrow>
                  if r \<noteq> 0 then s\<lparr>dclosed := dclosed s @ [fd]\<rparr>
                  else set_dpeer fd ((dpeers s fd)\<lparr>dp_sock_stat := D_IDLE, dp_active := True\<rparr>) s)"

definition dt_touch :: "dworld \<Rightarrow> ptr \<Rightarrow> data_state \<Rightarrow> data_state" where
  "dt_touch w fd s = (set_dpeer fd ((dpeers s fd)\<lparr>dp_hbtime := e_now (dw_env w)\<rparr>) s)
     \<lparr>dactive := removeAll fd (dactive s) @ [fd]\<rparr>"

definition dt_active_send :: "dworld \<Rightarrow> ptr \<Rightarrow> byte \<Rightarrow> byte \<Rightarrow> byte list \<Rightarrow> u16 \<Rightarrow> data_state \<Rightarrow> data_state" where
  "dt_active_send w fd cmdid status b bodylen s =
     d_send fd (create_sig_msg cmdid status b bodylen)
       (set_dpeer fd ((dpeers s fd)\<lparr>dp_hbtime := e_now (dw_env w)\<rparr>) s)"

text \<open>\<open>close\<close> of a local file's descriptor.\<close>

definition close_local :: "int \<Rightarrow> data_state \<Rightarrow> data_state" where
  "close_local d s = s\<lparr>dfiles := (dfiles s)(d := None), dfd_closed := dfd_closed s @ [d]\<rparr>"

text \<open>A connection that ends gives its tasks back; a file being received is kept or removed.\<close>

definition give_back_send :: "dworld \<Rightarrow> ptr \<Rightarrow> data_state \<Rightarrow> data_state" where
  "give_back_send w fd s =
     (case dp_sendtask (dpeers s fd) of None \<Rightarrow> s | Some t \<Rightarrow> end_task w t OVER_SEND_LEN s)"

definition give_back_recv :: "dworld \<Rightarrow> ptr \<Rightarrow> data_state \<Rightarrow> data_state" where
  "give_back_recv w fd s =
     (case dp_recvtask (dpeers s fd) of None \<Rightarrow> s
      | Some t \<Rightarrow>
        let base = tbase s t;
            (base, s) = (if dw_continue w then (base\<lparr>tb_offsize := tb_offsize base + ts_lastlen (tsub s t)\<rparr>, s)
                         else (base, s\<lparr>dlocal := real_rm_file (data_local w s) (tb_tmpfile base) (dlocal s)\<rparr>))
        in put_task w t TASK_WAIT (set_base t (base\<lparr>tb_retry := tb_retry base + 1\<rparr>) s))"

definition dt_svc_finiconn :: "dworld \<Rightarrow> ptr \<Rightarrow> data_state \<Rightarrow> data_state" where
  "dt_svc_finiconn w fd s =
     (if \<not> duser s fd then s
      else
        let d = dp_in_fd (dpeers s fd);
            s = (if d > 0 then close_local d s else s);
            s = s\<lparr>dactive := removeAll fd (dactive s), donline := lf_del fd (donline s)\<rparr>;
            s = give_back_recv w fd (give_back_send w fd s)
        in set_dpeer fd zero_data_peer (s\<lparr>duser := (duser s)(fd := False)\<rparr>))"

definition dt_do_close :: "dworld \<Rightarrow> ptr \<Rightarrow> data_state \<Rightarrow> data_state" where
  "dt_do_close w fd s = (dt_svc_finiconn w fd s)\<lparr>dclosed := dclosed s @ [fd]\<rparr>"

end
