(* ===== verification/DataTask.thy ===== *)
theory DataTask
  imports DataBase
begin

text \<open>
  The data plugin, second part: asking for a file and answering (\<open>vfs_data_task.c\<close>,
  \<open>vfs_data_sub.c\<close>), receiving its bytes (\<open>svc_recv\<close>, \<open>svc_send\<close>) and the round over the
  waiting tasks (\<open>check_task\<close>).
\<close>

section \<open>vfs\_data\_task.c\<close>

text \<open>Opening the file to receive into; without a task record nothing could be done (the code would fail).\<close>

definition open_for_recv :: "dworld \<Rightarrow> ptr \<Rightarrow> ptr \<Rightarrow> data_state \<Rightarrow> int \<times> data_state" where
  "open_for_recv w fd t s =
     (let append = tb_offsize (tbase s t) > 0; d = dp_in_fd (dpeers s fd);
          s = (if d > 0 then close_local d s else s);
          (ret, base, oi, lo) = open_tmp_localfile_4_write (data_local w s) (tbase s t) (dlocal s);
          s = set_base t base (s\<lparr>dlocal := lo\<rparr>)
      in case oi of
           Some i \<Rightarrow>
             let d = dw_newfd w (dfiles s) in
             (ret, set_dpeer fd ((dpeers s fd)\<lparr>dp_in_fd := d\<rparr>)
                (s\<lparr>dfiles := (dfiles s)(d := Some \<lparr>of_inode = i, of_append = append, of_pos = 0\<rparr>)\<rparr>))
         | None \<Rightarrow>
             (ret, if ret = LOCALFILE_OPEN_E then set_dpeer fd ((dpeers s fd)\<lparr>dp_in_fd := -1\<rparr>) s else s))"

definition do_recv_task :: "dworld \<Rightarrow> ptr \<Rightarrow> t_vfs_sig_head \<Rightarrow> t_task_base \<Rightarrow> data_state \<Rightarrow> int \<times> data_state" where
  "do_recv_task w fd h base s =
     (let peer = dpeers s fd in
      if dp_sock_stat peer \<noteq> PREPARE_RECVFILE then (RECV_CLOSE, s)
      else case dp_recvtask peer of None \<Rightarrow> (RECV_CLOSE, s)
      | Some t \<Rightarrow>
        if h_status h \<noteq> FILE_SYNC_DST_2_SRC then
          let s = end_task w t OVER_E_OPEN_SRCFILE (set_dpeer fd (peer\<lparr>dp_sock_stat := D_IDLE\<rparr>) s)
          in (RECV_CLOSE, set_dpeer fd ((dpeers s fd)\<lparr>dp_recvtask := None\<rparr>) s)
        else
          let base0 = (if tb_filemd5 (tbase s t) \<noteq> tb_filemd5 base then base else tbase s t);
              base0 = (if \<not> dw_continue w then base0\<lparr>tb_offsize := 0\<rparr> else base0);
              s = set_base t base0 s;
              s = set_sub t ((tsub s t)\<lparr>ts_processlen := tb_fsize base - tb_offsize base0\<rparr>) s;
              (ret, s) = open_for_recv w fd t s
          in if ret \<noteq> LOCALFILE_OK then
               let s = end_task w t OVER_E_OPEN_DSTFILE s
               in (RECV_CLOSE, set_dpeer fd ((dpeers s fd)\<lparr>dp_recvtask := None\<rparr>) s)
             else
               let s = set_dpeer fd ((dpeers s fd)\<lparr>dp_sock_stat := RECVFILEING\<rparr>) s
               in (RECV_ADD_EPOLLIN, set_sub t ((tsub s t)\<lparr>ts_starttime := e_now (dw_env w)\<rparr>) s))"

definition dt_get_home :: "dworld \<Rightarrow> data_state \<Rightarrow> int \<times> ptr option \<times> data_state" where
  "dt_get_home w s =
     (let e = (dw_env w)\<lparr>e_malloc := (case dmem s of [] \<Rightarrow> None | m # _ \<Rightarrow> m)\<rparr> in
      vfs_get_task e TASK_HOME (if vfstask s TASK_HOME = [] then s\<lparr>dmem := tl (dmem s)\<rparr> else s))"

definition rsp_sub :: "dworld \<Rightarrow> u32 \<Rightarrow> t_task_base \<Rightarrow> t_task_sub" where
  "rsp_sub w ip base = zero_sub\<lparr>ts_peerip := ip2str ip, ts_processlen := tb_fsize base - tb_offsize base,
     ts_starttime := e_now (dw_env w), ts_oper_type := OPER_GET_RSP, ts_need_sync := TASK_SRC_NOSYNC\<rparr>"

text \<open>Taking a task for the file to send and opening it; the result is the status of the answer.\<close>

definition start_send :: "dworld \<Rightarrow> ptr \<Rightarrow> t_task_base \<Rightarrow> data_state \<Rightarrow> byte \<times> t_task_base \<times> data_state" where
  "start_send w fd base s =
     (case dt_get_home w s of
        (r, None, s) \<Rightarrow> (FILE_SYNC_DST_2_SRC_E_MALLOC, base, s)
      | (r, Some t, s) \<Rightarrow>
        if r \<noteq> GET_TASK_OK then (FILE_SYNC_DST_2_SRC_E_MALLOC, base, s)
        else
          let base = (if \<not> dw_continue w then base\<lparr>tb_offsize := 0\<rparr> else base);
              sub = rsp_sub w (dp_ip (dpeers s fd)) base;
              s = set_task t ((tl_task (tasks s t))\<lparr>ti_base := base, ti_sub := sub\<rparr>) s
          in case open_localfile_4_read (data_local w s) base (lo_fs (dlocal s)) of
               (ret, Some i) \<Rightarrow>
                 let s = put_task w t TASK_SEND (set_base t (base\<lparr>tb_overstatus := OVER_UNKNOWN\<rparr>) s);
                     s = set_dpeer fd ((dpeers s fd)\<lparr>dp_sendtask := Some t\<rparr>) s;
                     s = s\<lparr>dsending := dsending s @ [(fd, i, tb_offsize base, ts_processlen sub)]\<rparr>
                 in (FILE_SYNC_DST_2_SRC, base, set_dpeer fd ((dpeers s fd)\<lparr>dp_sock_stat := SENDFILEING\<rparr>) s)
             | (ret, None) \<Rightarrow>
                 (FILE_SYNC_DST_2_SRC_E_OPENFILE, base,
                  end_task w t OVER_E_OPEN_SRCFILE (set_sub t (sub\<lparr>ts_oper_type := OPER_GET_REQ\<rparr>) s)))"

definition do_send_task :: "dworld \<Rightarrow> ptr \<Rightarrow> t_task_base \<Rightarrow> data_state \<Rightarrow> data_state" where
  "do_send_task w fd base s =
     (let s = set_dpeer fd ((dpeers s fd)\<lparr>dp_hbtime := e_now (dw_env w)\<rparr>) (s\<lparr>dsend_len := (dsend_len s)(fd := 0)\<rparr>);
          (ret, base) = (if tb_fsize base = 0 \<or> dw_calcu_md5 w \<or> tb_retry base \<noteq> 0
                         then get_localfile_stat (data_local w s) base (lo_fs (dlocal s)) else (LOCALFILE_OK, base));
          (status, base, s) = (if ret \<noteq> LOCALFILE_OK then (FILE_SYNC_DST_2_SRC_E_OPENFILE, base, s)
                               else start_send w fd base s);
          msg = create_sig_msg CMD_GET_FILE_RSP status (bytes_of (dw_abi w) base) (sizeof_base (dw_abi w));
          s = d_send fd msg s
      in set_dpeer fd ((dpeers s fd)\<lparr>dp_headlen := length msg\<rparr>) s)"

section \<open>vfs\_data\_sub.c, vfs\_data.c: messages\<close>

definition dt_do_req :: "dworld \<Rightarrow> ptr \<Rightarrow> t_vfs_sig_head \<Rightarrow> byte list \<Rightarrow> data_state \<Rightarrow> int \<times> data_state" where
  "dt_do_req w fd h b s =
     (if h_cmdid h = CMD_GET_FILE_RSP then
        (if h_bodylen h \<noteq> sizeof_base (dw_abi w) then (RECV_CLOSE, s)
         else do_recv_task w fd h (base_of (dw_abi w) b) s)
      else if h_cmdid h = CMD_GET_FILE_REQ then
        (if h_bodylen h \<noteq> sizeof_base (dw_abi w) then (RECV_CLOSE, s)
         else (RECV_ADD_EPOLLOUT, do_send_task w fd (base_of (dw_abi w) b) s))
      else (RECV_CLOSE, s))"

text \<open>
  \<open>write\<close> on a descriptor: where the file is open for appending the bytes go to its end, else
  to its position.  A gap is filled with zeros.
\<close>

definition write_at :: "nat \<Rightarrow> byte list \<Rightarrow> byte list \<Rightarrow> byte list" where
  "write_at pos bs d = take pos d @ replicate (pos - length d) 0 @ bs @ drop (pos + length bs) d"

definition fd_write :: "dworld \<Rightarrow> int \<Rightarrow> byte list \<Rightarrow> data_state \<Rightarrow> nat option \<times> data_state" where
  "fd_write w d data s =
     (case dfiles s d of None \<Rightarrow> (None, s)
      | Some f \<Rightarrow>
        (case dw_write w (length data) of None \<Rightarrow> (None, s)
         | Some n \<Rightarrow>
           let bs = take n data; fs = lo_fs (dlocal s); old = in_data (fs_inode fs (of_inode f));
               pos = (if of_append f then length old else of_pos f);
               fs = set_inode (of_inode f) (\<lambda>i. i\<lparr>in_data := write_at pos bs old\<rparr>) fs
           in (Some (length bs), s\<lparr>dlocal := (dlocal s)\<lparr>lo_fs := fs\<rparr>,
                 dfiles := (dfiles s)(d := Some (f\<lparr>of_pos := pos + length bs\<rparr>))\<rparr>)))"

text \<open>The end of a file: it is checked and published, and the task is finished either way.\<close>

definition finish_recv :: "dworld \<Rightarrow> ptr \<Rightarrow> ptr \<Rightarrow> data_state \<Rightarrow> int \<times> data_state" where
  "finish_recv w fd t s =
     (let d = dp_in_fd (dpeers s fd);
          s = set_sub t ((tsub s t)\<lparr>ts_endtime := e_now (dw_env w)\<rparr>) s;
          (ret, base, lo) = close_tmp_check_mv (data_local w s) (tbase s t) d (dlocal s);
          s = set_base t base (s\<lparr>dlocal := lo\<rparr>);
          s = (if d < 0 then s else close_local d s)
      in if ret \<noteq> LOCALFILE_OK then
           let s = set_dpeer fd ((dpeers s fd)\<lparr>dp_recvtask := None\<rparr>) s
           in (RECV_CLOSE, end_task w t OVER_E_MD5 s)
         else
           let s = end_task w t OVER_OK s;
               s = set_dpeer fd ((dpeers s fd)\<lparr>dp_in_fd := -1, dp_recvtask := None, dp_sock_stat := D_IDLE\<rparr>) s
           in (if dproxy s \<noteq> None then RECV_CLOSE else RECV_ADD_EPOLLIN, s))"

text \<open>
  What is there of a file goes to the disk.  The result of \<open>write\<close> is kept unsigned, so an
  error is not seen: it counts as \<open>2\<^sup>6\<^sup>4 - 1\<close> bytes taken off the buffer and as -1 received.
\<close>

definition recv_file :: "dworld \<Rightarrow> ptr \<Rightarrow> mybuff \<Rightarrow> data_state \<Rightarrow> int \<times> mybuff \<times> data_state" where
  "recv_file w fd m s =
     (case dp_recvtask (dpeers s fd) of None \<Rightarrow> (RECV_CLOSE, m, s)
      | Some t \<Rightarrow>
        (case mybuff_getdata m of None \<Rightarrow> (RECV_ADD_EPOLLIN, m, s)
         | Some data \<Rightarrow>
           let remain = nat ((ts_processlen (tsub s t) - ts_lastlen (tsub s t)) mod 2 ^ 64);
               (n, s) = fd_write w (dp_in_fd (dpeers s fd)) (take remain data) s;
               m = mybuff_skipdata (case n of None \<Rightarrow> 2 ^ 64 - 1 | Some k \<Rightarrow> k) m;
               got = ts_lastlen (tsub s t) + (case n of None \<Rightarrow> -1 | Some k \<Rightarrow> int k);
               s = set_sub t ((tsub s t)\<lparr>ts_lastlen := got\<rparr>) s
           in if got \<ge> ts_processlen (tsub s t) then
                let (r, s) = finish_recv w fd t s in (r, m, s)
              else (RECV_ADD_EPOLLIN, m, s)))"

text \<open>Every message takes at least four bytes off the buffer, so its length is fuel enough.\<close>

primrec dt_loop :: "nat \<Rightarrow> dworld \<Rightarrow> ptr \<Rightarrow> mybuff \<Rightarrow> data_state \<Rightarrow> (int \<times> mybuff \<times> data_state) option" where
  "dt_loop 0 w fd m s = None"
| "dt_loop (Suc k) w fd m s =
     (let (r, m, s) = check_req (dt_do_req w fd) m s in
      if r = -1 then Some (RECV_ADD_EPOLLIN, m, s)
      else if r = RECV_ADD_EPOLLOUT then Some (RECV_ADD_EPOLLOUT, m, s)
      else if r = RECV_CLOSE then Some (RECV_CLOSE, m, s)
      else if dp_sock_stat (dpeers s fd) = RECVFILEING then Some (recv_file w fd m (dt_touch w fd s))
      else if dp_sock_stat (dpeers s fd) = SENDFILEING then Some (RECV_ADD_EPOLLOUT, m, s)
      else dt_loop k w fd m s)"

definition dt_svc_recv :: "dworld \<Rightarrow> ptr \<Rightarrow> mybuff \<Rightarrow> data_state \<Rightarrow> (int \<times> mybuff \<times> data_state) option" where
  "dt_svc_recv w fd m s =
     (let s = dt_touch w fd s in
      if dp_sock_stat (dpeers s fd) = RECVFILEING then Some (recv_file w fd m s)
      else dt_loop (Suc (mb_len m)) w fd m s)"

definition dt_svc_send_once :: "dworld \<Rightarrow> ptr \<Rightarrow> data_state \<Rightarrow> int \<times> data_state" where
  "dt_svc_send_once w fd s = (SEND_ADD_EPOLLIN, set_dpeer fd ((dpeers s fd)\<lparr>dp_hbtime := e_now (dw_env w)\<rparr>) s)"

definition dt_svc_send :: "dworld \<Rightarrow> ptr \<Rightarrow> data_state \<Rightarrow> int \<times> data_state" where
  "dt_svc_send w fd s =
     (let s = dt_touch w fd s in
      if dp_sock_stat (dpeers s fd) \<noteq> SENDFILEING then (SEND_ADD_EPOLLIN, s)
      else case dp_sendtask (dpeers s fd) of None \<Rightarrow> (SEND_CLOSE, s)
      | Some t \<Rightarrow>
        let all_sent = dsend_len s fd \<ge> int (dp_headlen (dpeers s fd)) + ts_processlen (tsub s t);
            s = set_dpeer fd ((dpeers s fd)\<lparr>dp_sock_stat := D_IDLE\<rparr>) s;
            s = end_task w t (if all_sent then OVER_OK else OVER_SEND_LEN) s;
            s = set_dpeer fd ((dpeers s fd)\<lparr>dp_sendtask := None\<rparr>) s
        in (if all_sent then SEND_ADD_EPOLLIN else SEND_CLOSE, s))"

section \<open>vfs\_data\_base.c: the waiting tasks\<close>

definition put_off :: "dworld \<Rightarrow> ptr \<Rightarrow> data_state \<Rightarrow> data_state" where
  "put_off w t s =
     put_task w t (if ts_need_sync (tsub s t) = TASK_SYNC_ISDIR then TASK_Q_SYNC_DIR_TMP else TASK_WAIT_TMP) s"

definition ask_for_file :: "dworld \<Rightarrow> ptr \<Rightarrow> ptr \<Rightarrow> data_state \<Rightarrow> data_state" where
  "ask_for_file w fd t s =
     (let s = set_sub t ((tsub s t)\<lparr>ts_lastlen := 0\<rparr>) s;
          s = dt_active_send w fd CMD_GET_FILE_REQ FILE_SYNC_DST_2_SRC (bytes_of (dw_abi w) (tbase s t))
                (sizeof_base (dw_abi w)) s;
          s = set_dpeer fd ((dpeers s fd)\<lparr>dp_sock_stat := PREPARE_RECVFILE\<rparr>) s;
          s = put_task w t TASK_RECV s
      in set_dpeer fd ((dpeers s fd)\<lparr>dp_recvtask := Some t\<rparr>) s)"

definition start_or_test :: "dworld \<Rightarrow> ptr \<Rightarrow> ptr \<Rightarrow> data_state \<Rightarrow> data_state" where
  "start_or_test w fd t s = (if dw_test w then end_task w t OVER_OK s else ask_for_file w fd t s)"

text \<open>Without an idle connection to the machine: one is opened, unless there are too many.\<close>

definition connect_for :: "dworld \<Rightarrow> ptr \<Rightarrow> t_ip_info \<Rightarrow> data_state \<Rightarrow> data_state" where
  "connect_for w t ipinfo s =
     (let count = get_ip_connect_count (str2ip (ts_peerip (tsub s t))) s in
      if ii_role ipinfo = ROLE_FCS \<and> count > dw_fcs_max w then put_off w t s
      else if ii_role ipinfo = ROLE_CS \<and> count > dw_cs_max w then put_off w t s
      else
        let s = dt_active_connect w ipinfo s;
            host = (case dproxy s of None \<Rightarrow> ts_peerip (tsub s t) | Some p \<Rightarrow> px_host p)
        in case dt_find_ip_stat (str2ip host) True D_IDLE s of
             None \<Rightarrow> put_off w t s
           | Some fd \<Rightarrow> start_or_test w fd t s)"

definition wait_one :: "dworld \<Rightarrow> ptr \<Rightarrow> data_state \<Rightarrow> data_state" where
  "wait_one w t s =
     (let base = tbase s t; lw = data_local w s in
      if sint (tb_retry base) > dw_retry w then
        end_task w t OVER_TOO_MANY_TRY (s\<lparr>dlocal := real_rm_file lw (tb_tmpfile base) (dlocal s)\<rparr>)
      else
        let (ret, base, fs) = check_localfile_md5 lw base VIDEOFILE (lo_fs (dlocal s));
            s = set_base t base (s\<lparr>dlocal := (dlocal s)\<lparr>lo_fs := fs\<rparr>\<rparr>)
        in if ret = LOCALFILE_OK then end_task w t OVER_OK s
        else case get_ip_info (dw_env w) (dw_out w) (ts_peerip (tsub s t)) True (dcfg s) of
          (r, None) \<Rightarrow> end_task w t OVER_E_IP s
        | (r, Some p) \<Rightarrow>
          let ipinfo = infos (dcfg s) p;
              peer = dt_find_ip_stat (str2ip (ts_peerip (tsub s t))) True D_IDLE s
          in if ts_oper_type (tsub s t) \<noteq> OPER_GET_REQ then end_task w t OVER_E_TYPE s
             else
               let (space, fs) = check_disk_space lw (tbase s t) (lo_fs (dlocal s));
                   s = s\<lparr>dlocal := (dlocal s)\<lparr>lo_fs := fs\<rparr>\<rparr>
               in if space \<noteq> DISK_OK then
                    let (again, fs) = check_disk_space lw (tbase s t) (lo_fs (dlocal s));
                        s = s\<lparr>dlocal := (dlocal s)\<lparr>lo_fs := fs\<rparr>\<rparr>
                    in if again = DISK_SPACE_TOO_SMALL then put_off w t s
                       else end_task w t OVER_E_OPEN_DSTFILE s
                  else case peer of Some fd \<Rightarrow> start_or_test w fd t s
                       | None \<Rightarrow> connect_for w t ipinfo s)"

definition next_waiting :: "dworld \<Rightarrow> data_state \<Rightarrow> int \<times> ptr option \<times> data_state" where
  "next_waiting w s =
     (case vfs_get_task (dw_env w) TASK_WAIT s of
        (r, ot, s) \<Rightarrow> if r \<noteq> GET_TASK_OK then vfs_get_task (dw_env w) TASK_Q_SYNC_DIR s else (r, ot, s))"

primrec wait_rounds :: "nat \<Rightarrow> dworld \<Rightarrow> data_state \<Rightarrow> data_state" where
  "wait_rounds 0 w s = s"
| "wait_rounds (Suc k) w s =
     (case next_waiting w s of
        (r, None, s) \<Rightarrow> s
      | (r, Some t, s) \<Rightarrow> if r \<noteq> GET_TASK_OK then s else wait_rounds k w (wait_one w t s))"

text \<open>The configured number (it fits 16 bits) is one more than the tasks looked at.\<close>

definition dt_check_task :: "dworld \<Rightarrow> data_state \<Rightarrow> data_state" where
  "dt_check_task w s =
     (let e = dw_env w;
          s = drain_all e TASK_WAIT_TMP (\<lambda>t s. put_task w t TASK_WAIT s) s;
          s = drain_all e TASK_Q_SYNC_DIR_TMP (\<lambda>t s. put_task w t TASK_Q_SYNC_DIR s) s
      in wait_rounds (dw_max_once w - 1) w s)"

primrec dt_timeout_peers :: "dworld \<Rightarrow> ptr list \<Rightarrow> data_state \<Rightarrow> data_state" where
  "dt_timeout_peers w [] s = s"
| "dt_timeout_peers w (fd # fds) s =
     (if e_now (dw_env w) - dp_hbtime (dpeers s fd) < dw_timeout w * 10 then s
      else dt_timeout_peers w fds (dt_do_close w fd s))"

definition dt_svc_timeout :: "dworld \<Rightarrow> data_state \<Rightarrow> data_state" where
  "dt_svc_timeout w s =
     dt_check_task w (if ii_role (dw_self w) = ROLE_CS then dt_timeout_peers w (dactive s) s else s)"

end
