(* ===== verification/DataRun.thy ===== *)
theory DataRun
  imports DataTask TrackerRun
begin

text \<open>
  The data plugin at work: its events as a step relation and the invariant that ties its
  connections to the task pool.  The task a connection receives is on \<open>TASK_RECV\<close>, the one it
  sends on \<open>TASK_SEND\<close>, and no two connections have the same; no step takes a task off the
  queues for good.  The plugin moves these tasks on without \<open>vfs_get_task\<close>, so the counters
  of these two queues only grow.
\<close>

interpretation dp: pool_client "\<lambda>q. q \<noteq> TASK_RECV \<and> q \<noteq> TASK_SEND" dmem "\<lambda>ms s. s\<lparr>dmem := ms\<rparr>"
  by unfold_locales simp_all

section \<open>What an operation may change\<close>

text \<open>The tasks of a connection, the one it receives first.\<close>

definition own :: "data_state \<Rightarrow> ptr \<Rightarrow> ptr option \<times> ptr option" where
  "own s fd = (dp_recvtask (dpeers s fd), dp_sendtask (dpeers s fd))"

definition owners_ok :: "(int \<Rightarrow> ptr list) \<Rightarrow> (ptr \<Rightarrow> ptr option \<times> ptr option) \<Rightarrow> bool" where
  "owners_ok F o' \<longleftrightarrow>
     (\<forall>fd t. fst (o' fd) = Some t \<longrightarrow> t \<in> set (F TASK_RECV)) \<and>
     (\<forall>fd t. snd (o' fd) = Some t \<longrightarrow> t \<in> set (F TASK_SEND)) \<and>
     (\<forall>fd fd' t. fst (o' fd) = Some t \<longrightarrow> fst (o' fd') = Some t \<longrightarrow> fd = fd') \<and>
     (\<forall>fd fd' t. snd (o' fd) = Some t \<longrightarrow> snd (o' fd') = Some t \<longrightarrow> fd = fd')"

definition data_inv :: "data_state \<Rightarrow> bool" where
  "data_inv s \<longleftrightarrow> dp.inv s \<and> owners_ok (vfstask s) (own s)"

text \<open>The step from \<open>s\<close> keeps the invariant and every placed task.\<close>

definition data_keeps :: "data_state \<Rightarrow> data_state \<Rightarrow> bool" where
  "data_keeps s s' \<longleftrightarrow> data_inv s' \<and> (\<forall>u. placed u s \<longrightarrow> placed u s')"

lemma data_keeps_trans: "data_keeps s s1 \<Longrightarrow> (data_inv s1 \<Longrightarrow> data_keeps s1 s2) \<Longrightarrow> data_keeps s s2"
  by (auto simp: data_keeps_def)

definition same_tasks :: "data_state \<Rightarrow> data_state \<Rightarrow> bool" where
  "same_tasks s s' \<longleftrightarrow> dp.view s' = dp.view s \<and> own s' = own s"

lemma same_tasks_refl [simp]: "same_tasks s s"
  by (simp add: same_tasks_def)

lemma same_tasks_trans: "same_tasks s s1 \<Longrightarrow> same_tasks s1 s2 \<Longrightarrow> same_tasks s s2"
  by (simp add: same_tasks_def)

lemma view_queues: "dp.view s' = dp.view s \<Longrightarrow> vfstask s' = vfstask s"
  by (simp add: dp.view_def)

lemma same_inv: "data_inv s \<Longrightarrow> same_tasks s s' \<Longrightarrow> data_inv s'"
  using dp.inv_same view_queues by (fastforce simp: data_inv_def same_tasks_def)

lemma same_keeps: "data_inv s \<Longrightarrow> same_tasks s s' \<Longrightarrow> data_keeps s s'"
  using same_inv [of s s'] dp.placed_view [of s' s] by (simp add: data_keeps_def same_tasks_def)

lemma same_held: "same_tasks s s' \<Longrightarrow> dp.held t s' = dp.held t s"
  unfolding same_tasks_def by (rule dp.held_view) simp

lemma view_simps [simp]:
  "dp.view (set_dpeer fd p s) = dp.view s" "dp.view (d_send fd bs s) = dp.view s"
  "dp.view (set_sub t sub s) = dp.view s" "dp.view (close_local d s) = dp.view s"
  "dp.view (s\<lparr>dlocal := lo\<rparr>) = dp.view s" "dp.view (s\<lparr>dfiles := fs\<rparr>) = dp.view s"
  "dp.view (s\<lparr>dlocal := lo, dfiles := fs\<rparr>) = dp.view s"
  "dp.view (s\<lparr>dsending := sg\<rparr>) = dp.view s" "dp.view (s\<lparr>dsend_len := sl\<rparr>) = dp.view s"
  "dp.view (s\<lparr>dclosed := dc\<rparr>) = dp.view s" "dp.view (s\<lparr>duser := du\<rparr>) = dp.view s"
  "dp.view (s\<lparr>dactive := da\<rparr>) = dp.view s" "dp.view (s\<lparr>donline := dn\<rparr>) = dp.view s"
  "dp.view (s\<lparr>dactive := da, donline := dn\<rparr>) = dp.view s" "dp.view (s\<lparr>dproxy := px\<rparr>) = dp.view s"
  by (simp_all add: dp.view_def set_dpeer_def d_send_def set_sub_def close_local_def set_task_def fun_eq_iff)

lemma own_simps [simp]:
  "own (d_send fd bs s) = own s" "own (set_sub t sub s) = own s" "own (close_local d s) = own s"
  "own (set_base t b s) = own s" "own (set_task t ti s) = own s"
  "own (s\<lparr>dlocal := lo\<rparr>) = own s" "own (s\<lparr>dfiles := fs\<rparr>) = own s" "own (s\<lparr>dlocal := lo, dfiles := fs\<rparr>) = own s"
  "own (s\<lparr>dsending := sg\<rparr>) = own s" "own (s\<lparr>dsend_len := sl\<rparr>) = own s"
  "own (s\<lparr>dclosed := dc\<rparr>) = own s" "own (s\<lparr>duser := du\<rparr>) = own s"
  "own (s\<lparr>dactive := da\<rparr>) = own s" "own (s\<lparr>donline := dn\<rparr>) = own s"
  "own (s\<lparr>dactive := da, donline := dn\<rparr>) = own s" "own (s\<lparr>dproxy := px\<rparr>) = own s" "own (s\<lparr>dmem := ms\<rparr>) = own s"
  by (simp_all add: own_def fun_eq_iff d_send_def set_sub_def close_local_def set_base_def set_task_def)

lemma own_peer [simp]: "own (set_dpeer fd p s) = (own s)(fd := (dp_recvtask p, dp_sendtask p))"
  by (simp add: own_def set_dpeer_def fun_eq_iff)

lemma own_more: "dpeers s' = dpeers s \<Longrightarrow> own s' = own s"
  by (simp add: own_def fun_eq_iff)

lemma own_same_peer [simp]: "(own s)(fd := (dp_recvtask (dpeers s fd), dp_sendtask (dpeers s fd))) = own s"
  by (simp add: own_def fun_eq_iff)

lemma peers_put [simp]: "dpeers (put_task w t q s) = dpeers s"
  by (simp add: put_task_def vfs_set_task_def set_status_def)

lemma own_put [simp]: "own (put_task w t q s) = own s"
  by (rule own_more) simp

lemma peers_simps [simp]:
  "dpeers (set_task t ti s) = dpeers s" "dpeers (set_base t b s) = dpeers s" "dpeers (set_sub t sub s) = dpeers s"
  "dpeers (close_local d s) = dpeers s" "dpeers (d_send fd bs s) = dpeers s"
  "dpeers (set_dpeer fd p s) = (dpeers s)(fd := p)"
  by (simp_all add: set_task_def set_base_def set_sub_def close_local_def d_send_def set_dpeer_def)

lemma peers_end [simp]: "dpeers (end_task w t ov s) = dpeers s"
  by (simp add: end_task_def)

section \<open>Moving a task\<close>

lemma fin_valid [simp]:
  "valid_status TASK_FIN" "valid_status TASK_WAIT" "valid_status TASK_RECV" "valid_status TASK_SEND"
  "valid_status TASK_WAIT_TMP" "valid_status TASK_Q_SYNC_DIR" "valid_status TASK_Q_SYNC_DIR_TMP"
  by (simp_all add: valid_status_def queue_defs)

lemma queues_put_task:
  assumes "unlocked (dw_env w)" and "valid_status q"
  shows "vfstask (put_task w t q s) = lf_add_tail t q (lf_del t (vfstask s))"
  using assms by (simp add: put_task_def vfs_set_task_def unlocked_def)

lemma owners_put:
  assumes "owners_ok F (own s)" and "\<And>fd. fst (own s fd) \<noteq> Some t" and "\<And>fd. snd (own s fd) \<noteq> Some t"
  shows "owners_ok (lf_add_tail t q (lf_del t F)) (own s)"
  using assms by (auto simp: owners_ok_def)

lemma put_keeps:
  assumes inv: "data_inv s" and "unlocked (dw_env w)" and "valid_status q" and t: "dp.loose t s"
    and free: "\<And>fd. fst (own s fd) \<noteq> Some t" "\<And>fd. snd (own s fd) \<noteq> Some t"
    and v: "dp.view s' = dp.view (put_task w t q s)" and "own s' = own s"
  shows "data_keeps s s'" and "placed t s'"
proof -
  have "dp.inv (put_task w t q s)" using dp.put_loose(1) [OF _ t] inv by (simp add: data_inv_def put_task_def)
  then have i: "dp.inv s'" using dp.inv_same v by blast
  have q: "vfstask s' = lf_add_tail t q (lf_del t (vfstask s))"
    using view_queues [OF v] queues_put_task [OF assms(2,3)] by simp
  then have "owners_ok (vfstask s') (own s')"
    using owners_put [OF _ free] inv assms(8) by (simp add: data_inv_def)
  moreover have "placed u s \<Longrightarrow> placed u s'" for u
    using dp.put_placed(2) [OF assms(2,3), of u s t] dp.placed_view [OF v] by (simp add: put_task_def)
  ultimately show "data_keeps s s'" using i by (simp add: data_keeps_def data_inv_def)
  show "placed t s'" unfolding placed_def q by (intro exI [of _ q]) simp
qed

text \<open>A held task belongs to no connection.\<close>

lemma held_free:
  assumes "data_inv s" and "dp.held t s"
  shows "fst (own s fd) \<noteq> Some t" and "snd (own s fd) \<noteq> Some t"
  using assms unfolding data_inv_def owners_ok_def dp.held_def lf_off_def by blast+

lemma put_held_keeps:
  assumes "data_inv s" and "unlocked (dw_env w)" and "valid_status q" and "dp.held t s"
    and "same_tasks s s1"
  shows "data_keeps s (put_task w t q s1)" and "placed t (put_task w t q s1)"
proof -
  have i: "data_inv s1" "dp.held t s1" using same_inv [OF assms(1,5)] same_held [OF assms(5)] assms(4) by auto
  note k = put_keeps [OF i(1) assms(2,3) dp.held_loose [OF i(2)] held_free [OF i] refl own_put]
  show "data_keeps s (put_task w t q s1)" using data_keeps_trans [OF same_keeps [OF assms(1,5)] k(1)] .
  show "placed t (put_task w t q s1)" by (rule k(2))
qed

text \<open>A connection's own task goes elsewhere and the connection forgets it.\<close>

lemma owner_unique:
  assumes "data_inv s" and "t \<in> set (vfstask s p)" and "t \<in> set (vfstask s q)"
  shows "p = q"
  using assms lf_wf_unique [of "vfstask s" t p q] by (simp add: data_inv_def dp.inv_def queues_ok_def)

lemma own_loose:
  assumes "data_inv s" and "t \<in> set (vfstask s TASK_RECV) \<or> t \<in> set (vfstask s TASK_SEND)"
  shows "dp.loose t s"
proof -
  have "t \<notin> set (blocks (dmem s))" using assms by (auto simp: data_inv_def dp.inv_def lf_off_def)
  moreover have "t \<notin> set (vfstask s q)" if "q \<noteq> TASK_RECV" "q \<noteq> TASK_SEND" for q
    using owner_unique [OF assms(1), of t _ q] assms(2) that by auto
  ultimately show ?thesis by (simp add: dp.loose_def)
qed

lemma recv_not_send: "TASK_RECV \<noteq> TASK_SEND" "TASK_SEND \<noteq> TASK_RECV"
  by (simp_all add: queue_defs)

lemma leave_keeps:
  assumes inv: "data_inv s" and u: "unlocked (dw_env w)" "valid_status q"
    and t: "fst (own s fd) = Some t \<and> o' = (None, snd (own s fd)) \<or> snd (own s fd) = Some t \<and> o' = (fst (own s fd), None)"
    and v: "dp.view s' = dp.view (put_task w t q s)" and o': "own s' = (own s)(fd := o')"
  shows "data_keeps s s'" and "placed t s'"
proof -
  have ow: "owners_ok (vfstask s) (own s)" using inv by (simp add: data_inv_def)
  let ?s = "set_dpeer fd ((dpeers s fd)\<lparr>dp_recvtask := fst o', dp_sendtask := snd o'\<rparr>) s"
  have own: "own ?s = (own s)(fd := o')" by simp
  have vs: "dp.view ?s = dp.view s" by simp
  have "owners_ok (vfstask s) (own ?s)" using ow t unfolding own owners_ok_def by auto
  then have i: "data_inv ?s" using inv dp.inv_same [OF _ vs] view_queues [OF vs] by (simp add: data_inv_def)
  have on: "t \<in> set (vfstask s TASK_RECV) \<or> t \<in> set (vfstask s TASK_SEND)"
    using ow t by (auto simp: owners_ok_def)
  then have l: "dp.loose t ?s" using own_loose [OF i] view_queues [OF vs] by simp
  have free: "fst (own ?s fd') \<noteq> Some t" "snd (own ?s fd') \<noteq> Some t" for fd'
  proof -
    have r: "t \<in> set (vfstask s TASK_RECV)" if "fst (own s f) = Some t" for f using that ow by (auto simp: owners_ok_def)
    have d: "t \<in> set (vfstask s TASK_SEND)" if "snd (own s f) = Some t" for f using that ow by (auto simp: owners_ok_def)
    have no: "\<not> (t \<in> set (vfstask s TASK_RECV) \<and> t \<in> set (vfstask s TASK_SEND))"
      using owner_unique [OF inv] recv_not_send by blast
    have e: "fd' = fd" if "fst (own s fd) = Some t" "fst (own s fd') = Some t"
      using that ow unfolding owners_ok_def by blast
    have e': "fd' = fd" if "snd (own s fd) = Some t" "snd (own s fd') = Some t"
      using that ow unfolding owners_ok_def by blast
    show "fst (own ?s fd') \<noteq> Some t" "snd (own ?s fd') \<noteq> Some t"
      unfolding own using t r d no e e' by (auto split: if_splits)
  qed
  have vq: "dp.view (put_task w t q ?s) = dp.view (put_task w t q s)"
    using u by (simp add: put_task_def vfs_set_task_def unlocked_def dp.view_def set_dpeer_def set_status_def fun_eq_iff)
  note k = put_keeps [OF i u l free, of s']
  have "dp.view s' = dp.view (put_task w t q ?s)" "own s' = own ?s" using v vq o' own by simp_all
  note k = k [OF this]
  have "placed x s \<Longrightarrow> placed x ?s" for x using dp.placed_view [OF vs] by simp
  then show "data_keeps s s'" using k(1) by (simp add: data_keeps_def)
  show "placed t s'" by (rule k(2))
qed

text \<open>A held task is put on \<open>TASK_RECV\<close> or \<open>TASK_SEND\<close> for a connection.\<close>

lemma enter_keeps:
  assumes inv: "data_inv s" and u: "unlocked (dw_env w)" and t: "dp.held t s"
    and q: "q = TASK_RECV \<and> o' = (Some t, snd (own s fd)) \<or> q = TASK_SEND \<and> o' = (fst (own s fd), Some t)"
    and v: "dp.view s' = dp.view (put_task w t q s)" and o': "own s' = (own s)(fd := o')"
  shows "data_keeps s s'" and "placed t s'"
proof -
  have vq: "valid_status q" using q by auto
  note k = put_keeps [OF inv u vq dp.held_loose [OF t] held_free [OF inv t] refl own_put]
  have "owners_ok (vfstask (put_task w t q s)) (own s)" using k(1) by (simp add: data_keeps_def data_inv_def)
  moreover have "t \<in> set (vfstask (put_task w t q s) q)" using queues_put_task [OF u vq] by simp
  ultimately have "owners_ok (vfstask s') (own s')"
    unfolding view_queues [OF v] o' using q held_free [OF inv t] by (auto simp: owners_ok_def)
  moreover have "dp.inv s'" using k(1) dp.inv_same v by (auto simp: data_keeps_def data_inv_def)
  ultimately show "data_keeps s s'" using k(1) dp.placed_view [OF v] by (simp add: data_keeps_def data_inv_def)
  show "placed t s'" using k(2) dp.placed_view [OF v] by simp
qed

section \<open>Taking a task\<close>

lemma get_some: "vfs_get_task e q s = (r, Some t, s') \<Longrightarrow> r = GET_TASK_OK"
  by (auto simp: vfs_get_task_def split: list.splits option.splits if_splits)

lemma get_frame:
  assumes "vfs_get_task e q (s :: data_state) = (r, ot, s')"
  shows "dpeers s' = dpeers s" and "p \<noteq> q \<Longrightarrow> queues_ok s \<Longrightarrow> vfstask s' p = vfstask s p"
proof -
  show "dpeers s' = dpeers s"
    using assms by (auto simp: vfs_get_task_def set_status_def split: list.splits option.splits if_splits)
  show "p \<noteq> q \<Longrightarrow> queues_ok s \<Longrightarrow> vfstask s' p = vfstask s p"
    using assms lf_wf_unique [of "vfstask s" _ p q]
    by (auto simp: vfs_get_task_def queues_ok_def removeAll_notin split: list.splits option.splits if_splits)
      (metis list.set_intros(1) removeAll_notin)
qed

lemma owners_frame:
  "owners_ok F o' \<Longrightarrow> F' TASK_RECV = F TASK_RECV \<Longrightarrow> F' TASK_SEND = F TASK_SEND \<Longrightarrow> owners_ok F' o'"
  by (simp add: owners_ok_def)

lemma get_keeps:
  assumes inv: "data_inv s" and g: "vfs_get_task e q s = (r, ot, s')"
    and q: "q \<noteq> TASK_HOME" "q \<noteq> TASK_RECV" "q \<noteq> TASK_SEND"
  shows "data_inv s'" and "ot = Some t \<Longrightarrow> dp.held t s'" and "placed u s \<Longrightarrow> placed u s' \<or> ot = Some u"
proof -
  have i: "dp.inv s" and ok: "queues_ok s" using inv by (simp_all add: data_inv_def dp.inv_def)
  have q0: "q \<noteq> TASK_HOME \<or> vfstask s q \<noteq> []" using q by simp
  note d = dp.get_inv [OF i g q0]
  have "owners_ok (vfstask s) (own s)" using inv by (simp add: data_inv_def)
  moreover have "own s' = own s" using own_more get_frame(1) [OF g] .
  ultimately have "owners_ok (vfstask s') (own s')"
    using get_frame(2) [OF g _ ok] q recv_not_send by (metis owners_frame)
  then show "data_inv s'" using d(1) by (simp add: data_inv_def)
  show "ot = Some t \<Longrightarrow> dp.held t s'" by (rule d(2))
  show "placed u s \<Longrightarrow> placed u s' \<or> ot = Some u" by (rule d(5))
qed

lemma get_home_keeps:
  assumes inv: "data_inv s" and g: "dt_get_home w s = (r, ot, s')"
  shows "data_inv s'" and "ot = Some t \<Longrightarrow> dp.held t s'" and "placed u s \<Longrightarrow> placed u s' \<or> ot = Some u"
    and "own s' = own s" and "dpeers s' = dpeers s"
proof -
  let ?s = "if vfstask s TASK_HOME = [] then s\<lparr>dmem := tl (dmem s)\<rparr> else s"
  have i: "dp.inv s" and ok: "queues_ok ?s" using inv by (simp_all add: data_inv_def dp.inv_def queues_ok_def)
  have g': "vfs_get_task ((dw_env w)\<lparr>e_malloc := (case dmem s of [] \<Rightarrow> None | m # _ \<Rightarrow> m)\<rparr>) TASK_HOME ?s = (r, ot, s')"
    using g by (simp add: dt_get_home_def Let_def)
  note d = dp.get_home_inv [OF i _ g', simplified]
  have p: "dpeers s' = dpeers s" using get_frame(1) [OF g'] by simp
  have o: "owners_ok (vfstask s) (own s)" using inv by (simp add: data_inv_def)
  have "vfstask s' TASK_RECV = vfstask s TASK_RECV" "vfstask s' TASK_SEND = vfstask s TASK_SEND"
    using get_frame(2) [OF g' _ ok] by (simp_all add: queue_defs)
  then have "owners_ok (vfstask s') (own s)" by (rule owners_frame [OF o])
  then show "data_inv s'" using d(1) own_more [OF p] by (simp add: data_inv_def)
  show "ot = Some t \<Longrightarrow> dp.held t s'" by (rule d(2))
  show "placed u s \<Longrightarrow> placed u s' \<or> ot = Some u" by (rule d(4))
  show "own s' = own s" "dpeers s' = dpeers s" using p own_more [OF p] by simp_all
qed

section \<open>The operations\<close>

lemma put_view:
  "dp.view s' = dp.view s \<Longrightarrow> dp.view (put_task w t q s') = dp.view (put_task w t q s)"
  by (simp add: dp.view_def put_task_def vfs_set_task_def set_status_def fun_eq_iff)

lemma view_end: "dp.view (end_task w t ov s) = dp.view (put_task w t TASK_FIN s)"
  unfolding end_task_def by (rule put_view) simp

lemma own_end [simp]: "own (end_task w t ov s) = own s"
  by (simp add: end_task_def)

lemma end_held_keeps:
  assumes "data_inv s" and "unlocked (dw_env w)" and "dp.held t s" and "same_tasks s s1"
  shows "data_keeps s (end_task w t ov s1) \<and> placed t (end_task w t ov s1)"
proof -
  have "same_tasks s (set_base t ((tbase s1 t)\<lparr>tb_overstatus := ov\<rparr>) s1)"
    using assms(4) by (simp add: same_tasks_def)
  from put_held_keeps [OF assms(1,2) _ assms(3) this, of TASK_FIN] show ?thesis by (simp add: end_task_def)
qed

lemma put_off_keeps:
  assumes "data_inv s" and "unlocked (dw_env w)" and "dp.held t s" and "same_tasks s s1"
  shows "data_keeps s (put_off w t s1) \<and> placed t (put_off w t s1)"
  using put_held_keeps [OF assms(1,2) _ assms(3,4)] by (simp add: put_off_def)

text \<open>The end of a reception or of a sending.\<close>

lemma leave_recv:
  assumes "data_inv s" and "unlocked (dw_env w)" and "valid_status q" and "dp_recvtask (dpeers s fd) = Some t"
    and "same_tasks s s1" and "dp.view s' = dp.view (put_task w t q s1)"
    and "own s' = (own s)(fd := (None, dp_sendtask (dpeers s fd)))"
  shows "data_keeps s s'"
proof -
  have "dp.view s1 = dp.view s" using assms(5) by (simp add: same_tasks_def)
  then have "dp.view s' = dp.view (put_task w t q s)" using put_view assms(6) by metis
  from leave_keeps(1) [OF assms(1-3) _ this assms(7)] show ?thesis using assms(4) by (simp add: own_def)
qed

lemma leave_send:
  assumes "data_inv s" and "unlocked (dw_env w)" and "valid_status q" and "dp_sendtask (dpeers s fd) = Some t"
    and "same_tasks s s1" and "dp.view s' = dp.view (put_task w t q s1)"
    and "own s' = (own s)(fd := (dp_recvtask (dpeers s fd), None))"
  shows "data_keeps s s'"
proof -
  have "dp.view s1 = dp.view s" using assms(5) by (simp add: same_tasks_def)
  then have "dp.view s' = dp.view (put_task w t q s)" using put_view assms(6) by metis
  from leave_keeps(1) [OF assms(1-3) _ this assms(7)] show ?thesis using assms(4) by (simp add: own_def)
qed

lemma touch_same [simp]: "same_tasks s (dt_touch w fd s)"
  by (simp add: same_tasks_def dt_touch_def)

lemma stat_same: "same_tasks s (set_dpeer fd ((dpeers s fd)\<lparr>dp_sock_stat := st\<rparr>) s)"
  by (simp add: same_tasks_def)

lemma active_send_same [simp]: "same_tasks s (dt_active_send w fd c st b n s)"
  by (simp add: same_tasks_def dt_active_send_def)

lemma proxy_same: "same_tasks s (snd (establish_proxy_connection w fd host port user pass s))"
  by (simp add: same_tasks_def establish_proxy_connection_def Let_def split: option.split)

lemma open_recv_same: "same_tasks s (snd (open_for_recv w fd t s))"
  by (simp add: same_tasks_def open_for_recv_def Let_def split: option.split prod.split)

lemma fd_write_same: "same_tasks s (snd (fd_write w d data s))"
  by (simp add: same_tasks_def fd_write_def Let_def split: option.split)

text \<open>A new connection has no task; if the descriptor had, they are forgotten.\<close>

lemma forget_keeps:
  assumes "data_inv s" and "dp.view s' = dp.view s" and "own s' = (own s)(fd := (None, None))"
  shows "data_keeps s s'"
proof -
  have "owners_ok (vfstask s) (own s)" using assms(1) by (simp add: data_inv_def)
  then have "owners_ok (vfstask s) (own s')" unfolding assms(3) owners_ok_def by simp
  moreover have "dp.inv s'" using assms(1,2) dp.inv_same by (auto simp: data_inv_def)
  ultimately show ?thesis
    using view_queues [OF assms(2)] dp.placed_view [OF assms(2)] by (simp add: data_keeps_def data_inv_def)
qed

lemma initconn_keeps:
  assumes "data_inv s"
  shows "data_keeps s (snd (dt_svc_initconn w fd s)) \<and> dp.view (snd (dt_svc_initconn w fd s)) = dp.view s"
proof -
  let ?s = "snd (dt_svc_initconn w fd s)"
  have "same_tasks s ?s \<or> dp.view ?s = dp.view s \<and> own ?s = (own s)(fd := (None, None))"
    by (simp add: dt_svc_initconn_def Let_def same_tasks_def zero_data_peer_def)
  moreover have "dp.view ?s = dp.view s" by (simp add: dt_svc_initconn_def Let_def)
  ultimately show ?thesis using forget_keeps [OF assms, of ?s fd] same_keeps [OF assms, of ?s] by blast
qed

lemma active_connect_keeps:
  assumes "data_inv s"
  shows "data_keeps s (dt_active_connect w i s) \<and> dp.view (dt_active_connect w i s) = dp.view s"
proof -
  let ?s = "dt_active_connect w i s"
  define fd where "fd = nat (dw_connect w (case dproxy s of None \<Rightarrow> ii_s_ip i | Some p \<Rightarrow> px_host p)
     (case dproxy s of None \<Rightarrow> dw_data_port w | Some p \<Rightarrow> px_port p) (duser s))"
  define s1 where "s1 = (case dproxy s of None \<Rightarrow> s | Some p \<Rightarrow>
     snd (establish_proxy_connection w fd (ii_s_ip i) (dw_data_port w) (px_username p) (px_password p) s))"
  have s1: "same_tasks s s1" by (simp add: s1_def proxy_same split: option.split)
  have cases: "?s = s \<or> ?s = s1\<lparr>dclosed := dclosed s1 @ [fd]\<rparr> \<or> ?s = s1\<lparr>dclosed := dclosed s1 @ [fd]\<rparr>
     \<or> (\<exists>p. ?s = set_dpeer fd (p\<lparr>dp_sock_stat := D_IDLE, dp_active := True\<rparr>) (snd (dt_svc_initconn w fd s1)) \<and>
          p = dpeers (snd (dt_svc_initconn w fd s1)) fd \<and> fst (dt_svc_initconn w fd s1) = 0)"
  proof (cases "dproxy s")
    case None
    obtain r2 s2 where i2: "dt_svc_initconn w fd s1 = (r2, s2)" by (cases "dt_svc_initconn w fd s1")
    have "r2 \<noteq> 0 \<Longrightarrow> s2 = s1" using i2 by (auto simp: dt_svc_initconn_def Let_def split: if_splits)
    then show ?thesis using i2 by (simp add: dt_active_connect_def None s1_def fd_def Let_def)
  next
    case (Some p)
    obtain r2 s2 where i2: "dt_svc_initconn w fd s1 = (r2, s2)" by (cases "dt_svc_initconn w fd s1")
    have "r2 \<noteq> 0 \<Longrightarrow> s2 = s1" using i2 by (auto simp: dt_svc_initconn_def Let_def split: if_splits)
    moreover obtain r1 where i1: "establish_proxy_connection w fd (ii_s_ip i) (dw_data_port w) (px_username p) (px_password p) s = (r1, s1)"
      by (cases "establish_proxy_connection w fd (ii_s_ip i) (dw_data_port w) (px_username p) (px_password p) s")
        (simp add: s1_def Some)
    ultimately show ?thesis using i2
      by (simp add: dt_active_connect_def Some Let_def fd_def [symmetric, unfolded Some option.case] i1)
  qed
  have new: "own (snd (dt_svc_initconn w fd s1)) = (own s1)(fd := (None, None))"
    "dp.view (snd (dt_svc_initconn w fd s1)) = dp.view s1" if "fst (dt_svc_initconn w fd s1) = 0"
    using that by (auto simp: dt_svc_initconn_def Let_def zero_data_peer_def RET_CLOSE_MALLOC_def split: if_splits)
  have "dp.view ?s = dp.view s \<and> (own ?s = own s \<or> (\<exists>fd. own ?s = (own s)(fd := (None, None))))"
    using cases
  proof (elim disjE exE conjE)
    fix p assume p: "?s = set_dpeer fd (p\<lparr>dp_sock_stat := D_IDLE, dp_active := True\<rparr>) (snd (dt_svc_initconn w fd s1))"
      "p = dpeers (snd (dt_svc_initconn w fd s1)) fd" "fst (dt_svc_initconn w fd s1) = 0"
    have "(dp_recvtask p, dp_sendtask p) = own (snd (dt_svc_initconn w fd s1)) fd" by (simp add: p(2) own_def)
    then have "own ?s = (own s1)(fd := (None, None))" using new [OF p(3)] by (simp add: p(1))
    then show ?thesis using s1 new(2) [OF p(3)] by (auto simp: p(1) same_tasks_def)
  qed (use s1 in \<open>simp_all add: same_tasks_def\<close>)
  then show ?thesis using forget_keeps [OF assms, of ?s] same_keeps [OF assms, of ?s] by (auto simp: same_tasks_def)
qed


lemma give_back_recv_form:
  assumes "dp_recvtask (dpeers s fd) = Some t"
  shows "\<exists>s3. same_tasks s s3 \<and> give_back_recv w fd s = put_task w t TASK_WAIT s3"
proof (cases "dw_continue w")
  case True
  let ?s3 = "set_base t ((tbase s t)
      \<lparr>tb_offsize := tb_offsize (tbase s t) + ts_lastlen (tsub s t), tb_retry := tb_retry (tbase s t) + 1\<rparr>) s"
  have "give_back_recv w fd s = put_task w t TASK_WAIT ?s3"
    using True assms by (simp add: give_back_recv_def Let_def)
  moreover have "same_tasks s ?s3" by (simp add: same_tasks_def)
  ultimately show ?thesis by blast
next
  case False
  let ?s3 = "set_base t ((tbase s t)\<lparr>tb_retry := tb_retry (tbase s t) + 1\<rparr>)
      (s\<lparr>dlocal := real_rm_file (data_local w s) (tb_tmpfile (tbase s t)) (dlocal s)\<rparr>)"
  have "give_back_recv w fd s = put_task w t TASK_WAIT ?s3"
    using False assms by (simp add: give_back_recv_def Let_def)
  moreover have "same_tasks s ?s3" by (simp add: same_tasks_def)
  ultimately show ?thesis by blast
qed

lemma finiconn_keeps:
  assumes inv: "data_inv s" and u: "unlocked (dw_env w)"
  shows "data_keeps s (dt_svc_finiconn w fd s)"
proof (cases "duser s fd")
  case False
  then show ?thesis using same_keeps [OF inv same_tasks_refl] by (simp add: dt_svc_finiconn_def)
next
  case True
  let ?d = "dp_in_fd (dpeers s fd)"
  let ?s0 = "if ?d > 0 then close_local ?d s else s"
  let ?s1 = "?s0\<lparr>dactive := removeAll fd (dactive ?s0), donline := lf_del fd (donline ?s0)\<rparr>"
  let ?s2 = "give_back_send w fd ?s1" and ?f = "dt_svc_finiconn w fd s"
  have s1: "same_tasks s ?s1" "dpeers ?s1 = dpeers s" by (simp_all add: same_tasks_def)
  have f: "?f = set_dpeer fd zero_data_peer ((give_back_recv w fd ?s2)\<lparr>duser := (duser (give_back_recv w fd ?s2))(fd := False)\<rparr>)"
    using True by (simp add: dt_svc_finiconn_def Let_def)
  have s2p: "dpeers ?s2 = dpeers s"
    by (simp add: give_back_send_def s1(2) split: option.split)
  let ?a = "set_dpeer fd ((dpeers s fd)\<lparr>dp_sendtask := None\<rparr>) ?s2"
  have a: "data_keeps s ?a"
  proof (cases "dp_sendtask (dpeers s fd)")
    case None
    have "same_tasks s ?a" using None s1 by (auto simp: same_tasks_def give_back_send_def own_def fun_eq_iff)
    then show ?thesis by (rule same_keeps [OF inv])
  next
    case (Some t)
    have e: "?s2 = end_task w t OVER_SEND_LEN ?s1" using Some s1(2) by (simp add: give_back_send_def)
    show ?thesis
      by (rule leave_send [OF inv u fin_valid(1) Some s1(1)])
        (use s1(1) in \<open>simp_all add: e view_end same_tasks_def\<close>)
  qed
  have ai: "data_inv ?a" using a by (simp add: data_keeps_def)
  have ap: "dpeers ?a fd = (dpeers s fd)\<lparr>dp_sendtask := None\<rparr>" by simp
  have "data_keeps ?a ?f"
  proof (cases "dp_recvtask (dpeers s fd)")
    case None
    have "dp.view ?f = dp.view ?a" "own ?f = own ?a"
      using None s2p by (simp_all add: f give_back_recv_def zero_data_peer_def own_def fun_eq_iff)
    then show ?thesis using same_keeps [OF ai] by (simp add: same_tasks_def)
  next
    case (Some t)
    obtain s3 where s3: "dp.view s3 = dp.view ?s2" "own s3 = own ?s2" "give_back_recv w fd ?s2 = put_task w t TASK_WAIT s3"
      using give_back_recv_form [of ?s2 fd t w] Some s2p by (auto simp: same_tasks_def)
    have r: "dp_recvtask (dpeers ?a fd) = Some t" using Some by simp
    show ?thesis
      by (rule leave_recv [OF ai u fin_valid(2) r same_tasks_refl])
        (use s3 put_view [of s3 ?a w t TASK_WAIT] in \<open>simp_all add: f zero_data_peer_def\<close>)
  qed
  then show ?thesis using data_keeps_trans [OF a] by blast
qed


lemma recv_task_keeps:
  assumes inv: "data_inv s" and u: "unlocked (dw_env w)"
  shows "data_keeps s (snd (do_recv_task w fd h base s))"
proof (cases "dp_sock_stat (dpeers s fd) \<noteq> PREPARE_RECVFILE \<or> dp_recvtask (dpeers s fd) = None")
  case True
  then show ?thesis using same_keeps [OF inv same_tasks_refl] by (auto simp: do_recv_task_def Let_def)
next
  case False
  then obtain t where t: "dp_recvtask (dpeers s fd) = Some t" and st: "dp_sock_stat (dpeers s fd) = PREPARE_RECVFILE"
    by auto
  show ?thesis
  proof (cases "h_status h = FILE_SYNC_DST_2_SRC")
    case bad: False
    let ?s1 = "set_dpeer fd ((dpeers s fd)\<lparr>dp_sock_stat := D_IDLE\<rparr>) s"
    have s1: "same_tasks s ?s1" by (simp add: same_tasks_def)
    show ?thesis
      by (rule leave_recv [OF inv u fin_valid(1) t s1])
        (use bad st t in \<open>simp_all add: do_recv_task_def Let_def view_end\<close>)
  next
    case good: True
    define base0 where "base0 = (let base0 = if tb_filemd5 (tbase s t) \<noteq> tb_filemd5 base then base else tbase s t
       in if \<not> dw_continue w then base0\<lparr>tb_offsize := 0\<rparr> else base0)"
    let ?s1 = "set_base t base0 s"
    let ?s2 = "set_sub t ((tsub ?s1 t)\<lparr>ts_processlen := tb_fsize base - tb_offsize base0\<rparr>) ?s1"
    obtain r s3 where o: "open_for_recv w fd t ?s2 = (r, s3)" by (cases "open_for_recv w fd t ?s2")
    have s3: "same_tasks s s3" using open_recv_same [of ?s2 w fd t] o by (simp add: same_tasks_def)
    then have own: "(dp_recvtask (dpeers s3 fd), dp_sendtask (dpeers s3 fd)) = (Some t, dp_sendtask (dpeers s fd))"
      using t by (simp add: same_tasks_def own_def fun_eq_iff)
    have run: "snd (do_recv_task w fd h base s) =
      (if r \<noteq> LOCALFILE_OK then let s = end_task w t OVER_E_OPEN_DSTFILE s3 in set_dpeer fd ((dpeers s fd)\<lparr>dp_recvtask := None\<rparr>) s
       else let s = set_dpeer fd ((dpeers s3 fd)\<lparr>dp_sock_stat := RECVFILEING\<rparr>) s3
            in set_sub t ((tsub s t)\<lparr>ts_starttime := e_now (dw_env w)\<rparr>) s)"
      using t st good o by (simp add: do_recv_task_def Let_def base0_def)
    show ?thesis
    proof (cases "r = LOCALFILE_OK")
      case False
      show ?thesis
        by (rule leave_recv [OF inv u fin_valid(1) t s3])
          (use False own s3 in \<open>simp_all add: run Let_def view_end same_tasks_def\<close>)
    next
      case True
      have "same_tasks s3 (snd (do_recv_task w fd h base s))"
        using True by (simp add: run Let_def same_tasks_def)
      then show ?thesis using same_keeps [OF inv same_tasks_trans [OF s3]] by blast
    qed
  qed
qed

lemma start_send_keeps:
  assumes inv: "data_inv s" and u: "unlocked (dw_env w)"
  shows "data_keeps s (snd (snd (start_send w fd base s)))"
proof -
  obtain r ot s1 where g: "dt_get_home w s = (r, ot, s1)" by (cases "dt_get_home w s")
  note k = get_home_keeps [OF inv g]
  show ?thesis
  proof (cases ot)
    case None
    then show ?thesis using g k(1,3) by (auto simp: start_send_def data_keeps_def)
  next
    case (Some t)
    have r: "r = GET_TASK_OK" using g Some get_some by (auto simp: dt_get_home_def Let_def)
    have t: "dp.held t s1" using k(2) Some by blast
    define base1 where "base1 = (if \<not> dw_continue w then base\<lparr>tb_offsize := 0\<rparr> else base)"
    let ?sub = "rsp_sub w (dp_ip (dpeers s1 fd)) base1"
    let ?s2 = "set_task t ((tl_task (tasks s1 t))\<lparr>ti_base := base1, ti_sub := ?sub\<rparr>) s1"
    have s2: "same_tasks s1 ?s2" by (simp add: same_tasks_def)
    have goal: "data_keeps s s'" if "data_keeps s1 s'" and "placed t s'" for s'
      using that k(3) Some by (auto simp: data_keeps_def)
    obtain ret oi where o: "open_localfile_4_read (data_local w ?s2) base1 (lo_fs (dlocal ?s2)) = (ret, oi)"
      by (cases "open_localfile_4_read (data_local w ?s2) base1 (lo_fs (dlocal ?s2))")
    show ?thesis
    proof (cases oi)
      case None
      have run: "snd (snd (start_send w fd base s)) = end_task w t OVER_E_OPEN_SRCFILE (set_sub t (?sub\<lparr>ts_oper_type := OPER_GET_REQ\<rparr>) ?s2)"
        using g Some r o None by (simp add: start_send_def Let_def base1_def)
      have "same_tasks s1 (set_sub t (?sub\<lparr>ts_oper_type := OPER_GET_REQ\<rparr>) ?s2)" by (simp add: same_tasks_def)
      from end_held_keeps [OF k(1) u t this] show ?thesis unfolding run using goal by blast
    next
      case (Some i)
      let ?p = "put_task w t TASK_SEND (set_base t (base1\<lparr>tb_overstatus := OVER_UNKNOWN\<rparr>) ?s2)"
      let ?f = "snd (snd (start_send w fd base s))"
      have "dp.view ?f = dp.view ?p" "own ?f = (own s1)(fd := (fst (own s1 fd), Some t))"
        using g \<open>ot = Some t\<close> r o Some by (simp_all add: start_send_def Let_def base1_def own_def fun_eq_iff)
      moreover have "dp.view ?p = dp.view (put_task w t TASK_SEND s1)" by (rule put_view) simp
      ultimately show ?thesis
        using goal enter_keeps [OF k(1) u t, of TASK_SEND "(fst (own s1 fd), Some t)" fd ?f] by simp
    qed
  qed
qed

lemma send_task_keeps:
  assumes inv: "data_inv s" and u: "unlocked (dw_env w)"
  shows "data_keeps s (do_send_task w fd base s)"
proof -
  let ?s = "set_dpeer fd ((dpeers s fd)\<lparr>dp_hbtime := e_now (dw_env w)\<rparr>) (s\<lparr>dsend_len := (dsend_len s)(fd := 0)\<rparr>)"
  have s: "same_tasks s ?s" by (simp add: same_tasks_def)
  have i: "data_inv ?s" by (rule same_inv [OF inv s])
  have fin: "data_keeps s (set_dpeer fd ((dpeers (d_send fd m s2) fd)\<lparr>dp_headlen := n\<rparr>) (d_send fd m s2))"
    if "data_keeps ?s s2" for m n s2
  proof -
    have "same_tasks s2 (set_dpeer fd ((dpeers (d_send fd m s2) fd)\<lparr>dp_headlen := n\<rparr>) (d_send fd m s2))"
      by (simp add: same_tasks_def)
    moreover have "data_keeps s s2" using data_keeps_trans [OF same_keeps [OF inv s]] that by blast
    ultimately show ?thesis using data_keeps_trans same_keeps by blast
  qed
  obtain ret base1 where r: "(if tb_fsize base = 0 \<or> dw_calcu_md5 w \<or> tb_retry base \<noteq> 0
      then get_localfile_stat (data_local w ?s) base (lo_fs (dlocal ?s)) else (LOCALFILE_OK, base)) = (ret, base1)"
    by fastforce
  obtain st base2 s2 where t: "(if ret \<noteq> LOCALFILE_OK then (FILE_SYNC_DST_2_SRC_E_OPENFILE, base1, ?s)
      else start_send w fd base1 ?s) = (st, base2, s2)"
    by (cases "start_send w fd base1 ?s") fastforce
  have "data_keeps ?s s2"
    using t start_send_keeps [OF i u, of fd base1] same_keeps [OF i same_tasks_refl]
    by (cases "ret = LOCALFILE_OK") auto
  from fin [OF this] show ?thesis
    unfolding do_send_task_def Let_def r prod.case t .
qed

lemma do_req_keeps:
  assumes "data_inv s" and "unlocked (dw_env w)"
  shows "data_keeps s (snd (dt_do_req w fd h b s))"
  using recv_task_keeps [OF assms] send_task_keeps [OF assms] same_keeps [OF assms(1) same_tasks_refl]
  by (simp add: dt_do_req_def)

lemma finish_recv_keeps:
  assumes inv: "data_inv s" and u: "unlocked (dw_env w)" and t: "dp_recvtask (dpeers s fd) = Some t"
  shows "data_keeps s (snd (finish_recv w fd t s))"
proof -
  define d where "d = dp_in_fd (dpeers s fd)"
  let ?s1 = "set_sub t ((tsub s t)\<lparr>ts_endtime := e_now (dw_env w)\<rparr>) s"
  obtain ret base lo where c: "close_tmp_check_mv (data_local w ?s1) (tbase ?s1 t) d (dlocal ?s1) = (ret, base, lo)"
    by (cases "close_tmp_check_mv (data_local w ?s1) (tbase ?s1 t) d (dlocal ?s1)")
  let ?s2 = "set_base t base (?s1\<lparr>dlocal := lo\<rparr>)"
  define s3 where "s3 = (if d < 0 then ?s2 else close_local d ?s2)"
  have s3: "same_tasks s s3" "dpeers s3 = dpeers s" by (simp_all add: s3_def same_tasks_def)
  have run: "snd (finish_recv w fd t s) =
    (if ret \<noteq> LOCALFILE_OK then end_task w t OVER_E_MD5 (set_dpeer fd ((dpeers s3 fd)\<lparr>dp_recvtask := None\<rparr>) s3)
     else let s = end_task w t OVER_OK s3
          in set_dpeer fd ((dpeers s fd)\<lparr>dp_in_fd := -1, dp_recvtask := None, dp_sock_stat := D_IDLE\<rparr>) s)"
    using c by (simp add: finish_recv_def Let_def d_def s3_def)
  have e: "dp.view (put_task w t TASK_FIN (set_dpeer fd p s3)) = dp.view (put_task w t TASK_FIN s3)" for p
    by (rule put_view) simp
  have o3: "own s3 = own s" using s3(1) by (simp add: same_tasks_def)
  show ?thesis
  proof (rule leave_recv [OF inv u fin_valid(1) t s3(1)])
    show "dp.view (snd (finish_recv w fd t s)) = dp.view (put_task w t TASK_FIN s3)"
      unfolding run by (simp add: e Let_def view_end)
    show "own (snd (finish_recv w fd t s)) = (own s)(fd := (None, dp_sendtask (dpeers s fd)))"
      unfolding run by (simp add: Let_def o3 s3(2))
  qed
qed

lemma recv_file_keeps:
  assumes inv: "data_inv s" and u: "unlocked (dw_env w)"
  shows "data_keeps s (snd (snd (recv_file w fd m s)))"
proof (cases "dp_recvtask (dpeers s fd)")
  case None
  then show ?thesis using same_keeps [OF inv same_tasks_refl] by (simp add: recv_file_def)
next
  case (Some t)
  show ?thesis
  proof (cases "mybuff_getdata m")
    case None
    then show ?thesis using Some same_keeps [OF inv same_tasks_refl] by (simp add: recv_file_def)
  next
    case data: (Some data)
    define x where "x = fd_write w (dp_in_fd (dpeers s fd))
       (take (nat ((ts_processlen (tsub s t) - ts_lastlen (tsub s t)) mod 2 ^ 64)) data) s"
    let ?n = "fst x" and ?s1 = "snd x"
    let ?got = "ts_lastlen (tsub ?s1 t) + (case ?n of None \<Rightarrow> -1 | Some k \<Rightarrow> int k)"
    let ?s2 = "set_sub t ((tsub ?s1 t)\<lparr>ts_lastlen := ?got\<rparr>) ?s1"
    have s2: "same_tasks s ?s2" using fd_write_same by (simp add: x_def same_tasks_def)
    have i2: "data_inv ?s2" by (rule same_inv [OF inv s2])
    have "own ?s2 = own s" using s2 by (simp only: same_tasks_def)
    then have "own ?s2 fd = own s fd" by (rule fun_cong)
    then have t2: "dp_recvtask (dpeers ?s2 fd) = Some t" using Some by (simp only: own_def prod.inject)
    have run: "snd (snd (recv_file w fd m s)) =
      (if ?got \<ge> ts_processlen (tsub ?s2 t) then snd (finish_recv w fd t ?s2) else ?s2)"
    proof -
      have w: "fd_write w (dp_in_fd (dpeers s fd))
         (take (nat ((ts_processlen (tsub s t) - ts_lastlen (tsub s t)) mod 2 ^ 64)) data) s = (?n, ?s1)"
        unfolding x_def by (rule prod.collapse [symmetric])
      have c: "snd (snd (if b then case p of (r, s) \<Rightarrow> (r, m', s) else (k, m', z))) = (if b then snd p else z)"
        for b p m' z and k :: int by (simp split: prod.split)
      show ?thesis
        unfolding recv_file_def Some data option.case Let_def w prod.case by (rule c)
    qed
    show ?thesis
      unfolding run
      using data_keeps_trans [OF same_keeps [OF inv s2] finish_recv_keeps [OF i2 u t2]] same_keeps [OF inv s2] by simp
  qed
qed

lemma check_req_cases:
  "snd (snd (check_req f m s)) = s \<or> (\<exists>h b. snd (snd (check_req f m s)) = snd (f h b s))"
  by (auto simp: check_req_def Let_def split: option.split prod.split) (metis snd_conv)+

lemma touch_keeps: "data_inv s \<Longrightarrow> data_keeps s (dt_touch w fd s)"
  by (rule same_keeps) simp_all

lemma loop_keeps:
  assumes "data_inv s" and u: "unlocked (dw_env w)" and "dt_loop k w fd m s = Some (r, m', s')"
  shows "data_keeps s s'"
  using assms(1,3)
proof (induction k arbitrary: m s)
  case (Suc k)
  obtain r1 m1 s1 where c: "check_req (dt_do_req w fd) m s = (r1, m1, s1)" by (cases "check_req (dt_do_req w fd) m s")
  have k1: "data_keeps s s1"
    using check_req_cases [of "dt_do_req w fd" m s] do_req_keeps [OF Suc.prems(1) u]
      same_keeps [OF Suc.prems(1) same_tasks_refl] by (auto simp: c)
  then have i1: "data_inv s1" by (simp add: data_keeps_def)
  have t: "data_keeps s1 (dt_touch w fd s1)" by (rule touch_keeps [OF i1])
  then have it: "data_inv (dt_touch w fd s1)" by (simp add: data_keeps_def)
  have rf: "data_keeps s1 (snd (snd (recv_file w fd m1 (dt_touch w fd s1))))"
    by (rule data_keeps_trans [OF t recv_file_keeps [OF it u]])
  have "data_keeps s1 s'"
    using Suc.prems(2) Suc.IH [OF i1] rf same_keeps [OF i1 same_tasks_refl] by (auto simp: c split: if_splits)
  then show ?case using data_keeps_trans [OF k1] by blast
qed simp

lemma svc_recv_keeps:
  assumes "data_inv s" and u: "unlocked (dw_env w)" and "dt_svc_recv w fd m s = Some (r, m', s')"
  shows "data_keeps s s'"
proof -
  have t: "data_keeps s (dt_touch w fd s)" by (rule touch_keeps [OF assms(1)])
  then have i: "data_inv (dt_touch w fd s)" by (simp add: data_keeps_def)
  have "data_keeps (dt_touch w fd s) s'"
    using assms(3) recv_file_keeps [OF i u, of fd m] loop_keeps [OF i u]
    by (auto simp: dt_svc_recv_def Let_def simp del: dt_loop.simps split: if_splits)
  then show ?thesis using data_keeps_trans [OF t] by blast
qed

lemma svc_send_keeps:
  assumes inv: "data_inv s" and u: "unlocked (dw_env w)"
  shows "data_keeps s (snd (dt_svc_send w fd s))"
proof -
  let ?s = "dt_touch w fd s"
  have k: "data_keeps s ?s" by (rule touch_keeps [OF inv])
  then have i: "data_inv ?s" by (simp add: data_keeps_def)
  show ?thesis
  proof (cases "dp_sock_stat (dpeers ?s fd) \<noteq> SENDFILEING \<or> dp_sendtask (dpeers ?s fd) = None")
    case True
    then have "snd (dt_svc_send w fd s) = ?s" by (auto simp: dt_svc_send_def Let_def)
    then show ?thesis using k by simp
  next
    case False
    then obtain t where t: "dp_sendtask (dpeers ?s fd) = Some t" and st: "dp_sock_stat (dpeers ?s fd) = SENDFILEING" by auto
    let ?s1 = "set_dpeer fd ((dpeers ?s fd)\<lparr>dp_sock_stat := D_IDLE\<rparr>) ?s"
    have s1: "same_tasks ?s ?s1" by (simp add: same_tasks_def)
    obtain ov where run: "snd (dt_svc_send w fd s) =
        set_dpeer fd ((dpeers (end_task w t ov ?s1) fd)\<lparr>dp_sendtask := None\<rparr>) (end_task w t ov ?s1)"
      using t st by (simp add: dt_svc_send_def Let_def)
    have "data_keeps ?s (snd (dt_svc_send w fd s))"
    proof (rule leave_send [OF i u fin_valid(1) t s1])
      show "dp.view (snd (dt_svc_send w fd s)) = dp.view (put_task w t TASK_FIN ?s1)"
        by (simp add: run view_end)
      show "own (snd (dt_svc_send w fd s)) = (own ?s)(fd := (dp_recvtask (dpeers ?s fd), None))"
        by (simp add: run)
    qed
    then show ?thesis using data_keeps_trans [OF k] by blast
  qed
qed

section \<open>The waiting tasks\<close>

text \<open>Every way a round over the waiting tasks ends puts the task on a queue.\<close>

lemma start_or_test_keeps:
  assumes inv: "data_inv s" and u: "unlocked (dw_env w)" and t: "dp.held t s"
  shows "data_keeps s (start_or_test w fd t s) \<and> placed t (start_or_test w fd t s)"
proof (cases "dw_test w")
  case True
  then show ?thesis using end_held_keeps [OF inv u t same_tasks_refl] by (simp add: start_or_test_def)
next
  case False
  let ?s1 = "set_sub t ((tsub s t)\<lparr>ts_lastlen := 0\<rparr>) s"
  let ?s2 = "dt_active_send w fd CMD_GET_FILE_REQ FILE_SYNC_DST_2_SRC (bytes_of (dw_abi w) (tbase ?s1 t)) (sizeof_base (dw_abi w)) ?s1"
  define s3 where "s3 = set_dpeer fd ((dpeers ?s2 fd)\<lparr>dp_sock_stat := PREPARE_RECVFILE\<rparr>) ?s2"
  have s2: "same_tasks s ?s2" using same_tasks_trans [OF _ active_send_same] by (simp add: same_tasks_def)
  then have s3: "same_tasks s s3" unfolding s3_def by (rule same_tasks_trans [OF _ stat_same])
  have f: "start_or_test w fd t s = set_dpeer fd ((dpeers (put_task w t TASK_RECV s3) fd)\<lparr>dp_recvtask := Some t\<rparr>) (put_task w t TASK_RECV s3)"
    using False by (simp add: start_or_test_def ask_for_file_def Let_def s3_def)
  have v3: "dp.view s3 = dp.view s" and o3: "own s3 = own s" using s3 by (simp_all only: same_tasks_def)
  have "dp.view (start_or_test w fd t s) = dp.view (put_task w t TASK_RECV s3)" by (simp only: f view_simps)
  also have "\<dots> = dp.view (put_task w t TASK_RECV s)" by (rule put_view [OF v3])
  finally have v: "dp.view (start_or_test w fd t s) = dp.view (put_task w t TASK_RECV s)" .
  have "dp_sendtask (dpeers s3 fd) = snd (own s fd)" using o3 by (metis own_def snd_conv)
  then have o: "own (start_or_test w fd t s) = (own s)(fd := (Some t, snd (own s fd)))"
    unfolding f by (simp add: o3)
  from enter_keeps [OF inv u t _ v o] show ?thesis by simp
qed

lemma step_then:
  assumes "data_keeps s s1" and "data_inv s1 \<Longrightarrow> data_keeps s1 s2 \<and> placed t s2"
  shows "data_keeps s s2 \<and> placed t s2"
  using assms data_keeps_trans by (metis data_keeps_def)

lemma connect_for_keeps:
  assumes inv: "data_inv s" and u: "unlocked (dw_env w)" and t: "dp.held t s"
  shows "data_keeps s (connect_for w t i s) \<and> placed t (connect_for w t i s)"
proof -
  let ?s = "dt_active_connect w i s"
  have k: "data_keeps s ?s" and v: "dp.view ?s = dp.view s" using active_connect_keeps [OF inv] by blast+
  then have i: "data_inv ?s" and h: "dp.held t ?s" using t dp.held_view by (auto simp: data_keeps_def)
  have "data_keeps s (put_off w t ?s) \<and> placed t (put_off w t ?s)"
    by (rule step_then [OF k put_off_keeps [OF i u h same_tasks_refl]])
  moreover have "data_keeps s (start_or_test w fd t ?s) \<and> placed t (start_or_test w fd t ?s)" for fd
    by (rule step_then [OF k start_or_test_keeps [OF i u h]])
  ultimately show ?thesis
    using put_off_keeps [OF inv u t same_tasks_refl] by (simp add: connect_for_def Let_def split: option.split)
qed

lemma wait_one_keeps:
  assumes inv: "data_inv s" and u: "unlocked (dw_env w)" and t: "dp.held t s"
  shows "data_keeps s (wait_one w t s) \<and> placed t (wait_one w t s)"
proof -
  have e: "data_keeps s (end_task w t ov s1) \<and> placed t (end_task w t ov s1)" if "same_tasks s s1" for ov s1
    by (rule end_held_keeps [OF inv u t that])
  have p: "data_keeps s (put_off w t s1) \<and> placed t (put_off w t s1)" if "same_tasks s s1" for s1
    by (rule put_off_keeps [OF inv u t that])
  have st: "data_keeps s (start_or_test w fd t s1) \<and> placed t (start_or_test w fd t s1)" if "same_tasks s s1" for fd s1
    by (rule step_then [OF same_keeps [OF inv that]]) (rule start_or_test_keeps [OF _ u], use t same_held [OF that] in simp_all)
  have co: "data_keeps s (connect_for w t i s1) \<and> placed t (connect_for w t i s1)" if "same_tasks s s1" for i s1
    by (rule step_then [OF same_keeps [OF inv that]]) (rule connect_for_keeps [OF _ u], use t same_held [OF that] in simp_all)
  show ?thesis
    unfolding wait_one_def Let_def
    by (simp split: prod.split option.split) (simp add: e p st co same_tasks_def)
qed

lemma next_waiting_keeps:
  assumes inv: "data_inv s" and n: "next_waiting w s = (r, ot, s')"
  shows "data_inv s'" and "ot = Some t \<Longrightarrow> dp.held t s' \<and> r = GET_TASK_OK"
    and "placed u s \<Longrightarrow> placed u s' \<or> ot = Some u"
proof -
  obtain r1 o1 s1 where g: "vfs_get_task (dw_env w) TASK_WAIT s = (r1, o1, s1)"
    by (cases "vfs_get_task (dw_env w) TASK_WAIT s")
  have q: "TASK_WAIT \<noteq> TASK_HOME" "TASK_WAIT \<noteq> TASK_RECV" "TASK_WAIT \<noteq> TASK_SEND"
    "TASK_Q_SYNC_DIR \<noteq> TASK_HOME" "TASK_Q_SYNC_DIR \<noteq> TASK_RECV" "TASK_Q_SYNC_DIR \<noteq> TASK_SEND"
    by (simp_all add: queue_defs)
  note k = get_keeps [OF inv g q(1-3)]
  have "data_inv s' \<and> (ot = Some t \<longrightarrow> dp.held t s' \<and> r = GET_TASK_OK) \<and> (placed u s \<longrightarrow> placed u s' \<or> ot = Some u)"
  proof (cases "r1 = GET_TASK_OK")
    case True
    then have e: "r = r1" "ot = o1" "s' = s1" using n g by (simp_all add: next_waiting_def)
    show ?thesis unfolding e using True k(1,3) k(2) [of t] by blast
  next
    case False
    then have g2: "vfs_get_task (dw_env w) TASK_Q_SYNC_DIR s1 = (r, ot, s')" using n g by (simp add: next_waiting_def)
    have "o1 = None" using g False get_some by (cases o1) blast+
    then have "placed u s \<longrightarrow> placed u s1" using k(3) by auto
    then show ?thesis using get_keeps [OF k(1) g2 q(4-6)] get_some g2 by blast
  qed
  then show "data_inv s'" and "ot = Some t \<Longrightarrow> dp.held t s' \<and> r = GET_TASK_OK"
    and "placed u s \<Longrightarrow> placed u s' \<or> ot = Some u" by blast+
qed

lemma rounds_keep:
  assumes "data_inv s" and u: "unlocked (dw_env w)"
  shows "data_keeps s (wait_rounds k w s)"
  using assms(1)
proof (induction k arbitrary: s)
  case 0
  then show ?case using same_keeps [OF _ same_tasks_refl] by simp
next
  case (Suc k)
  obtain r ot s1 where n: "next_waiting w s = (r, ot, s1)" by (cases "next_waiting w s")
  note k = next_waiting_keeps [OF Suc.prems n]
  show ?case
  proof (cases ot)
    case None
    then show ?thesis using n k(1,3) by (auto simp: data_keeps_def)
  next
    case (Some t)
    have h: "dp.held t s1" "r = GET_TASK_OK" using k(2) [OF Some] by auto
    have "data_keeps s1 (wait_one w t s1) \<and> placed t (wait_one w t s1)" by (rule wait_one_keeps [OF k(1) u h(1)])
    moreover have "placed x s \<Longrightarrow> placed x s1 \<or> x = t" for x using k(3) [of x] Some by auto
    ultimately have w1: "data_keeps s (wait_one w t s1)" by (auto simp: data_keeps_def)
    have "data_keeps (wait_one w t s1) (wait_rounds k w (wait_one w t s1))"
      using Suc.IH w1 by (simp add: data_keeps_def)
    then show ?thesis using data_keeps_trans [OF w1] n Some h(2) by simp
  qed
qed

lemma move_all_keeps:
  assumes "data_inv s" and u: "unlocked (dw_env w)" and q: "q \<noteq> TASK_HOME" "q \<noteq> TASK_RECV" "q \<noteq> TASK_SEND"
    and v: "valid_status q'"
  shows "data_keeps s (drain k (dw_env w) q (\<lambda>t s. put_task w t q' s) s)"
  using assms(1)
proof (induction k arbitrary: s)
  case 0
  then show ?case using same_keeps [OF _ same_tasks_refl] by simp
next
  case (Suc k)
  obtain r ot s1 where g: "vfs_get_task (dw_env w) q s = (r, ot, s1)" by (cases "vfs_get_task (dw_env w) q s")
  note k = get_keeps [OF Suc.prems g q]
  show ?case
  proof (cases ot)
    case None
    then show ?thesis using g k(1,3) by (auto simp: data_keeps_def)
  next
    case (Some t)
    have r: "r = GET_TASK_OK" using g Some get_some by auto
    note p = put_held_keeps [OF k(1) u v k(2) [OF Some] same_tasks_refl]
    have "placed x s \<Longrightarrow> placed x s1 \<or> x = t" for x using k(3) [of x] Some by auto
    then have w1: "data_keeps s (put_task w t q' s1)" using p by (auto simp: data_keeps_def)
    have "data_keeps (put_task w t q' s1) (drain k (dw_env w) q (\<lambda>t s. put_task w t q' s) (put_task w t q' s1))"
      using Suc.IH p(1) by (simp add: data_keeps_def)
    then show ?thesis using data_keeps_trans [OF w1] g Some r by simp
  qed
qed

lemma check_task_keeps:
  assumes inv: "data_inv s" and u: "unlocked (dw_env w)"
  shows "data_keeps s (dt_check_task w s)"
proof -
  let ?s1 = "drain_all (dw_env w) TASK_WAIT_TMP (\<lambda>t s. put_task w t TASK_WAIT s) s"
  let ?s2 = "drain_all (dw_env w) TASK_Q_SYNC_DIR_TMP (\<lambda>t s. put_task w t TASK_Q_SYNC_DIR s) ?s1"
  have k1: "data_keeps s ?s1"
    unfolding drain_all_def by (rule move_all_keeps [OF inv u]) (simp_all add: queue_defs valid_status_def)
  then have i1: "data_inv ?s1" by (simp only: data_keeps_def)
  have k2: "data_keeps ?s1 ?s2"
    unfolding drain_all_def [of _ TASK_Q_SYNC_DIR_TMP]
    by (rule move_all_keeps [OF i1 u]) (simp_all add: queue_defs valid_status_def)
  then have i2: "data_inv ?s2" by (simp only: data_keeps_def)
  have "data_keeps ?s2 (wait_rounds (dw_max_once w - 1) w ?s2)" by (rule rounds_keep [OF i2 u])
  then show ?thesis
    unfolding dt_check_task_def Let_def
    using data_keeps_trans [OF data_keeps_trans [OF k1 k2]] by blast
qed

lemma do_close_keeps:
  assumes "data_inv s" and "unlocked (dw_env w)"
  shows "data_keeps s (dt_do_close w fd s)"
proof -
  have k: "data_keeps s (dt_svc_finiconn w fd s)" by (rule finiconn_keeps [OF assms])
  then have i: "data_inv (dt_svc_finiconn w fd s)" by (simp add: data_keeps_def)
  have "data_keeps (dt_svc_finiconn w fd s) (dt_do_close w fd s)"
    unfolding dt_do_close_def by (rule same_keeps [OF i]) (simp add: same_tasks_def)
  then show ?thesis using data_keeps_trans [OF k] by blast
qed

lemma timeout_peers_keep:
  assumes "data_inv s" and u: "unlocked (dw_env w)"
  shows "data_keeps s (dt_timeout_peers w fds s)"
  using assms(1)
proof (induction fds arbitrary: s)
  case Nil
  then show ?case using same_keeps [OF _ same_tasks_refl] by simp
next
  case (Cons fd fds)
  have k: "data_keeps s (dt_do_close w fd s)" by (rule do_close_keeps [OF Cons.prems u])
  then have "data_keeps (dt_do_close w fd s) (dt_timeout_peers w fds (dt_do_close w fd s))"
    using Cons.IH by (simp add: data_keeps_def)
  then show ?case using data_keeps_trans [OF k] same_keeps [OF Cons.prems same_tasks_refl] by simp
qed

lemma svc_timeout_keeps:
  assumes inv: "data_inv s" and u: "unlocked (dw_env w)"
  shows "data_keeps s (dt_svc_timeout w s)"
proof -
  let ?s = "if ii_role (dw_self w) = ROLE_CS then dt_timeout_peers w (dactive s) s else s"
  have k: "data_keeps s ?s" using timeout_peers_keep [OF assms] same_keeps [OF inv same_tasks_refl] by simp
  then have "data_inv ?s" by (simp add: data_keeps_def)
  then show ?thesis unfolding dt_svc_timeout_def using data_keeps_trans [OF k check_task_keeps [OF _ u]] by blast
qed

section \<open>Events and runs\<close>

text \<open>
  The calls the main loop makes of the plugin, and the moves of the other threads, which take
  tasks off the other queues and put them on other queues.  \<open>DataOut\<close>: bytes went out.
\<close>

datatype data_event =
    DataAccept ptr
  | DataRecv ptr mybuff
  | DataOut ptr int
  | DataSent ptr
  | DataSentOnce ptr
  | DataClose ptr
  | DataTick
  | DataOther int int t_vfs_taskinfo

definition data_other :: "dworld \<Rightarrow> int \<Rightarrow> int \<Rightarrow> t_vfs_taskinfo \<Rightarrow> data_state \<Rightarrow> data_state option" where
  "data_other w q q' ti s =
     (if q \<in> {TASK_HOME, TASK_RECV, TASK_SEND} \<or> \<not> valid_status q' then None
      else case vfs_get_task (dw_env w) q s of
        (r, None, s) \<Rightarrow> Some s
      | (r, Some t, s) \<Rightarrow> Some (put_task w t q' (set_task t ti s)))"

definition data_react :: "dworld \<Rightarrow> data_event \<Rightarrow> data_state \<Rightarrow> data_state option" where
  "data_react w ev s =
     (case ev of
        DataAccept fd \<Rightarrow> Some (snd (dt_svc_initconn w fd s))
      | DataRecv fd m \<Rightarrow> map_option (\<lambda>(r, m, s). s) (dt_svc_recv w fd m s)
      | DataOut fd n \<Rightarrow> Some (s\<lparr>dsend_len := (dsend_len s)(fd := dsend_len s fd + n)\<rparr>)
      | DataSent fd \<Rightarrow> Some (snd (dt_svc_send w fd s))
      | DataSentOnce fd \<Rightarrow> Some (snd (dt_svc_send_once w fd s))
      | DataClose fd \<Rightarrow> Some (dt_svc_finiconn w fd s)
      | DataTick \<Rightarrow> Some (dt_svc_timeout w s)
      | DataOther q q' ti \<Rightarrow> data_other w q q' ti s)"

lemma data_other_keeps:
  assumes inv: "data_inv s" and u: "unlocked (dw_env w)" and o: "data_other w q q' ti s = Some s'"
  shows "data_keeps s s'"
proof -
  have q: "q \<noteq> TASK_HOME" "q \<noteq> TASK_RECV" "q \<noteq> TASK_SEND" "valid_status q'"
    using o by (auto simp: data_other_def split: if_splits)
  obtain r ot s1 where g: "vfs_get_task (dw_env w) q s = (r, ot, s1)" by (cases "vfs_get_task (dw_env w) q s")
  note k = get_keeps [OF inv g q(1-3)]
  show ?thesis
  proof (cases ot)
    case None
    then show ?thesis using o g q k(1,3) by (auto simp: data_other_def data_keeps_def)
  next
    case (Some t)
    have "same_tasks s1 (set_task t ti s1)" by (simp add: same_tasks_def)
    note p = put_held_keeps [OF k(1) u q(4) k(2) [OF Some] this]
    have "placed x s \<Longrightarrow> placed x s1 \<or> x = t" for x using k(3) [of x] Some by auto
    then show ?thesis using p o g q Some by (auto simp: data_other_def data_keeps_def)
  qed
qed

lemma data_react_keeps:
  assumes inv: "data_inv s" and u: "unlocked (dw_env w)" and r: "data_react w ev s = Some s'"
  shows "data_keeps s s'"
proof -
  have same: "data_keeps s s2" if "same_tasks s s2" for s2 by (rule same_keeps [OF inv that])
  show ?thesis
  proof (cases ev)
    case (DataAccept fd)
    then show ?thesis using r initconn_keeps [OF inv] by (auto simp: data_react_def)
  next
    case (DataRecv fd m)
    then obtain x m' where "dt_svc_recv w fd m s = Some (x, m', s')" using r by (auto simp: data_react_def)
    then show ?thesis by (rule svc_recv_keeps [OF inv u])
  next
    case (DataOut fd n)
    then show ?thesis using r by (auto simp: data_react_def same_tasks_def intro!: same)
  next
    case (DataSent fd)
    then show ?thesis using r svc_send_keeps [OF inv u] by (auto simp: data_react_def)
  next
    case (DataSentOnce fd)
    then show ?thesis using r by (auto simp: data_react_def dt_svc_send_once_def same_tasks_def intro!: same)
  next
    case (DataClose fd)
    then show ?thesis using r finiconn_keeps [OF inv u] by (auto simp: data_react_def)
  next
    case DataTick
    then show ?thesis using r svc_timeout_keeps [OF inv u] by (auto simp: data_react_def)
  next
    case (DataOther q q' ti)
    then show ?thesis using r data_other_keeps [OF inv u] by (auto simp: data_react_def)
  qed
qed

definition data_boot :: "dworld \<Rightarrow> ptr \<Rightarrow> tmp_state \<Rightarrow> cfg_state \<Rightarrow> local_state \<Rightarrow> data_state" where
  "data_boot w block tmp c lo = snd (dt_svc_init w (init_task_info block
     \<lparr>tasks = (\<lambda>_. zero_tasklist), vfstask = (\<lambda>_. []), alltask = (\<lambda>_. []), userl = (\<lambda>_. []),
      taskcount = (\<lambda>_. 0), tmpst = tmp, dpeers = (\<lambda>_. zero_data_peer), duser = (\<lambda>_. False),
      dactive = [], donline = (\<lambda>_. []), dcfg = c, dsent = [], dsending = [], dsend_len = (\<lambda>_. 0), dclosed = [],
      dfiles = (\<lambda>_. None), dfd_closed = [], dlocal = lo, dproxy = None, dmem = []\<rparr>))"

inductive data_step :: "data_state \<Rightarrow> data_state \<Rightarrow> bool" where
  data_event: "unlocked (dw_env w) \<Longrightarrow> data_react w ev s = Some s' \<Longrightarrow> data_step s s'"
| data_refill: "distinct (blocks ms) \<Longrightarrow> (\<And>p. p \<in> set (blocks ms) \<Longrightarrow> lf_off p (vfstask s)) \<Longrightarrow>
     data_step s (s\<lparr>dmem := ms\<rparr>)"

inductive_cases data_stepE: "data_step s s'"

inductive data_reachable :: "data_state \<Rightarrow> bool" where
  data_booted: "data_reachable (data_boot w block tmp c lo)"
| data_goes_on: "data_reachable s \<Longrightarrow> data_step s s' \<Longrightarrow> data_reachable s'"

lemma data_boot_inv: "data_inv (data_boot w block tmp c lo)"
proof -
  have m: "dmem s = dmem s'" "dpeers s = dpeers s'" if "task_state.more s = task_state.more s'" for s s' :: data_state
    using that by (cases s; cases s'; simp)+
  have v: "same_tasks s (snd (dt_svc_init w s))" for s
    by (simp add: dt_svc_init_def same_tasks_def split: prod.split)
  show ?thesis
    unfolding data_boot_def
    by (rule same_inv [OF _ v])
      (simp add: data_inv_def dp.inv_def init_queues_ok init_counts_ok [unfolded counts_ok_def] counts_on_def
        m(1) [OF init_more] own_more [OF m(2) [OF init_more]] owners_ok_def own_def zero_data_peer_def)
qed

lemma data_step_keeps: "data_step s s' \<Longrightarrow> data_inv s \<Longrightarrow> data_keeps s s'"
proof (erule data_stepE)
  fix ms assume "data_inv s" and s': "s' = s\<lparr>dmem := ms\<rparr>" and "distinct (blocks ms)"
    "\<And>p. p \<in> set (blocks ms) \<Longrightarrow> lf_off p (vfstask s)"
  then show "data_keeps s s'"
    using dp.supply_inv [of s ms] by (simp add: data_keeps_def data_inv_def placed_def)
qed (rule data_react_keeps)

lemma data_reachable_inv: "data_reachable s \<Longrightarrow> data_inv s"
  by (induction rule: data_reachable.induct) (use data_boot_inv data_step_keeps in \<open>auto simp: data_keeps_def\<close>)

end
