(* ===== verification/DataFile.thy ===== *)
theory DataFile
  imports DataRun
begin

text \<open>
  The data plugin's work on files: the bytes of a file reach the disk in the order they come,
  whatever the pieces; a file is published when its last byte is there and its digest agrees;
  and a connection that ends gives its tasks back.
\<close>

section \<open>Receiving\<close>

text \<open>
  Connection \<open>fd\<close> receives task \<open>t\<close> into inode \<open>i\<close>, which holds \<open>c\<close>, and would write behind it.
\<close>

definition receiving :: "ptr \<Rightarrow> ptr \<Rightarrow> nat \<Rightarrow> byte list \<Rightarrow> data_state \<Rightarrow> bool" where
  "receiving fd t i c s \<longleftrightarrow>
     dp_sock_stat (dpeers s fd) = RECVFILEING \<and> dp_recvtask (dpeers s fd) = Some t \<and> 0 < dp_in_fd (dpeers s fd) \<and>
     (case dfiles s (dp_in_fd (dpeers s fd)) of None \<Rightarrow> False
      | Some f \<Rightarrow> of_inode f = i \<and> (of_append f \<or> of_pos f = length c)) \<and>
     in_data (fs_inode (lo_fs (dlocal s)) i) = c"

text \<open>The bytes still to come.\<close>

definition to_come :: "ptr \<Rightarrow> data_state \<Rightarrow> int" where
  "to_come t s = ts_processlen (tsub s t) - ts_lastlen (tsub s t)"

lemma write_at_end: "write_at (length d) bs d = d @ bs"
  by (simp add: write_at_def)

lemma fd_write_receiving:
  assumes r: "receiving fd t i c s" and wr: "dw_write w (length data) = Some k"
  obtains s' where "fd_write w (dp_in_fd (dpeers s fd)) data s = (Some (length (take k data)), s')"
    and "receiving fd t i (c @ take k data) s'" and "dpeers s' = dpeers s" and "tasks s' = tasks s"
    and "dcfg s' = dcfg s" and "fs_file (lo_fs (dlocal s')) = fs_file (lo_fs (dlocal s))"
    and "\<And>j. j \<noteq> i \<Longrightarrow> fs_inode (lo_fs (dlocal s')) j = fs_inode (lo_fs (dlocal s)) j"
    and "fs_dir (lo_fs (dlocal s')) = fs_dir (lo_fs (dlocal s))" and "vfstask s' = vfstask s" and "own s' = own s"
    and "dproxy s' = dproxy s" and "dp.view s' = dp.view s"
proof -
  let ?d = "dp_in_fd (dpeers s fd)" and ?bs = "take k data"
  obtain f where f: "dfiles s ?d = Some f" "of_inode f = i" "of_append f \<or> of_pos f = length c"
    and c: "in_data (fs_inode (lo_fs (dlocal s)) i) = c"
    using r by (auto simp: receiving_def split: option.splits)
  let ?fs = "set_inode i (\<lambda>n. n\<lparr>in_data := c @ ?bs\<rparr>) (lo_fs (dlocal s))"
  let ?s = "s\<lparr>dlocal := (dlocal s)\<lparr>lo_fs := ?fs\<rparr>, dfiles := (dfiles s)(?d := Some (f\<lparr>of_pos := length (c @ ?bs)\<rparr>))\<rparr>"
  have p: "(if of_append f then length c else of_pos f) = length c" using f(3) by auto
  have w: "fd_write w ?d data s = (Some (length ?bs), ?s)"
    using f c wr write_at_end [of c] by (cases "of_append f") (simp_all add: fd_write_def Let_def)
  show ?thesis
  proof (rule that [OF w])
    show "receiving fd t i (c @ ?bs) ?s"
      using r f by (simp add: receiving_def set_inode_def)
  qed (simp_all add: set_inode_def own_def fun_eq_iff)
qed

text \<open>What one call does while there are bytes: \<open>n\<close> of them are written and taken off the buffer.\<close>

lemma recv_file_step:
  assumes r: "receiving fd t i c s" and m: "buff_wf m" and b: "buff_bytes m \<noteq> []"
    and left: "0 < to_come t s" "to_come t s < 2 ^ 63"
    and wr: "dw_write w (min (nat (to_come t s)) (length (buff_bytes m))) = Some k"
    and n: "n = min k (min (nat (to_come t s)) (length (buff_bytes m)))"
  obtains s2 where "recv_file w fd m s =
      (if to_come t s \<le> int n then let (x, s') = finish_recv w fd t s2 in (x, mybuff_skipdata n m, s')
       else (RECV_ADD_EPOLLIN, mybuff_skipdata n m, s2))"
    and "receiving fd t i (c @ take n (buff_bytes m)) s2" and "to_come t s2 = to_come t s - int n"
    and "dpeers s2 = dpeers s" and "tbase s2 = tbase s" and "dcfg s2 = dcfg s" and "vfstask s2 = vfstask s"
    and "fs_file (lo_fs (dlocal s2)) = fs_file (lo_fs (dlocal s))"
    and "\<And>j. j \<noteq> i \<Longrightarrow> fs_inode (lo_fs (dlocal s2)) j = fs_inode (lo_fs (dlocal s)) j"
    and "dp.view s2 = dp.view s"
proof -
  let ?b = "buff_bytes m" and ?d = "dp_in_fd (dpeers s fd)"
  define data where "data = take (nat (to_come t s)) ?b"
  have len: "length data = min (nat (to_come t s)) (length ?b)" by (simp add: data_def min.commute)
  have tk: "take k data = take n ?b" by (auto simp: data_def n min_def)
  have ln: "length (take k data) = n" by (simp add: len n)
  have md: "(ts_processlen (tsub s t) - ts_lastlen (tsub s t)) mod 2 ^ 64 = to_come t s"
    using left unfolding to_come_def by (intro mod_pos_pos_trivial) simp_all
  obtain s1 where w1: "fd_write w ?d data s = (Some (length (take k data)), s1)"
    and r1: "receiving fd t i (c @ take k data) s1" and s1: "dpeers s1 = dpeers s" "tasks s1 = tasks s" "dcfg s1 = dcfg s"
      "fs_file (lo_fs (dlocal s1)) = fs_file (lo_fs (dlocal s))"
    and ino: "\<And>j. j \<noteq> i \<Longrightarrow> fs_inode (lo_fs (dlocal s1)) j = fs_inode (lo_fs (dlocal s)) j"
    and q1: "vfstask s1 = vfstask s" "dp.view s1 = dp.view s"
    using fd_write_receiving [OF r wr [folded len]] by metis
  define s2 where "s2 = set_sub t ((tsub s1 t)\<lparr>ts_lastlen := ts_lastlen (tsub s1 t) + int n\<rparr>) s1"
  have t: "dp_recvtask (dpeers s fd) = Some t" using r by (simp add: receiving_def)
  have g: "mybuff_getdata m = Some ?b" using getdata_bytes [OF m] b by simp
  have P: "ts_processlen (tsub s2 t) = ts_processlen (tsub s t)" "ts_lastlen (tsub s1 t) = ts_lastlen (tsub s t)"
    by (simp_all add: s2_def set_sub_def s1(2))
  have got: "ts_lastlen (tsub s1 t) + int n \<ge> ts_processlen (tsub s2 t) \<longleftrightarrow> to_come t s \<le> int n"
    unfolding P to_come_def by linarith
  show ?thesis
  proof (rule that [of s2])
    show "recv_file w fd m s =
      (if to_come t s \<le> int n then let (x, s') = finish_recv w fd t s2 in (x, mybuff_skipdata n m, s')
       else (RECV_ADD_EPOLLIN, mybuff_skipdata n m, s2))"
      unfolding recv_file_def t option.case g Let_def md
      by (simp only: data_def [symmetric] w1 prod.case option.case ln s2_def [symmetric] got)
    show "receiving fd t i (c @ take n ?b) s2"
      using r1 by (simp add: receiving_def s2_def set_sub_def set_task_def tk)
    show "to_come t s2 = to_come t s - int n" by (simp add: to_come_def s2_def set_sub_def s1(2))
    show "tbase s2 = tbase s" by (simp add: s2_def set_sub_def fun_eq_iff s1(2))
  qed (use s1 ino q1 in \<open>simp_all add: s2_def set_sub_def set_task_def dp.view_def fun_eq_iff\<close>)
qed

text \<open>
  The end of a reception: the file was right and is at its place, or it was not and no file but
  the temporary one differs.
\<close>

lemma finish_recv_ends:
  assumes u: "unlocked (dw_env w)" and r: "receiving fd t i d s"
    and tmp: "fs_file (lo_fs (dlocal s)) (path_of (tb_tmpfile (tbase s t))) = Some i"
    and fit: "length (lw_junk (dw_lw w)) = 64" "names_fit (data_local w s) (tbase s t)"
      "place_of (data_local w s) (tbase s t) = Some dst" "path_of (tb_tmpfile (tbase s t)) \<noteq> dst"
    and run: "finish_recv w fd t s = (x, s')"
  shows "t \<in> set (vfstask s' TASK_FIN) \<and> dp_recvtask (dpeers s' fd) = None \<and>
    (tb_overstatus (tbase s' t) = OVER_OK \<and> contents dst (lo_fs (dlocal s')) = Some d \<and>
       take 31 (digest_of d) = take 31 (tb_filemd5 (tbase s t)) \<or>
     tb_overstatus (tbase s' t) = OVER_E_MD5 \<and> x = RECV_CLOSE \<and>
       (\<forall>q. contents q (lo_fs (dlocal s')) = contents q (lo_fs (dlocal s))))"
proof -
  let ?d = "dp_in_fd (dpeers s fd)" and ?b = "tbase s t"
  let ?s1 = "set_sub t ((tsub s t)\<lparr>ts_endtime := e_now (dw_env w)\<rparr>) s"
  have s1: "data_local w ?s1 = data_local w s" "tbase ?s1 t = ?b" "dlocal ?s1 = dlocal s"
    by (simp_all add: data_local_def set_sub_def set_task_def)
  obtain ret base lo where c: "close_tmp_check_mv (data_local w s) ?b ?d (dlocal s) = (ret, base, lo)"
    by (cases "close_tmp_check_mv (data_local w s) ?b ?d (dlocal s)")
  define s3 where "s3 = (if ?d < 0 then set_base t base (?s1\<lparr>dlocal := lo\<rparr>) else close_local ?d (set_base t base (?s1\<lparr>dlocal := lo\<rparr>)))"
  have s3: "dlocal s3 = lo" "tasks s3 t = (tasks s t)\<lparr>tl_task := tl_task (tasks s3 t)\<rparr>"
    by (simp_all add: s3_def close_local_def set_base_def set_sub_def set_task_def)
  have run': "(x, s') = (if ret \<noteq> LOCALFILE_OK then (RECV_CLOSE, end_task w t OVER_E_MD5 (set_dpeer fd ((dpeers s3 fd)\<lparr>dp_recvtask := None\<rparr>) s3))
     else let s = end_task w t OVER_OK s3;
              s = set_dpeer fd ((dpeers s fd)\<lparr>dp_in_fd := -1, dp_recvtask := None, dp_sock_stat := D_IDLE\<rparr>) s
          in (if dproxy s \<noteq> None then RECV_CLOSE else RECV_ADD_EPOLLIN, s))"
    unfolding run [symmetric] finish_recv_def Let_def s1 c prod.case s3_def by (rule refl)
  have e: "t \<in> set (vfstask (end_task w t ov z) TASK_FIN)" "tb_overstatus (tbase (end_task w t ov z) t) = ov"
    "dlocal (end_task w t ov z) = dlocal z" for ov z
    using queues_put_task [OF u fin_valid(1), of t]
    by (simp_all add: end_task_def) (simp_all add: put_task_def vfs_set_task_def set_status_def set_base_def set_task_def)
  have pub: "contents (path_of (tb_tmpfile ?b)) (lo_fs (dlocal s)) = Some d"
    using tmp r by (simp add: contents_def receiving_def)
  have jk: "length (lw_junk (data_local w s)) = 64" using fit(1) by (simp add: data_local_def)
  show ?thesis
  proof (cases "ret = LOCALFILE_OK")
    case True
    have "contents dst (lo_fs lo) = Some d \<and> take 31 (digest_of d) = take 31 (tb_filemd5 ?b)"
      using close_published(1) [OF jk fit(2) c [unfolded True] fit(3,4)] pub by auto
    then show ?thesis using run' True e [of OVER_OK s3] by (simp add: Let_def set_dpeer_def s3(1))
  next
    case False
    then show ?thesis
      using run' e [of OVER_E_MD5 "set_dpeer fd ((dpeers s3 fd)\<lparr>dp_recvtask := None\<rparr>) s3"] close_refused [OF c False]
      by (simp add: set_dpeer_def s3(1))
  qed
qed

section \<open>A stream of pieces\<close>

text \<open>Each piece is appended to the connection's buffer, then the main loop calls \<open>svc_recv\<close>.\<close>

primrec arrivals ::
  "allocator \<Rightarrow> nat \<Rightarrow> ptr \<Rightarrow> (dworld \<times> byte list) list \<Rightarrow> mybuff \<Rightarrow> data_state \<Rightarrow> (mybuff \<times> data_state) option" where
  "arrivals alloc ibs fd [] m s = Some (m, s)"
| "arrivals alloc ibs fd (x # xs) m s =
     (case mybuff_setdata alloc ibs (snd x) m of None \<Rightarrow> None
      | Some m \<Rightarrow> (case dt_svc_recv (fst x) fd m s of None \<Rightarrow> None
          | Some (r, m, s) \<Rightarrow> arrivals alloc ibs fd xs m s))"

lemma touch_receiving:
  "receiving fd t i c (dt_touch w fd s) = receiving fd t i c s" "to_come t (dt_touch w fd s) = to_come t s"
  by (simp_all add: receiving_def dt_touch_def set_dpeer_def to_come_def)

lemma pieces_in_order:
  assumes "alloc_ok alloc" and "0 < ibs" and "buff_wf m" and "receiving fd t i c s"
    and "\<forall>x\<in>set xs. \<forall>n. dw_write (fst x) n \<noteq> None"
    and "int (length (buff_bytes m) + length (concat (map snd xs))) < to_come t s" and "to_come t s < 2 ^ 63"
  shows "\<exists>m' s' c'. arrivals alloc ibs fd xs m s = Some (m', s') \<and> buff_wf m' \<and> receiving fd t i (c @ c') s' \<and>
    c' @ buff_bytes m' = buff_bytes m @ concat (map snd xs) \<and> to_come t s' = to_come t s - int (length c')"
  using assms(3-7)
proof (induction xs arbitrary: m s c)
  case Nil
  then show ?case by (auto intro!: exI [of _ m] exI [of _ s] exI [of _ "[]"])
next
  case (Cons x xs)
  obtain w p where x: "x = (w, p)" by (cases x)
  obtain m1 where m1: "mybuff_setdata alloc ibs p m = Some m1" "buff_wf m1" "buff_bytes m1 = buff_bytes m @ p"
    using setdata_cases [OF assms(1,2) Cons.prems(1), of p] by blast
  let ?s = "dt_touch w fd s"
  have r: "receiving fd t i c ?s" and l: "to_come t ?s = to_come t s"
    using Cons.prems(2) by (simp_all add: touch_receiving)
  have st: "dp_sock_stat (dpeers ?s fd) = RECVFILEING" using r by (simp add: receiving_def)
  have run: "dt_svc_recv w fd m1 s = Some (recv_file w fd m1 ?s)" using st by (simp add: dt_svc_recv_def Let_def)
  have bound: "int (length (buff_bytes m1)) < to_come t s" using Cons.prems(4) m1(3) x by simp
  have "\<exists>m2 s2 c2. recv_file w fd m1 ?s = (RECV_ADD_EPOLLIN, m2, s2) \<and> buff_wf m2 \<and> receiving fd t i (c @ c2) s2 \<and>
      c2 @ buff_bytes m2 = buff_bytes m1 \<and> to_come t s2 = to_come t s - int (length c2)"
  proof (cases "buff_bytes m1 = []")
    case True
    then have "recv_file w fd m1 ?s = (RECV_ADD_EPOLLIN, m1, ?s)"
      using r getdata_bytes [OF m1(2)] by (simp add: recv_file_def receiving_def)
    then show ?thesis using r l True m1(2) by (auto intro!: exI [of _ m1] exI [of _ ?s] exI [of _ "[]"])
  next
    case False
    let ?n = "min (nat (to_come t ?s)) (length (buff_bytes m1))"
    have "\<forall>n. dw_write w n \<noteq> None" using Cons.prems(3) x by simp
    then obtain k where k: "dw_write w ?n = Some k" by blast
    have b: "0 < to_come t ?s" "to_come t ?s < 2 ^ 63" using Cons.prems(4,5) l by simp_all
    obtain s2 where s2: "recv_file w fd m1 ?s =
        (if to_come t ?s \<le> int (min k ?n) then let (x, s') = finish_recv w fd t s2 in (x, mybuff_skipdata (min k ?n) m1, s')
         else (RECV_ADD_EPOLLIN, mybuff_skipdata (min k ?n) m1, s2))"
      "receiving fd t i (c @ take (min k ?n) (buff_bytes m1)) s2" "to_come t s2 = to_come t ?s - int (min k ?n)"
      by (rule recv_file_step [OF r m1(2) False b k refl]) (rule that; assumption)
    have small: "\<not> to_come t ?s \<le> int (min k ?n)" using bound l by simp
    have len: "length (take (min k ?n) (buff_bytes m1)) = min k ?n" by simp
    show ?thesis
      using s2 small l skipdata_wf [OF m1(2), of "min k ?n"] len
      by (intro exI [of _ "mybuff_skipdata (min k ?n) m1"] exI [of _ s2] exI [of _ "take (min k ?n) (buff_bytes m1)"]) simp
  qed
  then obtain m2 s2 c2 where s2: "recv_file w fd m1 ?s = (RECV_ADD_EPOLLIN, m2, s2)" "buff_wf m2" "receiving fd t i (c @ c2) s2"
      "c2 @ buff_bytes m2 = buff_bytes m1" "to_come t s2 = to_come t s - int (length c2)" by blast
  have l2: "length c2 + length (buff_bytes m2) = length (buff_bytes m) + length p"
    using arg_cong [OF s2(4), of length] m1(3) by simp
  obtain m' s' c' where IH: "arrivals alloc ibs fd xs m2 s2 = Some (m', s')" "buff_wf m'" "receiving fd t i ((c @ c2) @ c') s'"
      "c' @ buff_bytes m' = buff_bytes m2 @ concat (map snd xs)" "to_come t s' = to_come t s2 - int (length c')"
    using Cons.IH [OF s2(2,3)] Cons.prems(3,4,5) s2(5) l2 x by auto
  have "(c2 @ c') @ buff_bytes m' = buff_bytes m @ concat (map snd (x # xs))"
    using IH(4) s2(4) m1(3) x by simp
  moreover have "arrivals alloc ibs fd (x # xs) m s = Some (m', s')" using m1(1) run s2(1) IH(1) x by simp
  ultimately show ?case
    using IH(2,3,5) s2(5) by (intro exI [of _ m'] exI [of _ s'] exI [of _ "c2 @ c'"]) simp
qed

text \<open>When the rest is there and is written in one go, the file is complete.\<close>

lemma whole_file:
  assumes r: "receiving fd t i c s" and m: "buff_wf m"
    and left: "0 < to_come t s" "to_come t s < 2 ^ 63" "to_come t s \<le> int (length (buff_bytes m))"
    and wr: "dw_write w (nat (to_come t s)) = Some k" "nat (to_come t s) \<le> k" and u: "unlocked (dw_env w)"
    and tmp: "fs_file (lo_fs (dlocal s)) (path_of (tb_tmpfile (tbase s t))) = Some i"
    and fit: "length (lw_junk (dw_lw w)) = 64" "names_fit (data_local w s) (tbase s t)"
      "place_of (data_local w s) (tbase s t) = Some dst" "path_of (tb_tmpfile (tbase s t)) \<noteq> dst"
    and run: "recv_file w fd m s = (x, m', s')"
  shows "buff_bytes m' = drop (nat (to_come t s)) (buff_bytes m) \<and>
    t \<in> set (vfstask s' TASK_FIN) \<and> dp_recvtask (dpeers s' fd) = None \<and>
    (let d = c @ take (nat (to_come t s)) (buff_bytes m) in
     tb_overstatus (tbase s' t) = OVER_OK \<and> contents dst (lo_fs (dlocal s')) = Some d \<and>
       take 31 (digest_of d) = take 31 (tb_filemd5 (tbase s t)) \<or>
     tb_overstatus (tbase s' t) = OVER_E_MD5 \<and> x = RECV_CLOSE \<and>
       (\<forall>q. fs_file (lo_fs (dlocal s)) q \<noteq> Some i \<longrightarrow> contents q (lo_fs (dlocal s')) = contents q (lo_fs (dlocal s))))"
proof -
  let ?n = "nat (to_come t s)" and ?b = "buff_bytes m"
  have n: "min (nat (to_come t s)) (length ?b) = ?n" "min k (min ?n (length ?b)) = ?n" "?b \<noteq> []"
    using left wr(2) by (auto simp: min_def)
  have w2: "dw_write w (min ?n (length ?b)) = Some k" using wr(1) n(1) by simp
  obtain s2 where s2: "recv_file w fd m s =
      (if to_come t s \<le> int ?n then let (x, s') = finish_recv w fd t s2 in (x, mybuff_skipdata ?n m, s')
       else (RECV_ADD_EPOLLIN, mybuff_skipdata ?n m, s2))"
    "receiving fd t i (c @ take ?n ?b) s2" "tbase s2 = tbase s" "dcfg s2 = dcfg s"
    "fs_file (lo_fs (dlocal s2)) = fs_file (lo_fs (dlocal s))"
    "\<And>j. j \<noteq> i \<Longrightarrow> fs_inode (lo_fs (dlocal s2)) j = fs_inode (lo_fs (dlocal s)) j"
    by (rule recv_file_step [OF r m n(3) left(1,2) w2 n(2) [symmetric]]) (rule that; assumption)
  obtain y z where f: "finish_recv w fd t s2 = (y, z)" by (cases "finish_recv w fd t s2")
  have e: "x = y" "m' = mybuff_skipdata ?n m" "s' = z" using run left(1) by (simp_all add: s2(1) f)
  have lw: "data_local w s2 = data_local w s" by (simp add: data_local_def s2(4))
  have b: "tbase s2 t = tbase s t" using fun_cong [OF s2(3), of t] .
  have same: "contents q (lo_fs (dlocal s2)) = contents q (lo_fs (dlocal s))" if "fs_file (lo_fs (dlocal s)) q \<noteq> Some i" for q
    using that s2(5,6) by (cases "fs_file (lo_fs (dlocal s)) q") (auto simp: contents_def)
  have "fs_file (lo_fs (dlocal s2)) (path_of (tb_tmpfile (tbase s2 t))) = Some i" using tmp s2(5) b by simp
  from finish_recv_ends [OF u s2(2) this fit(1) _ _ _ f, of dst] fit(2-4)
  have "t \<in> set (vfstask z TASK_FIN) \<and> dp_recvtask (dpeers z fd) = None \<and>
    (tb_overstatus (tbase z t) = OVER_OK \<and> contents dst (lo_fs (dlocal z)) = Some (c @ take ?n ?b) \<and>
       take 31 (digest_of (c @ take ?n ?b)) = take 31 (tb_filemd5 (tbase s t)) \<or>
     tb_overstatus (tbase z t) = OVER_E_MD5 \<and> y = RECV_CLOSE \<and>
       (\<forall>q. contents q (lo_fs (dlocal z)) = contents q (lo_fs (dlocal s2))))"
    by (simp add: lw b)
  then show ?thesis using skipdata_wf(2) [OF m, of ?n] same by (auto simp: e Let_def)
qed

text \<open>Without bytes nothing happens: a file with nothing to come is never finished.\<close>

lemma no_bytes_no_end:
  assumes "receiving fd t i c s" and "buff_wf m" and "buff_bytes m = []"
  shows "recv_file w fd m s = (RECV_ADD_EPOLLIN, m, s)"
  using assms getdata_bytes [OF assms(2)] by (simp add: recv_file_def receiving_def)

section \<open>What the other machine sends\<close>

text \<open>The bytes a part of a file stands for.\<close>

definition part_bytes :: "filesys \<Rightarrow> ptr \<times> nat \<times> int \<times> int \<Rightarrow> byte list" where
  "part_bytes fs p = (case p of (fd, i, offset, len) \<Rightarrow> take (nat len) (drop (nat offset) (in_data (fs_inode fs i))))"

lemma start_send_part:
  assumes "start_send w fd base s = (FILE_SYNC_DST_2_SRC, base', s')"
  obtains i where "dsending s' = dsending s @ [(fd, i, tb_offsize base', tb_fsize base' - tb_offsize base')]"
    and "base' = (if dw_continue w then base else base\<lparr>tb_offsize := 0\<rparr>)"
    and "\<exists>lw. open_localfile_4_read lw base' (lo_fs (dlocal s')) = (LOCALFILE_OK, Some i) \<and> lo_fs (dlocal s') = lo_fs (dlocal s)"
proof -
  obtain r ot s1 where g: "dt_get_home w s = (r, ot, s1)" by (cases "dt_get_home w s")
  have f: "dsending s1 = dsending s" "dlocal s1 = dlocal s"
    using g by (auto simp: dt_get_home_def Let_def vfs_get_task_def set_status_def split: list.splits option.splits if_splits)
  obtain t where t: "ot = Some t" and r: "r = GET_TASK_OK"
    using assms g by (auto simp: start_send_def FILE_SYNC_DST_2_SRC_def FILE_SYNC_DST_2_SRC_E_MALLOC_def split: option.splits if_splits)
  define b where "b = (if \<not> dw_continue w then base\<lparr>tb_offsize := 0\<rparr> else base)"
  define s2 where "s2 = set_task t ((tl_task (tasks s1 t))\<lparr>ti_base := b, ti_sub := rsp_sub w (dp_ip (dpeers s1 fd)) b\<rparr>) s1"
  obtain ret oi where o: "open_localfile_4_read (data_local w s2) b (lo_fs (dlocal s2)) = (ret, oi)"
    by (cases "open_localfile_4_read (data_local w s2) b (lo_fs (dlocal s2))")
  obtain i where i: "oi = Some i"
    using assms g t r o by (cases oi) (simp_all add: start_send_def Let_def b_def [symmetric] s2_def [symmetric]
        FILE_SYNC_DST_2_SRC_def FILE_SYNC_DST_2_SRC_E_OPENFILE_def)
  have ok: "ret = LOCALFILE_OK" using o i by (auto simp: open_localfile_4_read_def split: option.splits prod.splits)
  have put: "dsending (put_task w t q z) = dsending z" "dlocal (put_task w t q z) = dlocal z" for q z
    by (simp_all add: put_task_def vfs_set_task_def set_status_def)
  define s3 where "s3 = set_dpeer fd ((dpeers (put_task w t TASK_SEND (set_base t (b\<lparr>tb_overstatus := OVER_UNKNOWN\<rparr>) s2)) fd)\<lparr>dp_sendtask := Some t\<rparr>)
     (put_task w t TASK_SEND (set_base t (b\<lparr>tb_overstatus := OVER_UNKNOWN\<rparr>) s2))"
  have d: "dlocal s2 = dlocal s" "dsending s2 = dsending s" by (simp_all add: s2_def set_task_def f)
  have peers2: "dpeers s2 = dpeers s1" by (simp add: s2_def)
  from d have d3: "dlocal s3 = dlocal s" "dsending s3 = dsending s"
    by (simp_all add: s3_def set_dpeer_def put set_base_def set_task_def)
  have e0: "b = base'" "s' = (let s = s3\<lparr>dsending := dsending s3 @ [(fd, i, tb_offsize b, ts_processlen (rsp_sub w (dp_ip (dpeers s1 fd)) b))]\<rparr>
      in set_dpeer fd ((dpeers s fd)\<lparr>dp_sock_stat := SENDFILEING\<rparr>) s)"
    using assms g t r o i
    by (simp_all add: start_send_def b_def [symmetric] s2_def [symmetric] Let_def) (auto simp: s3_def peers2)
  then have e: "b = base'" "dsending s' = dsending s @ [(fd, i, tb_offsize b, tb_fsize b - tb_offsize b)]" "dlocal s' = dlocal s"
    using d3 by (simp_all add: rsp_sub_def set_dpeer_def Let_def)
  show ?thesis
  proof (rule that [of i])
    show "\<exists>lw. open_localfile_4_read lw base' (lo_fs (dlocal s')) = (LOCALFILE_OK, Some i) \<and> lo_fs (dlocal s') = lo_fs (dlocal s)"
      using o i ok e(1,3) d by auto
    show "base' = (if dw_continue w then base else base\<lparr>tb_offsize := 0\<rparr>)" using e(1) by (cases "dw_continue w") (auto simp: b_def)
  qed (use e in simp)
qed

section \<open>Giving back\<close>

lemma end_task_base [simp]:
  "tbase (end_task w t ov s) x = (if x = t then (tbase s t)\<lparr>tb_overstatus := ov\<rparr> else tbase s x)"
  "tsub (end_task w t ov s) x = tsub s x"
  by (simp_all add: end_task_def put_task_def vfs_set_task_def)

lemma put_task_base [simp]: "tl_task (tasks (put_task w t q s) x) = tl_task (tasks s x)"
  by (simp add: put_task_def vfs_set_task_def)

definition given_back :: "dworld \<Rightarrow> t_task_base \<Rightarrow> t_task_sub \<Rightarrow> t_task_base" where
  "given_back w base sub =
     (if dw_continue w then base\<lparr>tb_offsize := tb_offsize base + ts_lastlen sub\<rparr> else base)\<lparr>tb_retry := tb_retry base + 1\<rparr>"

lemma finiconn_gives_back:
  assumes inv: "data_inv s" and u: "unlocked (dw_env w)" and user: "duser s fd"
  defines "s' \<equiv> dt_svc_finiconn w fd s"
  shows "dp_sendtask (dpeers s fd) = Some t \<Longrightarrow> t \<in> set (vfstask s' TASK_FIN) \<and> tb_overstatus (tbase s' t) = OVER_SEND_LEN"
    and "dp_recvtask (dpeers s fd) = Some t \<Longrightarrow> t \<in> set (vfstask s' TASK_WAIT) \<and> tbase s' t = given_back w (tbase s t) (tsub s t)"
    and "own s' fd = (None, None)"
proof -
  let ?d = "dp_in_fd (dpeers s fd)"
  define s0 where "s0 = (if ?d > 0 then close_local ?d s else s)"
  define s1 where "s1 = s0\<lparr>dactive := removeAll fd (dactive s0), donline := lf_del fd (donline s0)\<rparr>"
  have s1: "dpeers s1 = dpeers s" "tasks s1 = tasks s" "vfstask s1 = vfstask s"
    by (simp_all add: s1_def s0_def close_local_def)
  let ?s2 = "give_back_send w fd s1" and ?s3 = "give_back_recv w fd (give_back_send w fd s1)"
  have f: "s' = set_dpeer fd zero_data_peer (?s3\<lparr>duser := (duser ?s3)(fd := False)\<rparr>)"
    using user by (simp add: s'_def dt_svc_finiconn_def Let_def s1_def s0_def)
  have fp: "vfstask s' = vfstask ?s3" "tasks s' = tasks ?s3" by (simp_all add: f set_dpeer_def)
  have p2: "dpeers ?s2 = dpeers s" by (simp add: give_back_send_def s1(1) split: option.split)
  show "own s' fd = (None, None)" by (simp add: f zero_data_peer_def)
  have differ: "t \<noteq> x" if "dp_sendtask (dpeers s fd) = Some t" "dp_recvtask (dpeers s fd) = Some x" for t x
  proof
    assume "t = x"
    then have "t \<in> set (vfstask s TASK_SEND)" "t \<in> set (vfstask s TASK_RECV)"
      using that inv by (auto simp: data_inv_def owners_ok_def own_def)
    then show False using owner_unique [OF inv] recv_not_send by blast
  qed
  have sent: "t \<in> set (vfstask ?s2 TASK_FIN)" "tb_overstatus (tbase ?s2 t) = OVER_SEND_LEN"
    if "dp_sendtask (dpeers s fd) = Some t" for t
    using that queues_put_task [OF u fin_valid(1)] by (simp_all add: give_back_send_def s1(1)) (simp add: end_task_def)
  have same2: "tbase ?s2 x = tbase s x" "tsub ?s2 x = tsub s x" if "dp_recvtask (dpeers s fd) = Some x" for x
    using that differ by (auto simp: give_back_send_def s1 split: option.split)
  have gave: "x \<in> set (vfstask ?s3 TASK_WAIT)" "tbase ?s3 x = given_back w (tbase s x) (tsub s x)"
    "\<And>t. t \<noteq> x \<Longrightarrow> (t \<in> set (vfstask ?s3 TASK_FIN)) = (t \<in> set (vfstask ?s2 TASK_FIN)) \<and> tbase ?s3 t = tbase ?s2 t"
    if r: "dp_recvtask (dpeers s fd) = Some x" for x
  proof -
    have g: "?s3 = put_task w x TASK_WAIT (set_base x (given_back w (tbase s x) (tsub s x))
       (if dw_continue w then ?s2 else ?s2\<lparr>dlocal := real_rm_file (data_local w ?s2) (tb_tmpfile (tbase s x)) (dlocal ?s2)\<rparr>))"
      using r p2 same2 [OF r] by (simp add: give_back_recv_def Let_def given_back_def)
    show "x \<in> set (vfstask ?s3 TASK_WAIT)" unfolding g queues_put_task [OF u fin_valid(2)] by simp
    show "tbase ?s3 x = given_back w (tbase s x) (tsub s x)" unfolding g by simp
    show "(t \<in> set (vfstask ?s3 TASK_FIN)) = (t \<in> set (vfstask ?s2 TASK_FIN)) \<and> tbase ?s3 t = tbase ?s2 t" if "t \<noteq> x" for t
      unfolding g queues_put_task [OF u fin_valid(2)] using that by (simp add: queue_defs)
  qed
  show "t \<in> set (vfstask s' TASK_WAIT) \<and> tbase s' t = given_back w (tbase s t) (tsub s t)"
    if "dp_recvtask (dpeers s fd) = Some t"
    using gave(1,2) [OF that] by (simp add: fp)
  show "t \<in> set (vfstask s' TASK_FIN) \<and> tb_overstatus (tbase s' t) = OVER_SEND_LEN"
    if s: "dp_sendtask (dpeers s fd) = Some t"
  proof (cases "dp_recvtask (dpeers s fd)")
    case None
    then have "?s3 = ?s2" using p2 by (simp add: give_back_recv_def)
    then show ?thesis using sent [OF s] by (simp add: fp)
  next
    case (Some x)
    then show ?thesis using sent [OF s] gave(3) [OF Some differ [OF s Some]] by (simp add: fp)
  qed
qed

section \<open>The invariant spelt out\<close>

lemma data_inv_places:
  assumes inv: "data_inv s"
  shows "dp_recvtask (dpeers s fd) = Some t \<Longrightarrow> t \<in> set (vfstask s TASK_RECV) \<and>
      (dp_recvtask (dpeers s fd') = Some t \<longrightarrow> fd' = fd) \<and> dp_sendtask (dpeers s fd') \<noteq> Some t"
    and "dp_sendtask (dpeers s fd) = Some t \<Longrightarrow> t \<in> set (vfstask s TASK_SEND) \<and>
      (dp_sendtask (dpeers s fd') = Some t \<longrightarrow> fd' = fd)"
    and "t \<in> set (vfstask s p) \<Longrightarrow> t \<in> set (vfstask s q) \<Longrightarrow> p = q"
    and "distinct (vfstask s q)" and "t \<in> set (vfstask s q) \<Longrightarrow> tl_status (tasks s t) = q"
proof -
  have ok: "queues_ok s" and ow: "owners_ok (vfstask s) (own s)" using inv by (simp_all add: data_inv_def dp.inv_def)
  have recv: "t \<in> set (vfstask s TASK_RECV)" if "dp_recvtask (dpeers s f) = Some t" for f
    using that ow by (auto simp: owners_ok_def own_def)
  have send: "t \<in> set (vfstask s TASK_SEND)" if "dp_sendtask (dpeers s f) = Some t" for f
    using that ow by (auto simp: owners_ok_def own_def)
  show one: "t \<in> set (vfstask s p) \<Longrightarrow> t \<in> set (vfstask s q) \<Longrightarrow> p = q" for p q
    by (rule owner_unique [OF inv])
  show "dp_recvtask (dpeers s fd) = Some t \<Longrightarrow> t \<in> set (vfstask s TASK_RECV) \<and>
      (dp_recvtask (dpeers s fd') = Some t \<longrightarrow> fd' = fd) \<and> dp_sendtask (dpeers s fd') \<noteq> Some t"
    using recv send one recv_not_send ow unfolding owners_ok_def own_def by (metis fst_conv)
  show "dp_sendtask (dpeers s fd) = Some t \<Longrightarrow> t \<in> set (vfstask s TASK_SEND) \<and>
      (dp_sendtask (dpeers s fd') = Some t \<longrightarrow> fd' = fd)"
    using send ow unfolding owners_ok_def own_def by (metis snd_conv)
  show "distinct (vfstask s q)" using ok by (simp add: queues_ok_def lf_wf_def)
  show "t \<in> set (vfstask s q) \<Longrightarrow> tl_status (tasks s t) = q" using ok by (simp add: queues_ok_def)
qed

lemma data_boot_queues:
  "vfstask (data_boot w block tmp c lo) TASK_HOME = rev (map (\<lambda>i. block + i) [0..<POOL])"
proof -
  have v: "dp.view (snd (dt_svc_init w s)) = dp.view s" for s
    by (simp add: dt_svc_init_def split: prod.split)
  show ?thesis unfolding data_boot_def view_queues [OF v] by (simp add: init_queues)
qed

end
