(* ===== verification/DataSamples.thy ===== *)
theory DataSamples
  imports DataFile Samples FileSamples
begin

text \<open>
  A connection on descriptor 3 that receives task 5 into the file \<open>/t\<close>, of which two bytes
  are missing.
\<close>

definition sample_dw :: dworld where
  "sample_dw = \<lparr>dw_env = calm, dw_out = sample_out, dw_abi = sample_abi, dw_lw = sample_lw,
     dw_self = zero_ipinfo\<lparr>ii_role := ROLE_FCS\<rparr>, dw_isp_name = ''tel'', dw_connect = (\<lambda>_ _ _. -1),
     dw_peerip = (\<lambda>_. 2), dw_newfd = (\<lambda>_. 9), dw_write = Some, dw_proxy_write = True, dw_proxy_says = (\<lambda>_. []),
     dw_timeout = 60, dw_max_once = 16, dw_retry = 3, dw_data_port = 80, dw_fcs_max = 10, dw_cs_max = 10,
     dw_continue = False, dw_calcu_md5 = False, dw_test = False, dw_conf_int = (\<lambda>_ d. d)\<rparr>"

definition sample_recv_task :: t_vfs_taskinfo where
  "sample_recv_task = \<lparr>ti_base = sample_file_task, ti_sub = zero_sub\<lparr>ts_processlen := 2\<rparr>, ti_user = None\<rparr>"

definition sample_data :: data_state where
  "sample_data = \<lparr>tasks = (\<lambda>_. \<lparr>tl_task = sample_recv_task, tl_upip = 0, tl_status = TASK_RECV\<rparr>),
     vfstask = (\<lambda>q. if q = TASK_RECV then [5] else []), alltask = (\<lambda>_. []), userl = (\<lambda>_. []),
     taskcount = (\<lambda>q. - home_surplus q), tmpst = sample_tmp,
     dpeers = (\<lambda>fd. if fd = 3 then zero_data_peer\<lparr>dp_in_fd := 9, dp_sock_stat := RECVFILEING, dp_active := True,
        dp_recvtask := Some 5\<rparr> else zero_data_peer),
     duser = (\<lambda>fd. fd = 3), dactive = [3], donline = (\<lambda>_. []), dcfg = sample_cfg, dsent = [], dsending = [],
     dsend_len = (\<lambda>_. 0), dclosed = [], dfiles = (\<lambda>d. if d = 9 then Some \<lparr>of_inode = 0, of_append = False, of_pos = 3\<rparr> else None),
     dfd_closed = [], dlocal = sample_ls, dproxy = None, dmem = []\<rparr>"

lemma sample_receiving: "receiving 3 5 0 [1, 2, 3] sample_data" "to_come 5 sample_data = 2"
  by (simp_all add: receiving_def to_come_def sample_data_def sample_recv_task_def sample_ls_def sample_fs_def
      sample_inode_def zero_sub_def)

lemma unlocked_calm [simp]: "unlocked calm"
  by (simp add: unlocked_def)

lemma sample_dw_simps [simp]:
  "dw_write sample_dw = Some" "unlocked (dw_env sample_dw)" "dw_lw sample_dw = sample_lw" "dw_env sample_dw = calm"
  by (simp_all add: sample_dw_def unlocked_def)

lemma sample_data_local [simp]: "data_local sample_dw sample_data = sample_lw"
  by (simp add: data_local_def sample_dw_def sample_data_def sample_cfg_def sample_lw_def)

lemma sample_data_simps [simp]:
  "tbase sample_data 5 = sample_file_task" "dlocal sample_data = sample_ls" "duser sample_data 3"
  "dp_recvtask (dpeers sample_data 3) = Some 5"
  by (simp_all add: sample_data_def sample_recv_task_def)

lemma sample_data_inv: "data_inv sample_data"
  by (auto simp: data_inv_def dp.inv_def counts_on_def queues_ok_def sample_data_def lf_wf_def owners_ok_def own_def
      zero_data_peer_def split: if_splits)

text \<open>A buffer that holds two bytes.\<close>

definition sample_buff :: mybuff where
  "sample_buff = mybuff_init\<lparr>mb_data := Some [7, 8, 0, 0], mb_size := 4, mb_len := 2\<rparr>"

lemma sample_buff_ok: "buff_wf sample_buff" "buff_bytes sample_buff = [7, 8]"
  by (simp_all add: sample_buff_def buff_wf_def buff_bytes_def mybuff_init_def)

text \<open>A configuration file of two lines.\<close>

definition sample_text :: string where
  "sample_text = ''[ log-x ]'' @ [CHR 0x0A] @ ''Level = 3'' @ [CHR 0x0A]"

end
