(* ===== verification/FcsBase.thy ===== *)
theory FcsBase
  imports CsTask
begin

text \<open>
  The source machine (\<open>src/network/fcs\<close>), first part: its state and connections
  (\<open>vfs_sig.c\<close>), the files it is being sent again by a storage machine (\<open>sync_dir_list\<close>) and
  the listing of its directories for others (\<open>vfs_sig_base.c\<close>).  Peers are named by their
  descriptors, as in the other plugins; the tasks a tracker works on are the list \<open>userl\<close> of
  the pool at the tracker's descriptor.
\<close>

definition MAXFILE :: nat where "MAXFILE = 10240"

record vfs_fcs_peer =
  fp_hbtime :: int
  fp_ip :: u32
  fp_cfgip :: u32
  fp_taskcount :: int
  fp_role :: role
  fp_sock_stat :: sock_stat
  fp_server_stat :: byte

definition zero_fcs_peer :: vfs_fcs_peer where
  "zero_fcs_peer = \<lparr>fp_hbtime = 0, fp_ip = 0, fp_cfgip = 0, fp_taskcount = 0, fp_role = UNKOWN,
     fp_sock_stat = LOGOUT, fp_server_stat = 0\<rparr>"

record t_sync_dir_file =
  sd_fname :: string
  sd_itime :: int

record fileinfo =
  fi_inode :: nat
  fi_size :: int
  fi_mode :: u32
  fi_mtime :: int
  fi_ctime :: int
  fi_file :: string

definition zero_fileinfo :: fileinfo where
  "zero_fileinfo = \<lparr>fi_inode = 0, fi_size = 0, fi_mode = 0, fi_mtime = 0, fi_ctime = 0, fi_file = []\<rparr>"

text \<open>
  \<open>freq\<close> is the request a task on \<open>TASK_Q_SYNC_DIR_REQ\<close> carries, \<open>frsp\<close> the buffer with the
  answer, \<open>fmem\<close> the answers of \<open>malloc\<close> for task records still to come, \<open>fwatch\<close> the
  directory behind each watch.
\<close>

record fcs_state = task_state +
  fpeers :: "ptr \<Rightarrow> vfs_fcs_peer"
  fuser :: "ptr \<Rightarrow> bool"
  factive :: "ptr list"
  ftrackers :: "ptr list"
  fonline :: "nat \<Rightarrow> ptr list"
  fcfg_list :: "nat \<Rightarrow> ptr list"
  fcfg :: cfg_state
  fsent :: "(ptr \<times> byte list) list"
  fclosed :: "ptr list"
  fsync_dirs :: "nat \<Rightarrow> t_sync_dir_file list"
  fsync_list :: "t_vfs_sync_task list"
  fflag :: int
  ftotal_sync :: int
  ftotal_synced :: int
  flast_sync :: int
  flast_scan :: int
  fday_last :: int
  fday_count :: int
  fstart :: int
  fwatch :: "int \<Rightarrow> string"
  freq :: "ptr \<Rightarrow> t_vfs_sync_task"
  frsp :: "ptr \<Rightarrow> byte list option"
  fmem :: "ptr option list"
  flocal :: local_state

text \<open>
  The surroundings of one call.  \<open>fw_lock\<close> is the answer of the mutex of \<open>sync_dir_list\<close>,
  \<open>fw_mem\<close> whether \<open>malloc\<close> grants the small records, \<open>fw_sort\<close> what \<open>qsort\<close> makes of the array
  of files with the comparison \<open>sortinode\<close>, \<open>fw_behind\<close> what the memory behind the full array
  holds.
\<close>

record fworld =
  fw_env :: env
  fw_out :: outside
  fw_abi :: abi
  fw_sync_of :: "byte list \<Rightarrow> t_vfs_sync_task"
  fw_sync_bytes :: "t_vfs_sync_task \<Rightarrow> byte list"
  fw_sync_size :: u16
  fw_peerip :: "ptr \<Rightarrow> u32"
  fw_timeout :: int
  fw_max_task :: nat
  fw_task_timeout :: int
  fw_dir_count :: int
  fw_start_time :: int
  fw_path :: string
  fw_hostname :: string
  fw_lock :: int
  fw_mem :: bool
  fw_sort :: "(fileinfo \<Rightarrow> fileinfo \<Rightarrow> int) \<Rightarrow> fileinfo list \<Rightarrow> fileinfo list"
  fw_behind :: fileinfo
  fw_self :: t_ip_info
  fw_lw :: local_world
  fw_filter :: filter_state

definition fcs_local :: "fworld \<Rightarrow> fcs_state \<Rightarrow> local_world" where
  "fcs_local w s = (fw_lw w)\<lparr>lw_env := fw_env w, lw_role := ROLE_FCS, lw_stat := self_stat (fcfg s)\<rparr>"

definition set_fpeer :: "ptr \<Rightarrow> vfs_fcs_peer \<Rightarrow> fcs_state \<Rightarrow> fcs_state" where
  "set_fpeer fd p s = s\<lparr>fpeers := (fpeers s)(fd := p)\<rparr>"

definition f_send :: "ptr \<Rightarrow> byte list \<Rightarrow> fcs_state \<Rightarrow> fcs_state" where
  "f_send fd bs s = s\<lparr>fsent := fsent s @ [(fd, bs)]\<rparr>"

definition set_fcs_stat :: "server_stat \<Rightarrow> fcs_state \<Rightarrow> fcs_state" where
  "set_fcs_stat st s = s\<lparr>fcfg := (fcfg s)\<lparr>self_stat := st\<rparr>\<rparr>"

definition set_fstamps :: "stamp_file \<Rightarrow> fcs_state \<Rightarrow> fcs_state" where
  "set_fstamps f s = s\<lparr>flocal := (flocal s)\<lparr>lo_stamps := f\<rparr>\<rparr>"

definition set_ffs :: "filesys \<Rightarrow> fcs_state \<Rightarrow> fcs_state" where
  "set_ffs fs s = s\<lparr>flocal := (flocal s)\<lparr>lo_fs := fs\<rparr>\<rparr>"

text \<open>Putting a task on a queue; taking a free record, with the next answer of \<open>malloc\<close>.\<close>

definition fcs_put :: "fworld \<Rightarrow> ptr \<Rightarrow> int \<Rightarrow> fcs_state \<Rightarrow> fcs_state" where
  "fcs_put w t q s = snd (vfs_set_task (fw_env w) t q s)"

definition fcs_get_home :: "fworld \<Rightarrow> fcs_state \<Rightarrow> int \<times> ptr option \<times> fcs_state" where
  "fcs_get_home w s =
     vfs_get_task ((fw_env w)\<lparr>e_malloc := (case fmem s of [] \<Rightarrow> None | m # _ \<Rightarrow> m)\<rparr>) TASK_HOME
       (if vfstask s TASK_HOME = [] then s\<lparr>fmem := tl (fmem s)\<rparr> else s)"

section \<open>vfs\_sig\_base.c: finding a peer\<close>

definition fcs_find_ip_stat :: "u32 \<Rightarrow> fcs_state \<Rightarrow> ptr option" where
  "fcs_find_ip_stat ip s = find (\<lambda>fd. fp_ip (fpeers s fd) = ip) (fonline s (bucket_of ip))"

section \<open>vfs\_sig.c: connections\<close>

text \<open>The record of the machine is zero when it is not configured, so its role is \<open>UNKOWN\<close>.\<close>

definition fcs_init_cfg_connect :: "fworld \<Rightarrow> string \<Rightarrow> ptr \<Rightarrow> fcs_state \<Rightarrow> int \<times> fcs_state" where
  "fcs_init_cfg_connect w sip fd s =
     (let (ip, o_s_ip) = get_uint32_ip (f_dns (fw_out w)) sip in
      if ip = INADDR_NONE then (-1, s)
      else
        let s_ip = (case o_s_ip of Some x \<Rightarrow> x | None \<Rightarrow> []);
            r = (case get_ip_info (fw_env w) (fw_out w) s_ip True (fcfg s) of
                   (r, Some p) \<Rightarrow> ii_role (infos (fcfg s) p) | (r, None) \<Rightarrow> UNKOWN);
            s = set_fpeer fd ((fpeers s fd)\<lparr>fp_cfgip := ip, fp_sock_stat := LOGIN, fp_role := r\<rparr>) s;
            s = (if r = ROLE_TRACKER then s\<lparr>ftrackers := fd # removeAll fd (ftrackers s)\<rparr> else s)
        in (0, s\<lparr>fcfg_list := lf_add_head fd (bucket_of ip) (fcfg_list s)\<rparr>))"

definition fcs_svc_init :: "fworld \<Rightarrow> fcs_state \<Rightarrow> fcs_state" where
  "fcs_svc_init w s =
     set_fcs_stat ON_LINE
       (s\<lparr>fstart := e_now (fw_env w), factive := [], ftrackers := [], fonline := (\<lambda>_. []),
          fcfg_list := (\<lambda>_. []), fsync_dirs := (\<lambda>_. []), fsync_list := [],
          fflag := 0, ftotal_sync := 0, ftotal_synced := 0\<rparr>)"

definition fcs_svc_initconn :: "fworld \<Rightarrow> ptr \<Rightarrow> fcs_state \<Rightarrow> int \<times> fcs_state" where
  "fcs_svc_initconn w fd s =
     (let ip = fw_peerip w fd in
      if fcs_find_ip_stat ip s \<noteq> None then (RET_CLOSE_DUP, s)
      else if \<not> fuser s fd \<and> e_malloc (fw_env w) = None then (RET_CLOSE_MALLOC, s)
      else
        let s = set_fpeer fd (zero_fcs_peer\<lparr>fp_hbtime := e_now (fw_env w), fp_sock_stat := CONNECTED, fp_ip := ip\<rparr>)
                  (s\<lparr>fuser := (fuser s)(fd := True), userl := (userl s)(fd := [])\<rparr>)
        in (0, s\<lparr>factive := factive s @ [fd], fonline := lf_add_head fd (bucket_of ip) (fonline s)\<rparr>))"

text \<open>The tasks a tracker was working on wait for another.\<close>

definition refresh_tracker_task :: "fworld \<Rightarrow> ptr list \<Rightarrow> fcs_state \<Rightarrow> fcs_state" where
  "refresh_tracker_task w ts s =
     foldl (\<lambda>s t. fcs_put w t TASK_WAIT_SYNC (s\<lparr>userl := lf_del t (userl s)\<rparr>)) s ts"

definition fcs_svc_finiconn :: "fworld \<Rightarrow> ptr \<Rightarrow> fcs_state \<Rightarrow> fcs_state" where
  "fcs_svc_finiconn w fd s =
     (if \<not> fuser s fd then s
      else
        let s = s\<lparr>factive := removeAll fd (factive s), fonline := lf_del fd (fonline s),
                  ftrackers := removeAll fd (ftrackers s), fcfg_list := lf_del fd (fcfg_list s)\<rparr>;
            s = (if fp_role (fpeers s fd) = ROLE_TRACKER then refresh_tracker_task w (userl s fd) s else s)
        in set_fpeer fd zero_fcs_peer (s\<lparr>userl := (userl s)(fd := []), fuser := (fuser s)(fd := False)\<rparr>))"

definition fcs_do_close :: "fworld \<Rightarrow> ptr \<Rightarrow> fcs_state \<Rightarrow> fcs_state" where
  "fcs_do_close w fd s = (fcs_svc_finiconn w fd s)\<lparr>fclosed := fclosed s @ [fd]\<rparr>"

definition fcs_touch :: "fworld \<Rightarrow> ptr \<Rightarrow> fcs_state \<Rightarrow> fcs_state" where
  "fcs_touch w fd s = (set_fpeer fd ((fpeers s fd)\<lparr>fp_hbtime := e_now (fw_env w)\<rparr>) s)
     \<lparr>factive := removeAll fd (factive s) @ [fd]\<rparr>"

definition fcs_svc_send :: "fworld \<Rightarrow> ptr \<Rightarrow> fcs_state \<Rightarrow> int \<times> fcs_state" where
  "fcs_svc_send w fd s = (SEND_ADD_EPOLLIN, fcs_touch w fd s)"

section \<open>Files being sent to this machine\<close>

definition fcs_get_lock :: "fworld \<Rightarrow> int" where
  "fcs_get_lock w = (if fw_lock w \<noteq> 0 \<and> fw_lock w \<noteq> EDEADLK then -1 else 0)"

text \<open>The name under which a file is noted: its directory numbers and its last part.\<close>

definition sync_name :: "string \<Rightarrow> string option" where
  "sync_name fname =
     (case get_dir1_dir2 fname of None \<Rightarrow> None
      | Some (d1, d2) \<Rightarrow> Some (take 255 (show_int d1 @ ''/'' @ show_int d2 @ ''/'' @ posix_basename fname)))"

definition sync_index :: "string \<Rightarrow> nat" where
  "sync_index buf = unat (r5hash buf AND 0xFF)"

definition add_to_sync_dir_list :: "fworld \<Rightarrow> string \<Rightarrow> fcs_state \<Rightarrow> fcs_state" where
  "add_to_sync_dir_list w fname s =
     (case sync_name fname of None \<Rightarrow> s
      | Some buf \<Rightarrow>
        if \<not> fw_mem w \<or> fcs_get_lock w \<noteq> 0 then s
        else s\<lparr>fsync_dirs := (fsync_dirs s)(sync_index buf :=
               fsync_dirs s (sync_index buf) @ [\<lparr>sd_fname = buf, sd_itime = e_now (fw_env w)\<rparr>])\<rparr>)"

fun remove_noted :: "string \<Rightarrow> t_sync_dir_file list \<Rightarrow> t_sync_dir_file list option" where
  "remove_noted buf [] = None"
| "remove_noted buf (f # fs) =
     (if buf = sd_fname f then Some fs else map_option (\<lambda>fs'. f # fs') (remove_noted buf fs))"

definition check_sync_dir_list :: "fworld \<Rightarrow> string \<Rightarrow> fcs_state \<Rightarrow> int \<times> fcs_state" where
  "check_sync_dir_list w fname s =
     (case sync_name fname of None \<Rightarrow> (-1, s)
      | Some buf \<Rightarrow>
        if fcs_get_lock w \<noteq> 0 then (-1, s)
        else case remove_noted buf (fsync_dirs s (sync_index buf)) of
          None \<Rightarrow> (-1, s)
        | Some fs \<Rightarrow> (0, s\<lparr>fsync_dirs := (fsync_dirs s)(sync_index buf := fs)\<rparr>))"

text \<open>Notes are dropped after 100 hours; a bucket is in the order of their times.\<close>

definition scan_sync_dir_list :: "fworld \<Rightarrow> fcs_state \<Rightarrow> fcs_state" where
  "scan_sync_dir_list w s =
     (if fcs_get_lock w \<noteq> 0 then s
      else s\<lparr>fsync_dirs := (\<lambda>i. if i \<le> 0xFF then dropWhile (\<lambda>f. \<not> e_now (fw_env w) - sd_itime f < 360000) (fsync_dirs s i)
                               else fsync_dirs s i)\<rparr>)"

section \<open>Listing a directory\<close>

definition sortinode :: "fileinfo \<Rightarrow> fileinfo \<Rightarrow> int" where
  "sortinode s1 s2 = (if fi_inode s2 > fi_inode s1 then 1 else 0)"

text \<open>The entry of the array for a file, if the file is to be listed.\<close>

definition dir_file :: "fworld \<Rightarrow> fcs_state \<Rightarrow> string \<Rightarrow> int \<Rightarrow> int \<Rightarrow> string \<Rightarrow> fileinfo option" where
  "dir_file w s path endtime starttime name =
     (let lw = fcs_local w s; fs = lo_fs (flocal s); file = take 255 (path @ ''/'' @ name); p = path_of file in
      if take 1 name = ''.'' then None
      else if check_file_filter name (fw_filter w) \<noteq> 0 then None
      else case sys_stat (lw_kernel lw) p fs of None \<Rightarrow> None
      | Some i \<Rightarrow>
        let st = fs_inode fs i in
        if starttime \<noteq> 0 \<and> in_ctime st < starttime then None
        else if endtime \<noteq> 0 \<and> in_ctime st > endtime then None
        else if \<not> k_grants (lw_kernel lw) S_read p then None
        else Some \<lparr>fi_inode = i, fi_size = int (length (in_data st)), fi_mode = in_mode st OR 0x8000,
               fi_mtime = in_mtime st, fi_ctime = in_ctime st - fw_task_timeout w, fi_file = file\<rparr>)"

definition dir_files :: "fworld \<Rightarrow> fcs_state \<Rightarrow> string \<Rightarrow> int \<Rightarrow> int \<Rightarrow> fileinfo list" where
  "dir_files w s path endtime starttime =
     (if \<not> fw_mem w then []
      else case lw_readdir (fw_lw w) path of None \<Rightarrow> []
      | Some es \<Rightarrow> take MAXFILE (List.map_filter (dir_file w s path endtime starttime) (map fst es)))"

definition file_task :: "fworld \<Rightarrow> fileinfo \<Rightarrow> string \<Rightarrow> fileinfo \<Rightarrow> t_task_base" where
  "file_task w f md5 next =
     (let base = zero_base\<lparr>tb_filename := fi_file f, tb_src_domain := take 15 (fw_hostname w), tb_fsize := fi_size f,
            tb_mtime := fi_mtime f, tb_ctime := fi_ctime f, tb_fmode := fi_mode f, tb_filemd5 := take 32 md5,
            tb_type := TASK_ADDFILE, tb_starttime := e_now (fw_env w)\<rparr>
      in if fi_inode f = fi_inode next then base\<lparr>tb_type := TASK_LINKFILE, tb_linkfile := fi_file next\<rparr> else base)"

text \<open>
  The second loop, \<open>n\<close> rounds: after a file whose digest fails it stays at this file, so the
  rounds left are spent on it.  The last file is compared with the memory behind it.
\<close>

fun file_tasks :: "nat \<Rightarrow> fworld \<Rightarrow> (fileinfo \<Rightarrow> string option) \<Rightarrow> fileinfo list \<Rightarrow> t_task_base list" where
  "file_tasks (Suc n) w digest (f # g # fs) =
     (case digest f of None \<Rightarrow> file_tasks n w digest (f # g # fs)
      | Some md5 \<Rightarrow> file_task w f md5 g # file_tasks n w digest (g # fs))"
| "file_tasks n w digest fs = []"

definition digest_at :: "fworld \<Rightarrow> fcs_state \<Rightarrow> fileinfo \<Rightarrow> string option" where
  "digest_at w s f =
     getfilemd5view (lw_junk (fw_lw w)) (file_for_digest (fcs_local w s) (path_of (fi_file f)) (lo_fs (flocal s)))"

definition dir_tasks :: "fworld \<Rightarrow> fcs_state \<Rightarrow> string \<Rightarrow> int \<Rightarrow> int \<Rightarrow> t_task_base list" where
  "dir_tasks w s path endtime starttime =
     (let fs = fw_sort w sortinode (dir_files w s path endtime starttime) in
      file_tasks (length fs) w (digest_at w s) (fs @ [if length fs < MAXFILE then zero_fileinfo else fw_behind w]))"

text \<open>With a buffer: the messages, up to the first that does not fit.\<close>

fun fill_buf :: "byte list list \<Rightarrow> byte list \<Rightarrow> byte list" where
  "fill_buf [] out = out"
| "fill_buf (m # ms) out = (if length m + length out \<ge> MAXSYNCBUF then out else fill_buf ms (out @ m))"

definition task_msg :: "fworld \<Rightarrow> t_task_base \<Rightarrow> byte list" where
  "task_msg w base = create_sig_msg NEWTASK_REQ TASK_SYNC_DIR (bytes_of (fw_abi w) base) (sizeof_base (fw_abi w))"

text \<open>Without: a task each; the record taken from the pool keeps what its \<open>sub\<close> held.\<close>

definition old_task :: "fworld \<Rightarrow> fcs_state \<Rightarrow> t_task_base \<Rightarrow> fcs_state" where
  "old_task w s base =
     (case fcs_get_home w s of
        (r, None, s) \<Rightarrow> s
      | (r, Some t, s) \<Rightarrow> if r \<noteq> GET_TASK_OK then s else fcs_put w t TASK_WAIT_SYNC (set_base t base s))"

definition datadir :: "fworld \<Rightarrow> string" where
  "datadir w = (case lw_conf (fw_lw w) ''vfs_fcs_datadir'' of None \<Rightarrow> ''/home/webadm/htdocs/flvdownload'' | Some d \<Rightarrow> d)"

definition data_path :: "fworld \<Rightarrow> int \<Rightarrow> int \<Rightarrow> string" where
  "data_path w d1 d2 = take 255 (datadir w @ ''/'' @ show_int d1 @ ''/'' @ show_int d2)"

definition fcs_do_sync_dir_req_sub :: "fworld \<Rightarrow> fcs_state \<Rightarrow> t_vfs_sync_task \<Rightarrow> byte list" where
  "fcs_do_sync_dir_req_sub w s task =
     fill_buf (map (task_msg w) (dir_tasks w s (data_path w (sy_d1 task) (sy_d2 task)) (sy_endtime task) (sy_starttime task))) []
       @ create_sig_msg SYNC_DIR_RSP TASK_SYNC_DIR (fw_sync_bytes w task) (fw_sync_size w)"

definition do_sub_old_task :: "fworld \<Rightarrow> fcs_state \<Rightarrow> int \<times> int \<Rightarrow> fcs_state" where
  "do_sub_old_task w s d =
     (let (d1, d2) = d;
          oval = max 0 (get_fcs_time_stamp_by_int d1 d2 (lo_stamps (flocal s)));
          oval = (if oval = 0 then get_fcs_dir_lasttime (fcs_local w s) (fw_filter w) d1 d2 + 1 else oval);
          endtime = (if self_stat (fcfg s) = ON_LINE then fw_start_time w else e_now (fw_env w))
      in foldl (old_task w) s (dir_tasks w s (data_path w d1 d2) endtime oval))"

definition init_old_task :: "fworld \<Rightarrow> fcs_state \<Rightarrow> fcs_state" where
  "init_old_task w s = foldl (do_sub_old_task w) s (List.product [0..DIR1 - 1] [0..DIR2 - 1])"

text \<open>One round of the thread: \<open>buf\<close> says whether its \<open>malloc\<close> succeeds.\<close>

definition fcs_sync_dir_step :: "fworld \<Rightarrow> bool \<Rightarrow> fcs_state \<Rightarrow> fcs_state" where
  "fcs_sync_dir_step w buf s =
     (let s = (if self_stat (fcfg s) = UNKOWN_STAT then set_fcs_stat ON_LINE (init_old_task w s) else s) in
      case vfs_get_task (fw_env w) TASK_Q_SYNC_DIR_REQ s of
        (r, None, s) \<Rightarrow> s
      | (r, Some t, s) \<Rightarrow>
        if r \<noteq> GET_TASK_OK then s
        else if \<not> buf then
          fcs_put w t TASK_Q_SYNC_DIR_RSP
            (set_base t ((tbase s t)\<lparr>tb_overstatus := OVER_MALLOC\<rparr>) (s\<lparr>frsp := (frsp s)(t := None)\<rparr>))
        else
          let out = fcs_do_sync_dir_req_sub w s (freq s t)
          in fcs_put w t TASK_Q_SYNC_DIR_RSP
               (set_base t ((tbase s t)\<lparr>tb_fsize := int (length out)\<rparr>) (s\<lparr>frsp := (frsp s)(t := Some out)\<rparr>)))"

end
