(* ===== verification/FcsTask.thy ===== *)
theory FcsTask
  imports FcsBase PoolClient
begin

text \<open>
  The source machine, second part: finished and waiting tasks, the directories it has synchronised
  (\<open>vfs_sig_base.c\<close>), messages (\<open>vfs_sig_sub.c\<close>), changes of its files
  (\<open>vfs_sig_inotify.c\<close>) and the periodic work (\<open>vfs_sig.c\<close>).
\<close>

section \<open>Finished tasks and answers\<close>

text \<open>A task received from a storage machine sets the stamp of its directory.\<close>

definition fcs_fin_one :: "fworld \<Rightarrow> ptr \<Rightarrow> fcs_state \<Rightarrow> fcs_state" where
  "fcs_fin_one w t s =
     (let e = fw_env w;
          s = (if ts_need_sync (tsub s t) = TASK_SYNC_ISDIR then
                 (let s = set_base t ((tbase s t)\<lparr>tb_ctime := e_now e\<rparr>) s;
                      s = set_fstamps (snd (set_fcs_time_stamp e (tbase s t) (lo_stamps (flocal s)))) s;
                      s = s\<lparr>ftotal_synced := ftotal_synced s + 1\<rparr>
                  in snd (snd (get_task_from_alltask e ROLE_FCS (tbase s t) (tsub s t) s)))
               else s)
      in fcs_put w t TASK_CLEAN s)"

text \<open>An answer to a request for a directory; the buffer is kept when its peer has gone.\<close>

definition fcs_rsp_one :: "fworld \<Rightarrow> ptr \<Rightarrow> fcs_state \<Rightarrow> fcs_state" where
  "fcs_rsp_one w t s =
     fcs_put w t TASK_HOME
       (case fcs_find_ip_stat (tb_dstip (tbase s t)) s of
          None \<Rightarrow> s
        | Some fd \<Rightarrow>
          if tb_overstatus (tbase s t) = OVER_MALLOC then
            f_send fd (create_sig_msg SYNC_DIR_RSP TASK_SYNC_DIR (fw_sync_bytes w (freq s t)) (fw_sync_size w)) s
          else case frsp s t of
            None \<Rightarrow> s
          | Some o' \<Rightarrow> (f_send fd (take (nat (tb_fsize (tbase s t))) o' ) s)\<lparr>frsp := (frsp s)(t := None)\<rparr>)"

definition fcs_do_fin_task :: "fworld \<Rightarrow> fcs_state \<Rightarrow> fcs_state" where
  "fcs_do_fin_task w s =
     drain_all (fw_env w) TASK_Q_SYNC_DIR_RSP (fcs_rsp_one w) (drain_all (fw_env w) TASK_FIN (fcs_fin_one w) s)"

section \<open>Waiting tasks\<close>

text \<open>The tracker with the fewest tasks; of several the last in the list.\<close>

definition tracker_step :: "fcs_state \<Rightarrow> (ptr \<times> int) option \<Rightarrow> ptr \<Rightarrow> (ptr \<times> int) option" where
  "tracker_step s acc fd =
     (let n = fp_taskcount (fpeers s fd) in
      if fp_role (fpeers s fd) \<noteq> ROLE_TRACKER then acc
      else case acc of
        None \<Rightarrow> Some (fd, n)
      | Some (use, mintask) \<Rightarrow> if n \<le> mintask then Some (fd, n) else acc)"

definition least_tracker :: "fcs_state \<Rightarrow> ptr option" where
  "least_tracker s = map_option fst (foldl (tracker_step s) None (ftrackers s))"

definition send_to_tracker :: "fworld \<Rightarrow> ptr \<Rightarrow> fcs_state \<Rightarrow> fcs_state" where
  "send_to_tracker w t s =
     (let e = fw_env w; s = s\<lparr>userl := lf_del t (userl s)\<rparr> in
      case least_tracker s of
        None \<Rightarrow> fcs_put w t TASK_WAIT_SYNC_IP s
      | Some fd \<Rightarrow>
        let s = f_send fd (create_sig_msg NEWTASK_REQ TASK_DISPATCH (bytes_of (fw_abi w) (tbase s t)) (sizeof_base (fw_abi w))) s;
            s = set_fpeer fd ((fpeers s fd)\<lparr>fp_sock_stat := SEND_LAST\<rparr>) s;
            s = fcs_put w t TASK_RUN s;
            s = snd (add_task_to_alltask e ROLE_FCS t s);
            s = s\<lparr>userl := lf_add_head t fd (userl s)\<rparr>
        in set_fpeer fd ((fpeers s fd)\<lparr>fp_taskcount := fp_taskcount (fpeers s fd) + 1\<rparr>) s)"

text \<open>The configured number is one more than the tasks sent at once.\<close>

definition fcs_check_task :: "fworld \<Rightarrow> fcs_state \<Rightarrow> fcs_state" where
  "fcs_check_task w s =
     drain (fw_max_task w - 1) (fw_env w) TASK_WAIT_SYNC (send_to_tracker w)
       (drain_all (fw_env w) TASK_WAIT_SYNC_IP (\<lambda>t s. fcs_put w t TASK_WAIT_SYNC s) s)"

section \<open>Directories to fetch\<close>

definition fcs_do_sub_sync :: "fworld \<Rightarrow> t_vfs_sync_task \<Rightarrow> ptr \<Rightarrow> fcs_state \<Rightarrow> fcs_state" where
  "fcs_do_sub_sync w y fd s =
     (f_send fd (create_sig_msg SYNC_DIR_REQ TASK_SYNC (fw_sync_bytes w y) (fw_sync_size w)) s)\<lparr>fflag := 1\<rparr>"

text \<open>Every connected machine that serves the directory is asked.\<close>

definition fcs_do_active_sync :: "fworld \<Rightarrow> fcs_state \<Rightarrow> fcs_state" where
  "fcs_do_active_sync w s =
     (let cur = e_now (fw_env w) in
      if cur - flast_sync s < 900 then s
      else
        let s = s\<lparr>flast_sync := cur\<rparr> in
        if get_task_count TASK_WAIT s > 4096 then s
        else case fsync_list s of
          [] \<Rightarrow> s\<lparr>fflag := 2\<rparr>
        | y # ys \<Rightarrow>
          (case get_cs_info (fw_env w) (sy_d1 y) (sy_d2 y) (fcfg s) of
             None \<Rightarrow> s
           | Some cs \<Rightarrow>
             let fds = List.map_filter (\<lambda>j. fcs_find_ip_stat (cd_ip cs j) s) [0..<cd_index cs]
             in if fds = [] then s
                else foldl (\<lambda>s fd. fcs_do_sub_sync w y fd s) (s\<lparr>fsync_list := ys\<rparr>) fds))"

definition add_2_sync_list :: "fworld \<Rightarrow> int \<Rightarrow> int \<Rightarrow> fcs_state \<Rightarrow> fcs_state" where
  "add_2_sync_list w d1 d2 s =
     (if \<not> fw_mem w then s
      else
        let y = zero_sync\<lparr>sy_starttime := 0, sy_endtime := fstart s, sy_d1 := d1, sy_d2 := d2,
                  sy_type := TASK_ADDFILE, sy_domain := take 63 (fw_hostname w)\<rparr>;
            s = s\<lparr>fsync_list := y # fsync_list s\<rparr>
        in set_fstamps (snd (set_fcs_time_stamp_by_int (fw_env w) d1 d2 (e_now (fw_env w)) (lo_stamps (flocal s)))) s)"

definition sync_line :: "fworld \<Rightarrow> fcs_state \<Rightarrow> string \<Rightarrow> fcs_state" where
  "sync_line w s line =
     (case strchr (cstr line) (CHR ''/'') of None \<Rightarrow> s
      | Some k \<Rightarrow> add_2_sync_list w (atoi (cstr line)) (atoi (drop (Suc k) (cstr line))) s)"

text \<open>A file of the directory \<open>indir\<close>: its lines are taken up and the file is moved away.\<close>

definition sync_file :: "fworld \<Rightarrow> string \<Rightarrow> fcs_state \<Rightarrow> string \<Rightarrow> fcs_state" where
  "sync_file w path s name =
     (let lw = fcs_local w s; file = path_of (take 255 (path @ ''/'' @ name)) in
      if take 1 name = ''.'' then s
      else case file_for_digest lw file (lo_fs (flocal s)) of None \<Rightarrow> s
      | Some d \<Rightarrow>
        let s = foldl (sync_line w) s (fgets_all 15 (bytes_str d));
            bk = path_of (take 255 (fw_path w @ ''/bkdir/'' @ name));
            (ok, fs) = sys_rename (lw_kernel lw) file bk (lo_fs (flocal s))
        in set_ffs (if ok then fs else snd (sys_unlink (lw_kernel lw) file fs)) s)"

definition fcs_init_sync_list :: "fworld \<Rightarrow> fcs_state \<Rightarrow> fcs_state" where
  "fcs_init_sync_list w s =
     (let path = take 255 (fw_path w @ ''/indir'') in
      case lw_readdir (fw_lw w) path of None \<Rightarrow> s
      | Some es \<Rightarrow> foldl (sync_file w path) s (map fst es))"

section \<open>vfs\_sig\_sub.c\<close>

definition fcs_active_send :: "fworld \<Rightarrow> ptr \<Rightarrow> byte \<Rightarrow> byte \<Rightarrow> byte list \<Rightarrow> u16 \<Rightarrow> fcs_state \<Rightarrow> fcs_state" where
  "fcs_active_send w fd cmdid status b bodylen s =
     f_send fd (create_sig_msg cmdid status b bodylen)
       (set_fpeer fd ((fpeers s fd)\<lparr>fp_hbtime := e_now (fw_env w)\<rparr>) s)"

definition fcs_do_sync_del_req :: "fworld \<Rightarrow> ptr \<Rightarrow> byte list \<Rightarrow> fcs_state \<Rightarrow> fcs_state" where
  "fcs_do_sync_del_req w fd b s =
     (let lw = fcs_local w s; k = lw_kernel lw; dd = lw_conf lw ''vfs_deldir''; fs = lo_fs (flocal s);
          y = fw_sync_of w b;
          base = zero_base\<lparr>tb_src_domain := take 15 (sy_domain y), tb_type := TASK_DELFILE\<rparr>;
          (next, base) = find_last_index k ROLE_FCS dd fs base (sy_starttime y);
          msgs = (if next = -1 then []
                  else del_msgs (Suc (log_length lw base fs)) (task_msg w)
                    (\<lambda>n. get_from_del_file k ROLE_FCS dd fs base n (e_now (fw_env w))) base next);
          s = foldl (\<lambda>s m. f_send fd m s) s msgs
      in f_send fd (create_sig_msg SYNC_DEL_RSP TASK_SYNC_DIR b (fw_sync_size w)) s)"

definition fcs_do_sync_dir_req :: "fworld \<Rightarrow> ptr \<Rightarrow> byte list \<Rightarrow> fcs_state \<Rightarrow> fcs_state" where
  "fcs_do_sync_dir_req w fd b s =
     (case fcs_get_home w s of
        (r, None, s) \<Rightarrow> f_send fd (create_sig_msg SYNC_DIR_RSP TASK_SYNC_DIR b (fw_sync_size w)) s
      | (r, Some t, s) \<Rightarrow>
        if r \<noteq> GET_TASK_OK then f_send fd (create_sig_msg SYNC_DIR_RSP TASK_SYNC_DIR b (fw_sync_size w)) s
        else
          let y = fw_sync_of w b;
              s = set_base t (zero_base\<lparr>tb_filename := sy_domain y, tb_dstip := fw_peerip w fd\<rparr>)
                    (s\<lparr>freq := (freq s)(t := y)\<rparr>)
          in fcs_put w t TASK_Q_SYNC_DIR_REQ s)"

text \<open>A file a storage machine offers back to this machine.\<close>

definition queue_newtask :: "fworld \<Rightarrow> ptr \<Rightarrow> t_task_base \<Rightarrow> t_task_sub \<Rightarrow> fcs_state \<Rightarrow> fcs_state" where
  "queue_newtask w t base sub s =
     (let s = set_task t (zero_task\<lparr>ti_base := base\<lparr>tb_overstatus := OVER_UNKNOWN\<rparr>, ti_sub := sub\<rparr>) s;
          s = fcs_put w t TASK_WAIT (s\<lparr>ftotal_sync := ftotal_sync s + 1\<rparr>)
      in add_to_sync_dir_list w (tb_filename base) (snd (add_task_to_alltask (fw_env w) ROLE_FCS t s)))"

definition fcs_do_newtask :: "fworld \<Rightarrow> ptr \<Rightarrow> byte list \<Rightarrow> fcs_state \<Rightarrow> int \<times> fcs_state" where
  "fcs_do_newtask w fd b s =
     (let e = fw_env w; peer = fpeers s fd;
          base = (base_of (fw_abi w) b)\<lparr>tb_starttime := e_now e, tb_dstip := str2ip (ii_s_ip (fw_self w))\<rparr>;
          sub = zero_sub\<lparr>ts_processlen := tb_fsize base, ts_starttime := e_now e, ts_lasttime := e_now e,
                  ts_oper_type := OPER_GET_REQ\<rparr>
      in if fp_role peer \<noteq> ROLE_CS \<or> tb_type base = TASK_DELFILE then (-1, s)
         else
           let (ret, base, fs) = check_localfile_md5 (fcs_local w s) base VIDEOFILE (lo_fs (flocal s));
               s = set_ffs fs s
           in if ret = LOCALFILE_OK then (0, s)
              else
                let sub = sub\<lparr>ts_need_sync := TASK_SYNC_ISDIR, ts_peerip := ip2str (fp_ip peer)\<rparr> in
                if check_task_from_alltask e ROLE_FCS base sub s = 0 then (0, s)
                else case fcs_get_home w s of
                  (r, None, s) \<Rightarrow> (-1, s)
                | (r, Some t, s) \<Rightarrow>
                  if r \<noteq> GET_TASK_OK then (-1, s)
                  else
                    (0, queue_newtask w t base sub s))"

definition check_count_one_day :: "fworld \<Rightarrow> fcs_state \<Rightarrow> int \<times> fcs_state" where
  "check_count_one_day w s =
     (let now = e_now (fw_env w); s = (if fday_last s = 0 then s\<lparr>fday_last := now\<rparr> else s) in
      if fday_count s < fw_dir_count w then (0, s\<lparr>fday_count := fday_count s + 1\<rparr>)
      else if now - fday_last s \<ge> 86400 then (0, s\<lparr>fday_last := now, fday_count := 1\<rparr>)
      else (-1, s))"

text \<open>A tracker's answer: the task is over, whatever the answer.\<close>

definition task_answered :: "fworld \<Rightarrow> ptr \<Rightarrow> byte \<Rightarrow> t_task_base \<Rightarrow> fcs_state \<Rightarrow> fcs_state" where
  "task_answered w fd status base s =
     (let e = fw_env w in
      case get_task_from_alltask e ROLE_FCS base zero_sub s of
        (r, None, s) \<Rightarrow> s
      | (r, Some t, s) \<Rightarrow>
        if r \<noteq> 0 then s
        else
          let s = (if tb_type base = TASK_ADDFILE
                   then set_fstamps (snd (set_fcs_time_stamp e (tbase s t) (lo_stamps (flocal s)))) s else s);
              s = set_base t ((tbase s t)\<lparr>tb_overstatus := status\<rparr>) s;
              s = fcs_put w t TASK_CLEAN (s\<lparr>userl := lf_del t (userl s)\<rparr>)
          in set_fpeer fd ((fpeers s fd)\<lparr>fp_taskcount := max 0 (fp_taskcount (fpeers s fd) - 1)\<rparr>) s)"

definition fcs_do_req :: "fworld \<Rightarrow> ptr \<Rightarrow> t_vfs_sig_head \<Rightarrow> byte list \<Rightarrow> fcs_state \<Rightarrow> int \<times> fcs_state" where
  "fcs_do_req w fd h b s =
     (let e = fw_env w;
          s = set_fpeer fd ((fpeers s fd)\<lparr>fp_hbtime := e_now e\<rparr>) s;
          cmd = h_cmdid h;
          me = text_bytes (ii_sip (fw_self w));
          busy = (\<lambda>s. set_fpeer fd ((fpeers s fd)\<lparr>fp_sock_stat := SEND_LAST\<rparr>) s)
      in
      if cmd = HEARTBEAT_REQ then
        (let s = busy (f_send fd (create_sig_msg HEARTBEAT_RSP (h_status h) [stat_byte (self_stat (fcfg s))] 1) s)
         in (RECV_SEND, if h_bodylen h \<noteq> 1 then s else set_fpeer fd ((fpeers s fd)\<lparr>fp_server_stat := b ! 0\<rparr>) s))
      else if cmd = ADDONE_REQ then
        (let (r, s) = fcs_init_cfg_connect w (c_string b) fd s in
         if r \<noteq> 0 then (RECV_CLOSE, s)
         else (RECV_SEND, busy (f_send fd (create_sig_msg ADDONE_RSP (h_status h) me (word_of_nat (length me))) s)))
      else if cmd = NEWTASK_REQ then
        (RECV_ADD_EPOLLIN, if h_bodylen h \<noteq> sizeof_base (fw_abi w) then s else snd (fcs_do_newtask w fd b s))
      else if cmd = NEWTASK_RSP then
        (RECV_ADD_EPOLLIN, if h_bodylen h \<noteq> sizeof_base (fw_abi w) then s
           else task_answered w fd (h_status h) (base_of (fw_abi w) b) s)
      else if cmd = SYNC_DIR_REQ then
        (if h_bodylen h \<noteq> fw_sync_size w then (RECV_ADD_EPOLLIN, s)
         else let (r, s) = check_count_one_day w s in
           if r \<noteq> 0 then (RECV_CLOSE, s) else (RECV_ADD_EPOLLOUT, fcs_do_sync_dir_req w fd b s))
      else if cmd = SYNC_DIR_RSP then (RECV_ADD_EPOLLIN, s)
      else if cmd = SYNC_DEL_REQ then
        (if h_bodylen h \<noteq> fw_sync_size w then (RECV_ADD_EPOLLIN, s)
         else (RECV_ADD_EPOLLOUT, fcs_do_sync_del_req w fd b s))
      else (RECV_ADD_EPOLLIN, s))"

definition fcs_svc_recv :: "fworld \<Rightarrow> ptr \<Rightarrow> mybuff \<Rightarrow> fcs_state \<Rightarrow> (int \<times> mybuff \<times> fcs_state) option" where
  "fcs_svc_recv w fd m s = Conn.svc_recv (fcs_do_req w fd) m (fcs_touch w fd s)"

section \<open>Changes of files\<close>

text \<open>
  What the kernel shows of a directory: no answer of \<open>stat\<close>, not a directory, or a directory
  with the number of its watch and, where it can be opened, its entries.
\<close>

datatype seen = NoStat | NotDir | IsDir int "(string \<times> seen) list option"

definition MAX_WATCH :: int where "MAX_WATCH = 10240"

fun add_watch :: "string \<Rightarrow> seen \<Rightarrow> (int \<Rightarrow> string) \<Rightarrow> bool \<times> (int \<Rightarrow> string)"
  and add_watches :: "string \<Rightarrow> (string \<times> seen) list \<Rightarrow> (int \<Rightarrow> string) \<Rightarrow> bool \<times> (int \<Rightarrow> string)" where
  "add_watch indir (IsDir wd es) dirs =
     (if wd = -1 \<or> wd \<ge> MAX_WATCH then (False, dirs)
      else let dirs = dirs(wd := take 255 indir) in
        case es of None \<Rightarrow> (False, dirs) | Some es \<Rightarrow> add_watches indir es dirs)"
| "add_watch indir sn dirs = (True, dirs)"
| "add_watches indir [] dirs = (True, dirs)"
| "add_watches indir ((name, sn) # es) dirs =
     (if take 1 name = ''.'' then add_watches indir es dirs
      else let (ok, dirs) = add_watch (take 255 (indir @ ''/'' @ name)) sn dirs in
        if ok then add_watches indir es dirs else (False, dirs))"

definition IN_CLOSE_WRITE :: u32 where "IN_CLOSE_WRITE = 0x08"
definition IN_MOVED_FROM :: u32 where "IN_MOVED_FROM = 0x40"
definition IN_MOVED_TO :: u32 where "IN_MOVED_TO = 0x80"
definition IN_DELETE :: u32 where "IN_DELETE = 0x200"

text \<open>The record for a changed file; \<open>None\<close> when a file that was written is gone again.\<close>

definition change_of :: "fworld \<Rightarrow> fcs_state \<Rightarrow> string \<Rightarrow> u32 \<Rightarrow> (t_task_base \<times> fcs_state) option" where
  "change_of w s path msk =
     (let e = fw_env w; lw = fcs_local w s;
          base = zero_base\<lparr>tb_filename := take 255 path, tb_src_domain := take 15 (fw_hostname w)\<rparr>;
          added = (if msk AND IN_CLOSE_WRITE \<noteq> 0 \<or> msk AND IN_MOVED_TO \<noteq> 0 then
                     (let (ret, base) = get_localfile_stat lw base (lo_fs (flocal s)) in
                      if ret \<noteq> LOCALFILE_OK then None else Some (base\<lparr>tb_type := TASK_ADDFILE\<rparr>))
                   else Some base)
      in case added of None \<Rightarrow> None
         | Some base \<Rightarrow>
           if msk AND IN_DELETE \<noteq> 0 \<or> msk AND IN_MOVED_FROM \<noteq> 0 then
             (let base = base\<lparr>tb_mtime := e_now e, tb_ctime := e_now e, tb_type := TASK_DELFILE\<rparr>;
                  (r, fs) = add_2_del_file (lw_kernel lw) e ROLE_FCS (lw_conf lw ''vfs_deldir'') base (lo_fs (flocal s))
              in Some (base, set_ffs fs s))
           else Some (base, s))"

definition inotify_event_handler :: "fworld \<Rightarrow> int \<Rightarrow> string \<Rightarrow> u32 \<Rightarrow> fcs_state \<Rightarrow> fcs_state" where
  "inotify_event_handler w wd filename msk s =
     (let path = fwatch s wd @ ''/'' @ filename in
      if take 1 filename = ''.'' then s
      else if check_file_filter filename (fw_filter w) \<noteq> 0 then s
      else if self_stat (fcfg s) = OFF_LINE then s
      else
        let (r, s) = check_sync_dir_list w path s in
        if r = 0 then s
        else case change_of w s path msk of None \<Rightarrow> s
        | Some (base, s) \<Rightarrow>
          (case fcs_get_home w s of
             (r, None, s) \<Rightarrow> s
           | (r, Some t, s) \<Rightarrow>
             if r \<noteq> GET_TASK_OK then s
             else fcs_put w t TASK_WAIT_SYNC
                    (set_task t (zero_task\<lparr>ti_base := base\<lparr>tb_starttime := e_now (fw_env w)\<rparr>\<rparr>) s)))"

text \<open>The thread: the watches at its start, then the events as they come.\<close>

definition inotify_start :: "fworld \<Rightarrow> seen \<Rightarrow> fcs_state \<Rightarrow> bool \<times> fcs_state" where
  "inotify_start w sn s =
     (let flvdir = (case lw_conf (fw_lw w) ''vfs_fcs_datadir'' of None \<Rightarrow> ''/flvdata'' | Some d \<Rightarrow> d);
          (ok, dirs) = add_watch flvdir sn (fwatch s)
      in (ok, s\<lparr>fwatch := dirs\<rparr>))"

definition inotify_events :: "fworld \<Rightarrow> (int \<times> string \<times> u32) list \<Rightarrow> fcs_state \<Rightarrow> fcs_state" where
  "inotify_events w evs s = foldl (\<lambda>s (wd, name, msk). inotify_event_handler w wd name msk s) s evs"

section \<open>Periodic work\<close>

primrec fcs_timeout_peers :: "fworld \<Rightarrow> ptr list \<Rightarrow> fcs_state \<Rightarrow> fcs_state" where
  "fcs_timeout_peers w [] s = s"
| "fcs_timeout_peers w (fd # fds) s =
     (let idle = e_now (fw_env w) - fp_hbtime (fpeers s fd) in
      if idle < fw_timeout w then s
      else fcs_timeout_peers w fds (if idle > fw_timeout w * 10 then fcs_do_close w fd s else s))"

definition fcs_svc_timeout :: "fworld \<Rightarrow> fcs_state \<Rightarrow> fcs_state" where
  "fcs_svc_timeout w s =
     (let now = e_now (fw_env w);
          s = fcs_check_task w (fcs_timeout_peers w (factive s) s);
          s = fcs_do_active_sync w (fcs_init_sync_list w (fcs_do_fin_task w s));
          s = scan_sync_dir_list w s
      in if now - flast_scan s > 1800
         then do_timeout_task (fw_env w) ROLE_FCS (fw_task_timeout w) (s\<lparr>flast_scan := now\<rparr>) else s)"

end
