(* ===== verification/FcsRun.thy ===== *)
theory FcsRun
  imports FcsTask TrackerRun
begin

text \<open>
  The source machine at work: its events as a step relation and the invariant of its tasks.  A
  task a tracker works on is on \<open>TASK_RUN\<close> and on one tracker's list, a task is on at most one
  queue, and no step takes a task off the queues for good.  Tasks are moved by answers of
  peers without \<open>vfs_get_task\<close>, so no counter is relied on.
\<close>

interpretation fp: pool_client "\<lambda>_. False" fmem "\<lambda>ms s. s\<lparr>fmem := ms\<rparr>"
  by unfold_locales simp_all

section \<open>The invariant\<close>

definition fcs_inv :: "fcs_state \<Rightarrow> bool" where
  "fcs_inv s \<longleftrightarrow> fp.inv s \<and> lf_wf (userl s) \<and>
     (\<forall>fd t. t \<in> set (userl s fd) \<longrightarrow> t \<in> set (vfstask s TASK_RUN)) \<and>
     (\<forall>i t. t \<in> set (alltask s i) \<longrightarrow> t \<notin> set (blocks (fmem s)))"

definition fcs_keeps :: "fcs_state \<Rightarrow> fcs_state \<Rightarrow> bool" where
  "fcs_keeps s s' \<longleftrightarrow> fcs_inv s' \<and> (\<forall>u. placed u s \<longrightarrow> placed u s')"

lemma fcs_keeps_trans: "fcs_keeps s s1 \<Longrightarrow> (fcs_inv s1 \<Longrightarrow> fcs_keeps s1 s2) \<Longrightarrow> fcs_keeps s s2"
  by (auto simp: fcs_keeps_def)

definition fcs_same :: "fcs_state \<Rightarrow> fcs_state \<Rightarrow> bool" where
  "fcs_same s s' \<longleftrightarrow> fp.view s' = fp.view s \<and> userl s' = userl s \<and> alltask s' = alltask s"

lemma fcs_same_refl [simp]: "fcs_same s s"
  by (simp add: fcs_same_def)

lemma fcs_same_trans: "fcs_same s s1 \<Longrightarrow> fcs_same s1 s2 \<Longrightarrow> fcs_same s s2"
  by (simp add: fcs_same_def)

lemma view_parts: "fp.view s' = fp.view s \<Longrightarrow> vfstask s' = vfstask s \<and> fmem s' = fmem s"
  by (simp add: fp.view_def)

lemma fcs_same_inv: "fcs_inv s \<Longrightarrow> fcs_same s s' \<Longrightarrow> fcs_inv s'"
  using fp.inv_same [of s s'] view_parts [of s' s] by (simp add: fcs_inv_def fcs_same_def)

lemma fcs_same_keeps: "fcs_inv s \<Longrightarrow> fcs_same s s' \<Longrightarrow> fcs_keeps s s'"
  using fcs_same_inv [of s s'] fp.placed_view [of s' s] by (simp add: fcs_keeps_def fcs_same_def)

lemma fcs_keeps_refl: "fcs_inv s \<Longrightarrow> fcs_keeps s s"
  by (simp add: fcs_keeps_def)

lemma fcs_same_held: "fcs_same s s' \<Longrightarrow> fp.held t s' = fp.held t s"
  unfolding fcs_same_def by (rule fp.held_view) simp

lemma fcs_same_simps [simp]:
  "fcs_same s (set_fpeer fd p s')  = fcs_same s s'" "fcs_same s (f_send fd bs s')  = fcs_same s s'"
  "fcs_same s (set_fcs_stat st s') = fcs_same s s'" "fcs_same s (set_fstamps f s') = fcs_same s s'"
  "fcs_same s (set_ffs fs s') = fcs_same s s'"
  "fcs_same s (s'\<lparr>fclosed := x1\<rparr>) = fcs_same s s'" "fcs_same s (s'\<lparr>factive := x2\<rparr>) = fcs_same s s'"
  "fcs_same s (s'\<lparr>ftrackers := x2\<rparr>) = fcs_same s s'" "fcs_same s (s'\<lparr>fcfg_list := x3\<rparr>) = fcs_same s s'"
  "fcs_same s (s'\<lparr>fonline := x3\<rparr>) = fcs_same s s'" "fcs_same s (s'\<lparr>factive := x2, fonline := x3\<rparr>) = fcs_same s s'"
  "fcs_same s (s'\<lparr>factive := x2, fonline := x3, ftrackers := x4, fcfg_list := x5\<rparr>) = fcs_same s s'"
  "fcs_same s (s'\<lparr>fuser := x6\<rparr>) = fcs_same s s'" "fcs_same s (s'\<lparr>fsync_dirs := x7\<rparr>) = fcs_same s s'"
  "fcs_same s (s'\<lparr>fsync_list := x8\<rparr>) = fcs_same s s'" "fcs_same s (s'\<lparr>fflag := n\<rparr>) = fcs_same s s'"
  "fcs_same s (s'\<lparr>ftotal_sync := n\<rparr>) = fcs_same s s'" "fcs_same s (s'\<lparr>ftotal_synced := n\<rparr>) = fcs_same s s'"
  "fcs_same s (s'\<lparr>flast_sync := n\<rparr>) = fcs_same s s'" "fcs_same s (s'\<lparr>flast_scan := n\<rparr>) = fcs_same s s'"
  "fcs_same s (s'\<lparr>fday_last := n\<rparr>) = fcs_same s s'" "fcs_same s (s'\<lparr>fday_count := n\<rparr>) = fcs_same s s'"
  "fcs_same s (s'\<lparr>fday_last := n, fday_count := n'\<rparr>) = fcs_same s s'"
  "fcs_same s (s'\<lparr>fwatch := x9\<rparr>) = fcs_same s s'" "fcs_same s (s'\<lparr>freq := x10\<rparr>) = fcs_same s s'"
  "fcs_same s (s'\<lparr>frsp := x11\<rparr>) = fcs_same s s'" "fcs_same s (s'\<lparr>flocal := lo\<rparr>) = fcs_same s s'"
  by (simp_all add: fcs_same_def fp.view_def set_fpeer_def f_send_def set_fcs_stat_def set_fstamps_def set_ffs_def)

lemma fcs_same_task [simp]:
  "fcs_same s (set_task t ti s') = fcs_same s s'" "fcs_same s (set_base t b s') = fcs_same s s'"
  by (simp_all add: fcs_same_def)

section \<open>Moving a task\<close>

lemma held_no_tracker: "fcs_inv s \<Longrightarrow> fp.held t s \<Longrightarrow> t \<notin> set (userl s fd)"
  unfolding fcs_inv_def fp.held_def lf_off_def by blast

lemma fcs_put_frame [simp]:
  "userl (fcs_put w t q s) = userl s" "alltask (fcs_put w t q s) = alltask s" "fmem (fcs_put w t q s) = fmem s"
  by (simp_all add: fcs_put_def vfs_set_task_def set_status_def)

lemma fcs_put_queues:
  "unlocked (fw_env w) \<Longrightarrow> valid_status q \<Longrightarrow> vfstask (fcs_put w t q s) = lf_add_tail t q (lf_del t (vfstask s))"
  by (simp add: fcs_put_def vfs_set_task_def unlocked_def)

lemma fcs_put_keeps:
  assumes inv: "fcs_inv s" and u: "unlocked (fw_env w)" and v: "valid_status q" and t: "t \<notin> set (blocks (fmem s))"
    and ul: "q = TASK_RUN \<or> (\<forall>fd. t \<notin> set (userl s fd))"
  shows "fcs_keeps s (fcs_put w t q s)" and "placed t (fcs_put w t q s)"
proof -
  have l: "fp.loose t s" using t by (simp add: fp.loose_def)
  have "fp.inv (fcs_put w t q s)" using fp.put_loose(1) [OF _ l] inv by (simp add: fcs_inv_def fcs_put_def)
  moreover have "x \<in> set (vfstask (fcs_put w t q s) TASK_RUN)" if "x \<in> set (userl s fd)" for x fd
    using that ul inv unfolding fcs_put_queues [OF u v] by (auto simp: fcs_inv_def)
  ultimately have "fcs_inv (fcs_put w t q s)" using inv by (simp add: fcs_inv_def)
  then show "fcs_keeps s (fcs_put w t q s)"
    using fp.put_placed(2) [OF u v] unfolding fcs_keeps_def fcs_put_def by blast
  show "placed t (fcs_put w t q s)"
    using fp.put_placed(1) [OF u v] unfolding placed_def fcs_put_def by blast
qed

text \<open>What an operation does with a task it holds.\<close>

definition fcs_works :: "ptr \<Rightarrow> fcs_state \<Rightarrow> fcs_state \<Rightarrow> bool" where
  "fcs_works t s s' \<longleftrightarrow> fcs_keeps s s' \<and> placed t s'"

lemma put_works:
  assumes "fcs_inv s" and "unlocked (fw_env w)" and "valid_status q" and "fp.held t s" and "fcs_same s s1"
  shows "fcs_works t s (fcs_put w t q s1)"
proof -
  have i: "fcs_inv s1" "fp.held t s1" using fcs_same_inv [OF assms(1,5)] fcs_same_held [OF assms(5)] assms(4) by auto
  have "t \<notin> set (blocks (fmem s1))" using i(2) by (simp add: fp.held_def)
  note k = fcs_put_keeps [OF i(1) assms(2,3) this] held_no_tracker [OF i]
  show ?thesis
    unfolding fcs_works_def using fcs_keeps_trans [OF fcs_same_keeps [OF assms(1,5)]] k by blast
qed

lemma works_then: "fcs_works t s s1 \<Longrightarrow> (fcs_inv s1 \<Longrightarrow> fcs_keeps s1 s2) \<Longrightarrow> fcs_works t s s2"
  unfolding fcs_works_def fcs_keeps_def by blast

lemma works_same: "fcs_works t s s1 \<Longrightarrow> fcs_same s1 s2 \<Longrightarrow> fcs_works t s s2"
  using works_then fcs_same_keeps by blast

text \<open>Taking a task off a tracker's list or out of the table.\<close>

lemma del_user_keeps:
  assumes "fcs_inv s"
  shows "fcs_keeps s (s\<lparr>userl := lf_del t (userl s)\<rparr>)"
proof -
  have "fp.view (s\<lparr>userl := lf_del t (userl s)\<rparr>) = fp.view s" by (simp add: fp.view_def)
  then show ?thesis
    using assms fp.inv_same [of s "s\<lparr>userl := lf_del t (userl s)\<rparr>"]
    by (auto simp: fcs_keeps_def fcs_inv_def placed_def)
qed

lemma clear_user_keeps:
  assumes "fcs_inv s"
  shows "fcs_keeps s (s\<lparr>userl := (userl s)(fd := [])\<rparr>)"
proof -
  let ?s = "s\<lparr>userl := (userl s)(fd := [])\<rparr>"
  have "fp.view ?s = fp.view s" by (simp add: fp.view_def)
  moreover have "lf_wf ((userl s)(fd := []))" using assms by (simp add: fcs_inv_def lf_wf_def)
  ultimately show ?thesis
    using assms fp.inv_same [of s ?s] by (auto simp: fcs_keeps_def fcs_inv_def placed_def)
qed

lemma add_alltask_keeps:
  assumes inv: "fcs_inv s" and t: "t \<notin> set (blocks (fmem s))"
  shows "fcs_keeps s (snd (add_task_to_alltask e role t s))"
proof -
  have v: "fp.view (snd (add_task_to_alltask e role t s)) = fp.view s"
    by (simp add: add_task_to_alltask_def Let_def fp.view_def)
  have "userl (snd (add_task_to_alltask e role t s)) = userl s" by (simp add: add_task_to_alltask_def Let_def)
  moreover have "x \<in> set (alltask (snd (add_task_to_alltask e role t s)) i) \<Longrightarrow> x \<notin> set (blocks (fmem s))" for x i
    using inv t by (auto simp: add_task_to_alltask_def Let_def fcs_inv_def split: if_splits)
  ultimately show ?thesis
    using inv fp.inv_same [OF _ v] view_parts [OF v] by (auto simp: fcs_keeps_def fcs_inv_def placed_def)
qed

lemma get_alltask_keeps:
  assumes inv: "fcs_inv s" and g: "get_task_from_alltask e role base sub s = (r, ot, s1)"
  shows "fcs_keeps s s1" and "ot = Some t \<Longrightarrow> t \<notin> set (blocks (fmem s1))" and "userl s1 = userl s"
    and "r = 0 \<longleftrightarrow> ot \<noteq> None"
proof -
  have v: "fp.view s1 = fp.view s" "userl s1 = userl s"
    and sub: "\<And>i. set (alltask s1 i) \<subseteq> set (alltask s i)"
    and mem: "\<And>t. ot = Some t \<Longrightarrow> t \<in> set (alltask s (bucket role base sub))" and r: "r = 0 \<longleftrightarrow> ot \<noteq> None"
    using g by (auto simp: get_task_from_alltask_def fp.view_def filter_eq_Cons_iff split: if_splits list.splits)
  have fm: "fmem s1 = fmem s" using view_parts [OF v(1)] by simp
  then show "fcs_keeps s s1"
    using inv fp.inv_same [OF _ v(1)] view_parts [OF v(1)] v(2) sub unfolding fcs_keeps_def fcs_inv_def placed_def
    by (simp add: subset_iff) blast
  show "ot = Some t \<Longrightarrow> t \<notin> set (blocks (fmem s1))" using mem inv fm by (auto simp: fcs_inv_def)
  show "userl s1 = userl s" by (rule v(2))
  show "r = 0 \<longleftrightarrow> ot \<noteq> None" by (rule r)
qed

section \<open>Taking a task\<close>

lemma fcs_get_some: "vfs_get_task e q s = (r, Some t, s') \<Longrightarrow> r = GET_TASK_OK"
  by (auto simp: vfs_get_task_def split: list.splits option.splits if_splits)

lemma fcs_get_frame:
  assumes "vfs_get_task e q (s :: fcs_state) = (r, ot, s')"
  shows "userl s' = userl s" and "alltask s' = alltask s"
    and "p \<noteq> q \<Longrightarrow> queues_ok s \<Longrightarrow> vfstask s' p = vfstask s p"
proof -
  show "userl s' = userl s" "alltask s' = alltask s"
    using assms by (auto simp: vfs_get_task_def set_status_def split: list.splits option.splits if_splits)
  show "p \<noteq> q \<Longrightarrow> queues_ok s \<Longrightarrow> vfstask s' p = vfstask s p"
    using assms lf_wf_unique [of "vfstask s" _ p q]
    by (auto simp: vfs_get_task_def queues_ok_def removeAll_notin split: list.splits option.splits if_splits)
      (metis list.set_intros(1) removeAll_notin)
qed

lemma fcs_get_keeps:
  assumes inv: "fcs_inv s" and g: "vfs_get_task e q s = (r, ot, s1)" and q: "q \<noteq> TASK_HOME" "q \<noteq> TASK_RUN"
  shows "fcs_inv s1" and "\<And>t. ot = Some t \<Longrightarrow> fp.held t s1" and "\<And>u. placed u s \<Longrightarrow> placed u s1 \<or> ot = Some u"
proof -
  have i: "fp.inv s" "queues_ok s" using inv by (simp_all add: fcs_inv_def fp.inv_def)
  note k = fp.get_inv [OF i(1) g disjI1 [OF q(1)]]
  have "TASK_RUN \<noteq> q" using q(2) by simp
  then show "fcs_inv s1"
    using inv k(1,4) fcs_get_frame(1,2) [OF g] fcs_get_frame(3) [OF g _ i(2)] by (simp add: fcs_inv_def)
  show "\<And>t. ot = Some t \<Longrightarrow> fp.held t s1" "\<And>u. placed u s \<Longrightarrow> placed u s1 \<or> ot = Some u" using k by blast+
qed

lemma take_works:
  assumes "fcs_inv s" and "vfs_get_task e q s = (r, Some t, s1)" and "q \<noteq> TASK_HOME" "q \<noteq> TASK_RUN"
    and "fcs_inv s1 \<Longrightarrow> fp.held t s1 \<Longrightarrow> fcs_works t s1 s2"
  shows "fcs_keeps s s2"
proof -
  note k = fcs_get_keeps [OF assms(1-4)]
  have "fcs_works t s1 s2" by (rule assms(5) [OF k(1) k(2) [OF refl]])
  then show ?thesis using k(3) unfolding fcs_works_def fcs_keeps_def by (metis option.inject)
qed

lemma take_none:
  assumes "fcs_inv s" and "vfs_get_task e q s = (r, None, s1)" and "q \<noteq> TASK_HOME" "q \<noteq> TASK_RUN"
  shows "fcs_keeps s s1"
  using fcs_get_keeps [OF assms] unfolding fcs_keeps_def by blast

lemma fcs_get_home_keeps:
  assumes inv: "fcs_inv s" and g: "fcs_get_home w s = (r, ot, s1)"
  shows "fcs_inv s1" and "\<And>t. ot = Some t \<Longrightarrow> fp.held t s1 \<and> r = GET_TASK_OK" and "\<And>u. placed u s \<Longrightarrow> placed u s1 \<or> ot = Some u"
proof -
  let ?e = "(fw_env w)\<lparr>e_malloc := (case fmem s of [] \<Rightarrow> None | m # _ \<Rightarrow> m)\<rparr>"
  let ?s = "if vfstask s TASK_HOME = [] then s\<lparr>fmem := tl (fmem s)\<rparr> else s"
  have i: "fp.inv s" "queues_ok s" using inv by (simp_all add: fcs_inv_def fp.inv_def)
  have g': "vfs_get_task ?e TASK_HOME ?s = (r, ot, s1)" using g by (simp add: fcs_get_home_def)
  note k = fp.get_home_inv [OF i(1) _ g']
  have "queues_ok ?s" using i(2) by (simp add: queues_ok_def)
  moreover have "TASK_RUN \<noteq> TASK_HOME" by (simp add: queue_defs)
  moreover have q: "vfstask ?s = vfstask s" "userl ?s = userl s" "alltask ?s = alltask s" by simp_all
  ultimately have f: "userl s1 = userl s" "alltask s1 = alltask s" "vfstask s1 TASK_RUN = vfstask s TASK_RUN"
    using fcs_get_frame [OF g'] by auto
  have m: "set (blocks (fmem s1)) \<subseteq> set (blocks (fmem s))"
    using g' blocks_tl(1) [of "fmem s"]
    by (auto simp: vfs_get_task_def set_status_def split: list.splits option.splits if_splits)
  show "fcs_inv s1" using inv k(1) f m by (auto simp: fcs_inv_def)
  show "\<And>t. ot = Some t \<Longrightarrow> fp.held t s1 \<and> r = GET_TASK_OK" using k(2) fcs_get_some g' by simp
  show "\<And>u. placed u s \<Longrightarrow> placed u s1 \<or> ot = Some u" using k(4) by simp
qed

lemma take_home:
  assumes "fcs_inv s" and "fcs_get_home w s = (r, Some t, s1)"
    and "fcs_inv s1 \<Longrightarrow> fp.held t s1 \<Longrightarrow> fcs_works t s1 s2"
  shows "fcs_keeps s s2"
proof -
  note k = fcs_get_home_keeps [OF assms(1,2)]
  have "fcs_works t s1 s2" using assms(3) k(1) k(2) [OF refl] by blast
  then show ?thesis using k(3) unfolding fcs_works_def fcs_keeps_def by (metis option.inject)
qed

lemma home_none: "fcs_inv s \<Longrightarrow> fcs_get_home w s = (r, None, s1) \<Longrightarrow> fcs_keeps s s1"
  using fcs_get_home_keeps unfolding fcs_keeps_def by blast

text \<open>A round over a queue.\<close>

lemma drain_keeps:
  assumes f: "\<And>t s. fcs_inv s \<Longrightarrow> fp.held t s \<Longrightarrow> fcs_works t s (f t s)"
    and q: "q \<noteq> TASK_HOME" "q \<noteq> TASK_RUN" and "fcs_inv s"
  shows "fcs_keeps s (drain k e q f s)"
  using assms(4)
proof (induction k arbitrary: s)
  case 0
  then show ?case by (simp add: fcs_keeps_refl)
next
  case (Suc k)
  obtain r ot s1 where g: "vfs_get_task e q s = (r, ot, s1)" by (cases "vfs_get_task e q s")
  show ?case
  proof (cases ot)
    case None
    then show ?thesis using take_none [OF Suc.prems _ q] g by simp
  next
    case (Some t)
    have "fcs_keeps s (f t s1)" by (rule take_works [OF Suc.prems g [unfolded Some] q f])
    then have "fcs_keeps s (drain k e q f (f t s1))" using fcs_keeps_trans Suc.IH by blast
    then show ?thesis using g Some fcs_get_some [of e q s r t s1] by simp
  qed
qed

lemma drain_all_keeps:
  "(\<And>t s. fcs_inv s \<Longrightarrow> fp.held t s \<Longrightarrow> fcs_works t s (f t s)) \<Longrightarrow> q \<noteq> TASK_HOME \<Longrightarrow> q \<noteq> TASK_RUN \<Longrightarrow> fcs_inv s \<Longrightarrow>
   fcs_keeps s (drain_all e q f s)"
  unfolding drain_all_def by (rule drain_keeps)

lemma foldl_keeps:
  assumes "\<And>x s. fcs_inv s \<Longrightarrow> fcs_keeps s (f s x)" and "fcs_inv s"
  shows "fcs_keeps s (foldl f s xs)"
  using assms(2)
proof (induction xs arbitrary: s)
  case (Cons x xs)
  have k: "fcs_keeps s (f s x)" by (rule assms(1) [OF Cons.prems])
  then show ?case using fcs_keeps_trans [OF k Cons.IH] by simp
qed (simp add: fcs_keeps_refl)

lemma foldl_same: "(\<And>x s. fcs_same s (f s x)) \<Longrightarrow> fcs_same s (foldl f s xs)"
  by (induction xs arbitrary: s) (auto intro: fcs_same_trans)

end
