(* ===== verification/FcsReach.thy ===== *)
theory FcsReach
  imports FcsRun
begin

text \<open>
  The operations of the source machine keep its invariant and lose no task; its events and the
  moves of other threads as a step relation.
\<close>

section \<open>Connections\<close>

lemma fcs_valid [simp]:
  "valid_status TASK_WAIT_SYNC" "valid_status TASK_WAIT_SYNC_IP" "valid_status TASK_CLEAN" "valid_status TASK_HOME"
  "valid_status TASK_RUN" "valid_status TASK_WAIT" "valid_status TASK_Q_SYNC_DIR_REQ" "valid_status TASK_Q_SYNC_DIR_RSP"
  by (simp_all add: valid_status_def queue_defs)

lemma fcs_init_cfg_same: "fcs_same s (snd (fcs_init_cfg_connect w sip fd s))"
  by (simp add: fcs_init_cfg_connect_def Let_def split: prod.split)

lemma fcs_initconn_keeps:
  assumes inv: "fcs_inv s"
  shows "fcs_keeps s (snd (fcs_svc_initconn w fd s))"
proof -
  let ?s1 = "s\<lparr>userl := (userl s)(fd := [])\<rparr>"
  have s1: "fcs_keeps s ?s1" by (rule clear_user_keeps [OF inv])
  have "fcs_same ?s1 (snd (fcs_svc_initconn w fd s)) \<or> snd (fcs_svc_initconn w fd s) = s"
    by (auto simp: fcs_svc_initconn_def Let_def fcs_same_def fp.view_def set_fpeer_def)
  then show ?thesis using fcs_keeps_trans [OF s1 fcs_same_keeps] fcs_keeps_refl [OF inv] by fastforce
qed

text \<open>A task leaves its tracker's list for another queue.\<close>

definition released :: "fworld \<Rightarrow> int \<Rightarrow> ptr \<Rightarrow> fcs_state \<Rightarrow> fcs_state" where
  "released w q t s = fcs_put w t q (s\<lparr>userl := lf_del t (userl s)\<rparr>)"

lemma released_keeps:
  assumes "fcs_inv s" and "unlocked (fw_env w)" and "valid_status q" and "t \<notin> set (blocks (fmem s))"
  shows "fcs_works t s (released w q t s)"
proof -
  let ?s = "s\<lparr>userl := lf_del t (userl s)\<rparr>"
  have k: "fcs_keeps s ?s" by (rule del_user_keeps [OF assms(1)])
  then have i: "fcs_inv ?s" by (simp add: fcs_keeps_def)
  have "t \<notin> set (blocks (fmem ?s))" "q = TASK_RUN \<or> (\<forall>fd. t \<notin> set (userl ?s fd))" using assms(4) by simp_all
  note p = fcs_put_keeps [OF i assms(2,3) this]
  show ?thesis unfolding fcs_works_def released_def using fcs_keeps_trans [OF k] p by blast
qed

lemma refresh_released: "refresh_tracker_task w ts s = foldl (\<lambda>s t. released w TASK_WAIT_SYNC t s) s ts"
  by (simp add: refresh_tracker_task_def released_def)

lemma released_mem [simp]: "fmem (released w q t s) = fmem s"
  by (simp add: released_def)

lemma refresh_keeps:
  assumes "fcs_inv s" and u: "unlocked (fw_env w)" and "\<And>t. t \<in> set ts \<Longrightarrow> t \<notin> set (blocks (fmem s))"
  shows "fcs_keeps s (refresh_tracker_task w ts s)"
  unfolding refresh_released using assms(1,3)
proof (induction ts arbitrary: s)
  case (Cons t ts)
  have k: "fcs_keeps s (released w TASK_WAIT_SYNC t s)"
    using released_keeps [OF Cons.prems(1) u _ Cons.prems(2)] by (simp add: fcs_works_def)
  have "fcs_inv (released w TASK_WAIT_SYNC t s) \<Longrightarrow>
      fcs_keeps (released w TASK_WAIT_SYNC t s) (foldl (\<lambda>s t. released w TASK_WAIT_SYNC t s) (released w TASK_WAIT_SYNC t s) ts)"
    using Cons.IH Cons.prems(2) by simp
  then show ?case using fcs_keeps_trans [OF k] by simp
qed (simp add: fcs_keeps_refl)

lemma user_not_block: "fcs_inv s \<Longrightarrow> t \<in> set (userl s fd) \<Longrightarrow> t \<notin> set (blocks (fmem s))"
  unfolding fcs_inv_def fp.inv_def lf_off_def by blast

lemma fcs_finiconn_keeps:
  assumes inv: "fcs_inv s" and u: "unlocked (fw_env w)"
  shows "fcs_keeps s (fcs_svc_finiconn w fd s)"
proof (cases "fuser s fd")
  case True
  define s1 where "s1 = s\<lparr>factive := removeAll fd (factive s), fonline := lf_del fd (fonline s),
    ftrackers := removeAll fd (ftrackers s), fcfg_list := lf_del fd (fcfg_list s)\<rparr>"
  define s2 where "s2 = (if fp_role (fpeers s1 fd) = ROLE_TRACKER then refresh_tracker_task w (userl s1 fd) s1 else s1)"
  have same: "fcs_same s s1" by (simp add: s1_def)
  then have i1: "fcs_inv s1" by (rule fcs_same_inv [OF inv])
  have k2: "fcs_keeps s1 s2"
    using refresh_keeps [OF i1 u user_not_block [OF i1]] fcs_keeps_refl [OF i1] by (simp add: s2_def)
  then have i2: "fcs_inv s2" by (simp add: fcs_keeps_def)
  let ?s3 = "s2\<lparr>userl := (userl s2)(fd := [])\<rparr>"
  have k3: "fcs_keeps s2 ?s3" by (rule clear_user_keeps [OF i2])
  have e: "fcs_svc_finiconn w fd s = set_fpeer fd zero_fcs_peer (?s3\<lparr>fuser := (fuser ?s3)(fd := False)\<rparr>)"
    using True by (simp add: fcs_svc_finiconn_def Let_def s2_def s1_def)
  have "fcs_same ?s3 (fcs_svc_finiconn w fd s)" unfolding e by simp
  then have "fcs_keeps s2 (fcs_svc_finiconn w fd s)" using fcs_keeps_trans [OF k3] fcs_same_keeps by blast
  then show ?thesis using fcs_keeps_trans [OF fcs_keeps_trans [OF fcs_same_keeps [OF inv same] k2]] by blast
qed (simp add: fcs_svc_finiconn_def fcs_keeps_refl [OF inv])

lemma fcs_do_close_keeps:
  assumes "fcs_inv s" and "unlocked (fw_env w)"
  shows "fcs_keeps s (fcs_do_close w fd s)"
  unfolding fcs_do_close_def
  by (rule fcs_keeps_trans [OF fcs_finiconn_keeps [OF assms, of fd]], rule fcs_same_keeps) simp_all

lemma fcs_touch_same: "fcs_same s (fcs_touch w fd s)"
  by (simp add: fcs_touch_def)

section \<open>The rounds over the queues\<close>

lemma fcs_fin_works:
  assumes inv: "fcs_inv s" and u: "unlocked (fw_env w)" and t: "fp.held t s"
  shows "fcs_works t s (fcs_fin_one w t s)"
proof (cases "ts_need_sync (tsub s t) = TASK_SYNC_ISDIR")
  case False
  then show ?thesis using put_works [OF inv u _ t fcs_same_refl] by (simp add: fcs_fin_one_def)
next
  case True
  define s1 where "s1 = (let s = set_base t ((tbase s t)\<lparr>tb_ctime := e_now (fw_env w)\<rparr>) s;
      s = set_fstamps (snd (set_fcs_time_stamp (fw_env w) (tbase s t) (lo_stamps (flocal s)))) s
    in s\<lparr>ftotal_synced := ftotal_synced s + 1\<rparr>)"
  obtain r ot s2 where g: "get_task_from_alltask (fw_env w) ROLE_FCS (tbase s1 t) (tsub s1 t) s1 = (r, ot, s2)"
    by (cases "get_task_from_alltask (fw_env w) ROLE_FCS (tbase s1 t) (tsub s1 t) s1")
  have same: "fcs_same s s1" by (simp add: s1_def Let_def)
  then have i1: "fcs_inv s1" by (rule fcs_same_inv [OF inv])
  note k = get_alltask_keeps [OF i1 g]
  have i2: "fcs_inv s2" using k(1) by (simp add: fcs_keeps_def)
  have v: "fp.view s2 = fp.view s1"
    using g by (auto simp: get_task_from_alltask_def fp.view_def split: if_splits list.splits)
  have "fp.held t s2" using t fcs_same_held [OF same] fp.held_view [OF v] by simp
  note p = put_works [OF i2 u _ this fcs_same_refl, of TASK_CLEAN]
  have "fcs_fin_one w t s = fcs_put w t TASK_CLEAN s2"
    using True g by (simp add: fcs_fin_one_def Let_def s1_def)
  then show ?thesis
    using p fcs_keeps_trans [OF fcs_keeps_trans [OF fcs_same_keeps [OF inv same] k(1)]] unfolding fcs_works_def by auto
qed

lemma fcs_rsp_works:
  assumes "fcs_inv s" and "unlocked (fw_env w)" and "fp.held t s"
  shows "fcs_works t s (fcs_rsp_one w t s)"
  unfolding fcs_rsp_one_def by (rule put_works [OF assms(1,2) _ assms(3)]) (auto split: option.split)

lemma fcs_fin_task_keeps:
  assumes inv: "fcs_inv s" and u: "unlocked (fw_env w)"
  shows "fcs_keeps s (fcs_do_fin_task w s)"
proof -
  have k: "fcs_keeps s (drain_all (fw_env w) TASK_FIN (fcs_fin_one w) s)"
    by (rule drain_all_keeps [OF fcs_fin_works [OF _ u] _ _ inv]) (simp_all add: queue_defs)
  show ?thesis
    unfolding fcs_do_fin_task_def
    by (rule fcs_keeps_trans [OF k], rule drain_all_keeps [OF fcs_rsp_works [OF _ u]]) (simp_all add: queue_defs)
qed

lemma add_user_keeps:
  assumes inv: "fcs_inv s" and "\<And>fd. t \<notin> set (userl s fd)" and "t \<in> set (vfstask s TASK_RUN)"
  shows "fcs_keeps s (s\<lparr>userl := lf_add_head t fd (userl s)\<rparr>)"
proof -
  let ?s = "s\<lparr>userl := lf_add_head t fd (userl s)\<rparr>"
  have "fp.view ?s = fp.view s" by (simp add: fp.view_def)
  moreover have "lf_wf (lf_add_head t fd (userl s))"
    using inv assms(2) by (simp add: fcs_inv_def lf_wf_add_head lf_off_def)
  ultimately show ?thesis
    using inv assms(3) fp.inv_same [of s ?s] by (auto simp: fcs_keeps_def fcs_inv_def placed_def lf_add_head_def split: if_splits)
qed

lemma send_works:
  assumes inv: "fcs_inv s" and u: "unlocked (fw_env w)" and t: "fp.held t s"
  shows "fcs_works t s (send_to_tracker w t s)"
proof -
  define s0 where "s0 = s\<lparr>userl := lf_del t (userl s)\<rparr>"
  have k0: "fcs_keeps s s0" unfolding s0_def by (rule del_user_keeps [OF inv])
  then have i0: "fcs_inv s0" by (simp add: fcs_keeps_def)
  have h0: "fp.held t s0" using t by (simp add: fp.held_def s0_def)
  have "fcs_works t s0 (send_to_tracker w t s)"
  proof (cases "least_tracker s0")
    case None
    then have "send_to_tracker w t s = fcs_put w t TASK_WAIT_SYNC_IP s0"
      by (simp add: send_to_tracker_def s0_def Let_def)
    then show ?thesis using put_works [OF i0 u _ h0 fcs_same_refl] by simp
  next
    case (Some fd)
    define s1 where "s1 = (let s1 = f_send fd (create_sig_msg NEWTASK_REQ TASK_DISPATCH (bytes_of (fw_abi w) (tbase s0 t)) (sizeof_base (fw_abi w))) s0
      in set_fpeer fd ((fpeers s1 fd)\<lparr>fp_sock_stat := SEND_LAST\<rparr>) s1)"
    define s2 where "s2 = fcs_put w t TASK_RUN s1"
    define s3 where "s3 = snd (add_task_to_alltask (fw_env w) ROLE_FCS t s2)"
    let ?s4 = "s3\<lparr>userl := lf_add_head t fd (userl s3)\<rparr>"
    have same: "fcs_same s0 s1" by (simp add: s1_def Let_def)
    have k2: "fcs_works t s0 s2" unfolding s2_def by (rule put_works [OF i0 u _ h0 same]) simp
    then have i2: "fcs_inv s2" by (simp add: fcs_works_def fcs_keeps_def)
    have m: "fmem s2 = fmem s0" using view_parts [of s1 s0] same by (simp add: s2_def fcs_same_def)
    then have "t \<notin> set (blocks (fmem s2))" using h0 by (simp add: fp.held_def)
    then have k3: "fcs_keeps s2 s3" unfolding s3_def by (rule add_alltask_keeps [OF i2])
    then have i3: "fcs_inv s3" by (simp add: fcs_keeps_def)
    have f: "userl s3 = userl s0" "vfstask s3 = vfstask s2"
      using same by (simp_all add: s3_def add_task_to_alltask_def Let_def s2_def fcs_same_def)
    have "t \<in> set (vfstask s3 TASK_RUN)" unfolding f(2) s2_def using fcs_put_queues [OF u] by simp
    then have k4: "fcs_keeps s3 ?s4"
      using f(1) held_no_tracker [OF i0 h0] by (intro add_user_keeps [OF i3]) simp_all
    have e: "send_to_tracker w t s = set_fpeer fd ((fpeers ?s4 fd)\<lparr>fp_taskcount := fp_taskcount (fpeers ?s4 fd) + 1\<rparr>) ?s4"
      using Some by (simp add: send_to_tracker_def s0_def Let_def s1_def s2_def s3_def)
    have "fcs_same ?s4 (send_to_tracker w t s)" unfolding e by simp
    then show ?thesis using works_then [OF k2 fcs_keeps_trans [OF fcs_keeps_trans [OF k3 k4] fcs_same_keeps]] by blast
  qed
  then show ?thesis using fcs_keeps_trans [OF k0] unfolding fcs_works_def by blast
qed

lemma fcs_check_task_keeps:
  assumes inv: "fcs_inv s" and u: "unlocked (fw_env w)"
  shows "fcs_keeps s (fcs_check_task w s)"
proof -
  have p: "fcs_works t s (fcs_put w t TASK_WAIT_SYNC s)" if "fcs_inv s" "fp.held t s" for t s
    by (rule put_works [OF that(1) u _ that(2)]) simp_all
  have k: "fcs_keeps s (drain_all (fw_env w) TASK_WAIT_SYNC_IP (\<lambda>t s. fcs_put w t TASK_WAIT_SYNC s) s)"
    by (rule drain_all_keeps [OF p _ _ inv]) (simp_all add: queue_defs)
  show ?thesis
    unfolding fcs_check_task_def
    by (rule fcs_keeps_trans [OF k], rule drain_keeps [OF send_works [OF _ u]]) (simp_all add: queue_defs)
qed

section \<open>Directories\<close>

lemma sub_sync_same: "fcs_same s (fcs_do_sub_sync w y fd s)"
  by (simp add: fcs_do_sub_sync_def)

lemma foldl_same_start: "fcs_same s0 s \<Longrightarrow> (\<And>x s. fcs_same s (f s x)) \<Longrightarrow> fcs_same s0 (foldl f s xs)"
  using fcs_same_trans foldl_same [of f s xs] by blast

lemma active_sync_same: "fcs_same s (fcs_do_active_sync w s)"
  unfolding fcs_do_active_sync_def Let_def
  by (auto split: list.split option.split intro!: foldl_same_start sub_sync_same)

lemma add_2_same: "fcs_same s (add_2_sync_list w d1 d2 s)"
  by (simp add: add_2_sync_list_def Let_def)

lemma sync_line_same: "fcs_same s (sync_line w s line)"
  by (simp add: sync_line_def add_2_same split: option.split)

lemma sync_file_same: "fcs_same s (sync_file w path s name)"
  unfolding sync_file_def Let_def
  by (auto split: option.split prod.split intro!: foldl_same sync_line_same)

lemma init_sync_list_same: "fcs_same s (fcs_init_sync_list w s)"
  unfolding fcs_init_sync_list_def Let_def
  by (auto split: option.split intro!: foldl_same sync_file_same)

lemma scan_list_same: "fcs_same s (scan_sync_dir_list w s)"
  by (simp add: scan_sync_dir_list_def)

text \<open>Work on a record taken from the pool.\<close>

lemma home_work:
  assumes inv: "fcs_inv s" and none: "\<And>r s1. fcs_get_home w s = (r, None, s1) \<Longrightarrow> fcs_same s1 (f None r s1)"
    and some: "\<And>r t s1. fcs_get_home w s = (r, Some t, s1) \<Longrightarrow> fcs_inv s1 \<Longrightarrow> fp.held t s1 \<Longrightarrow> fcs_works t s1 (f (Some t) r s1)"
    and "s' = (case fcs_get_home w s of (r, ot, s1) \<Rightarrow> f ot r s1)"
  shows "fcs_keeps s s'"
proof -
  obtain r ot s1 where g: "fcs_get_home w s = (r, ot, s1)" by (cases "fcs_get_home w s")
  show ?thesis
  proof (cases ot)
    case None
    then show ?thesis
      using home_none [OF inv, of w r s1] none [of r s1] fcs_keeps_trans [OF _ fcs_same_keeps] g assms(4) by auto
  next
    case (Some t)
    then show ?thesis using take_home [OF inv, of w r t s1] some [of r t s1] g assms(4) by auto
  qed
qed

lemma old_task_keeps:
  assumes inv: "fcs_inv s" and u: "unlocked (fw_env w)"
  shows "fcs_keeps s (old_task w s base)"
proof -
  have ok: "r = GET_TASK_OK" if "fcs_get_home w s = (r, Some t, s1)" for r t s1
    using fcs_get_home_keeps(2) [OF inv that] by simp
  show ?thesis
  proof (rule home_work [OF inv, where w = w and f = "\<lambda>ot r s. case ot of None \<Rightarrow> s
      | Some t \<Rightarrow> if r \<noteq> GET_TASK_OK then s else fcs_put w t TASK_WAIT_SYNC (set_base t base s)"])
    fix r t s1 assume g: "fcs_get_home w s = (r, Some t, s1)" and i: "fcs_inv s1" "fp.held t s1"
    show "fcs_works t s1 (case Some t of None \<Rightarrow> s1
      | Some t \<Rightarrow> if r \<noteq> GET_TASK_OK then s1 else fcs_put w t TASK_WAIT_SYNC (set_base t base s1))"
      using put_works [OF i(1) u _ i(2)] ok [OF g] by simp
  qed (auto simp: old_task_def split: prod.split option.split)
qed

lemma init_old_keeps:
  assumes inv: "fcs_inv s" and u: "unlocked (fw_env w)"
  shows "fcs_keeps s (init_old_task w s)"
  unfolding init_old_task_def
proof (rule foldl_keeps [OF _ inv])
  fix d and s :: fcs_state assume i: "fcs_inv s"
  show "fcs_keeps s (do_sub_old_task w s d)"
    unfolding do_sub_old_task_def Let_def
    by (auto split: prod.split intro!: foldl_keeps old_task_keeps [OF _ u] i)
qed

lemma dir_step_keeps:
  assumes inv: "fcs_inv s" and u: "unlocked (fw_env w)"
  shows "fcs_keeps s (fcs_sync_dir_step w buf s)"
proof -
  define s0 where "s0 = (if self_stat (fcfg s) = UNKOWN_STAT then set_fcs_stat ON_LINE (init_old_task w s) else s)"
  have k0: "fcs_keeps s s0"
    using fcs_keeps_trans [OF init_old_keeps [OF inv u] fcs_same_keeps] fcs_keeps_refl [OF inv] by (simp add: s0_def)
  then have i0: "fcs_inv s0" by (simp add: fcs_keeps_def)
  obtain r ot s1 where g: "vfs_get_task (fw_env w) TASK_Q_SYNC_DIR_REQ s0 = (r, ot, s1)"
    by (cases "vfs_get_task (fw_env w) TASK_Q_SYNC_DIR_REQ s0")
  have q: "TASK_Q_SYNC_DIR_REQ \<noteq> TASK_HOME" "TASK_Q_SYNC_DIR_REQ \<noteq> TASK_RUN" by (simp_all add: queue_defs)
  have "fcs_keeps s0 (fcs_sync_dir_step w buf s)"
  proof (cases ot)
    case None
    then show ?thesis using take_none [OF i0 _ q] g by (simp add: fcs_sync_dir_step_def Let_def s0_def [symmetric])
  next
    case (Some t)
    have g': "vfs_get_task (fw_env w) TASK_Q_SYNC_DIR_REQ s0 = (r, Some t, s1)" using g Some by simp
    have r: "r = GET_TASK_OK" using fcs_get_some [OF g'] .
    show ?thesis
      by (rule take_works [OF i0 g' q])
        (auto simp: fcs_sync_dir_step_def Let_def s0_def [symmetric] g' r intro!: put_works u)
  qed
  then show ?thesis using fcs_keeps_trans [OF k0] by blast
qed

section \<open>Messages\<close>

lemma sends_same: "fcs_same s (foldl (\<lambda>s m. f_send fd m s) s ms)"
  by (rule foldl_same) simp

lemma del_req_same: "fcs_same s (fcs_do_sync_del_req w fd b s)"
  by (simp add: fcs_do_sync_del_req_def Let_def sends_same del: del_msgs.simps split: prod.split)

lemma dir_req_keeps:
  assumes inv: "fcs_inv s" and u: "unlocked (fw_env w)"
  shows "fcs_keeps s (fcs_do_sync_dir_req w fd b s)"
proof -
  let ?rsp = "\<lambda>s. f_send fd (create_sig_msg SYNC_DIR_RSP TASK_SYNC_DIR b (fw_sync_size w)) s"
  let ?put = "\<lambda>t s. fcs_put w t TASK_Q_SYNC_DIR_REQ (set_base t (zero_base\<lparr>tb_filename := sy_domain (fw_sync_of w b),
    tb_dstip := fw_peerip w fd\<rparr>) (s\<lparr>freq := (freq s)(t := fw_sync_of w b)\<rparr>))"
  show ?thesis
  proof (rule home_work [OF inv, where w = w and f = "\<lambda>ot r s. case ot of None \<Rightarrow> ?rsp s
      | Some t \<Rightarrow> if r \<noteq> GET_TASK_OK then ?rsp s else ?put t s"])
    fix r t s1 assume g: "fcs_get_home w s = (r, Some t, s1)" and i: "fcs_inv s1" "fp.held t s1"
    have "r = GET_TASK_OK" using fcs_get_home_keeps(2) [OF inv g] by simp
    then show "fcs_works t s1 (case Some t of None \<Rightarrow> ?rsp s1
      | Some t \<Rightarrow> if r \<noteq> GET_TASK_OK then ?rsp s1 else ?put t s1)"
      by (auto intro!: put_works i u)
  qed (auto simp: fcs_do_sync_dir_req_def Let_def split: prod.split option.split)
qed

lemma note_same: "fcs_same s (add_to_sync_dir_list w fname s)"
  by (simp add: add_to_sync_dir_list_def split: option.split)

text \<open>The end of \<open>do_newtask\<close>.\<close>

lemma queue_newtask_works:
  assumes inv: "fcs_inv s" and u: "unlocked (fw_env w)" and t: "fp.held t s"
  shows "fcs_works t s (queue_newtask w t base sub s)"
proof -
  define s1 where "s1 = (let s = set_task t (zero_task\<lparr>ti_base := base\<lparr>tb_overstatus := OVER_UNKNOWN\<rparr>, ti_sub := sub\<rparr>) s
    in s\<lparr>ftotal_sync := ftotal_sync s + 1\<rparr>)"
  have same: "fcs_same s s1" by (simp add: s1_def Let_def)
  have k: "fcs_works t s (fcs_put w t TASK_WAIT s1)" by (rule put_works [OF inv u _ t same]) simp
  have m: "t \<notin> set (blocks (fmem (fcs_put w t TASK_WAIT s1)))"
    using t view_parts [of s1 s] same by (simp add: fp.held_def fcs_same_def)
  note a = add_alltask_keeps [OF _ m, of "fw_env w" ROLE_FCS]
  show ?thesis
    unfolding queue_newtask_def Let_def s1_def [unfolded Let_def, symmetric]
    by (rule works_then [OF k]) (rule fcs_keeps_trans [OF a], assumption, rule fcs_same_keeps [OF _ note_same])
qed

lemma newtask_home_keeps:
  assumes inv: "fcs_inv s" and u: "unlocked (fw_env w)"
  shows "fcs_keeps s (snd (case fcs_get_home w s of (r, None, s) \<Rightarrow> (-1 :: int, s)
      | (r, Some t, s) \<Rightarrow> if r \<noteq> GET_TASK_OK then (-1, s) else (0, queue_newtask w t base sub s)))"
proof (rule home_work [OF inv, where w = w and f = "\<lambda>ot r s. case ot of None \<Rightarrow> s
    | Some t \<Rightarrow> if r \<noteq> GET_TASK_OK then s else queue_newtask w t base sub s"])
  fix r t s1 assume g: "fcs_get_home w s = (r, Some t, s1)" and i: "fcs_inv s1" "fp.held t s1"
  have "r = GET_TASK_OK" using fcs_get_home_keeps(2) [OF inv g] by simp
  then show "fcs_works t s1 (case Some t of None \<Rightarrow> s1
    | Some t \<Rightarrow> if r \<noteq> GET_TASK_OK then s1 else queue_newtask w t base sub s1)"
    using queue_newtask_works [OF i(1) u i(2)] by simp
qed (auto split: prod.split option.split)

lemma fcs_newtask_keeps:
  assumes inv: "fcs_inv s" and u: "unlocked (fw_env w)"
  shows "fcs_keeps s (snd (fcs_do_newtask w fd b s))"
proof -
  have k: "fcs_keeps s (set_ffs fs s)" for fs by (rule fcs_same_keeps [OF inv]) simp
  obtain ret base fs where c: "check_localfile_md5 (fcs_local w s) ((base_of (fw_abi w) b)\<lparr>tb_starttime := e_now (fw_env w),
      tb_dstip := str2ip (ii_s_ip (fw_self w))\<rparr>) VIDEOFILE (lo_fs (flocal s)) = (ret, base, fs)"
    by (cases rule: prod_cases3)
  have h: "fcs_keeps s (snd (case fcs_get_home w (set_ffs fs s) of (r, None, s) \<Rightarrow> (-1 :: int, s)
      | (r, Some t, s) \<Rightarrow> if r \<noteq> GET_TASK_OK then (-1, s) else (0, queue_newtask w t base sub s)))" for sub
    by (rule fcs_keeps_trans [OF k newtask_home_keeps [OF _ u]])
  show ?thesis
    by (simp add: fcs_do_newtask_def Let_def c fcs_keeps_refl inv k h)
qed

lemma answered_keeps:
  assumes inv: "fcs_inv s" and u: "unlocked (fw_env w)"
  shows "fcs_keeps s (task_answered w fd status base s)"
proof -
  obtain r ot s1 where g: "get_task_from_alltask (fw_env w) ROLE_FCS base zero_sub s = (r, ot, s1)"
    by (cases "get_task_from_alltask (fw_env w) ROLE_FCS base zero_sub s")
  note k = get_alltask_keeps [OF inv g]
  have i1: "fcs_inv s1" using k(1) by (simp add: fcs_keeps_def)
  show ?thesis
  proof (cases ot)
    case None
    then show ?thesis using k(1) g by (simp add: task_answered_def)
  next
    case (Some t)
    define s2 where "s2 = (let s = (if tb_type base = TASK_ADDFILE
                   then set_fstamps (snd (set_fcs_time_stamp (fw_env w) (tbase s1 t) (lo_stamps (flocal s1)))) s1 else s1)
      in set_base t ((tbase s t)\<lparr>tb_overstatus := status\<rparr>) s)"
    have same: "fcs_same s1 s2" by (simp add: s2_def Let_def)
    then have i2: "fcs_inv s2" by (rule fcs_same_inv [OF i1])
    have "t \<notin> set (blocks (fmem s2))" using k(2) [OF Some] view_parts [of s2 s1] same by (simp add: fcs_same_def)
    then have "fcs_works t s2 (released w TASK_CLEAN t s2)" by (intro released_keeps [OF i2 u]) simp_all
    then have "fcs_keeps s2 (released w TASK_CLEAN t s2)" by (simp add: fcs_works_def)
    note k3 = fcs_keeps_trans [OF fcs_keeps_trans [OF k(1) fcs_same_keeps [OF _ same]] this]
    have "fcs_same (released w TASK_CLEAN t s2) (task_answered w fd status base s)"
      using g Some k(4) by (simp add: task_answered_def Let_def s2_def released_def)
    then show ?thesis using fcs_keeps_trans [OF k3 fcs_same_keeps] by blast
  qed
qed

lemma count_day_same: "fcs_same s (snd (check_count_one_day w s))"
  by (simp add: check_count_one_day_def Let_def)

lemma fcs_req_keeps:
  assumes inv: "fcs_inv s" and u: "unlocked (fw_env w)"
  shows "fcs_keeps s (snd (fcs_do_req w fd h b s))"
proof -
  define s0 where "s0 = set_fpeer fd ((fpeers s fd)\<lparr>fp_hbtime := e_now (fw_env w)\<rparr>) s"
  have same: "fcs_same s s0" by (simp add: s0_def)
  then have i0: "fcs_inv s0" by (rule fcs_same_inv [OF inv])
  have keep: "fcs_keeps s0 s'" if "fcs_same s0 s'" for s' by (rule fcs_same_keeps [OF i0 that])
  obtain r1 s1 where c1: "fcs_init_cfg_connect w (c_string b) fd s0 = (r1, s1)"
    by (cases "fcs_init_cfg_connect w (c_string b) fd s0")
  then have e1: "fcs_same s0 s1" using fcs_init_cfg_same by (metis snd_conv)
  obtain r2 s2 where c2: "check_count_one_day w s0 = (r2, s2)" by (cases "check_count_one_day w s0")
  then have e2: "fcs_same s0 s2" using count_day_same by (metis snd_conv)
  have d: "fcs_keeps s0 (fcs_do_sync_dir_req w fd b s2)"
    by (rule fcs_keeps_trans [OF keep [OF e2] dir_req_keeps [OF _ u]])
  have "fcs_keeps s0 (snd (fcs_do_req w fd h b s))"
    unfolding fcs_do_req_def Let_def s0_def [symmetric] c1 c2
    by (simp add: keep e1 e2 d fcs_newtask_keeps [OF i0 u] answered_keeps [OF i0 u] del_req_same)
  then show ?thesis using fcs_keeps_trans [OF fcs_same_keeps [OF inv same]] by blast
qed

lemma fcs_recv_keeps:
  assumes inv: "fcs_inv s" and u: "unlocked (fw_env w)" and r: "fcs_svc_recv w fd m s = Some (x, m', s')"
  shows "fcs_keeps s s'"
proof (rule recv_loop_keeps [of "\<lambda>s1. fcs_keeps s s1" "fcs_do_req w fd"])
  show "fcs_keeps s (fcs_touch w fd s)" by (rule fcs_same_keeps [OF inv fcs_touch_same])
  show "recv_loop (Suc (mb_len m)) (fcs_do_req w fd) RECV_ADD_EPOLLIN m (fcs_touch w fd s) = Some (x, m', s')"
    using r unfolding fcs_svc_recv_def svc_recv_def .
  show "fcs_keeps s (snd (fcs_do_req w fd h b s1))" if "fcs_keeps s s1" for h b s1
    by (rule fcs_keeps_trans [OF that fcs_req_keeps [OF _ u]])
qed

section \<open>Changes of files\<close>

lemma check_list_same: "fcs_same s (snd (check_sync_dir_list w path s))"
  by (simp add: check_sync_dir_list_def split: option.split)

lemma change_same: "change_of w s path msk = Some (base, s') \<Longrightarrow> fcs_same s s'"
  by (auto simp: change_of_def Let_def split: option.splits prod.splits if_splits)

lemma queue_change_keeps:
  assumes inv: "fcs_inv s" and u: "unlocked (fw_env w)"
  shows "fcs_keeps s (case fcs_get_home w s of (r, None, s) \<Rightarrow> s
      | (r, Some t, s) \<Rightarrow> if r \<noteq> GET_TASK_OK then s else fcs_put w t TASK_WAIT_SYNC (set_task t ti s))"
proof (rule home_work [OF inv, where w = w and f = "\<lambda>ot r s. case ot of None \<Rightarrow> s
    | Some t \<Rightarrow> if r \<noteq> GET_TASK_OK then s else fcs_put w t TASK_WAIT_SYNC (set_task t ti s)"])
  fix r t s1 assume g: "fcs_get_home w s = (r, Some t, s1)" and i: "fcs_inv s1" "fp.held t s1"
  have "r = GET_TASK_OK" using fcs_get_home_keeps(2) [OF inv g] by simp
  then show "fcs_works t s1 (case Some t of None \<Rightarrow> s1
    | Some t \<Rightarrow> if r \<noteq> GET_TASK_OK then s1 else fcs_put w t TASK_WAIT_SYNC (set_task t ti s1))"
    using put_works [OF i(1) u _ i(2)] by simp
qed (auto split: prod.split option.split)

lemma change_keeps:
  assumes inv: "fcs_inv s" and u: "unlocked (fw_env w)"
  shows "fcs_keeps s (inotify_event_handler w wd name msk s)"
proof -
  let ?path = "fwatch s wd @ ''/'' @ name"
  obtain r s1 where c: "check_sync_dir_list w ?path s = (r, s1)" by (cases "check_sync_dir_list w ?path s")
  then have "fcs_same s s1" using check_list_same by (metis snd_conv)
  then have k1: "fcs_keeps s s1" by (rule fcs_same_keeps [OF inv])
  then have i1: "fcs_inv s1" by (simp add: fcs_keeps_def)
  show ?thesis
  proof (cases "change_of w s1 ?path msk")
    case None
    then show ?thesis
      using k1 fcs_keeps_refl [OF inv] c [unfolded append_Cons append_Nil] by (simp add: inotify_event_handler_def Let_def)
  next
    case (Some bs)
    obtain base s2 where bs: "bs = (base, s2)" by (cases bs)
    note ch = Some [unfolded bs]
    note k2 = fcs_keeps_trans [OF k1 fcs_same_keeps [OF _ change_same [OF ch]]]
    then have "fcs_inv s2" by (simp add: fcs_keeps_def)
    note k3 = fcs_keeps_trans [OF k2 queue_change_keeps [OF this u]]
    show ?thesis
      using k1 k3 fcs_keeps_refl [OF inv] c [unfolded append_Cons append_Nil] ch [unfolded append_Cons append_Nil]
      by (simp add: inotify_event_handler_def Let_def)
  qed
qed

section \<open>Time-outs\<close>

text \<open>Fewer tasks in the table and on the lists of the trackers.\<close>

lemma fcs_inv_less:
  assumes "fcs_inv s" and "vfstask s' = vfstask s" and "\<And>t. tl_status (tasks s' t) = tl_status (tasks s t)"
    and "fmem s' = fmem s" and "userl s' = userl s" and "\<And>i. set (alltask s' i) \<subseteq> set (alltask s i)"
  shows "fcs_inv s'"
  using assms by (simp add: fcs_inv_def fp.inv_def queues_ok_def counts_on_def subset_iff) blast

lemma fcs_check_timeout_keeps:
  fixes w :: fworld
  assumes inv: "fcs_inv s" and u: "unlocked (fw_env w)" and t: "t \<notin> set (blocks (fmem s))"
  shows "fcs_keeps s (check_task_timeout (fw_env w) ROLE_FCS tmo t s)"
    and "fmem (check_task_timeout (fw_env w) ROLE_FCS tmo t s) = fmem s"
proof -
  let ?e = "fw_env w"
  let ?b = "if e_now ?e - tb_starttime (tbase s t) > tmo
            then set_base t ((tbase s t)\<lparr>tb_overstatus := OVER_TIMEOUT\<rparr>) s else s"
  have same: "fcs_same s ?b" by simp
  show "fcs_keeps s (check_task_timeout ?e ROLE_FCS tmo t s)"
  proof (cases "tl_status (tasks ?b t) \<noteq> TASK_CLEAN \<and> tb_overstatus (tbase ?b t) = OVER_TIMEOUT")
    case True
    let ?s' = "check_task_timeout ?e ROLE_FCS tmo t s"
    have k: "fcs_works t s (released w TASK_HOME t s)" by (rule released_keeps [OF inv u _ t]) simp
    have l: "\<not> lock_failed ?e m" for m using u by (simp add: unlocked_def)
    have "vfstask ?s' = vfstask (released w TASK_HOME t s)" "fmem ?s' = fmem (released w TASK_HOME t s)"
        "userl ?s' = userl (released w TASK_HOME t s)" "alltask ?s' = lf_del t (alltask s)"
        "tl_status (tasks ?s' x) = tl_status (tasks (released w TASK_HOME t s) x)" for x
      unfolding check_task_timeout_def Let_def if_P [OF True]
      by (simp_all add: vfs_set_task_def l released_def fcs_put_def set_status_def set_task_def set_base_def fun_eq_iff
          split: option.split)
    note f = this
    have "fcs_inv ?s'"
      by (rule fcs_inv_less [of "released w TASK_HOME t s"])
        (use k f in \<open>auto simp: fcs_works_def fcs_keeps_def released_def\<close>)
    moreover have "placed x ?s' = placed x (released w TASK_HOME t s)" for x by (simp add: placed_def f)
    ultimately show ?thesis using k by (simp add: fcs_works_def fcs_keeps_def)
  next
    case False
    then have "check_task_timeout ?e ROLE_FCS tmo t s = ?b" by (auto simp: check_task_timeout_def Let_def)
    then show ?thesis using fcs_same_keeps [OF inv same] by simp
  qed
  show "fmem (check_task_timeout ?e ROLE_FCS tmo t s) = fmem s"
    by (simp add: check_task_timeout_def Let_def vfs_set_task_def set_status_def set_task_def set_base_def split: option.split)
qed

lemma timeouts_keep:
  fixes w :: fworld
  assumes "fcs_inv s" and u: "unlocked (fw_env w)" and "\<And>t. t \<in> set ts \<Longrightarrow> t \<notin> set (blocks (fmem s))"
  shows "fcs_keeps s (foldl (\<lambda>s t. check_task_timeout (fw_env w) ROLE_FCS tmo t s) s ts)"
  using assms(1,3)
proof (induction ts arbitrary: s)
  case (Cons t ts)
  note k = fcs_check_timeout_keeps [OF Cons.prems(1) u, of t tmo]
  show ?case
    using fcs_keeps_trans [OF k(1) Cons.IH] k(2) Cons.prems(2) by simp
qed (simp add: fcs_keeps_refl)

lemma queued_not_block: "fcs_inv s \<Longrightarrow> t \<in> set (vfstask s q) \<Longrightarrow> t \<notin> set (blocks (fmem s))"
  unfolding fcs_inv_def fp.inv_def lf_off_def by blast

lemma sweep_keeps:
  fixes w :: fworld
  assumes inv: "fcs_inv s" and u: "unlocked (fw_env w)"
  shows "fcs_keeps s (do_timeout_task (fw_env w) ROLE_FCS tmo s)"
  unfolding do_timeout_sweeps sweep_queues_def
proof (rule foldl_keeps [OF _ inv])
  fix q and s :: fcs_state assume i: "fcs_inv s"
  show "fcs_keeps s (snd (scan_some_status_task (fw_env w) q (check_task_timeout (fw_env w) ROLE_FCS tmo) s))"
    using timeouts_keep [OF i u queued_not_block [OF i]] fcs_keeps_refl [OF i] by (simp add: scan_some_status_task_def)
qed

lemma peers_timeout_keeps:
  assumes "fcs_inv s" and u: "unlocked (fw_env w)"
  shows "fcs_keeps s (fcs_timeout_peers w fds s)"
  using assms(1)
proof (induction fds arbitrary: s)
  case (Cons fd fds)
  have "fcs_keeps s (if e_now (fw_env w) - fp_hbtime (fpeers s fd) > fw_timeout w * 10 then fcs_do_close w fd s else s)"
    using fcs_do_close_keeps [OF Cons.prems u] fcs_keeps_refl [OF Cons.prems] by simp
  from fcs_keeps_trans [OF this Cons.IH] show ?case
    using fcs_keeps_refl [OF Cons.prems] by (simp add: Let_def)
qed (simp add: fcs_keeps_refl)

lemma fcs_timeout_keeps:
  assumes inv: "fcs_inv s" and u: "unlocked (fw_env w)"
  shows "fcs_keeps s (fcs_svc_timeout w s)"
proof -
  define s1 where "s1 = fcs_check_task w (fcs_timeout_peers w (factive s) s)"
  define s2 where "s2 = fcs_do_fin_task w s1"
  define s3 where "s3 = scan_sync_dir_list w (fcs_do_active_sync w (fcs_init_sync_list w s2))"
  have k1: "fcs_keeps s s1"
    unfolding s1_def by (rule fcs_keeps_trans [OF peers_timeout_keeps [OF inv u] fcs_check_task_keeps [OF _ u]])
  have "fcs_same s2 s3"
    unfolding s3_def using fcs_same_trans [OF fcs_same_trans [OF init_sync_list_same active_sync_same] scan_list_same] .
  moreover have "fcs_keeps s s2" unfolding s2_def by (rule fcs_keeps_trans [OF k1 fcs_fin_task_keeps [OF _ u]])
  ultimately have k3: "fcs_keeps s s3" using fcs_keeps_trans fcs_same_keeps by blast
  define s4 where "s4 = s3\<lparr>flast_scan := e_now (fw_env w)\<rparr>"
  have "fcs_keeps s s4"
    by (rule fcs_keeps_trans [OF k3 fcs_same_keeps]) (simp_all add: s4_def)
  from fcs_keeps_trans [OF this sweep_keeps [OF _ u]] k3 show ?thesis
    by (simp add: fcs_svc_timeout_def Let_def s1_def [symmetric] s2_def [symmetric] s3_def [symmetric] s4_def [symmetric])
qed

section \<open>Events and runs\<close>

text \<open>
  The calls of the main loop, the rounds of the two threads of the plugin (\<open>FcsOld\<close> is the
  listing thread at its start), and the moves of other threads: with \<open>vfs_get_task\<close>
  (\<open>FcsOther\<close>) or from where the task is (\<open>FcsMove\<close>).
\<close>

datatype fcs_event =
    FcsAccept ptr
  | FcsRecv ptr mybuff
  | FcsSent ptr
  | FcsClose ptr
  | FcsTick
  | FcsList bool
  | FcsOld
  | FcsWatch seen
  | FcsChange int string u32
  | FcsOther int int t_vfs_taskinfo
  | FcsMove ptr int int t_vfs_taskinfo

definition fcs_other :: "fworld \<Rightarrow> int \<Rightarrow> int \<Rightarrow> t_vfs_taskinfo \<Rightarrow> fcs_state \<Rightarrow> fcs_state option" where
  "fcs_other w q q' ti s =
     (if q \<in> {TASK_HOME, TASK_RUN} \<or> \<not> valid_status q' then None
      else case vfs_get_task (fw_env w) q s of
        (r, None, s) \<Rightarrow> Some s
      | (r, Some t, s) \<Rightarrow> Some (fcs_put w t q' (set_task t ti s)))"

definition fcs_move :: "fworld \<Rightarrow> ptr \<Rightarrow> int \<Rightarrow> int \<Rightarrow> t_vfs_taskinfo \<Rightarrow> fcs_state \<Rightarrow> fcs_state option" where
  "fcs_move w t q q' ti s =
     (if q = TASK_RUN \<or> t \<notin> set (vfstask s q) \<or> \<not> valid_status q' then None
      else Some (fcs_put w t q' (set_task t ti s)))"

definition fcs_react :: "fworld \<Rightarrow> fcs_event \<Rightarrow> fcs_state \<Rightarrow> fcs_state option" where
  "fcs_react w ev s =
     (case ev of
        FcsAccept fd \<Rightarrow> Some (snd (fcs_svc_initconn w fd s))
      | FcsRecv fd m \<Rightarrow> map_option (\<lambda>(r, m, s). s) (fcs_svc_recv w fd m s)
      | FcsSent fd \<Rightarrow> Some (snd (fcs_svc_send w fd s))
      | FcsClose fd \<Rightarrow> Some (fcs_svc_finiconn w fd s)
      | FcsTick \<Rightarrow> Some (fcs_svc_timeout w s)
      | FcsList buf \<Rightarrow> Some (fcs_sync_dir_step w buf s)
      | FcsOld \<Rightarrow> Some (init_old_task w s)
      | FcsWatch sn \<Rightarrow> Some (snd (inotify_start w sn s))
      | FcsChange wd name msk \<Rightarrow> Some (inotify_event_handler w wd name msk s)
      | FcsOther q q' ti \<Rightarrow> fcs_other w q q' ti s
      | FcsMove t q q' ti \<Rightarrow> fcs_move w t q q' ti s)"

definition fcs_boot :: "fworld \<Rightarrow> ptr \<Rightarrow> tmp_state \<Rightarrow> cfg_state \<Rightarrow> local_state \<Rightarrow> fcs_state" where
  "fcs_boot w block tmp c lo = fcs_svc_init w (init_task_info block
     \<lparr>tasks = (\<lambda>_. zero_tasklist), vfstask = (\<lambda>_. []), alltask = (\<lambda>_. []), userl = (\<lambda>_. []),
      taskcount = (\<lambda>_. 0), tmpst = tmp, fpeers = (\<lambda>_. zero_fcs_peer), fuser = (\<lambda>_. False),
      factive = [], ftrackers = [], fonline = (\<lambda>_. []), fcfg_list = (\<lambda>_. []), fcfg = c, fsent = [], fclosed = [],
      fsync_dirs = (\<lambda>_. []), fsync_list = [], fflag = 0, ftotal_sync = 0, ftotal_synced = 0, flast_sync = 0,
      flast_scan = 0, fday_last = 0, fday_count = 0, fstart = 0, fwatch = (\<lambda>_. []), freq = (\<lambda>_. zero_sync),
      frsp = (\<lambda>_. None), fmem = [], flocal = lo\<rparr>)"

inductive fcs_step :: "fcs_state \<Rightarrow> fcs_state \<Rightarrow> bool" where
  fcs_event: "unlocked (fw_env w) \<Longrightarrow> fcs_react w ev s = Some s' \<Longrightarrow> fcs_step s s'"
| fcs_refill: "distinct (blocks ms) \<Longrightarrow>
     (\<And>p. p \<in> set (blocks ms) \<Longrightarrow> lf_off p (vfstask s) \<and> lf_off p (alltask s)) \<Longrightarrow> fcs_step s (s\<lparr>fmem := ms\<rparr>)"

inductive_cases fcs_stepE: "fcs_step s s'"

inductive fcs_reachable :: "fcs_state \<Rightarrow> bool" where
  fcs_booted: "fcs_reachable (fcs_boot w block tmp c lo)"
| fcs_goes_on: "fcs_reachable s \<Longrightarrow> fcs_step s s' \<Longrightarrow> fcs_reachable s'"

lemma fcs_other_keeps:
  assumes inv: "fcs_inv s" and u: "unlocked (fw_env w)" and o': "fcs_other w q q' ti s = Some s'"
  shows "fcs_keeps s s'"
proof -
  have q: "q \<noteq> TASK_HOME" "q \<noteq> TASK_RUN" "valid_status q'" using o' by (auto simp: fcs_other_def split: if_splits)
  obtain r ot s1 where g: "vfs_get_task (fw_env w) q s = (r, ot, s1)" by (cases "vfs_get_task (fw_env w) q s")
  show ?thesis
  proof (cases ot)
    case None
    then show ?thesis using o' g q take_none [OF inv _ q(1,2)] by (simp add: fcs_other_def)
  next
    case (Some t)
    then have s': "s' = fcs_put w t q' (set_task t ti s1)" using o' g q by (simp add: fcs_other_def)
    show ?thesis
      unfolding s' by (rule take_works [OF inv g [unfolded Some] q(1,2)]) (rule put_works [OF _ u q(3)], simp_all)
  qed
qed

lemma fcs_move_keeps:
  assumes inv: "fcs_inv s" and u: "unlocked (fw_env w)" and m: "fcs_move w t q q' ti s = Some s'"
  shows "fcs_keeps s s'"
proof -
  have q: "q \<noteq> TASK_RUN" "t \<in> set (vfstask s q)" "valid_status q'" and s': "s' = fcs_put w t q' (set_task t ti s)"
    using m by (auto simp: fcs_move_def split: if_splits)
  have "fcs_same s (set_task t ti s)" by simp
  then have k: "fcs_keeps s (set_task t ti s)" by (rule fcs_same_keeps [OF inv])
  then have i: "fcs_inv (set_task t ti s)" by (simp add: fcs_keeps_def)
  have "lf_wf (vfstask s)" using inv by (simp add: fcs_inv_def fp.inv_def queues_ok_def)
  then have "t \<notin> set (vfstask s TASK_RUN)" using lf_wf_unique [of "vfstask s" t q TASK_RUN] q by auto
  then have n: "t \<notin> set (userl (set_task t ti s) fd)" for fd using inv by (auto simp: fcs_inv_def)
  have b: "t \<notin> set (blocks (fmem (set_task t ti s)))"
    using queued_not_block [OF inv q(2)] by (simp add: set_task_def)
  show ?thesis
    unfolding s' by (rule fcs_keeps_trans [OF k fcs_put_keeps(1) [OF _ u q(3) b]]) (use n in simp_all)
qed

lemma fcs_react_keeps:
  assumes inv: "fcs_inv s" and u: "unlocked (fw_env w)" and r: "fcs_react w ev s = Some s'"
  shows "fcs_keeps s s'"
proof (cases ev)
  case (FcsRecv fd m)
  then obtain x m' where "fcs_svc_recv w fd m s = Some (x, m', s')" using r by (auto simp: fcs_react_def)
  then show ?thesis by (rule fcs_recv_keeps [OF inv u])
next
  case (FcsWatch sn)
  then show ?thesis
    using r by (auto simp: fcs_react_def inotify_start_def Let_def split: prod.splits intro!: fcs_same_keeps [OF inv])
qed (use r inv u in \<open>auto simp: fcs_react_def fcs_svc_send_def intro!: fcs_initconn_keeps fcs_same_keeps [OF _ fcs_touch_same]
  fcs_finiconn_keeps fcs_timeout_keeps dir_step_keeps init_old_keeps change_keeps
  intro: fcs_other_keeps fcs_move_keeps\<close>)

lemma fcs_boot_inv: "fcs_inv (fcs_boot w block tmp c lo)"
proof -
  have m: "fmem s = fmem s'" if "task_state.more s = task_state.more s'" for s s' :: fcs_state
    using that by (cases s; cases s'; simp)
  have al: "alltask (init_task_info block s) = (\<lambda>_. [])" for s :: fcs_state by (simp add: init_task_info_def Let_def)
  have v: "fcs_same s (fcs_svc_init w s)" for s
    by (simp add: fcs_svc_init_def fcs_same_def fp.view_def set_fcs_stat_def)
  show ?thesis
    unfolding fcs_boot_def
    by (rule fcs_same_inv [OF _ v])
      (simp add: fcs_inv_def fp.inv_def init_queues_ok counts_on_def m [OF init_more] init_userl al lf_wf_def)
qed

lemma fcs_step_keeps: "fcs_step s s' \<Longrightarrow> fcs_inv s \<Longrightarrow> fcs_keeps s s'"
proof (erule fcs_stepE)
  fix ms assume i: "fcs_inv s" and s': "s' = s\<lparr>fmem := ms\<rparr>" and d: "distinct (blocks ms)"
    and off: "\<And>p. p \<in> set (blocks ms) \<Longrightarrow> lf_off p (vfstask s) \<and> lf_off p (alltask s)"
  have "fp.inv (s\<lparr>fmem := ms\<rparr>)" using fp.supply_inv [OF _ d, of s] off i by (simp add: fcs_inv_def)
  moreover have "\<And>i t. t \<in> set (alltask s i) \<Longrightarrow> t \<notin> set (blocks ms)" using off by (auto simp: lf_off_def)
  ultimately show "fcs_keeps s s'" using i unfolding s' by (simp add: fcs_keeps_def fcs_inv_def placed_def)
qed (rule fcs_react_keeps)

lemma fcs_reachable_inv: "fcs_reachable s \<Longrightarrow> fcs_inv s"
  by (induction rule: fcs_reachable.induct) (use fcs_boot_inv fcs_step_keeps in \<open>auto simp: fcs_keeps_def\<close>)

lemma fcs_inv_places:
  assumes "fcs_inv s"
  shows "t \<in> set (vfstask s p) \<Longrightarrow> t \<in> set (vfstask s q) \<Longrightarrow> p = q"
    and "t \<in> set (vfstask s q) \<Longrightarrow> tl_status (tasks s t) = q" and "distinct (vfstask s q)"
    and "t \<in> set (userl s fd) \<Longrightarrow> t \<in> set (vfstask s TASK_RUN)"
    and "t \<in> set (userl s fd) \<Longrightarrow> t \<in> set (userl s fd') \<Longrightarrow> fd = fd'" and "distinct (userl s fd)"
  using assms lf_wf_unique [of "vfstask s" t p q] lf_wf_unique [of "userl s" t fd fd']
  by (auto simp: fcs_inv_def fp.inv_def queues_ok_def lf_wf_def)

end
