(* ===== verification/FcsFacts.thy ===== *)
theory FcsFacts
  imports FcsReach "HOL-Library.Multiset"
begin

text \<open>
  What the operations of the source machine achieve: the tasks of a tracker that is lost wait for another,
  a task goes to the tracker with the fewest, a directory is listed with its hard links, and a
  file the machine writes for a storage machine is not taken for a change of its own.
\<close>

section \<open>A tracker is lost\<close>

lemma released_queues:
  "unlocked (fw_env w) \<Longrightarrow> valid_status q \<Longrightarrow> vfstask (released w q t s) = lf_add_tail t q (lf_del t (vfstask s))"
  by (simp add: released_def fcs_put_queues)

lemma released_users [simp]: "userl (released w q t s) = lf_del t (userl s)"
  by (simp add: released_def)

lemma refresh_effect:
  assumes u: "unlocked (fw_env w)" and "distinct ts" and "set ts \<inter> set (vfstask s TASK_WAIT_SYNC) = {}"
  shows "vfstask (refresh_tracker_task w ts s) q =
      (if q = TASK_WAIT_SYNC then vfstask s TASK_WAIT_SYNC @ ts else filter (\<lambda>t. t \<notin> set ts) (vfstask s q))"
    and "userl (refresh_tracker_task w ts s) fd = filter (\<lambda>t. t \<notin> set ts) (userl s fd)"
proof -
  have "vfstask (foldl (\<lambda>s t. released w TASK_WAIT_SYNC t s) s ts) q =
      (if q = TASK_WAIT_SYNC then vfstask s TASK_WAIT_SYNC @ ts else filter (\<lambda>t. t \<notin> set ts) (vfstask s q)) \<and>
    userl (foldl (\<lambda>s t. released w TASK_WAIT_SYNC t s) s ts) fd = filter (\<lambda>t. t \<notin> set ts) (userl s fd)"
    using assms(2,3)
  proof (induction ts arbitrary: s)
    case (Cons t ts)
    let ?s = "released w TASK_WAIT_SYNC t s"
    have t: "t \<notin> set (vfstask s TASK_WAIT_SYNC)" using Cons.prems by auto
    have q': "vfstask ?s p = (if p = TASK_WAIT_SYNC then vfstask s TASK_WAIT_SYNC @ [t] else removeAll t (vfstask s p))" for p
      using removeAll_notin [OF t] by (simp add: released_queues [OF u] lf_add_tail_def lf_del_def)
    have "set ts \<inter> set (vfstask ?s TASK_WAIT_SYNC) = {}" using Cons.prems by (auto simp: q')
    note ih = Cons.IH [OF _ this]
    have f: "filter (\<lambda>x. x \<notin> set ts) (removeAll t xs) = filter (\<lambda>x. x \<noteq> t \<and> x \<notin> set ts) xs" for xs
      by (induction xs) auto
    show ?case using ih Cons.prems(1) by (simp add: q' f lf_del_def)
  qed simp
  then show "vfstask (refresh_tracker_task w ts s) q =
      (if q = TASK_WAIT_SYNC then vfstask s TASK_WAIT_SYNC @ ts else filter (\<lambda>t. t \<notin> set ts) (vfstask s q))"
    and "userl (refresh_tracker_task w ts s) fd = filter (\<lambda>t. t \<notin> set ts) (userl s fd)"
    by (simp_all add: refresh_released)
qed

lemma tracker_lost:
  assumes inv: "fcs_inv s" and u: "unlocked (fw_env w)" and fd: "fuser s fd" "fp_role (fpeers s fd) = ROLE_TRACKER"
  shows "vfstask (fcs_svc_finiconn w fd s) TASK_WAIT_SYNC = vfstask s TASK_WAIT_SYNC @ userl s fd"
    and "vfstask (fcs_svc_finiconn w fd s) TASK_RUN = filter (\<lambda>t. t \<notin> set (userl s fd)) (vfstask s TASK_RUN)"
    and "userl (fcs_svc_finiconn w fd s) = (userl s)(fd := [])"
    and "fd \<notin> set (ftrackers (fcs_svc_finiconn w fd s))"
proof -
  define s1 where "s1 = s\<lparr>factive := removeAll fd (factive s), fonline := lf_del fd (fonline s),
    ftrackers := removeAll fd (ftrackers s), fcfg_list := lf_del fd (fcfg_list s)\<rparr>"
  have e: "fcs_svc_finiconn w fd s = set_fpeer fd zero_fcs_peer ((refresh_tracker_task w (userl s fd) s1)
      \<lparr>userl := (userl (refresh_tracker_task w (userl s fd) s1))(fd := []),
       fuser := (fuser (refresh_tracker_task w (userl s fd) s1))(fd := False)\<rparr>)"
    using fd by (simp add: fcs_svc_finiconn_def Let_def s1_def)
  have wf: "lf_wf (vfstask s)" "lf_wf (userl s)" and run: "set (userl s fd) \<subseteq> set (vfstask s TASK_RUN)"
    using inv by (auto simp: fcs_inv_def fp.inv_def queues_ok_def)
  have d: "distinct (userl s fd)" using wf(2) by (simp add: lf_wf_def)
  have "TASK_RUN \<noteq> TASK_WAIT_SYNC" by (simp add: queue_defs)
  then have "set (userl s fd) \<inter> set (vfstask s1 TASK_WAIT_SYNC) = {}"
    using run lf_wf_unique [OF wf(1), of _ TASK_RUN TASK_WAIT_SYNC] by (auto simp: s1_def)
  note r = refresh_effect [OF u d this]
  have q: "vfstask (fcs_svc_finiconn w fd s) = vfstask (refresh_tracker_task w (userl s fd) s1)"
    by (simp add: e set_fpeer_def)
  show "vfstask (fcs_svc_finiconn w fd s) TASK_WAIT_SYNC = vfstask s TASK_WAIT_SYNC @ userl s fd"
    "vfstask (fcs_svc_finiconn w fd s) TASK_RUN = filter (\<lambda>t. t \<notin> set (userl s fd)) (vfstask s TASK_RUN)"
    unfolding q r(1) by (simp_all add: s1_def queue_defs)
  have "filter (\<lambda>t. t \<notin> set (userl s fd)) (userl s fd') = userl s fd'" if "fd' \<noteq> fd" for fd'
    using lf_wf_unique [OF wf(2), of _ fd' fd] that by (auto simp: filter_id_conv)
  then show "userl (fcs_svc_finiconn w fd s) = (userl s)(fd := [])"
    by (auto simp: e set_fpeer_def r(2) fun_eq_iff) (simp add: s1_def)+
  have "ftrackers (refresh_tracker_task w ts s') = ftrackers s'" for ts s'
    unfolding refresh_released
    by (induction ts arbitrary: s') (simp_all add: released_def fcs_put_def vfs_set_task_def set_status_def)
  then show "fd \<notin> set (ftrackers (fcs_svc_finiconn w fd s))" by (simp add: e set_fpeer_def s1_def)
qed

section \<open>The choice of a tracker\<close>

lemma least_fold:
  assumes "foldl (tracker_step s) acc fds = Some (fd, n)"
  shows "acc = Some (fd, n) \<or> fd \<in> set fds \<and> fp_role (fpeers s fd) = ROLE_TRACKER \<and> n = fp_taskcount (fpeers s fd)"
    and "\<And>fd' n'. acc = Some (fd', n') \<Longrightarrow> n \<le> n'"
    and "\<And>fd'. fd' \<in> set fds \<Longrightarrow> fp_role (fpeers s fd') = ROLE_TRACKER \<Longrightarrow> n \<le> fp_taskcount (fpeers s fd')"
proof -
  have "(acc = Some (fd, n) \<or> fd \<in> set fds \<and> fp_role (fpeers s fd) = ROLE_TRACKER \<and> n = fp_taskcount (fpeers s fd)) \<and>
    (\<forall>fd' n'. acc = Some (fd', n') \<longrightarrow> n \<le> n') \<and>
    (\<forall>fd'\<in>set fds. fp_role (fpeers s fd') = ROLE_TRACKER \<longrightarrow> n \<le> fp_taskcount (fpeers s fd'))"
    using assms
  proof (induction fds arbitrary: acc)
    case (Cons g fds)
    from Cons.IH [of "tracker_step s acc g"] Cons.prems
    have ih: "tracker_step s acc g = Some (fd, n) \<or> fd \<in> set fds \<and> fp_role (fpeers s fd) = ROLE_TRACKER \<and>
        n = fp_taskcount (fpeers s fd)"
      "\<forall>fd' n'. tracker_step s acc g = Some (fd', n') \<longrightarrow> n \<le> n'"
      "\<forall>fd'\<in>set fds. fp_role (fpeers s fd') = ROLE_TRACKER \<longrightarrow> n \<le> fp_taskcount (fpeers s fd')" by auto
    show ?case
    proof (cases acc)
      case None
      then show ?thesis using ih by (auto simp: tracker_step_def Let_def split: if_splits)
    next
      case (Some a)
      obtain f0 n0 where "a = (f0, n0)" by (cases a)
      then show ?thesis using ih Some by (auto simp: tracker_step_def Let_def split: if_splits)
    qed
  qed simp
  then show "acc = Some (fd, n) \<or> fd \<in> set fds \<and> fp_role (fpeers s fd) = ROLE_TRACKER \<and> n = fp_taskcount (fpeers s fd)"
    and "\<And>fd' n'. acc = Some (fd', n') \<Longrightarrow> n \<le> n'"
    and "\<And>fd'. fd' \<in> set fds \<Longrightarrow> fp_role (fpeers s fd') = ROLE_TRACKER \<Longrightarrow> n \<le> fp_taskcount (fpeers s fd')" by blast+
qed

lemma least_tracker_least:
  assumes "least_tracker s = Some fd"
  shows "fd \<in> set (ftrackers s)" and "fp_role (fpeers s fd) = ROLE_TRACKER"
    and "\<And>fd'. fd' \<in> set (ftrackers s) \<Longrightarrow> fp_role (fpeers s fd') = ROLE_TRACKER \<Longrightarrow>
      fp_taskcount (fpeers s fd) \<le> fp_taskcount (fpeers s fd')"
proof -
  obtain n where f: "foldl (tracker_step s) None (ftrackers s) = Some (fd, n)"
    using assms by (auto simp: least_tracker_def)
  note l = least_fold [OF f]
  show "fd \<in> set (ftrackers s)" "fp_role (fpeers s fd) = ROLE_TRACKER" using l(1) by auto
  show "\<And>fd'. fd' \<in> set (ftrackers s) \<Longrightarrow> fp_role (fpeers s fd') = ROLE_TRACKER \<Longrightarrow>
      fp_taskcount (fpeers s fd) \<le> fp_taskcount (fpeers s fd')" using l(1,3) by auto
qed

section \<open>The listing of a directory\<close>

definition with_digest :: "(fileinfo \<Rightarrow> string option) \<Rightarrow> fileinfo list \<Rightarrow> nat" where
  "with_digest digest fs = length (takeWhile (\<lambda>f. digest f \<noteq> None) fs)"

lemma file_tasks_stuck: "digest f = None \<Longrightarrow> file_tasks n w digest (f # fs) = []"
  by (induction n) (cases fs; simp)+

lemma with_digest_le: "with_digest digest fs \<le> length fs"
  unfolding with_digest_def by (rule length_takeWhile_le)

lemma file_tasks_listed:
  "file_tasks (length fs) w digest (fs @ [z]) =
     map (\<lambda>i. file_task w (fs ! i) (the (digest (fs ! i))) ((fs @ [z]) ! Suc i)) [0..<with_digest digest fs]"
proof (induction fs)
  case (Cons f fs)
  obtain g gs where g: "fs @ [z] = g # gs" by (cases "fs @ [z]") auto
  show ?case
  proof (cases "digest f")
    case None
    then show ?thesis by (simp add: with_digest_def file_tasks_stuck [where digest = digest] del: file_tasks.simps)
  next
    case (Some m)
    have "[0..<with_digest digest (f # fs)] = 0 # map Suc [0..<with_digest digest fs]"
      using Some by (simp add: with_digest_def map_Suc_upt upt_conv_Cons del: upt_Suc)
    then show ?thesis using Cons.IH Some g by (simp add: comp_def)
  qed
qed (simp add: with_digest_def)

lemma fcs_listing:
  assumes sort: "mset (fw_sort w sortinode fs) = mset fs" and "fs = dir_files w s path endtime starttime"
    and room: "length fs < MAXFILE" and ino: "\<forall>f\<in>set fs. fi_inode f \<noteq> 0"
    and srt: "gs = fw_sort w sortinode fs" and n: "n = with_digest (digest_at w s) gs"
  shows "length (dir_tasks w s path endtime starttime) = n"
    and "i < n \<Longrightarrow> dir_tasks w s path endtime starttime ! i =
      (let f = gs ! i; base = zero_base\<lparr>tb_filename := fi_file f, tb_src_domain := take 15 (fw_hostname w),
           tb_fsize := fi_size f, tb_mtime := fi_mtime f, tb_ctime := fi_ctime f, tb_fmode := fi_mode f,
           tb_filemd5 := take 32 (the (digest_at w s f)), tb_starttime := e_now (fw_env w)\<rparr>
       in if Suc i < length gs \<and> fi_inode (gs ! Suc i) = fi_inode f
          then base\<lparr>tb_type := TASK_LINKFILE, tb_linkfile := fi_file (gs ! Suc i)\<rparr>
          else base\<lparr>tb_type := TASK_ADDFILE\<rparr>)"
proof -
  have len: "length gs = length fs" using sort by (metis size_mset srt)
  have set: "set gs = set fs" using sort by (metis set_mset_mset srt)
  have d: "dir_tasks w s path endtime starttime =
      map (\<lambda>i. file_task w (gs ! i) (the (digest_at w s (gs ! i))) ((gs @ [zero_fileinfo]) ! Suc i)) [0..<n]"
    using room len by (simp add: dir_tasks_def Let_def assms(2) [symmetric] srt [symmetric] file_tasks_listed n)
  then show "length (dir_tasks w s path endtime starttime) = n" by simp
  assume i: "i < n"
  then have il: "i < length gs" using with_digest_le [of "digest_at w s" gs] n by simp
  then have "fi_inode (gs ! i) \<noteq> 0" using ino set by auto
  then show "dir_tasks w s path endtime starttime ! i =
      (let f = gs ! i; base = zero_base\<lparr>tb_filename := fi_file f, tb_src_domain := take 15 (fw_hostname w),
           tb_fsize := fi_size f, tb_mtime := fi_mtime f, tb_ctime := fi_ctime f, tb_fmode := fi_mode f,
           tb_filemd5 := take 32 (the (digest_at w s f)), tb_starttime := e_now (fw_env w)\<rparr>
       in if Suc i < length gs \<and> fi_inode (gs ! Suc i) = fi_inode f
          then base\<lparr>tb_type := TASK_LINKFILE, tb_linkfile := fi_file (gs ! Suc i)\<rparr>
          else base\<lparr>tb_type := TASK_ADDFILE\<rparr>)"
    using i il d by (auto simp: file_task_def Let_def nth_append zero_fileinfo_def)
qed

section \<open>Files written for another machine\<close>

lemma remove_noted_last:
  "\<forall>f\<in>set fs. sd_fname f \<noteq> buf \<Longrightarrow> remove_noted buf (fs @ [\<lparr>sd_fname = buf, sd_itime = n\<rparr>]) = Some fs"
  by (induction fs) auto

lemma own_write_ignored:
  assumes buf: "sync_name fname = Some buf" "sync_name (fwatch s wd @ ''/'' @ name) = Some buf"
    and fresh: "\<forall>f\<in>set (fsync_dirs s (sync_index buf)). sd_fname f \<noteq> buf"
    and w: "fw_mem w" "fcs_get_lock w = 0" "fcs_get_lock w' = 0"
    and name: "take 1 name \<noteq> ''.''" "check_file_filter name (fw_filter w') = 0" and on: "self_stat (fcfg s) \<noteq> OFF_LINE"
  shows "inotify_event_handler w' wd name msk (add_to_sync_dir_list w fname s) = s"
proof -
  let ?i = "sync_index buf"
  define s1 where "s1 = s\<lparr>fsync_dirs := (fsync_dirs s)(?i := fsync_dirs s ?i @ [\<lparr>sd_fname = buf, sd_itime = e_now (fw_env w)\<rparr>])\<rparr>"
  have a: "add_to_sync_dir_list w fname s = s1" using buf(1) w by (simp add: add_to_sync_dir_list_def s1_def)
  have "fwatch s1 wd = fwatch s wd" by (simp add: s1_def)
  then have "check_sync_dir_list w' (fwatch s1 wd @ ''/'' @ name) s1 = (0, s)"
    using buf(2) w(3) remove_noted_last [OF fresh] by (simp add: check_sync_dir_list_def s1_def)
  then show ?thesis
    unfolding a inotify_event_handler_def Let_def using name on by (simp add: s1_def)
qed

lemma newtask_write_ignored:
  assumes "sync_name (tb_filename base) = Some buf" and "sync_name (fwatch s wd @ ''/'' @ name) = Some buf"
    and "\<forall>f\<in>set (fsync_dirs s (sync_index buf)). sd_fname f \<noteq> buf"
    and "fw_mem w" and "fcs_get_lock w = 0" and "fcs_get_lock w' = 0"
    and "take 1 name \<noteq> ''.''" and "check_file_filter name (fw_filter w') = 0" and "self_stat (fcfg s) \<noteq> OFF_LINE"
  shows "inotify_event_handler w' wd name msk (queue_newtask w t base sub s) =
    (queue_newtask w t base sub s)\<lparr>fsync_dirs := fsync_dirs s\<rparr>"
proof -
  define s1 where "s1 = (let s = set_task t (zero_task\<lparr>ti_base := base\<lparr>tb_overstatus := OVER_UNKNOWN\<rparr>, ti_sub := sub\<rparr>) s;
          s = fcs_put w t TASK_WAIT (s\<lparr>ftotal_sync := ftotal_sync s + 1\<rparr>)
      in snd (add_task_to_alltask (fw_env w) ROLE_FCS t s))"
  have f: "fsync_dirs s1 = fsync_dirs s" "fwatch s1 = fwatch s" "fcfg s1 = fcfg s"
    by (simp_all add: s1_def Let_def add_task_to_alltask_def fcs_put_def vfs_set_task_def set_status_def set_task_def)
  have q: "queue_newtask w t base sub s = add_to_sync_dir_list w (tb_filename base) s1"
    by (simp add: queue_newtask_def s1_def Let_def)
  have "inotify_event_handler w' wd name msk (queue_newtask w t base sub s) = s1"
    unfolding q by (rule own_write_ignored) (use assms f in simp_all)
  moreover have "(add_to_sync_dir_list w (tb_filename base) s1)\<lparr>fsync_dirs := fsync_dirs s\<rparr> = s1"
    using assms(1,4,5) f(1) [symmetric] by (simp add: add_to_sync_dir_list_def)
  ultimately show ?thesis unfolding q by simp
qed

lemma fcs_boot_queues: "vfstask (fcs_boot w block tmp c lo) TASK_HOME = rev (map (\<lambda>i. block + i) [0..<POOL])"
  by (simp add: fcs_boot_def fcs_svc_init_def set_fcs_stat_def init_queues)

end
