(* ===== verification/FcsSamples.thy ===== *)
theory FcsSamples
  imports FcsFacts Samples FileSamples
begin

text \<open>
  A source machine with a tracker on descriptor 4 that works on task 5, and a data directory
  with two names of one file.
\<close>

definition sample_links :: filesys where
  "sample_links = sample_fs\<lparr>fs_file := [[''d'', ''1'', ''2'', ''f''] \<mapsto> 3, [''d'', ''1'', ''2'', ''g''] \<mapsto> 3]\<rparr>"

definition sample_fw :: fworld where
  "sample_fw = \<lparr>fw_env = calm, fw_out = sample_out, fw_abi = sample_abi, fw_sync_of = (\<lambda>_. zero_sync),
     fw_sync_bytes = (\<lambda>_. [1]), fw_sync_size = 1, fw_peerip = (\<lambda>_. 2), fw_timeout = 60, fw_max_task = 16,
     fw_task_timeout = 100, fw_dir_count = 10, fw_start_time = 900, fw_path = ''/p'', fw_hostname = ''fcs1.56.com'',
     fw_lock = 0, fw_mem = True, fw_sort = (\<lambda>_ fs. fs), fw_behind = zero_fileinfo, fw_self = zero_ipinfo,
     fw_lw = sample_lw\<lparr>lw_readdir := (\<lambda>_. Some [(''f'', Some 6), (''g'', Some 6)])\<rparr>,
     fw_filter = \<lparr>allow_list = [\<lparr>fi_strings = [], fi_s_len = 0, fi_type = 0\<rparr>], deny_list = []\<rparr>\<rparr>"

definition sample_fcs :: fcs_state where
  "sample_fcs = \<lparr>tasks = (\<lambda>_. zero_tasklist\<lparr>tl_status := TASK_RUN\<rparr>),
     vfstask = (\<lambda>q. if q = TASK_RUN then [5] else []), alltask = (\<lambda>_. []), userl = (\<lambda>fd. if fd = 4 then [5] else []),
     taskcount = (\<lambda>_. 0), tmpst = sample_tmp,
     fpeers = (\<lambda>fd. if fd = 4 then zero_fcs_peer\<lparr>fp_role := ROLE_TRACKER\<rparr> else zero_fcs_peer),
     fuser = (\<lambda>fd. fd = 4), factive = [4], ftrackers = [4], fonline = (\<lambda>_. []), fcfg_list = (\<lambda>_. []),
     fcfg = sample_cfg, fsent = [], fclosed = [], fsync_dirs = (\<lambda>_. []), fsync_list = [], fflag = 0,
     ftotal_sync = 0, ftotal_synced = 0, flast_sync = 0, flast_scan = 0, fday_last = 0, fday_count = 0, fstart = 0,
     fwatch = (\<lambda>_. ''/d/1/2''), freq = (\<lambda>_. zero_sync), frsp = (\<lambda>_. None), fmem = [],
     flocal = sample_ls\<lparr>lo_fs := sample_links\<rparr>\<rparr>"

lemma unlocked_fw [simp]: "unlocked (fw_env sample_fw)"
  by (simp add: unlocked_def sample_fw_def)

lemma sample_fcs_inv: "fcs_inv sample_fcs"
  by (auto simp: fcs_inv_def fp.inv_def counts_on_def queues_ok_def sample_fcs_def lf_wf_def valid_status_def queue_defs
      split: if_splits)

lemma sample_fcs_simps [simp]:
  "fuser sample_fcs 4" "fp_role (fpeers sample_fcs 4) = ROLE_TRACKER" "userl sample_fcs 4 = [5]"
  "vfstask sample_fcs TASK_WAIT_SYNC = []" "fsync_dirs sample_fcs = (\<lambda>_. [])" "fwatch sample_fcs = (\<lambda>_. ''/d/1/2'')"
  "self_stat (fcfg sample_fcs) = ON_LINE"
  by (simp_all add: sample_fcs_def queue_defs sample_cfg_def)

lemma sample_fw_simps [simp]:
  "fw_mem sample_fw" "fcs_get_lock sample_fw = 0" "fw_sort sample_fw = (\<lambda>_ fs. fs)"
  "check_file_filter ''f'' (fw_filter sample_fw) = 0"
  by (simp_all add: sample_fw_def fcs_get_lock_def check_file_filter_def check_file_allow_def)

lemma sample_sync_name: "sync_name ''/a/1/2/f'' = Some ''1/2/f''" "sync_name ''/d/1/2/f'' = Some ''1/2/f''"
  by code_simp+

lemma sample_kernel: "lw_kernel (fcs_local sample_fw s) = open_kernel"
  by (simp add: fcs_local_def sample_fw_def)

lemma sample_dir_files: "map fi_inode (dir_files sample_fw sample_fcs ''/d/1/2'' 0 0) = [3, 3]"
    "map fi_file (dir_files sample_fw sample_fcs ''/d/1/2'' 0 0) = [''/d/1/2/f'', ''/d/1/2/g'']"
proof -
  have p: "path_of ''/d/1/2/f'' = [''d'', ''1'', ''2'', ''f'']" "path_of ''/d/1/2/g'' = [''d'', ''1'', ''2'', ''g'']"
    by (simp_all add: path_of_def)
  have r: "lw_readdir (fw_lw sample_fw) x = Some [(''f'', Some 6), (''g'', Some 6)]" for x by (simp add: sample_fw_def)
  have flt: "check_file_filter x (fw_filter sample_fw) = 0" for x
    by (simp add: sample_fw_def check_file_filter_def check_file_allow_def)
  have st: "sys_stat open_kernel [''d'', ''1'', ''2'', ''f''] (lo_fs (flocal sample_fcs)) = Some 3"
    "sys_stat open_kernel [''d'', ''1'', ''2'', ''g''] (lo_fs (flocal sample_fcs)) = Some 3"
    by (simp_all add: sys_stat_def open_kernel_def sample_fcs_def sample_links_def)
  have g: "k_grants open_kernel a b" for a b by (simp add: open_kernel_def)
  show "map fi_inode (dir_files sample_fw sample_fcs ''/d/1/2'' 0 0) = [3, 3]"
    "map fi_file (dir_files sample_fw sample_fcs ''/d/1/2'' 0 0) = [''/d/1/2/f'', ''/d/1/2/g'']"
    by (simp_all add: dir_files_def r dir_file_def Let_def flt sample_kernel p st g map_filter_simps MAXFILE_def)
qed

lemma sample_digest_at:
  "fi_file f = ''/d/1/2/f'' \<or> fi_file f = ''/d/1/2/g'' \<Longrightarrow> digest_at sample_fw sample_fcs f \<noteq> None"
proof -
  have p: "path_of ''/d/1/2/f'' = [''d'', ''1'', ''2'', ''f'']" "path_of ''/d/1/2/g'' = [''d'', ''1'', ''2'', ''g'']"
    by (simp_all add: path_of_def)
  have j: "length (lw_junk (fw_lw sample_fw)) = 64" by (simp add: sample_fw_def)
  assume "fi_file f = ''/d/1/2/f'' \<or> fi_file f = ''/d/1/2/g''"
  then show ?thesis
    by (auto simp: digest_at_def getfilemd5view_def getfilemd5_ok [OF j] file_for_digest_def sample_kernel p open_kernel_def
        contents_def sample_fcs_def sample_links_def)
qed

lemma sample_queued: "vfstask (queue_newtask sample_fw 6 base sub sample_fcs) TASK_WAIT = [6]"
proof -
  have "vfstask (add_to_sync_dir_list w x s) = vfstask s" for w x s
    by (simp add: add_to_sync_dir_list_def split: option.split)
  moreover have "vfstask (snd (add_task_to_alltask e r t s)) = vfstask s" for e r t and s :: fcs_state
    by (simp add: add_task_to_alltask_def Let_def)
  ultimately show ?thesis
    by (simp add: queue_newtask_def Let_def fcs_put_queues) (simp add: sample_fcs_def queue_defs)
qed

end
