(* ===== verification/VossBase.thy ===== *)
theory VossBase
  imports Conn LocalFile MyConfig
begin

text \<open>
  The plugin of the VOSS master (\<open>src/network/voss\<close>): it collects what the machines submit into files,
  notes their states, and passes commands of an operator on to them.  A peer is named by its
  descriptor.  The working files are those of the file system \<open>vfs\<close>; \<open>vfiles\<close> says which file an open
  descriptor stands for, and all of them are open for appending.
\<close>

definition REQ_AUTH :: u32 where "REQ_AUTH = 0x00000001"
definition REQ_SUBMIT :: u32 where "REQ_SUBMIT = 0x00000002"
definition REQ_HEARTBEAT :: u32 where "REQ_HEARTBEAT = 0x00000005"
definition REQ_VFS_CMD :: u32 where "REQ_VFS_CMD = 0x00000008"
definition RSP_VFS_CMD :: u32 where "RSP_VFS_CMD = 0x80000008"
definition REQ_STOPVFS :: u32 where "REQ_STOPVFS = 0x00000009"
definition VOSSPREFIX :: string where "VOSSPREFIX = ''voss_''"
definition VOSSSUFFIX :: string where "VOSSSUFFIX = ''.master''"

lemmas voss_cmds = REQ_AUTH_def REQ_SUBMIT_def REQ_HEARTBEAT_def REQ_VFS_CMD_def RSP_VFS_CMD_def REQ_STOPVFS_def

datatype voss_stat = V_LOGOUT | V_CONNECTED | V_LOGIN | V_HB_SEND | V_HB_RSP | V_IDLE | V_RECV_LAST | V_SEND_LAST
  | PREPARE_SYNCFILE | SYNCFILEING | SYNCFILE_POST | SYNCFILE_OK | PREPARE_SENDFILE | V_SENDFILEING | SENDFILE_OK

record t_voss_data_info =
  vd_recvlen :: int
  vd_datalen :: int
  vd_opentime :: int
  vd_outfile :: string

record vfs_voss_peer =
  vp_ip :: string
  vp_cfgip :: u32
  vp_con_ip :: u32
  vp_fd :: int
  vp_in_fd :: int
  vp_hbtime :: int
  vp_data :: t_voss_data_info
  vp_sock_stat :: voss_stat
  vp_server_stat :: byte
  vp_role :: role

definition zero_voss_peer :: vfs_voss_peer where
  "zero_voss_peer = \<lparr>vp_ip = [], vp_cfgip = 0, vp_con_ip = 0, vp_fd = 0, vp_in_fd = 0, vp_hbtime = 0,
     vp_data = \<lparr>vd_recvlen = 0, vd_datalen = 0, vd_opentime = 0, vd_outfile = []\<rparr>,
     vp_sock_stat = V_LOGOUT, vp_server_stat = 0, vp_role = UNKOWN\<rparr>"

record voss_state =
  vpeers :: "ptr \<Rightarrow> vfs_voss_peer"
  vuser :: "ptr \<Rightarrow> bool"
  vactive :: "ptr list"
  vonline :: "nat \<Rightarrow> ptr list"
  vcfg_list :: "nat \<Rightarrow> ptr list"
  vcfg :: cfg_state
  vsent :: "(int \<times> byte list) list"
  vclosed :: "ptr list"
  vstat_fd :: int
  vstat_file :: string
  vstat_last :: int
  vfs :: filesys
  vfiles :: "int \<Rightarrow> nat option"
  vseq :: u32

text \<open>
  \<open>vw_newfd\<close> is the number of a descriptor \<open>open\<close> grants, \<open>vw_write\<close> how many bytes a \<open>write\<close> takes,
  \<open>vw_strtime\<close> the time as text, \<open>vw_behind\<close> the byte behind the received data.
\<close>

record vworld =
  vw_env :: env
  vw_out :: outside
  vw_kernel :: kernel
  vw_peerip :: "ptr \<Rightarrow> u32"
  vw_newfd :: nat
  vw_write :: "nat \<Rightarrow> nat option"
  vw_readdir :: "string \<Rightarrow> string list option"
  vw_timeout :: int
  vw_interval :: int
  vw_path :: string
  vw_strtime :: string
  vw_behind :: byte

definition voss_stat_interval :: int where "voss_stat_interval = 120"

definition set_vpeer :: "ptr \<Rightarrow> vfs_voss_peer \<Rightarrow> voss_state \<Rightarrow> voss_state" where
  "set_vpeer fd p s = s\<lparr>vpeers := (vpeers s)(fd := p)\<rparr>"

definition v_send :: "int \<Rightarrow> byte list \<Rightarrow> voss_state \<Rightarrow> voss_state" where
  "v_send fd bs s = s\<lparr>vsent := vsent s @ [(fd, bs)]\<rparr>"

definition v_path :: "vworld \<Rightarrow> string \<Rightarrow> string \<Rightarrow> string" where
  "v_path w dir name = take 255 (vw_path w @ ''/'' @ dir @ ''/'' @ name)"

section \<open>Files\<close>

definition v_open :: "vworld \<Rightarrow> string \<Rightarrow> voss_state \<Rightarrow> int \<times> voss_state" where
  "v_open w name s =
     (case sys_creat (vw_kernel w) (e_now (vw_env w)) 0x1A4 (path_of name) (vfs s) of
        (None, fs) \<Rightarrow> (-1, s\<lparr>vfs := fs\<rparr>)
      | (Some i, fs) \<Rightarrow> (int (vw_newfd w), s\<lparr>vfs := fs, vfiles := (vfiles s)(int (vw_newfd w) := Some i)\<rparr>))"

definition v_close :: "int \<Rightarrow> voss_state \<Rightarrow> voss_state" where
  "v_close d s = s\<lparr>vfiles := (vfiles s)(d := None)\<rparr>"

text \<open>\<open>None\<close>: the call fails.\<close>

definition v_write :: "vworld \<Rightarrow> int \<Rightarrow> byte list \<Rightarrow> voss_state \<Rightarrow> nat option \<times> voss_state" where
  "v_write w d bs s =
     (case vfiles s d of None \<Rightarrow> (None, s)
      | Some i \<Rightarrow>
        (case vw_write w (length bs) of None \<Rightarrow> (None, s)
         | Some n \<Rightarrow>
           let bs = take n bs
           in (Some (length bs), s\<lparr>vfs := set_inode i (\<lambda>f. f\<lparr>in_data := in_data f @ bs\<rparr>) (vfs s)\<rparr>)))"

section \<open>vfs\_voss\_sub.c\<close>

text \<open>A machine that is not configured is taken for a storage machine.\<close>

definition voss_init_cfg_connect :: "vworld \<Rightarrow> string \<Rightarrow> ptr \<Rightarrow> voss_state \<Rightarrow> int \<times> voss_state" where
  "voss_init_cfg_connect w sip fd s =
     (let (ip, o_s_ip) = get_uint32_ip (f_dns (vw_out w)) sip in
      if ip = INADDR_NONE then (-1, s)
      else
        let r = (case get_ip_info (vw_env w) (vw_out w) sip True (vcfg s) of
                   (r, Some p) \<Rightarrow> ii_role (infos (vcfg s) p) | (r, None) \<Rightarrow> ROLE_CS);
            s = set_vpeer fd ((vpeers s fd)\<lparr>vp_role := r, vp_cfgip := ip, vp_sock_stat := V_LOGIN\<rparr>) s
        in (0, s\<lparr>vcfg_list := lf_add_head fd (bucket_of ip) (vcfg_list s)\<rparr>))"

text \<open>A working file is complete when it has been open long enough: it is linked and moved away.\<close>

definition check_close_local :: "vworld \<Rightarrow> ptr \<Rightarrow> voss_state \<Rightarrow> int \<times> voss_state" where
  "check_close_local w fd s =
     (let p = vpeers s fd; d = vp_data p in
      if vp_in_fd p > 0 \<and> e_now (vw_env w) - vd_opentime d \<ge> vw_interval w then
        let s = set_vpeer fd (p\<lparr>vp_in_fd := -1\<rparr>) (v_close (vp_in_fd p) s);
            workfile = path_of (take 255 (vd_outfile d));
            name = posix_basename (vd_outfile d);
            (ok, fs) = sys_link (vw_kernel w) workfile (path_of (v_path w ''syncdir'' name)) (vfs s);
            (ok, fs) = sys_rename (vw_kernel w) workfile (path_of (v_path w ''outdir'' name)) fs
        in (RECV_ADD_EPOLLOUT, s\<lparr>vfs := fs\<rparr>)
      else (RECV_ADD_EPOLLOUT, s))"

definition voss_touch :: "vworld \<Rightarrow> ptr \<Rightarrow> voss_state \<Rightarrow> voss_state" where
  "voss_touch w fd s = (set_vpeer fd ((vpeers s fd)\<lparr>vp_hbtime := e_now (vw_env w)\<rparr>) s)
     \<lparr>vactive := removeAll fd (vactive s) @ [fd]\<rparr>"

definition receiving_data :: "voss_stat \<Rightarrow> bool" where
  "receiving_data st \<longleftrightarrow> st = PREPARE_SYNCFILE \<or> st = SYNCFILEING"

text \<open>The rest is compared as a \<open>size_t\<close>, so a negative rest takes everything.\<close>

definition sub_recv :: "vworld \<Rightarrow> ptr \<Rightarrow> mybuff \<Rightarrow> voss_state \<Rightarrow> int \<times> mybuff \<times> voss_state" where
  "sub_recv w fd m s =
     (let s = voss_touch w fd s in
      if \<not> receiving_data (vp_sock_stat (vpeers s fd)) then (RECV_ADD_EPOLLIN, m, s)
      else case mybuff_getdata m of None \<Rightarrow> (RECV_ADD_EPOLLIN, m, s)
      | Some data \<Rightarrow>
        let p = vpeers s fd; d = vp_data p;
            remain = nat ((vd_datalen d - vd_recvlen d) mod 2 ^ 64)
        in case v_write w (vp_in_fd p) (take remain data) s of
             (None, s) \<Rightarrow> (RECV_CLOSE, m, s)
           | (Some n, s) \<Rightarrow>
             let m = mybuff_skipdata n m; d = d\<lparr>vd_recvlen := vd_recvlen d + int n\<rparr>;
                 s = set_vpeer fd ((vpeers s fd)\<lparr>vp_data := d\<rparr>) s
             in if vd_recvlen d \<ge> vd_datalen d then
                  let s = set_vpeer fd ((vpeers s fd)\<lparr>vp_sock_stat := V_IDLE\<rparr>) s;
                      (r, s) = check_close_local w fd s
                  in (r, m, s)
                else (RECV_ADD_EPOLLIN, m, s))"

definition role_name :: "role \<Rightarrow> string" where
  "role_name r = (case r of UNKOWN \<Rightarrow> ''unkown'' | ROLE_FCS \<Rightarrow> ''fcs'' | ROLE_CS \<Rightarrow> ''cs'' | ROLE_TRACKER \<Rightarrow> ''tracker''
     | ROLE_VOSS_MASTER \<Rightarrow> ''voss_master'' | SELF_IP \<Rightarrow> ''self_ip'')"

definition work_name :: "vworld \<Rightarrow> vfs_voss_peer \<Rightarrow> string" where
  "work_name w p = v_path w ''workdir''
     (role_name (vp_role p) @ ''_'' @ VOSSPREFIX @ vp_ip p @ ''_'' @ vw_strtime w @ VOSSSUFFIX)"

definition process_data_req :: "vworld \<Rightarrow> ptr \<Rightarrow> t_head_info \<Rightarrow> mybuff \<Rightarrow> voss_state \<Rightarrow> int \<times> mybuff \<times> voss_state" where
  "process_data_req w fd h m s =
     (let p = vpeers s fd;
          (ok, s) = (if vp_in_fd p < 0 then
              (let name = work_name w p;
                   s = set_vpeer fd (p\<lparr>vp_data := (vp_data p)\<lparr>vd_outfile := name\<rparr>\<rparr>) s;
                   (localfd, s) = v_open w name s; p = vpeers s fd
               in if localfd < 0 then (False, s)
                  else (True, set_vpeer fd (p\<lparr>vp_in_fd := localfd,
                         vp_data := (vp_data p)\<lparr>vd_opentime := e_now (vw_env w)\<rparr>\<rparr>) s))
            else (True, s))
      in if \<not> ok then (RECV_CLOSE, m, s)
         else
           let p = vpeers s fd;
               s = set_vpeer fd (p\<lparr>vp_sock_stat := SYNCFILEING,
                     vp_data := (vp_data p)\<lparr>vd_datalen := sint (v_totallen h - word_of_nat HEADSIZE), vd_recvlen := 0\<rparr>\<rparr>) s
           in sub_recv w fd (mybuff_skipdata HEADSIZE m) s)"

text \<open>
  \<open>find_ip_stat\<close> walks \<open>cfg_list\<close> with the wrong member: what it takes for the address is the time of
  the last message, and what it takes for the descriptor is the length received.  The result is
  the descriptor the message goes to.
\<close>

definition voss_find_ip_stat :: "u32 \<Rightarrow> voss_state \<Rightarrow> int option" where
  "voss_find_ip_stat ip s =
     (case find (\<lambda>fd. word_of_int (vp_hbtime (vpeers s fd)) = ip) (vcfg_list s (bucket_of ip)) of
        Some fd \<Rightarrow> Some (vd_recvlen (vp_data (vpeers s fd)))
      | None \<Rightarrow> map_option int (find (\<lambda>fd. vp_con_ip (vpeers s fd) = ip) (vonline s (bucket_of ip))))"

definition starts_with :: "string \<Rightarrow> string \<Rightarrow> bool" where
  "starts_with pat s \<longleftrightarrow> map to_lower (take (length pat) s) = pat"

definition do_peer_msg :: "string \<Rightarrow> int \<Rightarrow> voss_state \<Rightarrow> voss_state" where
  "do_peer_msg msg fd s =
     (let msg = (case strrchr msg (CHR 0x0A) of Some k \<Rightarrow> take k msg | None \<Rightarrow> msg) in
      if starts_with ''vfs_cmd=stopvfs'' msg then
        let (head, seq) = create_voss_head (vseq s) REQ_STOPVFS 0 in v_send fd head (s\<lparr>vseq := seq\<rparr>)
      else
        let (head, seq) = create_voss_head (vseq s) REQ_VFS_CMD (length msg)
        in v_send fd (str_bytes msg) (v_send fd head (s\<lparr>vseq := seq\<rparr>)))"

definition do_ip_msg :: "vworld \<Rightarrow> string \<Rightarrow> string \<Rightarrow> voss_state \<Rightarrow> voss_state" where
  "do_ip_msg w msg sip s =
     (let (ip, o_s_ip) = get_uint32_ip (f_dns (vw_out w)) sip in
      if ip = INADDR_NONE then s
      else case voss_find_ip_stat ip s of None \<Rightarrow> s | Some fd \<Rightarrow> do_peer_msg msg fd s)"

definition do_group_msg :: "string \<Rightarrow> role \<Rightarrow> voss_state \<Rightarrow> voss_state" where
  "do_group_msg msg grp s =
     foldl (\<lambda>s fd. if grp = UNKOWN \<or> grp = vp_role (vpeers s fd) then do_peer_msg msg (vp_fd (vpeers s fd)) s else s)
       s (vactive s)"

fun split_commas :: "string \<Rightarrow> string \<Rightarrow> string list" where
  "split_commas [] acc = [rev acc]"
| "split_commas (c # cs) acc = (if c = CHR '','' then rev acc # split_commas cs [] else split_commas cs (c # acc))"

definition do_sub_msg :: "vworld \<Rightarrow> string \<Rightarrow> voss_state \<Rightarrow> voss_state" where
  "do_sub_msg w buf s =
     (if \<not> starts_with ''iplist='' buf then s
      else case strchr buf (CHR 0x26) of None \<Rightarrow> s
      | Some k \<Rightarrow>
        let ips = drop 7 (take k buf); msg = drop (Suc k) buf in
        if starts_with ''allip'' ips then do_group_msg msg UNKOWN s
        else if starts_with ''allcs'' ips then do_group_msg msg ROLE_CS s
        else if starts_with ''alltracker'' ips then do_group_msg msg ROLE_TRACKER s
        else if starts_with ''allfcs'' ips then do_group_msg msg ROLE_FCS s
        else foldl (\<lambda>s sip. do_ip_msg w msg sip s) s (split_commas ips []))"

definition indir_file :: "vworld \<Rightarrow> string \<Rightarrow> voss_state \<Rightarrow> string \<Rightarrow> voss_state" where
  "indir_file w path s name =
     (let k = vw_kernel w; file = path_of (take 255 (path @ ''/'' @ name)) in
      if take 1 name = ''.'' \<or> \<not> (k_grants k S_open file \<and> k_grants k S_read file) then s
      else case contents file (vfs s) of None \<Rightarrow> s
      | Some d \<Rightarrow>
        let s = foldl (\<lambda>s line. do_sub_msg w (cstr line) s) s (fgets_all 20479 (bytes_str d));
            (ok, fs) = sys_rename k file (path_of (v_path w ''bkdir'' name)) (vfs s)
        in s\<lparr>vfs := (if ok then fs else snd (sys_unlink k file fs))\<rparr>)"

definition check_indir :: "vworld \<Rightarrow> voss_state \<Rightarrow> voss_state" where
  "check_indir w s =
     (let path = take 255 (vw_path w @ ''/indir'') in
      case vw_readdir w path of None \<Rightarrow> s | Some names \<Rightarrow> foldl (indir_file w path) s names)"

section \<open>vfs\_voss.c\<close>

text \<open>The file with the states the machines report; every two minutes a new one.\<close>

definition check_stat_file :: "vworld \<Rightarrow> voss_state \<Rightarrow> int \<times> voss_state" where
  "check_stat_file w s =
     (let now = e_now (vw_env w) in
      if vstat_fd s \<ge> 0 \<and> \<not> now - vstat_last s \<ge> voss_stat_interval then (0, s)
      else
        let s = (if vstat_fd s \<ge> 0 then
                   (v_close (vstat_fd s) s)\<lparr>vstat_fd := -1,
                      vfs := snd (sys_rename (vw_kernel w) (path_of (take 255 (vstat_file s)))
                               (path_of (v_path w ''outdir'' (posix_basename (vstat_file s)))) (vfs s))\<rparr>
                 else s);
            file = v_path w ''workdir'' (VOSSPREFIX @ ''stat_'' @ vw_strtime w);
            (fd, s) = v_open w file (s\<lparr>vstat_file := file\<rparr>);
            s = s\<lparr>vstat_fd := fd\<rparr>
        in if fd < 0 then (-1, s) else (0, s\<lparr>vstat_last := now\<rparr>))"

definition voss_svc_init :: "vworld \<Rightarrow> voss_state \<Rightarrow> int \<times> voss_state" where
  "voss_svc_init w s =
     check_stat_file w (s\<lparr>vactive := [], vonline := (\<lambda>_. []), vcfg_list := (\<lambda>_. []), vstat_fd := -1,
       vstat_file := [], vstat_last := 0\<rparr>)"

definition voss_svc_initconn :: "vworld \<Rightarrow> ptr \<Rightarrow> voss_state \<Rightarrow> int \<times> voss_state" where
  "voss_svc_initconn w fd s =
     (let ip = vw_peerip w fd in
      if \<not> vuser s fd \<and> e_malloc (vw_env w) = None then (303, s)
      else
        let s = set_vpeer fd (zero_voss_peer\<lparr>vp_hbtime := e_now (vw_env w), vp_sock_stat := V_CONNECTED, vp_fd := int fd,
                  vp_con_ip := ip, vp_in_fd := -1, vp_ip := ip2str ip\<rparr>) (s\<lparr>vuser := (vuser s)(fd := True)\<rparr>)
        in (0, s\<lparr>vactive := vactive s @ [fd], vonline := lf_add_head fd (bucket_of ip) (vonline s)\<rparr>))"

definition stat_name :: "byte \<Rightarrow> string" where
  "stat_name b = [''UNKOWN_STAT'', ''WAIT_SYNC'', ''SYNCING'', ''ON_LINE'', ''OFFLINE''] ! (unat b mod 5)"

definition v_writes :: "vworld \<Rightarrow> int \<Rightarrow> byte list list \<Rightarrow> voss_state \<Rightarrow> voss_state" where
  "v_writes w d bss s = foldl (\<lambda>s bs. snd (v_write w d bs s)) s bss"

text \<open>A heartbeat or the answer to a command is one line of the file.\<close>

definition note_msg :: "vworld \<Rightarrow> ptr \<Rightarrow> t_head_info \<Rightarrow> byte list \<Rightarrow> voss_state \<Rightarrow> voss_state" where
  "note_msg w fd h data s =
     (let p = vpeers s fd; body = take (unat (v_totallen h - word_of_nat HEADSIZE)) (drop HEADSIZE data);
          b = (case drop HEADSIZE data of [] \<Rightarrow> vw_behind w | b # _ \<Rightarrow> b);
          s = v_writes w (vstat_fd s) [str_bytes (vw_strtime w), str_bytes ''|'', str_bytes (vp_ip p), str_bytes ''|''] s;
          s = (if v_cmdid h = REQ_HEARTBEAT then
                 v_writes w (vstat_fd s) [str_bytes (stat_name b)] (set_vpeer fd ((vpeers s fd)\<lparr>vp_server_stat := b\<rparr>) s)
               else v_writes w (vstat_fd s) [body] s)
      in v_writes w (vstat_fd s) [str_bytes [CHR 0x0A]] s)"

definition zero_head :: t_head_info where
  "zero_head = \<lparr>v_totallen = 0, v_cmdid = 0, v_seq = 0\<rparr>"

definition voss_check_req :: "vworld \<Rightarrow> ptr \<Rightarrow> mybuff \<Rightarrow> voss_state \<Rightarrow> int \<times> mybuff \<times> voss_state" where
  "voss_check_req w fd m s =
     (case mybuff_getdata m of None \<Rightarrow> (-1, m, s)
      | Some data \<Rightarrow>
        let (ret, h) = parse_msg data zero_head; total = unat (v_totallen h) in
        if ret > 0 then (-1, m, s)
        else if v_cmdid h = REQ_HEARTBEAT \<or> v_cmdid h = RSP_VFS_CMD \<or> v_cmdid h = REQ_AUTH then
          (if length data < total then (-1, m, s)
           else if v_cmdid h = REQ_AUTH then
             let sip = cstr (bytes_str (take (unat (v_totallen h - word_of_nat HEADSIZE)) (drop HEADSIZE data)));
                 (r, s) = voss_init_cfg_connect w sip fd s
             in if r \<noteq> 0 then (RECV_CLOSE, m, s) else (0, mybuff_skipdata total m, s)
           else (0, mybuff_skipdata total m, if vstat_fd s \<ge> 0 then note_msg w fd h data s else s))
        else if v_cmdid h = REQ_SUBMIT then process_data_req w fd h m s
        else (RECV_CLOSE, m, s))"

text \<open>The loop ends when a message is incomplete or rejected; it need not end.\<close>

partial_function (option) voss_loop :: "vworld \<Rightarrow> ptr \<Rightarrow> mybuff \<Rightarrow> voss_state \<Rightarrow> (int \<times> mybuff \<times> voss_state) option" where
  "voss_loop w fd m s =
     (case voss_check_req w fd m s of (sub, m, s) \<Rightarrow>
        if sub = -1 then Some (RECV_ADD_EPOLLIN, m, s)
        else if sub = RECV_CLOSE then Some (RECV_CLOSE, m, s)
        else if sub = RECV_ADD_EPOLLIN then Some (RECV_ADD_EPOLLIN, m, s)
        else voss_loop w fd m s)"

definition voss_svc_recv :: "vworld \<Rightarrow> ptr \<Rightarrow> mybuff \<Rightarrow> voss_state \<Rightarrow> (int \<times> mybuff \<times> voss_state) option" where
  "voss_svc_recv w fd m s =
     (let s = voss_touch w fd s in
      if receiving_data (vp_sock_stat (vpeers s fd)) then
        (case sub_recv w fd m s of (ret, m, s) \<Rightarrow>
           if ret = RECV_ADD_EPOLLIN \<or> ret = RECV_CLOSE then Some (ret, m, s) else voss_loop w fd m s)
      else voss_loop w fd m s)"

definition voss_svc_send :: "voss_state \<Rightarrow> int \<times> voss_state" where
  "voss_svc_send s = (SEND_ADD_EPOLLIN, s)"

text \<open>A connection that ends publishes its file, however short it was open.\<close>

definition voss_svc_finiconn :: "vworld \<Rightarrow> ptr \<Rightarrow> voss_state \<Rightarrow> voss_state" where
  "voss_svc_finiconn w fd s =
     (if \<not> vuser s fd then s
      else
        let p = vpeers s fd;
            s = snd (check_close_local w fd (set_vpeer fd (p\<lparr>vp_data := (vp_data p)\<lparr>vd_opentime := 0\<rparr>\<rparr>) s));
            d = vp_in_fd (vpeers s fd);
            s = (if d > 0 then v_close d s else s);
            s = s\<lparr>vactive := removeAll fd (vactive s), vonline := lf_del fd (vonline s), vcfg_list := lf_del fd (vcfg_list s)\<rparr>
        in set_vpeer fd zero_voss_peer s)"

definition voss_do_close :: "vworld \<Rightarrow> ptr \<Rightarrow> voss_state \<Rightarrow> voss_state" where
  "voss_do_close w fd s = (voss_svc_finiconn w fd s)\<lparr>vclosed := vclosed s @ [fd]\<rparr>"

definition timeout_peer :: "vworld \<Rightarrow> voss_state \<Rightarrow> ptr \<Rightarrow> voss_state" where
  "timeout_peer w s fd =
     (let p = vpeers s fd;
          s = (if vp_fd p > 0 \<and> \<not> receiving_data (vp_sock_stat p) then snd (check_close_local w fd s) else s)
      in if e_now (vw_env w) - vp_hbtime (vpeers s fd) > vw_timeout w * 10 then voss_do_close w fd s else s)"

definition voss_svc_timeout :: "vworld \<Rightarrow> voss_state \<Rightarrow> voss_state" where
  "voss_svc_timeout w s =
     check_indir w (snd (check_stat_file w (foldl (timeout_peer w) s (vactive s))))"

end
