(* ===== verification/VossFacts.thy ===== *)
theory VossFacts
  imports VossBase
begin

text \<open>
  What the plugin of the VOSS master does: what a machine submits reaches its working file whole and
  in order, whatever the pieces; when the receive loop ends, and when it does not; and whom
  an operator's command reaches.
\<close>

lemma skipdata_len: "buff_wf m \<Longrightarrow> length (buff_bytes (mybuff_skipdata n m)) = length (buff_bytes m) - n"
  by (simp add: skipdata_wf(2))

lemma voss_head_parses:
  "parse_msg (fst (create_voss_head seq cmd n) @ r) h0 =
     (0, \<lparr>v_totallen = 12 + word_of_nat n, v_cmdid = cmd, v_seq = seq\<rparr>)"
  by (simp add: create_voss_head_def getseq_def parse_msg_def HEADSIZE_def of_le32_le32)

lemma length_voss_head: "length (fst (create_voss_head seq cmd n)) = 12"
  by (simp add: create_voss_head_def getseq_def)

section \<open>Submissions\<close>

text \<open>A submission on the wire.\<close>

definition submit_msg :: "u32 \<times> byte list \<Rightarrow> byte list" where
  "submit_msg x = fst (create_voss_head (fst x) REQ_SUBMIT (length (snd x))) @ snd x"

text \<open>Connection \<open>fd\<close> has its working file, inode \<open>i\<close> with contents \<open>c\<close>, open since \<open>t0\<close>.\<close>

definition collecting :: "ptr \<Rightarrow> nat \<Rightarrow> int \<Rightarrow> byte list \<Rightarrow> voss_state \<Rightarrow> bool" where
  "collecting fd i t0 c s \<longleftrightarrow> 0 < vp_in_fd (vpeers s fd) \<and> vfiles s (vp_in_fd (vpeers s fd)) = Some i \<and>
     vd_opentime (vp_data (vpeers s fd)) = t0 \<and> in_data (fs_inode (vfs s) i) = c"

definition submit_left :: "ptr \<Rightarrow> voss_state \<Rightarrow> int" where
  "submit_left fd s = vd_datalen (vp_data (vpeers s fd)) - vd_recvlen (vp_data (vpeers s fd))"

text \<open>A world in which every write takes all the bytes, and the working file is not yet old enough.\<close>

definition keeps_collecting :: "int \<Rightarrow> vworld \<Rightarrow> bool" where
  "keeps_collecting t0 w \<longleftrightarrow> (\<forall>n. vw_write w n = Some n) \<and> e_now (vw_env w) - t0 < vw_interval w"

text \<open>
  \<open>bs\<close> is what is still to be handled: the rest of the submission being received, and whole submissions
  behind it; \<open>d\<close> is what the working file will hold in the end.
\<close>

definition to_collect :: "ptr \<Rightarrow> nat \<Rightarrow> int \<Rightarrow> byte list \<Rightarrow> byte list \<Rightarrow> voss_state \<Rightarrow> bool" where
  "to_collect fd i t0 d bs s \<longleftrightarrow>
     (\<exists>c rest ms. collecting fd i t0 c s \<and> bs = rest @ concat (map submit_msg ms) \<and>
        c @ rest @ concat (map snd ms) = d \<and> (\<forall>x\<in>set ms. length (snd x) < 2 ^ 31 - 12) \<and> int (length rest) < 2 ^ 31 \<and>
        (if receiving_data (vp_sock_stat (vpeers s fd)) then submit_left fd s = int (length rest) else rest = []))"

lemma collecting_touch [simp]: "collecting fd i t0 c (voss_touch w fd s) = collecting fd i t0 c s"
  by (simp add: collecting_def voss_touch_def set_vpeer_def)

lemma touched [simp]:
  "vp_sock_stat (vpeers (voss_touch w fd s) fd) = vp_sock_stat (vpeers s fd)"
  "submit_left fd (voss_touch w fd s) = submit_left fd s"
  by (simp_all add: voss_touch_def set_vpeer_def submit_left_def)

lemma to_collect_touch [simp]: "to_collect fd i t0 d bs (voss_touch w fd s) = to_collect fd i t0 d bs s"
  by (simp add: to_collect_def)

text \<open>One call of \<open>sub_recv\<close> takes what belongs to the submission.\<close>

lemma sub_recv_collects:
  assumes j: "to_collect fd i t0 d (buff_bytes m @ fut) s" and r: "receiving_data (vp_sock_stat (vpeers s fd))"
    and w: "keeps_collecting t0 w" and m: "buff_wf m"
  obtains (part) m' s' where "sub_recv w fd m s = (RECV_ADD_EPOLLIN, m', s')" "buff_wf m'" "buff_bytes m' = []"
      "to_collect fd i t0 d fut s'" "receiving_data (vp_sock_stat (vpeers s' fd))"
  | (whole) m' s' n where "sub_recv w fd m s = (RECV_ADD_EPOLLOUT, m', s')" "buff_wf m'" "buff_bytes m' = drop n (buff_bytes m)"
      "to_collect fd i t0 d (buff_bytes m' @ fut) s'" "\<not> receiving_data (vp_sock_stat (vpeers s' fd))"
proof -
  obtain c rest ms where c: "collecting fd i t0 c s" and b: "buff_bytes m @ fut = rest @ concat (map submit_msg ms)"
    and d: "c @ rest @ concat (map snd ms) = d" and ms: "\<forall>x\<in>set ms. length (snd x) < 2 ^ 31 - 12"
    and l: "int (length rest) < 2 ^ 31" "submit_left fd s = int (length rest)"
    using j r by (auto simp: to_collect_def)
  let ?s = "voss_touch w fd s"
  let ?p = "vpeers ?s fd"
  let ?b = "buff_bytes m"
  let ?n = "min (length rest) (length ?b)"
  let ?fs = "set_inode i (\<lambda>f. f\<lparr>in_data := in_data f @ take (length rest) ?b\<rparr>) (vfs s)"
  have p: "vp_in_fd ?p = vp_in_fd (vpeers s fd)" "vp_data ?p = vp_data (vpeers s fd)" "vfiles ?s = vfiles s" "vfs ?s = vfs s"
    by (simp_all add: voss_touch_def set_vpeer_def)
  have left: "nat ((vd_datalen (vp_data ?p) - vd_recvlen (vp_data ?p)) mod 2 ^ 64) = length rest"
    using l by (simp add: p submit_left_def)
  show ?thesis
  proof (cases "?b = []")
    case True
    have "sub_recv w fd m s = (RECV_ADD_EPOLLIN, m, ?s)"
      using True r by (simp add: sub_recv_def getdata_bytes [OF m] Let_def)
    then show ?thesis using True j r m by (intro part [of m ?s]) simp_all
  next
    case False
    define s1 where "s1 = set_vpeer fd (?p\<lparr>vp_data := (vp_data ?p)\<lparr>vd_recvlen := vd_recvlen (vp_data ?p) + int ?n\<rparr>\<rparr>) (?s\<lparr>vfs := ?fs\<rparr>)"
    let ?m = "mybuff_skipdata ?n m"
    have g: "mybuff_getdata m = Some ?b" using False by (simp add: getdata_bytes [OF m])
    have tkm: "take ?n ?b = take (length rest) ?b" by (simp add: min_def)
    have wr: "v_write w (vp_in_fd ?p) (take (length rest) ?b) ?s = (Some ?n, ?s\<lparr>vfs := ?fs\<rparr>)"
      using c w tkm by (simp add: v_write_def p collecting_def keeps_collecting_def Let_def min.commute)
    have run: "sub_recv w fd m s =
      (if vd_recvlen (vp_data ?p) + int ?n \<ge> vd_datalen (vp_data ?p) then
         let (x, s') = check_close_local w fd (set_vpeer fd ((vpeers s1 fd)\<lparr>vp_sock_stat := V_IDLE\<rparr>) s1) in (x, ?m, s')
       else (RECV_ADD_EPOLLIN, ?m, s1))"
      using r unfolding sub_recv_def Let_def left g option.case wr prod.case s1_def
      by (simp add: set_vpeer_def)
    have ge: "vd_recvlen (vp_data ?p) + int ?n \<ge> vd_datalen (vp_data ?p) \<longleftrightarrow> length rest \<le> length ?b"
      using l(2) by (auto simp: submit_left_def p min_def)
    have c1: "collecting fd i t0 (c @ take (length rest) ?b) s1"
      using c by (simp add: collecting_def s1_def set_vpeer_def p set_inode_def)
    note mw = skipdata_wf [OF m, of ?n]
    show ?thesis
    proof (cases "length rest \<le> length ?b")
      case True
      let ?s2 = "set_vpeer fd ((vpeers s1 fd)\<lparr>vp_sock_stat := V_IDLE\<rparr>) s1"
      have tk: "take (length rest) ?b = rest" "drop ?n ?b @ fut = concat (map submit_msg ms)"
        using True arg_cong [OF b, of "take (length rest)"] arg_cong [OF b, of "drop (length rest)"] by simp_all
      have c2: "collecting fd i t0 (c @ rest) ?s2" using c1 tk(1) by (simp add: collecting_def set_vpeer_def)
      have cc: "check_close_local w fd ?s2 = (RECV_ADD_EPOLLOUT, ?s2)"
        using c2 w by (simp add: check_close_local_def collecting_def keeps_collecting_def Let_def)
      have idle: "\<not> receiving_data (vp_sock_stat (vpeers ?s2 fd))" by (simp add: set_vpeer_def receiving_data_def)
      have "to_collect fd i t0 d (buff_bytes ?m @ fut) ?s2"
        unfolding to_collect_def using c2 d ms idle tk(2) mw(2)
        by (intro exI [of _ "c @ rest"] exI [of _ "[]"] exI [of _ ms]) simp
      moreover have "sub_recv w fd m s = (RECV_ADD_EPOLLOUT, ?m, ?s2)"
        using run ge True cc by simp
      ultimately show ?thesis using mw idle by (intro whole [of ?m ?s2 ?n])
    next
      case short: False
      have tk: "take (length rest) ?b = ?b" "buff_bytes ?m = []" using short mw(2) by simp_all
      obtain rest' where r': "rest = ?b @ rest'" "fut = rest' @ concat (map submit_msg ms)"
        using b short by (auto simp: append_eq_append_conv2)
      have st: "vp_sock_stat (vpeers s1 fd) = vp_sock_stat (vpeers s fd)"
        by (simp add: s1_def set_vpeer_def)
      have "submit_left fd s1 = int (length rest')"
        using l(2) short arg_cong [OF r'(1), of length] by (simp add: s1_def set_vpeer_def submit_left_def p)
      then have "to_collect fd i t0 d fut s1"
        unfolding to_collect_def
        using c1 tk(1) d r' ms l(1) r st
        by (intro exI [of _ "c @ ?b"] exI [of _ rest'] exI [of _ ms]) auto
      moreover have "sub_recv w fd m s = (RECV_ADD_EPOLLIN, ?m, s1)" using run ge short by simp
      ultimately show ?thesis using mw tk(2) st r by (intro part [of ?m s1]) simp_all
    qed
  qed
qed

text \<open>The header of a submission starts one.\<close>

lemma process_data_req_collects:
  assumes j: "to_collect fd i t0 d (buff_bytes m @ fut) s" and idle: "\<not> receiving_data (vp_sock_stat (vpeers s fd))"
    and m: "buff_wf m" and len: "12 \<le> length (buff_bytes m)"
  obtains h s' where "parse_msg (buff_bytes m) zero_head = (0, h)" "v_cmdid h = REQ_SUBMIT"
    "process_data_req w fd h m s = sub_recv w fd (mybuff_skipdata HEADSIZE m) s'"
    "to_collect fd i t0 d (drop 12 (buff_bytes m) @ fut) s'" "receiving_data (vp_sock_stat (vpeers s' fd))"
proof -
  obtain c ms where c: "collecting fd i t0 c s" and b: "buff_bytes m @ fut = concat (map submit_msg ms)"
    and d: "c @ concat (map snd ms) = d" and ms: "\<forall>x\<in>set ms. length (snd x) < 2 ^ 31 - 12"
    using j idle by (auto simp: to_collect_def)
  obtain x ms' where x: "ms = x # ms'" using b len by (cases ms) auto
  let ?hd = "fst (create_voss_head (fst x) REQ_SUBMIT (length (snd x)))"
  have hd: "take 12 (buff_bytes m) = ?hd" "drop 12 (buff_bytes m) @ fut = snd x @ concat (map submit_msg ms')"
    using arg_cong [OF b, of "take 12"] arg_cong [OF b, of "drop 12"] len length_voss_head [of "fst x" REQ_SUBMIT "length (snd x)"]
    by (simp_all add: x submit_msg_def)
  let ?h = "\<lparr>v_totallen = 12 + word_of_nat (length (snd x)), v_cmdid = REQ_SUBMIT, v_seq = fst x\<rparr>"
  let ?p = "vpeers s fd"
  let ?s = "set_vpeer fd (?p\<lparr>vp_sock_stat := SYNCFILEING, vp_data := (vp_data ?p)\<lparr>vd_datalen := int (length (snd x)), vd_recvlen := 0\<rparr>\<rparr>) s"
  have "parse_msg (buff_bytes m) zero_head = (0, ?h)"
    using voss_head_parses [of "fst x" REQ_SUBMIT "length (snd x)" "drop 12 (buff_bytes m)" zero_head] hd(1)
    by (metis append_take_drop_id)
  moreover have n: "sint (word_of_nat (length (snd x)) :: u32) = int (length (snd x))"
    using ms by (simp add: x signed_of_nat signed_take_bit_int_eq_self)
  then have "process_data_req w fd ?h m s = sub_recv w fd (mybuff_skipdata HEADSIZE m) ?s"
    using c unfolding process_data_req_def collecting_def Let_def by (simp add: HEADSIZE_def)
  moreover have "to_collect fd i t0 d (drop 12 (buff_bytes m) @ fut) ?s"
    unfolding to_collect_def using c d ms hd(2)
    by (intro exI [of _ c] exI [of _ "snd x"] exI [of _ ms'])
       (auto simp: x collecting_def set_vpeer_def receiving_data_def submit_left_def)
  moreover have "receiving_data (vp_sock_stat (vpeers ?s fd))" by (simp add: set_vpeer_def receiving_data_def)
  ultimately show ?thesis using that [of ?h ?s] by simp
qed

text \<open>The receive loop handles what is there, and waits for the rest.\<close>

lemma voss_loop_collects:
  assumes "to_collect fd i t0 d (buff_bytes m @ fut) s" and "\<not> receiving_data (vp_sock_stat (vpeers s fd))"
    and w: "keeps_collecting t0 w" and "buff_wf m"
  shows "\<exists>m' s'. voss_loop w fd m s = Some (RECV_ADD_EPOLLIN, m', s') \<and> buff_wf m' \<and>
    to_collect fd i t0 d (buff_bytes m' @ fut) s' \<and>
    (if receiving_data (vp_sock_stat (vpeers s' fd)) then buff_bytes m' = [] else length (buff_bytes m') < 12)"
  using assms(1,2,4)
proof (induction "length (buff_bytes m)" arbitrary: m s rule: less_induct)
  case less
  note j = less.prems(1) and idle = less.prems(2) and m = less.prems(3)
  show ?case
  proof (cases "length (buff_bytes m) < 12")
    case True
    have "voss_check_req w fd m s = (-1, m, s)"
      using True by (simp add: voss_check_req_def getdata_bytes [OF m] parse_msg_def HEADSIZE_def E_NOT_SUFFIC_def)
    then have "voss_loop w fd m s = Some (RECV_ADD_EPOLLIN, m, s)" by (subst voss_loop.simps) simp
    then show ?thesis using True j idle m by simp
  next
    case False
    obtain h s1 where p: "parse_msg (buff_bytes m) zero_head = (0, h)" "v_cmdid h = REQ_SUBMIT"
      and run: "process_data_req w fd h m s = sub_recv w fd (mybuff_skipdata HEADSIZE m) s1"
      and j1: "to_collect fd i t0 d (drop 12 (buff_bytes m) @ fut) s1" "receiving_data (vp_sock_stat (vpeers s1 fd))"
      using process_data_req_collects [OF j idle m] False by (metis linorder_not_less)
    have chk: "voss_check_req w fd m s = sub_recv w fd (mybuff_skipdata HEADSIZE m) s1"
      using p False run by (cases "buff_bytes m = []")
        (simp_all add: voss_check_req_def getdata_bytes [OF m] voss_cmds)
    note mw = skipdata_wf [OF m, of HEADSIZE]
    have j2: "to_collect fd i t0 d (buff_bytes (mybuff_skipdata HEADSIZE m) @ fut) s1" using j1(1) mw(2) by (simp add: HEADSIZE_def)
    show ?thesis
    proof (rule sub_recv_collects [OF j2 j1(2) w mw(1)], goal_cases)
      case part: (1 m' s')
      then have "voss_loop w fd m s = Some (RECV_ADD_EPOLLIN, m', s')"
        by (subst voss_loop.simps) (simp add: chk recv_flag_defs)
      then show ?thesis using part by simp
    next
      case whole: (2 m' s' n)
      have "voss_loop w fd m s = voss_loop w fd m' s'"
        by (subst voss_loop.simps) (simp add: chk whole(1) recv_flag_defs)
      moreover have "length (buff_bytes m') < length (buff_bytes m)"
        using whole(3) mw(2) False by (simp add: HEADSIZE_def)
      ultimately show ?thesis using less.hyps [OF _ whole(4,5,2)] by simp
    qed
  qed
qed

lemma voss_svc_recv_collects:
  assumes j: "to_collect fd i t0 d (buff_bytes m @ fut) s" and w: "keeps_collecting t0 w" and m: "buff_wf m"
  shows "\<exists>m' s'. voss_svc_recv w fd m s = Some (RECV_ADD_EPOLLIN, m', s') \<and> buff_wf m' \<and>
    to_collect fd i t0 d (buff_bytes m' @ fut) s' \<and>
    (if receiving_data (vp_sock_stat (vpeers s' fd)) then buff_bytes m' = [] else length (buff_bytes m') < 12)"
proof (cases "receiving_data (vp_sock_stat (vpeers s fd))")
  case False
  then show ?thesis using voss_loop_collects [of fd i t0 d m fut "voss_touch w fd s" w] j w m
    by (simp add: voss_svc_recv_def Let_def)
next
  case True
  let ?s = "voss_touch w fd s"
  have "to_collect fd i t0 d (buff_bytes m @ fut) ?s" "receiving_data (vp_sock_stat (vpeers ?s fd))"
    using j True by simp_all
  note j1 = this
  show ?thesis
  proof (rule sub_recv_collects [OF j1 w m], goal_cases)
    case part: (1 m' s')
    then show ?thesis using True by (simp add: voss_svc_recv_def Let_def)
  next
    case whole: (2 m' s' n)
    then show ?thesis using True voss_loop_collects [OF whole(4,5) w whole(2)]
      by (simp add: voss_svc_recv_def Let_def recv_flag_defs)
  qed
qed

text \<open>What happens on a connection while its pieces arrive.\<close>

fun v_arrivals :: "allocator \<Rightarrow> nat \<Rightarrow> ptr \<Rightarrow> (vworld \<times> byte list) list \<Rightarrow> mybuff \<Rightarrow> voss_state \<Rightarrow> (mybuff \<times> voss_state) option" where
  "v_arrivals alloc ibs fd [] m s = Some (m, s)"
| "v_arrivals alloc ibs fd ((w, bs) # xs) m s =
     (case mybuff_setdata alloc ibs bs m of None \<Rightarrow> None
      | Some m \<Rightarrow>
        (case voss_svc_recv w fd m s of None \<Rightarrow> None
         | Some (ret, m, s) \<Rightarrow> if ret = RECV_CLOSE then None else v_arrivals alloc ibs fd xs m s))"

lemma pieces_collected:
  assumes "alloc_ok alloc" and "0 < ibs"
  shows "buff_wf m \<Longrightarrow> \<forall>x\<in>set xs. keeps_collecting t0 (fst x) \<Longrightarrow>
    to_collect fd i t0 d (buff_bytes m @ concat (map snd xs)) s \<Longrightarrow>
    (if receiving_data (vp_sock_stat (vpeers s fd)) then buff_bytes m = [] else length (buff_bytes m) < 12) \<Longrightarrow>
    \<exists>m' s'. v_arrivals alloc ibs fd xs m s = Some (m', s') \<and> to_collect fd i t0 d (buff_bytes m') s' \<and>
      (if receiving_data (vp_sock_stat (vpeers s' fd)) then buff_bytes m' = [] else length (buff_bytes m') < 12)"
proof (induction xs arbitrary: m s)
  case (Cons x xs)
  obtain w bs where x: "x = (w, bs)" by (cases x)
  obtain m1 where m1: "mybuff_setdata alloc ibs bs m = Some m1" "buff_wf m1" "buff_bytes m1 = buff_bytes m @ bs"
    using setdata_cases [OF assms Cons.prems(1), of bs] by blast
  obtain m2 s2 where s2: "voss_svc_recv w fd m1 s = Some (RECV_ADD_EPOLLIN, m2, s2)" "buff_wf m2"
      "to_collect fd i t0 d (buff_bytes m2 @ concat (map snd xs)) s2"
      "if receiving_data (vp_sock_stat (vpeers s2 fd)) then buff_bytes m2 = [] else length (buff_bytes m2) < 12"
    using voss_svc_recv_collects [of fd i t0 d m1 "concat (map snd xs)" s w] Cons.prems(2,3) m1 by (auto simp: x)
  show ?case using Cons.IH [OF s2(2) _ s2(3,4)] Cons.prems(2) by (simp add: x m1(1) s2(1) recv_flag_defs)
qed simp

text \<open>When nothing is left to come, everything is in the file.\<close>

lemma all_collected:
  assumes "to_collect fd i t0 d bs s"
    and "if receiving_data (vp_sock_stat (vpeers s fd)) then bs = [] else length bs < 12"
  shows "bs = [] \<and> collecting fd i t0 d s"
proof -
  obtain c rest ms where c: "collecting fd i t0 c s" and b: "bs = rest @ concat (map submit_msg ms)"
    and d: "c @ rest @ concat (map snd ms) = d"
    and r: "if receiving_data (vp_sock_stat (vpeers s fd)) then submit_left fd s = int (length rest) else rest = []"
    using assms(1) by (auto simp: to_collect_def)
  have nonempty: "fst (create_voss_head a x n) \<noteq> []" "\<not> length (fst (create_voss_head a x n)) + k < 12" for a x n k
    using length_voss_head [of a x n] by auto
  have "rest = [] \<and> ms = []"
    using b r assms(2) by (cases ms) (auto simp: submit_msg_def nonempty split: if_splits)
  then show ?thesis using b c d by simp
qed

lemma submissions_collected:
  assumes "alloc_ok alloc" and "0 < ibs" and "collecting fd i t0 c s" and "\<not> receiving_data (vp_sock_stat (vpeers s fd))"
    and "\<forall>x\<in>set xs. keeps_collecting t0 (fst x)"
    and "concat (map snd xs) = concat (map submit_msg ms)" and "\<forall>x\<in>set ms. length (snd x) < 2 ^ 31 - 12"
  shows "\<exists>m' s'. v_arrivals alloc ibs fd xs mybuff_init s = Some (m', s') \<and> buff_bytes m' = [] \<and>
    collecting fd i t0 (c @ concat (map snd ms)) s'"
proof -
  let ?d = "c @ concat (map snd ms)"
  have "to_collect fd i t0 ?d (buff_bytes mybuff_init @ concat (map snd xs)) s"
    unfolding to_collect_def using assms(3,4,6,7) by (intro exI [of _ c] exI [of _ "[]"] exI [of _ ms]) simp
  then have "\<exists>m' s'. v_arrivals alloc ibs fd xs mybuff_init s = Some (m', s') \<and> to_collect fd i t0 ?d (buff_bytes m') s' \<and>
      (if receiving_data (vp_sock_stat (vpeers s' fd)) then buff_bytes m' = [] else length (buff_bytes m') < 12)"
    by (intro pieces_collected [OF assms(1,2) buff_wf_init(1) assms(5)]) (simp_all add: assms(4))
  then show ?thesis using all_collected by blast
qed

section \<open>Publishing\<close>

text \<open>A working file that has been open long enough is afterwards in \<open>outdir\<close> and in \<open>syncdir\<close>.\<close>

lemma check_close_publishes:
  assumes due: "0 < vp_in_fd (vpeers s fd)" "e_now (vw_env w) - vd_opentime (vp_data (vpeers s fd)) \<ge> vw_interval w"
    and work: "work = path_of (take 255 (vd_outfile (vp_data (vpeers s fd))))" "contents work (vfs s) = Some d"
    and names: "sync = path_of (v_path w ''syncdir'' (posix_basename (vd_outfile (vp_data (vpeers s fd)))))"
      "out = path_of (v_path w ''outdir'' (posix_basename (vd_outfile (vp_data (vpeers s fd)))))" "out \<noteq> sync" "out \<noteq> work" "sync \<noteq> work"
    and granted: "sys_link (vw_kernel w) work sync (vfs s) = (True, fs1)" "sys_rename (vw_kernel w) work out fs1 = (True, fs2)"
  shows "vfs (snd (check_close_local w fd s)) = fs2" and "vp_in_fd (vpeers (snd (check_close_local w fd s)) fd) = -1"
    and "contents out fs2 = Some d" and "contents sync fs2 = Some d"
proof -
  have l: "contents work fs1 = Some d" "contents sync fs1 = Some d"
    using granted(1) work(2) names(3-5) by (auto simp: sys_link_def contents_def split: if_splits)
  show "contents out fs2 = Some d" using rename_contents(1) [OF granted(2)] names(4) l(1) by auto
  show "contents sync fs2 = Some d"
    using rename_contents(2) [OF granted(2), of sync] names(3-5) l(2) by auto
  show "vfs (snd (check_close_local w fd s)) = fs2" "vp_in_fd (vpeers (snd (check_close_local w fd s)) fd) = -1"
    using due granted unfolding work(1) names(1,2)
    by (simp_all add: check_close_local_def Let_def set_vpeer_def v_close_def)
qed

section \<open>When the receive loop ends\<close>

lemma sub_recv_bytes:
  assumes m: "buff_wf m" and r: "sub_recv w fd m s = (x, m', s')"
  obtains n where "buff_bytes m' = drop n (buff_bytes m)" and "buff_wf m'"
proof -
  have "m' = m \<or> (\<exists>n. m' = mybuff_skipdata n m)"
    using r by (auto simp: sub_recv_def Let_def split: if_splits option.splits prod.splits)
  then show ?thesis
  proof
    assume "m' = m"
    then show ?thesis using m by (intro that [of 0]) simp_all
  next
    assume "\<exists>n. m' = mybuff_skipdata n m"
    then obtain n where "m' = mybuff_skipdata n m" ..
    then show ?thesis using skipdata_wf [OF m, of n] by (intro that [of n]) simp_all
  qed
qed

lemma process_data_req_bytes:
  assumes m: "buff_wf m" and r: "process_data_req w fd h m s = (x, m', s')" and x: "x \<noteq> RECV_CLOSE"
  obtains n where "buff_bytes m' = drop (12 + n) (buff_bytes m)" and "buff_wf m'"
proof -
  obtain s1 where "sub_recv w fd (mybuff_skipdata HEADSIZE m) s1 = (x, m', s')"
    using r x by (auto simp: process_data_req_def Let_def split: if_splits prod.splits)
  then show ?thesis using skipdata_wf [OF m, of HEADSIZE]
    by (metis sub_recv_bytes that HEADSIZE_def drop_drop add.commute)
qed

lemma htonl_0: "htonl 0 = 0"
  by (simp add: htonl_def le32_def of_le32_def)

lemma htonl_eq_0 [simp]: "htonl x = 0 \<longleftrightarrow> x = 0"
  by (metis htonl_htonl htonl_0)

text \<open>A message the loop goes on behind has been taken off the buffer, unless its length is zero.\<close>

lemma check_req_progress:
  assumes m: "buff_wf m" and r: "voss_check_req w fd m s = (x, m', s')"
    and x: "x \<noteq> -1" "x \<noteq> RECV_CLOSE" "x \<noteq> RECV_ADD_EPOLLIN"
    and z: "12 \<le> length (buff_bytes m) \<Longrightarrow> of_le32 (buff_bytes m) \<noteq> 0"
  obtains n where "buff_bytes m' = drop (Suc n) (buff_bytes m)" and "buff_wf m'" and "buff_bytes m \<noteq> []"
proof -
  let ?b = "buff_bytes m"
  obtain h where ne: "?b \<noteq> []" and p: "parse_msg ?b zero_head = (0, h)" and l: "12 \<le> length ?b"
    using r x by (cases "?b = []") (auto simp: voss_check_req_def getdata_bytes [OF m] parse_msg_def HEADSIZE_def
        E_NOT_SUFFIC_def split: if_splits)
  have tot: "unat (v_totallen h) = Suc (unat (v_totallen h) - 1)"
    using p z l by (auto simp: parse_msg_def HEADSIZE_def unat_gt_0 intro!: Suc_pred [symmetric])
  show ?thesis
  proof (cases "v_cmdid h = REQ_SUBMIT")
    case True
    then have "process_data_req w fd h m s = (x, m', s')"
      using r p ne by (simp add: voss_check_req_def getdata_bytes [OF m] voss_cmds)
    then obtain n where "buff_bytes m' = drop (12 + n) ?b" "buff_wf m'"
      using process_data_req_bytes [OF m _ x(2)] by blast
    then show ?thesis using that [of "11 + n"] ne by simp
  next
    case False
    then have "m' = mybuff_skipdata (unat (v_totallen h)) m"
      using r p ne x by (auto simp: voss_check_req_def getdata_bytes [OF m] Let_def split: if_splits prod.splits)
    then show ?thesis using that [of "unat (v_totallen h) - 1"] skipdata_wf [OF m, of "unat (v_totallen h)"] ne tot by simp
  qed
qed

lemma voss_loop_returns:
  assumes "buff_wf m" and "\<forall>k. k + 12 \<le> length (buff_bytes m) \<longrightarrow> of_le32 (drop k (buff_bytes m)) \<noteq> 0"
  shows "\<exists>r. voss_loop w fd m s = Some r"
  using assms
proof (induction "length (buff_bytes m)" arbitrary: m s rule: less_induct)
  case less
  obtain x m' s' where r: "voss_check_req w fd m s = (x, m', s')" by (cases "voss_check_req w fd m s")
  show ?case
  proof (cases "x = -1 \<or> x = RECV_CLOSE \<or> x = RECV_ADD_EPOLLIN")
    case True
    then show ?thesis by (subst voss_loop.simps) (auto simp: r)
  next
    case False
    then obtain n where n: "buff_bytes m' = drop (Suc n) (buff_bytes m)" "buff_wf m'" "buff_bytes m \<noteq> []"
      using check_req_progress [OF less.prems(1) r] less.prems(2) [rule_format, of 0] by auto
    have "voss_loop w fd m s = voss_loop w fd m' s'" by (subst voss_loop.simps) (use False in \<open>simp add: r\<close>)
    moreover have "\<exists>r. voss_loop w fd m' s' = Some r"
    proof (rule less.hyps)
      show "length (buff_bytes m') < length (buff_bytes m)" using n by simp
      show "\<forall>k. k + 12 \<le> length (buff_bytes m') \<longrightarrow> of_le32 (drop k (buff_bytes m')) \<noteq> 0"
      proof (intro allI impI)
        fix k
        assume "k + 12 \<le> length (buff_bytes m')"
        then show "of_le32 (drop k (buff_bytes m')) \<noteq> 0"
          using less.prems(2) [rule_format, of "k + Suc n"] n(1) by (simp add: add.commute)
      qed
    qed (rule n(2))
    ultimately show ?thesis by simp
  qed
qed

text \<open>A heartbeat of length zero stays at the head of the buffer for ever.\<close>

lemma empty_heartbeat_stays:
  assumes m: "buff_wf m" and b: "buff_bytes m = le32 0 @ le32 (htonl REQ_HEARTBEAT) @ rest" and l: "12 \<le> length (buff_bytes m)"
  obtains m' s' where "voss_check_req w fd m s = (0, m', s')" and "buff_wf m'" and "buff_bytes m' = buff_bytes m"
proof -
  let ?b = "buff_bytes m" and ?h = "\<lparr>v_totallen = 0, v_cmdid = REQ_HEARTBEAT, v_seq = htonl (of_le32 (drop 8 (buff_bytes m)))\<rparr>"
  have p: "parse_msg ?b zero_head = (0, ?h)"
    using l by (simp add: b parse_msg_def HEADSIZE_def of_le32_le32)
  have "voss_check_req w fd m s = (0, mybuff_skipdata 0 m, if vstat_fd s \<ge> 0 then note_msg w fd ?h ?b s else s)"
    using p l by (cases "?b = []") (simp_all add: voss_check_req_def getdata_bytes [OF m] voss_cmds)
  then show ?thesis using skipdata_wf [OF m, of 0] that by simp
qed

lemma voss_loop_result:
  assumes "voss_loop w fd m s = Some r" and "buff_wf m"
  shows "\<not> (12 \<le> length (buff_bytes m) \<and> (\<exists>rest. buff_bytes m = le32 0 @ le32 (htonl REQ_HEARTBEAT) @ rest))"
  using assms
proof (induction rule: voss_loop.raw_induct [rotated, consumes 1])
  case (1 loop w fd m s r)
  show ?case
  proof
    assume h: "12 \<le> length (buff_bytes m) \<and> (\<exists>rest. buff_bytes m = le32 0 @ le32 (htonl REQ_HEARTBEAT) @ rest)"
    then obtain rest where b: "buff_bytes m = le32 0 @ le32 (htonl REQ_HEARTBEAT) @ rest" by blast
    obtain m' s' where c: "voss_check_req w fd m s = (0, m', s')" "buff_wf m'" "buff_bytes m' = buff_bytes m"
      using empty_heartbeat_stays [OF 1(3) b] h by blast
    have "loop w fd m' s' = Some r" using 1(2) c(1) by (simp add: recv_flag_defs)
    then show False using 1(1) [OF _ c(2)] h c(3) by simp
  qed
qed

section \<open>Commands of an operator\<close>

text \<open>What a machine is sent for a command.\<close>

definition vfs_command :: "u32 \<Rightarrow> string \<Rightarrow> int \<Rightarrow> (int \<times> byte list) list" where
  "vfs_command seq msg fd = [(fd, fst (create_voss_head seq REQ_VFS_CMD (length msg))), (fd, str_bytes msg)]"

fun vfs_commands :: "u32 \<Rightarrow> string \<Rightarrow> int list \<Rightarrow> (int \<times> byte list) list" where
  "vfs_commands seq msg [] = []"
| "vfs_commands seq msg (fd # fds) = vfs_command seq msg fd @ vfs_commands (seq + 1) msg fds"

definition plain_command :: "string \<Rightarrow> bool" where
  "plain_command msg \<longleftrightarrow> CHR 0x0A \<notin> set msg \<and> \<not> starts_with ''vfs_cmd=stopvfs'' msg"

lemma do_peer_msg_sends:
  "plain_command msg \<Longrightarrow> do_peer_msg msg fd s = s\<lparr>vsent := vsent s @ vfs_command (vseq s) msg fd, vseq := vseq s + 1\<rparr>"
  using iffD2 [OF strrchr_None [of msg "CHR 0x0A"]]
  by (simp add: do_peer_msg_def plain_command_def create_voss_head_def getseq_def v_send_def vfs_command_def Let_def)

lemma do_group_msg_sends:
  assumes "plain_command msg"
  shows "do_group_msg msg r s =
    (let fds = map (\<lambda>fd. vp_fd (vpeers s fd)) (filter (\<lambda>fd. r = UNKOWN \<or> vp_role (vpeers s fd) = r) (vactive s))
     in s\<lparr>vsent := vsent s @ vfs_commands (vseq s) msg fds, vseq := vseq s + word_of_nat (length fds)\<rparr>)"
proof -
  have "foldl (\<lambda>s fd. if r = UNKOWN \<or> r = vp_role (vpeers s fd) then do_peer_msg msg (vp_fd (vpeers s fd)) s else s) s l =
     (let fds = map (\<lambda>fd. vp_fd (vpeers s fd)) (filter (\<lambda>fd. r = UNKOWN \<or> vp_role (vpeers s fd) = r) l)
     in s\<lparr>vsent := vsent s @ vfs_commands (vseq s) msg fds, vseq := vseq s + word_of_nat (length fds)\<rparr>)" for l
    by (induction l arbitrary: s) (auto simp: Let_def do_peer_msg_sends [OF assms] add.assoc)
  then show ?thesis by (simp add: do_group_msg_def)
qed

definition group_word :: "string \<Rightarrow> role option" where
  "group_word g = (if starts_with ''allip'' g then Some UNKOWN else if starts_with ''allcs'' g then Some ROLE_CS
     else if starts_with ''alltracker'' g then Some ROLE_TRACKER else if starts_with ''allfcs'' g then Some ROLE_FCS else None)"

lemma do_sub_msg_group:
  assumes "(g, r) \<in> set [(''allip'', UNKOWN), (''allcs'', ROLE_CS), (''alltracker'', ROLE_TRACKER), (''allfcs'', ROLE_FCS)]"
  shows "do_sub_msg w (''iplist='' @ g @ ''&'' @ msg) s = do_group_msg msg r s"
proof -
  have m: "map to_lower ''iplist='' = ''iplist=''" by code_simp
  have k: "strchr ((''iplist='' @ g) @ CHR 0x26 # msg) (CHR 0x26) = Some (7 + length g)"
    using assms by (subst strchr_append) auto
  have h: "starts_with ''iplist='' (''iplist='' @ r)" for r using m by (simp add: starts_with_def)
  have "do_sub_msg w (''iplist='' @ g @ ''&'' @ msg) s =
    (if starts_with ''allip'' g then do_group_msg msg UNKOWN s
     else if starts_with ''allcs'' g then do_group_msg msg ROLE_CS s
     else if starts_with ''alltracker'' g then do_group_msg msg ROLE_TRACKER s
     else if starts_with ''allfcs'' g then do_group_msg msg ROLE_FCS s
     else foldl (\<lambda>s sip. do_ip_msg w msg sip s) s (split_commas g []))"
    using k h [of "g @ ''&'' @ msg"] by (simp add: do_sub_msg_def)
  then have run: "do_sub_msg w (''iplist='' @ g @ ''&'' @ msg) s =
    (case group_word g of Some r \<Rightarrow> do_group_msg msg r s | None \<Rightarrow> foldl (\<lambda>s sip. do_ip_msg w msg sip s) s (split_commas g []))"
    by (simp add: group_word_def)
  have "group_word ''allip'' = Some UNKOWN" "group_word ''allcs'' = Some ROLE_CS"
    "group_word ''alltracker'' = Some ROLE_TRACKER" "group_word ''allfcs'' = Some ROLE_FCS" by code_simp+
  then have "group_word g = Some r" using assms by auto
  then show ?thesis unfolding run by simp
qed

end
