(* ===== verification/VossSamples.thy ===== *)
theory VossSamples
  imports VossFacts Samples FileSamples
begin

text \<open>A machine on descriptor 3 whose submissions go to an open working file.\<close>

definition sample_vw :: vworld where
  "sample_vw = \<lparr>vw_env = calm, vw_out = sample_out, vw_kernel = lw_kernel sample_lw, vw_peerip = (\<lambda>_. 2), vw_newfd = 9,
     vw_write = Some, vw_readdir = (\<lambda>_. None), vw_timeout = 60, vw_interval = 3600, vw_path = ''/v'',
     vw_strtime = ''20120101'', vw_behind = 0\<rparr>"

definition sample_voss :: voss_state where
  "sample_voss = \<lparr>vpeers = (\<lambda>_. zero_voss_peer\<lparr>vp_fd := 3, vp_in_fd := 9, vp_role := ROLE_CS, vp_sock_stat := V_LOGIN\<rparr>),
     vuser = (\<lambda>fd. fd = 3), vactive = [3], vonline = (\<lambda>_. []), vcfg_list = (\<lambda>_. []), vcfg = sample_cfg, vsent = [],
     vclosed = [], vstat_fd = -1, vstat_file = [], vstat_last = 0, vfs = sample_fs,
     vfiles = (\<lambda>d. if d = 9 then Some 0 else None), vseq = 1\<rparr>"

lemma sample_collecting: "collecting 3 0 0 [1, 2, 3] sample_voss" "\<not> receiving_data (vp_sock_stat (vpeers sample_voss 3))"
  by (simp_all add: collecting_def sample_voss_def zero_voss_peer_def sample_fs_def sample_inode_def receiving_data_def)

lemma sample_keeps: "keeps_collecting 0 sample_vw"
  by (simp add: keeps_collecting_def sample_vw_def calm_def)

text \<open>A buffer that holds a heartbeat with the length it claims.\<close>

definition hb_buff :: "u32 \<Rightarrow> mybuff" where
  "hb_buff n = mybuff_init\<lparr>mb_data := Some (le32 n @ le32 (htonl REQ_HEARTBEAT) @ le32 0 @ [0]), mb_size := 13, mb_len := 12\<rparr>"

lemma hb_buff_ok: "buff_wf (hb_buff n)" "buff_bytes (hb_buff n) = le32 n @ le32 (htonl REQ_HEARTBEAT) @ le32 0"
  by (simp_all add: hb_buff_def buff_wf_def buff_bytes_def mybuff_init_def)

lemma hb_buff_nonzero: "k + 12 \<le> length (buff_bytes (hb_buff 1)) \<Longrightarrow> of_le32 (drop k (buff_bytes (hb_buff 1))) \<noteq> 0"
  by (simp add: hb_buff_ok(2) of_le32_le32)

end
