(* ===== verification/ParsePara.thy ===== *)
theory ParsePara
  imports MyConfig DelFile
begin

text \<open>
  Lists of named parameters (\<open>src/network/parsepara.c\<close>): the text \<open>name=value&\<dots>\<close> of a command, the
  escapes of its values, and what reading gives back.  A list is a list of pairs with its bound; an
  array entry that was never written holds what the allocator left there, the argument \<open>junk\<close>.
\<close>

definition MAX_NAME_LEN :: nat where "MAX_NAME_LEN = 200"
definition MAX_VALUE_LEN :: nat where "MAX_VALUE_LEN = 4096"

record StringPairList =
  sp_max :: int
  sp_list :: "(string \<times> string) list"

section \<open>Escapes\<close>

definition hex_table :: string where "hex_table = ''0123456789ABCDEF''"

definition shouldencode :: "char \<Rightarrow> bool" where
  "shouldencode c \<longleftrightarrow> c \<in> {CHR ''='', CHR 0x26, CHR 0x25}"

definition escape :: "char \<Rightarrow> string" where
  "escape c = [CHR 0x25, hex_table ! (chr_code c div 16), hex_table ! (chr_code c mod 16)]"

text \<open>The C locale prints the characters from blank to tilde.\<close>

definition is_print :: "char \<Rightarrow> bool" where
  "is_print c \<longleftrightarrow> 32 \<le> chr_code c \<and> chr_code c \<le> 126"

definition encode_hexstring :: "string \<Rightarrow> string" where
  "encode_hexstring s = concat (map (\<lambda>c. if \<not> is_print c \<or> shouldencode c then escape c else [c]) s)"

definition encode_string :: "string \<Rightarrow> string" where
  "encode_string s = concat (map (\<lambda>c. if shouldencode c then escape c else [c]) (cstr s))"

definition to_upper :: "char \<Rightarrow> char" where
  "to_upper c = (if 97 \<le> chr_code c \<and> chr_code c \<le> 122 then char_of (chr_code c - 32) else c)"

definition get_index :: "char \<Rightarrow> int" where
  "get_index c = (case strchr hex_table (to_upper c) of Some i \<Rightarrow> int i | None \<Rightarrow> -1)"

definition of_hex :: "int \<Rightarrow> int \<Rightarrow> char" where
  "of_hex j k = char_of (nat ((16 * j + k) mod 256))"

text \<open>
  The two decoders give the number the function returns and the characters it has written.  The
  first test of \<open>decode_hexstring\<close> is made with unsigned numbers: \<open>strlen(s) - 2\<close> wraps for a string of
  one character.
\<close>

fun decode_hexstring :: "string \<Rightarrow> nat \<Rightarrow> int \<times> string" where
  "decode_hexstring [] i = (0, [])"
| "decode_hexstring (c # cs) i =
     (if c = CHR 0x25 then
        (if i + length cs \<ge> 1 \<and> length cs \<le> 1 then (-1, [])
         else case cs of a # b # r \<Rightarrow>
                (if get_index a < 0 \<or> get_index b < 0 then (-2, [])
                 else let (x, t) = decode_hexstring r (i + 3) in (x, of_hex (get_index a) (get_index b) # t))
              | _ \<Rightarrow> (-2, []))
      else let (x, t) = decode_hexstring cs (i + 1) in (x, c # t))"

text \<open>\<open>n\<close> counts the characters there is room for, the closing zero not among them.\<close>

fun decode_string :: "string \<Rightarrow> nat \<Rightarrow> int \<times> string" where
  "decode_string [] n = (0, [])"
| "decode_string (c # cs) n =
     (if c = CHR 0x25 then
        (case cs of a # b # r \<Rightarrow>
           (if get_index a < 0 \<or> get_index b < 0 then (-2, [])
            else case n of 0 \<Rightarrow> (0, [])
              | Suc n \<Rightarrow> let (x, t) = decode_string r n in (x, of_hex (get_index a) (get_index b) # t))
         | _ \<Rightarrow> (-1, []))
      else case n of 0 \<Rightarrow> (0, [])
        | Suc n \<Rightarrow> let (x, t) = decode_string cs n in (x, c # t))"

text \<open>\<open>decode_stringnew\<close> stops at an escape that is cut off and takes a wrong digit for -1.\<close>

fun decode_stringnew :: "string \<Rightarrow> string" where
  "decode_stringnew [] = []"
| "decode_stringnew (c # cs) =
     (if c \<noteq> CHR 0x25 then c # decode_stringnew cs
      else case cs of a # b # r \<Rightarrow> of_hex (get_index a) (get_index b) # decode_stringnew r | _ \<Rightarrow> [])"

section \<open>Lists\<close>

definition CreateStringPairList :: "int \<Rightarrow> StringPairList option" where
  "CreateStringPairList n = (if n < 0 then None else Some \<lparr>sp_max = n, sp_list = []\<rparr>)"

definition ResetStringPairList :: "StringPairList \<Rightarrow> StringPairList" where
  "ResetStringPairList l = l\<lparr>sp_list := []\<rparr>"

definition ConcatPairList :: "StringPairList \<Rightarrow> StringPairList \<Rightarrow> StringPairList" where
  "ConcatPairList l k = l\<lparr>sp_list := sp_list l @ take (nat (sp_max l - int (length (sp_list l)))) (sp_list k)\<rparr>"

definition TraverseList :: "StringPairList \<Rightarrow> (string \<Rightarrow> string \<Rightarrow> 's \<Rightarrow> 's) \<Rightarrow> 's \<Rightarrow> 's" where
  "TraverseList l f s = foldl (\<lambda>s p. f (fst p) (snd p) s) s (sp_list l)"

definition pair_of :: "string \<Rightarrow> StringPairList \<Rightarrow> string option" where
  "pair_of name l = map_option snd (find (\<lambda>p. same_word name (fst p)) (sp_list l))"

text \<open>\<open>None\<close> is the result \<open>NULL\<close>; a value that does not decode is given as far as it was decoded.\<close>

definition GetParaValue :: "StringPairList \<Rightarrow> string \<Rightarrow> nat \<Rightarrow> string option" where
  "GetParaValue l name n = map_option (\<lambda>v. snd (decode_string v (n - 1))) (pair_of name l)"

definition GetBinaryPara :: "StringPairList \<Rightarrow> string \<Rightarrow> string option" where
  "GetBinaryPara l name = map_option (\<lambda>v. snd (decode_hexstring v 0)) (pair_of name l)"

definition add_pair :: "string \<Rightarrow> string \<Rightarrow> StringPairList \<Rightarrow> int \<times> StringPairList" where
  "add_pair name v l =
     (if int (length (sp_list l)) \<ge> sp_max l then (-1, l)
      else (0, l\<lparr>sp_list := sp_list l @ [(take (MAX_NAME_LEN - 1) name, take (MAX_VALUE_LEN - 1) v)]\<rparr>))"

definition SetParaValue :: "StringPairList \<Rightarrow> string \<Rightarrow> string \<Rightarrow> int \<times> StringPairList" where
  "SetParaValue l name v = add_pair name (encode_string v) l"

definition SetBinaryPara :: "StringPairList \<Rightarrow> string \<Rightarrow> string \<Rightarrow> int \<times> StringPairList" where
  "SetBinaryPara l name v = add_pair name (encode_hexstring v) l"

text \<open>\<open>used\<close> is what the buffer of \<open>n\<close> bytes holds already.\<close>

fun encode_pairs :: "nat \<Rightarrow> (string \<times> string) list \<Rightarrow> string \<Rightarrow> string" where
  "encode_pairs n [] used = used"
| "encode_pairs n (p # ps) used =
     (if length used + length (fst p) + length (snd p) + 2 \<ge> n then used
      else encode_pairs n ps (used @ fst p @ ''='' @ snd p @ [CHR 0x26]))"

definition EncodePara :: "StringPairList \<Rightarrow> nat \<Rightarrow> string" where
  "EncodePara l n = butlast (encode_pairs n (sp_list l) [])"

section \<open>Reading\<close>

text \<open>
  The loop of \<open>parsepara\<close>.  \<open>buf\<close> is what has been read since the last separator, \<open>flag\<close> whether
  the name of the pair is known, \<open>ps\<close> the pairs read.  When the array is nearly full the loop is left
  with the flag still set, and one more pair is counted, whose name was never written.
\<close>

fun parse_loop :: "int \<Rightarrow> (nat \<Rightarrow> string) \<Rightarrow> string \<Rightarrow> string \<Rightarrow> bool \<Rightarrow> string \<Rightarrow> (string \<times> string) list \<Rightarrow> (string \<times> string) list option" where
  "parse_loop lim junk [] buf flag name ps = (if flag then Some (ps @ [(name, buf)]) else None)"
| "parse_loop lim junk (c # cs) buf flag name ps =
     (if c = CHR ''='' then parse_loop lim junk cs [] True (take (MAX_NAME_LEN - 1) buf) ps
      else if c = CHR 0x26 \<or> c = NUL then
        (if \<not> flag then None
         else let ps = ps @ [(name, take (MAX_VALUE_LEN - 1) buf)] in
           if int (length ps) \<ge> lim then Some (ps @ [(junk (length ps), [])])
           else parse_loop lim junk cs [] False (junk (length ps)) ps)
      else parse_loop lim junk cs (buf @ [c]) flag name ps)"

definition parsepara :: "(nat \<Rightarrow> string) \<Rightarrow> string \<Rightarrow> int \<Rightarrow> (string \<times> string) list option" where
  "parsepara junk text n = (if text = [] then Some [] else parse_loop (n - 2) junk text [] False (junk 0) [])"

definition DecodePara :: "(nat \<Rightarrow> string) \<Rightarrow> string \<Rightarrow> StringPairList \<Rightarrow> int \<times> StringPairList" where
  "DecodePara junk text l =
     (case parsepara junk text (sp_max l) of None \<Rightarrow> (-1, l) | Some ps \<Rightarrow> (0, l\<lparr>sp_list := ps\<rparr>))"

section \<open>Blanks\<close>

text \<open>
  \<open>TrimLeft\<close> empties the string when it has as many blanks in front as characters behind them: the
  zero that ends the moved text is then what the last test finds.
\<close>

definition TrimLeft :: "string \<Rightarrow> string" where
  "TrimLeft s = (let t = dropWhile is_space s in if length s = 2 * length t then [] else t)"

text \<open>The first character is never looked at.\<close>

definition TrimRight :: "string \<Rightarrow> string" where
  "TrimRight s = (case s of [] \<Rightarrow> [] | c # cs \<Rightarrow> c # strip_end is_space cs)"

definition TrimString :: "string \<Rightarrow> string" where
  "TrimString s = TrimRight (TrimLeft s)"

text \<open>One line of a file of parameters; \<open>None\<close>: the line is passed over.\<close>

definition file_pair :: "string \<Rightarrow> (string \<times> string) option" where
  "file_pair l =
     (let t = TrimString l in
      if take 1 l = ''#'' \<or> take 2 l = ''//'' \<or> t = [] then None
      else case strchr t (CHR '' '') of None \<Rightarrow> None
      | Some k \<Rightarrow> Some (take (MAX_NAME_LEN - 1) (TrimString (take k t)), take (MAX_VALUE_LEN - 1) (TrimString (drop (Suc k) t))))"

definition LoadFromFile :: "string option \<Rightarrow> int \<times> (string \<times> string) list" where
  "LoadFromFile text =
     (case text of None \<Rightarrow> (-1, []) | Some s \<Rightarrow> (0, List.map_filter (\<lambda>l. file_pair (cstr l)) (fgets_all 298 s)))"

section \<open>What is written can be read\<close>

definition para_char :: "char \<Rightarrow> bool" where
  "para_char c \<longleftrightarrow> c \<noteq> CHR ''='' \<and> c \<noteq> CHR 0x26 \<and> c \<noteq> NUL"

lemma hex_table_index: "i < 16 \<Longrightarrow> get_index (hex_table ! i) = int i"
proof -
  have "\<forall>i\<in>set [0..<16]. get_index (hex_table ! i) = int i" by code_simp
  then show "i < 16 \<Longrightarrow> ?thesis" by simp
qed

lemma hex_table_plain: "i < 16 \<Longrightarrow> para_char (hex_table ! i)"
proof -
  have "\<forall>i\<in>set [0..<16]. para_char (hex_table ! i)" by code_simp
  then show "i < 16 \<Longrightarrow> ?thesis" by simp
qed

lemma cstr_id: "NUL \<notin> set s \<Longrightarrow> cstr s = s"
  unfolding cstr_def by (rule takeWhile_eq_all_conv [THEN iffD2]) auto

lemma chr_code_less: "chr_code c < 256"
  by (simp add: chr_code_def)

lemma of_hex_code: "of_hex (int (chr_code c div 16)) (int (chr_code c mod 16)) = c"
proof -
  have "16 * int (chr_code c div 16) + int (chr_code c mod 16) = int (chr_code c)"
    using div_mult_mod_eq [of "chr_code c" 16] by (metis mult.commute of_nat_add of_nat_mult of_nat_numeral)
  then show ?thesis using chr_code_less [of c] by (simp add: of_hex_def chr_code_def)
qed

lemma escape_plain: "c \<in> set (escape d) \<Longrightarrow> para_char c"
proof -
  have d: "chr_code d div 16 < 16" "chr_code d mod 16 < 16" using chr_code_less [of d] by simp_all
  have "para_char (CHR 0x25)" by code_simp
  then show "c \<in> set (escape d) \<Longrightarrow> para_char c"
    using hex_table_plain [OF d(1)] hex_table_plain [OF d(2)] by (auto simp: escape_def)
qed

lemma encode_string_plain: "NUL \<notin> set s \<Longrightarrow> c \<in> set (encode_string s) \<Longrightarrow> para_char c"
  by (auto simp: encode_string_def cstr_id shouldencode_def para_char_def split: if_splits dest: escape_plain [unfolded para_char_def])

lemma decode_encode:
  assumes "NUL \<notin> set s" and "length s \<le> n"
  shows "decode_string (encode_string s) n = (0, s)"
proof -
  have "decode_string (concat (map (\<lambda>c. if shouldencode c then escape c else [c]) s)) n = (0, s)"
    using assms(2)
  proof (induction s arbitrary: n)
    case (Cons c s)
    obtain k where n: "n = Suc k" using Cons.prems by (cases n) simp_all
    have IH: "decode_string (concat (map (\<lambda>c. if shouldencode c then escape c else [c]) s)) k = (0, s)"
      using Cons n by simp
    have d: "chr_code c div 16 < 16" using chr_code_less [of c] by simp
    show ?case
    proof (cases "shouldencode c")
      case True
      then show ?thesis using IH hex_table_index [OF d] hex_table_index [of "chr_code c mod 16"] of_hex_code [of c]
        by (simp add: n escape_def)
    next
      case False
      then have "c \<noteq> CHR 0x25" by (simp add: shouldencode_def)
      then show ?thesis using IH False by (simp add: n)
    qed
  qed simp
  then show ?thesis by (simp add: encode_string_def cstr_id assms(1))
qed

lemma parse_plain:
  "\<forall>c\<in>set xs. para_char c \<Longrightarrow>
   parse_loop lim junk (xs @ ys) buf flag name ps = parse_loop lim junk ys (buf @ xs) flag name ps"
  by (induction xs arbitrary: buf) (simp_all add: para_char_def)

fun para_text :: "(string \<times> string) list \<Rightarrow> string" where
  "para_text [] = []"
| "para_text [p] = fst p @ ''='' @ snd p"
| "para_text (p # ps) = fst p @ ''='' @ snd p @ CHR 0x26 # para_text ps"

definition para_ok :: "string \<times> string \<Rightarrow> bool" where
  "para_ok p \<longleftrightarrow> (\<forall>c\<in>set (fst p). para_char c) \<and> (\<forall>c\<in>set (snd p). para_char c) \<and>
     length (fst p) < MAX_NAME_LEN \<and> length (snd p) < MAX_VALUE_LEN"

lemma para_take:
  "length n < MAX_NAME_LEN \<Longrightarrow> take (MAX_NAME_LEN - Suc 0) n = n"
  "length v < MAX_VALUE_LEN \<Longrightarrow> take (MAX_VALUE_LEN - Suc 0) v = v"
  by auto

lemma parse_pair:
  assumes "para_ok p"
  shows "parse_loop lim junk (fst p @ ''='' @ snd p @ ys) [] False name ps = parse_loop lim junk ys (snd p) True (fst p) ps"
  using assms by (simp add: para_ok_def parse_plain para_take)

lemma parse_para_text:
  "\<forall>p\<in>set kv. para_ok p \<Longrightarrow> kv \<noteq> [] \<Longrightarrow> int (length ps + length kv) \<le> lim \<Longrightarrow>
   parse_loop lim junk (para_text kv) [] False name ps = Some (ps @ kv)"
proof (induction kv arbitrary: name ps rule: para_text.induct)
  case (2 p)
  then show ?case using parse_pair [of p lim junk "[]" name ps] by simp
next
  case (3 p q r)
  have "parse_loop lim junk (para_text (p # q # r)) [] False name ps =
      parse_loop lim junk (CHR 0x26 # para_text (q # r)) (snd p) True (fst p) ps"
    using parse_pair [of p lim junk "CHR 0x26 # para_text (q # r)" name ps] 3(2) by simp
  also have "\<dots> = parse_loop lim junk (para_text (q # r)) [] False (junk (Suc (length ps))) (ps @ [p])"
    using 3(2,4) by (simp add: para_ok_def para_take)
  also have "\<dots> = Some ((ps @ [p]) @ q # r)" using 3 by (intro "3.IH") simp_all
  finally show ?case by simp
qed simp

lemma encode_para_text:
  "length used + length (para_text kv) + 2 \<le> n \<Longrightarrow>
   encode_pairs n kv used = used @ (if kv = [] then [] else para_text kv @ [CHR 0x26])"
proof (induction kv arbitrary: used rule: para_text.induct)
  case (3 p q r)
  have "encode_pairs n (p # q # r) used = encode_pairs n (q # r) (used @ fst p @ ''='' @ snd p @ [CHR 0x26])"
    using 3(2) by (subst encode_pairs.simps) simp
  then show ?case using 3 by (simp del: encode_pairs.simps para_text.simps(3) add: para_text.simps(3) [of p])
qed simp_all

definition set_all :: "int \<Rightarrow> (string \<times> string) list \<Rightarrow> StringPairList" where
  "set_all n kv = foldl (\<lambda>l p. snd (SetParaValue l (fst p) (snd p))) \<lparr>sp_max = n, sp_list = []\<rparr> kv"

text \<open>A parameter whose name and encoded value fit.\<close>

definition para_fits :: "string \<times> string \<Rightarrow> bool" where
  "para_fits p \<longleftrightarrow> (\<forall>c\<in>set (fst p). para_char c) \<and> length (fst p) < MAX_NAME_LEN \<and> NUL \<notin> set (snd p) \<and>
     length (encode_string (snd p)) < MAX_VALUE_LEN"

definition encoded :: "string \<times> string \<Rightarrow> string \<times> string" where
  "encoded p = (fst p, encode_string (snd p))"

lemma set_all_list:
  assumes "\<forall>p\<in>set kv. para_fits p" and "int (length kv) \<le> n"
  shows "set_all n kv = \<lparr>sp_max = n, sp_list = map encoded kv\<rparr>"
proof -
  have "int (length (sp_list l) + length kv) \<le> sp_max l \<Longrightarrow>
    foldl (\<lambda>l p. snd (SetParaValue l (fst p) (snd p))) l kv = l\<lparr>sp_list := sp_list l @ map encoded kv\<rparr>" for l
    using assms(1)
    by (induction kv arbitrary: l) (auto simp: SetParaValue_def add_pair_def para_fits_def encoded_def)
  from this [of "\<lparr>sp_max = n, sp_list = []\<rparr>"] show ?thesis using assms(2) by (simp add: set_all_def)
qed

lemma decode_encode_para:
  assumes "\<forall>p\<in>set kv. para_fits p" and "kv \<noteq> []" and "int (length kv) \<le> n - 2"
    and "length (para_text (map encoded kv)) + 2 \<le> room"
  shows "DecodePara junk (EncodePara (set_all n kv) room) \<lparr>sp_max = n, sp_list = []\<rparr> = (0, \<lparr>sp_max = n, sp_list = map encoded kv\<rparr>)"
proof -
  have ok: "\<forall>p\<in>set (map encoded kv). para_ok p"
    using assms(1) by (auto simp: para_fits_def para_ok_def encoded_def intro: encode_string_plain)
  have e: "EncodePara (set_all n kv) room = para_text (map encoded kv)"
    using encode_para_text [of "[]" "map encoded kv" room] assms by (simp add: EncodePara_def set_all_list)
  obtain p ps where kv: "kv = p # ps" using assms(2) by (cases kv) auto
  have ne: "para_text (map encoded kv) \<noteq> []" by (cases ps) (simp_all add: kv)
  show ?thesis
    using parse_para_text [OF ok, of "[]" "n - 2" junk "junk 0"] assms(2,3) ne by (simp add: e DecodePara_def parsepara_def)
qed

lemma find_same_word:
  assumes "distinct (map (\<lambda>p. map to_lower (fst p)) kv)" and "(k, v) \<in> set kv"
  shows "find (\<lambda>p. same_word k (fst p)) (map encoded kv) = Some (k, encode_string v)"
  using assms
proof (induction kv)
  case (Cons p kv)
  show ?case
  proof (cases "p = (k, v)")
    case True
    then show ?thesis by (simp add: same_word_def encoded_def)
  next
    case False
    then have "(k, v) \<in> set kv" using Cons.prems(2) by auto
    moreover from this have "map to_lower k \<in> set (map (\<lambda>p. map to_lower (fst p)) kv)" by force
    then have "map to_lower k \<noteq> map to_lower (fst p)" using Cons.prems(1) by (metis distinct.simps(2) list.simps(9))
    ultimately show ?thesis using Cons by (simp add: same_word_def encoded_def)
  qed
qed simp

end
