(* ===== verification/Maintain.thy ===== *)
theory Maintain
  imports ParsePara VossBase CsSig
begin

text \<open>
  The commands an operator sends through the VOSS master (\<open>src/network/vfs_maintain.c\<close>): changes of the
  configuration, the time stamps of directories, tasks to fetch a file or a directory, files to
  delete, machines to take off line.  The state extends that of the task pool.
\<close>

record maint_state = task_state +
  mt_cfg :: cfg_state
  mt_conf :: config_state
  mt_vals :: "string \<Rightarrow> int"
  mt_dump :: "string option"
  mt_fcs :: stamp_file
  mt_cs :: stamp_file
  mt_local :: local_state

text \<open>
  \<open>mw_mktime\<close> and \<open>mw_localtime\<close> are the C library's conversions of times, \<open>mw_err\<close> is the text of
  \<open>%m\<close>, \<open>mw_junk\<close> what fresh memory holds, \<open>mw_list\<close> and \<open>mw_put\<close> whether the blocks for the list
  and for a configuration entry are granted.
\<close>

record mworld =
  mw_env :: env
  mw_out :: outside
  mw_lw :: local_world
  mw_self :: t_ip_info
  mw_start :: int
  mw_compiled :: "string \<times> string"
  mw_banner :: string
  mw_mktime :: "int \<times> int \<times> int \<times> int \<times> int \<times> int \<Rightarrow> int"
  mw_localtime :: "int \<Rightarrow> string"
  mw_err :: string
  mw_junk :: "nat \<Rightarrow> string"
  mw_list :: bool
  mw_put :: bool
  mw_behind :: string

definition cmd_type :: "string list" where
  "cmd_type = [''M_ONLINE'', ''M_OFFLINE'', ''M_GETINFO'', ''M_SYNCDIR'', ''M_SYNCFILE'', ''M_CONFUPDA'', ''M_SETDIRTIME'',
     ''M_GETDIRTIME'', ''M_DELFILE'', ''M_EXECUTE'']"

definition validcmd :: "string list" where
  "validcmd = [''cs_preday'', ''fcs_max_connects'', ''cs_max_connects'', ''cs_max_task_run_once'', ''vfs_test'',
     ''real_rm_time'', ''task_timeout'', ''fcs_max_task'', ''cs_sync_dir'', ''data_calcu_md5'', ''continue_flag'', ''sync_dir_count'']"

definition isvalid :: "string \<Rightarrow> bool" where
  "isvalid key \<longleftrightarrow> (\<exists>v\<in>set validcmd. same_word key v)"

definition is_cmd_key :: "string \<Rightarrow> bool" where
  "is_cmd_key key \<longleftrightarrow> same_word key ''vfs_cmd''"

text \<open>
  A value ends at its first line end; the last character is not looked at.  For an empty value the
  loop counts down from -1 and runs off the string; the model leaves the value as it is.
\<close>

definition line_end :: "char \<Rightarrow> bool" where
  "line_end c \<longleftrightarrow> c = CHR 0x0D \<or> c = CHR 0x0A"

definition cut_line :: "string \<Rightarrow> string" where
  "cut_line v = (if \<exists>c\<in>set (butlast v). line_end c then takeWhile (\<lambda>c. \<not> line_end c) v else v)"

section \<open>Times\<close>

definition get_time_t :: "mworld \<Rightarrow> string \<Rightarrow> int" where
  "get_time_t w p =
     (if length p \<noteq> 14 then 0
      else mw_mktime w (atoi (take 4 p) - 1900, atoi (take 2 (drop 4 p)) - 1, atoi (take 2 (drop 6 p)), atoi (take 2 (drop 8 p)),
        atoi (take 2 (drop 10 p)), atoi (take 2 (drop 12 p))))"

section \<open>The answer\<close>

text \<open>What has been printed into the buffer of \<open>n\<close> characters, and how many were asked for.\<close>

type_synonym answer = "string \<times> nat"

definition SENDBUF :: nat where "SENDBUF = 40960"

definition print_to :: "nat \<Rightarrow> string \<Rightarrow> answer \<Rightarrow> answer" where
  "print_to n t a = (fst a @ take (n - 1 - snd a) t, snd a + length t)"

definition append_to :: "nat \<Rightarrow> string \<Rightarrow> answer \<Rightarrow> answer" where
  "append_to n t a = (if snd a < n then print_to n t a else a)"

definition answer_of :: "nat \<Rightarrow> string \<Rightarrow> answer" where
  "answer_of n t = print_to n t ([], 0)"

definition refuse_role :: "mworld \<Rightarrow> nat \<Rightarrow> string \<Rightarrow> string \<Rightarrow> answer" where
  "refuse_role w n verb func = answer_of n (''role ['' @ role_name (ii_role (mw_self w)) @ ''] '' @ verb @ '' '' @ func @ [CHR 0x0A])"

section \<open>Configuration\<close>

text \<open>Each value with its default and the width of its field, 0 for a \<open>time_t\<close>.\<close>

definition reload_values :: "(string \<times> int \<times> nat) list" where
  "reload_values = [(''cs_preday'', 5, 16), (''fcs_max_connects'', 10, 16), (''cs_max_connects'', 20, 16),
     (''cs_max_task_run_once'', 32, 16), (''fcs_max_task'', 32, 16), (''reload_time'', 3600, 16), (''voss_interval'', 300, 16),
     (''continue_flag'', 0, 8), (''vfs_test'', 0, 8), (''real_rm_time'', 7200, 0), (''task_timeout'', 86400, 0),
     (''cs_sync_dir'', 0, 8), (''data_calcu_md5'', 0, 8), (''sync_dir_count'', 10, 8)]"

definition read_value :: "config_state \<times> (string \<Rightarrow> int) \<Rightarrow> string \<times> int \<times> nat \<Rightarrow> config_state \<times> (string \<Rightarrow> int)" where
  "read_value cv kd =
     (let (key, def, width) = kd; (n, c) = myconfig_get_intval key def (fst cv)
      in (c, (snd cv)(key := if width = 0 then n else n mod 2 ^ width)))"

definition reload_config :: "config_state \<Rightarrow> (string \<Rightarrow> int) \<Rightarrow> config_state \<times> (string \<Rightarrow> int)" where
  "reload_config c v = foldl read_value (c, v) reload_values"

text \<open>The pairs of a command that change the configuration; the first that cannot be stored ends it.\<close>

fun conf_pairs :: "bool \<Rightarrow> (string \<times> string) list \<Rightarrow> config_state \<Rightarrow> int \<times> config_state" where
  "conf_pairs ok [] c = (0, c)"
| "conf_pairs ok ((key, val) # ps) c =
     (if is_cmd_key key \<or> \<not> isvalid key then conf_pairs ok ps c
      else let (r, c) = myconfig_update_value ok key (cut_line val) (myconfig_delete_value [] key c)
           in if r < 0 then (-1, c) else conf_pairs ok ps c)"

definition do_confupda :: "mworld \<Rightarrow> StringPairList \<Rightarrow> maint_state \<Rightarrow> int \<times> maint_state" where
  "do_confupda w l s =
     (let (r, c) = conf_pairs (mw_put w) (sp_list l) (mt_conf s) in
      if r < 0 then (-1, s\<lparr>mt_conf := c\<rparr>)
      else
        let dump = myconfig_dump_to_file (mw_banner w) c; (c, v) = reload_config c (mt_vals s)
        in (0, s\<lparr>mt_conf := c, mt_vals := v, mt_dump := Some dump\<rparr>))"

section \<open>What a machine tells about itself\<close>

definition get_info :: "mworld \<Rightarrow> nat \<Rightarrow> maint_state \<Rightarrow> answer" where
  "get_info w n s =
     answer_of n (''starttime='' @ mw_localtime w (mw_start w) @ ''|compile_time='' @ fst (mw_compiled w) @ '' '' @ snd (mw_compiled w)
       @ ''|vfs_test='' @ show_int (mt_vals s ''vfs_test'') @ ''|continue_flag='' @ show_int (mt_vals s ''continue_flag'')
       @ ''|task_timeout='' @ show_int (mt_vals s ''task_timeout'')
       @ concat (map (\<lambda>(name, q). CHR 0x7C # name @ ''='' @ show_int (get_task_count q s))
           [(''task_run'', TASK_RUN), (''task_wait'', TASK_WAIT), (''task_fin'', TASK_FIN), (''task_clean'', TASK_CLEAN),
            (''task_wait_sync'', TASK_WAIT_SYNC), (''task_wait_sync_ip'', TASK_WAIT_SYNC_IP), (''task_wait_tmp'', TASK_WAIT_TMP)])
       @ [CHR 0x7C])"

definition stamp_text :: "mworld \<Rightarrow> int \<Rightarrow> string" where
  "stamp_text w t = mw_localtime w t @ ''('' @ show_int t @ '')''"

text \<open>One pair \<open>d1,d2,domain=time\<close> (on a storage machine) or \<open>d1,d2=time\<close> (on a source machine).\<close>

definition set_dirtime_one :: "mworld \<Rightarrow> nat \<Rightarrow> maint_state \<times> answer \<Rightarrow> string \<times> string \<Rightarrow> maint_state \<times> answer" where
  "set_dirtime_one w n sa kv =
     (let (s, a) = sa; (key, val) = kv; val = cut_line val; t = get_time_t w val in
      if is_cmd_key key then (s, a)
      else case strchr key (CHR '','') of None \<Rightarrow> (s, a)
      | Some k \<Rightarrow>
        let d1 = atoi key; p = drop (Suc k) key; d2 = atoi p in
        if ii_role (mw_self w) = ROLE_CS then
          (case strchr p (CHR '','') of None \<Rightarrow> (s, a)
           | Some k \<Rightarrow>
             let domain = atoi (drop (Suc k) p); old = get_cs_time_stamp_by_int d1 d2 domain (mt_cs s);
                 f = snd (set_cs_time_stamp_by_int (mw_env w) (self_stat (mt_cfg s)) d1 d2 domain t (mt_cs s))
             in (s\<lparr>mt_cs := f\<rparr>, append_to n (''set cs '' @ key @ ''='' @ val @ ''('' @ show_int t @ ''),old '' @ stamp_text w old) a))
        else
          let old = get_fcs_time_stamp_by_int d1 d2 (mt_fcs s);
              f = snd (set_fcs_time_stamp_by_int (mw_env w) d1 d2 t (mt_fcs s))
          in (s\<lparr>mt_fcs := f\<rparr>, append_to n (''set fcs '' @ key @ ''='' @ val @ ''('' @ show_int t @ ''),old '' @ stamp_text w old @ '' '') a))"

definition set_dirtime :: "mworld \<Rightarrow> StringPairList \<Rightarrow> nat \<Rightarrow> maint_state \<Rightarrow> answer \<times> maint_state" where
  "set_dirtime w l n s =
     (if ii_role (mw_self w) \<noteq> ROLE_CS \<and> ii_role (mw_self w) \<noteq> ROLE_FCS then (refuse_role w n ''need not'' ''set_dirtime'', s)
      else let (s, a) = foldl (set_dirtime_one w n) (s, ([], 0)) (sp_list l)
           in (print_to n [CHR 0x0A] a, s))"

text \<open>\<open>fcs_after\<close> is the walk with \<open>get_next_fcs\<close>.\<close>

definition cs_dirtime_one :: "mworld \<Rightarrow> nat \<Rightarrow> maint_state \<Rightarrow> answer \<Rightarrow> string \<Rightarrow> answer" where
  "cs_dirtime_one w n s a dir =
     (case strchr dir (CHR ''/'') of None \<Rightarrow> a
      | Some k \<Rightarrow>
        let d1 = atoi dir; d2 = atoi (drop (Suc k) dir) in
        foldl (\<lambda>a fcs. let t = get_cs_time_stamp_by_int d1 d2 fcs (mt_cs s) in
            if t \<le> 0 then a
            else append_to n (show_int d1 @ '','' @ show_int d2 @ '',fcs'' @ show_int fcs @ ''.56.com = '' @ stamp_text w t @ '' '') a)
          a (fcs_after ISP_FCS (mt_cfg s) 0))"

definition get_cs_dirtime :: "mworld \<Rightarrow> nat \<Rightarrow> maint_state \<Rightarrow> answer" where
  "get_cs_dirtime w n s =
     foldl (cs_dirtime_one w n s) ([], 0) (takeWhile (\<lambda>d. d \<noteq> []) (take MAXDIR_FOR_CS (ii_dirs (mw_self w))))"

definition get_fcs_dirtime :: "mworld \<Rightarrow> nat \<Rightarrow> maint_state \<Rightarrow> answer" where
  "get_fcs_dirtime w n s =
     foldl (\<lambda>a d. let t = get_fcs_time_stamp_by_int (fst d) (snd d) (mt_fcs s) in
         if t \<le> 0 then a else append_to n (show_int (fst d) @ '','' @ show_int (snd d) @ '' = '' @ stamp_text w t @ '' '') a)
       ([], 0) (List.product [0..DIR1 - 1] [0..DIR2 - 1])"

definition get_dirtime :: "mworld \<Rightarrow> nat \<Rightarrow> maint_state \<Rightarrow> answer" where
  "get_dirtime w n s =
     (if ii_role (mw_self w) = ROLE_CS then get_cs_dirtime w n s
      else if ii_role (mw_self w) = ROLE_FCS then get_fcs_dirtime w n s
      else refuse_role w n ''have not'' ''get_dirtime'')"

section \<open>Tasks\<close>

definition mt_put :: "mworld \<Rightarrow> ptr \<Rightarrow> int \<Rightarrow> maint_state \<Rightarrow> maint_state" where
  "mt_put w t st s = snd (vfs_set_task (mw_env w) t st s)"

definition do_voss_sync_file :: "mworld \<Rightarrow> string \<Rightarrow> string \<Rightarrow> string option \<Rightarrow> string option \<Rightarrow> maint_state \<Rightarrow> int \<times> maint_state" where
  "do_voss_sync_file w domain fname sip fmd5 s =
     (case vfs_get_task (mw_env w) TASK_HOME s of
        (r, Some t, s) \<Rightarrow>
          let base = zero_base\<lparr>tb_src_domain := take 15 domain, tb_filename := take 255 fname,
                tb_filemd5 := (case fmd5 of Some d \<Rightarrow> take 32 d | None \<Rightarrow> []), tb_starttime := e_now (mw_env w),
                tb_type := TASK_ADDFILE, tb_dstip := self_ip (mt_cfg s)\<rparr>;
              sub = zero_sub\<lparr>ts_oper_type := OPER_GET_REQ, ts_need_sync := TASK_SYNC_VOSS_FILE\<rparr>;
              peer = (case sip of Some i \<Rightarrow> Some (take 15 i) | None \<Rightarrow> f_dns (mw_out w) domain)
          in (case peer of
                None \<Rightarrow> (-1, mt_put w t TASK_HOME (set_task t ((tl_task (tasks s t))\<lparr>ti_base := base, ti_sub := sub\<rparr>) s))
              | Some i \<Rightarrow>
                (0, mt_put w t TASK_SYNC_VOSS (set_task t \<lparr>ti_base = base, ti_sub = sub\<lparr>ts_peerip := i\<rparr>, ti_user = None\<rparr> s)))
      | (r, None, s) \<Rightarrow> (-1, s))"

definition do_voss_del_file :: "mworld \<Rightarrow> string \<Rightarrow> string \<Rightarrow> maint_state \<Rightarrow> int \<times> maint_state" where
  "do_voss_del_file w domain fname s =
     (let (r, lo) = delete_localfile (mw_lw w) (zero_base\<lparr>tb_src_domain := take 15 domain, tb_filename := take 255 fname\<rparr>) (mt_local s)
      in (r, s\<lparr>mt_local := lo\<rparr>))"

definition do_voss_sync_dir :: "mworld \<Rightarrow> string \<Rightarrow> string \<Rightarrow> int \<Rightarrow> maint_state \<Rightarrow> int \<times> maint_state" where
  "do_voss_sync_dir w domain dir starttime s =
     (case vfs_get_task (mw_env w) TASK_HOME s of
        (r, Some t, s) \<Rightarrow>
          let base = zero_base\<lparr>tb_src_domain := take 15 domain, tb_filename := take 255 dir, tb_starttime := e_now (mw_env w),
                tb_type := TASK_SYNCDIR\<rparr>;
              sub = zero_sub\<lparr>ts_starttime := starttime, ts_need_sync := TASK_SYNC_VOSS_FILE\<rparr>
          in (0, mt_put w t TASK_SYNC_VOSS (set_task t \<lparr>ti_base = base, ti_sub = sub, ti_user = None\<rparr> s))
      | (r, None, s) \<Rightarrow> (-1, s))"

text \<open>The value \<open>file\<close>, \<open>file,address\<close> or \<open>file,address,digest\<close>.\<close>

definition split_sync :: "string \<Rightarrow> string \<times> string option \<times> string option" where
  "split_sync val =
     (case strchr val (CHR '','') of None \<Rightarrow> (val, None, None)
      | Some k \<Rightarrow>
        let f = take k val; r = drop (Suc k) val in
        case strchr r (CHR '','') of None \<Rightarrow> (f, Some r, None)
        | Some k \<Rightarrow> (f, Some (take k r), Some (drop (Suc k) r)))"

definition sync_file_one :: "mworld \<Rightarrow> nat \<Rightarrow> maint_state \<times> answer \<Rightarrow> string \<times> string \<Rightarrow> maint_state \<times> answer" where
  "sync_file_one w n sa kv =
     (let (s, a) = sa; (key, val) = kv in
      if is_cmd_key key then (s, a)
      else
        let (f, sip, fmd5) = split_sync (cut_line val); (r, s) = do_voss_sync_file w key f sip fmd5 s
        in (s, if r \<noteq> 0 then append_to n (''sync '' @ key @ '' '' @ f @ '' err '' @ mw_err w) a else a))"

definition voss_sync_file :: "mworld \<Rightarrow> StringPairList \<Rightarrow> nat \<Rightarrow> maint_state \<Rightarrow> answer \<times> maint_state" where
  "voss_sync_file w l n s =
     (if ii_role (mw_self w) \<noteq> ROLE_CS then (refuse_role w n ''have not'' ''voss_sync_file'', s)
      else let (s, a) = foldl (sync_file_one w n) (s, ([], 0)) (sp_list l) in (a, s))"

definition del_file_one :: "mworld \<Rightarrow> nat \<Rightarrow> maint_state \<times> answer \<Rightarrow> string \<times> string \<Rightarrow> maint_state \<times> answer" where
  "del_file_one w n sa kv =
     (let (s, a) = sa; (key, val) = kv; val = cut_line val in
      if is_cmd_key key then (s, a)
      else
        let (r, s) = do_voss_del_file w key val s
        in (s, if r \<noteq> 0 then append_to n (''del '' @ key @ '' '' @ val @ '' err '' @ mw_err w) a else a))"

definition voss_del_file :: "mworld \<Rightarrow> StringPairList \<Rightarrow> nat \<Rightarrow> maint_state \<Rightarrow> answer \<times> maint_state" where
  "voss_del_file w l n s =
     (if ii_role (mw_self w) \<noteq> ROLE_CS then (refuse_role w n ''have not'' ''voss_del_file'', s)
      else let (s, a) = foldl (del_file_one w n) (s, ([], 0)) (sp_list l) in (a, s))"

definition sync_dir_one :: "mworld \<Rightarrow> nat \<Rightarrow> maint_state \<times> answer \<Rightarrow> string \<times> string \<Rightarrow> maint_state \<times> answer" where
  "sync_dir_one w n sa kv =
     (let (s, a) = sa; (key, val) = kv; val = cut_line val in
      if is_cmd_key key then (s, a)
      else case strrchr val (CHR 0x7C) of
        None \<Rightarrow> (s, append_to n (''sync '' @ key @ '' '' @ val @ '' errformat domain=d1,d2|yyyymmddHHMMSS'') a)
      | Some k \<Rightarrow>
        let dir = take k val; t = max 0 (get_time_t w (drop (Suc k) val)); (r, s) = do_voss_sync_dir w key dir t s
        in (s, if r \<noteq> 0 then append_to n (''sync '' @ key @ '' '' @ dir @ '' err '' @ mw_err w) a else a))"

definition voss_sync_dir :: "mworld \<Rightarrow> StringPairList \<Rightarrow> nat \<Rightarrow> maint_state \<Rightarrow> answer \<times> maint_state" where
  "voss_sync_dir w l n s =
     (if ii_role (mw_self w) \<noteq> ROLE_CS then (refuse_role w n ''have not'' ''voss_sync_dir'', s)
      else let (s, a) = foldl (sync_dir_one w n) (s, ([], 0)) (sp_list l) in (a, s))"

section \<open>Machines off line\<close>

definition off_on_one :: "mworld \<Rightarrow> int \<Rightarrow> maint_state \<Rightarrow> string \<Rightarrow> maint_state" where
  "off_on_one w type s v =
     (let ip = fst (get_uint32_ip (f_dns (mw_out w)) v)
      in s\<lparr>mt_cfg := oper_ip_off_line (mw_env w) ip type (do_ip_off_line (mw_env w) ip type (mt_cfg s))\<rparr>)"

definition voss_off_on_line :: "mworld \<Rightarrow> StringPairList \<Rightarrow> int \<Rightarrow> maint_state \<Rightarrow> maint_state" where
  "voss_off_on_line w l type s =
     foldl (\<lambda>s (key, val). if is_cmd_key key then s else foldl (off_on_one w type) s (split_commas (cut_line val) []))
       s (sp_list l)"

section \<open>A command\<close>

definition get_cmd_position :: "string \<Rightarrow> int" where
  "get_cmd_position cmd = (case find (\<lambda>i. cmd_type ! i = cmd) [0..<length cmd_type] of Some i \<Rightarrow> int i | None \<Rightarrow> -1)"

definition command_list :: "mworld \<Rightarrow> string \<Rightarrow> StringPairList option" where
  "command_list w text =
     (if \<not> mw_list w then None
      else case CreateStringPairList 20 of None \<Rightarrow> None
      | Some l \<Rightarrow> (case DecodePara (mw_junk w) text l of (r, l) \<Rightarrow> if r \<noteq> 0 then None else Some l))"

definition command_type :: "StringPairList \<Rightarrow> int" where
  "command_type l =
     (case GetParaValue l ''vfs_cmd'' 32 of None \<Rightarrow> -1 | Some v \<Rightarrow> get_cmd_position (strip_end (\<lambda>c. \<not> is_alnum c) (cstr v)))"

definition if_empty :: "answer \<Rightarrow> string \<Rightarrow> answer" where
  "if_empty a t = (if snd a = 0 then answer_of SENDBUF t else a)"

text \<open>\<open>raw\<close> is the text at the pointer \<open>data\<close> up to a zero, which goes on behind the command.\<close>

definition run_command :: "mworld \<Rightarrow> int \<Rightarrow> StringPairList \<Rightarrow> string \<Rightarrow> maint_state \<Rightarrow> answer \<times> maint_state" where
  "run_command w type l raw s =
     (if type = 5 then
        (let (r, s) = do_confupda w l s
         in (answer_of SENDBUF (raw @ (if r = 0 then ''::Result=OK&Code=0&Msg=Success'' else ''::Msg=Failed'')), s))
      else if type = 2 then (get_info w SENDBUF s, s)
      else if type = 6 then set_dirtime w l SENDBUF s
      else if type = 7 then (get_dirtime w SENDBUF s, s)
      else if type = 4 then (let (a, s) = voss_sync_file w l SENDBUF s in (if_empty a ''sync file OK!'', s))
      else if type = 3 then (let (a, s) = voss_sync_dir w l SENDBUF s in (if_empty a ''sync dir OK!'', s))
      else if type = 1 then (answer_of SENDBUF (''offline '' @ raw @ '' OK!''), voss_off_on_line w l M_OFFLINE s)
      else if type = 0 then (answer_of SENDBUF (''online '' @ raw @ '' OK!''), voss_off_on_line w l M_ONLINE s)
      else if type = 8 then (let (a, s) = voss_del_file w l SENDBUF s in (if_empty a ''del file OK!'', s))
      else (answer_of SENDBUF (raw @ '':: not implement''), s))"

text \<open>The bytes taken for an answer longer than the buffer go on behind it.\<close>

definition answer_bytes :: "mworld \<Rightarrow> answer \<Rightarrow> byte list" where
  "answer_bytes w a = str_bytes (take (snd a) (fst a @ replicate (SENDBUF - length (fst a)) NUL @ mw_behind w))"

definition do_request :: "mworld \<Rightarrow> string \<Rightarrow> string \<Rightarrow> maint_state \<Rightarrow> byte list option \<times> maint_state" where
  "do_request w text raw s =
     (case command_list w text of None \<Rightarrow> (None, s)
      | Some l \<Rightarrow>
        let type = command_type l in
        if type = -1 then (None, s)
        else let (a, s) = run_command w type l raw s
             in (if snd a = 0 then None else Some (answer_bytes w a), s))"

end
