(* ===== verification/MaintFacts.thy ===== *)
theory MaintFacts
  imports Maintain
begin

text \<open>
  What the commands do: a command to fetch files queues one task for each, in order, as it says; a
  change of the configuration reaches the keys an operator may change, and no other.
\<close>

section \<open>Fetching files\<close>

text \<open>The task a pair \<open>domain=file,address,digest\<close> asks for.\<close>

definition fetch_task :: "mworld \<Rightarrow> u32 \<Rightarrow> string \<times> string \<Rightarrow> t_vfs_taskinfo" where
  "fetch_task w me kv =
     (let (f, sip, d) = split_sync (cut_line (snd kv))
      in \<lparr>ti_base = zero_base\<lparr>tb_src_domain := take 15 (fst kv), tb_filename := take 255 f,
            tb_filemd5 := (case d of Some d \<Rightarrow> take 32 d | None \<Rightarrow> []), tb_starttime := e_now (mw_env w), tb_type := TASK_ADDFILE,
            tb_dstip := me\<rparr>,
          ti_sub = zero_sub\<lparr>ts_oper_type := OPER_GET_REQ, ts_need_sync := TASK_SYNC_VOSS_FILE,
            ts_peerip := (case sip of Some i \<Rightarrow> take 15 i | None \<Rightarrow> the (f_dns (mw_out w) (fst kv)))\<rparr>,
          ti_user = None\<rparr>)"

text \<open>The machine to fetch from is named, or its domain is known.\<close>

definition source_known :: "mworld \<Rightarrow> string \<times> string \<Rightarrow> bool" where
  "source_known w kv \<longleftrightarrow> fst (snd (split_sync (cut_line (snd kv)))) \<noteq> None \<or> f_dns (mw_out w) (fst kv) \<noteq> None"

lemma voss_queue [simp]: "valid_status TASK_SYNC_VOSS" "TASK_SYNC_VOSS \<noteq> TASK_HOME"
  by (simp_all add: valid_status_def queue_defs)

lemma sync_file_one_queues:
  assumes u: "unlocked (mw_env w)" and q: "queues_ok s" and h: "vfstask s TASK_HOME = t # ts"
    and k: "\<not> is_cmd_key (fst kv)" "source_known w kv"
  obtains s' where "sync_file_one w n (s, a) kv = (s', a)" and "queues_ok s'" and "mt_cfg s' = mt_cfg s"
    and "vfstask s' = (vfstask s)(TASK_HOME := ts, TASK_SYNC_VOSS := vfstask s TASK_SYNC_VOSS @ [t])"
    and "\<And>v. tl_task (tasks s' v) = (if v = t then fetch_task w (self_ip (mt_cfg s)) kv else tl_task (tasks s v))"
proof -
  obtain key val where kv: "kv = (key, val)" by (cases kv)
  obtain f sip d where sp: "split_sync (cut_line val) = (f, sip, d)" by (cases "split_sync (cut_line val)")
  have l: "\<not> lock_failed (mw_env w) (M_task p)" for p using u by (simp add: unlocked_def)
  let ?s1 = "set_status t TASK_UNKNOWN (s\<lparr>taskcount := (taskcount s)(TASK_HOME := taskcount s TASK_HOME - 1), vfstask := lf_del t (vfstask s)\<rparr>)"
  let ?s = "mt_put w t TASK_SYNC_VOSS (set_task t (fetch_task w (self_ip (mt_cfg s)) kv) ?s1)"
  have g: "vfs_get_task (mw_env w) TASK_HOME s = (GET_TASK_OK, Some t, ?s1)"
    using l h by (simp add: vfs_get_task_def)
  have cfg: "mt_cfg ?s1 = mt_cfg s" by (simp add: set_status_def)
  have run: "do_voss_sync_file w key f sip d s = (0, ?s)"
    using k(2) sp unfolding do_voss_sync_file_def g Let_def
    by (cases sip) (auto simp: cfg fetch_task_def source_known_def kv)
  have wf: "lf_wf (vfstask s)" using q by (simp add: queues_ok_def)
  then have d: "distinct (t # ts)" and off: "\<And>p. p \<noteq> TASK_HOME \<Longrightarrow> t \<notin> set (vfstask s p)"
    using h by (metis lf_wf_def, metis lf_wf_unique list.set_intros(1))
  then have del: "removeAll t (vfstask s p) = ((vfstask s)(TASK_HOME := ts)) p" for p
    by (simp add: h removeAll_notin)
  show ?thesis
  proof (rule that [of ?s])
    show "sync_file_one w n (s, a) kv = (?s, a)" using k(1) sp run by (simp add: sync_file_one_def kv)
    show "queues_ok ?s"
    proof -
      have "queues_ok (s\<lparr>vfstask := lf_del t (vfstask s)\<rparr>)" using q by (rule queues_del)
      then have "queues_ok (set_task t (fetch_task w (self_ip (mt_cfg s)) kv) ?s1)"
        by (auto simp: queues_ok_def set_task_def set_status_def)
      then show ?thesis by (simp add: mt_put_def queues_set_task)
    qed
    show "mt_cfg ?s = mt_cfg s" by (simp add: mt_put_def vfs_set_task_def set_task_def set_status_def)
    show "vfstask ?s = (vfstask s)(TASK_HOME := ts, TASK_SYNC_VOSS := vfstask s TASK_SYNC_VOSS @ [t])"
      using l off d by (auto simp: removeAll_notin mt_put_def set_task_effect set_task_def set_status_def fun_eq_iff del)
    show "tl_task (tasks ?s v) = (if v = t then fetch_task w (self_ip (mt_cfg s)) kv else tl_task (tasks s v))" for v
      by (simp add: mt_put_def)
  qed
qed

lemma sync_files_queued:
  assumes u: "unlocked (mw_env w)"
  shows "\<lbrakk>queues_ok s; vfstask s TASK_HOME = ts @ rest; length ts = length kvs;
    \<forall>kv\<in>set kvs. \<not> is_cmd_key (fst kv) \<and> source_known w kv\<rbrakk> \<Longrightarrow>
    \<exists>s'. foldl (sync_file_one w n) (s, a) kvs = (s', a) \<and> queues_ok s' \<and>
      vfstask s' = (vfstask s)(TASK_HOME := rest, TASK_SYNC_VOSS := vfstask s TASK_SYNC_VOSS @ ts) \<and>
      map (\<lambda>t. tl_task (tasks s' t)) ts = map (fetch_task w (self_ip (mt_cfg s))) kvs \<and>
      (\<forall>v. v \<notin> set ts \<longrightarrow> tl_task (tasks s' v) = tl_task (tasks s v))"
proof (induction kvs arbitrary: s ts)
  case (Cons kv kvs)
  obtain t ts' where ts: "ts = t # ts'" using Cons.prems(3) by (cases ts) simp_all
  obtain s1 where s1: "sync_file_one w n (s, a) kv = (s1, a)" "queues_ok s1" "mt_cfg s1 = mt_cfg s"
    "vfstask s1 = (vfstask s)(TASK_HOME := ts' @ rest, TASK_SYNC_VOSS := vfstask s TASK_SYNC_VOSS @ [t])"
    "\<And>v. tl_task (tasks s1 v) = (if v = t then fetch_task w (self_ip (mt_cfg s)) kv else tl_task (tasks s v))"
    using sync_file_one_queues [OF u Cons.prems(1), of t "ts' @ rest" kv n a] Cons.prems(2,4) by (auto simp: ts)
  have "distinct (vfstask s TASK_HOME)" using Cons.prems(1) by (simp add: queues_ok_def lf_wf_def)
  then have t: "t \<notin> set ts'" by (simp add: Cons.prems(2) ts)
  have h1: "vfstask s1 TASK_HOME = ts' @ rest" by (simp add: s1(4) voss_queue(2) [symmetric])
  have "\<exists>s2. foldl (sync_file_one w n) (s1, a) kvs = (s2, a) \<and> queues_ok s2 \<and>
    vfstask s2 = (vfstask s1)(TASK_HOME := rest, TASK_SYNC_VOSS := vfstask s1 TASK_SYNC_VOSS @ ts') \<and>
    map (\<lambda>t. tl_task (tasks s2 t)) ts' = map (fetch_task w (self_ip (mt_cfg s1))) kvs \<and>
    (\<forall>v. v \<notin> set ts' \<longrightarrow> tl_task (tasks s2 v) = tl_task (tasks s1 v))"
    by (rule Cons.IH [OF s1(2) h1]) (use Cons.prems(3,4) ts in simp_all)
  then obtain s2 where s2: "foldl (sync_file_one w n) (s1, a) kvs = (s2, a)" "queues_ok s2"
    "vfstask s2 = (vfstask s1)(TASK_HOME := rest, TASK_SYNC_VOSS := vfstask s1 TASK_SYNC_VOSS @ ts')"
    "map (\<lambda>t. tl_task (tasks s2 t)) ts' = map (fetch_task w (self_ip (mt_cfg s1))) kvs"
    "\<forall>v. v \<notin> set ts' \<longrightarrow> tl_task (tasks s2 v) = tl_task (tasks s1 v)"
    by blast
  show ?case
    using s1 s2 t by (intro exI [of _ s2]) (auto simp: ts fun_eq_iff)
qed (auto simp: fun_eq_iff)

lemma vfs_cmd_key: "is_cmd_key ''vfs_cmd''"
  by (simp add: is_cmd_key_def same_word_def)

lemma sync_command_type: "command_type \<lparr>sp_max = 20, sp_list = (''vfs_cmd'', ''M_SYNCFILE'') # kvs\<rparr> = 4"
proof -
  have "snd (decode_string ''M_SYNCFILE'' 31) = ''M_SYNCFILE''" by code_simp
  moreover have "get_cmd_position (strip_end (\<lambda>c. \<not> is_alnum c) (cstr ''M_SYNCFILE'')) = 4" by code_simp
  ultimately show ?thesis by (simp add: command_type_def GetParaValue_def pair_of_def same_word_def)
qed

lemma command_list_of:
  assumes "mw_list w" and "\<forall>p\<in>set kvs. para_ok p" and "kvs \<noteq> []" and "length kvs \<le> 18"
  shows "command_list w (para_text kvs) = Some \<lparr>sp_max = 20, sp_list = kvs\<rparr>"
proof -
  have "para_text kvs \<noteq> []" using assms(3) by (cases kvs rule: para_text.cases) simp_all
  then show ?thesis
    using assms parse_para_text [OF assms(2,3), of "[]" 18 "mw_junk w" "mw_junk w 0"]
    by (simp add: command_list_def CreateStringPairList_def DecodePara_def parsepara_def)
qed

section \<open>Changing the configuration\<close>

text \<open>The changes a command asks for, as far as they are allowed.\<close>

definition changes :: "(string \<times> string) list \<Rightarrow> (string \<times> string) list" where
  "changes ps = map (\<lambda>(k, v). (map to_lower k, cut_line v)) (filter (\<lambda>(k, v). \<not> is_cmd_key k \<and> isvalid k) ps)"

lemma del_entries:
  "mcs (foldl (del_entry key) c is) = mcs c" "mc_next (foldl (del_entry key) c is) = mc_next c"
  "myhash (foldl (del_entry key) c is) b = filter (\<lambda>i. \<not> (i \<in> set is \<and> is_entry key c i)) (myhash c b)"
proof -
  have e: "is_entry key (del_entry key c i) = is_entry key c"
    and h: "myhash (del_entry key c i) b = (if is_entry key c i then filter ((\<noteq>) i) (myhash c b) else myhash c b)" for c i
    by (simp_all add: del_entry_def is_entry_def [abs_def] removeAll_filter_not_eq)
  show "mcs (foldl (del_entry key) c is) = mcs c" "mc_next (foldl (del_entry key) c is) = mc_next c"
    by (induction "is" arbitrary: c) (simp_all add: del_entry_def)
  show "myhash (foldl (del_entry key) c is) b = filter (\<lambda>i. \<not> (i \<in> set is \<and> is_entry key c i)) (myhash c b)"
    by (induction "is" arbitrary: c) (auto simp: e h intro!: filter_cong)
qed

lemma find_filter: "(\<And>x. x \<in> set xs \<Longrightarrow> P x \<Longrightarrow> Q x) \<Longrightarrow> find P (filter Q xs) = find P xs"
  by (induction xs) auto

lemma delete_get:
  assumes "config_ok c"
  shows "config_ok (myconfig_delete_value pre key c)"
    and "find_entry k (myconfig_delete_value pre key c) = (if k = sep_key (pre @ key) then None else find_entry k c)"
    and "mcs (myconfig_delete_value pre key c) = mcs c"
proof -
  let ?s = "sep_key (pre @ key)"
  let ?c = "foldl (del_entry ?s) c (myhash c (slot_of (r5hash ?s)))"
  have c: "myconfig_delete_value pre key c = ?c" by (simp add: myconfig_delete_value_def Let_def)
  show "mcs (myconfig_delete_value pre key c) = mcs c" by (simp add: c del_entries)
  show "config_ok (myconfig_delete_value pre key c)"
    using assms by (auto simp: c config_ok_def del_entries)
  have e: "is_entry k ?c = is_entry k c" for k by (simp add: is_entry_def [abs_def] del_entries)
  show "find_entry k (myconfig_delete_value pre key c) = (if k = ?s then None else find_entry k c)"
  proof (cases "k = ?s")
    case True
    then show ?thesis by (auto simp: c find_entry_def e del_entries find_None_iff)
  next
    case False
    then have "find (is_entry k c) (filter (\<lambda>i. \<not> (i \<in> set (myhash c (slot_of (r5hash ?s))) \<and> is_entry ?s c i)) (myhash c (slot_of (r5hash k))))
        = find (is_entry k c) (myhash c (slot_of (r5hash k)))"
      by (intro find_filter) (auto simp: is_entry_def)
    then show ?thesis using False by (simp add: c find_entry_def e del_entries)
  qed
qed

lemma allowed_key:
  assumes "isvalid key"
  shows "sep_key key = key" and "CHR ''_'' \<in> set key"
proof -
  have v: "\<forall>v\<in>set validcmd. (\<forall>c\<in>set v. \<not> is_sep c \<or> c = CHR ''_'') \<and> CHR ''_'' \<in> set v \<and> map to_lower v = v" by code_simp
  obtain v where k: "v \<in> set validcmd" "map to_lower key = v"
    using assms v by (auto simp: isvalid_def same_word_def)
  have s: "to_lower c = c" if "is_sep c" for c using that by (auto simp: is_sep_def to_lower_def chr_code_def)
  have b: "c = CHR ''_''" if h: "to_lower c = CHR ''_''" for c
  proof (cases "65 \<le> chr_code c \<and> chr_code c \<le> 90")
    case True
    then have "char_of (chr_code c + 32) = CHR ''_''" using h by (simp add: to_lower_def)
    then have "of_char (char_of (chr_code c + 32) :: char) = (of_char (CHR ''_'') :: nat)" by simp
    then show ?thesis using True by simp
  next
    case False
    then have "to_lower c = c" unfolding to_lower_def by (rule if_not_P)
    then show ?thesis using h by simp
  qed
  have img: "set v = to_lower ` set key" using k(2) [symmetric] by simp
  have sep: "c = CHR ''_''" if "c \<in> set key" "is_sep c" for c
    using that v k(1) img s [of c] by (metis imageI)
  show "sep_key key = key" unfolding sep_key_def by (rule map_idI) (auto dest: sep)
  have "CHR ''_'' \<in> set v" using v k(1) by blast
  then show "CHR ''_'' \<in> set key" using img b by (metis imageE)
qed

lemma find_entry_cong:
  "(\<And>i. mc_key (mcs c' i) = mc_key (mcs c i)) \<Longrightarrow> (\<And>i. mc_hash (mcs c' i) = mc_hash (mcs c i)) \<Longrightarrow> myhash c' = myhash c \<Longrightarrow>
   find_entry k c' = find_entry k c"
  by (simp add: find_entry_def is_entry_def [abs_def])

text \<open>What one change does to a look-up of a key in lower case.\<close>

lemma change_get:
  assumes c: "config_ok c" and v: "isvalid key" and k: "map to_lower k = k"
    and run: "myconfig_update_value True key val (myconfig_delete_value [] key c) = (r, c')"
  shows "r \<ge> 0 \<and> config_ok c' \<and> myconfig_get_value k c' = (if k = map to_lower key then Some val else myconfig_get_value k c)"
proof -
  let ?c = "myconfig_delete_value [] key c"
  note a = allowed_key [OF v]
  note d = delete_get [OF c, where pre = "[]" and key = key, unfolded append_Nil a(1)]
  have "find_entry key ?c = None" by (simp add: d(2))
  moreover obtain i where i: "strchr key (CHR ''_'') = Some i" using a(2) strchr_None [of key "CHR ''_''"] by (cases "strchr key (CHR ''_'')") auto
  ultimately have u: "(r, c') = myconfig_put_value True (take i key @ ''-'') (drop (Suc i) key) val ?c"
    using run by (simp add: myconfig_update_value_def)
  have s: "key = take i key @ CHR ''_'' # drop (Suc i) key" using strchr_SomeD [OF i] id_take_nth_drop [of i key] by simp
  have "norm_key ((take i key @ ''-'') @ drop (Suc i) key) = norm_key (take i key @ CHR ''_'' # drop (Suc i) key)"
    by (simp add: norm_key_def sep_key_def is_sep_def)
  then have nk: "norm_key ((take i key @ ''-'') @ drop (Suc i) key) = map to_lower key"
    using s a(1) by (simp add: norm_key_def)
  have r: "r \<ge> 0" using u by (auto simp: myconfig_put_value_def Let_def split: if_splits)
  have ok: "config_ok c'" using put_ok [OF d(1), of True] u by (metis snd_conv)
  have g: "myconfig_get_value k c' = (if k = map to_lower key then Some val else myconfig_get_value k ?c)"
    using get_put [OF d(1), of k "take i key @ ''-''" "drop (Suc i) key" val] nk u by (metis snd_conv)
  have "myconfig_get_value k ?c = myconfig_get_value k c" if "k \<noteq> map to_lower key"
    using that k by (auto simp: myconfig_get_value_def d(2,3))
  then show ?thesis using r ok g by simp
qed

lemma conf_pairs_get:
  assumes "config_ok c"
  shows "\<exists>c'. conf_pairs True ps c = (0, c') \<and> config_ok c' \<and>
    (\<forall>k. map to_lower k = k \<longrightarrow>
       myconfig_get_value k c' = (case map_of (rev (changes ps)) k of Some v \<Rightarrow> Some v | None \<Rightarrow> myconfig_get_value k c))"
  using assms
proof (induction ps arbitrary: c)
  case (Cons p ps)
  obtain key val where p: "p = (key, val)" by (cases p)
  show ?case
  proof (cases "is_cmd_key key \<or> \<not> isvalid key")
    case True
    then show ?thesis using Cons by (auto simp: p changes_def)
  next
    case False
    obtain r c1 where u: "myconfig_update_value True key (cut_line val) (myconfig_delete_value [] key c) = (r, c1)"
      by (cases "myconfig_update_value True key (cut_line val) (myconfig_delete_value [] key c)")
    have v: "isvalid key" using False by simp
    note g = change_get [OF Cons.prems v _ u]
    have c1: "config_ok c1" "r \<ge> 0" using g [of "[]"] by simp_all
    obtain c' where c': "conf_pairs True ps c1 = (0, c')" "config_ok c'"
      "\<forall>k. map to_lower k = k \<longrightarrow>
         myconfig_get_value k c' = (case map_of (rev (changes ps)) k of Some v \<Rightarrow> Some v | None \<Rightarrow> myconfig_get_value k c1)"
      using Cons.IH [OF c1(1)] by blast
    have ch: "changes (p # ps) = (map to_lower key, cut_line val) # changes ps" using False by (simp add: p changes_def)
    have "conf_pairs True (p # ps) c = (0, c')" using False u c1(2) c'(1) by (simp add: p)
    moreover have "myconfig_get_value k c' = (case map_of (rev (changes (p # ps))) k of Some v \<Rightarrow> Some v | None \<Rightarrow> myconfig_get_value k c)"
      if "map to_lower k = k" for k
      using c'(3) g [OF that] that by (auto simp: ch map_add_def split: option.split)
    ultimately show ?thesis using c'(2) by blast
  qed
qed (simp add: changes_def)

text \<open>Reading the numbers again changes no value.\<close>

lemma get_value_intval: "myconfig_get_value k (snd (myconfig_get_intval key d c)) = myconfig_get_value k c"
proof -
  have "find_entry k (c\<lparr>mcs := (mcs c)(i := (mcs c i)\<lparr>mc_int := n\<rparr>)\<rparr>) = find_entry k c" for i n
    by (rule find_entry_cong) simp_all
  then show ?thesis
    by (cases "find_entry k c") (auto simp: myconfig_get_intval_def myconfig_get_value_def Let_def split: option.split)
qed

lemma get_value_reload: "myconfig_get_value k (fst (reload_config c v)) = myconfig_get_value k c"
proof -
  have one: "myconfig_get_value k (fst (read_value cv kd)) = myconfig_get_value k (fst cv)" for cv kd
    using get_value_intval [of k "fst kd" "fst (snd kd)" "fst cv"]
    by (cases "myconfig_get_intval (fst kd) (fst (snd kd)) (fst cv)") (simp add: read_value_def Let_def split_beta)
  have "myconfig_get_value k (fst (foldl read_value cv xs)) = myconfig_get_value k (fst cv)" for cv xs
    by (induction xs arbitrary: cv) (simp_all add: one)
  then show ?thesis by (simp add: reload_config_def)
qed

end
