(* ===== verification/Agent.thy ===== *)
theory Agent
  imports Maintain
begin

text \<open>
  The agent of a machine (\<open>src/network/vfs_agent.c\<close>): a thread that tells the VOSS master which tasks
  have ended, and obeys the master's commands.  It keeps what it could not send in files.  A
  buffer is \<open>None\<close> when it could not grow, which ends the program.
\<close>

record agent_state = maint_state +
  ag_data :: "mybuff option"
  ag_send :: "mybuff option"
  ag_recv :: "mybuff option"
  ag_seq :: u32
  ag_files :: "(string \<times> int) list"
  ag_index :: int
  ag_src :: "int \<Rightarrow> nat option"
  ag_fd_closed :: "int list"
  ag_wire :: "byte list"
  ag_stop :: bool

text \<open>
  \<open>aw_qsort\<close> is the C library's sort with \<open>sortmtime\<close>, \<open>aw_write\<close> how much a \<open>write\<close> to a file takes,
  \<open>aw_readdir\<close> the entries of the directory, \<open>aw_size\<close> and \<open>aw_mtime\<close> come from \<open>stat\<close>.
\<close>

record aworld =
  aw_m :: mworld
  aw_alloc :: allocator
  aw_ibs :: nat
  aw_kernel :: kernel
  aw_strtime :: string
  aw_newfd :: nat
  aw_write :: "nat \<Rightarrow> nat option"
  aw_readdir :: "string list option"
  aw_qsort :: "(string \<times> int) list \<Rightarrow> (string \<times> int) list"
  aw_connect :: "string \<Rightarrow> int"
  aw_tmpdir :: string
  aw_heartbeat :: int
  aw_behind :: "byte list"

abbreviation aw_env :: "aworld \<Rightarrow> env" where
  "aw_env w \<equiv> mw_env (aw_m w)"

abbreviation aw_role :: "aworld \<Rightarrow> role" where
  "aw_role w \<equiv> ii_role (mw_self (aw_m w))"

definition MAXTMPFILE :: nat where "MAXTMPFILE = 10240"
definition AG_PREFIX :: string where "AG_PREFIX = ''voss_''"
definition AG_SUFFIX :: string where "AG_SUFFIX = ''.data''"
definition FILE_DATA :: int where "FILE_DATA = 0x02"
definition SOCK_CLOSE :: int where "SOCK_CLOSE = 0x10"
definition SOCK_SEND :: int where "SOCK_SEND = 0x20"
definition SOCK_SEND_FILE :: int where "SOCK_SEND_FILE = 0x40"
definition SOCK_COMP :: int where "SOCK_COMP = 0x80"

lemmas sock_defs = SOCK_CLOSE_def SOCK_SEND_def SOCK_SEND_FILE_def SOCK_COMP_def

definition b_put :: "aworld \<Rightarrow> byte list \<Rightarrow> mybuff option \<Rightarrow> mybuff option" where
  "b_put w bs b = Option.bind b (mybuff_setdata (aw_alloc w) (aw_ibs w) bs)"

definition b_get :: "mybuff option \<Rightarrow> byte list option" where
  "b_get b = Option.bind b mybuff_getdata"

definition b_skip :: "nat \<Rightarrow> mybuff option \<Rightarrow> mybuff option" where
  "b_skip n b = map_option (mybuff_skipdata n) b"

definition put_send :: "aworld \<Rightarrow> byte list \<Rightarrow> agent_state \<Rightarrow> agent_state" where
  "put_send w bs s = s\<lparr>ag_send := b_put w bs (ag_send s)\<rparr>"

text \<open>A header takes the next sequence number.\<close>

definition put_head :: "aworld \<Rightarrow> u32 \<Rightarrow> nat \<Rightarrow> agent_state \<Rightarrow> agent_state" where
  "put_head w cmd n s = (let (head, seq) = create_voss_head (ag_seq s) cmd n in put_send w head (s\<lparr>ag_seq := seq\<rparr>))"

text \<open>\<open>*outdata |= 1\<close>.\<close>

definition or1 :: "int \<Rightarrow> int" where
  "or1 out = out + 1 - out mod 2"

section \<open>Reports\<close>

definition task_status :: "string list" where
  "task_status = [''TASK_DELAY'', ''TASK_WAIT'', ''TASK_WAIT_SYNC'', ''TASK_WAIT_SYNC_IP'', ''TASK_WAIT_TMP'', ''TASK_Q_SYNC_DIR'',
     ''TASK_Q_SYNC_DIR_TMP'', ''TASK_RUN'', ''TASK_FIN'', ''TASK_CLEAN'', ''TASK_HOME'', ''TASK_SEND'', ''TASK_RECV'',
     ''TASK_SYNC_VOSS'', ''TASK_Q_SYNC_DIR_REQ'', ''TASK_Q_SYNC_DIR_RSP'']"

definition over_status :: "string list" where
  "over_status = [''OVER_UNKNOWN'', ''OVER_OK'', ''OVER_E_MD5'', ''OVER_PEERERR'', ''TASK_EXIST'', ''OVER_PEERCLOSE'', ''OVER_UNLINK'',
     ''OVER_TIMEOUT'', ''OVER_MALLOC'', ''OVER_SRC_DOMAIN_ERR'', ''OVER_SRC_IP_OFFLINE'', ''OVER_E_OPEN_SRCFILE'',
     ''OVER_E_OPEN_DSTFILE'', ''OVER_E_IP'', ''OVER_E_TYPE'', ''OVER_SEND_LEN'', ''OVER_TOO_MANY_TRY'', ''OVER_DISK_ERR'']"

text \<open>The fields are short enough for the buffer of 1024 characters.\<close>

definition report_line :: "t_vfs_tasklist \<Rightarrow> string" where
  "report_line k =
     (let base = ti_base (tl_task k); sub = ti_sub (tl_task k); c = '':''
      in tb_src_domain base @ c @ tb_filename base @ c @ ip2str (tb_dstip base) @ c @ [char_of (nat (tb_type base mod 256))] @ c
        @ task_status ! nat (tl_status k mod 16) @ c @ over_status ! (unat (tb_overstatus base) mod 18) @ c
        @ show_int (ts_starttime sub) @ c @ show_int (ts_endtime sub) @ c @ show_int (tb_fsize base) @ c @ show_int (tb_ctime base) @ c
        @ tb_filemd5 base @ c @ show_int (uint (ts_need_sync sub)) @ c @ show_int (tb_mtime base) @ [CHR 0x0A])"

text \<open>A task over its time is marked; the mark stays also when the task stays.\<close>

definition mark_late :: "aworld \<Rightarrow> ptr \<Rightarrow> agent_state \<Rightarrow> agent_state" where
  "mark_late w t s =
     (if e_now (aw_env w) - tb_starttime (tbase s t) > mt_vals s ''task_timeout''
      then set_base t ((tbase s t)\<lparr>tb_overstatus := OVER_TIMEOUT\<rparr>) s else s)"

definition go_home :: "aworld \<Rightarrow> ptr \<Rightarrow> agent_state \<Rightarrow> agent_state" where
  "go_home w t s =
     (let s = s\<lparr>vfstask := lf_del t (vfstask s)\<rparr>; st = tl_status (tasks s t);
          s = (case ti_user (tl_task (tasks s t)) of
                 Some slot \<Rightarrow>
                   if st \<noteq> TASK_CLEAN \<and> (aw_role w = ROLE_CS \<or> aw_role w = ROLE_TRACKER)
                   then set_task t ((tl_task (tasks s t))\<lparr>ti_user := None\<rparr>)
                          (s\<lparr>tmpst := set_tmp_blank (aw_env w) (t_pos (tmpst s) slot) (Some slot) (tmpst s)\<rparr>)
                   else s
               | None \<Rightarrow> s);
          s = s\<lparr>taskcount := (taskcount s)(st := taskcount s st - 1)\<rparr>;
          s = set_task t zero_task s
      in snd (vfs_set_task (aw_env w) t TASK_HOME s))"

definition get_data_from_task :: "aworld \<Rightarrow> ptr \<Rightarrow> agent_state \<Rightarrow> agent_state" where
  "get_data_from_task w t s =
     (let s = mark_late w t s; clean = (tl_status (tasks s t) = TASK_CLEAN);
          s = (if clean then s\<lparr>ag_data := b_put w (str_bytes (report_line (tasks s t))) (ag_data s)\<rparr> else s)
      in if clean \<or> tb_overstatus (tbase s t) = OVER_TIMEOUT then go_home w t s else s)"

definition do_scan :: "aworld \<Rightarrow> bool \<Rightarrow> int \<Rightarrow> agent_state \<Rightarrow> int \<times> agent_state" where
  "do_scan w type out s =
     (let s = snd (scan_some_status_task (aw_env w) TASK_CLEAN (get_data_from_task w) s);
          s = (if aw_role w = ROLE_CS then snd (scan_some_status_task (aw_env w) TASK_SYNC_VOSS (get_data_from_task w) s) else s)
      in case b_get (ag_data s) of None \<Rightarrow> (out, s)
      | Some data \<Rightarrow>
        let s = (if type then put_head w REQ_SUBMIT (length data) s else s); s = put_send w data s
        in (or1 out, s\<lparr>ag_data := b_skip (length data) (ag_data s)\<rparr>))"

section \<open>Files\<close>

abbreviation ag_fs :: "'a maint_state_scheme \<Rightarrow> filesys" where
  "ag_fs s \<equiv> lo_fs (mt_local s)"

definition set_fs :: "filesys \<Rightarrow> 'a maint_state_scheme \<Rightarrow> 'a maint_state_scheme" where
  "set_fs fs s = s\<lparr>mt_local := (mt_local s)\<lparr>lo_fs := fs\<rparr>\<rparr>"

text \<open>With no master to be reached the reports go to the file of the hour.\<close>

definition dump_to_file :: "aworld \<Rightarrow> agent_state \<Rightarrow> agent_state" where
  "dump_to_file w s =
     (let name = take 255 (aw_tmpdir w @ ''/'' @ AG_PREFIX @ take 10 (aw_strtime w) @ AG_SUFFIX) in
      case sys_creat (aw_kernel w) (e_now (aw_env w)) 0x1A4 (path_of name) (ag_fs s) of
        (None, fs) \<Rightarrow> set_fs fs s
      | (Some i, fs) \<Rightarrow>
        (case b_get (ag_send s) of None \<Rightarrow> set_fs fs s
         | Some data \<Rightarrow>
           (case aw_write w (length data) of None \<Rightarrow> (set_fs fs s)\<lparr>ag_send := b_skip (2 ^ 64 - 1) (ag_send s)\<rparr>
            | Some n \<Rightarrow>
              (set_fs (set_inode i (\<lambda>f. f\<lparr>in_data := in_data f @ take n data\<rparr>) fs) s)
                \<lparr>ag_send := if n > 0 then b_skip n (ag_send s) else ag_send s\<rparr>)))"

definition get_most_old_file :: "aworld \<Rightarrow> int \<Rightarrow> agent_state \<Rightarrow> int \<times> agent_state" where
  "get_most_old_file w out s =
     (case Option.bind (ag_send s) mybuff_getfile of
        Some x \<Rightarrow> (FILE_DATA, s)
      | None \<Rightarrow>
        if ag_index s < 0 then (out, s)
        else let name = fst (ag_files s ! nat (ag_index s)) in
        case (if name = [] then None else sys_open (aw_kernel w) (path_of name) (ag_fs s)) of
          None \<Rightarrow> (out, s)
        | Some i \<Rightarrow>
          let n = length (in_data (fs_inode (ag_fs s) i)); fd = int (aw_newfd w);
              s = put_head w REQ_SUBMIT n s
          in (FILE_DATA, s\<lparr>ag_send := map_option (\<lambda>m. fst (mybuff_setfile fd 0 n m)) (ag_send s),
                           ag_src := (ag_src s)(fd := Some i)\<rparr>))"

definition rm_last_send_file :: "aworld \<Rightarrow> agent_state \<Rightarrow> agent_state" where
  "rm_last_send_file w s =
     (if ag_index s < 0 then s
      else set_fs (snd (sys_unlink (aw_kernel w) (path_of (fst (ag_files s ! nat (ag_index s)))) (ag_fs s)))
             (s\<lparr>ag_index := ag_index s - 1\<rparr>))"

text \<open>One entry of the directory; once the table is full the scan is over.\<close>

definition scan_entry :: "aworld \<Rightarrow> filesys \<times> (string \<times> int) list \<Rightarrow> string \<Rightarrow> filesys \<times> (string \<times> int) list" where
  "scan_entry w a name =
     (let (fs, files) = a; f = take 255 (aw_tmpdir w @ ''/'' @ name) in
      if length files \<ge> MAXTMPFILE \<or> take 1 name = ''.'' \<or> take 5 name \<noteq> AG_PREFIX then a
      else case sys_stat (aw_kernel w) (path_of f) fs of None \<Rightarrow> a
      | Some i \<Rightarrow>
        if length (in_data (fs_inode fs i)) < 10 then (snd (sys_unlink (aw_kernel w) (path_of f) fs), files)
        else (fs, files @ [(f, in_mtime (fs_inode fs i))]))"

text \<open>
  The \<open>memset\<close> clears eight bytes: the first entry loses its time and the first four characters of its
  name, which is then empty.  When the directory cannot be read that entry is taken for a file.
\<close>

definition scantmpdir :: "aworld \<Rightarrow> agent_state \<Rightarrow> agent_state" where
  "scantmpdir w s =
     (case aw_readdir w of None \<Rightarrow> s\<lparr>ag_files := ([], 0) # tl (ag_files s), ag_index := 0\<rparr>
      | Some names \<Rightarrow>
        (case foldl (scan_entry w) (ag_fs s, []) names of (fs, files) \<Rightarrow>
           if files = [] then (set_fs fs s)\<lparr>ag_index := -1\<rparr>
           else (set_fs fs s)\<lparr>ag_files := aw_qsort w files, ag_index := int (length files) - 1\<rparr>))"

section \<open>The socket\<close>

text \<open>First the buffered bytes, and when they are out as much of the file as goes at once.  A \<open>send\<close> takes something.\<close>

definition ag_send_data :: "send_res list \<Rightarrow> agent_state \<Rightarrow> (int \<times> send_res list \<times> agent_state) option" where
  "ag_send_data rs s =
     (case b_get (ag_send s) of None \<Rightarrow> Some (SOCK_COMP, rs, s)
      | Some data \<Rightarrow>
        (case after_eintr rs of None \<Rightarrow> None
         | Some (SSent n, rs) \<Rightarrow>
           Some (if n < length data then SOCK_SEND else SOCK_COMP, rs,
             s\<lparr>ag_send := b_skip n (ag_send s), ag_wire := ag_wire s @ take n data\<rparr>)
         | Some (SEagain, rs) \<Rightarrow> Some (SOCK_SEND, rs, s)
         | Some (_, rs) \<Rightarrow> Some (SOCK_CLOSE, rs, s)))"

definition src_bytes :: "int \<Rightarrow> int \<Rightarrow> nat \<Rightarrow> agent_state \<Rightarrow> byte list" where
  "src_bytes fd pos n s =
     (case ag_src s fd of None \<Rightarrow> [] | Some i \<Rightarrow> take n (drop (nat pos) (in_data (fs_inode (ag_fs s) i))))"

definition ag_send_file :: "aworld \<Rightarrow> send_res list \<Rightarrow> agent_state \<Rightarrow> (int \<times> agent_state) option" where
  "ag_send_file w rs s =
     (case Option.bind (ag_send s) mybuff_getfile of None \<Rightarrow> Some (SOCK_COMP, s)
      | Some (fd, start, len) \<Rightarrow>
        (case after_eintr rs of None \<Rightarrow> None
         | Some (SSent n, rs) \<Rightarrow>
           let s = s\<lparr>ag_send := map_option (\<lambda>m. fst (mybuff_skipfile n m)) (ag_send s), ag_wire := ag_wire s @ src_bytes fd start n s\<rparr>
           in Some (if n < len then (SOCK_SEND_FILE, s) else (SOCK_COMP, rm_last_send_file w s))
         | Some (SEagain, rs) \<Rightarrow> Some (SOCK_SEND_FILE, s)
         | Some (_, rs) \<Rightarrow> Some (SOCK_CLOSE, s)))"

definition ag_do_send :: "aworld \<Rightarrow> send_res list \<Rightarrow> agent_state \<Rightarrow> (int \<times> agent_state) option" where
  "ag_do_send w rs s =
     (case ag_send_data rs s of None \<Rightarrow> None
      | Some (ret, rs, s) \<Rightarrow> if ret = SOCK_COMP then ag_send_file w rs s else Some (ret, s))"

definition AG_IOBUF :: nat where "AG_IOBUF = 2048"

fun ag_do_recv :: "aworld \<Rightarrow> recv_res list \<Rightarrow> agent_state \<Rightarrow> (int \<times> agent_state) option" where
  "ag_do_recv w [] s = None"
| "ag_do_recv w (RData d # rs) s =
     (let s = s\<lparr>ag_recv := b_put w d (ag_recv s)\<rparr>
      in if length d = AG_IOBUF then ag_do_recv w rs s else Some (SOCK_COMP, s))"
| "ag_do_recv w (REof # rs) s = Some (SOCK_CLOSE, s)"
| "ag_do_recv w (REintr # rs) s = ag_do_recv w rs s"
| "ag_do_recv w (REagain # rs) s = Some (SOCK_COMP, s)"
| "ag_do_recv w (RErr # rs) s = Some (SOCK_CLOSE, s)"

section \<open>Messages\<close>

definition do_hb :: "aworld \<Rightarrow> int \<Rightarrow> agent_state \<Rightarrow> int \<times> agent_state" where
  "do_hb w out s =
     (let (head, seq) = create_voss_head (ag_seq s) REQ_HEARTBEAT 1
      in (or1 out, put_send w (head @ [stat_byte (self_stat (mt_cfg s))]) (s\<lparr>ag_seq := seq\<rparr>)))"

definition do_login :: "aworld \<Rightarrow> int \<Rightarrow> agent_state \<Rightarrow> int \<times> agent_state" where
  "do_login w out s =
     (let sip = str_bytes (self_sip (mt_cfg s)); ((bs, n), seq) = create_msg (ag_seq s) REQ_AUTH sip (length sip)
      in (or1 out, put_send w bs (s\<lparr>ag_seq := seq\<rparr>)))"

text \<open>Only commands are obeyed; the other requests have empty functions.\<close>

definition set_from_voss :: "aworld \<Rightarrow> t_head_info \<Rightarrow> byte list \<Rightarrow> agent_state \<Rightarrow> agent_state" where
  "set_from_voss w h data s =
     (if v_cmdid h \<noteq> REQ_VFS_CMD then s
      else
        let text = bytes_str (take (unat (v_totallen h) - HEADSIZE) (drop HEADSIZE data));
            raw = cstr (bytes_str (drop HEADSIZE data @ aw_behind w));
            (a, m) = do_request (aw_m w) text raw (maint_state.truncate s);
            s = maint_state.extend (maint_state.truncate m) (agent_state.fields (ag_data s) (ag_send s) (ag_recv s) (ag_seq s) (ag_files s)
                  (ag_index s) (ag_src s) (ag_fd_closed s) (ag_wire s) (ag_stop s))
        in case a of None \<Rightarrow> s | Some bs \<Rightarrow> put_send w bs (put_head w RSP_VFS_CMD (length bs) s))"

definition ag_check_req :: "aworld \<Rightarrow> int \<Rightarrow> agent_state \<Rightarrow> int \<times> int \<times> agent_state" where
  "ag_check_req w out s =
     (case b_get (ag_recv s) of None \<Rightarrow> (-1, out, s)
      | Some data \<Rightarrow>
        let (ret, h) = parse_msg data zero_head in
        if ret = E_NOT_SUFFIC \<or> length data < unat (v_totallen h) then (-1, out, s)
        else if v_cmdid h = REQ_STOPVFS then (-1, out, s\<lparr>ag_stop := True\<rparr>)
        else
          let s = set_from_voss w h data s
          in (0, if out < 1 then 1 else out, s\<lparr>ag_recv := b_skip (unat (v_totallen h)) (ag_recv s)\<rparr>))"

partial_function (option) ag_req_loop :: "aworld \<Rightarrow> int \<Rightarrow> agent_state \<Rightarrow> (int \<times> agent_state) option" where
  "ag_req_loop w out s =
     (case ag_check_req w out s of (ret, out, s) \<Rightarrow> if ret = -1 then Some (out, s) else ag_req_loop w out s)"

section \<open>The thread\<close>

text \<open>The first server that can be reached; a name is resolved first.\<close>

fun try_servers :: "aworld \<Rightarrow> string list \<Rightarrow> int" where
  "try_servers w [] = -1"
| "try_servers w (ip # ips) =
     (case (if str2ip ip = INADDR_NONE then f_dns (mw_out (aw_m w)) ip else Some ip) of
        None \<Rightarrow> try_servers w ips
      | Some addr \<Rightarrow> if aw_connect w addr < 0 then try_servers w ips else aw_connect w addr)"

definition reinit_buffers :: "aworld \<Rightarrow> agent_state \<Rightarrow> agent_state" where
  "reinit_buffers w s =
     s\<lparr>ag_send := map_option (\<lambda>m. fst (mybuff_reinit (aw_alloc w) (aw_ibs w) m)) (ag_send s),
       ag_recv := map_option (\<lambda>m. fst (mybuff_reinit (aw_alloc w) (aw_ibs w) m)) (ag_recv s)\<rparr>"

text \<open>The beginning of \<open>do_run\<close>: \<open>None\<close> when there is no connection, with the reports put away.\<close>

definition ag_start :: "aworld \<Rightarrow> agent_state \<Rightarrow> int option \<times> agent_state" where
  "ag_start w s =
     (let fd = try_servers w (conf (mw_out (aw_m w)) ''voss_server_ip''); s = reinit_buffers w s in
      if fd < 0 then
        let (out, s) = do_scan w False 0 s in (None, if out \<noteq> 0 then dump_to_file w s else s)
      else
        let (out, s) = do_login w 0 s in (Some out, scantmpdir w s))"

text \<open>
  One round of its loop: what the clock, \<open>select\<close> and the socket give; \<open>rd_sel\<close> is -1 for an error
  and 0 when the time is over.
\<close>

record around =
  rd_now :: int
  rd_sel :: int
  rd_w :: bool
  rd_r :: bool
  rd_send :: "send_res list"
  rd_recv :: "recv_res list"

record ag_loop =
  lp_now :: int
  lp_last :: int
  lp_out :: int

definition ag_prepare :: "aworld \<Rightarrow> ag_loop \<Rightarrow> agent_state \<Rightarrow> ag_loop \<times> agent_state" where
  "ag_prepare w l s =
     (let (out, s) = get_most_old_file w (lp_out l) s in
      if out = FILE_DATA then (l\<lparr>lp_out := out\<rparr>, s)
      else
        let (out, s) = do_scan w True out s
        in if lp_now l - lp_last l > aw_heartbeat w then
             let (out, s) = do_hb w out s in (l\<lparr>lp_out := out, lp_last := lp_now l\<rparr>, s)
           else (l\<lparr>lp_out := out\<rparr>, s))"

definition ag_writable :: "aworld \<Rightarrow> around \<Rightarrow> agent_state \<Rightarrow> (int \<times> int \<times> agent_state) option" where
  "ag_writable w r s =
     (if \<not> rd_w r then Some (SOCK_COMP, 0, s)
      else case ag_do_send w (rd_send r) s of None \<Rightarrow> None
      | Some (ret, s) \<Rightarrow> Some (ret, if ret = SOCK_SEND then 1 else if ret = SOCK_SEND_FILE then 2 else 0, s))"

definition ag_readable :: "aworld \<Rightarrow> around \<Rightarrow> int \<Rightarrow> agent_state \<Rightarrow> (int \<times> int \<times> agent_state) option" where
  "ag_readable w r out s =
     (if \<not> rd_r r then Some (SOCK_COMP, out, s)
      else case ag_do_recv w (rd_recv r) s of None \<Rightarrow> None
      | Some (ret, s) \<Rightarrow>
        if ret = SOCK_CLOSE then Some (ret, out, s)
        else case ag_req_loop w out s of None \<Rightarrow> None | Some (out, s) \<Rightarrow> Some (ret, out, s))"

text \<open>The flag says whether the loop goes on.\<close>

definition ag_round :: "aworld \<Rightarrow> around \<Rightarrow> ag_loop \<Rightarrow> agent_state \<Rightarrow> (bool \<times> ag_loop \<times> agent_state) option" where
  "ag_round w r l s =
     (let (l, s) = ag_prepare w l s; l = l\<lparr>lp_now := rd_now r\<rparr> in
      if rd_sel r = -1 then Some (False, l, s)
      else if rd_sel r = 0 then Some (True, l, s)
      else case ag_writable w r s of None \<Rightarrow> None
      | Some (ret, out, s) \<Rightarrow>
        if ret = SOCK_CLOSE then Some (False, l\<lparr>lp_out := out\<rparr>, s)
        else case ag_readable w r out s of None \<Rightarrow> None
        | Some (ret, out, s) \<Rightarrow> Some (ret \<noteq> SOCK_CLOSE, l\<lparr>lp_out := out\<rparr>, s))"

fun ag_rounds :: "aworld \<Rightarrow> around list \<Rightarrow> ag_loop \<Rightarrow> agent_state \<Rightarrow> (bool \<times> ag_loop \<times> agent_state) option" where
  "ag_rounds w [] l s = Some (True, l, s)"
| "ag_rounds w (r # rs) l s =
     (if ag_stop s then Some (False, l, s)
      else case ag_round w r l s of None \<Rightarrow> None
      | Some (go, l, s) \<Rightarrow> if go then ag_rounds w rs l s else Some (False, l, s))"

end
