(* ===== verification/AgentFacts.thy ===== *)
theory AgentFacts
  imports Agent VossFacts MaintFacts
begin

text \<open>
  What the agent does with the tasks that have ended: each is reported once, in order, and is free
  again; the reports are one submission to the VOSS master.
\<close>

section \<open>Buffers\<close>

definition buffer_of :: "byte list \<Rightarrow> mybuff option \<Rightarrow> bool" where
  "buffer_of bs b \<longleftrightarrow> (case b of None \<Rightarrow> False | Some m \<Rightarrow> buff_wf m \<and> buff_bytes m = bs)"

definition roomy :: "aworld \<Rightarrow> bool" where
  "roomy w \<longleftrightarrow> alloc_ok (aw_alloc w) \<and> 0 < aw_ibs w"

lemma buffer_put: "roomy w \<Longrightarrow> buffer_of bs b \<Longrightarrow> buffer_of (bs @ cs) (b_put w cs b)"
proof -
  assume r: "roomy w" and b: "buffer_of bs b"
  then obtain m where m: "b = Some m" "buff_wf m" "buff_bytes m = bs" by (auto simp: buffer_of_def split: option.splits)
  obtain m' where "mybuff_setdata (aw_alloc w) (aw_ibs w) cs m = Some m'" "buff_wf m'" "buff_bytes m' = buff_bytes m @ cs"
    using setdata_cases [of "aw_alloc w" "aw_ibs w" m cs] r m(2) by (auto simp: roomy_def)
  then show ?thesis by (simp add: b_put_def buffer_of_def m)
qed

lemma buffer_get: "buffer_of bs b \<Longrightarrow> b_get b = (if bs = [] then None else Some bs)"
  by (auto simp: buffer_of_def b_get_def getdata_bytes split: option.splits)

lemma buffer_skip: "buffer_of bs b \<Longrightarrow> buffer_of (drop n bs) (b_skip n b)"
  by (auto simp: buffer_of_def b_skip_def skipdata_wf split: option.splits)

section \<open>Reports\<close>

text \<open>The record as it is reported: a task over its time is reported as such.\<close>

definition late :: "aworld \<Rightarrow> agent_state \<Rightarrow> ptr \<Rightarrow> bool" where
  "late w s t \<longleftrightarrow> e_now (aw_env w) - tb_starttime (tbase s t) > mt_vals s ''task_timeout''"

definition reported :: "aworld \<Rightarrow> agent_state \<Rightarrow> ptr \<Rightarrow> string" where
  "reported w s t = report_line (tasks (mark_late w t s) t)"

lemma mark_late_other [simp]:
  "vfstask (mark_late w t s) = vfstask s" "ag_data (mark_late w t s) = ag_data s" "ag_send (mark_late w t s) = ag_send s"
  "ag_seq (mark_late w t s) = ag_seq s" "mt_vals (mark_late w t s) = mt_vals s"
  "tl_status (tasks (mark_late w t s) u) = tl_status (tasks s u)"
  "u \<noteq> t \<Longrightarrow> tasks (mark_late w t s) u = tasks s u" "taskcount (mark_late w t s) = taskcount s"
  by (auto simp: mark_late_def set_base_def set_task_def)

lemma clean_valid [simp]: "valid_status TASK_CLEAN" "TASK_CLEAN \<noteq> TASK_HOME" "TASK_CLEAN \<noteq> TASK_SYNC_VOSS"
  by (simp_all add: valid_status_def queue_defs)

lemma go_home_clean:
  assumes u: "unlocked (aw_env w)" and q: "queues_ok s" and c: "tl_status (tasks s t) = TASK_CLEAN"
  shows "queues_ok (go_home w t s)" and "vfstask (go_home w t s) = lf_add_tail t TASK_HOME (lf_del t (vfstask s))"
    and "tasks (go_home w t s) v = (if v = t then (tasks s t)\<lparr>tl_task := zero_task, tl_status := TASK_HOME\<rparr> else tasks s v)"
    and "ag_data (go_home w t s) = ag_data s" "ag_send (go_home w t s) = ag_send s" "ag_seq (go_home w t s) = ag_seq s"
      "mt_vals (go_home w t s) = mt_vals s"
proof -
  let ?s = "set_task t zero_task (s\<lparr>vfstask := lf_del t (vfstask s), taskcount := (taskcount s)(TASK_CLEAN := taskcount s TASK_CLEAN - 1)\<rparr>)"
  have g: "go_home w t s = snd (vfs_set_task (aw_env w) t TASK_HOME ?s)"
    using c by (simp add: go_home_def Let_def split: option.split)
  have l: "\<not> lock_failed (aw_env w) (M_task p)" for p using u by (simp add: unlocked_def)
  have "queues_ok (s\<lparr>vfstask := lf_del t (vfstask s)\<rparr>)" using q by (rule queues_del)
  then have "queues_ok ?s" by (auto simp: queues_ok_def set_task_def)
  then show "queues_ok (go_home w t s)" by (simp add: g queues_set_task)
  show "vfstask (go_home w t s) = lf_add_tail t TASK_HOME (lf_del t (vfstask s))"
    using l by (simp add: g set_task_effect set_task_def fun_eq_iff)
  show "tasks (go_home w t s) v = (if v = t then (tasks s t)\<lparr>tl_task := zero_task, tl_status := TASK_HOME\<rparr> else tasks s v)"
    using l by (simp add: g set_task_effect set_task_def)
  show "ag_data (go_home w t s) = ag_data s" "ag_send (go_home w t s) = ag_send s" "ag_seq (go_home w t s) = ag_seq s"
      "mt_vals (go_home w t s) = mt_vals s"
    by (simp_all add: g vfs_set_task_def set_status_def set_task_def)
qed

lemma queues_ok_mark: "queues_ok s \<Longrightarrow> queues_ok (mark_late w t s)"
  by (auto simp: queues_ok_def)

lemma report_one:
  assumes u: "unlocked (aw_env w)" and q: "queues_ok s" and h: "vfstask s TASK_CLEAN = t # ts"
  obtains s' where "get_data_from_task w t s = s'" and "queues_ok s'"
    and "vfstask s' = (vfstask s)(TASK_CLEAN := ts, TASK_HOME := vfstask s TASK_HOME @ [t])"
    and "\<And>v. tasks s' v = (if v = t then (tasks s t)\<lparr>tl_task := zero_task, tl_status := TASK_HOME\<rparr> else tasks s v)"
    and "ag_data s' = b_put w (str_bytes (reported w s t)) (ag_data s)" and "ag_send s' = ag_send s" and "ag_seq s' = ag_seq s"
    and "mt_vals s' = mt_vals s"
proof -
  let ?m = "mark_late w t s"
  let ?s = "?m\<lparr>ag_data := b_put w (str_bytes (report_line (tasks ?m t))) (ag_data ?m)\<rparr>"
  have st: "tl_status (tasks s t) = TASK_CLEAN" using q h by (auto simp: queues_ok_def)
  have run: "get_data_from_task w t s = go_home w t ?s" by (simp add: get_data_from_task_def Let_def st)
  have q1: "queues_ok ?s" using queues_ok_mark [OF q, of w t] by (auto simp: queues_ok_def)
  have c1: "tl_status (tasks ?s t) = TASK_CLEAN" by (simp add: st)
  note g = go_home_clean [OF u q1 c1]
  have wf: "lf_wf (vfstask s)" using q by (simp add: queues_ok_def)
  then have d: "t \<notin> set ts" and off: "\<And>p. p \<noteq> TASK_CLEAN \<Longrightarrow> t \<notin> set (vfstask s p)"
    using h by (metis distinct.simps(2) lf_wf_def, metis lf_wf_unique list.set_intros(1))
  show ?thesis
  proof (rule that [OF run])
    show "queues_ok (go_home w t ?s)" by (rule g(1))
    show "vfstask (go_home w t ?s) = (vfstask s)(TASK_CLEAN := ts, TASK_HOME := vfstask s TASK_HOME @ [t])"
      using d off by (subst g(2)) (auto simp: h fun_eq_iff removeAll_notin)
    show "tasks (go_home w t ?s) v = (if v = t then (tasks s t)\<lparr>tl_task := zero_task, tl_status := TASK_HOME\<rparr> else tasks s v)" for v
      by (subst g(3)) (auto simp: mark_late_def set_base_def set_task_def)
  qed (subst g(4-7), simp add: reported_def)+
qed

lemma reports_all:
  assumes u: "unlocked (aw_env w)" and r: "roomy w"
  shows "\<lbrakk>queues_ok s; vfstask s TASK_CLEAN = ts; buffer_of bs (ag_data s)\<rbrakk> \<Longrightarrow>
    \<exists>s'. foldl (\<lambda>s t. get_data_from_task w t s) s ts = s' \<and> queues_ok s' \<and>
      vfstask s' = (vfstask s)(TASK_CLEAN := [], TASK_HOME := vfstask s TASK_HOME @ ts) \<and>
      (\<forall>v. tasks s' v = (if v \<in> set ts then (tasks s v)\<lparr>tl_task := zero_task, tl_status := TASK_HOME\<rparr> else tasks s v)) \<and>
      buffer_of (bs @ str_bytes (concat (map (reported w s) ts))) (ag_data s') \<and> ag_send s' = ag_send s \<and> ag_seq s' = ag_seq s \<and>
      mt_vals s' = mt_vals s"
proof (induction ts arbitrary: s bs)
  case (Cons t ts)
  obtain s1 where s1: "get_data_from_task w t s = s1" "queues_ok s1"
    "vfstask s1 = (vfstask s)(TASK_CLEAN := ts, TASK_HOME := vfstask s TASK_HOME @ [t])"
    "\<And>v. tasks s1 v = (if v = t then (tasks s t)\<lparr>tl_task := zero_task, tl_status := TASK_HOME\<rparr> else tasks s v)"
    "ag_data s1 = b_put w (str_bytes (reported w s t)) (ag_data s)" "ag_send s1 = ag_send s" "ag_seq s1 = ag_seq s"
    "mt_vals s1 = mt_vals s"
    using report_one [OF u Cons.prems(1,2)] by metis
  have d: "t \<notin> set ts" using Cons.prems(1,2) by (metis distinct.simps(2) lf_wf_def queues_ok_def)
  have b: "buffer_of (bs @ str_bytes (reported w s t)) (ag_data s1)"
    using buffer_put [OF r Cons.prems(3)] s1(5) by simp
  have c: "vfstask s1 TASK_CLEAN = ts" by (simp add: s1(3))
  have same: "map (reported w s1) ts = map (reported w s) ts"
    using d s1(4,8) by (auto simp: reported_def mark_late_def set_base_def set_task_def)
  show ?case
    using Cons.IH [OF s1(2) c b] d unfolding same
    by (auto simp: s1 str_bytes_append fun_eq_iff)
qed (auto simp: fun_eq_iff str_bytes_def)

text \<open>A task that waits for its source and is in time stays as it is.\<close>

definition in_time :: "aworld \<Rightarrow> agent_state \<Rightarrow> ptr \<Rightarrow> bool" where
  "in_time w s t \<longleftrightarrow> \<not> late w s t \<and> tb_overstatus (tbase s t) \<noteq> OVER_TIMEOUT \<and> tl_status (tasks s t) \<noteq> TASK_CLEAN"

lemma in_time_stays: "in_time w s t \<Longrightarrow> get_data_from_task w t s = s"
  by (simp add: in_time_def late_def get_data_from_task_def mark_late_def Let_def)

lemma in_time_all: "\<forall>t\<in>set ts. in_time w s t \<Longrightarrow> foldl (\<lambda>s t. get_data_from_task w t s) s ts = s"
  by (induction ts) (simp_all add: in_time_stays)

lemma do_scan_reports:
  assumes u: "unlocked (aw_env w)" and r: "roomy w" and q: "queues_ok s" and ne: "vfstask s TASK_CLEAN = ts" "ts \<noteq> []"
    and b: "buffer_of [] (ag_data s)" "buffer_of bs (ag_send s)"
    and v: "aw_role w = ROLE_CS \<Longrightarrow> \<forall>t\<in>set (vfstask s TASK_SYNC_VOSS). in_time w s t"
    and data: "data = str_bytes (concat (map (reported w s) ts))"
  obtains s' where "do_scan w True out s = (or1 out, s')" and "queues_ok s'"
    and "vfstask s' = (vfstask s)(TASK_CLEAN := [], TASK_HOME := vfstask s TASK_HOME @ ts)"
    and "\<And>t. t \<in> set ts \<Longrightarrow> tl_task (tasks s' t) = zero_task" and "\<And>t. t \<notin> set ts \<Longrightarrow> tasks s' t = tasks s t"
    and "buffer_of (bs @ submit_msg (ag_seq s, data)) (ag_send s')" and "buffer_of [] (ag_data s')"
proof -
  have l: "\<not> lock_failed (aw_env w) (M_task p)" for p using u by (simp add: unlocked_def)
  obtain s1 where s1: "foldl (\<lambda>s t. get_data_from_task w t s) s ts = s1" "queues_ok s1"
    "vfstask s1 = (vfstask s)(TASK_CLEAN := [], TASK_HOME := vfstask s TASK_HOME @ ts)"
    "\<forall>v. tasks s1 v = (if v \<in> set ts then (tasks s v)\<lparr>tl_task := zero_task, tl_status := TASK_HOME\<rparr> else tasks s v)"
    "buffer_of data (ag_data s1)" "ag_send s1 = ag_send s" "ag_seq s1 = ag_seq s" "mt_vals s1 = mt_vals s"
    using reports_all [OF u r q ne(1) b(1)] by (auto simp: data)
  have scan1: "snd (scan_some_status_task (aw_env w) TASK_CLEAN (get_data_from_task w) s) = s1"
    using l s1(1) by (simp add: scan_some_status_task_def ne(1))
  have scan2: "snd (scan_some_status_task (aw_env w) TASK_SYNC_VOSS (get_data_from_task w) s1) = s1" if role: "aw_role w = ROLE_CS"
  proof -
    have off: "t \<notin> set ts" if "t \<in> set (vfstask s TASK_SYNC_VOSS)" for t
      using that q ne(1) by (metis clean_valid(3) lf_wf_unique queues_ok_def)
    have "vfstask s1 TASK_SYNC_VOSS = vfstask s TASK_SYNC_VOSS" by (simp add: s1(3)) (metis clean_valid(3) voss_queue(2))
    then have "\<forall>t\<in>set (vfstask s1 TASK_SYNC_VOSS). in_time w s1 t"
      using v [OF role] off s1(4,8) by (simp add: in_time_def late_def)
    then show ?thesis using l in_time_all by (simp add: scan_some_status_task_def)
  qed
  let ?s = "put_send w data (put_head w REQ_SUBMIT (length data) s1)"
  have nd: "data \<noteq> []"
    using ne(2) by (cases ts) (auto simp: data str_bytes_def reported_def report_line_def Let_def)
  have "do_scan w True out s = (or1 out, ?s\<lparr>ag_data := b_skip (length data) (ag_data ?s)\<rparr>)"
    using scan1 scan2 nd by (simp add: do_scan_def Let_def buffer_get [OF s1(5)])
  moreover have "buffer_of (bs @ submit_msg (ag_seq s, data)) (ag_send ?s)"
    using buffer_put [OF r buffer_put [OF r b(2)], of "fst (create_voss_head (ag_seq s) REQ_SUBMIT (length data))" data]
    by (cases "create_voss_head (ag_seq s) REQ_SUBMIT (length data)") (simp add: submit_msg_def put_send_def put_head_def s1(6,7))
  moreover have "buffer_of [] (b_skip (length data) (ag_data ?s))"
    using buffer_skip [OF s1(5), of "length data"] by (simp add: put_send_def put_head_def split: prod.split)
  ultimately show ?thesis
    using s1(2-4) by (intro that [of "?s\<lparr>ag_data := b_skip (length data) (ag_data ?s)\<rparr>"])
      (auto simp: put_send_def put_head_def queues_ok_def split: prod.split)
qed

lemma scan_reports:
  assumes "unlocked (aw_env w)" and "roomy w" and "queues_ok s" and "vfstask s TASK_CLEAN = ts" and "ts \<noteq> []"
    and "buffer_of [] (ag_data s)" and "buffer_of bs (ag_send s)"
    and "aw_role w = ROLE_CS \<longrightarrow> (\<forall>t\<in>set (vfstask s TASK_SYNC_VOSS). in_time w s t)"
  shows "\<exists>s'. do_scan w True out s = (or1 out, s') \<and> queues_ok s' \<and>
    vfstask s' = (vfstask s)(TASK_CLEAN := [], TASK_HOME := vfstask s TASK_HOME @ ts) \<and>
    (\<forall>t. if t \<in> set ts then tl_task (tasks s' t) = zero_task else tasks s' t = tasks s t) \<and>
    buffer_of (bs @ submit_msg (ag_seq s, str_bytes (concat (map (reported w s) ts)))) (ag_send s') \<and> buffer_of [] (ag_data s')"
proof -
  have v: "aw_role w = ROLE_CS \<Longrightarrow> \<forall>t\<in>set (vfstask s TASK_SYNC_VOSS). in_time w s t" using assms(8) by blast
  show ?thesis by (rule do_scan_reports [OF assms(1-7) v refl, of out]) (auto intro!: exI)
qed

section \<open>Answers and files\<close>

text \<open>
  Bytes that are put into the buffer while a file is being sent leave before the rest of the file:
  the answer to a command ends up inside the submission.
\<close>

lemma answer_splits_file:
  assumes "buffer_of bs (ag_send s)" and "bs \<noteq> []" and "Option.bind (ag_send s) mybuff_getfile = Some (fd, start, len)"
    and "ag_do_send w [SSent (length bs), SSent n] s = Some (ret, s')"
  shows "ag_wire s' = ag_wire s @ bs @ src_bytes fd start n s"
proof -
  obtain m where m: "ag_send s = Some m" using assms(1) by (cases "ag_send s") (simp_all add: buffer_of_def)
  have "mybuff_getfile (mybuff_skipdata k m) = mybuff_getfile m" for k
    by (auto simp: mybuff_getfile_def mybuff_skipdata_def split: option.split)
  then show ?thesis
    using assms(3,4) buffer_get [OF assms(1)] assms(2)
    by (auto simp: ag_do_send_def ag_send_data_def ag_send_file_def sock_defs m b_skip_def Let_def rm_last_send_file_def
        set_fs_def src_bytes_def split: if_splits option.splits)
qed

end
