(* ===== verification/AgentSamples.thy ===== *)
theory AgentSamples
  imports AgentFacts VossSamples DataSamples
begin

text \<open>A storage machine with two tasks in the pool, and one with a task that has ended.\<close>

definition sample_mw :: mworld where
  "sample_mw = \<lparr>mw_env = calm, mw_out = sample_out, mw_lw = sample_lw, mw_self = zero_ipinfo\<lparr>ii_role := ROLE_CS\<rparr>, mw_start = 0,
     mw_compiled = ([], []), mw_banner = [], mw_mktime = (\<lambda>_. 0), mw_localtime = (\<lambda>_. ''20120101000000''), mw_err = [],
     mw_junk = (\<lambda>_. []), mw_list = True, mw_put = True, mw_behind = []\<rparr>"

definition sample_conf :: config_state where
  "sample_conf = \<lparr>mcs = (\<lambda>_. \<lparr>mc_key = [], mc_val = [], mc_hash = 0, mc_int = -1\<rparr>), myhash = (\<lambda>_. []), prelist = [],
     mc_next = 0, mc_inited = False, reload_keys = []\<rparr>"

definition sample_agent :: agent_state where
  "sample_agent = \<lparr>tasks = (\<lambda>t. zero_tasklist\<lparr>tl_status := if t = 9 then TASK_CLEAN else TASK_HOME\<rparr>),
     vfstask = (\<lambda>q. if q = TASK_HOME then [5, 6] else if q = TASK_CLEAN then [9] else []), alltask = (\<lambda>_. []), userl = (\<lambda>_. []),
     taskcount = (\<lambda>_. 0), tmpst = sample_tmp, mt_cfg = sample_cfg, mt_conf = sample_conf,
     mt_vals = (\<lambda>_. 86400), mt_dump = None, mt_fcs = \<lparr>sf_cell = (\<lambda>_. 0), sf_cells = 0\<rparr>, mt_cs = \<lparr>sf_cell = (\<lambda>_. 0), sf_cells = 0\<rparr>,
     mt_local = sample_ls, ag_data = Some mybuff_init, ag_send = Some mybuff_init, ag_recv = Some mybuff_init, ag_seq = 1,
     ag_files = [], ag_index = -1, ag_src = (\<lambda>_. None), ag_fd_closed = [], ag_wire = [], ag_stop = False\<rparr>"

definition sample_maint :: maint_state where
  "sample_maint = maint_state.truncate sample_agent"

definition sample_aw :: aworld where
  "sample_aw = \<lparr>aw_m = sample_mw, aw_alloc = zero_alloc, aw_ibs = 64, aw_kernel = lw_kernel sample_lw, aw_strtime = ''2012010100'',
     aw_newfd = 9, aw_write = Some, aw_readdir = None, aw_qsort = (\<lambda>x. x), aw_connect = (\<lambda>_. 3), aw_tmpdir = ''/t'',
     aw_heartbeat = 30, aw_behind = []\<rparr>"

lemma sample_queues: "queues_ok sample_agent" "queues_ok sample_maint"
  by (auto simp: queues_ok_def sample_maint_def maint_state.truncate_def sample_agent_def lf_wf_def valid_status_def queue_defs split: if_splits)

lemma sample_unlocked: "unlocked (mw_env sample_mw)" "unlocked (aw_env sample_aw)"
  by (simp_all add: sample_mw_def sample_aw_def)

lemma sample_roomy: "roomy sample_aw"
  by (simp add: roomy_def sample_aw_def)

lemma sample_buffers: "buffer_of [] (ag_data sample_agent)" "buffer_of [] (ag_send sample_agent)"
  by (simp_all add: buffer_of_def sample_agent_def)

lemma sample_conf_ok: "config_ok sample_conf"
  by (simp add: config_ok_def sample_conf_def)

end
