(* ===== verification/EventLoop.thy ===== *)
theory EventLoop
  imports Conn IPAddr
begin

text \<open>
  The event loop of a signalling thread (\<open>src/network/vfs_so.c\<close>, with \<open>lib/myepoll.c\<close>): accepting,
  closing and serving connections for the plugin it has loaded, whose functions (\<open>solib.h\<close>) work on the
  state of the loop.  The kernel's side is the set of open descriptors, the connections \<open>epoll\<close>
  watches, the bytes behind a descriptor that is open for a file, and what went out on a connection.
\<close>

record 's evloop =
  el_conn :: "int \<Rightarrow> conn"
  el_peerip :: "int \<Rightarrow> string"
  el_epoll :: "int \<Rightarrow> int option"
  el_open :: "int set"
  el_file :: "int \<Rightarrow> byte list"
  el_wire :: "int \<Rightarrow> byte list"
  el_last :: int
  el_user :: 's

record 's mylib =
  so_initconn :: "int \<Rightarrow> 's evloop \<Rightarrow> int \<times> 's evloop"
  so_recv :: "int \<Rightarrow> 's evloop \<Rightarrow> (int \<times> 's evloop) option"
  so_send :: "int \<Rightarrow> 's evloop \<Rightarrow> int \<times> 's evloop"
  so_send_once :: "(int \<Rightarrow> 's evloop \<Rightarrow> 's evloop) option"
  so_finiconn :: "(int \<Rightarrow> 's evloop \<Rightarrow> 's evloop) option"
  so_timeout :: "('s evloop \<Rightarrow> 's evloop) option"

text \<open>\<open>ew_newfd\<close> is the descriptor the kernel gives when the ones of the set are open.\<close>

record eworld =
  ew_alloc :: allocator
  ew_ibs :: nat
  ew_maxfds :: int
  ew_newfd :: "int set \<Rightarrow> int"
  ew_peerip :: "int \<Rightarrow> u32"
  ew_cktimeout :: int

definition EPOLLIN :: int where "EPOLLIN = 1"
definition EPOLLOUT :: int where "EPOLLOUT = 4"

definition has_in :: "int \<Rightarrow> bool" where "has_in ev \<longleftrightarrow> ev mod 2 = 1"
definition has_out :: "int \<Rightarrow> bool" where "has_out ev \<longleftrightarrow> ev div 4 mod 2 = 1"

section \<open>The kernel\<close>

definition open_fd :: "int \<Rightarrow> byte list \<Rightarrow> 's evloop \<Rightarrow> 's evloop" where
  "open_fd fd bs l = l\<lparr>el_open := insert fd (el_open l), el_file := (el_file l)(fd := bs)\<rparr>"

definition close_fds :: "int list \<Rightarrow> 's evloop \<Rightarrow> 's evloop" where
  "close_fds fds l = l\<lparr>el_open := el_open l - set fds\<rparr>"

text \<open>
  The bits \<open>EPOLLERR\<close> and \<open>EPOLLET\<close>, which are always set, are left out.  \<open>epoll_ctl\<close> refuses to add what
  is there and to change what is not; nobody looks at its result.
\<close>

definition epoll_add :: "int \<Rightarrow> int \<Rightarrow> 's evloop \<Rightarrow> 's evloop" where
  "epoll_add fd events l = (if el_epoll l fd = None then l\<lparr>el_epoll := (el_epoll l)(fd \<mapsto> events)\<rparr> else l)"

definition epoll_mod :: "int \<Rightarrow> int \<Rightarrow> 's evloop \<Rightarrow> 's evloop" where
  "epoll_mod fd events l = (if el_epoll l fd = None then l else l\<lparr>el_epoll := (el_epoll l)(fd \<mapsto> events)\<rparr>)"

definition epoll_del :: "int \<Rightarrow> 's evloop \<Rightarrow> 's evloop" where
  "epoll_del fd l = l\<lparr>el_epoll := (el_epoll l)(fd := None)\<rparr>"

definition set_conn :: "int \<Rightarrow> conn \<Rightarrow> 's evloop \<Rightarrow> 's evloop" where
  "set_conn fd c l = l\<lparr>el_conn := (el_conn l)(fd := c)\<rparr>"

section \<open>What a plugin may call\<close>

definition add_fd_2_efd :: "eworld \<Rightarrow> int \<Rightarrow> 's evloop \<Rightarrow> 's evloop" where
  "add_fd_2_efd w fd l =
     (let c = el_conn l fd; (sb, x) = mybuff_reinit (ew_alloc w) (ew_ibs w) (c_send_buff c);
          (rb, y) = mybuff_reinit (ew_alloc w) (ew_ibs w) (c_recv_buff c);
          c = c\<lparr>c_fd := fd, c_send_len := 0, c_send_buff := sb, c_recv_buff := rb\<rparr>;
          l = close_fds (x @ y) (set_conn fd c (epoll_add fd EPOLLIN l))
      in l\<lparr>el_peerip := (el_peerip l)(fd := ip2str (ew_peerip w fd)), el_wire := (el_wire l)(fd := [])\<rparr>)"

text \<open>\<open>EPOLLIN\<close> is always asked for.\<close>

definition modify_fd_event :: "int \<Rightarrow> int \<Rightarrow> 's evloop \<Rightarrow> 's evloop" where
  "modify_fd_event fd events l = epoll_mod fd (if has_in events then events else events + EPOLLIN) l"

definition get_client_data :: "int \<Rightarrow> 's evloop \<Rightarrow> byte list option" where
  "get_client_data fd l = mybuff_getdata (c_recv_buff (el_conn l fd))"

definition consume_client_data :: "int \<Rightarrow> nat \<Rightarrow> 's evloop \<Rightarrow> 's evloop" where
  "consume_client_data fd len l =
     set_conn fd ((el_conn l fd)\<lparr>c_recv_buff := mybuff_skipdata len (c_recv_buff (el_conn l fd))\<rparr>) l"

definition set_client_data :: "eworld \<Rightarrow> int \<Rightarrow> byte list \<Rightarrow> 's evloop \<Rightarrow> 's evloop option" where
  "set_client_data w fd bs l =
     map_option (\<lambda>m. set_conn fd ((el_conn l fd)\<lparr>c_send_buff := m\<rparr>) l)
       (mybuff_setdata (ew_alloc w) (ew_ibs w) bs (c_send_buff (el_conn l fd)))"

definition set_client_fd :: "int \<Rightarrow> int \<Rightarrow> int \<Rightarrow> nat \<Rightarrow> 's evloop \<Rightarrow> 's evloop" where
  "set_client_fd fd localfd offset len l =
     (let (m, x) = mybuff_setfile localfd offset len (c_send_buff (el_conn l fd))
      in close_fds x (set_conn fd ((el_conn l fd)\<lparr>c_send_buff := m\<rparr>) l))"

definition do_close :: "'s mylib \<Rightarrow> eworld \<Rightarrow> int \<Rightarrow> 's evloop \<Rightarrow> 's evloop" where
  "do_close so w fd l =
     (if fd < 0 \<or> fd \<ge> ew_maxfds w \<or> c_fd (el_conn l fd) < 0 then l
      else
        let l = (case so_finiconn so of None \<Rightarrow> l | Some f \<Rightarrow> f fd l); l = epoll_del fd l;
            l = set_conn fd ((el_conn l fd)\<lparr>c_fd := -1\<rparr>) l
        in close_fds [fd] l)"

section \<open>Events\<close>

text \<open>\<open>n\<close> connections wait to be accepted.\<close>

fun accept_new :: "'s mylib \<Rightarrow> eworld \<Rightarrow> nat \<Rightarrow> 's evloop \<Rightarrow> 's evloop" where
  "accept_new so w 0 l = l"
| "accept_new so w (Suc n) l =
     (let fd = ew_newfd w (el_open l); l = open_fd fd [] l in
      if fd \<ge> ew_maxfds w then accept_new so w n (close_fds [fd] l)
      else let (r, l) = so_initconn so fd l in
        if r \<noteq> 0 then accept_new so w n (close_fds [fd] l)
        else accept_new so w n (add_fd_2_efd w fd l))"

text \<open>The bytes of the file ranges that \<open>sendfile64\<close> has sent.\<close>

definition range_bytes :: "'s evloop \<Rightarrow> (int \<times> int \<times> nat) list \<Rightarrow> byte list" where
  "range_bytes l rs = concat (map (\<lambda>(fd, start, k). take k (drop (nat start) (el_file l fd))) rs)"

text \<open>
  The sending part of \<open>do_send\<close>: its flag, the last \<open>n\<close>, and the state.  \<open>sendfile64\<close> sends no more than it is
  asked for.
\<close>

definition send_part :: "send_res list \<Rightarrow> int \<Rightarrow> 's evloop \<Rightarrow> (int \<times> int \<times> 's evloop) option" where
  "send_part rs fd l =
     (case send_data rs (el_conn l fd) of None \<Rightarrow> None
      | Some (ret, n, bs, c, rs) \<Rightarrow>
        (case (if ret = SEND_ADD_EPOLLIN then send_file rs n c else Some (ret, n, [], c, [])) of None \<Rightarrow> None
         | Some (ret, n, ranges, c, x) \<Rightarrow>
           let out = el_wire l fd @ bs @ take (mb_flen (c_send_buff (el_conn l fd))) (range_bytes l ranges)
           in Some (ret, n, close_fds x (set_conn fd c (l\<lparr>el_wire := (el_wire l)(fd := out)\<rparr>)))))"

definition loop_send :: "'s mylib \<Rightarrow> eworld \<Rightarrow> send_res list \<Rightarrow> int \<Rightarrow> 's evloop \<Rightarrow> 's evloop option" where
  "loop_send so w rs fd l =
     (if c_fd (el_conn l fd) < 0 then Some l
      else case send_part rs fd l of None \<Rightarrow> None
      | Some (ret, n, l) \<Rightarrow>
        if ret = SEND_CLOSE then Some (do_close so w fd l)
        else
          let l = modify_fd_event fd (if ret = SEND_ADD_EPOLLOUT then EPOLLOUT else EPOLLIN) l;
              l = (case so_send_once so of Some f \<Rightarrow> if n > 0 then f fd l else l | None \<Rightarrow> l)
          in if ret \<noteq> SEND_ADD_EPOLLIN then Some l
             else let (r, l) = so_send so fd l in Some (if r = SEND_CLOSE then do_close so w fd l else l))"

text \<open>The reading ends because nothing is left: then the interest in writing is dropped.\<close>

fun ends_again :: "nat \<Rightarrow> recv_res list \<Rightarrow> bool" where
  "ends_again ibs (RData d # rs) = (length d = ibs \<and> ends_again ibs rs)"
| "ends_again ibs (REintr # rs) = ends_again ibs rs"
| "ends_again ibs (REagain # rs) = True"
| "ends_again ibs rs = False"

definition after_recv :: "'s mylib \<Rightarrow> eworld \<Rightarrow> send_res list \<Rightarrow> int \<Rightarrow> int \<Rightarrow> 's evloop \<Rightarrow> 's evloop option" where
  "after_recv so w ss fd ret l =
     (case recv_action ret of SendNow \<Rightarrow> loop_send so w ss fd l
      | WatchIn \<Rightarrow> Some (modify_fd_event fd EPOLLIN l)
      | WatchInOut \<Rightarrow> Some (modify_fd_event fd EPOLLOUT l)
      | CloseNow \<Rightarrow> Some (do_close so w fd l)
      | NoAct \<Rightarrow> Some l)"

definition loop_recv :: "'s mylib \<Rightarrow> eworld \<Rightarrow> recv_res list \<Rightarrow> send_res list \<Rightarrow> int \<Rightarrow> 's evloop \<Rightarrow> 's evloop option" where
  "loop_recv so w rs ss fd l =
     (if c_fd (el_conn l fd) < 0 then Some l
      else case recv_in (ew_alloc w) (ew_ibs w) rs (c_recv_buff (el_conn l fd)) of None \<Rightarrow> None
      | Some (bad, m) \<Rightarrow>
        let l = set_conn fd ((el_conn l fd)\<lparr>c_recv_buff := m\<rparr>) l in
        if bad then Some (do_close so w fd l)
        else
          let l = (if ends_again (ew_ibs w) rs then modify_fd_event fd EPOLLIN l else l)
          in case so_recv so fd l of None \<Rightarrow> None
             | Some (ret, l) \<Rightarrow> after_recv so w ss fd ret l)"

text \<open>
  An event: the descriptor, what is ready, what \<open>recv\<close> will give, the results of \<open>send\<close> and \<open>sendfile\<close> when the
  plugin wants to answer at once and when the socket is writable, and how many connections wait.
\<close>

record event =
  ev_fd :: int
  ev_mask :: int
  ev_recv :: "recv_res list"
  ev_answer :: "send_res list"
  ev_send :: "send_res list"
  ev_new :: nat

definition do_process :: "'s mylib \<Rightarrow> eworld \<Rightarrow> event \<Rightarrow> 's evloop \<Rightarrow> 's evloop option" where
  "do_process so w e l =
     (let fd = ev_fd e in
      if \<not> has_in (ev_mask e) \<and> \<not> has_out (ev_mask e) then Some (do_close so w fd l)
      else Option.bind (if has_in (ev_mask e) then loop_recv so w (ev_recv e) (ev_answer e) fd l else Some l)
        (\<lambda>l. if has_out (ev_mask e) then loop_send so w (ev_send e) fd l else Some l))"

fun do_events :: "'s mylib \<Rightarrow> eworld \<Rightarrow> int option \<Rightarrow> event list \<Rightarrow> 's evloop \<Rightarrow> 's evloop option" where
  "do_events so w lfd [] l = Some l"
| "do_events so w lfd (e # es) l =
     Option.bind (if lfd = Some (ev_fd e) then Some (accept_new so w (ev_new e) l) else do_process so w e l)
       (do_events so w lfd es)"

definition loop_timeout :: "'s mylib \<Rightarrow> eworld \<Rightarrow> int \<Rightarrow> 's evloop \<Rightarrow> 's evloop" where
  "loop_timeout so w now l =
     (if now > el_last l + ew_cktimeout w
      then (case so_timeout so of None \<Rightarrow> id | Some f \<Rightarrow> f) (l\<lparr>el_last := now\<rparr>) else l)"

text \<open>One round: what \<open>epoll_wait\<close> has given, then the clock.\<close>

definition loop_round :: "'s mylib \<Rightarrow> eworld \<Rightarrow> int option \<Rightarrow> event list \<Rightarrow> int \<Rightarrow> 's evloop \<Rightarrow> 's evloop option" where
  "loop_round so w lfd es now l = map_option (loop_timeout so w now) (do_events so w lfd es l)"

text \<open>The table of connections is zeroed and its buffers are empty; \<open>os\<close> are the descriptors that are open already.\<close>

definition loop_boot :: "int set \<Rightarrow> int \<Rightarrow> 's \<Rightarrow> 's evloop" where
  "loop_boot os now u = \<lparr>el_conn = (\<lambda>_. \<lparr>c_fd = 0, c_send_buff = mybuff_init, c_recv_buff = mybuff_init, c_send_len = 0\<rparr>),
     el_peerip = (\<lambda>_. []), el_epoll = (\<lambda>_. None), el_open = os, el_file = (\<lambda>_. []), el_wire = (\<lambda>_. []), el_last = now, el_user = u\<rparr>"

text \<open>Events are only given for the listening socket and for connections that are watched.\<close>

inductive loop_reachable :: "'s mylib \<Rightarrow> eworld \<Rightarrow> int option \<Rightarrow> 's evloop \<Rightarrow> 's evloop \<Rightarrow> bool" for so w lfd l0 where
  start: "loop_reachable so w lfd l0 l0"
| round: "loop_reachable so w lfd l0 l \<Longrightarrow> \<forall>e\<in>set es. lfd = Some (ev_fd e) \<or> el_epoll l (ev_fd e) \<noteq> None \<Longrightarrow>
    loop_round so w lfd es now l = Some l' \<Longrightarrow> loop_reachable so w lfd l0 l'"

end
