(* ===== verification/LoopFacts.thy ===== *)
theory LoopFacts
  imports EventLoop
begin

text \<open>
  Descriptors: what the event loop closes is its own, for every plugin that keeps to the contract of
  the locale \<open>plugin\<close>; and what goes out on a connection is what was to be sent, in order.
\<close>

section \<open>Descriptors\<close>

definition is_conn :: "'s evloop \<Rightarrow> int \<Rightarrow> bool" where
  "is_conn l fd \<longleftrightarrow> el_epoll l fd \<noteq> None"

text \<open>The file a connection is sending, negative for none.\<close>

definition sending :: "'s evloop \<Rightarrow> int \<Rightarrow> int" where
  "sending l fd = mb_fd (c_send_buff (el_conn l fd))"

text \<open>
  \<open>os\<close> are descriptors that belong to others.  The connections and the files being sent are open,
  none of them is among \<open>os\<close>, no file is a connection, and no two connections send from one descriptor.
\<close>

definition el_ok :: "int set \<Rightarrow> eworld \<Rightarrow> 's evloop \<Rightarrow> bool" where
  "el_ok os w l \<longleftrightarrow> finite (el_open l) \<and> os \<subseteq> el_open l \<and>
     (\<forall>fd. is_conn l fd \<longrightarrow> fd \<in> el_open l - os \<and> 0 \<le> fd \<and> fd < ew_maxfds w \<and> c_fd (el_conn l fd) = fd) \<and>
     (\<forall>fd. 0 \<le> sending l fd \<longrightarrow> sending l fd \<in> el_open l - os \<and> \<not> is_conn l (sending l fd)) \<and>
     (\<forall>fd fd'. 0 \<le> sending l fd \<and> sending l fd = sending l fd' \<longrightarrow> fd = fd') \<and>
     (\<forall>fd. mb_fd (c_recv_buff (el_conn l fd)) < 0)"

text \<open>An open descriptor that is nobody's, and a connection the loop has seen.\<close>

definition loose :: "int set \<Rightarrow> 's evloop \<Rightarrow> int \<Rightarrow> bool" where
  "loose os l fd \<longleftrightarrow> fd \<in> el_open l - os \<and> 0 \<le> fd \<and> \<not> is_conn l fd \<and> (\<forall>fd'. sending l fd' \<noteq> fd)"

definition seen :: "'s evloop \<Rightarrow> int \<Rightarrow> bool" where
  "seen l fd \<longleftrightarrow> is_conn l fd \<or> c_fd (el_conn l fd) < 0"

definition el_keeps :: "int set \<Rightarrow> eworld \<Rightarrow> 's evloop \<Rightarrow> 's evloop \<Rightarrow> bool" where
  "el_keeps os w l l' \<longleftrightarrow> (el_ok os w l \<longrightarrow> el_ok os w l' \<and> (\<forall>fd. loose os l fd \<longrightarrow> loose os l' fd) \<and> (\<forall>fd. seen l fd \<longrightarrow> seen l' fd))"

definition kernel_ok :: "eworld \<Rightarrow> bool" where
  "kernel_ok w \<longleftrightarrow> (\<forall>S. finite S \<longrightarrow> 0 \<le> ew_newfd w S \<and> ew_newfd w S \<notin> S)"

lemma keeps_refl [simp]: "el_keeps os w l l"
  by (simp add: el_keeps_def)

lemma keeps_trans: "el_keeps os w l l1 \<Longrightarrow> el_keeps os w l1 l2 \<Longrightarrow> el_keeps os w l l2"
  by (simp add: el_keeps_def)

text \<open>What is the same for all this.\<close>

lemma keeps_same:
  assumes "el_open l' = el_open l" and "\<And>fd. is_conn l' fd = is_conn l fd" and "\<And>fd. sending l' fd = sending l fd"
    and "\<And>fd. c_fd (el_conn l' fd) = c_fd (el_conn l fd)" and "\<And>fd. mb_fd (c_recv_buff (el_conn l' fd)) = mb_fd (c_recv_buff (el_conn l fd))"
  shows "el_keeps os w l l'"
  unfolding el_keeps_def el_ok_def loose_def seen_def assms by blast

named_theorems el_simps

lemma open_simps [el_simps]:
  "el_open (open_fd fd bs l) = insert fd (el_open l)" "el_epoll (open_fd fd bs l) = el_epoll l" "el_conn (open_fd fd bs l) = el_conn l"
  by (simp_all add: open_fd_def)

lemma close_simps [el_simps]:
  "el_open (close_fds fds l) = el_open l - set fds" "el_epoll (close_fds fds l) = el_epoll l" "el_conn (close_fds fds l) = el_conn l"
  "el_wire (close_fds fds l) = el_wire l" "el_file (close_fds fds l) = el_file l"
  by (simp_all add: close_fds_def)

lemma set_conn_simps [el_simps]:
  "el_open (set_conn fd c l) = el_open l" "el_epoll (set_conn fd c l) = el_epoll l" "el_conn (set_conn fd c l) = (el_conn l)(fd := c)"
  "el_wire (set_conn fd c l) = el_wire l" "el_file (set_conn fd c l) = el_file l"
  by (simp_all add: set_conn_def)

lemma mod_simps [el_simps]:
  "el_open (modify_fd_event fd ev l) = el_open l" "el_conn (modify_fd_event fd ev l) = el_conn l"
  "el_wire (modify_fd_event fd ev l) = el_wire l" "el_file (modify_fd_event fd ev l) = el_file l"
  "(el_epoll (modify_fd_event fd ev l) fd' = None) = (el_epoll l fd' = None)"
  by (auto simp: modify_fd_event_def epoll_mod_def)

lemma modify_keeps: "el_keeps os w l (modify_fd_event fd ev l)"
  by (rule keeps_same) (simp_all add: el_simps is_conn_def sending_def)

text \<open>A connection's buffers change, but not its file.\<close>

lemma set_conn_keeps:
  assumes "c_fd c = c_fd (el_conn l fd)" and "mb_fd (c_send_buff c) = sending l fd"
    and "mb_fd (c_recv_buff c) = mb_fd (c_recv_buff (el_conn l fd))"
  shows "el_keeps os w l (set_conn fd c l)"
  by (rule keeps_same) (use assms in \<open>simp_all add: el_simps is_conn_def sending_def\<close>)

lemma setdata_fd: "mybuff_setdata alloc n d m = Some m' \<Longrightarrow> mb_fd m' = mb_fd m"
  by (auto simp: mybuff_setdata_def Let_def split: if_splits option.splits)

lemma skipdata_fd: "mb_fd (mybuff_skipdata n m) = mb_fd m"
  by (simp add: mybuff_skipdata_def split: option.splits)

lemma recv_in_fd: "recv_in alloc n rs m = Some (b, m') \<Longrightarrow> mb_fd m' = mb_fd m"
  by (induction alloc n rs m rule: recv_in.induct) (auto simp: setdata_fd split: option.splits if_splits)

lemma set_data_keeps: "set_client_data w fd bs l = Some l' \<Longrightarrow> el_keeps os w0 l l'"
  by (auto simp: set_client_data_def sending_def setdata_fd intro!: set_conn_keeps)

lemma consume_keeps: "el_keeps os w l (consume_client_data fd n l)"
  unfolding consume_client_data_def by (rule set_conn_keeps) (simp_all add: sending_def skipdata_fd)

text \<open>A connection that lets go of its file, or takes a descriptor nobody has.\<close>

lemma loose_not: "loose os l fd \<Longrightarrow> \<not> is_conn l fd \<and> fd \<notin> os \<and> 0 \<le> fd \<and> fd \<in> el_open l \<and> (\<forall>fd'. sending l fd' \<noteq> fd)"
  by (simp add: loose_def)

lemma el_okD:
  assumes "el_ok os w l"
  shows "finite (el_open l)" "os \<subseteq> el_open l" "mb_fd (c_recv_buff (el_conn l fd)) < 0"
    "is_conn l fd \<Longrightarrow> fd \<in> el_open l - os \<and> 0 \<le> fd \<and> fd < ew_maxfds w \<and> c_fd (el_conn l fd) = fd"
    "0 \<le> sending l fd \<Longrightarrow> sending l fd \<in> el_open l - os \<and> \<not> is_conn l (sending l fd)"
    "0 \<le> sending l fd \<Longrightarrow> sending l fd = sending l fd' \<Longrightarrow> fd = fd'"
  using assms unfolding el_ok_def by blast+

lemma el_okI:
  assumes "finite (el_open l)" "os \<subseteq> el_open l" "\<And>fd. mb_fd (c_recv_buff (el_conn l fd)) < 0"
    "\<And>fd. is_conn l fd \<Longrightarrow> fd \<in> el_open l - os \<and> 0 \<le> fd \<and> fd < ew_maxfds w \<and> c_fd (el_conn l fd) = fd"
    "\<And>fd. 0 \<le> sending l fd \<Longrightarrow> sending l fd \<in> el_open l - os \<and> \<not> is_conn l (sending l fd)"
    "\<And>fd fd'. 0 \<le> sending l fd \<Longrightarrow> sending l fd = sending l fd' \<Longrightarrow> fd = fd'"
  shows "el_ok os w l"
  using assms unfolding el_ok_def by blast

lemma keepsI:
  assumes "el_ok os w l \<Longrightarrow> el_ok os w l'" and "\<And>fd. el_ok os w l \<Longrightarrow> loose os l fd \<Longrightarrow> loose os l' fd"
    and "\<And>fd. el_ok os w l \<Longrightarrow> seen l fd \<Longrightarrow> seen l' fd"
  shows "el_keeps os w l l'"
  using assms unfolding el_keeps_def by blast

text \<open>A connection's descriptor and its file, when the slot \<open>fd\<close> gets the connection \<open>c\<close>.\<close>

lemma slot_simps:
  "is_conn (set_conn fd c l) = is_conn l" "is_conn (close_fds x l) = is_conn l" "is_conn (open_fd f bs l) = is_conn l"
  "sending (set_conn fd c l) = (sending l)(fd := mb_fd (c_send_buff c))" "sending (close_fds x l) = sending l"
  "sending (open_fd f bs l) = sending l"
  by (auto simp: is_conn_def sending_def el_simps)

lemma drop_file_keeps:
  assumes "c_fd c = c_fd (el_conn l fd)" and "mb_fd (c_recv_buff c) = mb_fd (c_recv_buff (el_conn l fd))"
    and "0 \<le> sending l fd" and "mb_fd (c_send_buff c) = -1"
  shows "el_keeps os w l (close_fds [sending l fd] (set_conn fd c l))" (is "el_keeps os w l ?l")
proof (rule keepsI)
  assume k: "el_ok os w l"
  have n: "is_conn l fd' \<Longrightarrow> fd' \<noteq> sending l fd" for fd' using el_okD(5) [OF k assms(3)] by blast
  have m: "0 \<le> sending l fd' \<Longrightarrow> fd' \<noteq> fd \<Longrightarrow> sending l fd' \<noteq> sending l fd" for fd' using el_okD(6) [OF k] by metis
  show "el_ok os w ?l"
  proof (rule el_okI)
    show "finite (el_open ?l)" "os \<subseteq> el_open ?l" using el_okD(1,2,5) [OF k] assms(3) by (auto simp: el_simps)
    show "mb_fd (c_recv_buff (el_conn ?l fd')) < 0" for fd' using el_okD(3) [OF k] assms(2) by (simp add: el_simps)
    show "fd' \<in> el_open ?l - os \<and> 0 \<le> fd' \<and> fd' < ew_maxfds w \<and> c_fd (el_conn ?l fd') = fd'" if "is_conn ?l fd'" for fd'
      using el_okD(4) [OF k, of fd'] n [of fd'] that assms(1) by (auto simp: el_simps slot_simps)
    show "sending ?l fd' \<in> el_open ?l - os \<and> \<not> is_conn ?l (sending ?l fd')" if "0 \<le> sending ?l fd'" for fd'
      using el_okD(5) [OF k, of fd'] m [of fd'] that assms(4) by (auto simp: el_simps slot_simps split: if_splits)
    show "fd1 = fd2" if "0 \<le> sending ?l fd1" "sending ?l fd1 = sending ?l fd2" for fd1 fd2
      using el_okD(6) [OF k, of fd1 fd2] that assms(4) by (auto simp: slot_simps split: if_splits)
  qed
next
  fix fd' assume "loose os l fd'"
  then show "loose os ?l fd'" using assms(4) by (auto simp: loose_def el_simps slot_simps)
next
  fix fd' assume "seen l fd'"
  then show "seen ?l fd'" using assms(1) by (auto simp: seen_def el_simps slot_simps)
qed

lemma take_file_ok:
  assumes k: "el_ok os w l" and f: "loose os l f"
    and "c_fd c = c_fd (el_conn l fd)" and "mb_fd (c_recv_buff c) = mb_fd (c_recv_buff (el_conn l fd))" and "mb_fd (c_send_buff c) = f"
  shows "el_ok os w (set_conn fd c l)" (is "el_ok os w ?l")
proof (rule el_okI)
  have f: "f \<in> el_open l" "f \<notin> os" "\<not> is_conn l f" "\<And>fd'. sending l fd' \<noteq> f" using f unfolding loose_def by blast+
  show "finite (el_open ?l)" "os \<subseteq> el_open ?l" using el_okD(1,2) [OF k] by (auto simp: el_simps)
  show "mb_fd (c_recv_buff (el_conn ?l fd')) < 0" for fd' using el_okD(3) [OF k] assms(4) by (simp add: el_simps)
  show "fd' \<in> el_open ?l - os \<and> 0 \<le> fd' \<and> fd' < ew_maxfds w \<and> c_fd (el_conn ?l fd') = fd'" if "is_conn ?l fd'" for fd'
    using el_okD(4) [OF k, of fd'] that assms(3) by (auto simp: el_simps slot_simps)
  show "sending ?l fd' \<in> el_open ?l - os \<and> \<not> is_conn ?l (sending ?l fd')" if "0 \<le> sending ?l fd'" for fd'
    using el_okD(5) [OF k, of fd'] that f(1-3) assms(5) by (auto simp: el_simps slot_simps split: if_splits)
  show "fd1 = fd2" if "0 \<le> sending ?l fd1" "sending ?l fd1 = sending ?l fd2" for fd1 fd2
    using el_okD(6) [OF k, of fd1 fd2] that f(4) assms(5) by (auto simp: slot_simps split: if_splits)
qed

lemma parts_same:
  assumes "el_open l' = el_open l" and "el_epoll l' = el_epoll l" and "el_conn l' = el_conn l"
  shows "el_ok os w l' = el_ok os w l" "loose os l' fd = loose os l fd" "seen l' fd = seen l fd"
  using assms by (simp_all add: el_ok_def loose_def seen_def is_conn_def sending_def)

text \<open>A new descriptor.\<close>

lemma open_loose:
  assumes "el_ok os w l" and "0 \<le> f" and "f \<notin> el_open l"
  shows "loose os (open_fd f bs l) f"
  using el_okD(2,4,5) [OF assms(1)] assms(2,3) by (auto simp: loose_def el_simps slot_simps)

lemma open_keeps: "0 \<le> f \<Longrightarrow> el_keeps os w l (open_fd f bs l)"
proof (rule keepsI)
  assume k: "el_ok os w l"
  show "el_ok os w (open_fd f bs l)"
    by (rule el_okI) (use el_okD [OF k] in \<open>auto simp: el_simps slot_simps\<close>)
qed (auto simp: loose_def seen_def el_simps slot_simps)

lemma new_then:
  assumes "el_keeps os w l l1" and "f \<notin> el_open l"
    and "\<And>fd. el_ok os w l1 \<Longrightarrow> loose os l1 fd \<Longrightarrow> fd \<noteq> f \<Longrightarrow> loose os l2 fd" and "el_ok os w l \<Longrightarrow> el_ok os w l1 \<Longrightarrow> el_ok os w l2"
    and "\<And>fd. el_ok os w l1 \<Longrightarrow> seen l1 fd \<Longrightarrow> seen l2 fd"
  shows "el_keeps os w l l2"
proof (rule keepsI)
  assume k: "el_ok os w l"
  then show "el_ok os w l2" using assms(1,4) by (simp add: el_keeps_def)
next
  fix fd assume "el_ok os w l" "loose os l fd"
  moreover from this have "fd \<noteq> f" using assms(2) by (auto simp: loose_def)
  ultimately show "loose os l2 fd" using assms(1,3) by (simp add: el_keeps_def)
next
  fix fd assume "el_ok os w l" "seen l fd"
  then show "seen l2 fd" using assms(1,5) by (simp add: el_keeps_def)
qed

lemma close_new_keeps:
  assumes "el_keeps os w l l1" and "f \<notin> el_open l" and "el_ok os w l \<Longrightarrow> loose os l1 f"
  shows "el_keeps os w l (close_fds [f] l1)"
proof (rule new_then [OF assms(1,2)])
  assume "el_ok os w l" and k: "el_ok os w l1"
  then have f: "f \<notin> os" "\<not> is_conn l1 f" "\<And>fd'. sending l1 fd' \<noteq> f" using assms(3) unfolding loose_def by blast+
  show "el_ok os w (close_fds [f] l1)"
  proof (rule el_okI)
    fix fd assume "is_conn (close_fds [f] l1) fd"
    then show "fd \<in> el_open (close_fds [f] l1) - os \<and> 0 \<le> fd \<and> fd < ew_maxfds w \<and> c_fd (el_conn (close_fds [f] l1) fd) = fd"
      using el_okD(4) [OF k] f(2) by (auto simp: el_simps slot_simps)
  next
    fix fd assume "0 \<le> sending (close_fds [f] l1) fd"
    then show "sending (close_fds [f] l1) fd \<in> el_open (close_fds [f] l1) - os \<and> \<not> is_conn (close_fds [f] l1) (sending (close_fds [f] l1) fd)"
      using el_okD(5) [OF k] f(3) by (auto simp: el_simps slot_simps)
  qed (use el_okD(1,2,3,6) [OF k] f(1) in \<open>auto simp: el_simps slot_simps\<close>)
qed (auto simp: loose_def seen_def el_simps slot_simps)

text \<open>The old file goes, the new descriptor is taken.\<close>

lemma setfile_drop:
  "set_client_fd fd f off n l =
     set_conn fd ((el_conn l fd)\<lparr>c_send_buff := fst (mybuff_setfile f off n (c_send_buff (el_conn l fd)))\<rparr>)
       (if 0 \<le> sending l fd then close_fds [sending l fd] (set_conn fd ((el_conn l fd)\<lparr>c_send_buff := (c_send_buff (el_conn l fd))\<lparr>mb_fd := -1\<rparr>\<rparr>) l) else l)"
  by (simp add: set_client_fd_def mybuff_setfile_def sending_def set_conn_def close_fds_def)

lemma set_file_keeps:
  assumes "el_keeps os w l l1" and "f \<notin> el_open l" and "el_ok os w l \<Longrightarrow> loose os l1 f"
  shows "el_keeps os w l (set_client_fd fd f off n l1)"
proof -
  let ?l2 = "if 0 \<le> sending l1 fd then close_fds [sending l1 fd]
      (set_conn fd ((el_conn l1 fd)\<lparr>c_send_buff := (c_send_buff (el_conn l1 fd))\<lparr>mb_fd := -1\<rparr>\<rparr>) l1) else l1"
  have k2: "el_keeps os w l1 ?l2" by (simp add: drop_file_keeps)
  have k: "el_keeps os w l ?l2" using keeps_trans [OF assms(1) k2] .
  have f: "el_ok os w l \<Longrightarrow> loose os ?l2 f" using assms(1,3) k2 by (simp add: el_keeps_def)
  show ?thesis unfolding setfile_drop
  proof (rule new_then [OF k assms(2)])
    assume "el_ok os w l" "el_ok os w ?l2"
    then show "el_ok os w (set_conn fd ((el_conn l1 fd)\<lparr>c_send_buff := fst (mybuff_setfile f off n (c_send_buff (el_conn l1 fd)))\<rparr>) ?l2)"
      using f by (intro take_file_ok [of os w ?l2 f]) (auto simp: el_simps mybuff_setfile_def)
  qed (auto simp: loose_def seen_def el_simps slot_simps mybuff_setfile_def split: if_splits)
qed

text \<open>A connection is registered, and closed.\<close>

lemma registered:
  assumes "el_open l' = el_open l" and "el_epoll l' = (el_epoll l)(f \<mapsto> ev)"
    and "el_conn l' = (el_conn l)(f := (el_conn l f)\<lparr>c_fd := f\<rparr>)"
  shows "el_ok os w l \<Longrightarrow> loose os l f \<Longrightarrow> f < ew_maxfds w \<Longrightarrow> el_ok os w l'"
    and "loose os l fd \<Longrightarrow> fd \<noteq> f \<Longrightarrow> loose os l' fd" and "seen l fd \<Longrightarrow> seen l' fd"
proof -
  have s: "sending l' = sending l" and c: "is_conn l' = (\<lambda>fd. fd = f \<or> is_conn l fd)"
    using assms(2,3) by (auto simp: fun_eq_iff sending_def is_conn_def)
  show "el_ok os w l'" if k: "el_ok os w l" and "loose os l f" "f < ew_maxfds w"
    by (rule el_okI) (use el_okD [OF k] that(2,3) in \<open>auto simp: assms(1,3) s c loose_def\<close>)
  show "loose os l fd \<Longrightarrow> fd \<noteq> f \<Longrightarrow> loose os l' fd" by (simp add: loose_def assms(1) s c)
  show "seen l fd \<Longrightarrow> seen l' fd" by (auto simp: seen_def assms(3) c)
qed

lemma add_fd_keeps:
  assumes "el_keeps os w l l1" and "f \<notin> el_open l" and "el_ok os w l \<Longrightarrow> loose os l1 f" and "f < ew_maxfds w"
  shows "el_keeps os w l (add_fd_2_efd w f l1)"
proof (cases "el_ok os w l")
  case True
  let ?c = "el_conn l1 f" let ?sb = "fst (mybuff_reinit (ew_alloc w) (ew_ibs w) (c_send_buff ?c))"
  let ?rb = "fst (mybuff_reinit (ew_alloc w) (ew_ibs w) (c_recv_buff ?c))"
  let ?c1 = "?c\<lparr>c_send_len := 0, c_send_buff := ?sb, c_recv_buff := ?rb\<rparr>"
  let ?l2 = "if 0 \<le> sending l1 f then close_fds [sending l1 f] (set_conn f ?c1 l1) else set_conn f ?c1 l1"
  have k1: "el_ok os w l1" using True assms(1) by (simp add: el_keeps_def)
  have r: "mb_fd (c_recv_buff ?c) < 0" using el_okD(3) [OF k1] .
  have rb: "mb_fd ?rb = mb_fd (c_recv_buff ?c)" using r by (simp add: mybuff_reinit_def Let_def)
  have sb: "mb_fd ?sb = (if 0 \<le> sending l1 f then -1 else sending l1 f)" by (simp add: mybuff_reinit_def Let_def sending_def)
  have k2: "el_keeps os w l1 ?l2" using rb sb by (auto intro!: drop_file_keeps set_conn_keeps)
  have k: "el_keeps os w l ?l2" using keeps_trans [OF assms(1) k2] .
  have f: "loose os ?l2 f" using True k2 k1 assms(3) by (simp add: el_keeps_def)
  have "el_epoll l1 f = None" using assms(3) [OF True] by (simp add: loose_def is_conn_def)
  then have e: "el_open (add_fd_2_efd w f l1) = el_open ?l2" "el_epoll (add_fd_2_efd w f l1) = (el_epoll ?l2)(f \<mapsto> EPOLLIN)"
    "el_conn (add_fd_2_efd w f l1) = (el_conn ?l2)(f := (el_conn ?l2 f)\<lparr>c_fd := f\<rparr>)"
    using r by (auto simp: add_fd_2_efd_def Let_def el_simps epoll_add_def sending_def mybuff_reinit_def split: prod.splits)
  show ?thesis
    by (rule new_then [OF k assms(2)]) (use registered [OF e] f assms(4) in blast)+
qed (simp add: el_keeps_def)

lemma forget_fd_keeps:
  assumes "is_conn l fd" and "el_open l' = el_open l - {fd}" and "el_epoll l' = (el_epoll l)(fd := None)"
    and "el_conn l' = (el_conn l)(fd := (el_conn l fd)\<lparr>c_fd := -1\<rparr>)"
  shows "el_keeps os w l l'"
proof -
  have s: "sending l' = sending l" and c: "is_conn l' = (\<lambda>x. x \<noteq> fd \<and> is_conn l x)"
    using assms(3,4) by (auto simp: fun_eq_iff sending_def is_conn_def)
  show ?thesis
  proof (rule keepsI)
    assume k: "el_ok os w l"
    show "el_ok os w l'"
      by (rule el_okI) (use el_okD [OF k] assms(1) in \<open>auto simp: assms(2,4) s c\<close>)
  next
    fix x assume "loose os l x"
    then show "loose os l' x" using assms(1) by (auto simp: loose_def assms(2) s c)
  next
    fix x assume "seen l x"
    then show "seen l' x" by (auto simp: seen_def assms(4) c)
  qed
qed

lemma keeps_both: "el_ok os w l \<Longrightarrow> el_keeps os w l l' \<Longrightarrow> seen l fd \<Longrightarrow> el_ok os w l' \<and> seen l' fd"
  by (simp add: el_keeps_def)

lemma wire_keeps: "el_keeps os w l (l\<lparr>el_wire := x\<rparr>)"
  by (rule keeps_same) (simp_all add: is_conn_def sending_def)

text \<open>What is sent takes nothing but bytes off a connection, or its file with the descriptor.\<close>

lemma send_data_conn:
  assumes "send_data rs c = Some (ret, n, bs, c', rs')"
  shows "c_fd c' = c_fd c" "c_recv_buff c' = c_recv_buff c" "mb_fd (c_send_buff c') = mb_fd (c_send_buff c)"
  using assms by (auto simp: send_data_def Let_def skipdata_fd split: option.splits prod.splits if_splits)

lemma send_file_conn:
  assumes "send_file rs n0 c = Some (ret, n, ranges, c', x)"
  shows "c_fd c' = c_fd c" "c_recv_buff c' = c_recv_buff c"
    "x = [] \<and> mb_fd (c_send_buff c') = mb_fd (c_send_buff c) \<or> x = [mb_fd (c_send_buff c)] \<and> 0 \<le> mb_fd (c_send_buff c) \<and> mb_fd (c_send_buff c') = -1"
  using assms by (auto simp: send_file_def Let_def mybuff_skipfile_def split: option.splits prod.splits if_splits)

lemma send_part_keeps:
  assumes "send_part rs fd l = Some (ret, n, l')"
  shows "el_keeps os w l l'"
proof -
  obtain r1 n1 bs c1 rs1 where d: "send_data rs (el_conn l fd) = Some (r1, n1, bs, c1, rs1)"
    using assms by (auto simp: send_part_def split: option.splits)
  obtain ranges c x where f: "(if r1 = SEND_ADD_EPOLLIN then send_file rs1 n1 c1 else Some (r1, n1, [], c1, [])) = Some (ret, n, ranges, c, x)"
    and l': "l' = close_fds x (set_conn fd c (l\<lparr>el_wire := (el_wire l)(fd := el_wire l fd @ bs @ take (mb_flen (c_send_buff (el_conn l fd))) (range_bytes l ranges))\<rparr>))"
    using assms d by (auto simp: send_part_def Let_def split: option.splits)
  let ?l = "l\<lparr>el_wire := (el_wire l)(fd := el_wire l fd @ bs @ take (mb_flen (c_send_buff (el_conn l fd))) (range_bytes l ranges))\<rparr>"
  have c: "c_fd c = c_fd (el_conn ?l fd)" "c_recv_buff c = c_recv_buff (el_conn ?l fd)"
    "x = [] \<and> mb_fd (c_send_buff c) = sending ?l fd \<or> x = [sending ?l fd] \<and> 0 \<le> sending ?l fd \<and> mb_fd (c_send_buff c) = -1"
    using f send_data_conn [OF d] send_file_conn [of rs1 n1 c1 ret n ranges c x] by (auto simp: sending_def split: if_splits)
  have "el_keeps os w ?l (close_fds x (set_conn fd c ?l))"
    using c drop_file_keeps [of c ?l fd os w] set_conn_keeps [of c ?l fd os w] by (auto simp: close_fds_def)
  then show ?thesis using keeps_trans [OF wire_keeps] by (simp add: l')
qed

section \<open>Plugins\<close>

text \<open>
  The contract of a plugin: what it calls keeps the descriptors apart, and the end of a connection is not
  also closed by its \<open>svc_finiconn\<close>.  A receive or a send concerns a connection that is there.
\<close>

locale plugin =
  fixes so :: "'s mylib" and w :: eworld and os :: "int set"
  assumes initconn_law: "kernel_ok w \<Longrightarrow> so_initconn so fd l = (r, l') \<Longrightarrow> el_keeps os w l l'"
    and recv_law: "kernel_ok w \<Longrightarrow> is_conn l fd \<Longrightarrow> so_recv so fd l = Some (r, l') \<Longrightarrow> el_keeps os w l l'"
    and send_law: "kernel_ok w \<Longrightarrow> so_send so fd l = (r, l') \<Longrightarrow> el_keeps os w l l'"
    and once_law: "kernel_ok w \<Longrightarrow> so_send_once so = Some f \<Longrightarrow> el_keeps os w l (f fd l)"
    and finiconn_law: "kernel_ok w \<Longrightarrow> so_finiconn so = Some f \<Longrightarrow> el_keeps os w l (f fd l) \<and> (is_conn l fd \<longrightarrow> is_conn (f fd l) fd)"
    and timeout_law: "kernel_ok w \<Longrightarrow> so_timeout so = Some g \<Longrightarrow> el_keeps os w l (g l)"
begin

lemma close_keeps:
  assumes "kernel_ok w" and "seen l fd"
  shows "el_keeps os w l (do_close so w fd l)"
proof (cases "fd < 0 \<or> fd \<ge> ew_maxfds w \<or> c_fd (el_conn l fd) < 0")
  case False
  let ?l = "case so_finiconn so of None \<Rightarrow> l | Some f \<Rightarrow> f fd l"
  have c: "is_conn l fd" using assms(2) False by (simp add: seen_def)
  have k: "el_keeps os w l ?l" and c: "is_conn ?l fd"
    using finiconn_law [OF assms(1)] c by (auto split: option.splits)
  have "el_keeps os w ?l (do_close so w fd l)"
    by (rule forget_fd_keeps [OF c]) (use False in \<open>simp_all add: do_close_def Let_def epoll_del_def set_conn_def close_fds_def\<close>)
  then show ?thesis by (rule keeps_trans [OF k])
qed (simp add: do_close_def)

lemma accept_keeps:
  assumes "kernel_ok w"
  shows "el_keeps os w l (accept_new so w n l)"
proof (induction n arbitrary: l)
  case (Suc n)
  let ?fd = "ew_newfd w (el_open l)" let ?l = "open_fd ?fd [] l"
  show ?case
  proof (cases "el_ok os w l")
    case True
    then have fd: "0 \<le> ?fd" "?fd \<notin> el_open l" using assms el_okD(1) by (auto simp: kernel_ok_def)
    note o = open_keeps [OF fd(1), of os w l "[]"]
    have f: "el_ok os w l \<Longrightarrow> loose os ?l ?fd" using open_loose [OF _ fd] .
    obtain r l1 where i: "so_initconn so ?fd ?l = (r, l1)" by (cases "so_initconn so ?fd ?l")
    have k1: "el_keeps os w l l1" using keeps_trans [OF o initconn_law [OF assms i]] .
    have f1: "el_ok os w l \<Longrightarrow> loose os l1 ?fd"
      using f o initconn_law [OF assms i] by (simp add: el_keeps_def)
    show ?thesis
      using keeps_trans [OF close_new_keeps [OF o fd(2) f] Suc.IH] keeps_trans [OF close_new_keeps [OF k1 fd(2) f1] Suc.IH]
        keeps_trans [OF add_fd_keeps [OF k1 fd(2) f1] Suc.IH]
      by (simp add: Let_def i)
  qed (simp add: el_keeps_def)
qed simp

lemma loop_send_keeps:
  assumes k: "kernel_ok w" and "seen l fd" and "loop_send so w rs fd l = Some l'"
  shows "el_keeps os w l l'"
proof (cases "el_ok os w l \<and> \<not> c_fd (el_conn l fd) < 0")
  case True
  then have ok: "el_ok os w l" by simp
  obtain ret n l1 where p: "send_part rs fd l = Some (ret, n, l1)"
    using assms(3) True by (auto simp: loop_send_def split: option.splits)
  note k1 = send_part_keeps [OF p, of os w]
  have s1: "seen l1 fd" using keeps_both [OF ok k1 assms(2)] by simp
  let ?l2 = "modify_fd_event fd (if ret = SEND_ADD_EPOLLOUT then EPOLLOUT else EPOLLIN) l1"
  let ?l3 = "case so_send_once so of Some f \<Rightarrow> if n > 0 then f fd ?l2 else ?l2 | None \<Rightarrow> ?l2"
  have "el_keeps os w ?l2 ?l3" using once_law [OF k] by (auto split: option.splits)
  then have k3: "el_keeps os w l ?l3" using keeps_trans [OF k1] keeps_trans [OF modify_keeps] by blast
  obtain r l4 where q: "so_send so fd ?l3 = (r, l4)" by (cases "so_send so fd ?l3")
  have k4: "el_keeps os w l l4" using keeps_trans [OF k3 send_law [OF k q]] .
  have s4: "seen l4 fd" using keeps_both [OF ok k4 assms(2)] by simp
  have "l' = (if ret = SEND_CLOSE then do_close so w fd l1 else if ret \<noteq> SEND_ADD_EPOLLIN then ?l3
      else if r = SEND_CLOSE then do_close so w fd l4 else l4)"
    using assms(3) True by (simp add: loop_send_def p Let_def q split: if_splits)
  then show ?thesis
    using keeps_trans [OF k1 close_keeps [OF k s1]] k3 k4 keeps_trans [OF k4 close_keeps [OF k s4]] by simp
next
  case False
  then show ?thesis using assms(3) by (auto simp: loop_send_def el_keeps_def)
qed

lemma after_recv_keeps:
  assumes "kernel_ok w" and "seen l fd" and "after_recv so w ss fd ret l = Some l'"
  shows "el_keeps os w l l'"
  using assms(3) loop_send_keeps [OF assms(1,2)] close_keeps [OF assms(1,2)]
  by (auto simp: after_recv_def modify_keeps split: action.splits)

lemma loop_recv_keeps:
  assumes k: "kernel_ok w" and "seen l fd" and "loop_recv so w rs ss fd l = Some l'"
  shows "el_keeps os w l l'"
proof (cases "el_ok os w l \<and> \<not> c_fd (el_conn l fd) < 0")
  case True
  then have ok: "el_ok os w l" by simp
  obtain bad m where p: "recv_in (ew_alloc w) (ew_ibs w) rs (c_recv_buff (el_conn l fd)) = Some (bad, m)"
    using assms(3) True by (auto simp: loop_recv_def split: option.splits)
  let ?l1 = "set_conn fd ((el_conn l fd)\<lparr>c_recv_buff := m\<rparr>) l"
  have k1: "el_keeps os w l ?l1" by (rule set_conn_keeps) (simp_all add: sending_def recv_in_fd [OF p])
  have s1: "seen ?l1 fd" using keeps_both [OF ok k1 assms(2)] by simp
  let ?l2 = "if ends_again (ew_ibs w) rs then modify_fd_event fd EPOLLIN ?l1 else ?l1"
  have k2: "el_keeps os w l ?l2" using keeps_trans [OF k1 modify_keeps] k1 by simp
  have "is_conn l fd" using assms(2) True by (simp add: seen_def)
  then have c2: "is_conn ?l2 fd" by (simp add: is_conn_def el_simps del: not_None_eq)
  show ?thesis
  proof (cases bad)
    case True
    then show ?thesis
      using keeps_trans [OF k1 close_keeps [OF k s1]] assms(3) \<open>el_ok os w l \<and> \<not> c_fd (el_conn l fd) < 0\<close> by (simp add: loop_recv_def p Let_def)
  next
    case False
    then obtain ret l3 where r: "so_recv so fd ?l2 = Some (ret, l3)" "after_recv so w ss fd ret l3 = Some l'"
      using assms(3) True by (auto simp: loop_recv_def p Let_def split: option.splits)
    have k3: "el_keeps os w l l3" using keeps_trans [OF k2 recv_law [OF k c2 r(1)]] .
    have s3: "seen l3 fd" using keeps_both [OF ok k3 assms(2)] by simp
    show ?thesis using keeps_trans [OF k3 after_recv_keeps [OF k s3 r(2)]] .
  qed
next
  case False
  then show ?thesis using assms(3) by (auto simp: loop_recv_def el_keeps_def)
qed

lemma process_keeps:
  assumes "kernel_ok w" and "seen l (ev_fd e)" and "do_process so w e l = Some l'"
  shows "el_keeps os w l l'"
proof (cases "el_ok os w l")
  case ok: True
  show ?thesis
  proof (cases "has_in (ev_mask e)")
    case True
    then obtain l1 where r: "loop_recv so w (ev_recv e) (ev_answer e) (ev_fd e) l = Some l1"
      "(if has_out (ev_mask e) then loop_send so w (ev_send e) (ev_fd e) l1 else Some l1) = Some l'"
      using assms(3) by (auto simp: do_process_def Let_def bind_eq_Some_conv)
    note k1 = loop_recv_keeps [OF assms(1,2) r(1)]
    have "seen l1 (ev_fd e)" using keeps_both [OF ok k1 assms(2)] by simp
    then show ?thesis using r(2) k1 keeps_trans [OF k1 loop_send_keeps [OF assms(1)]] by (auto split: if_splits)
  next
    case False
    then show ?thesis
      using assms(3) close_keeps [OF assms(1,2)] loop_send_keeps [OF assms(1,2)] by (auto simp: do_process_def Let_def split: if_splits)
  qed
qed (simp add: el_keeps_def)

lemma events_keep:
  assumes "kernel_ok w" and "do_events so w lfd es l = Some l'" and "\<forall>e\<in>set es. lfd = Some (ev_fd e) \<or> seen l (ev_fd e)"
  shows "el_keeps os w l l'"
  using assms(2,3)
proof (induction es arbitrary: l)
  case (Cons e es)
  show ?case
  proof (cases "el_ok os w l")
    case True
    obtain l1 where l1: "(if lfd = Some (ev_fd e) then Some (accept_new so w (ev_new e) l) else do_process so w e l) = Some l1"
      "do_events so w lfd es l1 = Some l'"
      using Cons.prems(1) by (auto simp: bind_eq_Some_conv)
    have k1: "el_keeps os w l l1"
      using l1(1) accept_keeps [OF assms(1)] process_keeps [OF assms(1)] Cons.prems(2) by (auto split: if_splits)
    have "\<forall>e\<in>set es. lfd = Some (ev_fd e) \<or> seen l1 (ev_fd e)"
      using keeps_both [OF True k1] Cons.prems(2) by auto
    then show ?thesis using keeps_trans [OF k1 Cons.IH [OF l1(2)]] by blast
  qed (simp add: el_keeps_def)
qed simp

lemma round_keeps:
  assumes "kernel_ok w" and "loop_round so w lfd es now l = Some l'"
    and "\<forall>e\<in>set es. lfd = Some (ev_fd e) \<or> el_epoll l (ev_fd e) \<noteq> None"
  shows "el_keeps os w l l'"
proof -
  obtain l1 where l1: "do_events so w lfd es l = Some l1" "l' = loop_timeout so w now l1"
    using assms(2) by (auto simp: loop_round_def)
  have "el_keeps os w l1 (l1\<lparr>el_last := now\<rparr>)" by (rule keeps_same) (simp_all add: is_conn_def sending_def)
  then have "el_keeps os w l1 l'"
    using keeps_trans [OF _ timeout_law [OF assms(1)]] by (auto simp: l1(2) loop_timeout_def split: option.splits)
  moreover have "\<forall>e\<in>set es. lfd = Some (ev_fd e) \<or> seen l (ev_fd e)" using assms(3) by (auto simp: seen_def is_conn_def)
  ultimately show ?thesis using keeps_trans [OF events_keep [OF assms(1) l1(1)]] by blast
qed

lemma reachable_ok:
  assumes "kernel_ok w" and "loop_reachable so w lfd l0 l" and "el_ok os w l0"
  shows "el_ok os w l"
  using assms(2)
proof induction
  case (round l es now l')
  then show ?case using round_keeps [OF assms(1) round(3,2)] by (simp add: el_keeps_def)
qed (rule assms(3))

end

lemma loop_boot_ok: "finite os \<Longrightarrow> el_ok os w (loop_boot os now u)"
  by (simp add: el_ok_def is_conn_def sending_def loop_boot_def mybuff_init_def)

end
