(* ===== verification/HttpPlugin.thy ===== *)
theory HttpPlugin
  imports EventLoop DelFile
begin

text \<open>
  The plugin \<open>src/network/http/vfs_http.c\<close>: a file is asked for by its name, whole or in part, and goes out
  behind a header.  \<open>hw_open\<close> is what the kernel finds under a name when the file is opened;
  \<open>hw_behind\<close> are the bytes behind those received, which the searches of the code run into.
\<close>

definition HTTP_GET :: int where "HTTP_GET = 0"
definition HTTP_HEAD :: int where "HTTP_HEAD = 1"
definition RET_CLOSE_MALLOC :: int where "RET_CLOSE_MALLOC = 303"

record t_http_peer =
  hp_url :: string
  hp_type :: int
  hp_range :: bool
  hp_s :: int
  hp_e :: int

definition zero_http_peer :: t_http_peer where
  "zero_http_peer = \<lparr>hp_url = replicate 1024 (NUL), hp_type = HTTP_GET, hp_range = False, hp_s = 0, hp_e = 0\<rparr>"

type_synonym http_state = "int \<Rightarrow> t_http_peer option"

record hworld =
  hw_loop :: eworld
  hw_malloc :: bool
  hw_open :: "string \<Rightarrow> byte list option"
  hw_behind :: "byte list"

section \<open>Connections\<close>

text \<open>The block of a connection is kept when it ends, and cleared for the next.\<close>

definition http_initconn :: "hworld \<Rightarrow> int \<Rightarrow> http_state evloop \<Rightarrow> int \<times> http_state evloop" where
  "http_initconn w fd l =
     (if el_user l fd = None \<and> \<not> hw_malloc w then (RET_CLOSE_MALLOC, l)
      else (0, l\<lparr>el_user := (el_user l)(fd \<mapsto> zero_http_peer)\<rparr>))"

section \<open>Requests\<close>

definition CRLF2 :: string where "CRLF2 = [CHR 0x0D, CHR 0x0A, CHR 0x0D, CHR 0x0A]"

text \<open>An end before the beginning, or none, counts as the beginning.\<close>

definition get_range :: "string \<Rightarrow> t_http_peer \<Rightarrow> t_http_peer" where
  "get_range q p =
     (case strstr q ''Range: bytes='' of None \<Rightarrow> p
      | Some i \<Rightarrow>
        let t = drop (i + 13) q; p = p\<lparr>hp_range := True, hp_s := atoi t\<rparr> in
        case strchr t (CHR ''-'') of None \<Rightarrow> p
        | Some k \<Rightarrow> p\<lparr>hp_e := max (atoi (drop (Suc k) t)) (hp_s p)\<rparr>)"

text \<open>\<open>strncpy\<close> of a name: no zero is put behind it, what was there before stays.\<close>

definition copy_url :: "string \<Rightarrow> string \<Rightarrow> string" where
  "copy_url name url = name @ drop (length name) url"

definition take_url :: "string \<Rightarrow> nat \<Rightarrow> bool \<Rightarrow> t_http_peer \<Rightarrow> int \<times> t_http_peer" where
  "take_url t skip head p =
     (let r = drop skip t in
      case strstr r CRLF2 of None \<Rightarrow> (0, p)
      | Some e \<Rightarrow>
        (case strstr r '' HTTP/'' of None \<Rightarrow> (-2, p)
         | Some k \<Rightarrow>
           let p = (if head then p else get_range (drop k r) p) in
           if k < 1023
           then (int (skip + e + 4), p\<lparr>hp_url := copy_url (take k r) (hp_url p), hp_type := if head then HTTP_HEAD else HTTP_GET\<rparr>)
           else (-2, p)))"

definition check_request :: "hworld \<Rightarrow> byte list \<Rightarrow> t_http_peer \<Rightarrow> int \<times> t_http_peer" where
  "check_request w data p =
     (let t = cstr (bytes_str (data @ hw_behind w)) in
      if length data < 14 then (0, p)
      else if take 5 t = ''GET /'' then take_url t 5 False p
      else if take 6 t = ''HEAD /'' then take_url t 6 True p
      else (-1, p))"

section \<open>Answers\<close>

definition http_crlf :: string where "http_crlf = [CHR 0x0D, CHR 0x0A]"

definition http_header :: "nat \<Rightarrow> string" where
  "http_header n = ''HTTP/1.1 200 OK'' @ http_crlf @ ''Content-Type: application/octet-stream'' @ http_crlf @ ''Content-Length: ''
     @ show_int (int n mod 2 ^ 32) @ http_crlf @ http_crlf"

definition http_refused :: string where
  "http_refused = ''HTTP/1.1 403 File Not Found'' @ http_crlf @ http_crlf"

text \<open>The part of a file of \<open>n\<close> bytes that is asked for; its length becomes a \<open>size_t\<close>.\<close>

definition http_part :: "t_http_peer \<Rightarrow> nat \<Rightarrow> int \<times> nat" where
  "http_part p n =
     (if hp_range p then (hp_s p, nat ((min (hp_e p) (int n - 1) - hp_s p + 1) mod 2 ^ 64)) else (0, n))"

definition handle_request :: "hworld \<Rightarrow> int \<Rightarrow> t_http_peer \<Rightarrow> http_state evloop \<Rightarrow> http_state evloop option" where
  "handle_request w fd p l =
     (case hw_open w (''./'' @ cstr (hp_url p)) of
        None \<Rightarrow> set_client_data (hw_loop w) fd (str_bytes http_refused) l
      | Some c \<Rightarrow>
        let f = ew_newfd (hw_loop w) (el_open l); l = open_fd f c l in
        if f \<le> 0 then set_client_data (hw_loop w) fd (str_bytes http_refused) l
        else map_option (\<lambda>l. if hp_type p = HTTP_GET then set_client_fd fd f (fst (http_part p (length c))) (snd (http_part p (length c))) l
                             else close_fds [f] l)
               (set_client_data (hw_loop w) fd (str_bytes (http_header (length c))) l))"

definition http_recv :: "hworld \<Rightarrow> int \<Rightarrow> http_state evloop \<Rightarrow> (int \<times> http_state evloop) option" where
  "http_recv w fd l =
     (case get_client_data fd l of None \<Rightarrow> Some (RECV_ADD_EPOLLIN, l)
      | Some data \<Rightarrow>
        (case el_user l fd of None \<Rightarrow> None
         | Some p \<Rightarrow>
           let (clen, p) = check_request w data p; l = l\<lparr>el_user := (el_user l)(fd \<mapsto> p)\<rparr> in
           if clen < 0 then Some (RECV_CLOSE, l)
           else if clen = 0 then Some (RECV_ADD_EPOLLIN, l)
           else map_option (\<lambda>l. (RECV_SEND, consume_client_data fd (nat clen) l)) (handle_request w fd p l)))"

definition http_send :: "int \<Rightarrow> http_state evloop \<Rightarrow> int \<times> http_state evloop" where
  "http_send fd l = (SEND_ADD_EPOLLIN, l)"

text \<open>\<open>svc_finiconn\<close> and \<open>svc_timeout\<close> do nothing; \<open>svc_send_once\<close> is not there.\<close>

definition http_lib :: "hworld \<Rightarrow> http_state mylib" where
  "http_lib w = \<lparr>so_initconn = http_initconn w, so_recv = http_recv w, so_send = http_send, so_send_once = None,
     so_finiconn = Some (\<lambda>fd l. l), so_timeout = Some (\<lambda>l. l)\<rparr>"

end
