(* ===== verification/HttpFacts.thy ===== *)
theory HttpFacts
  imports LoopFacts HttpPlugin
begin

text \<open>
  The HTTP plugin keeps the contract of a plugin, so the event loop that serves it closes only what is
  its own; a request for a file is answered with a header and the bytes of the file.
\<close>

section \<open>The contract\<close>

lemma http_user_keeps: "el_keeps os w l (l\<lparr>el_user := u\<rparr>)"
  by (rule keeps_same) (simp_all add: is_conn_def sending_def)

lemma handle_request_keeps:
  assumes "kernel_ok (hw_loop w)" and "handle_request w fd p l = Some l'"
  shows "el_keeps os (hw_loop w) l l'"
proof (cases "el_ok os (hw_loop w) l")
  case ok: True
  let ?f = "ew_newfd (hw_loop w) (el_open l)"
  have f: "0 \<le> ?f" "?f \<notin> el_open l" using assms(1) el_okD(1) [OF ok] by (auto simp: kernel_ok_def)
  show ?thesis
  proof (cases "hw_open w (''./'' @ cstr (hp_url p))")
    case None
    then show ?thesis using assms(2) set_data_keeps by (simp add: handle_request_def)
  next
    case (Some c)
    let ?l = "open_fd ?f c l"
    note o = open_keeps [OF f(1), of os "hw_loop w" l c]
    show ?thesis
    proof (cases "?f \<le> 0")
      case True
      then show ?thesis using assms(2) Some keeps_trans [OF o set_data_keeps] by (simp add: handle_request_def Let_def)
    next
      case False
      then obtain l1 where l1: "set_client_data (hw_loop w) fd (str_bytes (http_header (length c))) ?l = Some l1"
        "l' = (if hp_type p = HTTP_GET then set_client_fd fd ?f (fst (http_part p (length c))) (snd (http_part p (length c))) l1 else close_fds [?f] l1)"
        using assms(2) Some by (auto simp: handle_request_def Let_def)
      have k1: "el_keeps os (hw_loop w) l l1" using keeps_trans [OF o set_data_keeps [OF l1(1)]] .
      have "el_ok os (hw_loop w) ?l" using ok o by (simp add: el_keeps_def)
      then have "loose os l1 ?f"
        using open_loose [OF ok f, of c] set_data_keeps [OF l1(1), of os "hw_loop w"] by (simp add: el_keeps_def)
      then show ?thesis using set_file_keeps [OF k1 f(2)] close_new_keeps [OF k1 f(2)] by (simp add: l1(2))
    qed
  qed
qed (simp add: el_keeps_def)

lemma http_recv_keeps:
  assumes "kernel_ok (hw_loop w)" and "http_recv w fd l = Some (r, l')"
  shows "el_keeps os (hw_loop w) l l'"
proof (cases "get_client_data fd l")
  case None
  then show ?thesis using assms(2) by (simp add: http_recv_def)
next
  case (Some data)
  then obtain p where p: "el_user l fd = Some p" using assms(2) by (auto simp: http_recv_def split: option.splits)
  obtain n q where q: "check_request w data p = (n, q)" by (cases "check_request w data p")
  let ?l = "l\<lparr>el_user := (el_user l)(fd \<mapsto> q)\<rparr>"
  have k: "el_keeps os (hw_loop w) l ?l" by (rule http_user_keeps)
  have "l' = ?l \<or> (\<exists>l1. handle_request w fd q ?l = Some l1 \<and> l' = consume_client_data fd (nat n) l1)"
    using assms(2) Some p q by (auto simp: http_recv_def Let_def split: if_splits)
  then show ?thesis
    using k keeps_trans [OF k keeps_trans [OF handle_request_keeps [OF assms(1)] consume_keeps]] by blast
qed

interpretation http: plugin "http_lib w" "hw_loop w" os for w os
proof unfold_locales
  show "el_keeps os (hw_loop w) l l'" if "so_initconn (http_lib w) fd l = (r, l')" for fd l r l'
    using that by (auto simp: http_lib_def http_initconn_def http_user_keeps split: if_splits)
  show "el_keeps os (hw_loop w) l l'" if "kernel_ok (hw_loop w)" "so_recv (http_lib w) fd l = Some (r, l')" for fd l r l'
    using that http_recv_keeps by (simp add: http_lib_def)
  show "el_keeps os (hw_loop w) l l'" if "so_send (http_lib w) fd l = (r, l')" for fd l r l'
    using that by (simp add: http_lib_def http_send_def)
qed (auto simp: http_lib_def)

section \<open>What goes out\<close>

text \<open>The bytes of the file a buffer still has to send; what has gone out on a connection and is still to go out.\<close>

definition file_part :: "'s evloop \<Rightarrow> mybuff \<Rightarrow> byte list" where
  "file_part l m = (if 0 \<le> mb_fd m then take (mb_flen m) (drop (nat (mb_foffset m)) (el_file l (mb_fd m))) else [])"

definition left_over :: "'s evloop \<Rightarrow> int \<Rightarrow> byte list" where
  "left_over l fd = buff_bytes (c_send_buff (el_conn l fd)) @ file_part l (c_send_buff (el_conn l fd))"

definition to_send :: "'s evloop \<Rightarrow> int \<Rightarrow> byte list" where
  "to_send l fd = el_wire l fd @ left_over l fd"

lemmas to_send_unfold = to_send_def left_over_def

lemma file_part_cong: "el_file l' = el_file l \<Longrightarrow> file_part l' m = file_part l m"
  by (simp add: file_part_def)

definition send_wf :: "'s evloop \<Rightarrow> int \<Rightarrow> bool" where
  "send_wf l fd \<longleftrightarrow> buff_wf (c_send_buff (el_conn l fd)) \<and> 0 \<le> mb_foffset (c_send_buff (el_conn l fd))"

lemma skip_parts:
  "mb_fd (mybuff_skipdata n m) = mb_fd m" "mb_flen (mybuff_skipdata n m) = mb_flen m" "mb_foffset (mybuff_skipdata n m) = mb_foffset m"
  by (simp_all add: mybuff_skipdata_def split: option.splits)

lemma send_data_bytes:
  assumes "buff_wf (c_send_buff c)" and "send_data rs c = Some (ret, n, bs, c', rs')"
  shows "bs @ buff_bytes (c_send_buff c') = buff_bytes (c_send_buff c) \<and> buff_wf (c_send_buff c') \<and>
    (ret = SEND_ADD_EPOLLIN \<longrightarrow> buff_bytes (c_send_buff c') = []) \<and>
    mb_flen (c_send_buff c') = mb_flen (c_send_buff c) \<and> mb_foffset (c_send_buff c') = mb_foffset (c_send_buff c)"
  using assms
  by (auto simp: send_data_def getdata_bytes Let_def send_outcome_def send_flag_defs skipdata_wf skip_parts
      split: if_splits option.splits prod.splits send_res.splits)

lemma take_drop_rest: "take k (drop s f) @ take (n - k) (drop (k + s) f) = take n (drop s f)" if "k \<le> n"
proof -
  have "take (k + (n - k)) (drop s f) = take k (drop s f) @ take (n - k) (drop k (drop s f))" by (rule take_add)
  then show ?thesis using that by simp
qed

lemma skipfile_rest:
  assumes "buff_wf m"
  shows "buff_wf (fst (mybuff_skipfile k m))" "buff_bytes (fst (mybuff_skipfile k m)) = buff_bytes m"
  using assms by (cases "mb_data m"; auto simp: mybuff_skipfile_def buff_wf_def buff_bytes_def)+

lemma skipfile_part:
  assumes "0 \<le> mb_fd m" and "0 \<le> mb_foffset m"
  shows "take (mb_flen m) (take k (drop (nat (mb_foffset m)) (el_file l (mb_fd m)))) @ file_part l (fst (mybuff_skipfile k m)) = file_part l m"
proof (cases "k < mb_flen m")
  case True
  have "nat (mb_foffset m + int k) = k + nat (mb_foffset m)" using assms(2) by simp
  then show ?thesis using assms(1) True take_drop_rest [of k "mb_flen m"] by (auto simp: mybuff_skipfile_def file_part_def min_absorb1)
next
  case False
  then show ?thesis using assms(1) by (auto simp: mybuff_skipfile_def file_part_def min_absorb1)
qed

lemma send_file_bytes:
  assumes "buff_wf (c_send_buff c)" and "0 \<le> mb_foffset (c_send_buff c)" and "send_file rs n0 c = Some (ret, n, ranges, c', x)"
  shows "take (mb_flen (c_send_buff c)) (range_bytes l ranges) @ file_part l (c_send_buff c') = file_part l (c_send_buff c) \<and>
    buff_wf (c_send_buff c') \<and> 0 \<le> mb_foffset (c_send_buff c') \<and> buff_bytes (c_send_buff c') = buff_bytes (c_send_buff c)"
proof (cases "mybuff_getfile (c_send_buff c)")
  case None
  then show ?thesis using assms by (auto simp: send_file_def range_bytes_def)
next
  case (Some a)
  then have a: "a = (mb_fd (c_send_buff c), mb_foffset (c_send_buff c), mb_flen (c_send_buff c))" "0 \<le> mb_fd (c_send_buff c)" "0 < mb_flen (c_send_buff c)"
    by (auto simp: mybuff_getfile_def split: if_splits)
  obtain r rs' where r: "after_eintr rs = Some (r, rs')" using assms(3) Some a by (auto simp: send_file_def split: option.splits)
  obtain r1 n1 k where o: "send_outcome r (mb_flen (c_send_buff c)) = (r1, n1, k)" by (cases "send_outcome r (mb_flen (c_send_buff c))")
  have k: "0 < n1 \<Longrightarrow> n1 = int k" using o by (auto simp: send_outcome_def split: send_res.splits)
  have c': "c_send_buff c' = (if n1 > 0 then fst (mybuff_skipfile k (c_send_buff c)) else c_send_buff c)"
    "ranges = (if n1 > 0 then [(mb_fd (c_send_buff c), mb_foffset (c_send_buff c), k)] else [])"
    using assms(3) Some a r o by (auto simp: send_file_def Let_def split: prod.splits if_splits)
  show ?thesis
    using a(2) assms(1,2) skipfile_rest [OF assms(1), of k] skipfile_part [OF a(2) assms(2), of k l]
    by (auto simp: c' range_bytes_def mybuff_skipfile_def)
qed

lemma send_part_same:
  assumes "send_wf l fd" and "send_part rs fd l = Some (ret, n, l')"
  shows "to_send l' fd = to_send l fd \<and> send_wf l' fd"
proof -
  have w: "buff_wf (c_send_buff (el_conn l fd))" "0 \<le> mb_foffset (c_send_buff (el_conn l fd))" using assms(1) by (simp_all add: send_wf_def)
  obtain r1 n1 bs c1 rs1 where d: "send_data rs (el_conn l fd) = Some (r1, n1, bs, c1, rs1)"
    using assms by (auto simp: send_part_def split: option.splits)
  obtain ranges c x where f: "(if r1 = SEND_ADD_EPOLLIN then send_file rs1 n1 c1 else Some (r1, n1, [], c1, [])) = Some (ret, n, ranges, c, x)"
    and l': "l' = close_fds x (set_conn fd c (l\<lparr>el_wire := (el_wire l)(fd := el_wire l fd @ bs @ take (mb_flen (c_send_buff (el_conn l fd))) (range_bytes l ranges))\<rparr>))"
    using assms d by (auto simp: send_part_def Let_def split: option.splits)
  note d1 = send_data_bytes [OF w(1) d]
  have p: "file_part l (c_send_buff c1) = file_part l (c_send_buff (el_conn l fd))"
    using d1 send_data_conn(3) [OF d] by (simp add: file_part_def)
  have b: "bs @ buff_bytes (c_send_buff c1) = buff_bytes (c_send_buff (el_conn l fd))" using d1 by simp
  have e: "file_part l' m = file_part l m" for m by (rule file_part_cong) (simp add: l' el_simps)
  have t: "to_send l' fd = el_wire l fd @ bs @ take (mb_flen (c_send_buff (el_conn l fd))) (range_bytes l ranges) @ buff_bytes (c_send_buff c) @ file_part l (c_send_buff c)"
    unfolding to_send_unfold e by (simp add: l' el_simps)
  show ?thesis
  proof (cases "r1 = SEND_ADD_EPOLLIN")
    case True
    then have s: "send_file rs1 n1 c1 = Some (ret, n, ranges, c, x)" using f by simp
    have "buff_wf (c_send_buff c1)" "0 \<le> mb_foffset (c_send_buff c1)" using d1 w(2) by simp_all
    note s1 = send_file_bytes [OF this s, of l]
    have "buff_bytes (c_send_buff c1) = []" using d1 True by simp
    then have "to_send l' fd = to_send l fd" unfolding t to_send_unfold [of l] using s1 p b d1 by simp
    then show ?thesis using s1 by (simp add: send_wf_def l' el_simps)
  next
    case False
    then have c: "c = c1" "ranges = []" using f by auto
    have "to_send l' fd = to_send l fd" unfolding t to_send_unfold [of l] by (simp add: c p b [symmetric] range_bytes_def)
    then show ?thesis using d1 w(2) by (simp add: send_wf_def l' el_simps c(1))
  qed
qed

section \<open>Requests\<close>

lemma strstr_skip: "p \<noteq> [] \<Longrightarrow> hd p \<notin> set a \<Longrightarrow> strstr (a @ b) p = map_option ((+) (length a)) (strstr b p)"
proof (induction a)
  case Nil
  then show ?case by (cases "strstr b p") auto
next
  case (Cons x a)
  have "take (length p) ((x # a) @ b) \<noteq> p" using Cons.prems by (cases p) auto
  then show ?case using Cons by (cases "strstr b p") auto
qed

lemma strstr_none: "p \<noteq> [] \<Longrightarrow> hd p \<notin> set s \<Longrightarrow> strstr s p = None"
  using strstr_skip [of p s "[]"] by simp

lemma strstr_here: "strstr (p @ b) p = Some 0" if "p \<noteq> []"
  using that by (cases p) auto

text \<open>A request for a file, or for the bytes from \<open>a\<close> to \<open>b\<close> of it, as a browser writes it.\<close>

definition http_request :: "string \<Rightarrow> (nat \<times> nat) option \<Rightarrow> string" where
  "http_request name rng =
     ''GET /'' @ name @ '' HTTP/1.1'' @
       (case rng of None \<Rightarrow> [] | Some (a, b) \<Rightarrow> http_crlf @ ''Range: bytes='' @ show_nat a @ ''-'' @ show_nat b) @ CRLF2"

definition url_ok :: "string \<Rightarrow> bool" where
  "url_ok name \<longleftrightarrow> length name < 1023 \<and> NUL \<notin> set name \<and> CHR '' '' \<notin> set name \<and> CHR 0x0D \<notin> set name"

definition asked :: "string \<Rightarrow> (nat \<times> nat) option \<Rightarrow> t_http_peer" where
  "asked name rng =
     zero_http_peer\<lparr>hp_url := name @ replicate (1024 - length name) NUL, hp_range := (rng \<noteq> None),
       hp_s := (case rng of None \<Rightarrow> 0 | Some (a, b) \<Rightarrow> int a), hp_e := (case rng of None \<Rightarrow> 0 | Some (a, b) \<Rightarrow> int (max a b))\<rparr>"

lemma not_digit_cr [simp]: "\<not> is_digit (CHR 0x0D)" "\<not> is_digit (CHR ''-'')" "\<not> is_digit NUL"
  by code_simp+

lemma range_of_request:
  "get_range ('' HTTP/1.1'' @ (case rng of None \<Rightarrow> [] | Some (a, b) \<Rightarrow> http_crlf @ ''Range: bytes='' @ show_nat a @ ''-'' @ show_nat b) @ CRLF2) p =
     (case rng of None \<Rightarrow> p | Some (a, b) \<Rightarrow> p\<lparr>hp_range := True, hp_s := int a, hp_e := int (max a b)\<rparr>)"
proof (cases rng)
  case None
  have "strstr ('' HTTP/1.1'' @ CRLF2) ''Range: bytes='' = None" by (rule strstr_none) (simp_all add: CRLF2_def)
  then show ?thesis using None by (simp add: get_range_def del: append_Cons)
next
  case (Some ab)
  obtain a b where ab: "ab = (a, b)" by (cases ab)
  let ?t = "show_nat a @ CHR ''-'' # show_nat b @ CRLF2"
  have f: "strstr (('' HTTP/1.1'' @ http_crlf) @ ''Range: bytes='' @ ?t) ''Range: bytes='' = Some 11"
    by (subst strstr_skip) (simp_all add: http_crlf_def)
  have d: "drop (11 + 13) (('' HTTP/1.1'' @ http_crlf) @ ''Range: bytes='' @ ?t) = ?t" by (simp add: http_crlf_def)
  have k: "strchr ?t (CHR ''-'') = Some (length (show_nat a))" by (rule strchr_append) (simp add: show_nat_notin)
  have x: "atoi ?t = int a" "atoi (show_nat b @ CRLF2) = int b"
    by (rule atoi_show_nat, simp add: CRLF2_def)+
  have "get_range (('' HTTP/1.1'' @ http_crlf) @ ''Range: bytes='' @ ?t) p = p\<lparr>hp_range := True, hp_s := int a, hp_e := int (max a b)\<rparr>"
    unfolding get_range_def f option.case d Let_def k by (simp add: x max.commute)
  then show ?thesis using Some ab by simp
qed

lemma nul_char: "NUL = CHR 0x00"
  by code_simp

lemma show_nat_plain: "CHR 0x0D \<notin> set (show_nat n)" "NUL \<notin> set (show_nat n)"
  by (simp_all add: show_nat_notin)

lemma request_end:
  "strstr ((case rng of None \<Rightarrow> [] | Some (a, b) \<Rightarrow> http_crlf @ ''Range: bytes='' @ show_nat a @ ''-'' @ show_nat b) @ CRLF2) CRLF2 =
     Some (length (case rng of None \<Rightarrow> [] | Some (a, b) \<Rightarrow> http_crlf @ ''Range: bytes='' @ show_nat a @ ''-'' @ show_nat b))"
proof (cases rng)
  case None
  then show ?thesis by (simp add: CRLF2_def)
next
  case (Some ab)
  obtain a b where ab: "ab = (a, b)" by (cases ab)
  let ?y = "CHR 0x0A # ''Range: bytes='' @ show_nat a @ ''-'' @ show_nat b"
  have "strstr (?y @ CRLF2) CRLF2 = map_option ((+) (length ?y)) (strstr CRLF2 CRLF2)"
    by (rule strstr_skip) (simp_all add: CRLF2_def show_nat_plain)
  moreover have "strstr (CHR 0x0D # ?y @ CRLF2) CRLF2 = map_option Suc (strstr (?y @ CRLF2) CRLF2)" by (simp add: CRLF2_def)
  moreover have "strstr CRLF2 CRLF2 = Some 0" by (simp add: CRLF2_def)
  ultimately show ?thesis using Some ab by (simp add: http_crlf_def)
qed

lemma cstr_append: "NUL \<notin> set a \<Longrightarrow> cstr (a @ b) = a @ cstr b"
  unfolding cstr_def by (subst takeWhile_append2) auto

lemma check_plain_request:
  assumes "url_ok name" and "cstr (bytes_str (hw_behind w)) = []"
  shows "check_request w (str_bytes (http_request name rng)) zero_http_peer = (int (length (http_request name rng)), asked name rng)"
proof -
  let ?x = "case rng of None \<Rightarrow> [] | Some (a, b) \<Rightarrow> http_crlf @ ''Range: bytes='' @ show_nat a @ ''-'' @ show_nat b"
  let ?q = "'' HTTP/1.1'' @ ?x @ CRLF2" let ?r = "name @ ?q"
  have n: "NUL \<notin> set name" "CHR '' '' \<notin> set name" "CHR 0x0D \<notin> set name" "length name < 1023" using assms(1) by (simp_all add: url_ok_def)
  have t: "http_request name rng = ''GET /'' @ ?r" by (simp add: http_request_def)
  have z: "NUL \<notin> set (http_request name rng)"
    using n(1) show_nat_plain(2) by (auto simp: t http_crlf_def CRLF2_def nul_char split: option.splits)
  have c: "cstr (bytes_str (str_bytes (http_request name rng) @ hw_behind w)) = http_request name rng"
    by (simp add: bytes_str_append cstr_append [OF z] assms(2))
  have "strstr ((name @ '' HTTP/1.1'') @ ?x @ CRLF2) CRLF2 = map_option ((+) (length (name @ '' HTTP/1.1''))) (strstr (?x @ CRLF2) CRLF2)"
    by (rule strstr_skip) (use n(3) in \<open>simp_all add: CRLF2_def\<close>)
  then have e: "strstr ?r CRLF2 = Some (length name + 9 + length ?x)" by (simp add: request_end)
  have "strstr (name @ ?q) '' HTTP/'' = map_option ((+) (length name)) (strstr ?q '' HTTP/'')"
    by (rule strstr_skip) (use n(2) in simp_all)
  then have h: "strstr ?r '' HTTP/'' = Some (length name)" by simp
  have l: "5 + (length name + 9 + length ?x) + 4 = length (http_request name rng)" by (simp add: t CRLF2_def)
  obtain q where q: "q = ?q" by blast
  note e = e [folded q] and h = h [folded q] and g = range_of_request [of rng zero_http_peer, folded q]
  have "take_url (''GET /'' @ name @ q) 5 False zero_http_peer = (int (5 + (length name + 9 + length ?x) + 4), asked name rng)"
    using n(4) by (simp add: take_url_def e h g Let_def) (auto simp: asked_def copy_url_def zero_http_peer_def split: option.splits)
  moreover have "take 5 (http_request name rng) = ''GET /''" by (simp add: t)
  moreover have "\<not> length (str_bytes (http_request name rng)) < 14" using l by simp
  ultimately show ?thesis unfolding check_request_def c Let_def l by (simp add: t [folded q])
qed

section \<open>Answers\<close>

text \<open>The bytes of the file that are asked for.\<close>

definition asked_bytes :: "(nat \<times> nat) option \<Rightarrow> byte list \<Rightarrow> byte list" where
  "asked_bytes rng c = (case rng of None \<Rightarrow> c | Some (a, b) \<Rightarrow> take (Suc b - a) (drop a c))"

definition rng_ok :: "(nat \<times> nat) option \<Rightarrow> nat \<Rightarrow> bool" where
  "rng_ok rng n \<longleftrightarrow> (case rng of None \<Rightarrow> True | Some (a, b) \<Rightarrow> a \<le> b \<and> a < n)"

lemma asked_part:
  assumes "rng_ok rng (length c)" and "length c < 2 ^ 63"
  shows "0 \<le> fst (http_part (asked name rng) (length c))"
    "take (snd (http_part (asked name rng) (length c))) (drop (nat (fst (http_part (asked name rng) (length c)))) c) = asked_bytes rng c"
proof -
  have "nat ((min (int b) (int (length c) - 1) - int a + 1) mod 2 ^ 64) = min (Suc b) (length c) - a"
    if "a \<le> b" "a < length c" for a b
  proof -
    have "min (int b) (int (length c) - 1) - int a + 1 = int (min (Suc b) (length c) - a)" using that by (simp add: min_def)
    moreover have "int (min (Suc b) (length c) - a) mod 2 ^ 64 = int (min (Suc b) (length c) - a)" using assms(2) by simp
    ultimately show ?thesis by simp
  qed
  moreover have "take (min (Suc b) (length c) - a) (drop a c) = take (Suc b - a) (drop a c)" for a b
    by (simp add: min_def)
  ultimately show "take (snd (http_part (asked name rng) (length c))) (drop (nat (fst (http_part (asked name rng) (length c)))) c) = asked_bytes rng c"
    using assms(1) by (auto simp: asked_bytes_def http_part_def asked_def rng_ok_def zero_http_peer_def max_absorb2 split: option.splits)
  show "0 \<le> fst (http_part (asked name rng) (length c))"
    by (auto simp: http_part_def asked_def zero_http_peer_def split: option.splits)
qed

lemma asked_url:
  assumes "url_ok name"
  shows "cstr (hp_url (asked name rng)) = name" "hp_type (asked name rng) = HTTP_GET"
proof -
  obtain k where "1024 - length name = Suc k" using assms by (cases "1024 - length name") (auto simp: url_ok_def)
  then show "cstr (hp_url (asked name rng)) = name"
    using assms by (simp add: asked_def url_ok_def cstr_append) (simp add: cstr_def)
qed (simp add: asked_def zero_http_peer_def)

text \<open>The answer is put behind what is still to be sent.\<close>

lemma set_data_sends:
  assumes "alloc_ok (ew_alloc w)" and "0 < ew_ibs w" and "send_wf l fd"
  obtains m where "set_client_data w fd bs l = Some (set_conn fd ((el_conn l fd)\<lparr>c_send_buff := m\<rparr>) l)"
    and "buff_wf m" and "buff_bytes m = buff_bytes (c_send_buff (el_conn l fd)) @ bs" and "mb_fd m = sending l fd"
    and "0 \<le> mb_foffset m"
  using setdata_cases [OF assms(1,2), of "c_send_buff (el_conn l fd)" bs] assms(3)
  by (auto simp: send_wf_def set_client_data_def sending_def)

lemma request_served:
  assumes "alloc_ok (ew_alloc (hw_loop w))" and "0 < ew_ibs (hw_loop w)" and "send_wf l fd" and "sending l fd < 0"
    and "url_ok name" and "hw_open w (''./'' @ name) = Some c" and "0 < ew_newfd (hw_loop w) (el_open l)"
    and "rng_ok rng (length c)" and "length c < 2 ^ 63"
  shows "\<exists>l'. handle_request w fd (asked name rng) l = Some l' \<and> send_wf l' fd \<and>
    to_send l' fd = to_send l fd @ str_bytes (http_header (length c)) @ asked_bytes rng c"
proof -
  let ?f = "ew_newfd (hw_loop w) (el_open l)" let ?l = "open_fd ?f c l"
  have w: "send_wf ?l fd" "el_conn ?l fd = el_conn l fd" using assms(3) by (simp_all add: send_wf_def el_simps)
  obtain bs where bs: "bs = str_bytes (http_header (length c))" by blast
  obtain m where m0: "set_client_data (hw_loop w) fd bs ?l = Some (set_conn fd ((el_conn ?l fd)\<lparr>c_send_buff := m\<rparr>) ?l)"
    "buff_wf m" "buff_bytes m = buff_bytes (c_send_buff (el_conn ?l fd)) @ bs" "mb_fd m = sending ?l fd"
    by (rule set_data_sends [OF assms(1,2) w(1)])
  have m: "set_client_data (hw_loop w) fd bs ?l = Some (set_conn fd ((el_conn l fd)\<lparr>c_send_buff := m\<rparr>) ?l)"
    "buff_wf m" "buff_bytes m = buff_bytes (c_send_buff (el_conn l fd)) @ bs" "mb_fd m < 0"
    using m0 assms(4) unfolding w(2) slot_simps(6) by simp_all
  let ?p = "http_part (asked name rng) (length c)"
  let ?l1 = "set_conn fd ((el_conn l fd)\<lparr>c_send_buff := m\<rparr>) ?l"
  let ?l' = "set_client_fd fd ?f (fst ?p) (snd ?p) ?l1"
  have h: "handle_request w fd (asked name rng) l = Some ?l'"
    unfolding handle_request_def asked_url(1) [OF assms(5)] assms(6) option.case Let_def bs [symmetric] m(1)
    using assms(7) asked_url(2) [OF assms(5)] by simp
  obtain m1 where m1: "m1 = m\<lparr>mb_fd := ?f, mb_foffset := fst ?p, mb_flen := snd ?p\<rparr>" by blast
  have b: "c_send_buff (el_conn ?l' fd) = m1" "el_wire ?l' = el_wire l" "el_file ?l' = (el_file l)(?f := c)"
    by (simp_all add: m1 set_client_fd_def mybuff_setfile_def Let_def el_simps open_fd_def)
  have bb: "buff_bytes m1 = buff_bytes m" "buff_wf m1" "mb_fd m1 = ?f" "mb_foffset m1 = fst ?p" "mb_flen m1 = snd ?p"
    using m(2) assms(7) by (simp_all add: m1 buff_bytes_def buff_wf_def split: option.splits)
  note p = asked_part [OF assms(8,9), of name]
  have f: "file_part ?l' m1 = asked_bytes rng c" using assms(7) p(2) by (simp add: file_part_def bb(3-5) b(3))
  have "file_part l (c_send_buff (el_conn l fd)) = []" using assms(4) by (simp add: file_part_def sending_def)
  then have "to_send ?l' fd = to_send l fd @ str_bytes (http_header (length c)) @ asked_bytes rng c"
    unfolding to_send_unfold b(1,2) f bb(1) m(3) bs by (simp only: append_assoc append_Nil append_Nil2)
  moreover have "send_wf ?l' fd" using p(1) by (simp add: send_wf_def b(1) bb(2,4))
  ultimately show ?thesis using h by blast
qed

section \<open>A request and its answer\<close>

lemma to_send_same:
  assumes "el_wire l' = el_wire l" and "el_file l' = el_file l" and "c_send_buff (el_conn l' fd) = c_send_buff (el_conn l fd)"
  shows "to_send l' fd = to_send l fd" "send_wf l' fd = send_wf l fd"
  using assms by (simp_all add: to_send_unfold send_wf_def file_part_def)

lemma http_close_same:
  "to_send (do_close (http_lib w) ew f l) fd = to_send l fd" "send_wf (do_close (http_lib w) ew f l) fd = send_wf l fd"
  by (rule to_send_same; simp add: do_close_def http_lib_def Let_def el_simps epoll_del_def)+

lemma modify_same: "to_send (modify_fd_event f ev l) fd = to_send l fd" "send_wf (modify_fd_event f ev l) fd = send_wf l fd"
  by (rule to_send_same; simp add: el_simps)+

lemma http_loop_send_same:
  assumes "send_wf l fd" and "loop_send (http_lib w) ew rs fd l = Some l'"
  shows "to_send l' fd = to_send l fd \<and> send_wf l' fd"
proof (cases "c_fd (el_conn l fd) < 0")
  case False
  then obtain ret n l1 where p: "send_part rs fd l = Some (ret, n, l1)" using assms(2) by (auto simp: loop_send_def split: option.splits)
  note s = send_part_same [OF assms(1) p]
  have "l' = do_close (http_lib w) ew fd l1 \<or> (\<exists>ev. l' = modify_fd_event fd ev l1) \<or> (\<exists>ev. l' = do_close (http_lib w) ew fd (modify_fd_event fd ev l1))"
    using assms(2) False p by (auto simp: loop_send_def Let_def http_lib_def http_send_def split: if_splits)
  then show ?thesis using s by (auto simp: http_close_same modify_same)
qed (use assms in \<open>simp add: loop_send_def\<close>)

text \<open>The socket becomes writable again and again.\<close>

fun http_sends :: "hworld \<Rightarrow> int \<Rightarrow> send_res list list \<Rightarrow> http_state evloop \<Rightarrow> http_state evloop option" where
  "http_sends w fd [] l = Some l"
| "http_sends w fd (rs # rss) l = Option.bind (loop_send (http_lib w) (hw_loop w) rs fd l) (http_sends w fd rss)"

lemma http_sends_same:
  "send_wf l fd \<Longrightarrow> http_sends w fd rss l = Some l' \<Longrightarrow> to_send l' fd = to_send l fd \<and> send_wf l' fd"
proof (induction rss arbitrary: l)
  case (Cons rs rss)
  obtain l1 where l1: "loop_send (http_lib w) (hw_loop w) rs fd l = Some l1" "http_sends w fd rss l1 = Some l'"
    using Cons.prems(2) by (auto simp: bind_eq_Some_conv)
  show ?case using http_loop_send_same [OF Cons.prems(1) l1(1)] Cons.IH [OF _ l1(2)] by simp
qed simp

lemma http_recv_serves:
  assumes "kernel_ok (hw_loop w)" and "alloc_ok (ew_alloc (hw_loop w))" and "0 < ew_ibs (hw_loop w)"
    and "finite (el_open l)" and "0 \<in> el_open l" and "send_wf l fd" and "sending l fd < 0" and "el_user l fd = Some zero_http_peer"
    and "buff_wf (c_recv_buff (el_conn l fd))" and "buff_bytes (c_recv_buff (el_conn l fd)) = str_bytes (http_request name rng)"
    and "url_ok name" and "cstr (bytes_str (hw_behind w)) = []" and "hw_open w (''./'' @ name) = Some c"
    and "rng_ok rng (length c)" and "length c < 2 ^ 63"
  shows "\<exists>l'. http_recv w fd l = Some (RECV_SEND, l') \<and> send_wf l' fd \<and>
    to_send l' fd = to_send l fd @ str_bytes (http_header (length c)) @ asked_bytes rng c"
proof -
  let ?l = "l\<lparr>el_user := (el_user l)(fd \<mapsto> asked name rng)\<rparr>"
  have ne: "http_request name rng \<noteq> []" by (simp add: http_request_def)
  have g: "get_client_data fd l = Some (str_bytes (http_request name rng))"
    using getdata_bytes [OF assms(9)] assms(10) ne by (simp add: get_client_data_def str_bytes_def)
  have f: "0 < ew_newfd (hw_loop w) (el_open ?l)"
  proof -
    have "0 \<le> ew_newfd (hw_loop w) (el_open l)" "ew_newfd (hw_loop w) (el_open l) \<notin> el_open l"
      using assms(1,4) by (simp_all add: kernel_ok_def)
    then show ?thesis using assms(5) by (cases "ew_newfd (hw_loop w) (el_open l) = 0") auto
  qed
  have "send_wf ?l fd" "sending ?l fd < 0" using assms(6,7) by (simp_all add: send_wf_def sending_def)
  then obtain l1 where l1: "handle_request w fd (asked name rng) ?l = Some l1" "send_wf l1 fd"
    "to_send l1 fd = to_send ?l fd @ str_bytes (http_header (length c)) @ asked_bytes rng c"
    using request_served [OF assms(2,3) _ _ assms(11,13) f assms(14,15)] by blast
  have s: "to_send ?l fd = to_send l fd" by (rule to_send_same) simp_all
  have "http_recv w fd l = Some (RECV_SEND, consume_client_data fd (length (http_request name rng)) l1)"
    using ne by (simp add: http_recv_def g assms(8) check_plain_request [OF assms(11,12)] Let_def l1(1))
  moreover have "to_send (consume_client_data fd k l1) fd = to_send l1 fd" "send_wf (consume_client_data fd k l1) fd = send_wf l1 fd" for k
    by (rule to_send_same; simp add: consume_client_data_def el_simps)+
  ultimately show ?thesis using l1(2,3) s by auto
qed

lemma loop_serves:
  assumes "kernel_ok (hw_loop w)" and "alloc_ok (ew_alloc (hw_loop w))" and "0 < ew_ibs (hw_loop w)"
    and "cstr (bytes_str (hw_behind w)) = []" and "finite (el_open l)" and "0 \<in> el_open l" and "0 \<le> c_fd (el_conn l fd)"
    and "send_wf l fd" and "sending l fd < 0" and "el_user l fd = Some zero_http_peer"
    and "recv_in (ew_alloc (hw_loop w)) (ew_ibs (hw_loop w)) rs (c_recv_buff (el_conn l fd)) = Some (False, m)"
    and "buff_wf m" and "buff_bytes m = str_bytes (http_request name rng)"
    and "url_ok name" and "hw_open w (''./'' @ name) = Some c" and "rng_ok rng (length c)" and "length c < 2 ^ 63"
  obtains l1 where "loop_recv (http_lib w) (hw_loop w) rs ss fd l = loop_send (http_lib w) (hw_loop w) ss fd l1" and "send_wf l1 fd"
    and "to_send l1 fd = to_send l fd @ str_bytes (http_header (length c)) @ asked_bytes rng c"
proof -
  let ?l1 = "set_conn fd ((el_conn l fd)\<lparr>c_recv_buff := m\<rparr>) l"
  obtain l2 where l2: "l2 = (if ends_again (ew_ibs (hw_loop w)) rs then modify_fd_event fd EPOLLIN ?l1 else ?l1)" by blast
  have u: "el_user (modify_fd_event fd ev l) = el_user l" for ev and l :: "http_state evloop"
    by (simp add: modify_fd_event_def epoll_mod_def)
  have o: "el_open l2 = el_open l" "el_conn l2 fd = (el_conn l fd)\<lparr>c_recv_buff := m\<rparr>" "el_wire l2 = el_wire l" "el_file l2 = el_file l"
    by (simp_all add: l2 el_simps)
  have "el_user l2 = el_user l" by (simp add: l2 u) (simp add: set_conn_def)
  then have us: "el_user l2 fd = Some zero_http_peer" using assms(10) by simp
  have s: "to_send l2 fd = to_send l fd" "send_wf l2 fd = send_wf l fd" by (rule to_send_same; simp add: o)+
  have c: "send_wf l2 fd" "sending l2 fd < 0" "buff_wf (c_recv_buff (el_conn l2 fd))"
    "buff_bytes (c_recv_buff (el_conn l2 fd)) = str_bytes (http_request name rng)" "finite (el_open l2)" "0 \<in> el_open l2"
    using assms(5,6,8,9,12,13) by (simp_all add: s(2) sending_def o)
  obtain l3 where l3: "http_recv w fd l2 = Some (RECV_SEND, l3)" "send_wf l3 fd"
    "to_send l3 fd = to_send l2 fd @ str_bytes (http_header (length c)) @ asked_bytes rng c"
    using http_recv_serves [OF assms(1-3) c(5,6,1,2) us c(3,4) assms(14,4,15-17)] by blast
  have "loop_recv (http_lib w) (hw_loop w) rs ss fd l = loop_send (http_lib w) (hw_loop w) ss fd l3"
    using assms(7) l3(1)
    by (simp add: loop_recv_def assms(11) Let_def l2 [symmetric] http_lib_def after_recv_def recv_action_def recv_flag_defs)
  moreover have "to_send l3 fd = to_send l fd @ str_bytes (http_header (length c)) @ asked_bytes rng c" using l3(3) s(1) by simp
  ultimately show thesis using l3(2) that by blast
qed

section \<open>Where the code goes wrong\<close>

text \<open>A range without an end gets a single byte.\<close>

lemma open_range_is_one_byte:
  assumes "a < n" and "n < 2 ^ 63"
  shows "http_part (get_range ('' HTTP/1.1'' @ http_crlf @ ''Range: bytes='' @ show_nat a @ ''-'' @ CRLF2) zero_http_peer) n = (int a, 1)"
proof -
  let ?t = "show_nat a @ CHR ''-'' # CRLF2"
  have f: "strstr (('' HTTP/1.1'' @ http_crlf) @ ''Range: bytes='' @ ?t) ''Range: bytes='' = Some 11"
    by (subst strstr_skip) (simp_all add: http_crlf_def)
  have d: "drop (11 + 13) (('' HTTP/1.1'' @ http_crlf) @ ''Range: bytes='' @ ?t) = ?t" by (simp add: http_crlf_def)
  have k: "strchr ?t (CHR ''-'') = Some (length (show_nat a))" by (rule strchr_append) (simp add: show_nat_notin)
  have x: "atoi ?t = int a" by (rule atoi_show_nat) simp
  have y: "atoi CRLF2 = 0" by code_simp
  have "get_range (('' HTTP/1.1'' @ http_crlf) @ ''Range: bytes='' @ ?t) zero_http_peer = zero_http_peer\<lparr>hp_range := True, hp_s := int a, hp_e := int a\<rparr>"
    unfolding get_range_def f option.case d Let_def k by (simp add: x y)
  then show ?thesis using assms by (simp add: http_part_def min_def)
qed

text \<open>A shorter name keeps the tail of the one asked for before on the connection.\<close>

lemma shorter_name_keeps_tail:
  assumes "url_ok b" and "length a \<le> length b" and "NUL \<notin> set a"
  shows "cstr (copy_url a (hp_url (asked b None))) = a @ drop (length a) b"
proof -
  obtain k where "1024 - length b = Suc k" using assms(1) by (cases "1024 - length b") (auto simp: url_ok_def)
  then have "hp_url (asked b None) = b @ NUL # replicate k NUL" by (simp add: asked_def)
  moreover have "NUL \<notin> set (drop (length a) b)" using assms(1) by (auto simp: url_ok_def dest: in_set_dropD)
  moreover have "cstr (NUL # replicate k NUL) = []" by (simp add: cstr_def)
  ultimately show ?thesis using assms(2,3) by (simp add: copy_url_def cstr_append)
qed

end
