(* ===== verification/LoopSamples.thy ===== *)
theory LoopSamples
  imports HttpFacts
begin

text \<open>A kernel that gives the number behind the largest one open, and a server with one file.\<close>

definition next_fd :: "int set \<Rightarrow> int" where "next_fd S = Max (insert 2 S) + 1"

definition sample_ew :: eworld where
  "sample_ew = \<lparr>ew_alloc = zero_alloc, ew_ibs = 64, ew_maxfds = 100, ew_newfd = next_fd, ew_peerip = (\<lambda>_. 0), ew_cktimeout = 5\<rparr>"

definition sample_hw :: hworld where
  "sample_hw = \<lparr>hw_loop = sample_ew, hw_malloc = True, hw_open = (\<lambda>n. if n = ''./f'' then Some [1, 2, 3] else None), hw_behind = []\<rparr>"

text \<open>One connection, on descriptor 3.\<close>

definition sample_web :: "http_state evloop" where
  "sample_web = add_fd_2_efd sample_ew 3 (loop_boot {0, 1, 2, 3} 0 (\<lambda>_. Some zero_http_peer))"

lemma sample_kernel_ok: "kernel_ok (hw_loop sample_hw)"
proof -
  have "0 \<le> next_fd S \<and> next_fd S \<notin> S" if "finite S" for S
  proof -
    have "\<forall>x\<in>insert 2 S. x \<le> Max (insert 2 S)" using that by simp
    then show ?thesis by (fastforce simp: next_fd_def)
  qed
  then show ?thesis by (simp add: kernel_ok_def sample_hw_def sample_ew_def)
qed

lemma sample_web_simps:
  "el_open sample_web = {0, 1, 2, 3}" "el_conn sample_web 3 = \<lparr>c_fd = 3, c_send_buff = mybuff_init, c_recv_buff = mybuff_init, c_send_len = 0\<rparr>"
  "el_user sample_web = (\<lambda>_. Some zero_http_peer)" "el_wire sample_web 3 = []" "el_epoll sample_web 3 \<noteq> None"
  by (simp_all add: sample_web_def add_fd_2_efd_def loop_boot_def mybuff_reinit_def mybuff_init_def Let_def el_simps sample_ew_def epoll_add_def)
    (simp_all add: close_fds_def set_conn_def)

lemma again_sends: "\<exists>l'. loop_send so w [SEagain] fd l = Some l'"
  by (auto simp: loop_send_def send_part_def send_data_def send_file_def send_outcome_def send_flag_defs Let_def
      split: option.splits prod.splits if_splits)

lemma sample_request_arrives:
  "\<exists>m. recv_in zero_alloc 64 [RData (str_bytes (http_request ''f'' (Some (1, 2))))] mybuff_init = Some (False, m) \<and> buff_wf m \<and>
     buff_bytes m = str_bytes (http_request ''f'' (Some (1, 2)))"
proof -
  have n: "length (http_request ''f'' (Some (1, 2))) \<noteq> 64" by code_simp
  obtain m where "mybuff_setdata zero_alloc 64 (str_bytes (http_request ''f'' (Some (1, 2)))) mybuff_init = Some m" "buff_wf m"
    "buff_bytes m = buff_bytes mybuff_init @ str_bytes (http_request ''f'' (Some (1, 2)))"
    using setdata_cases [OF alloc_ok_zero _ buff_wf_init(1), of 64] by (metis zero_less_numeral)
  then show ?thesis using n by auto
qed

end
