(* ===== verification/Spec2Isabelle.thy ===== *)
theory Spec2Isabelle
  imports Prelude ListHead ListFamily VfsTypes Timer Protocol IPAddr IpConfig TimeStamp MyBuff Conn
    TmpStatus Codec MD5 TaskQueue Tracker TrackerRun FileFilter FileSys DelFile LocalFile Samples FileSamples
    PoolClient CsBase CsTask CsWork CsSig CsRun CsReach CsSync TmpLoad CsSamples
    MyConfig DataBase DataTask DataRun DataFile DataSamples
    FcsBase FcsTask FcsRun FcsReach FcsFacts FcsSamples
    VossBase VossFacts VossSamples
    ParsePara Maintain MaintFacts Agent AgentFacts AgentSamples
    EventLoop LoopFacts HttpPlugin HttpFacts LoopSamples
begin

text \<open>
  Verification of 56VFS, a daemon that distributes files between source machines (FCS),
  storage machines (CS) and the trackers that schedule the transfers.  All daemons are one
  program (\<open>src/network\<close>, \<open>src/lib\<close>): a task pool, a table of known machines, timers,
  stamps and connections shared by the plugins of the roles.

  How the theories correspond to the code:

  \<^item> \<open>Prelude\<close>: words, C strings, \<open>atoi\<close>, C remainder, list lemmas.
  \<^item> \<open>ListHead\<close>, \<open>ListFamily\<close>: \<open>lib/list.h\<close>.  The pointer code on a heap of next and
    previous pointers, the rings it keeps, and the abstraction of a set of rings to a
    family of lists.  The locale \<open>intrusive_lists\<close> is what the components rely on; it is
    interpreted by the families themselves and (\<open>ring_memory\<close>) by the pointer code.
  \<^item> \<open>VfsTypes\<close>: the records and enumerations of \<open>global.h\<close> and \<open>vfs_task.h\<close>; \<open>env\<close>, what
    the operating system answers during a call.
  \<^item> \<open>Protocol\<close>: \<open>lib/protocol.c\<close> and \<open>lib/pro_voss.c\<close>.  \<open>MyBuff\<close>: \<open>mybuff.c\<close>, a
    refinement of the locale \<open>byte_queue\<close>.  \<open>Conn\<close>: the receive loop of the plugins and
    \<open>do_recv\<close>, \<open>do_send\<close> of \<open>vfs_so.c\<close>, over the locale \<open>framing\<close>.
  \<^item> \<open>Codec\<close>: text helpers and hashes of \<open>lib\<close>.  \<open>IPAddr\<close>: \<open>lib/util_ip.c\<close>.
  \<^item> \<open>TaskQueue\<close>: \<open>vfs_task.c\<close>, with the locale \<open>fifo_pool\<close>.  \<open>TmpStatus\<close>: the saving of
    running tasks in \<open>vfs_tmp_status.c\<close>; \<open>TmpLoad\<close>: their recovery at the start.
  \<^item> \<open>IpConfig\<close>: \<open>vfs_init.c\<close>, the table of machines and directories.
  \<^item> \<open>Timer\<close>: \<open>vfs_timer.c\<close>.  \<open>TimeStamp\<close>: \<open>vfs_time_stamp.c\<close>, with the locale
    \<open>stamp_store\<close>.
  \<^item> \<open>MD5\<close>: \<open>lib/md5.c\<close> and the file digests of \<open>lib/util_misc.c\<close>, with the digest of the
    whole padded message as the reference.
  \<^item> \<open>FileSys\<close>: the calls of the file system.  \<open>FileFilter\<close>, \<open>DelFile\<close>, \<open>LocalFile\<close>:
    \<open>vfs_file_filter.c\<close>, \<open>vfs_del_file.c\<close>, \<open>vfs_localfile.c\<close>, the files a machine keeps.
  \<^item> \<open>Tracker\<close>: the plugin \<open>tracker/*.c\<close>, whose state extends the pool's; \<open>TrackerRun\<close>: its
    events as a step relation and the states it can reach.
  \<^item> \<open>CsBase\<close>, \<open>CsTask\<close>, \<open>CsWork\<close>, \<open>CsSig\<close>: the plugin \<open>cs/*.c\<close> of a storage machine:
    connections and the listing of a directory; tasks that come in, are passed on and
    answered; the rounds over the queues and the choice of what to synchronise; messages and
    periodic work.  \<open>CsRun\<close>: every operation keeps the invariant of the task pool;
    \<open>CsReach\<close>: its events, those of its thread and of other threads as a step relation.
    \<open>CsSync\<close>: the listing, where directories go, and what becomes of finished tasks.
  \<^item> \<open>PoolClient\<close>: the locale of a plugin whose state holds the task pool, with the invariant
    of the pool's users and the drain of a queue; the CS, the FCS and the data plugin interpret it.
  \<^item> \<open>DataBase\<close>, \<open>DataTask\<close>: the plugin \<open>data/*.c\<close> that moves the files: connections (through
    a proxy or not) and what is given back when they end; requests, the receiving and sending of
    a file, the round over the waiting tasks.  \<open>DataRun\<close>: its invariant and its events as a
    step relation; \<open>DataFile\<close>: what a transfer does to the file, piece by piece.
  \<^item> \<open>FcsBase\<close>, \<open>FcsTask\<close>: the plugin \<open>fcs/*.c\<close> of a source machine: connections, the listing
    of a directory and the notes of files being sent back; tasks for the trackers, messages, the
    events of \<open>inotify\<close> and the periodic work.  \<open>FcsRun\<close>, \<open>FcsReach\<close>: the invariant, every operation
    keeps it and loses no task, the events as a step relation.  \<open>FcsFacts\<close>: what a lost tracker
    leaves, the choice of a tracker, what a listing announces.
  \<^item> \<open>VossBase\<close>: the plugin \<open>voss/*.c\<close> of the VOSS master, which collects what the machines
    submit and passes an operator's commands on; \<open>VossFacts\<close>: submissions in any pieces, when its
    receive loop ends, publishing, whom a command reaches.
  \<^item> \<open>EventLoop\<close>: the loop of \<open>vfs_so.c\<close> that accepts, serves and closes the connections of the plugin it
    has loaded; \<open>LoopFacts\<close>: the locale \<open>plugin\<close>, what a plugin owes the loop, and that descriptors
    stay apart.  \<open>HttpPlugin\<close>: \<open>http/vfs_http.c\<close>; \<open>HttpFacts\<close>: it interprets the locale, and a request
    is answered with the bytes asked for.
  \<^item> \<open>MyConfig\<close>: \<open>lib/myconfig.c\<close>, the table of the configuration file and its reading.
  \<^item> \<open>ParsePara\<close>: \<open>parsepara.c\<close>, the text of a command as a list of named parameters, and what is
    written can be read.  \<open>Maintain\<close>: \<open>vfs_maintain.c\<close>, the commands of an operator, on a state that
    extends the pool's; \<open>MaintFacts\<close>: the tasks a command queues, the keys it may change.
  \<^item> \<open>Agent\<close>: \<open>vfs_agent.c\<close>, the thread that reports ended tasks to the VOSS master and obeys its
    commands; \<open>AgentFacts\<close>: each task is reported once, and the reports reach the master.
  \<^item> \<open>Samples\<close>, \<open>FileSamples\<close>, \<open>CsSamples\<close>, \<open>DataSamples\<close>, \<open>FcsSamples\<close>,
    \<open>VossSamples\<close>, \<open>AgentSamples\<close>, \<open>LoopSamples\<close>: small states on which the properties are instantiated.

  A function of the code is a function on the state of its component with the same name;
  a result code is a number, an out-parameter a further result, \<open>NULL\<close> is \<open>None\<close>.
  Machine integers that can wrap are words; times, counters and file offsets are
  integers.  System calls are arguments: \<open>env\<close> (clock, locks, one \<open>malloc\<close>, \<open>write\<close>),
  \<open>outside\<close> (configuration values, files, resolver), lists of socket results.  A lock is
  taken within each call; threads are not interleaved inside an operation.

  Fuel: \<open>svc_recv\<close> uses the number of buffered bytes and one more, since every message takes
  at least four bytes; \<open>check_task\<close> uses the length of its queue and one more for its
  first loop (its second is bounded in the code).  C28 and C3 show that it is enough.  The
  rounds of a storage machine over a queue (\<open>drain_all\<close>) use the length of the queue and one
  more; C11 shows it for the finished tasks.  The walk of an archive machine over its list
  and the receive loops of the VOSS master and the agent need not end and are partial functions;
  C39 and C18 say when the first two do.

  Not modelled: log output, the start of the process and its threads, the separate CDC tools and
  the vendored Redis client; of \<open>myconfig.c\<close> the call-backs of a reload.
\<close>

section \<open>The task pool and the tracker\<close>

text \<open>
  C1: the time-out sweep (\<open>do_timeout_task\<close>).  It takes exactly the overdue tasks off the
  queues it visits, keeps the order of the others and of every queue it does not visit,
  and appends the overdue ones, in the order it met them, to \<open>TASK_HOME\<close>; the pool stays
  well-formed and the counters stay right.
\<close>

theorem timeout_moves_exactly_overdue:
  assumes "pool_ok role s" and "counts_ok s" and "\<forall>q \<in> set (timeout_queues role). queue_open e q"
    and "\<not> lock_failed e (M_task TASK_HOME)" and "s' = do_timeout_task e role tmo s"
  shows "pool_ok role s' \<and> counts_ok s' \<and>
    (\<forall>q. q \<noteq> TASK_HOME \<longrightarrow> vfstask s' q =
       (if q \<in> set (timeout_queues role) then filter (\<lambda>t. \<not> overdue e tmo s t) (vfstask s q)
        else vfstask s q)) \<and>
    vfstask s' TASK_HOME =
      vfstask s TASK_HOME @ filter (overdue e tmo s) (concat (map (vfstask s) (timeout_queues role)))"
proof -
  have d: "distinct (timeout_queues role)" and "TASK_CLEAN \<notin> set (timeout_queues role)"
    by (auto simp: timeout_queues_def queue_defs)
  with assms(3) have "\<forall>q \<in> set (timeout_queues role). queue_open e q \<and> q \<noteq> TASK_CLEAN" by auto
  from sweep_all [OF assms(4,1,2) d this] show ?thesis unfolding assms(5) do_timeout_sweeps .
qed

lemma timeout_moves_exactly_overdue_witness:
  "vfstask (do_timeout_task calm ROLE_TRACKER 100 sample_pool) TASK_HOME = [3, 1]"
proof -
  have open_all: "\<forall>q \<in> set (timeout_queues ROLE_TRACKER). queue_open calm q"
    by (auto simp: timeout_queues_def queue_open_def valid_status_def queue_defs)
  have od: "overdue calm 100 sample_pool 1" "\<not> overdue calm 100 sample_pool 2"
    by (simp_all add: overdue_def calm_def sample_pool_def sample_tasks_def zero_tasklist_def
        zero_task_def zero_base_def over_defs)
  have qs: "concat (map sample_queues (timeout_queues ROLE_TRACKER)) = [1, 2]"
    by (simp add: timeout_queues_def upto_rec1 sample_queues_def queue_defs)
  show ?thesis
    using timeout_moves_exactly_overdue [OF sample_pool_ok(1,2) open_all lock_failed_calm(2) refl, of 100] od
    by (simp add: qs sample_pool_def)
qed

text \<open>
  C2: in every state the tracker can reach, whatever the peers send and the system
  answers, a task is on at most one queue, at most once, and carries that queue's number;
  it is on at most one peer's list; and a free or finished task is not among the running.
\<close>

theorem tracker_tasks_in_one_place:
  assumes "reachable s"
  shows "(t \<in> set (vfstask s p) \<and> t \<in> set (vfstask s q) \<longrightarrow> p = q) \<and>
    (t \<in> set (vfstask s q) \<longrightarrow> tl_status (tasks s t) = q) \<and> distinct (vfstask s q) \<and>
    (t \<in> set (userl s fd) \<and> t \<in> set (userl s fd') \<longrightarrow> fd = fd') \<and>
    (t \<in> set (vfstask s TASK_HOME) \<union> set (vfstask s TASK_CLEAN) \<longrightarrow> \<not> running s t)"
  using tr_ok_places [OF reachable_tr_ok [OF assms]] by blast

lemma tracker_tasks_in_one_place_witness:
  "distinct (vfstask (react sample_world (Accept 5) (boot_state 0 sample_tmp sample_cfg)) TASK_HOME)"
proof -
  have "step (boot_state 0 sample_tmp sample_cfg) (react sample_world (Accept 5) (boot_state 0 sample_tmp sample_cfg))"
    by (rule event) (simp add: may_answer_def)
  then have "reachable (react sample_world (Accept 5) (boot_state 0 sample_tmp sample_cfg))"
    by (rule run [OF boot])
  from tracker_tasks_in_one_place [OF this, of 0 0 TASK_HOME 0 0] show ?thesis by blast
qed

text \<open>
  C3: the tracker's worker (\<open>check_task\<close>) loses no task.  The tasks that waited, first
  those of \<open>TASK_WAIT\<close> and then those of \<open>TASK_WAIT_SYNC\<close>, are taken in order up to the
  limit; each of them ends in \<open>TASK_RUN\<close> and in the table of running tasks, or in
  \<open>TASK_WAIT_SYNC\<close>; the rest still wait.
\<close>

theorem worker_loses_no_task:
  assumes "queues_ok s" and "calm_world w" and "s' = check_task w s"
  shows "\<exists>ds us. take (tw_max_run w) (vfstask s TASK_WAIT @ vfstask s TASK_WAIT_SYNC) \<in> shuffles ds us \<and>
     vfstask s' TASK_WAIT = drop (tw_max_run w) (vfstask s TASK_WAIT @ vfstask s TASK_WAIT_SYNC) \<and>
     vfstask s' TASK_RUN = vfstask s TASK_RUN @ ds \<and> vfstask s' TASK_WAIT_SYNC = us \<and>
     (\<forall>t \<in> set ds. running s' t)"
proof -
  let ?r = "requeue_wait_sync (Suc (length (vfstask s TASK_WAIT_SYNC))) (tw_env w) s"
  have op: "queue_open (tw_env w) TASK_WAIT_SYNC" "queue_open (tw_env w) TASK_WAIT"
    using assms(2) by (simp_all add: calm_world_def)
  have v: "vfstask ?r = (vfstask s)(TASK_WAIT_SYNC := [], TASK_WAIT := vfstask s TASK_WAIT @ vfstask s TASK_WAIT_SYNC)"
    by (rule requeue_all [OF assms(1) op]) simp
  have ne: "TASK_WAIT_SYNC \<noteq> TASK_WAIT" "TASK_RUN \<noteq> TASK_WAIT" "TASK_RUN \<noteq> TASK_WAIT_SYNC"
    by (simp_all add: queue_defs)
  have "queues_ok ?r" by (rule requeue_queues_ok [OF assms(1)])
  from run_wait_worked [OF this assms(2), of "tw_max_run w"] show ?thesis
    unfolding assms(3) check_task_def worked_def v using ne by auto
qed

lemma worker_loses_no_task_witness:
  "\<exists>ds us. take 16 (vfstask sample_tracker TASK_WAIT @ vfstask sample_tracker TASK_WAIT_SYNC) \<in> shuffles ds us \<and>
     vfstask (check_task sample_world sample_tracker) TASK_WAIT_SYNC = us \<and>
     vfstask (check_task sample_world sample_tracker) TASK_RUN = [1, 2] @ ds"
proof -
  note sample_tracker_queues_ok
  moreover have "calm_world sample_world"
    by (simp add: calm_world_def queue_open_def sample_world_def valid_status_def queue_defs)
  moreover have "vfstask sample_tracker TASK_RUN = [1, 2]" "tw_max_run sample_world = 16"
    by (simp_all add: sample_tracker_def task_state.defs sample_pool_def sample_world_def)
  ultimately show ?thesis
    using worker_loses_no_task [of sample_tracker sample_world, OF _ _ refl] by auto
qed

text \<open>
  C4: a dispatched task (\<open>do_dispatch\<close>, \<open>get_a_good_ip\<close>) goes to a connected machine that
  serves its directory for its operator and is not off line; no eligible machine at an
  address other than the one tried last has fewer tasks.  The chosen peer is sent the
  task with the new address and retry count, and is charged for it.
\<close>

theorem dispatch_to_least_loaded:
  assumes "get_cs_info_by_path (tw_env w) (tb_filename (tbase s t)) (cfg s) = Some cs"
    and "\<forall>i < cd_index cs. cd_ip cs i \<noteq> 0" and "do_dispatch w t s = (0, s')"
  shows "\<exists>k fd. k < cd_index cs \<and> eligible w cs (tsub s t) s k = Some fd \<and>
     (\<forall>i fd'. i < cd_index cs \<longrightarrow> eligible w cs (tsub s t) s i = Some fd' \<longrightarrow>
        cd_ip cs i \<noteq> tb_dstip (tbase s t) \<longrightarrow> load s fd \<le> load s fd') \<and>
     tbase s' t = (tbase s t)\<lparr>tb_dstip := cd_ip cs k, tb_retry := tb_retry (tbase s t) + 1\<rparr> \<and>
     load s' fd = load s fd + 1 \<and> userl s' = lf_add_head t fd (lf_del t (userl s)) \<and>
     sent s' = sent s @ [(fd, create_sig_msg NEWTASK_REQ TASK_START (bytes_of (tw_abi w) (tbase s' t))
                                (sizeof_base (tw_abi w)))]"
  using dispatch_sends [OF assms] unfolding sent_to_def .

lemma dispatch_to_least_loaded_witness:
  "\<exists>s'. do_dispatch sample_world 1 sample_tracker = (0, s') \<and> load s' 5 = 1 \<and> userl s' 5 = [1]"
proof -
  let ?w = sample_world and ?s = sample_tracker
  have b: "bucket_of 1 = 1" by (simp add: bucket_of_def)
  have path: "get_dir1_dir2 ''/a/1/2/f'' = Some (1, 2)"
    by code_simp
  have cs: "get_cs_info_by_path (tw_env ?w) (tb_filename (tbase ?s 1)) (cfg ?s) = Some sample_cs"
    using path by (simp add: get_cs_info_by_path_def get_cs_info_def sample_world_def sample_tracker_def
        task_state.defs tracker_state.defs zero_tasklist_def zero_task_def zero_base_def)
  have find: "find_ip_stat 1 ?s = Some (Peer 5)"
    by (simp add: find_ip_online b sample_tracker_def task_state.defs tracker_state.defs)
  have el: "eligible ?w sample_cs (tsub ?s 1) ?s 0 = Some 5"
    using find by (simp add: eligible_def sample_cs_def get_ip_info_by_uint_def get_cfg_lock_def b
        ip_matches_def sample_world_def isp_defs Let_def)
      (simp add: sample_tracker_def task_state.defs tracker_state.defs zero_ipinfo_def zero_tasklist_def
        zero_task_def zero_sub_def isp_defs)
  have good: "get_a_good_ip ?w sample_cs (tl_task (tasks ?s 1)) ?s = 1"
    using el by (simp add: get_a_good_ip_def good_ip_step_def sample_cs_def)
  have "\<exists>s'. do_dispatch ?w 1 ?s = (0, s')"
    using cs good find by (simp add: do_dispatch_def Let_def)
  then obtain s' where d: "do_dispatch ?w 1 ?s = (0, s')" by blast
  have "\<forall>i < cd_index sample_cs. cd_ip sample_cs i \<noteq> 0" by (simp add: sample_cs_def)
  from dispatch_to_least_loaded [OF cs this d] el have "load s' 5 = load ?s 5 + 1"
    "userl s' = lf_add_head 1 5 (lf_del 1 (userl ?s))" by (auto simp: sample_cs_def)
  with d show ?thesis
    by (simp add: load_def sample_tracker_def task_state.defs tracker_state.defs zero_peer_def sample_pool_def)
qed

text \<open>
  C5: what a machine's answer does to a running task (\<open>update_task\<close>).  The task leaves the
  table; when the machine failed for another reason than a missing source file and fewer
  than two attempts were made it waits again, otherwise it is finished.
\<close>

theorem answer_requeues_or_finishes:
  assumes "get_task_from_alltask (tw_env w) ROLE_TRACKER (base_of (tw_abi w) b) (answer_sub s fd) s = (0, Some t, s1)"
    and "queue_open (tw_env w) TASK_WAIT" and "queue_open (tw_env w) TASK_CLEAN"
    and "s' = snd (update_task w fd b s)"
  shows "\<not> running s' t \<and>
    (t \<in> set (vfstask s' q) \<longleftrightarrow>
       q = (if tb_overstatus (base_of (tw_abi w) b) \<noteq> OVER_OK
               \<and> tb_overstatus (base_of (tw_abi w) b) \<noteq> OVER_E_OPEN_SRCFILE
               \<and> sint (tb_retry (tbase s t)) < 2 then TASK_WAIT else TASK_CLEAN))"
  using update_task_result [OF assms(1-3)] by (simp add: assms(4) retry_wanted_def)

lemma answer_requeues_or_finishes_witness:
  "\<exists>s'. s' = snd (update_task sample_world 5 [2] (snd (add_task_to_alltask calm ROLE_TRACKER 1 sample_tracker))) \<and>
     1 \<in> set (vfstask s' TASK_WAIT) \<and> 1 \<notin> set (vfstask s' TASK_RUN)"
proof -
  let ?s = "snd (add_task_to_alltask calm ROLE_TRACKER 1 sample_tracker)"
  let ?base = "base_of (tw_abi sample_world) [2]" and ?sub = "answer_sub ?s 5"
  have bk: "bucket ROLE_TRACKER ?base ?sub = bucket ROLE_TRACKER (tbase sample_tracker 1) (tsub sample_tracker 1)"
    and same: "same_task ROLE_TRACKER ?base ?sub ?s 1" and ot: "tb_overstatus ?base = 2" and rt: "tb_retry (tbase ?s 1) = 0"
    by (simp_all add: bucket_def get_vfs_task_hash_def hash_text_def same_task_def answer_sub_def
        sample_world_def sample_abi_def sample_tracker_def task_state.defs tracker_state.defs zero_peer_def
        zero_tasklist_def zero_task_def zero_base_def zero_sub_def add_task_to_alltask_def Let_def)
  have "alltask ?s (bucket ROLE_TRACKER ?base ?sub) = [1]"
    unfolding bk by (simp add: add_task_to_alltask_def Let_def)
      (simp add: sample_tracker_def task_state.defs sample_pool_def)
  then have "get_task_from_alltask calm ROLE_TRACKER ?base ?sub ?s = (0, Some 1, ?s\<lparr>alltask := lf_del 1 (alltask ?s)\<rparr>)"
    using same by (simp add: get_task_from_alltask_def)
  then have g: "get_task_from_alltask (tw_env sample_world) ROLE_TRACKER ?base ?sub ?s
      = (0, Some 1, ?s\<lparr>alltask := lf_del 1 (alltask ?s)\<rparr>)" by (simp add: sample_world_def)
  have op: "queue_open (tw_env sample_world) TASK_WAIT" "queue_open (tw_env sample_world) TASK_CLEAN"
    by (simp_all add: queue_open_def sample_world_def valid_status_def queue_defs)
  note r = answer_requeues_or_finishes [OF g op refl]
  show ?thesis
    using r [of TASK_WAIT] r [of TASK_RUN] ot rt by (simp add: over_defs) (simp add: queue_defs)
qed


definition count_messages :: "t_vfs_sig_head \<Rightarrow> byte list \<Rightarrow> nat \<Rightarrow> int \<times> nat" where
  "count_messages h b n = (RECV_ADD_EPOLLIN, Suc n)"


text \<open>
  C28: one call of the receive loop on a buffer that holds whole messages and the start of
  another: it returns, calls the handler on the messages one by one until the handler ends
  it, answers with the union of the handler's flags, and leaves the rest in the buffer.
\<close>

theorem receive_loop_dispatches:
  assumes "buff_wf m" and "buff_bytes m = concat (map sig_enc ms) @ tail"
    and "\<forall>x \<in> set ms. sig_valid x" and "unfinished tail"
    and "dispatch handler ms RECV_ADD_EPOLLIN s = (ret, rest, s')"
  shows "\<exists>m'. svc_recv handler m s = Some (ret, m', s') \<and> buff_wf m' \<and>
    buff_bytes m' = concat (map sig_enc rest) @ tail"
  using svc_recv_dispatch [OF assms(1-4), of handler s] assms(5) by auto

lemma receive_loop_dispatches_witness:
  "\<exists>m'. svc_recv count_messages (mybuff_init\<lparr>mb_data := Some [0, 0, 7, 1, 0, 0], mb_size := 6, mb_len := 5\<rparr>) 0
     = Some (2, m', 1) \<and> buff_bytes m' = [0]"
proof -
  let ?b = "mybuff_init\<lparr>mb_data := Some [0, 0, 7, 1, 0, 0 :: byte], mb_size := 6, mb_len := 5\<rparr>"
  let ?m = "(\<lparr>h_bodylen = 0, h_cmdid = 7, h_status = 1\<rparr>, []) :: sig_msg"
  have v: "sig_valid ?m" by (simp add: sig_valid_def MAX_SIG_BODY_def)
  have e: "sig_enc ?m = [0, 0, 7, 1]"
    by (simp add: sig_enc_def create_sig_msg_def le16_def htons_def of_le16_def)
  have "0 < length (sig_enc ?m)" "[0] = take 1 (sig_enc ?m)" by (simp_all add: e)
  then have u: "unfinished [0]" using v e unfolding unfinished_def sig.partial_def by force
  have w: "buff_wf ?b" "buff_bytes ?b = concat (map sig_enc [?m]) @ [0]"
    by (simp_all add: buff_wf_def buff_bytes_def mybuff_init_def e)
  have d: "dispatch count_messages [?m] RECV_ADD_EPOLLIN 0 = (2, [], 1)"
    by (simp add: count_messages_def recv_flag_defs)
  have v1: "\<forall>x \<in> set [?m]. sig_valid x" using v by simp
  from receive_loop_dispatches [OF w v1 u d] show ?thesis by auto
qed

text \<open>
  C29: what \<open>create_sig_msg\<close> writes, \<open>parse_sig_msg\<close> reads back, whatever follows it, and
  the bytes of the body buffer behind the body stay.
\<close>

theorem sig_message_round_trip:
  assumes "sig_valid (h, b)" and "length buf = MAX_SIG_BODY"
  shows "parse_sig_msg h0 buf (create_sig_msg (h_cmdid h) (h_status h) b (h_bodylen h) @ r)
    = (E_PRO_OK, h, b @ drop (length b) buf)"
  using parse_create [OF assms, of h0 r] by (simp add: sig_enc_def)

lemma sig_message_round_trip_witness:
  "fst (snd (parse_sig_msg sig_zero_head sig_zero_body (create_sig_msg 3 2 [65, 66] 2 @ [9])))
    = \<lparr>h_bodylen = 2, h_cmdid = 3, h_status = 2\<rparr>"
proof -
  let ?h = "\<lparr>h_bodylen = 2, h_cmdid = 3, h_status = 2\<rparr>"
  have "sig_valid (?h, [65, 66])" by (simp add: sig_valid_def MAX_SIG_BODY_def)
  from sig_message_round_trip [OF this length_sig_zero_body, of sig_zero_head "[9]"] show ?thesis by simp
qed

text \<open>An incomplete message is never taken for a whole one, nor for a bad one.\<close>

theorem sig_prefix_is_incomplete:
  assumes "sig_valid m" and "k < length (sig_enc m)"
  shows "fst (parse_sig_msg h0 buf (take k (sig_enc m))) \<in> {E_PRO_HEAD_LEN, E_PRO_TOTAL_LEN}"
  by (rule parse_prefix [OF assms])

lemma sig_prefix_is_incomplete_witness:
  "fst (parse_sig_msg sig_zero_head [] (take 5 (sig_enc (\<lparr>h_bodylen = 2, h_cmdid = 3, h_status = 2\<rparr>, [65, 66]))))
    \<in> {E_PRO_HEAD_LEN, E_PRO_TOTAL_LEN}"
proof -
  let ?m = "(\<lparr>h_bodylen = 2, h_cmdid = 3, h_status = 2\<rparr>, [65, 66]) :: sig_msg"
  have v: "sig_valid ?m" by (simp add: sig_valid_def MAX_SIG_BODY_def)
  then have "5 < length (sig_enc ?m)" by (simp add: length_sig_enc SIG_HEADSIZE_def)
  with sig_prefix_is_incomplete [OF v, of 5] show ?thesis by blast
qed

text \<open>
  VOSS messages: \<open>parse_msg\<close> reads back what \<open>create_msg\<close> writes, the announced length
  is the number of bytes (modulo \<open>2 ^ 32\<close>), the body follows the header, and the
  sequence number goes up by one.
\<close>

theorem voss_message_round_trip:
  assumes "create_msg st cmdid inbuf (length inbuf) = ((out, outlen), st')"
  shows "outlen = length out \<and> st' = st + 1 \<and>
    parse_msg (out @ r) h0 = (0, \<lparr>v_totallen = word_of_nat (length out), v_cmdid = cmdid, v_seq = st\<rparr>) \<and>
    take (length inbuf) (drop HEADSIZE (out @ r)) = inbuf"
  using parse_create_msg [OF refl assms] by simp

lemma voss_message_round_trip_witness:
  "snd (parse_msg (fst (fst (create_msg 1 0x5050 [65] 1))) \<lparr>v_totallen = 0, v_cmdid = 0, v_seq = 0\<rparr>)
    = \<lparr>v_totallen = 13, v_cmdid = 0x5050, v_seq = 1\<rparr>"
proof -
  obtain out outlen st' where c: "create_msg 1 0x5050 [65] (length [65 :: byte]) = ((out, outlen), st')"
    by (metis surj_pair)
  then have "length out = 13"
    by (auto simp: create_msg_def getseq_def HEADSIZE_def Let_def)
  with voss_message_round_trip [OF c, of "[]"] c show ?thesis by simp
qed

section \<open>Buffers and sockets\<close>

text \<open>
  C30: the connection buffer (\<open>mybuff\<close>) is a queue of bytes: putting never fails when memory
  is there and appends; what is left after skipping is what was not skipped.
\<close>

theorem buffer_is_byte_queue:
  assumes "alloc_ok alloc" and "0 < ibs" and "buff_wf m"
  shows "\<exists>m'. mybuff_setdata alloc ibs data m = Some m' \<and> buff_wf m' \<and>
    mybuff_getdata (mybuff_skipdata n m') =
      (if length (buff_bytes m @ data) \<le> n then None else Some (drop n (buff_bytes m @ data)))"
proof -
  from setdata_cases [OF assms] obtain m' where m': "mybuff_setdata alloc ibs data m = Some m'" "buff_wf m'"
    "buff_bytes m' = buff_bytes m @ data" by blast
  then show ?thesis
    by (intro exI [of _ m']) (simp add: skipdata_wf getdata_bytes flip: length_append drop_append)
qed

lemma buffer_is_byte_queue_witness:
  "\<exists>m'. mybuff_setdata zero_alloc 2 [1, 2, 3] mybuff_init = Some m' \<and>
     mybuff_getdata (mybuff_skipdata 1 m') = Some [2, 3]"
  using buffer_is_byte_queue [OF alloc_ok_zero _ buff_wf_init(1), of 2 "[1, 2, 3]" 1] by auto

text \<open>
  Sending (\<open>send_data\<close>) keeps the order: what went out, followed by what is still
  buffered, is what was buffered; the descriptor is watched for input again only when
  everything is out; and the bytes sent are counted.
\<close>

theorem send_keeps_order:
  assumes "buff_wf (c_send_buff c)" and "send_data rs c = Some (ret, n, wire, c', rs')"
    and "\<forall>r \<in> set rs. send_ok (length (buff_bytes (c_send_buff c))) r"
  shows "buff_wf (c_send_buff c') \<and> wire @ buff_bytes (c_send_buff c') = buff_bytes (c_send_buff c) \<and>
    (ret = SEND_ADD_EPOLLIN \<longrightarrow> buff_bytes (c_send_buff c') = []) \<and>
    c_send_len c' = c_send_len c + int (length wire)"
  by (rule send_data_fifo [OF assms])

lemma send_keeps_order_witness:
  "\<exists>c'. send_data [SEintr, SSent 2] \<lparr>c_fd = 4, c_send_buff = mybuff_init\<lparr>mb_data := Some [1, 2, 3, 0],
       mb_size := 4, mb_len := 3\<rparr>, c_recv_buff = mybuff_init, c_send_len = 0\<rparr>
     = Some (SEND_ADD_EPOLLOUT, 2, [1, 2], c', []) \<and> buff_bytes (c_send_buff c') = [3]"
proof -
  let ?b = "mybuff_init\<lparr>mb_data := Some [1, 2, 3, 0 :: byte], mb_size := 4, mb_len := 3\<rparr>"
  let ?c = "\<lparr>c_fd = 4, c_send_buff = ?b, c_recv_buff = mybuff_init, c_send_len = 0\<rparr>"
  have w: "buff_wf ?b" "buff_bytes ?b = [1, 2, 3]" by (simp_all add: buff_wf_def buff_bytes_def mybuff_init_def)
  have "\<exists>c'. send_data [SEintr, SSent 2] ?c = Some (SEND_ADD_EPOLLOUT, 2, [1, 2], c', [])"
    using w by (simp add: send_data_def getdata_bytes send_outcome_def)
  then obtain c' where s: "send_data [SEintr, SSent 2] ?c = Some (SEND_ADD_EPOLLOUT, 2, [1, 2], c', [])" by blast
  have "\<forall>r \<in> set [SEintr, SSent 2]. send_ok (length (buff_bytes (c_send_buff ?c))) r"
    using w(2) by (simp add: send_ok_def)
  from send_keeps_order [OF _ s this] w s show ?thesis by auto
qed

section \<open>Queues, table and counters of the pool\<close>

text \<open>
  A status queue is first in, first out: tasks put on an empty queue with
  \<open>vfs_set_task\<close> come out of \<open>vfs_get_task\<close> in the order they went in.
\<close>

theorem queue_is_fifo:
  assumes "queues_ok s" and "queue_open e q" and "vfstask s q = []" and "distinct ts"
    and "\<forall>t \<in> set ts. lf_off t (vfstask s)" and "length ts \<le> k"
  shows "fst (take_many (vfs_get_task e) k q (foldl (\<lambda>s t. snd (vfs_set_task e t q s)) s ts)) = ts"
  by (rule tq.first_in_first_out [OF assms])

lemma queue_is_fifo_witness:
  "fst (take_many (vfs_get_task calm) 2 TASK_WAIT
     (foldl (\<lambda>s t. snd (vfs_set_task calm t TASK_WAIT s)) sample_pool [8, 9])) = [8, 9]"
proof -
  have q: "queue_open calm TASK_WAIT" by (simp add: queue_open_def valid_status_def queue_defs)
  have e: "vfstask sample_pool TASK_WAIT = []" by (simp add: sample_pool_def sample_queues_def queue_defs)
  have o: "\<forall>t \<in> set [8, 9 :: ptr]. lf_off t (vfstask sample_pool)"
    by (simp add: lf_off_def sample_pool_def sample_queues_def)
  show ?thesis
    by (rule queue_is_fifo [OF sample_pool_ok(3) q e _ o]) simp_all
qed

text \<open>
  After \<open>init_task_info\<close> the 2048 tasks of the block are all free, each once, the
  queues are well-formed and no task runs.
\<close>

theorem pool_starts_free:
  "queues_ok (init_task_info block s) \<and> counts_ok (init_task_info block s) \<and>
   (\<forall>q. vfstask (init_task_info block s) q =
      (if q = TASK_HOME then rev (map (\<lambda>i. block + i) [0..<2048]) else [])) \<and>
   (\<forall>t. \<not> running (init_task_info block s) t)"
  by (simp add: init_queues_ok init_counts_ok init_queues running_def POOL_def)

text \<open>
  C31: the pointer code implements the queues.  In a memory that holds the queue heads and
  the entries of the pool, the relinking of \<open>vfs_set_task\<close> (\<open>list_del_init\<close>, then
  \<open>list_add_tail\<close>) changes the contents as the model says: the task is at the tail of its
  new queue and on no other, every other queue keeps its entries in order.
\<close>

theorem relinking_in_memory:
  assumes "mem_ok queue_head {q. valid_status q} (pool_block b) h" and "t \<in> pool_block b" and "valid_status q"
    and "h' = list_add_tail t (queue_head q) (list_del_init t h)"
  shows "mem_ok queue_head {q. valid_status q} (pool_block b) h' \<and>
    mem_items queue_head {q. valid_status q} (pool_block b) h' =
      lf_add_tail t q (lf_del t (mem_items queue_head {q. valid_status q} (pool_block b) h))"
  using vm.rm.requeue_ok [of b h t q] vm.rm.requeue_items [of b h t q] assms
  by (auto simp: fun_eq_iff)

lemma relinking_in_memory_witness:
  "\<exists>h. mem_ok queue_head {q. valid_status q} (pool_block 1024) h \<and>
     mem_items queue_head {q. valid_status q} (pool_block 1024)
       (list_add_tail 1025 (queue_head TASK_RUN) (list_del_init 1025 h)) TASK_RUN = [1025]"
proof -
  let ?h = "list_heap.make (\<lambda>p. p) (\<lambda>p. p)"
  have "inj_on queue_head {q. valid_status q}" "queue_head ` {q. valid_status q} \<inter> pool_block 1024 = {}"
    by (auto simp: inj_on_def queue_head_def pool_block_def valid_status_def queue_defs)
  then have f: "family queue_head {q. valid_status q} (pool_block 1024) ?h (\<lambda>_. [])"
    by (simp add: family_def lf_wf_def ring_nil list_heap.defs)
  then have m: "mem_ok queue_head {q. valid_status q} (pool_block 1024) ?h"
    and i: "mem_items queue_head {q. valid_status q} (pool_block 1024) ?h = (\<lambda>_. [])"
    by (rule vm.mem_okI)+
  have t: "1025 \<in> pool_block 1024" by (force simp: pool_block_def POOL_def)
  have v: "valid_status TASK_RUN" by (simp add: valid_status_def queue_defs)
  from relinking_in_memory [OF m t v refl] m i show ?thesis by auto
qed

text \<open>
  Looking for a running task (\<open>check_task_from_alltask\<close>) in its one bucket of the table
  finds it exactly when a task for the same file, domain, kind (and operator, on a
  tracker) is anywhere in the table.
\<close>

theorem table_lookup_is_complete:
  assumes "table_ok role s" and "\<not> lock_failed e M_alltask"
  shows "check_task_from_alltask e role base sub s = 0 \<longleftrightarrow>
    (\<exists>t. running s t \<and> same_task role base sub s t)"
  using check_finds [OF assms] by simp

lemma table_lookup_is_complete_witness:
  "check_task_from_alltask calm ROLE_CS (tbase sample_pool 2) (tsub sample_pool 2)
     (snd (add_task_to_alltask calm ROLE_CS 2 sample_pool)) = 0"
proof -
  let ?s = "snd (add_task_to_alltask calm ROLE_CS 2 sample_pool)"
  have "table_ok ROLE_CS ?s" by (rule table_add [OF pool_okD(2) [OF sample_pool_ok(1)]])
  moreover have "running ?s 2" by (rule add_then_running) simp
  moreover have "same_task ROLE_CS (tbase sample_pool 2) (tsub sample_pool 2) ?s 2"
    by (simp add: same_task_def)
  ultimately show ?thesis using table_lookup_is_complete [of ROLE_CS ?s calm] by fastforce
qed

text \<open>
  Taking a running task out (\<open>get_task_from_alltask\<close>) gives a task with the wanted key,
  that is then no longer running; every other task stays, and the table stays right.
\<close>

theorem table_removal:
  assumes "table_ok role s" and "get_task_from_alltask e role base sub s = (r, Some t, s')"
  shows "r = 0 \<and> same_task role base sub s t \<and> running s t \<and> \<not> running s' t \<and> table_ok role s' \<and>
    (\<forall>u. u \<noteq> t \<longrightarrow> running s' u = running s u)"
  using get_takes [OF assms] by simp

lemma table_removal_witness:
  "\<exists>s'. get_task_from_alltask calm ROLE_CS (tbase sample_pool 2) (tsub sample_pool 2)
     (snd (add_task_to_alltask calm ROLE_CS 2 sample_pool)) = (0, Some 2, s') \<and> \<not> running s' 2"
proof -
  let ?s = "snd (add_task_to_alltask calm ROLE_CS 2 sample_pool)"
  have ok: "table_ok ROLE_CS ?s" by (rule table_add [OF pool_okD(2) [OF sample_pool_ok(1)]])
  have "alltask ?s (bucket ROLE_CS (tbase sample_pool 2) (tsub sample_pool 2)) = [2]"
    by (simp add: add_task_to_alltask_def Let_def) (simp add: sample_pool_def)
  then have g: "get_task_from_alltask calm ROLE_CS (tbase sample_pool 2) (tsub sample_pool 2) ?s
      = (0, Some 2, ?s\<lparr>alltask := lf_del 2 (alltask ?s)\<rparr>)"
    by (simp add: get_task_from_alltask_def same_task_def)
  with table_removal [OF ok g] show ?thesis by blast
qed

text \<open>
  \<open>vfs_get_task\<close> and, for a task that is on no queue, \<open>vfs_set_task\<close> keep every counter
  equal to the length of its queue (that of \<open>TASK_HOME\<close> stays 2048 behind, as
  \<open>init_task_info\<close> leaves it).
\<close>

theorem counters_follow_queues:
  assumes "queues_ok s" and "counts_ok s" and "lf_off u (vfstask s)"
  shows "counts_ok (snd (snd (vfs_get_task e q s))) \<and> counts_ok (snd (vfs_set_task e u p s))"
  using counts_get [OF assms(1,2), of e q] counts_set [OF assms(2,3), of e p]
  by (metis prod.collapse)

lemma counters_follow_queues_witness:
  "taskcount (snd (vfs_set_task calm 8 TASK_RUN sample_pool)) TASK_RUN = 3"
proof -
  have "lf_off 8 (vfstask sample_pool)" by (simp add: lf_off_def sample_pool_def sample_queues_def)
  from counters_follow_queues [OF sample_pool_ok(3,2) this, of calm TASK_RUN TASK_RUN]
  have "counts_ok (snd (vfs_set_task calm 8 TASK_RUN sample_pool))" by blast
  moreover have v: "valid_status TASK_RUN" by (simp add: valid_status_def queue_defs)
  have "vfstask (snd (vfs_set_task calm 8 TASK_RUN sample_pool)) TASK_RUN = removeAll 8 (vfstask sample_pool TASK_RUN) @ [8]"
    by (simp add: set_task_effect(2) [OF v lock_failed_calm(2)])
  ultimately have "taskcount (snd (vfs_set_task calm 8 TASK_RUN sample_pool)) TASK_RUN =
      int (length (removeAll 8 (vfstask sample_pool TASK_RUN) @ [8])) - home_surplus TASK_RUN"
    by (metis counts_ok_def)
  then show ?thesis by (simp add: sample_pool_def home_surplus_def) (simp add: queue_defs)
qed

text \<open>
  \<open>vfs_set_task\<close> on a task that is still on another queue moves it but leaves that
  queue's counter one too high, so the counters drift (the retry of \<open>update_task\<close> and
  \<open>refresh_cs_task\<close> call it so).
\<close>

theorem requeue_leaves_counter_behind:
  assumes "queues_ok s" and "counts_ok s" and "t \<in> set (vfstask s p)" and "p \<noteq> q"
    and "valid_status q" and "\<not> lock_failed e (M_task q)" and "s' = snd (vfs_set_task e t q s)"
  shows "taskcount s' p = int (length (vfstask s' p)) - home_surplus p + 1"
proof -
  have d: "distinct (vfstask s p)" using assms(1) by (simp add: queues_ok_def lf_wf_def)
  have "vfstask s p \<noteq> []" using assms(3) by auto
  then have "int (length (removeAll t (vfstask s p))) = int (length (vfstask s p)) - 1"
    using length_removeAll_distinct [OF d assms(3)] by (cases "vfstask s p") simp_all
  with assms(2,4) show ?thesis
    by (simp add: assms(7) set_task_effect [OF assms(5,6)] counts_ok_def)
qed

lemma requeue_leaves_counter_behind_witness:
  "taskcount (snd (vfs_set_task calm 1 TASK_WAIT sample_pool)) TASK_RUN = 2 \<and>
   vfstask (snd (vfs_set_task calm 1 TASK_WAIT sample_pool)) TASK_RUN = [2]"
proof -
  have v: "valid_status TASK_WAIT" and ne: "TASK_RUN \<noteq> TASK_WAIT" "TASK_RUN \<noteq> TASK_HOME"
    by (simp_all add: valid_status_def queue_defs)
  have m: "1 \<in> set (vfstask sample_pool TASK_RUN)" by (simp add: sample_pool_def)
  have l: "vfstask (snd (vfs_set_task calm 1 TASK_WAIT sample_pool)) TASK_RUN = [2]"
    using ne by (simp add: set_task_effect [OF v]) (simp add: sample_pool_def)
  from requeue_leaves_counter_behind [OF sample_pool_ok(3,2) m ne(1) v lock_failed_calm(2) refl] l ne(2)
  show ?thesis by (simp add: home_surplus_def)
qed

section \<open>Saved tasks\<close>

text \<open>
  Saving a task (\<open>set_task_to_tmp\<close>) takes a slot of the temporary status file that no
  other saved task uses, the record read back from it is the task (with a null \<open>user\<close>),
  and every other saved task can still be read back.
\<close>

theorem saved_task_is_kept:
  assumes "tmp_wf used s" and "tf_size s + sizeof_tasklist \<le> 2 ^ 31" and "e_write e"
    and "t_idletmp s = [] \<Longrightarrow> \<exists>p. e_malloc e = Some p \<and> p \<notin> used"
  shows "\<exists>p t' s'. set_task_to_tmp e t s = (0, t', s') \<and> ti_user (tl_task t') = Some p \<and> p \<notin> used \<and>
    tmp_wf (insert p used) s' \<and>
    tmp_saved garble s' p = Some (t\<lparr>tl_task := (tl_task t)\<lparr>ti_user := None\<rparr>\<rparr>) \<and>
    (\<forall>q \<in> used. tmp_saved garble s' q = tmp_saved garble s q)"
  by (rule set_task_to_tmp_saves [OF assms])

lemma saved_task_is_kept_witness:
  "\<exists>p t' s'. set_task_to_tmp (calm\<lparr>e_malloc := Some 9\<rparr>) (sample_tasks 2) sample_tmp = (0, t', s') \<and>
     tmp_saved (\<lambda>_. zero_tasklist) s' p = Some (sample_tasks 2) \<and> p \<noteq> 4"
proof -
  have w: "tmp_wf {4} sample_tmp"
    by (simp add: tmp_wf_def sample_tmp_def slot_in_def sizeof_tasklist_def)
  have "(sample_tasks 2)\<lparr>tl_task := (tl_task (sample_tasks 2))\<lparr>ti_user := None\<rparr>\<rparr> = sample_tasks 2"
    by (simp add: sample_tasks_def zero_tasklist_def zero_task_def)
  with saved_task_is_kept [OF w, of "calm\<lparr>e_malloc := Some 9\<rparr>" "sample_tasks 2" "\<lambda>_. zero_tasklist"]
  show ?thesis
    by (auto simp: sample_tmp_def sizeof_tasklist_def calm_def)
qed

text \<open>
  Giving a slot back (\<open>set_tmp_blank\<close>) blanks its record, makes the slot the next to be
  used and leaves the other saved tasks as they are.
\<close>

theorem released_slot_is_blank:
  assumes "tmp_wf used s" and "p \<in> used" and "tf_size s \<le> 2 ^ 31" and "e_write e"
    and "s' = set_tmp_blank e (t_pos s p) (Some p) s"
  shows "tmp_wf (used - {p}) s' \<and> t_idletmp s' = p # t_idletmp s \<and>
    tmp_saved garble s' p = Some zero_tasklist \<and>
    (\<forall>q \<in> used - {p}. tmp_saved garble s' q = tmp_saved garble s q)"
  using set_tmp_blank_frees(1-3) [OF assms(1-4)] by (simp add: assms(5) set_tmp_blank_frees(4) [OF assms(1-4)])

lemma released_slot_is_blank_witness:
  "t_idletmp (set_tmp_blank calm 0 (Some 4) sample_tmp) = [4]"
proof -
  have w: "tmp_wf {4} sample_tmp" and sz: "tf_size sample_tmp \<le> 2 ^ 31" and p: "t_pos sample_tmp 4 = 0"
    by (simp_all add: tmp_wf_def sample_tmp_def slot_in_def sizeof_tasklist_def)
  have e: "e_write calm" by (simp add: calm_def)
  show ?thesis
    using released_slot_is_blank [OF w _ sz e refl, of 4] unfolding p by (simp add: sample_tmp_def)
qed

section \<open>The table of machines\<close>



text \<open>
  A reload that fails keeps the writer lock: when the directory of the machine lists is
  not configured, \<open>reload_cfg\<close> answers -1 with the lock still held.
\<close>

theorem failed_reload_stays_locked:
  assumes "conf w ''iplist_cs_dir'' = []" and "\<not> lock_failed e M_cfg"
  shows "fst (reload_cfg e w s) = -1 \<and> wrlocked (snd (reload_cfg e w s))"
  by (simp add: reload_no_dir [OF assms])

lemma failed_reload_stays_locked_witness:
  "wrlocked (snd (reload_cfg calm sample_out sample_cfg))"
  using failed_reload_stays_locked [of sample_out calm sample_cfg] by (simp add: sample_out_def)

text \<open>
  Before the files are read again every entry of the table goes back to the free list:
  all buckets are empty, and the free list has exactly the entries that were linked.
\<close>

theorem reload_frees_every_entry:
  assumes "cfg_ok s"
  shows "hlists (release_all s) (Cfg i) = [] \<and>
    (q \<in> set (hlists (release_all s) IpHome) \<longleftrightarrow> (\<exists>h. q \<in> set (hlists s h)))"
  using release_all_empties [OF assms] by simp

lemma reload_frees_every_entry_witness:
  "hlists (release_all sample_cfg) (Cfg 3) = []"
  using reload_frees_every_entry [OF sample_cfg_ok, of 3] by simp

text \<open>
  Adding an unknown machine (\<open>add_ip_info\<close>) while an entry is free succeeds, makes its
  address known, and keeps every known address known.
\<close>

theorem added_machine_is_known:
  assumes "cfg_ok s" and "fst (get_ip_info e w (ii_sip i) False s) \<noteq> 0" and "hlists s IpHome \<noteq> []"
    and "(r, s') = add_ip_info e w i s"
  shows "r = 0 \<and> known s' (ii_ip i) \<and> (\<forall>ip. known s ip \<longrightarrow> known s' ip)"
  using add_ip_info_known [OF assms(1-3)] assms(4) by (metis fst_conv snd_conv)

lemma added_machine_is_known_witness:
  "known (snd (add_ip_info calm sample_out (zero_ipinfo\<lparr>ii_ip := 5, ii_sip := ''10.0.0.1''\<rparr>) sample_cfg)) 5"
proof -
  let ?i = "zero_ipinfo\<lparr>ii_ip := 5, ii_sip := ''10.0.0.1''\<rparr>"
  have "fst (get_ip_info calm sample_out (ii_sip ?i) False sample_cfg) \<noteq> 0"
    by (simp add: get_ip_info_def get_ip_info_by_uint_def sample_cfg_def split: prod.split)
  moreover have "hlists sample_cfg IpHome \<noteq> []" by (simp add: sample_cfg_def)
  ultimately show ?thesis
    using added_machine_is_known [OF sample_cfg_ok, of calm sample_out ?i
      "fst (add_ip_info calm sample_out ?i sample_cfg)" "snd (add_ip_info calm sample_out ?i sample_cfg)"]
    by simp
qed

text \<open>
  The directory of a file (\<open>get_dir1_dir2\<close>) is given by the two path components before
  its name, taken modulo 30, however long the path before them is.
\<close>

theorem directory_of_path:
  assumes "CHR ''/'' \<notin> set file"
    and "length (pre @ ''/'' @ show_nat a @ ''/'' @ show_nat b @ ''/'' @ file) \<le> 255"
  shows "get_dir1_dir2 (pre @ ''/'' @ show_nat a @ ''/'' @ show_nat b @ ''/'' @ file)
    = Some (int a mod DIR1, int b mod DIR2)"
  by (rule get_dirs_of_path [OF assms])

lemma directory_of_path_witness:
  "get_dir1_dir2 (''/home'' @ ''/'' @ show_nat 31 @ ''/'' @ show_nat 7 @ ''/'' @ ''a.flv'') = Some (1, 7)"
proof -
  have "show_nat 31 = ''31''" "show_nat 7 = ''7''" by code_simp+
  with directory_of_path [of "''a.flv''" "''/home''" 31 7] show ?thesis
    by (simp add: DIR1_def DIR2_def)
qed

text \<open>
  A path either has no directory or one inside the tables, so \<open>get_cs_info_by_path\<close>
  reads the arrays within their bounds whatever the path is.
\<close>

theorem directory_in_bounds:
  assumes "get_dir1_dir2 path = Some (d1, d2)"
  shows "0 \<le> d1 \<and> d1 < DIR1 \<and> 0 \<le> d2 \<and> d2 < DIR2 \<and> get_cs_info_by_path calm path s = Some (csinfo s d1 d2)"
proof -
  have b: "0 \<le> d1" "d1 < DIR1" "0 \<le> d2" "d2 < DIR2" using get_dirs_bounds [OF assms] by simp_all
  then have "crem d1 DIR1 = d1" "crem d2 DIR2 = d2" by (simp_all add: crem_def)
  with b assms show ?thesis by (simp add: get_cs_info_by_path_def get_cs_info_def)
qed

lemma directory_in_bounds_witness:
  "get_cs_info_by_path calm ''/x/61/2/f'' sample_cfg = Some (csinfo sample_cfg 1 2)"
proof -
  have "get_dir1_dir2 ''/x/61/2/f'' = Some (1, 2)" by code_simp
  from directory_in_bounds [OF this, of sample_cfg] show ?thesis by simp
qed

section \<open>Addresses\<close>

text \<open>
  Printing an address (\<open>ip2str\<close>) and reading it (\<open>str2ip\<close>) gives it back, for every
  address whose first number is 1 to 223.
\<close>

theorem address_round_trip:
  assumes "0 < unat (ucast ip :: byte)" and "unat (ucast ip :: byte) < 224"
  shows "str2ip (ip2str ip) = ip"
  by (rule str2ip_ip2str [OF assms])

lemma address_round_trip_witness: "str2ip (ip2str 0x0100A8C0) = 0x0100A8C0"
  by (rule address_round_trip) simp_all

text \<open>
  \<open>str2ip\<close> does not check that the third number is below 256: \<open>1.2.256.4\<close> is read as
  \<open>1.2.0.5\<close>.
\<close>

theorem third_number_unchecked: "str2ip ''1.2.256.4'' = str2ip ''1.2.0.5''"
proof -
  have "str2ip ''1.2.0.5'' = of_le32 [1, 2, 0, 5]"
    by (simp add: str2ip_def strtoul_def hex_prefix_def base_digit_def xdigit_val_def chr_code_def
        dot_first_def is_digit_def of_le32_def word_le_nat_alt Let_def)
  then show ?thesis by (simp only: str2ip_third_unchecked)
qed

section \<open>Time stamps and timers\<close>

text \<open>
  The stamp an FCS keeps for a directory is the newest change time of the tasks seen
  for it, in whatever order they come (\<open>set_fcs_time_stamp\<close>).
\<close>

theorem fcs_stamp_is_newest:
  assumes "fcs_file_ok f" and "dir_key d"
    and "\<forall>b \<in> set bs. fcs_key b \<noteq> None"
  shows "get_fcs_time_stamp_by_int (fst d) (snd d) (foldl (\<lambda>f b. snd (set_fcs_time_stamp calm b f)) f bs)
    = foldl max (get_fcs_time_stamp_by_int (fst d) (snd d) f) (map tb_ctime (filter (\<lambda>b. fcs_key b = Some d) bs))"
  using fcs_newest_tasks [OF assms] by (simp add: fcs_rd_def)

lemma fcs_stamp_is_newest_witness:
  "get_fcs_time_stamp_by_int 1 2 (foldl (\<lambda>f b. snd (set_fcs_time_stamp calm b f))
     (init_fcs_time_stamp \<lparr>sf_cell = (\<lambda>_. 0), sf_cells = 0\<rparr>)
     [zero_base\<lparr>tb_filename := ''/a/1/2/f'', tb_ctime := 9\<rparr>, zero_base\<lparr>tb_filename := ''/a/1/2/g'', tb_ctime := 4\<rparr>]) = 9"
proof -
  let ?f = "init_fcs_time_stamp \<lparr>sf_cell = (\<lambda>_. 0), sf_cells = 0\<rparr>"
  let ?bs = "[zero_base\<lparr>tb_filename := ''/a/1/2/f'', tb_ctime := 9\<rparr>, zero_base\<lparr>tb_filename := ''/a/1/2/g'', tb_ctime := 4\<rparr>]"
  have "get_dir1_dir2 ''/a/1/2/f'' = Some (1, 2)" "get_dir1_dir2 ''/a/1/2/g'' = Some (1, 2)" by code_simp+
  then have k: "\<forall>b \<in> set ?bs. fcs_key b = Some (1, 2)" by (simp add: fcs_key_def)
  then have n: "\<forall>b \<in> set ?bs. fcs_key b \<noteq> None" by auto
  have f: "fcs_file_ok ?f" by (simp add: fcs_file_ok_def init_fcs_time_stamp_def sf_truncate_def)
  have d: "dir_key (1, 2)" by (simp add: dir_key_def DIR1_def DIR2_def)
  have z: "get_fcs_time_stamp_by_int 1 2 ?f = 0"
    by (simp add: get_fcs_time_stamp_by_int_def init_fcs_time_stamp_def sf_truncate_def sf_read_def DIR1_def DIR2_def)
  show ?thesis using fcs_stamp_is_newest [OF f d n] k z by simp
qed

text \<open>
  The same for a CS, per directory and source domain; a CS that is not on line keeps
  its stamps (\<open>set_cs_time_stamp\<close>).
\<close>

theorem cs_stamp_is_newest:
  assumes "cs_file_ok f" and "dom_key d" and "\<forall>b \<in> set bs. cs_key b \<noteq> None"
  shows "cs_rd d (foldl (\<lambda>f b. snd (set_cs_time_stamp calm stat b f)) f bs) =
    (if stat = ON_LINE then foldl max (cs_rd d f) (map tb_ctime (filter (\<lambda>b. cs_key b = Some d) bs))
     else cs_rd d f)"
  by (rule cs_newest_tasks [OF assms])

lemma cs_stamp_is_newest_witness:
  "cs_rd ((1, 2), 7) (foldl (\<lambda>f b. snd (set_cs_time_stamp calm ON_LINE b f))
     (init_cs_time_stamp \<lparr>sf_cell = (\<lambda>_. 0), sf_cells = 0\<rparr>)
     [zero_base\<lparr>tb_filename := ''/a/1/2/f'', tb_src_domain := ''fcs7.x'', tb_ctime := 9\<rparr>]) = 9"
proof -
  let ?f = "init_cs_time_stamp \<lparr>sf_cell = (\<lambda>_. 0), sf_cells = 0\<rparr>"
  let ?b = "zero_base\<lparr>tb_filename := ''/a/1/2/f'', tb_src_domain := ''fcs7.x'', tb_ctime := 9\<rparr>"
  have "get_dir1_dir2 ''/a/1/2/f'' = Some (1, 2)" "get_dimain_int ''fcs7.x'' = 7" by code_simp+
  then have k: "cs_key ?b = Some ((1, 2), 7)" by (simp add: cs_key_def MAXFCS_def)
  have f: "cs_file_ok ?f" by (simp add: cs_file_ok_def init_cs_time_stamp_def sf_truncate_def)
  have d: "dom_key ((1, 2), 7)" by (simp add: dom_key_def dir_key_def DIR1_def DIR2_def MAXFCS_def)
  have z: "cs_rd ((1, 2), 7) ?f = 0"
    by (simp add: cs_rd_def get_cs_time_stamp_by_int_def cs_cell_def init_cs_time_stamp_def sf_truncate_def
        sf_read_def DIR1_def DIR2_def MAXFCS_def)
  show ?thesis using cs_stamp_is_newest [OF f d, of "[?b]" ON_LINE] k z by simp
qed

text \<open>
  A scan of the delayed calls (\<open>scan_delay_task\<close>) makes exactly the calls that are due,
  each once, in the order of the active list; afterwards exactly the due calls that do not
  repeat are gone from it, and the due ones that repeat have their next time moved on.
\<close>

theorem due_timers_fire_once:
  assumes "timer_ok s" and "\<not> lock_failed e M_delay" and "(calls, s') = scan_delay_task e s"
  shows "calls = map (call_of s) (filter (due (e_now e) s) (tlists s Delay_active)) \<and> timer_ok s' \<and>
    tlists s' Delay_active = filter (\<lambda>t. \<not> (due (e_now e) s t \<and> \<not> vt_loop (timers s t))) (tlists s Delay_active) \<and>
    (\<forall>t \<in> set (tlists s Delay_active). timers s' t =
       (if due (e_now e) s t \<and> vt_loop (timers s t)
        then (timers s t)\<lparr>vt_next_time := e_now e + vt_span_time (timers s t)\<rparr> else timers s t))"
  using scan_delay_effect [OF assms(1,2)] scan_delay_active [OF assms(1,2)] assms(3)
  by (auto simp: scanned_def dest!: sym [of "(calls, s')"])

lemma due_timers_fire_once_witness:
  "fst (scan_delay_task calm (snd (add_to_delay_task (calm\<lparr>e_now := 10\<rparr>)
     \<lparr>vt_cb = 3, vt_args = ''x'', vt_next_time = 0, vt_span_time = 5, vt_loop = False\<rparr>
     \<lparr>timers = (\<lambda>_. \<lparr>vt_cb = 0, vt_args = [], vt_next_time = 0, vt_span_time = 0, vt_loop = False\<rparr>),
       tlists = (\<lambda>_. [])(Delay_home := [4])\<rparr>))) = [(3, ''x'')]"
proof -
  let ?z = "\<lparr>vt_cb = 0, vt_args = [], vt_next_time = 0, vt_span_time = 0, vt_loop = False\<rparr>"
  let ?v = "\<lparr>vt_cb = 3, vt_args = ''x'', vt_next_time = 0, vt_span_time = 5, vt_loop = False\<rparr>"
  let ?start = "\<lparr>timers = (\<lambda>_. ?z), tlists = (\<lambda>_. [])(Delay_home := [4])\<rparr>"
  let ?s = "snd (add_to_delay_task (calm\<lparr>e_now := 10\<rparr>) ?v ?start)"
  have "timer_ok ?start" by (auto simp: timer_ok_def lf_wf_def)
  then have ok: "timer_ok ?s" by (rule timer_ok_add) (simp add: calm_def)
  have s: "tlists ?s Delay_active = [4]" "timers ?s 4 = ?v\<lparr>vt_next_time := 15\<rparr>"
    by (simp_all add: add_to_delay_task_def)
  from due_timers_fire_once [OF ok lock_failed_calm(2), of "fst (scan_delay_task calm ?s)" "snd (scan_delay_task calm ?s)"] s
  show ?thesis by (simp add: due_def call_of_def calm_def)
qed

section \<open>Peers of the tracker\<close>

text \<open>
  A peer that has connected is found by its address, and a second connection from the
  same address is refused (\<open>svc_initconn\<close>, \<open>find_ip_stat\<close>).
\<close>

theorem connected_peer_is_found:
  assumes "svc_initconn w fd s = (0, s')" and "tw_peerip w fd \<noteq> 0"
  shows "find_ip_stat (tw_peerip w fd) s' = Some (Peer fd) \<and>
    (tw_peerip w' fd' = tw_peerip w fd \<longrightarrow> fst (svc_initconn w' fd' s') = RET_CLOSE_DUP)"
  using initconn_found(1) [OF assms] initconn_found(2) [OF assms, of w' fd'] by auto

lemma connected_peer_is_found_witness:
  "find_ip_stat 1 (snd (svc_initconn (sample_world\<lparr>tw_env := calm\<lparr>e_malloc := Some 8\<rparr>\<rparr>) 6
     (boot_state 0 sample_tmp sample_cfg))) = Some (Peer 6)"
proof -
  let ?w = "sample_world\<lparr>tw_env := calm\<lparr>e_malloc := Some 8\<rparr>\<rparr>" and ?s = "boot_state 0 sample_tmp sample_cfg"
  have l: "online_list ?s = (\<lambda>_. [])" "cfg_list ?s = (\<lambda>_. [])"
    using boot_peers by simp_all
  then have "find_ip_stat 1 ?s = None" by (simp add: find_ip_stat_def)
  then have "fst (svc_initconn ?w 6 ?s) = 0"
    by (simp add: svc_initconn_def sample_world_def Let_def)
  then have i: "svc_initconn ?w 6 ?s = (0, snd (svc_initconn ?w 6 ?s))" by (metis prod.collapse)
  have "tw_peerip ?w 6 = 1" by (simp add: sample_world_def)
  with connected_peer_is_found [OF i, of ?w 6] show ?thesis by simp
qed

text \<open>
  The configured address a peer announced (\<open>cfgip\<close>, kept in \<open>cfg_list\<close>) is never used
  to find it: for every address but 0 the result is that of the list of connected peers
  alone, whatever \<open>cfg_list\<close> holds.
\<close>

theorem configured_address_is_ignored:
  assumes "ip \<noteq> 0"
  shows "find_ip_stat ip (s\<lparr>cfg_list := F\<rparr>) = find_ip_stat ip s \<and>
    (\<forall>fd. find_ip_stat ip s = Some (Peer fd) \<longrightarrow> pe_ip (peers s fd) = ip)"
proof -
  have "find_ip_stat ip (s\<lparr>cfg_list := F\<rparr>) = find_ip_stat ip s" by (simp add: find_ip_online [OF assms])
  then show ?thesis using find_ip_peer(1) by blast
qed

lemma configured_address_is_ignored_witness:
  "find_ip_stat 9 (set_peer 5 (zero_peer\<lparr>pe_cfgip := 9\<rparr>) (sample_tracker\<lparr>cfg_list := (\<lambda>_. [5])\<rparr>)) = None"
proof -
  let ?s = "set_peer 5 (zero_peer\<lparr>pe_cfgip := 9\<rparr>) sample_tracker"
  have e: "set_peer 5 (zero_peer\<lparr>pe_cfgip := 9\<rparr>) (sample_tracker\<lparr>cfg_list := (\<lambda>_. [5])\<rparr>) = ?s\<lparr>cfg_list := (\<lambda>_. [5])\<rparr>"
    by (simp add: set_peer_def)
  have "online_list ?s (bucket_of 9) = []"
    by (simp add: set_peer_def sample_tracker_def task_state.defs tracker_state.defs bucket_of_def)
  then have "find_ip_stat 9 ?s = None" by (simp add: find_ip_online)
  then show ?thesis unfolding e using configured_address_is_ignored [of 9 "\<lambda>_. [5]" ?s] by simp
qed

section \<open>Text\<close>

text \<open>Decoding hexadecimal text gives back the bytes that were encoded.\<close>

theorem hex_round_trip:
  "decode_hex (encode_hex bin @ rest) (length bin) = bin \<and> length (encode_hex bin) = 2 * length bin"
  by (simp add: decode_encode_hex length_encode_hex)

text \<open>
  Splitting a line (\<open>str_explode\<close>) made of words and separators gives the words back,
  as long as there is room for one more.
\<close>

theorem explode_joins:
  assumes "ifs_of a sep" and "list_all (is_word (ifs_of a)) ws" and "int (length ws) < n"
  shows "str_explode a (join_words sep ws) n = ws"
  unfolding str_explode_def by (rule explode_loop_join) (use assms in simp_all)

lemma explode_joins_witness: "str_explode IFS_null ''ab cd '' 3 = [''ab'', ''cd'']"
proof -
  have "list_all (is_word (ifs_of IFS_null)) [''ab'', ''cd'']" "ifs_of IFS_null CHR '' ''"
    by (simp_all add: is_word_def ifs_of_def default_ifs_def chr_code_def)
  from explode_joins [OF this(2,1), of 3] show ?thesis by simp
qed

section \<open>Digests\<close>

text \<open>
  C34: however a message is cut into pieces, updating with each piece and finishing
  (\<open>MD5Init\<close>, \<open>MD5Update\<close>, \<open>MD5Final\<close>) gives the digest of the padded message, whatever the
  context held before; and the digest of a file (\<open>getfilemd5\<close>), read megabyte by megabyte,
  is the digest of its contents, of any length.
\<close>

theorem digest_ignores_pieces:
  assumes "length junk = 64" and "\<forall>p\<in>set ps. length p < 2 ^ 32"
  shows "MD5Final (foldl (\<lambda>c p. MD5Update p c) (MD5Init (fresh_ctx junk)) ps) = md5_ref (concat ps) \<and>
    getfilemd5 junk (Some content) = Some (md5_ref content)"
  using digest_of_pieces [OF assms] getfilemd5_ok [OF assms(1), of "Some content"] by simp

lemma digest_ignores_pieces_witness:
  "MD5Final (MD5Update [98, 99] (MD5Update [97] (MD5Init (fresh_ctx (replicate 64 7))))) = md5_ref [97, 98, 99]"
  using digest_ignores_pieces [of "replicate 64 7" "[[97], [98, 99]]"] by simp

text \<open>
  \<open>MD5HMAC\<close> is the keyed digest of RFC 2104, and \<open>MD5HMAC2\<close> that of its two challenges
  joined: a long password is replaced by its digest, the key is padded with zeros to a block.
\<close>

theorem hmac_is_keyed_digest:
  assumes "length junk = 64" and "length password < 2 ^ 32" and "length c1 < 2 ^ 32" and "length c2 < 2 ^ 32"
  shows "MD5HMAC junk password c1 = hmac_ref password c1 \<and>
    MD5HMAC2 junk password c1 c2 = hmac_ref password (c1 @ c2)"
  using MD5HMAC_ok [OF assms(1,2,3)] MD5HMAC2_ok [OF assms] by simp

lemma hmac_is_keyed_digest_witness:
  "MD5HMAC (replicate 64 7) [1, 2] [3] = hmac_ref [1, 2] [3]"
  using hmac_is_keyed_digest [of "replicate 64 7" "[1, 2]" "[3]" "[]"] by simp

section \<open>Local files\<close>

text \<open>
  C35: \<open>close_tmp_check_mv\<close> answers \<open>LOCALFILE_OK\<close> only after it has put the bytes of the
  temporary file, as they were, at the place of the task's file, and then the digest of
  these bytes agrees with the task's in all but its last digit; no other file changes.  When
  it answers anything else no file has changed.
\<close>

theorem published_file_is_checked:
  assumes "length (lw_junk w) = 64" and "names_fit w task"
    and run: "close_tmp_check_mv w task fd s = (ret, task', s')"
    and "place_of w task = Some dst" and "path_of (tb_tmpfile task) \<noteq> dst"
  shows "(ret = LOCALFILE_OK \<longrightarrow>
      (\<exists>d. contents (path_of (tb_tmpfile task)) (lo_fs s) = Some d \<and> contents dst (lo_fs s') = Some d \<and>
         take 31 (digest_of d) = take 31 (tb_filemd5 task)) \<and>
      (\<forall>q. q \<noteq> path_of (tb_tmpfile task) \<longrightarrow> q \<noteq> dst \<longrightarrow> contents q (lo_fs s') = contents q (lo_fs s))) \<and>
    (ret \<noteq> LOCALFILE_OK \<longrightarrow> (\<forall>q. contents q (lo_fs s') = contents q (lo_fs s)))"
  using close_published [OF assms(1,2) _ assms(4,5)] close_refused [OF run] run by blast

lemma published_file_is_checked_witness:
  "contents [''d'', ''1'', ''2'', ''f''] (lo_fs (snd (snd (close_tmp_check_mv sample_lw sample_file_task 3 sample_ls)))) = Some [1, 2, 3]"
proof -
  obtain ret task' s' where r: "close_tmp_check_mv sample_lw sample_file_task 3 sample_ls = (ret, task', s')"
    by (cases "close_tmp_check_mv sample_lw sample_file_task 3 sample_ls")
  then have "ret = LOCALFILE_OK" using sample_close by simp
  moreover have "path_of (tb_tmpfile sample_file_task) = [''t'']" by (simp add: path_of_def)
  ultimately show ?thesis using published_file_is_checked [OF _ _ r] r by auto
qed

text \<open>
  A deleted file loses its name at once, is found under the name with \<open>.tmp4rm\<close> appended,
  and a delayed call of \<open>real_rm_file\<close> on that name is due after the configured time; when
  it runs, the name is gone and no other name has changed.
\<close>

theorem deleted_file_is_scheduled:
  assumes "delete_localfile w task s = (LOCALFILE_OK, s')" and "names_fit w task"
    and "place_of w task = Some p" and "rm_name w task = Some name" and "path_of name \<noteq> p"
    and "fs_file (lo_fs s) (path_of name) = None" and "log_path w task \<noteq> p" and "log_path w task \<noteq> path_of name"
    and "\<not> lock_failed (lw_env w) M_delay" and "tlists (lo_timers s) Delay_home = x # xs"
  shows "fs_file (lo_fs s') p = None \<and> fs_file (lo_fs s') (path_of name) = fs_file (lo_fs s) p \<and>
    x \<in> set (tlists (lo_timers s') Delay_active) \<and>
    call_of (lo_timers s') x = (REAL_RM, name) \<and>
    vt_next_time (timers (lo_timers s') x) = e_now (lw_env w) + lw_real_rm_time w \<and>
    (k_grants (lw_kernel w) S_unlink (path_of name) \<longrightarrow>
       fs_file (lo_fs (real_rm_file w name s')) = (fs_file (lo_fs s'))(path_of name := None))"
  using delete_done [OF assms(1-8)] timer_added [OF assms(9,10), of "rm_timer w name"] real_rm_removes [of w name s']
  by (simp add: call_of_def rm_timer_def)

lemma deleted_file_is_scheduled_witness:
  "fs_file (lo_fs (snd (delete_localfile sample_lw sample_file_task (sample_ls\<lparr>lo_fs := placed_fs\<rparr>)))) [''d'', ''1'', ''2'', ''f''] = None"
proof -
  obtain s' where r: "delete_localfile sample_lw sample_file_task (sample_ls\<lparr>lo_fs := placed_fs\<rparr>) = (LOCALFILE_OK, s')"
    using sample_delete by (cases "delete_localfile sample_lw sample_file_task (sample_ls\<lparr>lo_fs := placed_fs\<rparr>)") simp
  have p: "path_of ''/d/1/2/f.tmp4rm'' = [''d'', ''1'', ''2'', ''f.tmp4rm'']" by (simp add: path_of_def)
  have "tlists (lo_timers (sample_ls\<lparr>lo_fs := placed_fs\<rparr>)) Delay_home \<noteq> []"
    by (simp add: sample_ls_def delay_init_lists default_max_def)
  then obtain x xs where "tlists (lo_timers (sample_ls\<lparr>lo_fs := placed_fs\<rparr>)) Delay_home = x # xs" by (auto simp: neq_Nil_conv)
  with deleted_file_is_scheduled [OF r sample_names(1,2,3)] r p show ?thesis by simp
qed

text \<open>
  After a link task both names lead to the same file: the one that exists, and when both
  did, the first one's or, when the task's source was checked (\<open>okindex\<close> is 1), the second one's.
\<close>

theorem link_task_joins_names:
  assumes "all_granted (lw_kernel w)" and "link_names w task = Some (src, dst)"
    and "linkable src fs" and "linkable dst fs" and "fs_file fs src \<noteq> None \<or> fs_file fs dst \<noteq> None"
  shows "fs_file (localfile_link_task w task fs) src = fs_file (localfile_link_task w task fs) dst \<and>
    fs_file (localfile_link_task w task fs) dst =
      (if fs_file fs src = None \<or> fs_file fs dst \<noteq> None \<and> tb_okindex task = 1 then fs_file fs dst else fs_file fs src) \<and>
    (\<forall>q. q \<noteq> src \<longrightarrow> q \<noteq> dst \<longrightarrow> fs_file (localfile_link_task w task fs) q = fs_file fs q)"
  unfolding link_task_names [OF assms] by (auto simp: Let_def split: option.split)

lemma link_task_joins_names_witness:
  "fs_file (localfile_link_task sample_lw sample_file_task placed_fs) [''d'', ''1'', ''2'', ''g''] = Some 0"
  using link_task_joins_names [OF _ sample_link_names, of placed_fs]
  by (simp add: linkable_def)

text \<open>
  C36: the log of deletions is read back record by record: \<open>find_last_index\<close> finds the first
  record whose kept time is the one asked for, with its number and file name, and
  \<open>get_from_del_file\<close> answers for a record number as long as there is a record whose kept time
  is not later.  A record keeps nine characters of its time, so a time of ten digits, as all
  are since 2001, is never found.
\<close>

theorem deletions_are_logged:
  assumes "all_granted k" and "\<forall>b\<in>set bs. path_of (get_del_file r deldir b) = p"
    and "log_at p fs []" and "list_all log_ok bs" and "path_of (get_del_file r deldir base) = p"
  shows "find_last_index k r deldir (add_all k e r deldir bs fs) base lasttime =
      (case first_at lasttime (-1) bs of None \<Rightarrow> (-1, base) | Some (i, name) \<Rightarrow> (i, base\<lparr>tb_filename := name\<rparr>)) \<and>
    get_from_del_file k r deldir (add_all k e r deldir bs fs) base (int n) cur =
      (if n < length bs \<and> del_time (tb_ctime (bs ! n)) \<le> cur then int n else -1) \<and>
    (10 ^ 9 \<le> lasttime \<longrightarrow> find_last_index k r deldir (add_all k e r deldir bs fs) base lasttime = (-1, base))"
proof -
  have log: "log_at p (add_all k e r deldir bs fs) bs" using add_all_log [OF assms(1,2,3)] by simp
  show ?thesis
    using find_logged [OF log assms(1) assms(5) [symmetric] assms(4)] get_logged [OF log assms(1) assms(5) [symmetric]]
    by (simp add: ten_digits_not_found)
qed

lemma deletions_are_logged_witness:
  "fst (find_last_index open_kernel ROLE_FCS (Some ''/d'')
     (add_all open_kernel calm ROLE_FCS (Some ''/d'') [sample_file_task] sample_fs) zero_base 1400000000) = -1"
proof -
  have p: "path_of (get_del_file ROLE_FCS (Some ''/d'') b) = [''d'', ''del_list'']" for b
    by (simp add: get_del_file_def path_of_def)
  have log: "log_at [''d'', ''del_list''] sample_fs []"
    by (simp add: log_at_def sample_fs_def contents_def dir_there_def fs_ok_def)
  have ok: "list_all log_ok [sample_file_task]" by (simp add: log_ok_def NUL_def char_of_def)
  have "\<forall>b\<in>set [sample_file_task]. path_of (get_del_file ROLE_FCS (Some ''/d'') b) = [''d'', ''del_list'']"
    using p by simp
  from deletions_are_logged [OF open_kernel_granted this log ok p, of calm zero_base 1400000000]
  have "10 ^ 9 \<le> (1400000000 :: int) \<longrightarrow> find_last_index open_kernel ROLE_FCS (Some ''/d'')
     (add_all open_kernel calm ROLE_FCS (Some ''/d'') [sample_file_task] sample_fs) zero_base 1400000000 = (-1, zero_base)"
    by blast
  then show ?thesis by simp
qed

text \<open>
  When the configured suffixes are written as the code expects (each with or without a
  leading star, none empty, below 64 characters, separated by bars), a file name is let
  through exactly when it ends in one of them.
\<close>

theorem filter_accepts_suffixes:
  assumes "list_all (list_all pattern_ok) vs" and "\<forall>n. alloc n" and "cf ''file_allow_suffix'' = map value_text vs"
  shows "\<exists>s. init_file_filter alloc cf = (0, s) \<and>
    (check_file_filter name s = 0 \<longleftrightarrow> (\<exists>p\<in>set (concat vs). suffix (snd p) name))"
  using filter_accepts [of vs alloc cf name, OF assms] by fastforce

lemma filter_accepts_suffixes_witness:
  "\<exists>s. init_file_filter (\<lambda>_. True) (\<lambda>_. [''*.flv|.mp4'']) = (0, s) \<and> check_file_filter ''a.mp4'' s = 0"
proof -
  have "\<exists>s. init_file_filter (\<lambda>_. True) (\<lambda>_. [''*.flv|.mp4'']) = (0, s) \<and>
    (check_file_filter ''a.mp4'' s = 0 \<longleftrightarrow> (\<exists>p\<in>set (concat [[(True, ''.flv''), (False, ''.mp4'')]]). suffix (snd p) ''a.mp4''))"
    by (rule filter_accepts_suffixes) (simp_all add: pattern_ok_def pattern_text_def)
  then show ?thesis by (simp add: suffix_def)
qed

section \<open>The storage machine\<close>



text \<open>
  C11: one round over the finished tasks ends with none left: every one is waiting for another
  attempt, put off, or cleaned up.
\<close>

theorem finished_tasks_are_settled:
  assumes "cs_inv s" and "queues_open (cw_env w)"
  shows "vfstask (do_fin_task w s) TASK_FIN = [] \<and> cs_inv (do_fin_task w s) \<and>
    (\<forall>t\<in>set (vfstask s TASK_FIN). \<exists>q\<in>{TASK_WAIT, TASK_DELAY, TASK_CLEAN}. t \<in> set (vfstask (do_fin_task w s) q))"
  using drain_fin [OF assms(2,1), of "Suc (length (vfstask s TASK_FIN))"] fin_round_inv [OF assms(1), of w]
  by (simp add: do_fin_task_def drain_all_def ends_on_def)

lemma finished_tasks_are_settled_witness: "vfstask (do_fin_task sample_cw sample_storage) TASK_FIN = []"
  using finished_tasks_are_settled [OF sample_storage_inv sample_storage_open] by blast

text \<open>
  C37: the answer to a request for a directory is the messages for its files, in the order the
  system lists them, up to the first that does not fit, and the closing message; it stays
  within the buffer the thread allocates.
\<close>

theorem listing_fits_buffer:
  "(\<exists>k\<le>length (listed w s task).
      fst (do_sync_dir_req_sub w s task) = concat (take k (listed w s task)) @
        create_sig_msg SYNC_DIR_RSP TASK_SYNC_DIR (cw_sync_bytes w task) (cw_sync_size w) \<and>
      (k = length (listed w s task) \<or> MAXSYNCBUF \<le> length (concat (take (Suc k) (listed w s task))))) \<and>
   length (fst (do_sync_dir_req_sub w s task)) < MAXSYNCBUF + SIG_HEADSIZE + unat (cw_sync_size w)"
proof (rule listing [of w s task], rule conjI)
  fix k
  assume k: "k \<le> length (listed w s task)"
    and o': "fst (do_sync_dir_req_sub w s task) = concat (take k (listed w s task)) @
        create_sig_msg SYNC_DIR_RSP TASK_SYNC_DIR (cw_sync_bytes w task) (cw_sync_size w)"
    and e: "k = length (listed w s task) \<or> MAXSYNCBUF \<le> length (concat (take (Suc k) (listed w s task)))"
    and l: "length (concat (take k (listed w s task))) < MAXSYNCBUF"
  show "\<exists>k\<le>length (listed w s task).
      fst (do_sync_dir_req_sub w s task) = concat (take k (listed w s task)) @
        create_sig_msg SYNC_DIR_RSP TASK_SYNC_DIR (cw_sync_bytes w task) (cw_sync_size w) \<and>
      (k = length (listed w s task) \<or> MAXSYNCBUF \<le> length (concat (take (Suc k) (listed w s task))))"
    using k o' e by blast
  show "length (fst (do_sync_dir_req_sub w s task)) < MAXSYNCBUF + SIG_HEADSIZE + unat (cw_sync_size w)"
    unfolding o' length_append
    using l create_msg_length [of SYNC_DIR_RSP TASK_SYNC_DIR "cw_sync_bytes w task" "cw_sync_size w"] by linarith
qed



text \<open>
  Closing a connection, and closing or greeting peers that have been silent, loses no
  directory: what was asked for from a peer that is gone is on the list again.
\<close>

theorem no_directory_is_lost:
  "outstanding (cs_svc_finiconn fd s) = outstanding s \<and> outstanding (cs_timeout_peers w fds s) = outstanding s"
  by (simp add: finiconn_outstanding)

text \<open>
  C39: the walk over the list on an archive machine returns, when every entry has an address or
  can be taken apart into entries that have one.  Without the configuration's lock it need
  not: such an entry is put back behind the others.
\<close>

theorem archive_walk_ends:
  assumes "\<forall>y\<in>set (csync_list s). splits_up w (ccfg s) y"
  shows "\<exists>s'. do_active_sync_archive w s = Some s' \<and> cs_inv s' = cs_inv s"
proof -
  obtain s' where r: "do_active_sync_archive w s = Some s'" using archive_returns [OF assms] by blast
  then have "cs_view s' = cs_view s"
    by (auto simp: do_active_sync_archive_def dest!: archive_walk_view)
  with r csp.inv_view show ?thesis by blast
qed

lemma archive_walk_ends_witness: "do_active_sync_archive sample_cw sample_storage \<noteq> None"
  using archive_walk_ends [of sample_storage sample_cw] sample_splits by auto

section \<open>Saved tasks at the start\<close>

text \<open>
  A saved task that is taken up at the start is on the queue its record asks for, with the
  task, the counters and the tracker's address of the record.
\<close>

theorem recovered_task_is_queued:
  assumes "put_saved e1 e2 r item s = (0, s')"
  shows "\<exists>t. t \<in> set (vfstask s' (saved_queue r (ti_sub (tl_task item)))) \<and>
    tl_status (tasks s' t) = saved_queue r (ti_sub (tl_task item)) \<and>
    ti_base (tl_task (tasks s' t)) = ti_base (tl_task item) \<and>
    ti_sub (tl_task (tasks s' t)) = ti_sub (tl_task item) \<and> tl_upip (tasks s' t) = tl_upip item"
  by (rule put_saved_done [OF assms]) blast

lemma recovered_task_is_queued_witness:
  "\<exists>t. t \<in> set (vfstask (snd (put_saved calm calm ROLE_TRACKER zero_tasklist sample_pool)) TASK_WAIT)"
proof -
  have calm_lock: "e_lock calm m = 0" for m by (simp add: calm_def)
  have z: "fst (put_saved calm calm ROLE_TRACKER zero_tasklist sample_pool) = 0"
    by (simp add: put_saved_def vfs_get_task_def vfs_set_task_def saved_queue_def sample_pool_def valid_names
        Let_def calm_lock split: prod.split)
  have q: "saved_queue ROLE_TRACKER sub = TASK_WAIT" for sub by (simp add: saved_queue_def)
  obtain s' where p: "put_saved calm calm ROLE_TRACKER zero_tasklist sample_pool = (0, s')"
    using z by (cases "put_saved calm calm ROLE_TRACKER zero_tasklist sample_pool") auto
  show ?thesis
    using recovered_task_is_queued [OF p] unfolding q p by auto
qed

text \<open>
  C40: whatever the recovery blanks and saves again is gone when it ends: the file then is the
  copy made before, so a record keeps what it held, also when its task now is saved in another
  place.  Records beyond the computed size are cut off, among them the last one of a file of the
  usual 1024 records.
\<close>

theorem recovery_forgets_its_changes:
  assumes "init_load_tmp_status w (fs, s) = (0, fs', s')" and "ld_found w"
    and "tf_cells (ld_cp w (tmpst s)) = tf_cells (tmpst s)" and "tf_size (ld_cp w (tmpst s)) = tf_size (tmpst s)"
  shows "(\<forall>pos. pos + sizeof_tasklist \<le> tf_size (tmpst s) \<and>
      pos + sizeof_tasklist \<le> init_size w (tmpst s) * sizeof_tmp_status \<longrightarrow>
      file_read g (tmpst s') pos = file_read g (tmpst s) pos) \<and>
    (tf_size (tmpst s) = DEFAULT_ITEMS * sizeof_tasklist \<longrightarrow>
      file_read g (tmpst s') ((DEFAULT_ITEMS - 1) * sizeof_tasklist) = None)"
  using recovered_records [OF assms] last_record_cut [OF assms(1,2)] by blast

lemma recovery_forgets_its_changes_witness:
  "\<exists>fs' s'. init_load_tmp_status sample_ld (sample_fs, sample_pool) = (0, fs', s') \<and>
     file_read (\<lambda>_. zero_tasklist) (tmpst s') 0 = Some zero_tasklist"
proof -
  obtain fs' s' where r: "init_load_tmp_status sample_ld (sample_fs, sample_pool) = (0, fs', s')"
    using load_succeeds [OF sample_ld_granted(1), of sample_fs sample_pool]
    by (cases "init_load_tmp_status sample_ld (sample_fs, sample_pool)") auto
  have t: "tmpst sample_pool = sample_tmp" "ld_cp sample_ld f = f" for f
    by (simp_all add: sample_pool_def sample_ld_def)
  have z: "cells_at sample_tmp 0 = rec_cells zero_tasklist"
    by (simp add: cells_at_def sample_tmp_def rec_cells_def map_replicate_const)
  have "file_read (\<lambda>_. zero_tasklist) sample_tmp 0 = Some zero_tasklist"
    by (simp add: file_read_def z) (simp add: sample_tmp_def sizeof_tasklist_def)
  then have "file_read (\<lambda>_. zero_tasklist) (tmpst s') 0 = Some zero_tasklist"
    using recovery_forgets_its_changes [OF r sample_ld_granted(2), of "\<lambda>_. zero_tasklist"]
    by (simp add: t sample_tmp_def sizeof_tasklist_def sizeof_tmp_status_def init_size_def DEFAULT_ITEMS_def)
  with r show ?thesis by blast
qed

section \<open>The data plugin and the configuration file\<close>

text \<open>
  C8: in every state of the data plugin that its events and the other threads can bring about
  with no mutex timing out, the task a connection receives is on \<open>TASK_RECV\<close> and the one it sends on
  \<open>TASK_SEND\<close>, no two connections receive or send the same task, and a task is on at most one queue.
\<close>

theorem transfers_stay_apart:
  assumes "data_reachable s"
  shows "(dp_recvtask (dpeers s fd) = Some t \<longrightarrow> t \<in> set (vfstask s TASK_RECV) \<and>
      (dp_recvtask (dpeers s fd') = Some t \<longrightarrow> fd' = fd) \<and> dp_sendtask (dpeers s fd') \<noteq> Some t) \<and>
    (dp_sendtask (dpeers s fd) = Some t \<longrightarrow> t \<in> set (vfstask s TASK_SEND) \<and>
      (dp_sendtask (dpeers s fd') = Some t \<longrightarrow> fd' = fd)) \<and>
    (t \<in> set (vfstask s p) \<longrightarrow> t \<in> set (vfstask s q) \<longrightarrow> p = q) \<and>
    distinct (vfstask s q) \<and> (t \<in> set (vfstask s q) \<longrightarrow> tl_status (tasks s t) = q)"
  using data_inv_places [OF data_reachable_inv [OF assms]] by blast

lemma transfers_stay_apart_witness:
  "distinct (vfstask (data_boot sample_dw 4096 sample_tmp sample_cfg sample_ls) TASK_HOME)"
  using transfers_stay_apart [OF data_booted] by blast

text \<open>
  C7: no event of the data plugin and no move of another thread takes a task off the queues:
  a task that is on a queue before is on a queue afterwards, whatever peers send, whatever fails on
  the disk or the network, and however connections end, as long as no mutex times out.
\<close>

theorem data_plugin_loses_no_task:
  assumes "data_reachable s" and "data_step s s'" and "t \<in> set (vfstask s q)"
  shows "\<exists>q'. t \<in> set (vfstask s' q')"
  using data_step_keeps [OF assms(2) data_reachable_inv [OF assms(1)]] assms(3)
  by (auto simp: data_keeps_def placed_def)

lemma data_plugin_loses_no_task_witness:
  "\<exists>q. 4096 \<in> set (vfstask (dt_svc_timeout sample_dw (data_boot sample_dw 4096 sample_tmp sample_cfg sample_ls)) q)"
proof (rule data_plugin_loses_no_task [OF data_booted data_event])
  show "unlocked (dw_env sample_dw)" by simp
  show "data_react sample_dw DataTick (data_boot sample_dw 4096 sample_tmp sample_cfg sample_ls)
    = Some (dt_svc_timeout sample_dw (data_boot sample_dw 4096 sample_tmp sample_cfg sample_ls))"
    by (simp add: data_react_def)
  show "4096 \<in> set (vfstask (data_boot sample_dw 4096 sample_tmp sample_cfg sample_ls) TASK_HOME)"
    by (simp add: data_boot_queues POOL_def)
qed

text \<open>
  C12: while a file is being received, the bytes go to the disk in the order they came, whatever the
  pieces in which they arrive and however much of them each \<open>write\<close> takes: what the file has gained
  followed by what is still in the buffer is what was in the buffer followed by what arrived.
\<close>

theorem file_bytes_arrive_in_order:
  assumes "alloc_ok alloc" and "0 < ibs" and "buff_wf m" and "receiving fd t i c s"
    and "\<forall>x\<in>set xs. \<forall>n. dw_write (fst x) n \<noteq> None"
    and "int (length (buff_bytes m) + length (concat (map snd xs))) < to_come t s" and "to_come t s < 2 ^ 63"
  shows "\<exists>m' s' c'. arrivals alloc ibs fd xs m s = Some (m', s') \<and> receiving fd t i (c @ c') s' \<and>
    c' @ buff_bytes m' = buff_bytes m @ concat (map snd xs) \<and> to_come t s' = to_come t s - int (length c')"
  using pieces_in_order [OF assms] by blast

lemma file_bytes_arrive_in_order_witness:
  "\<exists>m' s' c'. arrivals (\<lambda>n. Some (replicate n 0)) 64 3 [(sample_dw, [7]), (sample_dw, [])] mybuff_init sample_data = Some (m', s') \<and>
     receiving 3 5 0 ([1, 2, 3] @ c') s' \<and> c' @ buff_bytes m' = [7]"
proof -
  have a: "alloc_ok (\<lambda>n. Some (replicate n 0))" by (simp add: alloc_ok_def)
  show ?thesis
    using file_bytes_arrive_in_order [OF a _ buff_wf_init(1) sample_receiving(1), of 64 "[(sample_dw, [7]), (sample_dw, [])]"]
    by (simp add: sample_receiving(2)) blast
qed



text \<open>
  C14: a connection that ends, for whatever reason, has no task left: the one it was sending is
  finished as incomplete, the one it was receiving waits again with one more attempt counted and,
  where transfers are resumed, with the bytes received so far added to its offset.
\<close>

theorem lost_connection_gives_back:
  assumes "data_inv s" and "unlocked (dw_env w)" and "duser s fd" and "s' = dt_svc_finiconn w fd s"
  shows "dp_recvtask (dpeers s' fd) = None \<and> dp_sendtask (dpeers s' fd) = None \<and>
    (\<forall>t. dp_sendtask (dpeers s fd) = Some t \<longrightarrow>
       t \<in> set (vfstask s' TASK_FIN) \<and> tb_overstatus (tbase s' t) = OVER_SEND_LEN) \<and>
    (\<forall>t. dp_recvtask (dpeers s fd) = Some t \<longrightarrow>
       t \<in> set (vfstask s' TASK_WAIT) \<and> tb_retry (tbase s' t) = tb_retry (tbase s t) + 1 \<and>
       tb_offsize (tbase s' t) = tb_offsize (tbase s t) + (if dw_continue w then ts_lastlen (tsub s t) else 0))"
  using finiconn_gives_back [OF assms(1-3)] unfolding assms(4)
  by (auto simp: own_def given_back_def)

lemma lost_connection_gives_back_witness:
  "5 \<in> set (vfstask (dt_svc_finiconn sample_dw 3 sample_data) TASK_WAIT)"
  using lost_connection_gives_back [OF sample_data_inv _ _ refl, of sample_dw 3] by simp

text \<open>
  C33: reading the configuration file for the first time, a key's value is the one the file assigns
  last, under the name its section and the rules for separators and capitals give it; a key the file
  does not assign keeps the value it had.
\<close>

theorem last_assignment_counts:
  assumes "config_ok c" and "\<not> mc_inited c" and "lines_of [] text = Some ls"
  shows "\<exists>c'. myconfig_loadfile0 (Some text) c = Some (0, c') \<and> config_ok c' \<and>
    myconfig_get_value key c' =
      (case map_of (rev (assigned ls [])) key of Some v \<Rightarrow> Some v | None \<Rightarrow> myconfig_get_value key c)"
  using load_lines_get [OF assms(1,2)] assms(3) by (simp add: myconfig_loadfile0_def)

lemma last_assignment_counts_witness:
  "map_option (\<lambda>(r, c). myconfig_get_value ''log_x_level'' c) (myconfig_loadfile0 (Some sample_text) no_config) = Some (Some ''3'')"
proof -
  have l: "lines_of [] sample_text = Some [''[ log-x ]'', ''Level = 3'']" by code_simp
  have a: "map_of (rev (assigned [''[ log-x ]'', ''Level = 3''] [])) ''log_x_level'' = Some ''3''" by code_simp
  have "config_ok no_config" "\<not> mc_inited no_config" by (simp_all add: config_ok_def no_config_def)
  from last_assignment_counts [OF this l, of "''log_x_level''"] a show ?thesis by fastforce
qed

section \<open>The source machine\<close>

text \<open>
  C10: in every state of a source machine that its events and the other threads can bring about with
  no mutex timing out, a task is on at most one queue, the one its status names, and a task on a
  tracker's list is running, on no other tracker's list and there once.
\<close>

theorem source_tasks_in_one_place:
  assumes "fcs_reachable s"
  shows "(t \<in> set (vfstask s p) \<longrightarrow> t \<in> set (vfstask s q) \<longrightarrow> p = q) \<and> distinct (vfstask s q) \<and>
    (t \<in> set (vfstask s q) \<longrightarrow> tl_status (tasks s t) = q) \<and>
    (t \<in> set (userl s fd) \<longrightarrow> t \<in> set (vfstask s TASK_RUN) \<and> (t \<in> set (userl s fd') \<longrightarrow> fd = fd')) \<and>
    distinct (userl s fd)"
  using fcs_inv_places [OF fcs_reachable_inv [OF assms]] by blast

lemma source_tasks_in_one_place_witness:
  "distinct (vfstask (fcs_boot sample_fw 4096 sample_tmp sample_cfg sample_ls) TASK_HOME)"
  using source_tasks_in_one_place [OF fcs_booted] by blast



text \<open>
  C15: when the connection to a tracker ends, the tasks it was working on, and no others, go to the end
  of the waiting tasks in the order of its list; the other trackers keep theirs, and the tracker
  is chosen no more.
\<close>

theorem lost_tracker_gives_back:
  assumes "fcs_inv s" and "unlocked (fw_env w)" and "fuser s fd" and "fp_role (fpeers s fd) = ROLE_TRACKER"
    and "s' = fcs_svc_finiconn w fd s"
  shows "vfstask s' TASK_WAIT_SYNC = vfstask s TASK_WAIT_SYNC @ userl s fd \<and>
    vfstask s' TASK_RUN = filter (\<lambda>t. t \<notin> set (userl s fd)) (vfstask s TASK_RUN) \<and>
    userl s' = (userl s)(fd := []) \<and> fd \<notin> set (ftrackers s')"
  unfolding assms(5) using tracker_lost [OF assms(1-4)] by blast

lemma lost_tracker_gives_back_witness:
  "vfstask (fcs_svc_finiconn sample_fw 4 sample_fcs) TASK_WAIT_SYNC = [5]"
  using lost_tracker_gives_back [OF sample_fcs_inv, of sample_fw 4, OF _ _ _ refl] by simp

text \<open>
  C16: the listing of a directory announces its files in the order \<open>qsort\<close> left them, up to the first
  whose digest cannot be computed, each with its size, times and digest: a file followed by another
  name of the same inode as a link to that name, every other as a file to fetch.
\<close>

theorem listing_announces_files_and_links:
  assumes "mset (fw_sort w sortinode fs) = mset fs" and "fs = dir_files w s path endtime starttime"
    and "length fs < MAXFILE" and "\<forall>f\<in>set fs. fi_inode f \<noteq> 0"
    and "gs = fw_sort w sortinode fs" and "n = length (takeWhile (\<lambda>f. digest_at w s f \<noteq> None) gs)"
  shows "length (dir_tasks w s path endtime starttime) = n \<and> (\<forall>i<n.
    dir_tasks w s path endtime starttime ! i =
      (let f = gs ! i; base = zero_base\<lparr>tb_filename := fi_file f, tb_src_domain := take 15 (fw_hostname w),
           tb_fsize := fi_size f, tb_mtime := fi_mtime f, tb_ctime := fi_ctime f, tb_fmode := fi_mode f,
           tb_filemd5 := take 32 (the (digest_at w s f)), tb_starttime := e_now (fw_env w)\<rparr>
       in if Suc i < length gs \<and> fi_inode (gs ! Suc i) = fi_inode f
          then base\<lparr>tb_type := TASK_LINKFILE, tb_linkfile := fi_file (gs ! Suc i)\<rparr>
          else base\<lparr>tb_type := TASK_ADDFILE\<rparr>))"
  using fcs_listing [OF assms(1-5) assms(6) [folded with_digest_def]] by blast

lemma listing_announces_files_and_links_witness:
  "map tb_type (dir_tasks sample_fw sample_fcs ''/d/1/2'' 0 0) = [TASK_LINKFILE, TASK_ADDFILE]"
proof -
  let ?fs = "dir_files sample_fw sample_fcs ''/d/1/2'' 0 0"
  obtain f g where fs: "?fs = [f, g]" and i: "fi_inode f = 3" "fi_inode g = 3" "fi_file f = ''/d/1/2/f''" "fi_file g = ''/d/1/2/g''"
    using sample_dir_files by (cases ?fs; cases "tl ?fs"; auto)
  have d: "digest_at sample_fw sample_fcs f \<noteq> None" "digest_at sample_fw sample_fcs g \<noteq> None"
    using sample_digest_at i(3,4) by simp_all
  have "length (dir_tasks sample_fw sample_fcs ''/d/1/2'' 0 0) = 2 \<and>
      tb_type (dir_tasks sample_fw sample_fcs ''/d/1/2'' 0 0 ! 0) = TASK_LINKFILE \<and>
      tb_type (dir_tasks sample_fw sample_fcs ''/d/1/2'' 0 0 ! 1) = TASK_ADDFILE"
    using listing_announces_files_and_links [OF _ refl _ _ refl refl, of sample_fw sample_fcs "''/d/1/2''" 0 0]
    by (simp add: fs i d MAXFILE_def Let_def)
  then show ?thesis by (simp add: list_eq_iff_nth_eq nth_Cons' less_Suc_eq numeral_2_eq_2)
qed

text \<open>
  A file that a storage machine sends back to the source machine is not announced as a change
  of its own: when the task for it has been queued, the event of the file being written leaves
  everything as it was, except that the note of the file is used up.
\<close>

theorem own_write_is_no_change:
  assumes "sync_name (tb_filename base) = Some buf" and "sync_name (fwatch s wd @ ''/'' @ name) = Some buf"
    and "\<forall>f\<in>set (fsync_dirs s (sync_index buf)). sd_fname f \<noteq> buf"
    and "fw_mem w" and "fcs_get_lock w = 0" and "fcs_get_lock w' = 0"
    and "take 1 name \<noteq> ''.''" and "check_file_filter name (fw_filter w') = 0" and "self_stat (fcfg s) \<noteq> OFF_LINE"
  shows "inotify_event_handler w' wd name msk (queue_newtask w t base sub s) =
    (queue_newtask w t base sub s)\<lparr>fsync_dirs := fsync_dirs s\<rparr>"
  using newtask_write_ignored [OF assms] .

lemma own_write_is_no_change_witness:
  "vfstask (inotify_event_handler sample_fw 1 ''f'' IN_CLOSE_WRITE
     (queue_newtask sample_fw 6 (zero_base\<lparr>tb_filename := ''/a/1/2/f''\<rparr>) zero_sub sample_fcs)) TASK_WAIT = [6]"
proof -
  have "fwatch sample_fcs 1 @ ''/'' @ ''f'' = ''/d/1/2/f''" by simp
  then have "inotify_event_handler sample_fw 1 ''f'' IN_CLOSE_WRITE
     (queue_newtask sample_fw 6 (zero_base\<lparr>tb_filename := ''/a/1/2/f''\<rparr>) zero_sub sample_fcs) =
     (queue_newtask sample_fw 6 (zero_base\<lparr>tb_filename := ''/a/1/2/f''\<rparr>) zero_sub sample_fcs)\<lparr>fsync_dirs := \<lambda>_. []\<rparr>"
    using own_write_is_no_change [of "zero_base\<lparr>tb_filename := ''/a/1/2/f''\<rparr>" "''1/2/f''" sample_fcs 1 "''f''" sample_fw sample_fw]
    by (simp add: sample_sync_name)
  then show ?thesis by (simp add: sample_queued)
qed

text \<open>
  C17: what a machine submits to the VOSS master reaches its working file: whatever the pieces in which
  a stream of submissions arrives, when the last piece is there the file has gained the bodies of
  the submissions, whole and in order, and nothing is left in the buffer, as long as the disk takes
  what is written and the file is not yet due to be published.
\<close>

theorem submissions_are_collected:
  assumes "alloc_ok alloc" and "0 < ibs" and "collecting fd i t0 c s" and "\<not> receiving_data (vp_sock_stat (vpeers s fd))"
    and "\<forall>x\<in>set xs. keeps_collecting t0 (fst x)"
    and "concat (map snd xs) = concat (map submit_msg ms)" and "\<forall>x\<in>set ms. length (snd x) < 2 ^ 31 - 12"
  shows "\<exists>m' s'. v_arrivals alloc ibs fd xs mybuff_init s = Some (m', s') \<and> buff_bytes m' = [] \<and>
    collecting fd i t0 (c @ concat (map snd ms)) s'"
  using assms by (rule submissions_collected)

lemma submissions_are_collected_witness:
  "\<exists>m' s'. v_arrivals zero_alloc 64 3 [(sample_vw, take 5 (submit_msg (1, [7, 8]))), (sample_vw, drop 5 (submit_msg (1, [7, 8])))]
     mybuff_init sample_voss = Some (m', s') \<and> buff_bytes m' = [] \<and> collecting 3 0 0 [1, 2, 3, 7, 8] s'"
  using submissions_are_collected [OF alloc_ok_zero _ sample_collecting,
      of 64 "[(sample_vw, take 5 (submit_msg (1, [7, 8]))), (sample_vw, drop 5 (submit_msg (1, [7, 8])))]" "[(1, [7, 8])]"]
  by (simp add: sample_keeps)





section \<open>Commands of the operators and the agent\<close>

text \<open>
  C24: what an operator's tools write can be read: a list of parameters, with whatever characters in
  the values, that is encoded and decoded again has for each name the value it was given.
\<close>

theorem parameters_round_trip:
  assumes "\<forall>p\<in>set kv. para_fits p" and "kv \<noteq> []" and "int (length kv) \<le> n - 2"
    and "length (para_text (map encoded kv)) + 2 \<le> room" and "distinct (map (\<lambda>p. map to_lower (fst p)) kv)"
  shows "\<exists>l. DecodePara junk (EncodePara (set_all n kv) room) \<lparr>sp_max = n, sp_list = []\<rparr> = (0, l) \<and>
    (\<forall>(k, v)\<in>set kv. \<forall>m. length v < m \<longrightarrow> GetParaValue l k m = Some v)"
proof -
  have "GetParaValue \<lparr>sp_max = n, sp_list = map encoded kv\<rparr> k m = Some v" if "(k, v) \<in> set kv" "length v < m" for k v m
  proof -
    have "NUL \<notin> set v" using assms(1) that(1) by (auto simp: para_fits_def)
    then show ?thesis using decode_encode [of v "m - 1"] that find_same_word [OF assms(5) that(1)]
      by (simp add: GetParaValue_def pair_of_def)
  qed
  then show ?thesis using decode_encode_para [OF assms(1-4), of junk] by auto
qed

lemma parameters_round_trip_witness:
  "\<exists>l. DecodePara (\<lambda>_. []) (EncodePara (set_all 20 [(''x'', ''a=b&c'')]) 100) \<lparr>sp_max = 20, sp_list = []\<rparr> = (0, l) \<and>
     GetParaValue l ''x'' 32 = Some ''a=b&c''"
proof -
  have f: "para_fits (''x'', ''a=b&c'')" by code_simp
  have l: "length (para_text (map encoded [(''x'', ''a=b&c'')])) + 2 \<le> 100" by code_simp
  show ?thesis using parameters_round_trip [of "[(''x'', ''a=b&c'')]" 20 100 "\<lambda>_. []", OF _ _ _ l] f by auto
qed



text \<open>
  C20: a command to fetch files is carried out: the text an operator sends through the master is
  decoded and answered, and for each file, in order, a task of the pool that says what to fetch, from
  where and with which digest is on the queue of such tasks; other tasks and queues are untouched.
\<close>

theorem sync_command_queues_files:
  assumes "unlocked (mw_env w)" and "mw_list w" and "ii_role (mw_self w) = ROLE_CS" and "queues_ok s"
    and "vfstask s TASK_HOME = ts @ rest" and "length ts = length kvs" and "length kvs \<le> 17"
    and "\<forall>kv\<in>set kvs. para_ok kv \<and> \<not> is_cmd_key (fst kv) \<and> source_known w kv"
  shows "\<exists>s'. do_request w (para_text ((''vfs_cmd'', ''M_SYNCFILE'') # kvs)) raw s = (Some (str_bytes ''sync file OK!''), s') \<and>
    vfstask s' = (vfstask s)(TASK_HOME := rest, TASK_SYNC_VOSS := vfstask s TASK_SYNC_VOSS @ ts) \<and>
    map (\<lambda>t. tl_task (tasks s' t)) ts = map (fetch_task w (self_ip (mt_cfg s))) kvs \<and>
    (\<forall>v. v \<notin> set ts \<longrightarrow> tl_task (tasks s' v) = tl_task (tasks s v))"
proof -
  let ?l = "\<lparr>sp_max = 20, sp_list = (''vfs_cmd'', ''M_SYNCFILE'') # kvs\<rparr>"
  have "para_ok (''vfs_cmd'', ''M_SYNCFILE'')" by code_simp
  then have c: "command_list w (para_text ((''vfs_cmd'', ''M_SYNCFILE'') # kvs)) = Some ?l"
    using assms(2,7,8) by (intro command_list_of) auto
  obtain s' where s': "foldl (sync_file_one w SENDBUF) (s, ([], 0)) kvs = (s', ([], 0))"
    "vfstask s' = (vfstask s)(TASK_HOME := rest, TASK_SYNC_VOSS := vfstask s TASK_SYNC_VOSS @ ts)"
    "map (\<lambda>t. tl_task (tasks s' t)) ts = map (fetch_task w (self_ip (mt_cfg s))) kvs"
    "\<forall>v. v \<notin> set ts \<longrightarrow> tl_task (tasks s' v) = tl_task (tasks s v)"
    using sync_files_queued [OF assms(1,4,5,6)] assms(8) by blast
  have one: "sync_file_one w SENDBUF (s, ([], 0)) (''vfs_cmd'', ''M_SYNCFILE'') = (s, ([], 0))"
    by (simp add: sync_file_one_def vfs_cmd_key)
  have "voss_sync_file w ?l SENDBUF s = (([], 0), s')"
    using assms(3) s'(1) by (simp add: voss_sync_file_def one)
  then have r: "run_command w 4 ?l raw s = (answer_of SENDBUF ''sync file OK!'', s')"
    by (simp add: run_command_def if_empty_def)
  have "do_request w (para_text ((''vfs_cmd'', ''M_SYNCFILE'') # kvs)) raw s = (Some (str_bytes ''sync file OK!''), s')"
    by (simp add: do_request_def c sync_command_type r Let_def del: para_text.simps)
      (simp add: answer_of_def print_to_def answer_bytes_def SENDBUF_def)
  then show ?thesis using s'(2-4) by blast
qed

lemma sync_command_queues_files_witness:
  "\<exists>s'. do_request sample_mw (para_text [(''vfs_cmd'', ''M_SYNCFILE''), (''d'', ''f,1.2.3.4'')]) [] sample_maint = (Some (str_bytes ''sync file OK!''), s') \<and>
     vfstask s' TASK_SYNC_VOSS = [5] \<and> tb_filename (tbase s' 5) = ''f''"
proof -
  have p: "para_ok (''d'', ''f,1.2.3.4'')" "\<not> is_cmd_key ''d''" by code_simp+
  have sp: "split_sync (cut_line ''f,1.2.3.4'') = (''f'', Some ''1.2.3.4'', None)" by code_simp
  have q: "vfstask sample_maint TASK_HOME = [5] @ [6]" "vfstask sample_maint TASK_SYNC_VOSS = []"
    by (simp_all add: sample_maint_def maint_state.truncate_def sample_agent_def queue_defs)
  have w: "mw_list sample_mw" "ii_role (mw_self sample_mw) = ROLE_CS" by (simp_all add: sample_mw_def)
  obtain s' where s': "do_request sample_mw (para_text [(''vfs_cmd'', ''M_SYNCFILE''), (''d'', ''f,1.2.3.4'')]) [] sample_maint =
      (Some (str_bytes ''sync file OK!''), s')"
    "vfstask s' = (vfstask sample_maint)(TASK_HOME := [6], TASK_SYNC_VOSS := vfstask sample_maint TASK_SYNC_VOSS @ [5])"
    "map (\<lambda>t. tl_task (tasks s' t)) [5] = map (fetch_task sample_mw (self_ip (mt_cfg sample_maint))) [(''d'', ''f,1.2.3.4'')]"
    using sync_command_queues_files [OF sample_unlocked(1) w sample_queues(2) q(1), of "[(''d'', ''f,1.2.3.4'')]" "[]"] p
    by (auto simp: source_known_def sp)
  show ?thesis using s' q(2) by (simp add: fetch_task_def sp)
qed

text \<open>
  C22: each task that has ended is reported once: a scan puts one submission with a line for each task
  on the clean queue, in order, behind what is to be sent already, and the tasks are free again.
\<close>

theorem ended_tasks_are_reported:
  assumes "unlocked (aw_env w)" and "roomy w" and "queues_ok s" and "vfstask s TASK_CLEAN = ts" and "ts \<noteq> []"
    and "buffer_of [] (ag_data s)" and "buffer_of bs (ag_send s)"
    and "aw_role w = ROLE_CS \<longrightarrow> (\<forall>t\<in>set (vfstask s TASK_SYNC_VOSS). in_time w s t)"
  shows "\<exists>s'. do_scan w True out s = (or1 out, s') \<and> queues_ok s' \<and>
    vfstask s' = (vfstask s)(TASK_CLEAN := [], TASK_HOME := vfstask s TASK_HOME @ ts) \<and>
    (\<forall>t. if t \<in> set ts then tl_task (tasks s' t) = zero_task else tasks s' t = tasks s t) \<and>
    buffer_of (bs @ submit_msg (ag_seq s, str_bytes (concat (map (reported w s) ts)))) (ag_send s') \<and> buffer_of [] (ag_data s')"
  using assms by (rule scan_reports)

lemma ended_tasks_are_reported_witness:
  "\<exists>s'. do_scan sample_aw True 0 sample_agent = (or1 0, s') \<and> vfstask s' TASK_CLEAN = [] \<and> vfstask s' TASK_HOME = [5, 6, 9] \<and>
     tl_task (tasks s' 9) = zero_task"
proof -
  have q: "vfstask sample_agent TASK_CLEAN = [9]" "vfstask sample_agent TASK_SYNC_VOSS = []" "vfstask sample_agent TASK_HOME = [5, 6]"
    by (simp_all add: sample_agent_def queue_defs)
  have "\<exists>s'. do_scan sample_aw True 0 sample_agent = (or1 0, s') \<and> queues_ok s' \<and>
    vfstask s' = (vfstask sample_agent)(TASK_CLEAN := [], TASK_HOME := vfstask sample_agent TASK_HOME @ [9]) \<and>
    (\<forall>t. if t \<in> set [9] then tl_task (tasks s' t) = zero_task else tasks s' t = tasks sample_agent t) \<and>
    buffer_of ([] @ submit_msg (ag_seq sample_agent, str_bytes (concat (map (reported sample_aw sample_agent) [9])))) (ag_send s') \<and>
    buffer_of [] (ag_data s')"
    by (rule ended_tasks_are_reported [OF sample_unlocked(2) sample_roomy sample_queues(1) q(1) _ sample_buffers]) (simp_all add: q(2))
  then obtain s' where s': "do_scan sample_aw True 0 sample_agent = (or1 0, s')"
    "vfstask s' = (vfstask sample_agent)(TASK_CLEAN := [], TASK_HOME := vfstask sample_agent TASK_HOME @ [9])"
    "\<forall>t. if t \<in> set [9] then tl_task (tasks s' t) = zero_task else tasks s' t = tasks sample_agent t"
    by blast
  have "tl_task (tasks s' 9) = zero_task" using s'(3) [rule_format, of 9] by simp
  moreover have "vfstask s' TASK_CLEAN = []" "vfstask s' TASK_HOME = [5, 6, 9]" by (simp_all add: s'(2) q(3))
  ultimately show ?thesis using s'(1) by blast
qed

text \<open>
  C23: the reports of a machine reach the master: when what the agent puts into its empty send buffer in
  one scan arrives at the master, in whatever pieces, the working file there has gained the
  lines of the ended tasks, whole and in order.
\<close>

theorem reports_reach_the_master:
  assumes "unlocked (aw_env w)" and "roomy w" and "queues_ok s" and "vfstask s TASK_CLEAN = ts" and "ts \<noteq> []"
    and "buffer_of [] (ag_data s)" and "buffer_of [] (ag_send s)"
    and "aw_role w = ROLE_CS \<longrightarrow> (\<forall>t\<in>set (vfstask s TASK_SYNC_VOSS). in_time w s t)"
    and "length (concat (map (reported w s) ts)) < 2 ^ 31 - 12"
    and "do_scan w True out s = (out', s')" and "buffer_of wire (ag_send s')"
    and "concat (map snd xs) = wire" and "\<forall>x\<in>set xs. keeps_collecting t0 (fst x)"
    and "alloc_ok alloc" and "0 < ibs" and "collecting fd i t0 c v" and "\<not> receiving_data (vp_sock_stat (vpeers v fd))"
  shows "\<exists>m' v'. v_arrivals alloc ibs fd xs mybuff_init v = Some (m', v') \<and> buff_bytes m' = [] \<and>
    collecting fd i t0 (c @ str_bytes (concat (map (reported w s) ts))) v'"
proof -
  let ?d = "str_bytes (concat (map (reported w s) ts))"
  have "buffer_of ([] @ submit_msg (ag_seq s, ?d)) (ag_send s')"
    using scan_reports [OF assms(1-8), of out] assms(10) by auto
  then have "wire = submit_msg (ag_seq s, ?d)" using assms(11) by (auto simp: buffer_of_def split: option.splits)
  then show ?thesis
    using submissions_collected [OF assms(14-17,13), of "[(ag_seq s, ?d)]"] assms(9,12) by simp
qed

lemma reports_reach_the_master_witness:
  "\<exists>wire m' v'. v_arrivals zero_alloc 64 3 [(sample_vw, take 5 wire), (sample_vw, drop 5 wire)] mybuff_init sample_voss = Some (m', v') \<and>
     collecting 3 0 0 ([1, 2, 3] @ str_bytes (reported sample_aw sample_agent 9)) v'"
proof -
  have q: "vfstask sample_agent TASK_CLEAN = [9]" "vfstask sample_agent TASK_SYNC_VOSS = []" by (simp_all add: sample_agent_def queue_defs)
  have ip: "ip2str 0 = ''0.0.0.0''" by code_simp
  have n: "length (concat (map (reported sample_aw sample_agent) [9])) < 2 ^ 31 - 12"
    by (simp add: reported_def mark_late_def sample_agent_def sample_aw_def sample_mw_def calm_def zero_tasklist_def zero_task_def
        zero_base_def zero_sub_def report_line_def task_status_def over_status_def queue_defs ip show_int_def
        show_nat.simps)
  obtain out' s' where d: "do_scan sample_aw True 0 sample_agent = (out', s')" by (cases "do_scan sample_aw True 0 sample_agent")
  have "\<exists>s'. do_scan sample_aw True 0 sample_agent = (or1 0, s') \<and> queues_ok s' \<and>
    vfstask s' = (vfstask sample_agent)(TASK_CLEAN := [], TASK_HOME := vfstask sample_agent TASK_HOME @ [9]) \<and>
    (\<forall>t. if t \<in> set [9] then tl_task (tasks s' t) = zero_task else tasks s' t = tasks sample_agent t) \<and>
    buffer_of ([] @ submit_msg (ag_seq sample_agent, str_bytes (concat (map (reported sample_aw sample_agent) [9])))) (ag_send s') \<and>
    buffer_of [] (ag_data s')"
    by (rule scan_reports [OF sample_unlocked(2) sample_roomy sample_queues(1) q(1) _ sample_buffers]) (simp_all add: q(2))
  then obtain s2 where s2: "do_scan sample_aw True 0 sample_agent = (or1 0, s2)"
      "buffer_of ([] @ submit_msg (ag_seq sample_agent, str_bytes (concat (map (reported sample_aw sample_agent) [9])))) (ag_send s2)"
    by blast
  let ?wire = "submit_msg (ag_seq sample_agent, str_bytes (concat (map (reported sample_aw sample_agent) [9])))"
  have b: "buffer_of ?wire (ag_send s')" using s2 d by simp
  have "\<exists>m' v'. v_arrivals zero_alloc 64 3 [(sample_vw, take 5 ?wire), (sample_vw, drop 5 ?wire)] mybuff_init sample_voss = Some (m', v') \<and>
      buff_bytes m' = [] \<and> collecting 3 0 0 ([1, 2, 3] @ str_bytes (concat (map (reported sample_aw sample_agent) [9]))) v'"
    by (rule reports_reach_the_master [OF sample_unlocked(2) sample_roomy sample_queues(1) q(1) _ sample_buffers _ n d b _ _
        alloc_ok_zero _ sample_collecting]) (simp_all add: q(2) sample_keeps)
  then show ?thesis by auto
qed

section \<open>The event loop and the HTTP server\<close>

text \<open>
  C25: the event loop of the HTTP server closes only what is its own: in every state it reaches the
  descriptors that were open before it started are open, every connection it watches and every file
  it sends is open and none of those, no file is a connection, and no two connections send from one descriptor.
\<close>

theorem descriptors_stay_apart:
  assumes "kernel_ok (hw_loop w)" and "finite os" and "loop_reachable (http_lib w) (hw_loop w) lfd (loop_boot os now (\<lambda>_. None)) l"
  shows "os \<subseteq> el_open l \<and> (\<forall>fd. is_conn l fd \<longrightarrow> fd \<in> el_open l - os \<and> c_fd (el_conn l fd) = fd) \<and>
    (\<forall>fd. 0 \<le> sending l fd \<longrightarrow> sending l fd \<in> el_open l - os \<and> \<not> is_conn l (sending l fd)) \<and>
    (\<forall>fd fd'. 0 \<le> sending l fd \<and> sending l fd = sending l fd' \<longrightarrow> fd = fd')"
  using el_okD [OF http.reachable_ok [OF assms(1,3) loop_boot_ok [OF assms(2)]]] by blast

lemma descriptors_stay_apart_witness:
  "\<exists>l. loop_reachable (http_lib sample_hw) (hw_loop sample_hw) (Some 2) (loop_boot {0, 1, 2} 0 (\<lambda>_. None)) l \<and> is_conn l 3 \<and> {0, 1, 2} \<subseteq> el_open l"
proof -
  let ?l0 = "loop_boot {0, 1, 2} 0 (\<lambda>_. None) :: http_state evloop"
  let ?e = "\<lparr>ev_fd = 2, ev_mask = 1, ev_recv = [], ev_answer = [], ev_send = [], ev_new = 1\<rparr>"
  obtain l where l: "loop_round (http_lib sample_hw) (hw_loop sample_hw) (Some 2) [?e] 0 ?l0 = Some l" by (auto simp: loop_round_def)
  have r: "loop_reachable (http_lib sample_hw) (hw_loop sample_hw) (Some 2) ?l0 l"
    by (rule loop_reachable.round [OF loop_reachable.start _ l]) simp
  have "next_fd {0, 1, 2} = 3" by (simp add: next_fd_def)
  then have "is_conn l 3"
    using l by (auto simp: loop_round_def loop_timeout_def loop_boot_def sample_hw_def sample_ew_def http_lib_def http_initconn_def Let_def
      is_conn_def add_fd_2_efd_def open_fd_def epoll_add_def el_simps split: prod.splits)
  then show ?thesis using r descriptors_stay_apart [OF sample_kernel_ok _ r] by auto
qed



end
